(* ===== verification/Prelude.thy ===== *)
theory Prelude
  imports Complex_Main "HOL-Library.AList" "HOL-Library.Sublist" "HOL-Library.Multiset"
begin

text \<open>
  Shared vocabulary of the development: JSON values as the gateway reads them, the few
  operations of JavaScript's strings and arrays the sources use, and the generic lemmas the
  components share.

  Strings are lists of 8-bit characters. The modelled code compares code units with ASCII
  characters, measures lengths and cuts at positions; it never asks anything of a code unit
  above 255, so such units would behave like any other character the code does not name.
  JSON numbers are rational and finite: the arithmetic is exact where the code rounds to a
  double, and neither \<open>NaN\<close> nor an infinity has a JSON spelling.
\<close>

section \<open>Collections used by the component proofs\<close>

named_theorems event_simps \<open>projections of the event contract\<close>
named_theorems policy_simps \<open>unfolding rules of the argument and path policies\<close>
named_theorems run_simps \<open>unfolding rules of the execution step functions\<close>

section \<open>JSON values\<close>

datatype json =
    JNull
  | JBool bool
  | JNum rat
  | JStr string
  | JArr "json list"
  | JObj "(string \<times> json) list"

type_synonym payload = "(string \<times> json) list"

definition field :: "payload \<Rightarrow> string \<Rightarrow> json option" where
  "field p k = map_of p k"

definition put :: "string \<Rightarrow> json \<Rightarrow> payload \<Rightarrow> payload" where
  "put k v p = AList.update k v p"

fun as_num :: "json option \<Rightarrow> rat option" where
  "as_num (Some (JNum n)) = Some n"
| "as_num _ = None"

fun as_str :: "json option \<Rightarrow> string option" where
  "as_str (Some (JStr s)) = Some s"
| "as_str _ = None"

fun as_bool :: "json option \<Rightarrow> bool option" where
  "as_bool (Some (JBool b)) = Some b"
| "as_bool _ = None"

lemma field_put [simp]: "field (put k v p) k' = (if k' = k then Some v else field p k')"
  by (simp add: field_def put_def update_conv)

lemma field_Nil [simp]: "field [] k = None"
  by (simp add: field_def)

lemma as_num_Some: "as_num j = Some n \<longleftrightarrow> j = Some (JNum n)"
  by (cases j rule: as_num.cases) auto

lemma as_str_Some: "as_str j = Some s \<longleftrightarrow> j = Some (JStr s)"
  by (cases j rule: as_str.cases) auto

section \<open>Strings\<close>

text \<open>
  The characters \<open>String.prototype.trim\<close> strips, as far as they fit in eight bits: tab, line
  feed, vertical tab, form feed, carriage return, space and no-break space.
\<close>

definition js_space :: "char \<Rightarrow> bool" where
  "js_space c \<longleftrightarrow> c \<in> {CHR 0x09, CHR 0x0A, CHR 0x0B, CHR 0x0C, CHR 0x0D, CHR 0x20, CHR 0xA0}"

definition trim_start :: "string \<Rightarrow> string" where
  "trim_start s = dropWhile js_space s"

definition trim_end :: "string \<Rightarrow> string" where
  "trim_end s = rev (dropWhile js_space (rev s))"

definition js_trim :: "string \<Rightarrow> string" where
  "js_trim s = trim_end (trim_start s)"

text \<open>\<open>String.prototype.split\<close> on a one-character separator (or a class of them).\<close>

fun split_on :: "(char \<Rightarrow> bool) \<Rightarrow> string \<Rightarrow> string list" where
  "split_on P [] = [[]]"
| "split_on P (c # cs) =
     (if P c then [] # split_on P cs
      else case split_on P cs of [] \<Rightarrow> [[c]] | w # ws \<Rightarrow> (c # w) # ws)"

fun join_with :: "string \<Rightarrow> string list \<Rightarrow> string" where
  "join_with sep [] = []"
| "join_with sep [w] = w"
| "join_with sep (w # v # ws) = w @ sep @ join_with sep (v # ws)"

text \<open>\<open>s.slice(-n)\<close>: the last \<open>n\<close> characters, and the whole string when \<open>n\<close> is 0.\<close>

definition slice_last :: "nat \<Rightarrow> string \<Rightarrow> string" where
  "slice_last n s = (if n = 0 then s else drop (length s - n) s)"

text \<open>\<open>s.includes(w)\<close> for a word.\<close>

fun has_word :: "string \<Rightarrow> string \<Rightarrow> bool" where
  "has_word w [] = (w = [])"
| "has_word w (c # cs) = (prefix w (c # cs) \<or> has_word w cs)"

text \<open>\<open>Number.isInteger\<close>.\<close>

definition is_integral :: "rat \<Rightarrow> bool" where
  "is_integral n \<longleftrightarrow> rat_of_int \<lfloor>n\<rfloor> = n"

lemma has_word_iff: "has_word w s \<longleftrightarrow> (\<exists>pre post. s = pre @ w @ post)"
proof (induction s)
  case Nil
  then show ?case by auto
next
  case (Cons c cs)
  have "(\<exists>pre post. c # cs = pre @ w @ post) \<longleftrightarrow>
      prefix w (c # cs) \<or> (\<exists>pre post. cs = pre @ w @ post)"
    by (metis Cons_eq_append_conv append_Cons append_Nil prefix_def)
  with Cons show ?case by simp
qed

lemma is_integral_of_int [simp]: "is_integral (rat_of_int n)"
  by (simp add: is_integral_def)

lemma split_on_not_Nil [simp]: "split_on P s \<noteq> []"
  by (induction s) (simp_all split: list.split)

lemma split_on_parts: "w \<in> set (split_on P s) \<Longrightarrow> c \<in> set w \<Longrightarrow> \<not> P c"
proof (induction s arbitrary: w)
  case Nil
  then show ?case by simp
next
  case (Cons a s)
  then show ?case
    by (cases "split_on P s") (auto split: if_splits, blast)
qed

lemma split_on_no_sep: "\<forall>c \<in> set s. \<not> P c \<Longrightarrow> split_on P s = [s]"
  by (induction s) auto

lemma split_on_append_sep:
  "P c \<Longrightarrow> \<forall>d \<in> set w. \<not> P d \<Longrightarrow> split_on P (w @ c # s) = w # split_on P s"
  by (induction w) auto

lemma join_split: "join_with [c] (split_on (\<lambda>d. d = c) s) = s"
proof (induction s)
  case Nil
  then show ?case by simp
next
  case (Cons a s)
  obtain w ws where ws: "split_on (\<lambda>d. d = c) s = w # ws"
    by (cases "split_on (\<lambda>d. d = c) s") auto
  with Cons show ?case
    by (cases ws) auto
qed

lemma length_slice_last: "0 < n \<Longrightarrow> length (slice_last n s) = min n (length s)"
  by (simp add: slice_last_def)

lemma slice_last_suffix: "suffix (slice_last n s) s"
  by (simp add: slice_last_def suffix_drop)

section \<open>Lists\<close>

lemma find_None_iff': "find P xs = None \<longleftrightarrow> (\<forall>x \<in> set xs. \<not> P x)"
  by (auto simp: find_None_iff)

lemma filter_eq_Nil_iff: "filter P xs = [] \<longleftrightarrow> (\<forall>x \<in> set xs. \<not> P x)"
  by (auto simp: filter_empty_conv)

text \<open>A list sorted by an injective key is determined by its multiset.\<close>

lemma sort_key_unique:
  assumes "mset xs = mset ys" and "distinct (map f xs)"
  shows "sort_key f xs = sort_key f ys"
proof (rule sort_key_inj_key_eq)
  show "mset xs = mset (sort_key f ys)"
    using assms(1) by simp
  show "inj_on f (set xs)"
    using assms(2) by (simp add: distinct_map)
  show "sorted (map f (sort_key f ys))"
    by simp
qed

section \<open>Keyed stores\<close>

text \<open>
  The contract of the in-memory maps: a value is stored under its own key, the latest one is
  found, and a removed key is not.
\<close>

locale keyed_store =
  fixes get :: "'s \<Rightarrow> 'k \<Rightarrow> 'v option"
    and key_of :: "'v \<Rightarrow> 'k"
    and add :: "'v \<Rightarrow> 's \<Rightarrow> 's"
    and delete :: "'k \<Rightarrow> 's \<Rightarrow> 's"
  assumes get_add: "get (add v s) k = (if k = key_of v then Some v else get s k)"
    and get_delete: "get (delete k s) j = (if j = k then None else get s j)"

context keyed_store
begin

lemma get_after_adds:
  "distinct (map key_of vs) \<Longrightarrow> v \<in> set vs \<Longrightarrow> get (fold add vs s) (key_of v) = Some v"
proof (induction vs arbitrary: s)
  case Nil
  then show ?case by simp
next
  case (Cons w ws)
  have other: "get (fold add us t) k = get t k" if "k \<notin> key_of ` set us" for us t k
    using that by (induction us arbitrary: t) (simp_all add: get_add)
  show ?case
  proof (cases "v = w")
    case True
    with Cons.prems(1) show ?thesis by (simp add: other get_add)
  next
    case False
    with Cons show ?thesis by simp
  qed
qed

lemma get_after_deletes: "get (fold delete ks s) k = (if k \<in> set ks then None else get s k)"
  by (induction ks arbitrary: s) (auto simp: get_delete)

lemma add_delete: "get (delete (key_of v) (add v s)) k = get (delete (key_of v) s) k"
  by (simp add: get_add get_delete)

end

end
