(* ===== verification/Observability.thy ===== *)
theory Observability
  imports Prelude
begin

text \<open>
  The canonical event contract of \<^verbatim>\<open>web/backend/src/types/observability.ts\<close>: the event
  types, the event envelope, the session statuses, the engine's outcome words, the session
  record, and the two "terminal" lists every other component consults.

  Timestamps are the epoch milliseconds behind the ISO-8601 strings the gateway writes
  (\<open>Date.toISOString\<close> and \<open>Date.parse\<close> are inverse to each other on them), sequence numbers are
  integers, a \<open>number | null\<close> is an option, and a pid is the number the engine printed.
\<close>

section \<open>Event types and the event envelope\<close>

datatype event_source = Caps | Gateway

datatype event_type =
    Execution_created | Execution_started | Execution_completed | Execution_failed
  | Execution_timeout | Execution_cancelled
  | Command_received | Command_parsed | Command_parse_error
  | Redirection_opened | Redirection_failed
  | Process_started | Process_snapshot | Process_exited | Process_exec_error
  | Process_wait_failed
  | Pipeline_parsed | Pipeline_started | Pipeline_completed
  | Process_launch_failed | Signal_received | Session_summary

definition TERMINAL_EVENT_TYPES :: "event_type list" where
  "TERMINAL_EVENT_TYPES =
     [Execution_completed, Execution_failed, Execution_timeout, Execution_cancelled]"

definition isTerminalEventType :: "event_type \<Rightarrow> bool" where
  "isTerminalEventType t \<longleftrightarrow> t \<in> set TERMINAL_EVENT_TYPES"

record canonical_event =
  evId :: string
  evSessionId :: string
  evSequence :: int
  evType :: event_type
  evSource :: event_source
  evTimestamp :: int
  evMonotonicMs :: "rat option"
  evPid :: "rat option"
  evPayload :: payload

section \<open>Session statuses and outcomes\<close>

datatype session_status =
    CREATED | STARTING | RUNNING | COMPLETED | FAILED | TIMED_OUT | CANCELLED

definition TERMINAL_SESSION_STATUSES :: "session_status list" where
  "TERMINAL_SESSION_STATUSES = [COMPLETED, FAILED, TIMED_OUT, CANCELLED]"

definition isTerminalStatus :: "session_status \<Rightarrow> bool" where
  "isTerminalStatus s \<longleftrightarrow> s \<in> set TERMINAL_SESSION_STATUSES"

datatype engine_outcome =
    O_COMPLETED | O_EXITED | O_SIGNALED | O_EXEC_FAILED | O_LAUNCH_FAILED | O_WAIT_FAILED

text \<open>The outcome words as they appear in a payload.\<close>

fun outcome_word :: "engine_outcome \<Rightarrow> string" where
  "outcome_word O_COMPLETED = ''COMPLETED''"
| "outcome_word O_EXITED = ''EXITED''"
| "outcome_word O_SIGNALED = ''SIGNALED''"
| "outcome_word O_EXEC_FAILED = ''EXEC_FAILED''"
| "outcome_word O_LAUNCH_FAILED = ''LAUNCH_FAILED''"
| "outcome_word O_WAIT_FAILED = ''WAIT_FAILED''"

record redirection_spec =
  rdIn :: "string option"
  rdOut :: "string option"
  rdAppend :: "string option"

section \<open>Lemmas\<close>

lemma isTerminalEventType_simps [simp]:
  "isTerminalEventType Execution_completed" "isTerminalEventType Execution_failed"
  "isTerminalEventType Execution_timeout" "isTerminalEventType Execution_cancelled"
  by (simp_all add: isTerminalEventType_def TERMINAL_EVENT_TYPES_def)

lemma not_isTerminalEventType_simps [simp]:
  "\<not> isTerminalEventType Execution_created" "\<not> isTerminalEventType Execution_started"
  "\<not> isTerminalEventType Command_received" "\<not> isTerminalEventType Command_parsed"
  "\<not> isTerminalEventType Command_parse_error" "\<not> isTerminalEventType Redirection_opened"
  "\<not> isTerminalEventType Redirection_failed" "\<not> isTerminalEventType Process_started"
  "\<not> isTerminalEventType Process_snapshot" "\<not> isTerminalEventType Process_exited"
  "\<not> isTerminalEventType Process_exec_error" "\<not> isTerminalEventType Process_wait_failed"
  "\<not> isTerminalEventType Pipeline_parsed" "\<not> isTerminalEventType Pipeline_started"
  "\<not> isTerminalEventType Pipeline_completed" "\<not> isTerminalEventType Process_launch_failed"
  "\<not> isTerminalEventType Signal_received" "\<not> isTerminalEventType Session_summary"
  by (simp_all add: isTerminalEventType_def TERMINAL_EVENT_TYPES_def)

lemma isTerminalEventType_cases:
  "isTerminalEventType t \<longleftrightarrow>
     t = Execution_completed \<or> t = Execution_failed \<or> t = Execution_timeout \<or>
     t = Execution_cancelled"
  by (cases t) auto

lemma isTerminalStatus_simps [simp]:
  "isTerminalStatus COMPLETED" "isTerminalStatus FAILED"
  "isTerminalStatus TIMED_OUT" "isTerminalStatus CANCELLED"
  "\<not> isTerminalStatus CREATED" "\<not> isTerminalStatus STARTING" "\<not> isTerminalStatus RUNNING"
  by (simp_all add: isTerminalStatus_def TERMINAL_SESSION_STATUSES_def)

lemma isTerminalStatus_cases:
  "isTerminalStatus s \<longleftrightarrow> s = COMPLETED \<or> s = FAILED \<or> s = TIMED_OUT \<or> s = CANCELLED"
  by (cases s) auto

lemma outcome_word_inject [simp]: "outcome_word a = outcome_word b \<longleftrightarrow> a = b"
  by (cases a; cases b) auto

end
