(* ===== verification/Event_Invariants.thy ===== *)
theory Event_Invariants
  imports Observability
begin

text \<open>
  \<^verbatim>\<open>web/backend/src/events/invariants.ts\<close>: the validator of one session's event stream.  Each
  numbered block of \<open>validateEventStream\<close> is one definition; \<open>validateEventStream\<close> composes
  them in the order of the code.  A message is the value its template interpolates, one
  constructor per template.  The second half states what a coherent stream is without any
  loop and proves that the validator accepts exactly the coherent streams.
\<close>

section \<open>Violations\<close>

datatype invariant_id =
    I1_single_session | I2_unique_sequence | I3_increasing_sequence | I4_contiguous_sequence
  | I5_single_terminal | I6_terminal_is_last | I7_no_snapshot_after_terminal
  | I8_unique_event_id | I9_origin_event | I10_terminal_present_when_finalized
  | I11_no_orphan_process_lifecycle | I12_success_has_process_exit
  | I13_payload_not_corrupt | I14_pipeline_stages_accounted

datatype severity = Sev_error | Sev_warning

datatype inv_message =
    M_mixes nat "string list"
  | M_sequence_repeated int
  | M_id_repeated string
  | M_did_not_increase int int
  | M_expected_sequence int int
  | M_terminal_events nat
  | M_terminal_not_last event_type int event_type int
  | M_late_samples nat
  | M_begins_with event_type
  | M_row_final_stream_open session_status
  | M_stream_final_row_open event_type session_status
  | M_orphan event_type "rat option" rat
  | M_stage_unaccounted rat int
  | M_stage_outside event_type rat rat
  | M_success_without_exit
  | M_unreadable_payload string "json option"

record invariant_violation =
  vInvariant :: invariant_id
  vSeverity :: severity
  vMessage :: inv_message
  vSequences :: "int list"
  vEventIds :: "string list"

definition violation ::
    "invariant_id \<Rightarrow> inv_message \<Rightarrow> canonical_event list \<Rightarrow> severity \<Rightarrow> invariant_violation" where
  "violation i msg es sev =
     \<lparr>vInvariant = i, vSeverity = sev, vMessage = msg,
      vSequences = map evSequence es, vEventIds = map evId es\<rparr>"

record stream_summary =
  smSessionId :: "string option"
  smEventCount :: nat
  smFirstSequence :: "int option"
  smLastSequence :: "int option"
  smTerminalType :: "event_type option"
  smTerminalSequence :: "int option"

record validation_result =
  vrValid :: bool
  vrErrorCount :: nat
  vrWarningCount :: nat
  vrViolations :: "invariant_violation list"
  vrSummary :: stream_summary

definition LIFECYCLE_TYPES :: "event_type list" where
  "LIFECYCLE_TYPES = [Process_exited, Process_exec_error, Process_wait_failed]"

definition is_lifecycle :: "canonical_event \<Rightarrow> bool" where
  "is_lifecycle e \<longleftrightarrow> evType e \<in> set LIFECYCLE_TYPES"

definition ev_stage :: "canonical_event \<Rightarrow> rat option" where
  "ev_stage e = as_num (field (evPayload e) ''stage'')"

definition ev_stages :: "canonical_event \<Rightarrow> rat option" where
  "ev_stages e = as_num (field (evPayload e) ''stages'')"

section \<open>The checks, in the order of the code\<close>

text \<open>A JavaScript \<open>Set\<close> built from a list keeps the first occurrence of each element.\<close>

definition js_set :: "'a list \<Rightarrow> 'a list" where
  "js_set xs = rev (remdups (rev xs))"

definition check_sessions :: "canonical_event list \<Rightarrow> invariant_violation list" where
  "check_sessions s =
     (let ids = js_set (map evSessionId s)
      in if length ids > 1
         then [violation I1_single_session (M_mixes (length ids) ids) s Sev_error] else [])"

fun check_unique ::
    "int set \<Rightarrow> string set \<Rightarrow> canonical_event list \<Rightarrow> invariant_violation list" where
  "check_unique seqs ids [] = []"
| "check_unique seqs ids (e # es) =
     (if evSequence e \<in> seqs
      then [violation I2_unique_sequence (M_sequence_repeated (evSequence e)) [e] Sev_error]
      else []) @
     (if evId e \<in> ids
      then [violation I8_unique_event_id (M_id_repeated (evId e)) [e] Sev_error] else []) @
     check_unique (insert (evSequence e) seqs) (insert (evId e) ids) es"

fun check_increasing :: "canonical_event list \<Rightarrow> invariant_violation list" where
  "check_increasing (a # b # es) =
     (if evSequence b \<le> evSequence a
      then [violation I3_increasing_sequence
              (M_did_not_increase (evSequence a) (evSequence b)) [a, b] Sev_error]
      else []) @ check_increasing (b # es)"
| "check_increasing _ = []"

fun check_contiguous :: "int \<Rightarrow> canonical_event list \<Rightarrow> invariant_violation list" where
  "check_contiguous i [] = []"
| "check_contiguous i (e # es) =
     (if evSequence e \<noteq> i
      then [violation I4_contiguous_sequence (M_expected_sequence i (evSequence e)) [e] Sev_error]
      else check_contiguous (i + 1) es)"

text \<open>
  The code compares the last event and the first terminal event as objects; the rows a stream
  is read from are separate objects, so "is not the last event" is a statement about positions.
\<close>

definition terminal_events :: "canonical_event list \<Rightarrow> canonical_event list" where
  "terminal_events s = filter (\<lambda>e. isTerminalEventType (evType e)) s"

definition from_terminal :: "canonical_event list \<Rightarrow> canonical_event list" where
  "from_terminal s = dropWhile (\<lambda>e. \<not> isTerminalEventType (evType e)) s"

definition check_terminal :: "canonical_event list \<Rightarrow> invariant_violation list" where
  "check_terminal s =
     (let ts = terminal_events s in
      (if length ts > 1
       then [violation I5_single_terminal (M_terminal_events (length ts)) ts Sev_error] else []) @
      (case from_terminal s of
         [] \<Rightarrow> []
       | t # rest \<Rightarrow>
           (if rest \<noteq> []
            then [violation I6_terminal_is_last
                    (M_terminal_not_last (evType t) (evSequence t)
                       (evType (last s)) (evSequence (last s))) [t, last s] Sev_error]
            else []) @
           (let late = filter (\<lambda>e. evType e = Process_snapshot)
                         (filter (\<lambda>e. evSequence e > evSequence t) s)
            in if late \<noteq> []
               then [violation I7_no_snapshot_after_terminal (M_late_samples (length late))
                       late Sev_error]
               else [])))"

definition check_origin :: "canonical_event list \<Rightarrow> invariant_violation list" where
  "check_origin s =
     (case s of
        [] \<Rightarrow> []
      | e # _ \<Rightarrow>
          if evType e \<noteq> Execution_created
          then [violation I9_origin_event (M_begins_with (evType e)) [e] Sev_error] else [])"

definition first_terminal :: "canonical_event list \<Rightarrow> canonical_event option" where
  "first_terminal s = (case terminal_events s of [] \<Rightarrow> None | t # _ \<Rightarrow> Some t)"

definition check_status ::
    "session_status option \<Rightarrow> canonical_event list \<Rightarrow> invariant_violation list" where
  "check_status status s =
     (case status of
        None \<Rightarrow> []
      | Some st \<Rightarrow>
          (let finalized = st \<in> set [COMPLETED, FAILED, TIMED_OUT, CANCELLED] in
           (case first_terminal s of
              None \<Rightarrow>
                if finalized
                then [violation I10_terminal_present_when_finalized
                        (M_row_final_stream_open st) [] Sev_error] else []
            | Some t \<Rightarrow>
                if \<not> finalized
                then [violation I10_terminal_present_when_finalized
                        (M_stream_final_row_open (evType t) st) [t] Sev_error] else [])))"

text \<open>
  The key of a process is \<open>pid@stage\<close>, written here as the pair; an event that names no stage
  has stage \<open>-1\<close>, and one that names no pid has no key.
\<close>

definition process_key :: "canonical_event \<Rightarrow> (rat \<times> rat) option" where
  "process_key e =
     (case evPid e of
        None \<Rightarrow> None
      | Some pid \<Rightarrow> Some (pid, case ev_stage e of None \<Rightarrow> -1 | Some n \<Rightarrow> n))"

fun check_orphans ::
    "(rat \<times> rat) set \<Rightarrow> canonical_event list \<Rightarrow> invariant_violation list" where
  "check_orphans started [] = []"
| "check_orphans started (e # es) =
     (let started' = (case process_key e of
                        Some k \<Rightarrow> if evType e = Process_started then insert k started else started
                      | None \<Rightarrow> started)
      in (case process_key e of
            Some k \<Rightarrow>
              if is_lifecycle e \<and> k \<notin> started'
              then [violation I11_no_orphan_process_lifecycle
                      (M_orphan (evType e) (evPid e) (snd k)) [e] Sev_error]
              else []
          | None \<Rightarrow> []) @ check_orphans started' es)"

definition terminated_stages :: "canonical_event list \<Rightarrow> rat set" where
  "terminated_stages s =
     set (List.map_filter (\<lambda>e. if is_lifecycle e then ev_stage e else None) s)"

definition stage_indices :: "rat \<Rightarrow> int list" where
  "stage_indices declared = map int [0..<nat \<lceil>declared\<rceil>]"

definition check_pipeline_completed :: "canonical_event list \<Rightarrow> invariant_violation list" where
  "check_pipeline_completed s =
     (case find (\<lambda>e. evType e = Pipeline_completed) s of
        None \<Rightarrow> []
      | Some c \<Rightarrow>
          (let declared = (case ev_stages c of None \<Rightarrow> 0 | Some n \<Rightarrow> n)
           in if declared > 0
              then concat (map (\<lambda>k.
                     if rat_of_int k \<notin> terminated_stages s
                     then [violation I14_pipeline_stages_accounted
                             (M_stage_unaccounted declared k) [c] Sev_error]
                     else []) (stage_indices declared))
              else []))"

fun max_declared :: "rat option \<Rightarrow> canonical_event list \<Rightarrow> rat option" where
  "max_declared acc [] = acc"
| "max_declared acc (e # es) =
     (case ev_stages e of
        None \<Rightarrow> max_declared acc es
      | Some n \<Rightarrow> max_declared (Some (case acc of None \<Rightarrow> n | Some m \<Rightarrow> max m n)) es)"

definition declared_stages :: "canonical_event list \<Rightarrow> rat option" where
  "declared_stages s = max_declared None s"

definition check_stage_range :: "canonical_event list \<Rightarrow> invariant_violation list" where
  "check_stage_range s =
     (case declared_stages s of
        None \<Rightarrow> []
      | Some d \<Rightarrow>
          if d > 0
          then concat (map (\<lambda>e.
                 case ev_stage e of
                   None \<Rightarrow> []
                 | Some n \<Rightarrow>
                     if n < -1 \<or> n \<ge> d
                     then [violation I14_pipeline_stages_accounted
                             (M_stage_outside (evType e) n d) [e] Sev_error]
                     else []) s)
          else [])"

definition clean_exit :: "canonical_event \<Rightarrow> bool" where
  "clean_exit e \<longleftrightarrow> evType e = Process_exited \<and> field (evPayload e) ''exitCode'' = Some (JNum 0)"

definition check_success :: "canonical_event list \<Rightarrow> invariant_violation list" where
  "check_success s =
     (case first_terminal s of
        None \<Rightarrow> []
      | Some t \<Rightarrow>
          if evType t = Execution_completed \<and> filter clean_exit s = []
          then [violation I12_success_has_process_exit M_success_without_exit [t] Sev_error]
          else [])"

definition check_payloads :: "canonical_event list \<Rightarrow> invariant_violation list" where
  "check_payloads s =
     concat (map (\<lambda>e.
       if field (evPayload e) ''payloadCorrupt'' = Some (JBool True)
       then [violation I13_payload_not_corrupt
               (M_unreadable_payload (evId e) (field (evPayload e) ''payloadError'')) [e]
               Sev_warning]
       else []) s)"

section \<open>The validator\<close>

definition sorted_stream :: "canonical_event list \<Rightarrow> canonical_event list" where
  "sorted_stream es = sort_key evSequence es"

definition stream_violations ::
    "session_status option \<Rightarrow> canonical_event list \<Rightarrow> invariant_violation list" where
  "stream_violations status s =
     check_sessions s @ check_unique {} {} s @ check_increasing s @ check_contiguous 0 s @
     check_terminal s @ check_origin s @ check_status status s @ check_orphans {} s @
     check_pipeline_completed s @ check_stage_range s @ check_success s @ check_payloads s"

definition validateEventStream ::
    "canonical_event list \<Rightarrow> session_status option \<Rightarrow> validation_result" where
  "validateEventStream events status =
     (let s = sorted_stream events;
          vs = stream_violations status s;
          errorCount = length (filter (\<lambda>v. vSeverity v = Sev_error) vs);
          ids = js_set (map evSessionId s)
      in \<lparr>vrValid = (errorCount = 0), vrErrorCount = errorCount,
          vrWarningCount = length vs - errorCount, vrViolations = vs,
          vrSummary = \<lparr>smSessionId = (if length ids = 1 then Some (hd ids) else None),
                       smEventCount = length s,
                       smFirstSequence = (case s of [] \<Rightarrow> None | e # _ \<Rightarrow> Some (evSequence e)),
                       smLastSequence = (if s = [] then None else Some (evSequence (last s))),
                       smTerminalType = map_option evType (first_terminal s),
                       smTerminalSequence = map_option evSequence (first_terminal s)\<rparr>\<rparr>)"

datatype validation_text =
    Stream_is_valid
  | Valid_with_warnings "(invariant_id \<times> inv_message) list"
  | INVALID "(invariant_id \<times> inv_message) list"

definition describeValidation :: "validation_result \<Rightarrow> validation_text" where
  "describeValidation r =
     (if vrValid r \<and> vrWarningCount r = 0 then Stream_is_valid
      else let parts = map (\<lambda>v. (vInvariant v, vMessage v)) (vrViolations r)
           in if vrValid r then Valid_with_warnings parts else INVALID parts)"

section \<open>What a coherent stream is\<close>

text \<open>
  No loop, no accumulator: a coherent stream belongs to one session, is numbered
  \<open>0, 1, 2, \<dots>\<close>, has distinct event ids, begins with its creation, ends with its only
  terminal event if it has one, agrees with the session row, pairs every lifecycle event with
  an earlier start of the same process, accounts for every stage it declares, and claims
  success only when a process exited with code 0.
\<close>

definition one_session :: "canonical_event list \<Rightarrow> bool" where
  "one_session s \<longleftrightarrow> (\<forall>e \<in> set s. \<forall>e' \<in> set s. evSessionId e = evSessionId e')"

definition numbered :: "canonical_event list \<Rightarrow> bool" where
  "numbered s \<longleftrightarrow> map evSequence s = map int [0..<length s]"

definition ends_once :: "canonical_event list \<Rightarrow> bool" where
  "ends_once s \<longleftrightarrow> (\<forall>e \<in> set (butlast s). \<not> isTerminalEventType (evType e))"

definition has_terminal :: "canonical_event list \<Rightarrow> bool" where
  "has_terminal s \<longleftrightarrow> (\<exists>e \<in> set s. isTerminalEventType (evType e))"

definition lifecycle_paired :: "canonical_event list \<Rightarrow> bool" where
  "lifecycle_paired s \<longleftrightarrow>
     (\<forall>pre e post k. s = pre @ e # post \<and> is_lifecycle e \<and> process_key e = Some k \<longrightarrow>
        (\<exists>x \<in> set pre. evType x = Process_started \<and> process_key x = Some k))"

definition stages_accounted :: "canonical_event list \<Rightarrow> bool" where
  "stages_accounted s \<longleftrightarrow>
     (\<forall>c d. find (\<lambda>e. evType e = Pipeline_completed) s = Some c \<and> ev_stages c = Some d \<longrightarrow>
        (\<forall>k::nat. of_nat k < d \<longrightarrow>
           (\<exists>e \<in> set s. is_lifecycle e \<and> ev_stage e = Some (of_nat k))))"

definition stages_in_range :: "canonical_event list \<Rightarrow> bool" where
  "stages_in_range s \<longleftrightarrow>
     (\<forall>d. declared_stages s = Some d \<and> 0 < d \<longrightarrow>
        (\<forall>e \<in> set s. \<forall>n. ev_stage e = Some n \<longrightarrow> -1 \<le> n \<and> n < d))"

definition success_evident :: "canonical_event list \<Rightarrow> bool" where
  "success_evident s \<longleftrightarrow>
     (s \<noteq> [] \<and> evType (last s) = Execution_completed \<longrightarrow> (\<exists>e \<in> set s. clean_exit e))"

definition coherent_stream :: "session_status option \<Rightarrow> canonical_event list \<Rightarrow> bool" where
  "coherent_stream status s \<longleftrightarrow>
     one_session s \<and> numbered s \<and> distinct (map evId s) \<and>
     (s \<noteq> [] \<longrightarrow> evType (hd s) = Execution_created) \<and> ends_once s \<and>
     (\<forall>st. status = Some st \<longrightarrow> isTerminalStatus st = has_terminal s) \<and>
     lifecycle_paired s \<and> stages_accounted s \<and> stages_in_range s \<and> success_evident s"

section \<open>Each check against its meaning\<close>

lemma set_js_set [simp]: "set (js_set xs) = set xs"
  by (simp add: js_set_def)

lemma distinct_js_set [simp]: "distinct (js_set xs)"
  by (simp add: js_set_def)

lemma length_js_set_le_1: "length (js_set xs) \<le> 1 \<longleftrightarrow> (\<forall>x \<in> set xs. \<forall>y \<in> set xs. x = y)"
proof -
  have "length (js_set xs) = card (set xs)"
    by (metis distinct_card distinct_js_set set_js_set)
  then show ?thesis
    by (simp add: card_le_Suc0_iff_eq)
qed

lemma check_sessions_ok [event_simps]: "check_sessions s = [] \<longleftrightarrow> one_session s"
proof -
  have "check_sessions s = [] \<longleftrightarrow> length (js_set (map evSessionId s)) \<le> 1"
    by (simp add: check_sessions_def Let_def not_less)
  then show ?thesis
    by (simp only: length_js_set_le_1) (simp add: one_session_def)
qed

lemma check_unique_ok [event_simps]:
  "check_unique seqs ids s = [] \<longleftrightarrow>
     distinct (map evSequence s) \<and> distinct (map evId s) \<and>
     evSequence ` set s \<inter> seqs = {} \<and> evId ` set s \<inter> ids = {}"
  by (induction s arbitrary: seqs ids) auto

lemma check_contiguous_ok [event_simps]:
  "check_contiguous (int i) s = [] \<longleftrightarrow> map evSequence s = map int [i..<i + length s]"
proof (induction s arbitrary: i)
  case Nil
  then show ?case by simp
next
  case (Cons e s)
  have "[i..<i + length (e # s)] = i # [Suc i..<Suc i + length s]"
    by (subst upt_conv_Cons) simp_all
  moreover have "1 + int i = int i + 1" by simp
  ultimately show ?case
    using Cons.IH [of "Suc i"] by (simp del: upt_Suc) (metis add.commute)
qed

lemma numbered_distinct: "numbered s \<Longrightarrow> distinct (map evSequence s)"
  by (simp add: numbered_def distinct_map)

lemma check_increasing_ok [event_simps]:
  "check_increasing s = [] \<longleftrightarrow> sorted_wrt (<) (map evSequence s)"
  by (induction s rule: check_increasing.induct)
     (auto simp: not_le intro: less_trans)

lemma numbered_increasing: "numbered s \<Longrightarrow> sorted_wrt (<) (map evSequence s)"
  by (simp add: numbered_def sorted_wrt_map)


lemma check_origin_ok [event_simps]:
  "check_origin s = [] \<longleftrightarrow> (s \<noteq> [] \<longrightarrow> evType (hd s) = Execution_created)"
  by (cases s) (auto simp: check_origin_def)

lemma first_terminal_None [event_simps]: "first_terminal s = None \<longleftrightarrow> \<not> has_terminal s"
proof -
  have "first_terminal s = None \<longleftrightarrow> terminal_events s = []"
    by (simp add: first_terminal_def split: list.split)
  then show ?thesis
    by (simp add: terminal_events_def has_terminal_def filter_empty_conv)
qed

lemma check_status_ok [event_simps]:
  "check_status status s = [] \<longleftrightarrow>
     (\<forall>st. status = Some st \<longrightarrow> isTerminalStatus st = has_terminal s)"
  using first_terminal_None [of s]
  by (cases status)
     (auto simp: check_status_def isTerminalStatus_cases Let_def split: option.splits)

text \<open>
  The terminal block: a stream passes I5 and I6 exactly when no event but the last is
  terminal, and a numbered stream that does so has nothing after its terminal event.
\<close>

lemma ends_once_Cons:
  "ends_once (e # s) \<longleftrightarrow> (s = [] \<or> \<not> isTerminalEventType (evType e) \<and> ends_once s)"
  by (auto simp: ends_once_def)

lemma from_terminal_Nil: "from_terminal s = [] \<longleftrightarrow> \<not> has_terminal s"
  by (auto simp: from_terminal_def has_terminal_def dropWhile_eq_Nil_conv)

lemma ends_once_from_terminal:
  "ends_once s \<longleftrightarrow> length (from_terminal s) \<le> 1"
proof (induction s)
  case Nil
  then show ?case by (simp add: ends_once_def from_terminal_def)
next
  case (Cons e s)
  then show ?case
    by (auto simp: ends_once_Cons from_terminal_def)
qed

lemma from_terminal_terminal: "from_terminal s = t # rest \<Longrightarrow> isTerminalEventType (evType t)"
  by (simp add: from_terminal_def dropWhile_eq_Cons_conv)

lemma from_terminal_singleton:
  assumes "from_terminal s = [t]"
  shows "\<exists>pre. s = pre @ [t] \<and> (\<forall>e \<in> set pre. \<not> isTerminalEventType (evType e)) \<and>
    terminal_events s = [t]"
proof -
  let ?P = "\<lambda>e. \<not> isTerminalEventType (evType e)"
  have s: "s = takeWhile ?P s @ [t]"
    using assms takeWhile_dropWhile_id [of ?P s] by (simp add: from_terminal_def)
  moreover have pre: "\<forall>e \<in> set (takeWhile ?P s). ?P e"
    by (blast dest: set_takeWhileD)
  moreover have "terminal_events s = [t]"
    using pre from_terminal_terminal [OF assms]
    by (subst s) (simp add: terminal_events_def)
  ultimately show ?thesis by blast
qed

lemma terminal_events_ends_once: "ends_once s \<Longrightarrow> length (terminal_events s) \<le> 1"
  by (induction s) (auto simp: ends_once_Cons terminal_events_def)

lemma numbered_last_max:
  assumes "numbered (pre @ [t])" and "e \<in> set (pre @ [t])"
  shows "evSequence e \<le> evSequence t"
proof -
  let ?n = "length (pre @ [t])"
  have m: "map evSequence (pre @ [t]) = map int [0..<?n]"
    using assms(1) by (simp add: numbered_def)
  then have "last (map evSequence (pre @ [t])) = last (map int [0..<?n])" by simp
  then have t: "evSequence t = int (?n - 1)" by (simp add: last_map)
  have "evSequence e \<in> set (map int [0..<?n])"
    using assms(2) m by (metis image_eqI set_map)
  then show ?thesis using t by auto
qed

lemma check_terminal_ok:
  assumes "numbered s"
  shows "check_terminal s = [] \<longleftrightarrow> ends_once s"
proof (cases "from_terminal s")
  case Nil
  then show ?thesis
    using terminal_events_ends_once [of s] ends_once_from_terminal [of s]
    by (simp add: check_terminal_def Let_def)
next
  case (Cons t rest)
  show ?thesis
  proof (cases rest)
    case Nil
    with Cons have one: "from_terminal s = [t]" by simp
    then obtain pre where s: "s = pre @ [t]" and ts: "terminal_events s = [t]"
      using from_terminal_singleton by blast
    have "\<forall>e \<in> set s. \<not> evSequence t < evSequence e"
      using numbered_last_max assms s by (metis not_less)
    then have "filter (\<lambda>e. evSequence t < evSequence e) s = []"
      by (simp add: filter_empty_conv)
    then show ?thesis
      using one ts ends_once_from_terminal [of s] by (simp add: check_terminal_def Let_def)
  next
    case (Cons a list)
    then show ?thesis
      using \<open>from_terminal s = t # rest\<close> ends_once_from_terminal [of s]
      by (simp add: check_terminal_def Let_def)
  qed
qed

definition paired_after :: "(rat \<times> rat) set \<Rightarrow> canonical_event list \<Rightarrow> bool" where
  "paired_after started s \<longleftrightarrow>
     (\<forall>pre e post k. s = pre @ e # post \<and> is_lifecycle e \<and> process_key e = Some k \<longrightarrow>
        k \<in> started \<or> (\<exists>x \<in> set pre. evType x = Process_started \<and> process_key x = Some k))"

lemma paired_after_Nil: "paired_after started []"
  by (simp add: paired_after_def)

lemma paired_after_Cons:
  "paired_after started (e # s) \<longleftrightarrow>
     (\<forall>k. is_lifecycle e \<and> process_key e = Some k \<longrightarrow> k \<in> started) \<and>
     paired_after (started \<union> {k. evType e = Process_started \<and> process_key e = Some k}) s"
  (is "?l \<longleftrightarrow> ?r")
proof
  assume l: ?l
  have "\<forall>k. is_lifecycle e \<and> process_key e = Some k \<longrightarrow> k \<in> started"
    using l unfolding paired_after_def by (metis append_Nil list.set(1) empty_iff)
  moreover have "paired_after (started \<union> {k. evType e = Process_started \<and> process_key e = Some k}) s"
    unfolding paired_after_def
  proof (intro allI impI)
    fix pre x post k
    assume "s = pre @ x # post \<and> is_lifecycle x \<and> process_key x = Some k"
    then have "e # s = (e # pre) @ x # post" "is_lifecycle x" "process_key x = Some k" by auto
    with l have "k \<in> started \<or> (\<exists>y \<in> set (e # pre). evType y = Process_started \<and> process_key y = Some k)"
      unfolding paired_after_def by blast
    then show "k \<in> started \<union> {k. evType e = Process_started \<and> process_key e = Some k} \<or>
        (\<exists>y \<in> set pre. evType y = Process_started \<and> process_key y = Some k)"
      by auto
  qed
  ultimately show ?r by blast
next
  assume r: ?r
  show ?l
    unfolding paired_after_def
  proof (intro allI impI)
    fix pre x post k
    assume a: "e # s = pre @ x # post \<and> is_lifecycle x \<and> process_key x = Some k"
    show "k \<in> started \<or> (\<exists>y \<in> set pre. evType y = Process_started \<and> process_key y = Some k)"
    proof (cases pre)
      case Nil
      with a r show ?thesis by auto
    next
      case (Cons p pre')
      with a have "s = pre' @ x # post" "p = e" by auto
      with a r have "k \<in> started \<union> {k. evType e = Process_started \<and> process_key e = Some k} \<or>
          (\<exists>y \<in> set pre'. evType y = Process_started \<and> process_key y = Some k)"
        unfolding paired_after_def by blast
      with Cons \<open>p = e\<close> show ?thesis by auto
    qed
  qed
qed

lemma lifecycle_not_started: "is_lifecycle e \<Longrightarrow> evType e \<noteq> Process_started"
  by (auto simp: is_lifecycle_def LIFECYCLE_TYPES_def)

lemma check_orphans_paired: "check_orphans started s = [] \<longleftrightarrow> paired_after started s"
proof (induction s arbitrary: started)
  case Nil
  then show ?case by (simp add: paired_after_Nil)
next
  case (Cons e s)
  then show ?case
    by (cases "process_key e")
       (auto simp: paired_after_Cons Let_def dest: lifecycle_not_started)
qed

lemma check_orphans_ok [event_simps]: "check_orphans {} s = [] \<longleftrightarrow> lifecycle_paired s"
  by (simp add: check_orphans_paired paired_after_def lifecycle_paired_def)

lemma in_terminated_stages:
  "n \<in> terminated_stages s \<longleftrightarrow> (\<exists>e \<in> set s. is_lifecycle e \<and> ev_stage e = Some n)"
  by (force simp: terminated_stages_def List.map_filter_def split: if_splits)

lemma stage_indices_iff: "k \<in> set (stage_indices d) \<longleftrightarrow> 0 \<le> k \<and> of_int k < d"
  by (auto simp: stage_indices_def image_iff less_ceiling_iff zless_nat_eq_int_zless
      intro!: bexI [of _ "nat k"])

lemma check_pipeline_completed_ok [event_simps]:
  "check_pipeline_completed s = [] \<longleftrightarrow> stages_accounted s"
proof -
  have idx: "(\<forall>k \<in> set (stage_indices d). of_int k \<in> terminated_stages s) \<longleftrightarrow>
      (\<forall>k::nat. of_nat k < d \<longrightarrow> of_nat k \<in> terminated_stages s)" for d
  proof (intro iffI allI ballI impI)
    fix k :: nat
    assume "\<forall>k \<in> set (stage_indices d). of_int k \<in> terminated_stages s" and "of_nat k < d"
    moreover have "int k \<in> set (stage_indices d)"
      using \<open>of_nat k < d\<close> by (simp add: stage_indices_iff)
    ultimately show "of_nat k \<in> terminated_stages s"
      by (metis of_int_of_nat_eq)
  next
    fix k
    assume "\<forall>k::nat. of_nat k < d \<longrightarrow> of_nat k \<in> terminated_stages s"
      and "k \<in> set (stage_indices d)"
    moreover from this have "k = int (nat k)" "of_nat (nat k) < d"
      by (simp_all add: stage_indices_iff)
    ultimately show "of_int k \<in> terminated_stages s"
      by (metis of_int_of_nat_eq)
  qed
  show ?thesis
  proof (cases "find (\<lambda>e. evType e = Pipeline_completed) s")
    case None
    then show ?thesis by (simp add: check_pipeline_completed_def stages_accounted_def)
  next
    case (Some c)
    show ?thesis
    proof (cases "ev_stages c")
      case None
      with Some show ?thesis
        by (simp add: check_pipeline_completed_def stages_accounted_def)
    next
      case (Some d)
      have "check_pipeline_completed s = [] \<longleftrightarrow>
          (0 < d \<longrightarrow> (\<forall>k \<in> set (stage_indices d). of_int k \<in> terminated_stages s))"
        using \<open>find _ s = Some c\<close> Some
        by (auto simp add: check_pipeline_completed_def Let_def)
      also have "\<dots> \<longleftrightarrow> (\<forall>k::nat. of_nat k < d \<longrightarrow> of_nat k \<in> terminated_stages s)"
        by (metis idx le_less_trans of_nat_0_le_iff)
      finally show ?thesis
        using \<open>find _ s = Some c\<close> Some
        by (simp add: stages_accounted_def in_terminated_stages)
    qed
  qed
qed

lemma check_stage_range_ok [event_simps]: "check_stage_range s = [] \<longleftrightarrow> stages_in_range s"
proof (cases "declared_stages s")
  case None
  then show ?thesis by (simp add: check_stage_range_def stages_in_range_def)
next
  case (Some d)
  have "((case ev_stage e of None \<Rightarrow> []
          | Some n \<Rightarrow> if n < -1 \<or> n \<ge> d
              then [violation I14_pipeline_stages_accounted (M_stage_outside (evType e) n d) [e] Sev_error]
              else []) = []) \<longleftrightarrow> (\<forall>n. ev_stage e = Some n \<longrightarrow> -1 \<le> n \<and> n < d)" for e
    by (cases "ev_stage e") (simp_all add: not_less)
  with Some show ?thesis
    by (simp add: check_stage_range_def stages_in_range_def)
qed

lemma check_payloads_warn: "v \<in> set (check_payloads s) \<Longrightarrow> vSeverity v = Sev_warning"
  by (auto simp: check_payloads_def violation_def split: if_splits)

lemma first_terminal_last:
  assumes "ends_once s" and "first_terminal s = Some t"
  shows "s \<noteq> []" and "t = last s" and "isTerminalEventType (evType t)"
proof -
  have "from_terminal s \<noteq> []"
    using assms(2) first_terminal_None [of s] by (simp add: from_terminal_Nil)
  with assms(1) obtain u where one: "from_terminal s = [u]"
    by (cases "from_terminal s") (auto simp: ends_once_from_terminal)
  then obtain pre where "s = pre @ [u]" "terminal_events s = [u]"
    using from_terminal_singleton by blast
  with assms(2) one show "s \<noteq> []" "t = last s" "isTerminalEventType (evType t)"
    using from_terminal_terminal by (auto simp: first_terminal_def)
qed

lemma first_terminal_ends_once:
  assumes "ends_once s"
  shows "first_terminal s =
    (if s \<noteq> [] \<and> isTerminalEventType (evType (last s)) then Some (last s) else None)"
proof (cases "first_terminal s")
  case None
  then have "\<not> has_terminal s" using first_terminal_None by blast
  with None show ?thesis by (auto simp: has_terminal_def)
next
  case (Some t)
  then show ?thesis using first_terminal_last [OF assms Some] by auto
qed

lemma check_success_ok:
  assumes "ends_once s"
  shows "check_success s = [] \<longleftrightarrow> success_evident s"
  by (auto simp: check_success_def success_evident_def first_terminal_ends_once [OF assms]
      filter_empty_conv isTerminalEventType_cases)


definition all_errors :: "invariant_violation list \<Rightarrow> bool" where
  "all_errors vs \<longleftrightarrow> (\<forall>v \<in> set vs. vSeverity v = Sev_error)"

lemma all_errors_Nil_iff:
  "all_errors vs \<Longrightarrow> filter (\<lambda>v. vSeverity v = Sev_error) vs = [] \<longleftrightarrow> vs = []"
  by (cases vs) (auto simp: all_errors_def)

lemma violation_severity [simp]: "vSeverity (violation i m es sev) = sev"
  by (simp add: violation_def)

lemma all_errors_checks:
  "all_errors (check_sessions s)" "all_errors (check_unique seqs ids s)"
  "all_errors (check_increasing s)" "all_errors (check_contiguous i s)"
  "all_errors (check_terminal s)" "all_errors (check_origin s)"
  "all_errors (check_status status s)" "all_errors (check_orphans started s)"
  "all_errors (check_pipeline_completed s)" "all_errors (check_stage_range s)"
  "all_errors (check_success s)"
proof -
  show "all_errors (check_sessions s)"
    by (simp add: all_errors_def check_sessions_def Let_def)
  show "all_errors (check_unique seqs ids s)"
    by (induction s arbitrary: seqs ids) (auto simp: all_errors_def)
  show "all_errors (check_increasing s)"
    by (induction s rule: check_increasing.induct) (auto simp: all_errors_def)
  show "all_errors (check_contiguous i s)"
    by (induction s arbitrary: i) (auto simp: all_errors_def)
  show "all_errors (check_terminal s)"
    by (auto simp: all_errors_def check_terminal_def Let_def split: list.splits)
  show "all_errors (check_origin s)"
    by (auto simp: all_errors_def check_origin_def split: list.splits)
  show "all_errors (check_status status s)"
    by (auto simp: all_errors_def check_status_def Let_def split: option.splits)
  show "all_errors (check_orphans started s)"
    by (induction s arbitrary: started) (auto simp: all_errors_def Let_def split: option.splits)
  show "all_errors (check_pipeline_completed s)"
    by (auto simp: all_errors_def check_pipeline_completed_def Let_def split: option.splits if_splits)
  show "all_errors (check_stage_range s)"
    by (auto simp: all_errors_def check_stage_range_def split: option.splits if_splits)
  show "all_errors (check_success s)"
    by (auto simp: all_errors_def check_success_def split: option.splits)
qed

lemma errors_of_checks:
  "filter (\<lambda>v. vSeverity v = Sev_error) (stream_violations status s) = [] \<longleftrightarrow>
     check_sessions s = [] \<and> check_unique {} {} s = [] \<and> check_increasing s = [] \<and>
     check_contiguous 0 s = [] \<and> check_terminal s = [] \<and> check_origin s = [] \<and>
     check_status status s = [] \<and> check_orphans {} s = [] \<and>
     check_pipeline_completed s = [] \<and> check_stage_range s = [] \<and> check_success s = []"
proof -
  have "filter (\<lambda>v. vSeverity v = Sev_error) (check_payloads s) = []"
    using check_payloads_warn by (auto simp: filter_empty_conv)
  then show ?thesis
    by (simp only: stream_violations_def filter_append append_is_Nil_conv
        all_errors_Nil_iff [OF all_errors_checks(1)] all_errors_Nil_iff [OF all_errors_checks(2)]
        all_errors_Nil_iff [OF all_errors_checks(3)] all_errors_Nil_iff [OF all_errors_checks(4)]
        all_errors_Nil_iff [OF all_errors_checks(5)] all_errors_Nil_iff [OF all_errors_checks(6)]
        all_errors_Nil_iff [OF all_errors_checks(7)] all_errors_Nil_iff [OF all_errors_checks(8)]
        all_errors_Nil_iff [OF all_errors_checks(9)] all_errors_Nil_iff [OF all_errors_checks(10)]
        all_errors_Nil_iff [OF all_errors_checks(11)] simp_thms)
qed

lemma stream_errors_iff_coherent:
  "filter (\<lambda>v. vSeverity v = Sev_error) (stream_violations status s) = [] \<longleftrightarrow>
     coherent_stream status s"
proof (cases "numbered s")
  case False
  then have "check_contiguous 0 s \<noteq> []"
    using check_contiguous_ok [of 0 s] by (simp add: numbered_def)
  with False show ?thesis
    by (simp add: errors_of_checks coherent_stream_def)
next
  case True
  note n = True
  show ?thesis
  proof (cases "ends_once s")
    case False
    with check_terminal_ok [OF n] show ?thesis
      by (simp add: errors_of_checks coherent_stream_def)
  next
    case True
    then show ?thesis
      using n check_contiguous_ok [of 0 s]
      by (simp add: errors_of_checks coherent_stream_def event_simps check_terminal_ok
          check_success_ok numbered_distinct numbered_increasing numbered_def [symmetric])
  qed
qed

lemma validate_valid_iff:
  "vrValid (validateEventStream es status) \<longleftrightarrow> coherent_stream status (sorted_stream es)"
  by (simp add: validateEventStream_def Let_def stream_errors_iff_coherent)

lemma validate_order_independent:
  assumes "mset es = mset es'"
  shows "vrValid (validateEventStream es status) \<longleftrightarrow> vrValid (validateEventStream es' status)"
proof (cases "distinct (map evSequence es)")
  case True
  then have "sorted_stream es = sorted_stream es'"
    unfolding sorted_stream_def using assms by (intro sort_key_unique)
  then show ?thesis by (simp add: validate_valid_iff)
next
  case False
  have d: "distinct (map evSequence (sorted_stream xs)) \<longleftrightarrow> distinct (map evSequence xs)" for xs
    unfolding sorted_stream_def by (metis distinct_map mset_sort set_sort distinct_sort mset_map mset_eq_imp_distinct_iff)
  have "distinct (map evSequence es') \<longleftrightarrow> distinct (map evSequence es)"
    using assms by (metis mset_map mset_eq_imp_distinct_iff)
  with False d have "\<not> numbered (sorted_stream es)" "\<not> numbered (sorted_stream es')"
    using numbered_distinct by blast+
  then show ?thesis by (simp add: validate_valid_iff coherent_stream_def)
qed

lemma validate_counts:
  "vrErrorCount (validateEventStream es status) + vrWarningCount (validateEventStream es status)
     = length (vrViolations (validateEventStream es status))"
  by (simp add: validateEventStream_def Let_def)

section \<open>Properties\<close>

text \<open>C9: The validator's verdict is exact. It reports no error-severity violation if and only if
  the events, put in sequence order, form a coherent stream: one session, numbered from 0
  without a gap, distinct ids, created first, at most one terminal event and nothing after it,
  agreement with the session row, every lifecycle event paired with an earlier start of the
  same pid and stage, every declared stage accounted for and in range, and a completed stream
  carrying a process that exited with code 0.\<close>
theorem validator_exact:
  "vrValid (validateEventStream es status) \<longleftrightarrow> coherent_stream status (sorted_stream es)"
  by (rule validate_valid_iff)

text \<open>The verdict depends on the events delivered and not on the order the caller passed them
  in.\<close>
theorem validator_order_independent:
  assumes "mset es = mset es'"
  shows "vrValid (validateEventStream es status) \<longleftrightarrow> vrValid (validateEventStream es' status)"
  using assms by (rule validate_order_independent)

text \<open>The summary of a stream found valid describes that stream: it starts at sequence 0, its
  last sequence is one less than its length, and the terminal event it names, if any, carries
  that last sequence.\<close>
theorem valid_stream_summary:
  assumes "vrValid (validateEventStream es status)" and "es \<noteq> []"
  shows "smEventCount (vrSummary (validateEventStream es status)) = length es \<and>
    smFirstSequence (vrSummary (validateEventStream es status)) = Some 0 \<and>
    smLastSequence (vrSummary (validateEventStream es status)) = Some (int (length es) - 1) \<and>
    smTerminalSequence (vrSummary (validateEventStream es status))
      \<in> {None, Some (int (length es) - 1)}"
proof -
  let ?s = "sorted_stream es"
  have n: "numbered ?s" and once: "ends_once ?s"
    using assms by (simp_all add: validate_valid_iff coherent_stream_def)
  have len: "length ?s = length es" by (simp add: sorted_stream_def)
  then have ne: "?s \<noteq> []" using assms(2) by auto
  have m: "map evSequence ?s = map int [0..<length es]"
    using n len by (simp add: numbered_def)
  have "hd (map evSequence ?s) = 0"
    using m assms(2) by (simp add: hd_map)
  then have hd: "evSequence (hd ?s) = 0" using ne by (simp add: hd_map)
  have "last (map evSequence ?s) = int (length es - 1)"
    using m assms(2) by (simp add: last_map)
  then have last: "evSequence (last ?s) = int (length es) - 1"
    using ne assms(2) by (simp add: last_map of_nat_diff Suc_leI)
  show ?thesis
    using hd last ne len first_terminal_ends_once [OF once]
    by (cases ?s) (auto simp: validateEventStream_def Let_def)
qed

definition sample_event :: "int \<Rightarrow> event_type \<Rightarrow> rat option \<Rightarrow> payload \<Rightarrow> canonical_event" where
  "sample_event n t pid p =
     \<lparr>evId = replicate (nat n + 1) (CHR ''e''), evSessionId = ''exec_1'', evSequence = n,
      evType = t, evSource = Gateway, evTimestamp = 0, evMonotonicMs = None, evPid = pid,
      evPayload = p\<rparr>"

definition sample_stream :: "canonical_event list" where
  "sample_stream =
     [sample_event 0 Execution_created None [],
      sample_event 1 Process_started (Some 7) [(''stage'', JNum 0), (''stages'', JNum 1)],
      sample_event 2 Process_exited (Some 7)
        [(''stage'', JNum 0), (''stages'', JNum 1), (''exitCode'', JNum 0)],
      sample_event 3 Execution_completed (Some 7) []]"

lemma sample_valid: "vrValid (validateEventStream sample_stream (Some COMPLETED))"
  by code_simp

theorem valid_stream_summary_witness:
  "smLastSequence (vrSummary (validateEventStream sample_stream (Some COMPLETED))) = Some 3"
proof -
  have "sample_stream \<noteq> []" by (simp add: sample_stream_def)
  with valid_stream_summary [OF sample_valid] have
    "smLastSequence (vrSummary (validateEventStream sample_stream (Some COMPLETED)))
       = Some (int (length sample_stream) - 1)" by blast
  then show ?thesis by (simp add: sample_stream_def)
qed

theorem validator_order_independent_witness:
  "vrValid (validateEventStream (rev sample_stream) (Some COMPLETED)) \<longleftrightarrow>
     vrValid (validateEventStream sample_stream (Some COMPLETED))"
  by (rule validator_order_independent) simp

end
