(* ===== verification/Stream_Protocol.thy ===== *)
theory Stream_Protocol
  imports Prelude
begin

text \<open>
  \<^verbatim>\<open>web/backend/src/execution/output.ts\<close> and \<^verbatim>\<open>parser.ts\<close>: how the lines of the
  engine's stderr are cut out of chunks and told apart.  \<open>JSON.parse\<close> is the argument \<open>parse\<close>
  of the definitions, \<open>None\<close> where it throws; nothing is assumed of it.
\<close>

section \<open>Cutting lines\<close>

abbreviation newline :: char where
  "newline \<equiv> CHR 0x0A"

definition splitLines :: "string \<Rightarrow> string list \<times> string" where
  "splitLines buffer =
     (if buffer = [] then ([], [])
      else let parts = split_on (\<lambda>c. c = newline) buffer in (butlast parts, last parts))"

definition repairLineChunks :: "string \<Rightarrow> string list \<times> string" where
  "repairLineChunks buffer =
     (let lines = split_on (\<lambda>c. c = newline) buffer in (butlast lines, last lines))"

section \<open>Classifying a line\<close>

datatype classified_kind =
    Monitor_event payload
  | Caps_diagnostic
  | Target_output
  | Protocol_error

record classified_line =
  clText :: string
  clKind :: classified_kind

definition EVENT_PREFIX :: string where
  "EVENT_PREFIX = [CHR ''{'', CHR 0x22] @ ''event'' @ [CHR 0x22, CHR '':'', CHR 0x22]"

definition DIAGNOSTIC_PREFIX :: string where
  "DIAGNOSTIC_PREFIX = ''caps: ''"

definition event_key :: string where
  "event_key = [CHR 0x22] @ ''event'' @ [CHR 0x22]"

text \<open>\<open>rawLine.replace(/\r$/, "")\<close> drops one carriage return at the end.\<close>

definition strip_cr :: "string \<Rightarrow> string" where
  "strip_cr s = (if s \<noteq> [] \<and> last s = CHR 0x0D then butlast s else s)"

definition classifyLine :: "(string \<Rightarrow> json option) \<Rightarrow> string \<Rightarrow> classified_line" where
  "classifyLine parse rawLine =
     (let text = strip_cr rawLine; trimmed = trim_start text in
      if prefix EVENT_PREFIX trimmed
      then (case parse trimmed of
              Some (JObj obj) \<Rightarrow> \<lparr>clText = text, clKind = Monitor_event obj\<rparr>
            | _ \<Rightarrow> \<lparr>clText = text, clKind = Protocol_error\<rparr>)
      else if prefix ''{'' trimmed \<and> has_word event_key trimmed
      then \<lparr>clText = text, clKind = Protocol_error\<rparr>
      else if prefix DIAGNOSTIC_PREFIX text
      then \<lparr>clText = text, clKind = Caps_diagnostic\<rparr>
      else \<lparr>clText = text, clKind = Target_output\<rparr>)"

datatype parsed_line = Parsed_event json | Parsed_diagnostic string

definition parseCapsLine :: "(string \<Rightarrow> json option) \<Rightarrow> string \<Rightarrow> parsed_line" where
  "parseCapsLine parse line =
     (let trimmed = trim_end line in
      if prefix ''{'' trimmed
      then (case parse trimmed of
              Some j \<Rightarrow> Parsed_event j
            | None \<Rightarrow> Parsed_diagnostic trimmed)
      else Parsed_diagnostic trimmed)"

section \<open>Lemmas\<close>

text \<open>The line buffer: what the runner carries from one chunk to the next.\<close>

fun feed :: "string \<Rightarrow> string list \<Rightarrow> string list \<times> string" where
  "feed carry [] = ([], carry)"
| "feed carry (chunk # chunks) =
     (let (lines, rest) = splitLines (carry @ chunk); (more, final) = feed rest chunks
      in (lines @ more, final))"

lemma splitLines_eq:
  "splitLines buffer =
     (butlast (split_on (\<lambda>c. c = newline) buffer), last (split_on (\<lambda>c. c = newline) buffer))"
  by (simp add: splitLines_def Let_def)

lemma splitLines_repair: "splitLines buffer = repairLineChunks buffer"
  by (simp add: splitLines_eq repairLineChunks_def Let_def)

lemma splitLines_no_newline:
  assumes "splitLines buffer = (lines, rest)"
  shows "newline \<notin> set rest" and "\<forall>l \<in> set lines. newline \<notin> set l"
proof -
  let ?parts = "split_on (\<lambda>c. c = newline) buffer"
  have eq: "lines = butlast ?parts" "rest = last ?parts"
    using assms by (simp_all add: splitLines_eq)
  have no: "newline \<notin> set w" if "w \<in> set ?parts" for w
    using split_on_parts [OF that] by blast
  show "newline \<notin> set rest"
    using no eq(2) by simp
  show "\<forall>l \<in> set lines. newline \<notin> set l"
    using no eq(1) by (blast dest: in_set_butlastD)
qed

lemma join_with_lines:
  "ws \<noteq> [] \<Longrightarrow>
     concat (map (\<lambda>l. l @ [newline]) (butlast ws)) @ last ws = join_with [newline] ws"
  by (induction "[newline]" ws rule: join_with.induct) auto

lemma splitLines_join:
  assumes "splitLines buffer = (lines, rest)"
  shows "concat (map (\<lambda>l. l @ [newline]) lines) @ rest = buffer"
  using assms join_with_lines [of "split_on (\<lambda>c. c = newline) buffer"]
  by (auto simp add: splitLines_eq join_split)

lemma split_on_append:
  "split_on P (xs @ ys) =
     butlast (split_on P xs) @ split_on P (last (split_on P xs) @ ys)"
proof (induction xs)
  case Nil
  then show ?case by simp
next
  case (Cons x xs)
  show ?case
  proof (cases "split_on P xs")
    case Nil
    then show ?thesis by simp
  next
    case (Cons w ws)
    with Cons.IH show ?thesis by (cases ws) auto
  qed
qed

lemma split_on_rest: "split_on P (last (split_on P xs)) = [last (split_on P xs)]"
  by (intro split_on_no_sep ballI split_on_parts [of "last (split_on P xs)" P xs]) simp_all

lemma splitLines_append:
  assumes "splitLines xs = (lines, rest)" and "splitLines (rest @ ys) = (lines', rest')"
  shows "splitLines (xs @ ys) = (lines @ lines', rest')"
  using assms split_on_append [of "\<lambda>c. c = newline" xs ys]
  by (auto simp add: splitLines_eq butlast_append)

lemma feed_splitLines: "splitLines carry = ([], carry) \<Longrightarrow>
    feed carry chunks = splitLines (carry @ concat chunks)"
proof (induction chunks arbitrary: carry)
  case Nil
  then show ?case by simp
next
  case (Cons chunk chunks)
  obtain lines rest where s: "splitLines (carry @ chunk) = (lines, rest)"
    by (cases "splitLines (carry @ chunk)")
  have "splitLines rest = ([], rest)"
    using s split_on_rest [of "\<lambda>c. c = newline" "carry @ chunk"]
    by (auto simp: splitLines_eq)
  from Cons.IH [OF this]
  have f: "feed rest chunks = splitLines (rest @ concat chunks)" .
  obtain more final where m: "splitLines (rest @ concat chunks) = (more, final)"
    by (cases "splitLines (rest @ concat chunks)")
  show ?case
    using splitLines_append [OF s m] s f m by simp
qed

section \<open>Properties\<close>

text \<open>Chunk boundaries do not matter. Feeding the engine's stderr chunk by chunk, carrying the
  unterminated remainder forward, yields the lines and the remainder of the whole text: no line
  is lost, repeated or cut in two, wherever the pipe happened to split it.\<close>
theorem chunking_independent:
  "feed [] chunks = splitLines (concat chunks)"
proof -
  have "splitLines [] = ([], [])" by (simp add: splitLines_def)
  from feed_splitLines [OF this] show ?thesis by simp
qed

text \<open>Splitting is lossless and complete: the lines, each followed by a newline, and the
  remainder spell the buffer, and neither a line nor the remainder holds a newline.\<close>
theorem splitLines_roundtrip:
  assumes "splitLines buffer = (lines, rest)"
  shows "concat (map (\<lambda>l. l @ [newline]) lines) @ rest = buffer \<and>
    (\<forall>w \<in> set (rest # lines). newline \<notin> set w)"
  using splitLines_join [OF assms] splitLines_no_newline [OF assms] by simp

theorem splitLines_roundtrip_witness:
  "concat (map (\<lambda>l. l @ [newline]) [''ab'', []]) @ ''c'' = ''ab'' @ [newline, newline] @ ''c''"
proof -
  have "splitLines (''ab'' @ [newline, newline] @ ''c'') = ([''ab'', []], ''c'')"
    by code_simp
  from splitLines_roundtrip [OF this] show ?thesis by blast
qed

text \<open>The engine's channel never leaks into the user's output. A line is routed as target
  output only if it neither begins with the monitor's event prefix, nor is a JSON-looking line
  that names an event, nor begins with the engine's diagnostic prefix; and a line that begins
  with the event prefix is a monitor event exactly when it parses to an object, and a protocol
  error otherwise.\<close>
theorem classifyLine_exact:
  "(clKind (classifyLine parse raw) = Target_output \<longleftrightarrow>
      \<not> prefix EVENT_PREFIX (trim_start (strip_cr raw)) \<and>
      \<not> (prefix ''{'' (trim_start (strip_cr raw)) \<and>
         (\<exists>a b. trim_start (strip_cr raw) = a @ event_key @ b)) \<and>
      \<not> prefix DIAGNOSTIC_PREFIX (strip_cr raw)) \<and>
   (\<forall>obj. clKind (classifyLine parse raw) = Monitor_event obj \<longleftrightarrow>
      prefix EVENT_PREFIX (trim_start (strip_cr raw)) \<and>
      parse (trim_start (strip_cr raw)) = Some (JObj obj)) \<and>
   clText (classifyLine parse raw) = strip_cr raw"
proof -
  have "has_word event_key w \<longleftrightarrow> (\<exists>a b. w = a @ event_key @ b)" for w
    by (rule has_word_iff)
  then show ?thesis
    by (simp add: classifyLine_def Let_def split: option.split json.split)
qed

end
