(* ===== verification/Normalizer.thy ===== *)
theory Normalizer
  imports Observability
begin

text \<open>
  \<^verbatim>\<open>web/backend/src/execution/normalizer.ts\<close>: one raw engine event becomes one canonical
  event, or nothing when its name is not one the gateway knows.  The payload is built by the
  code's own sequence of conditional assignments.  A number stands for the value of its literal;
  \<open>JSON.parse\<close> reads one beyond the doubles, such as \<^verbatim>\<open>1e999\<close>, as an infinity, which \<open>num\<close> refuses.
  How a number prints (\<open>String(a)\<close> on an argv element that is not a string) is the argument
  \<open>num_text\<close>.
\<close>

definition CAPS_EVENT_NAMES :: "(string \<times> event_type) list" where
  "CAPS_EVENT_NAMES =
     [(''COMMAND_RECEIVED'', Command_received),
      (''PARSED'', Command_parsed),
      (''COMMAND_PARSE_ERROR'', Command_parse_error),
      (''REDIRECTION_OPENED'', Redirection_opened),
      (''REDIRECTION_FAILED'', Redirection_failed),
      (''PROCESS_STARTED'', Process_started),
      (''PROCESS_EXITED'', Process_exited),
      (''SIGNAL_RECEIVED'', Signal_received),
      (''EXEC_ERROR'', Process_exec_error),
      (''WAIT_FAILED'', Process_wait_failed),
      (''PIPELINE_PARSED'', Pipeline_parsed),
      (''PIPELINE_STARTED'', Pipeline_started),
      (''PIPELINE_COMPLETED'', Pipeline_completed),
      (''EXECUTION_FAILED'', Process_launch_failed),
      (''SESSION_SUMMARY'', Session_summary)]"

text \<open>
  The table is a plain object, so a name it does not hold but \<open>Object.prototype\<close> does is found
  there: the lookup then yields an inherited function or object, which is not \<open>undefined\<close> and is
  no event type either.
\<close>

definition OBJECT_PROTOTYPE :: "string list" where
  "OBJECT_PROTOTYPE =
     [''constructor'', ''hasOwnProperty'', ''isPrototypeOf'', ''propertyIsEnumerable'',
      ''toLocaleString'', ''toString'', ''valueOf'', ''__proto__'', ''__defineGetter__'',
      ''__defineSetter__'', ''__lookupGetter__'', ''__lookupSetter__'']"

datatype name_lookup = Undefined | Own event_type | Inherited

definition lookup_name :: "string \<Rightarrow> name_lookup" where
  "lookup_name name =
     (case map_of CAPS_EVENT_NAMES name of
        Some ty \<Rightarrow> Own ty
      | None \<Rightarrow> if name \<in> set OBJECT_PROTOTYPE then Inherited else Undefined)"

definition STAGE_SCOPED :: "string list" where
  "STAGE_SCOPED =
     [''PROCESS_STARTED'', ''PROCESS_EXITED'', ''SIGNAL_RECEIVED'', ''EXEC_ERROR'',
      ''WAIT_FAILED'', ''PIPELINE_PARSED'', ''PIPELINE_STARTED'', ''PIPELINE_COMPLETED'']"

definition OUTCOMES :: "engine_outcome list" where
  "OUTCOMES = [O_COMPLETED, O_EXITED, O_SIGNALED, O_EXEC_FAILED, O_LAUNCH_FAILED, O_WAIT_FAILED]"

text \<open>
  \<open>Number.isFinite\<close> of the double a literal is read as: half a unit above the largest double and
  beyond, it is rounded to infinity.
\<close>

definition finite_number :: "rat \<Rightarrow> bool" where
  "finite_number n \<longleftrightarrow> \<bar>n\<bar> < 2 ^ 1024 - 2 ^ 970"

lemma finite_number_small: "\<bar>n\<bar> \<le> 2 ^ 53 \<Longrightarrow> finite_number n"
proof -
  have "(2 :: rat) ^ 53 < 2 ^ 970" by (rule power_strict_increasing) simp_all
  moreover have "(2 :: rat) ^ 970 + 2 ^ 970 = 2 ^ 971" by (metis mult_2 power_Suc Suc_numeral semiring_norm(5,8))
  moreover have "(2 :: rat) ^ 971 \<le> 2 ^ 1024" by (rule power_increasing) simp_all
  moreover assume "\<bar>n\<bar> \<le> 2 ^ 53"
  ultimately show ?thesis unfolding finite_number_def by linarith
qed

lemma finite_number_code [code]:
  "finite_number n \<longleftrightarrow> \<bar>n\<bar> \<le> 9007199254740992 \<or> \<bar>n\<bar> < 2 ^ 1024 - 2 ^ 970"
  using finite_number_small [of n] unfolding finite_number_def by auto

definition num :: "json option \<Rightarrow> rat option" where
  "num v = (case as_num v of Some n \<Rightarrow> if finite_number n then Some n else None | None \<Rightarrow> None)"

definition str :: "json option \<Rightarrow> string option" where
  "str v = as_str v"

definition outcomeOf :: "payload \<Rightarrow> string option" where
  "outcomeOf raw =
     (case str (field raw ''outcome'') of
        Some w \<Rightarrow> if w \<in> set (map outcome_word OUTCOMES) then Some w else None
      | None \<Rightarrow> None)"

fun js_string :: "(rat \<Rightarrow> string) \<Rightarrow> json \<Rightarrow> string" where
  "js_string num_text JNull = ''null''"
| "js_string num_text (JBool b) = (if b then ''true'' else ''false'')"
| "js_string num_text (JNum n) = num_text n"
| "js_string num_text (JStr s) = s"
| "js_string num_text (JArr js) =
     join_with '','' (map (\<lambda>j. if j = JNull then [] else js_string num_text j) js)"
| "js_string num_text (JObj kvs) = ''[object Object]''"

text \<open>
  The three kinds of assignment: copy a field when it is a number, copy it when it is a string,
  and assign unconditionally.
\<close>

definition copy_num :: "payload \<Rightarrow> string \<Rightarrow> string \<Rightarrow> payload \<Rightarrow> payload" where
  "copy_num raw k k' p = (case num (field raw k) of None \<Rightarrow> p | Some n \<Rightarrow> put k' (JNum n) p)"

definition copy_str :: "payload \<Rightarrow> string \<Rightarrow> string \<Rightarrow> payload \<Rightarrow> payload" where
  "copy_str raw k k' p = (case str (field raw k) of None \<Rightarrow> p | Some s \<Rightarrow> put k' (JStr s) p)"

definition or_null :: "rat option \<Rightarrow> json" where
  "or_null n = (case n of None \<Rightarrow> JNull | Some x \<Rightarrow> JNum x)"

definition payload_identity :: "payload \<Rightarrow> payload \<Rightarrow> payload" where
  "payload_identity raw p =
     (let p = copy_str raw ''command'' ''label'' p;
          p = copy_num raw ''pid'' ''pid'' p;
          p = (if (case str (field raw ''event'') of None \<Rightarrow> [] | Some w \<Rightarrow> w) \<in> set STAGE_SCOPED
               then put ''stages''
                      (JNum (case num (field raw ''stages'') of None \<Rightarrow> 0 | Some n \<Rightarrow> n))
                      (put ''stage''
                        (JNum (case num (field raw ''stage'') of None \<Rightarrow> -1 | Some n \<Rightarrow> n)) p)
               else p)
      in copy_num raw ''pgid'' ''pgid'' p)"

definition payload_failure :: "payload \<Rightarrow> payload \<Rightarrow> payload" where
  "payload_failure raw p =
     (let p = copy_num raw ''exit_code'' ''exitCode'' p;
          p = copy_num raw ''duration_ms'' ''durationMs'' p;
          p = copy_num raw ''signal'' ''signal'' p;
          p = put ''exitCode'' (or_null (num (field raw ''exit_code''))) p;
          p = put ''errno'' (JNum (case num (field raw ''errno'') of None \<Rightarrow> 0 | Some n \<Rightarrow> n)) p;
          p = put ''errnoName''
                (JStr (case str (field raw ''errno_name'') of None \<Rightarrow> [] | Some s \<Rightarrow> s)) p;
          p = put ''reason''
                (JStr (case str (field raw ''reason'') of None \<Rightarrow> [] | Some s \<Rightarrow> s)) p
      in case outcomeOf raw of None \<Rightarrow> p | Some w \<Rightarrow> put ''outcome'' (JStr w) p)"

definition payload_summary :: "payload \<Rightarrow> payload \<Rightarrow> payload" where
  "payload_summary raw p =
     (let p = copy_num raw ''commands'' ''commands'' p;
          p = copy_num raw ''succeeded'' ''succeeded'' p;
          p = copy_num raw ''failed'' ''failed'' p;
          p = copy_num raw ''signals'' ''signals'' p;
          p = copy_num raw ''timed'' ''timed'' p;
          p = copy_num raw ''exec_errors'' ''exec_errors'' p;
          p = copy_num raw ''launch_errors'' ''launch_errors'' p;
          p = (case as_bool (field raw ''observed_cleanly'') of
                 None \<Rightarrow> p | Some b \<Rightarrow> put ''observed_cleanly'' (JBool b) p)
      in copy_num raw ''average_duration_ms'' ''averageDurationMs'' p)"

definition payload_argv :: "(rat \<Rightarrow> string) \<Rightarrow> payload \<Rightarrow> payload \<Rightarrow> payload" where
  "payload_argv num_text raw p =
     (let p = (case field raw ''argv'' of
                 Some (JArr js) \<Rightarrow> put ''argv'' (JArr (map (\<lambda>j. JStr (js_string num_text j)) js)) p
               | _ \<Rightarrow> p);
          p = (if field raw ''argv_truncated'' = Some (JBool True)
               then put ''argv_truncated'' (JBool True) p else p);
          p = copy_num raw ''argv_elements_dropped'' ''argv_elements_dropped'' p;
          p = copy_num raw ''argv_elements_total'' ''argv_elements_total'' p;
          p = copy_str raw ''stdin_source'' ''stdinSource'' p
      in copy_str raw ''stdout_dest'' ''stdoutDest'' p)"

definition rawPayload :: "(rat \<Rightarrow> string) \<Rightarrow> payload \<Rightarrow> payload" where
  "rawPayload num_text raw =
     payload_argv num_text raw
       (payload_summary raw (payload_failure raw (payload_identity raw [])))"

record normalize_ctx =
  cxSessionId :: string
  cxSequence :: int
  cxEvId :: string
  cxRawTs :: int

text \<open>
  \<open>null\<close>, an event, or an event whose \<open>type\<close> is an inherited property (its other fields are
  those of an event; no consumer reads them, since the database refuses to bind its type).
\<close>

datatype normalized = Not_an_event | Normalized canonical_event | Untyped_event

definition normalizeCapsEvent ::
    "(rat \<Rightarrow> string) \<Rightarrow> payload \<Rightarrow> normalize_ctx \<Rightarrow> normalized" where
  "normalizeCapsEvent num_text raw cx =
     (case str (field raw ''event'') of
        None \<Rightarrow> Not_an_event
      | Some name \<Rightarrow>
          (case lookup_name name of
             Undefined \<Rightarrow> Not_an_event
           | Inherited \<Rightarrow> Untyped_event
           | Own ty \<Rightarrow>
               Normalized \<lparr>evId = cxEvId cx, evSessionId = cxSessionId cx,
                     evSequence = cxSequence cx, evType = ty, evSource = Caps,
                     evTimestamp = cxRawTs cx,
                     evMonotonicMs = num (field raw ''duration_ms''),
                     evPid = num (field raw ''pid''),
                     evPayload = rawPayload num_text raw\<rparr>))"

definition gatewayEvent ::
    "string \<Rightarrow> int \<Rightarrow> string \<Rightarrow> int \<Rightarrow> event_source \<Rightarrow> event_type \<Rightarrow> payload \<Rightarrow> rat option
      \<Rightarrow> canonical_event" where
  "gatewayEvent sessionId sequence evid now source ty p pid =
     \<lparr>evId = evid, evSessionId = sessionId, evSequence = sequence, evType = ty,
      evSource = source, evTimestamp = now, evMonotonicMs = None, evPid = pid,
      evPayload = p\<rparr>"

section \<open>Lemmas\<close>

lemma field_copy_num [simp]:
  "field (copy_num raw k k' p) j =
     (if j = k' \<and> num (field raw k) \<noteq> None then map_option JNum (num (field raw k)) else field p j)"
  by (simp add: copy_num_def split: option.split)

lemma field_copy_str [simp]:
  "field (copy_str raw k k' p) j =
     (if j = k' \<and> str (field raw k) \<noteq> None then map_option JStr (str (field raw k)) else field p j)"
  by (simp add: copy_str_def split: option.split)

lemma field_argv_other:
  "k \<notin> {''argv'', ''argv_truncated'', ''argv_elements_dropped'', ''argv_elements_total'',
        ''stdinSource'', ''stdoutDest''} \<Longrightarrow>
     field (payload_argv num_text raw p) k = field p k"
  by (simp add: payload_argv_def Let_def split: option.split json.split)

lemma field_summary_other:
  "k \<notin> {''commands'', ''succeeded'', ''failed'', ''signals'', ''timed'', ''exec_errors'',
        ''launch_errors'', ''observed_cleanly'', ''averageDurationMs''} \<Longrightarrow>
     field (payload_summary raw p) k = field p k"
  by (simp add: payload_summary_def Let_def split: option.split)

lemma normalize_Normalized:
  assumes "normalizeCapsEvent num_text raw cx = Normalized e"
  obtains name where "str (field raw ''event'') = Some name"
    and "map_of CAPS_EVENT_NAMES name = Some (evType e)"
    and "evPayload e = rawPayload num_text raw" and "evPid e = num (field raw ''pid'')"
    and "evSessionId e = cxSessionId cx" and "evSequence e = cxSequence cx"
    and "evId e = cxEvId cx" and "evSource e = Caps"
  using assms
  by (auto simp: normalizeCapsEvent_def lookup_name_def split: option.splits if_splits)

lemma caps_names_range: "map_of CAPS_EVENT_NAMES name = Some ty \<Longrightarrow> ty \<in> snd ` set CAPS_EVENT_NAMES"
  by (drule map_of_SomeD) force

lemma caps_types_not_terminal: "ty \<in> snd ` set CAPS_EVENT_NAMES \<Longrightarrow> \<not> isTerminalEventType ty"
  by (auto simp: CAPS_EVENT_NAMES_def)

lemma caps_types_not_gateway: "ty \<in> snd ` set CAPS_EVENT_NAMES \<Longrightarrow>
    ty \<noteq> Execution_created \<and> ty \<noteq> Execution_started \<and> ty \<noteq> Process_snapshot"
  by (auto simp: CAPS_EVENT_NAMES_def)

lemma caps_names_distinct: "distinct (map snd CAPS_EVENT_NAMES)"
  by (simp add: CAPS_EVENT_NAMES_def)

lemma payload_exitCode [event_simps]:
  "field (rawPayload num_text raw) ''exitCode'' = Some (or_null (num (field raw ''exit_code'')))"
  by (simp add: rawPayload_def field_argv_other field_summary_other payload_failure_def Let_def
      split: option.split)

lemma payload_outcome [event_simps]:
  "field (rawPayload num_text raw) ''outcome'' = map_option JStr (outcomeOf raw)"
  by (simp add: rawPayload_def field_argv_other field_summary_other payload_failure_def
      payload_identity_def Let_def split: option.split)

lemma field_failure_other:
  "k \<notin> {''exitCode'', ''durationMs'', ''signal'', ''errno'', ''errnoName'', ''reason'', ''outcome''}
     \<Longrightarrow> field (payload_failure raw p) k = field p k"
  by (simp add: payload_failure_def Let_def split: option.split)

lemma field_identity_other:
  "k \<notin> {''label'', ''pid'', ''stage'', ''stages'', ''pgid''}
     \<Longrightarrow> field (payload_identity raw p) k = field p k"
  by (simp add: payload_identity_def Let_def split: option.split)

lemma field_failure_signal:
  "field (payload_failure raw p) ''signal'' =
     (case num (field raw ''signal'') of Some n \<Rightarrow> Some (JNum n) | None \<Rightarrow> field p ''signal'')"
  by (simp add: payload_failure_def Let_def split: option.split)

lemma payload_signal [event_simps]:
  "field (rawPayload num_text raw) ''signal'' = map_option JNum (num (field raw ''signal''))"
  by (simp add: rawPayload_def field_argv_other field_summary_other field_failure_signal
      field_identity_other split: option.split)

lemma payload_stage [event_simps]:
  "field (rawPayload num_text raw) ''stage'' =
     (case str (field raw ''event'') of
        Some w \<Rightarrow> if w \<in> set STAGE_SCOPED
                   then Some (JNum (case num (field raw ''stage'') of None \<Rightarrow> -1 | Some n \<Rightarrow> n))
                   else None
      | None \<Rightarrow> None)"
  by (simp add: rawPayload_def field_argv_other field_summary_other field_failure_other
      payload_identity_def STAGE_SCOPED_def Let_def split: option.split)

section \<open>Properties\<close>

text \<open>C29: The evidence of the engine reaches the canonical event verbatim, wherever the engine sent a finite
  number. The exit code is the engine's number or an explicit null (never a 0 it did not report), the
  signal is the engine's number and present exactly when it sent one, the process id likewise, the
  outcome is present exactly when it is one of the engine's six words, and then that word. On the
  stage-scoped event names, and on no other, the event has a stage: the engine's index, or -1 when it
  sent none.\<close>
theorem normalizer_preserves_evidence:
  assumes "normalizeCapsEvent num_text raw cx = Normalized e"
  shows "field (evPayload e) ''exitCode'' = Some (or_null (num (field raw ''exit_code''))) \<and>
    field (evPayload e) ''signal'' = map_option JNum (num (field raw ''signal'')) \<and>
    (field (evPayload e) ''outcome'' = Some j \<longleftrightarrow>
       (\<exists>oc. field raw ''outcome'' = Some (JStr (outcome_word oc)) \<and> j = JStr (outcome_word oc))) \<and>
    field (evPayload e) ''stage'' =
      (if \<exists>w \<in> set STAGE_SCOPED. field raw ''event'' = Some (JStr w)
       then Some (case num (field raw ''stage'') of None \<Rightarrow> JNum (- 1) | Some n \<Rightarrow> JNum n) else None) \<and>
    evPid e = num (field raw ''pid'')"
proof -
  obtain name where n: "str (field raw ''event'') = Some name"
    and p: "evPayload e = rawPayload num_text raw" and pid: "evPid e = num (field raw ''pid'')"
    using normalize_Normalized [OF assms] by metis
  have words: "w \<in> set (map outcome_word OUTCOMES) \<longleftrightarrow> (\<exists>oc. w = outcome_word oc)" for w
    by (simp add: OUTCOMES_def) (metis engine_outcome.exhaust outcome_word.simps)
  have outcome: "map_option JStr (outcomeOf raw) = Some j \<longleftrightarrow>
      (\<exists>oc. field raw ''outcome'' = Some (JStr (outcome_word oc)) \<and> j = JStr (outcome_word oc))"
    unfolding outcomeOf_def str_def words
    by (auto simp: as_str_Some split: option.splits)
  have event: "field raw ''event'' = Some (JStr name)" using n by (simp add: str_def as_str_Some)
  have stage: "field (rawPayload num_text raw) ''stage'' =
      (if \<exists>w \<in> set STAGE_SCOPED. field raw ''event'' = Some (JStr w)
       then Some (case num (field raw ''stage'') of None \<Rightarrow> JNum (- 1) | Some n \<Rightarrow> JNum n) else None)"
    by (simp add: payload_stage event str_def split: option.split)
  show ?thesis
    unfolding p pid stage payload_exitCode payload_signal payload_outcome using outcome by simp
qed

definition sample_raw :: payload where
  "sample_raw =
     [(''event'', JStr ''PROCESS_EXITED''), (''pid'', JNum 7), (''stage'', JNum 0),
      (''exit_code'', JNull), (''outcome'', JStr ''SIGNALED''), (''signal'', JNum 9)]"

definition sample_ctx :: normalize_ctx where
  "sample_ctx = \<lparr>cxSessionId = ''s'', cxSequence = 4, cxEvId = ''e'', cxRawTs = 0\<rparr>"

theorem normalizer_preserves_evidence_witness:
  "\<exists>e. normalizeCapsEvent (\<lambda>_. []) sample_raw sample_ctx = Normalized e \<and>
     field (evPayload e) ''exitCode'' = Some JNull \<and>
     field (evPayload e) ''signal'' = Some (JNum 9) \<and> field (evPayload e) ''stage'' = Some (JNum 0)"
proof -
  obtain e where e: "normalizeCapsEvent (\<lambda>_. []) sample_raw sample_ctx = Normalized e"
    by (simp add: normalizeCapsEvent_def sample_raw_def field_def str_def lookup_name_def
        CAPS_EVENT_NAMES_def)
  have small: "finite_number 9" "finite_number 0" by (rule finite_number_small; simp)+
  from normalizer_preserves_evidence [OF e, of JNull] e small show ?thesis
    by (simp add: sample_raw_def field_def num_def or_null_def STAGE_SCOPED_def)
qed

text \<open>A literal that is no finite double is no number: its exit code is null.\<close>

lemma overflow_is_null: "num (Some (JNum (10 ^ 999))) = None"
proof -
  have "(2 :: rat) ^ 1024 = 2 ^ (4 * 256)" by (rule arg_cong [where f = "\<lambda>k. 2 ^ k"]) simp
  also have "\<dots> = (2 ^ 4) ^ 256" by (rule power_mult)
  also have "\<dots> \<le> (10 ^ 2) ^ 256" by (rule power_mono) simp_all
  also have "\<dots> = 10 ^ (2 * 256)" by (rule power_mult [symmetric])
  also have "\<dots> \<le> 10 ^ 999" by (rule power_increasing) simp_all
  finally have "(2 :: rat) ^ 1024 \<le> 10 ^ 999" .
  moreover have "0 < (2 :: rat) ^ 970" by (rule zero_less_power) simp
  ultimately have "\<not> finite_number (10 ^ 999)"
    unfolding finite_number_def abs_of_nonneg [OF zero_le_power [OF zero_le_numeral]] by linarith
  then show ?thesis by (simp only: num_def as_num.simps option.case if_False)
qed

text \<open>The engine's channel cannot end a session, create one, or forge a telemetry sample: an event
  normalized from it has source \<open>caps\<close> and a type that is neither terminal nor one of the
  gateway's own, whatever the line said.\<close>
theorem normalizer_never_terminal:
  assumes "normalizeCapsEvent num_text raw cx = Normalized e"
  shows "\<not> isTerminalEventType (evType e) \<and> evSource e = Caps \<and>
    evType e \<noteq> Execution_created \<and> evType e \<noteq> Execution_started \<and> evType e \<noteq> Process_snapshot"
proof -
  obtain name where "map_of CAPS_EVENT_NAMES name = Some (evType e)" and s: "evSource e = Caps"
    using normalize_Normalized [OF assms] by metis
  then have "evType e \<in> snd ` set CAPS_EVENT_NAMES" by (simp add: caps_names_range)
  with s show ?thesis
    using caps_types_not_terminal caps_types_not_gateway by simp
qed

theorem normalizer_never_terminal_witness:
  "\<exists>e. normalizeCapsEvent (\<lambda>_. []) sample_raw sample_ctx = Normalized e \<and>
     \<not> isTerminalEventType (evType e)"
proof -
  obtain e where e: "normalizeCapsEvent (\<lambda>_. []) sample_raw sample_ctx = Normalized e"
    by (simp add: normalizeCapsEvent_def sample_raw_def field_def str_def lookup_name_def
        CAPS_EVENT_NAMES_def)
  from normalizer_never_terminal [OF e] e show ?thesis by blast
qed

end
