(* ===== verification/Engine_Lexer.thy ===== *)
theory Engine_Lexer
  imports Prelude
begin

text \<open>
  \<^verbatim>\<open>src/parser.c\<close>: the engine's one lexer.  \<open>parser_tokenize\<close> is the loop over the line
  (\<open>tokens_from\<close>, its variables in \<open>lexer\<close>; one turn consumes one quoted string, one escape or
  one byte, \<open>lex_piece\<close>), \<open>parser_split_redirections\<close> takes the operators out of one stage, and
  \<open>parser_parse_pipeline\<close> slices the token stream into stages.  A \<open>string\<close> is a C string: bytes
  without a NUL.  Memory exhaustion is not modelled, so the return code -1 has no branch; the
  return code -2 is \<open>Inl\<close> of the message recorded.
\<close>

section \<open>The tokenizer\<close>

datatype lex_error =
    Line_too_long nat | Too_many_tokens | Token_too_long
  | Unterminated_single_quote | Unterminated_double_quote | Trailing_backslash
  | Redirection_without_file string | Redirection_to_operator string string
  | Too_many_stages nat | Begins_with_bar | Empty_stage | Redirections_without_command nat

definition CAPS_MAX_TOKEN :: nat where "CAPS_MAX_TOKEN = 20000"
definition CAPS_MAX_LINE :: nat where "CAPS_MAX_LINE = 65536"
definition CAPS_MAX_ARGS :: nat where "CAPS_MAX_ARGS = 4096"
definition CAPS_MAX_STAGES :: nat where "CAPS_MAX_STAGES = 16"

abbreviation ch_newline :: char where "ch_newline \<equiv> CHR 0x0A"
abbreviation ch_backslash :: char where "ch_backslash \<equiv> CHR 0x5C"
abbreviation ch_dquote :: char where "ch_dquote \<equiv> CHR 0x22"
abbreviation ch_squote :: char where "ch_squote \<equiv> CHR 0x27"
abbreviation ch_bquote :: char where "ch_bquote \<equiv> CHR 0x60"

text \<open>\<open>isspace\<close> of the C locale.\<close>

definition c_isspace :: "char \<Rightarrow> bool" where
  "c_isspace c \<longleftrightarrow>
     c \<in> {CHR '' '', CHR 0x09, ch_newline, CHR 0x0B, CHR 0x0C, CHR 0x0D}"

definition bb_push_lit :: "string \<Rightarrow> char \<Rightarrow> lex_error + string" where
  "bb_push_lit bb c = (if length bb \<ge> CAPS_MAX_TOKEN then Inl Token_too_long else Inr (bb @ [c]))"

fun single_quoted :: "string \<Rightarrow> string \<Rightarrow> lex_error + string \<times> string" where
  "single_quoted bb [] = Inl Unterminated_single_quote"
| "single_quoted bb (c # p) =
     (if c = ch_squote then Inr (bb, p)
      else (case bb_push_lit bb c of Inl e \<Rightarrow> Inl e | Inr bb' \<Rightarrow> single_quoted bb' p))"

definition escapable :: "char \<Rightarrow> bool" where
  "escapable c \<longleftrightarrow> c \<in> {ch_dquote, ch_backslash, CHR ''$'', ch_bquote, ch_newline}"

fun double_quoted :: "string \<Rightarrow> string \<Rightarrow> lex_error + string \<times> string" where
  "double_quoted bb [] = Inl Unterminated_double_quote"
| "double_quoted bb (c # p) =
     (if c = ch_dquote then Inr (bb, p)
      else if c = ch_backslash \<and> p \<noteq> [] \<and> escapable (hd p)
      then (if hd p = ch_newline then double_quoted bb (tl p)
            else (case bb_push_lit bb (hd p) of
                    Inl e \<Rightarrow> Inl e | Inr bb' \<Rightarrow> double_quoted bb' (tl p)))
      else (case bb_push_lit bb c of Inl e \<Rightarrow> Inl e | Inr bb' \<Rightarrow> double_quoted bb' p))"

definition lex_piece :: "char \<Rightarrow> string \<Rightarrow> string \<Rightarrow> lex_error + string \<times> string" where
  "lex_piece c p bb =
     (if c = ch_squote then single_quoted bb p
      else if c = ch_dquote then double_quoted bb p
      else if c = ch_backslash
      then (case p of
              [] \<Rightarrow> Inl Trailing_backslash
            | next # p' \<Rightarrow>
                (case bb_push_lit bb next of Inl e \<Rightarrow> Inl e | Inr bb' \<Rightarrow> Inr (bb', p')))
      else (case bb_push_lit bb c of Inl e \<Rightarrow> Inl e | Inr bb' \<Rightarrow> Inr (bb', p)))"

record lexer =
  lxArgv :: "string list"
  lxBuf :: string
  lxHaveToken :: bool

text \<open>The end of a turn: a non-empty buffer before whitespace or the end of the line is a token.\<close>

definition close_token :: "string \<Rightarrow> lexer \<Rightarrow> lexer" where
  "close_token p s =
     (if lxBuf s \<noteq> [] \<and> (p = [] \<or> c_isspace (hd p))
      then \<lparr>lxArgv = lxArgv s @ [lxBuf s], lxBuf = [], lxHaveToken = False\<rparr>
      else s)"

lemma single_quoted_shorter:
  "single_quoted bb p = Inr (bb', p') \<Longrightarrow> length p' < length p"
  by (induction bb p rule: single_quoted.induct) (auto split: if_splits sum.splits)

lemma double_quoted_shorter:
  "double_quoted bb p = Inr (bb', p') \<Longrightarrow> length p' < length p"
proof (induction bb p rule: double_quoted.induct)
  case (2 bb c p)
  then show ?case
    by (cases p) (auto split: if_splits sum.splits dest: less_SucI)
qed simp

lemma lex_piece_shorter: "lex_piece c p bb = Inr (bb', p') \<Longrightarrow> length p' \<le> length p"
  by (auto simp: lex_piece_def dest: single_quoted_shorter double_quoted_shorter
      split: if_splits sum.splits list.splits)

function tokens_from :: "string \<Rightarrow> lexer \<Rightarrow> lex_error + lexer" where
  "tokens_from [] s = Inr s"
| "tokens_from (c # p) s =
     (if c_isspace c then tokens_from p s
      else if c = CHR ''#'' \<and> \<not> lxHaveToken s then Inr s
      else if length (lxArgv s) \<ge> CAPS_MAX_ARGS then Inl Too_many_tokens
      else
        (case lex_piece c p (lxBuf s) of
           Inl e \<Rightarrow> Inl e
         | Inr (bb, p') \<Rightarrow>
             tokens_from p' (close_token p' (s \<lparr>lxBuf := bb, lxHaveToken := True\<rparr>))))"
  by pat_completeness auto
termination
  by (relation "measure (\<lambda>(p, s). length p)") (auto dest: lex_piece_shorter)

definition parser_tokenize :: "string \<Rightarrow> lex_error + string list" where
  "parser_tokenize line =
     (if length line > CAPS_MAX_LINE then Inl (Line_too_long (length line))
      else
        (case tokens_from line \<lparr>lxArgv = [], lxBuf = [], lxHaveToken = False\<rparr> of
           Inl e \<Rightarrow> Inl e
         | Inr s \<Rightarrow> Inr (if lxHaveToken s then lxArgv s @ [lxBuf s] else lxArgv s)))"

section \<open>Redirections and stages\<close>

datatype redir_type = Redir_in | Redir_out | Redir_append | Redir_err_out | Redir_err_append

definition is_redir_op :: "string \<Rightarrow> bool" where
  "is_redir_op t \<longleftrightarrow> t \<in> {''<'', ''>'', ''>>'', ''2>'', ''2>>''}"

definition redir_type_of :: "string \<Rightarrow> redir_type" where
  "redir_type_of t =
     (if t = ''<'' then Redir_in
      else if t = ''>'' then Redir_out
      else if t = ''>>'' then Redir_append
      else if t = ''2>'' then Redir_err_out
      else Redir_err_append)"

fun caps_redir_fd :: "redir_type \<Rightarrow> nat" where
  "caps_redir_fd Redir_in = 0"
| "caps_redir_fd Redir_err_out = 2"
| "caps_redir_fd Redir_err_append = 2"
| "caps_redir_fd _ = 1"

record redirection =
  rdType :: redir_type
  rdPath :: string
  rdTargetFd :: nat

text \<open>The validation pass, then the removal of the operators and their files.\<close>

fun redirections_valid :: "string list \<Rightarrow> lex_error + unit" where
  "redirections_valid [] = Inr ()"
| "redirections_valid (t # ts) =
     (if \<not> is_redir_op t then redirections_valid ts
      else
        (case ts of
           [] \<Rightarrow> Inl (Redirection_without_file t)
         | u # _ \<Rightarrow>
             if is_redir_op u then Inl (Redirection_to_operator t u)
             else redirections_valid ts))"

fun take_redirections :: "string list \<Rightarrow> string list \<times> redirection list" where
  "take_redirections [] = ([], [])"
| "take_redirections (t # ts) =
     (if is_redir_op t \<and> ts \<noteq> []
      then
        (let (argv, redirs) = take_redirections (tl ts) in
         (argv, \<lparr>rdType = redir_type_of t, rdPath = hd ts,
                 rdTargetFd = caps_redir_fd (redir_type_of t)\<rparr> # redirs))
      else
        (let (argv, redirs) = take_redirections ts in (t # argv, redirs)))"

definition parser_split_redirections ::
    "string list \<Rightarrow> lex_error + string list \<times> redirection list" where
  "parser_split_redirections argv =
     (case redirections_valid argv of Inl e \<Rightarrow> Inl e | Inr _ \<Rightarrow> Inr (take_redirections argv))"

text \<open>The ranges of tokens between the \<open>|\<close> tokens.\<close>

fun stage_ranges :: "string list \<Rightarrow> string list list" where
  "stage_ranges [] = [[]]"
| "stage_ranges (t # ts) =
     (if t = ''|'' then [] # stage_ranges ts
      else (case stage_ranges ts of r # rs \<Rightarrow> (t # r) # rs | [] \<Rightarrow> [[t]]))"

fun build_stages ::
    "nat \<Rightarrow> string list list \<Rightarrow> lex_error + (string list \<times> redirection list) list" where
  "build_stages stage [] = Inr []"
| "build_stages stage (tokens # ranges) =
     (if tokens = [] then Inl (if stage = 0 then Begins_with_bar else Empty_stage)
      else
        (case parser_split_redirections tokens of
           Inl e \<Rightarrow> Inl e
         | Inr (argv, redirs) \<Rightarrow>
             if argv = [] then Inl (Redirections_without_command stage)
             else
               (case build_stages (stage + 1) ranges of
                  Inl e \<Rightarrow> Inl e | Inr stages \<Rightarrow> Inr ((argv, redirs) # stages))))"

record engine_stage =
  esArgv :: "string list"
  esRedirs :: "redirection list"
  esStdinSource :: string
  esStdoutDest :: string

text \<open>The wiring labels of stage \<open>s\<close> of \<open>n\<close>.\<close>

definition label_stage ::
    "nat \<Rightarrow> nat \<times> string list \<times> redirection list \<Rightarrow> engine_stage" where
  "label_stage n st =
     (case st of (s, argv, redirs) \<Rightarrow>
        \<lparr>esArgv = argv, esRedirs = redirs,
         esStdinSource =
           (if s = 0
            then (if \<exists>r \<in> set redirs. rdType r = Redir_in then ''file'' else ''inherit'')
            else ''pipe''),
         esStdoutDest =
           (if s + 1 = n
            then (if \<exists>r \<in> set redirs. rdType r = Redir_out \<or> rdType r = Redir_append
                  then ''file'' else ''inherit'')
            else ''pipe'')\<rparr>)"

definition parser_parse_pipeline :: "string \<Rightarrow> lex_error + engine_stage list" where
  "parser_parse_pipeline line =
     (case parser_tokenize line of
        Inl e \<Rightarrow> Inl e
      | Inr tokens \<Rightarrow>
          (let ranges = stage_ranges tokens; nstages = length ranges in
           if nstages > CAPS_MAX_STAGES then Inl (Too_many_stages nstages)
           else
             (case build_stages 0 ranges of
                Inl e \<Rightarrow> Inl e
              | Inr stages \<Rightarrow> Inr (map (label_stage nstages) (enumerate 0 stages)))))"

section \<open>What the tokens of a line look like\<close>

lemma bb_push_lit_Inr:
  "bb_push_lit bb c = Inr bb' \<longleftrightarrow> length bb < CAPS_MAX_TOKEN \<and> bb' = bb @ [c]"
  by (auto simp: bb_push_lit_def)

lemma single_quoted_bound:
  "single_quoted bb p = Inr (bb', p') \<Longrightarrow> length bb \<le> CAPS_MAX_TOKEN \<Longrightarrow>
     length bb' \<le> CAPS_MAX_TOKEN"
  by (induction bb p rule: single_quoted.induct)
     (auto simp: bb_push_lit_Inr split: if_splits sum.splits)

lemma double_quoted_bound:
  "double_quoted bb p = Inr (bb', p') \<Longrightarrow> length bb \<le> CAPS_MAX_TOKEN \<Longrightarrow>
     length bb' \<le> CAPS_MAX_TOKEN"
  by (induction bb p rule: double_quoted.induct)
     (auto simp: bb_push_lit_Inr split: if_splits sum.splits)

lemma lex_piece_bound:
  "lex_piece c p bb = Inr (bb', p') \<Longrightarrow> length bb \<le> CAPS_MAX_TOKEN \<Longrightarrow>
     length bb' \<le> CAPS_MAX_TOKEN"
  by (auto simp: lex_piece_def bb_push_lit_Inr dest: single_quoted_bound double_quoted_bound
      split: if_splits sum.splits list.splits)

text \<open>The invariant of the loop: closed tokens are not empty, all are bounded in size and number.\<close>

definition lexer_ok :: "lexer \<Rightarrow> bool" where
  "lexer_ok s \<longleftrightarrow>
     (\<forall>t \<in> set (lxArgv s). t \<noteq> [] \<and> length t \<le> CAPS_MAX_TOKEN) \<and>
     length (lxBuf s) \<le> CAPS_MAX_TOKEN \<and>
     length (lxArgv s) + (if lxHaveToken s then 1 else 0) \<le> CAPS_MAX_ARGS"

lemma close_token_ok:
  "lexer_ok s \<Longrightarrow> lxHaveToken s \<Longrightarrow> lexer_ok (close_token p s)"
  by (auto simp: lexer_ok_def close_token_def)

lemma tokens_from_ok: "tokens_from p s = Inr s' \<Longrightarrow> lexer_ok s \<Longrightarrow> lexer_ok s'"
proof (induction p s rule: tokens_from.induct)
  case (2 c p s)
  show ?case
  proof (cases "c_isspace c \<or> (c = CHR ''#'' \<and> \<not> lxHaveToken s)")
    case True
    with "2.prems" "2.IH"(1) show ?thesis by (auto split: if_splits)
  next
    case False
    with "2.prems" obtain bb p' where few: "\<not> length (lxArgv s) \<ge> CAPS_MAX_ARGS"
        and piece: "lex_piece c p (lxBuf s) = Inr (bb, p')"
        and rest: "tokens_from p' (close_token p' (s \<lparr>lxBuf := bb, lxHaveToken := True\<rparr>)) = Inr s'"
      by (auto split: if_splits sum.splits)
    have "lexer_ok (s \<lparr>lxBuf := bb, lxHaveToken := True\<rparr>)"
      using "2.prems"(2) few lex_piece_bound [OF piece] by (simp add: lexer_ok_def)
    then have "lexer_ok (close_token p' (s \<lparr>lxBuf := bb, lxHaveToken := True\<rparr>))"
      by (simp add: close_token_ok)
    with "2.IH"(2) [OF _ _ few piece refl rest] False show ?thesis by auto
  qed
qed simp

lemma parser_tokenize_ok:
  assumes "parser_tokenize line = Inr tokens"
  shows "(\<forall>t \<in> set tokens. length t \<le> CAPS_MAX_TOKEN) \<and> (\<forall>t \<in> set (butlast tokens). t \<noteq> []) \<and>
    length tokens \<le> CAPS_MAX_ARGS"
proof -
  obtain s where run: "tokens_from line \<lparr>lxArgv = [], lxBuf = [], lxHaveToken = False\<rparr> = Inr s"
      and tokens: "tokens = (if lxHaveToken s then lxArgv s @ [lxBuf s] else lxArgv s)"
    using assms by (auto simp: parser_tokenize_def split: if_splits sum.splits)
  have "lexer_ok s"
    by (rule tokens_from_ok [OF run]) (simp add: lexer_ok_def)
  then show ?thesis
    by (auto simp: tokens lexer_ok_def dest: in_set_butlastD)
qed

section \<open>What a parsed pipeline looks like\<close>

text \<open>Stages as token lists again: the ranges between bars, and a stage with its redirections last.\<close>

fun bar_join :: "string list list \<Rightarrow> string list" where
  "bar_join [] = []"
| "bar_join [r] = r"
| "bar_join (r # q # rs) = r @ ''|'' # bar_join (q # rs)"

fun redir_text :: "redir_type \<Rightarrow> string" where
  "redir_text Redir_in = ''<''"
| "redir_text Redir_out = ''>''"
| "redir_text Redir_append = ''>>''"
| "redir_text Redir_err_out = ''2>''"
| "redir_text Redir_err_append = ''2>>''"

definition redir_tokens :: "redirection list \<Rightarrow> string list" where
  "redir_tokens redirs = concat (map (\<lambda>r. [redir_text (rdType r), rdPath r]) redirs)"

definition word_token :: "string \<Rightarrow> bool" where
  "word_token t \<longleftrightarrow> \<not> is_redir_op t \<and> t \<noteq> ''|'' \<and> length t \<le> CAPS_MAX_TOKEN"

definition stage_wf :: "string list \<times> redirection list \<Rightarrow> bool" where
  "stage_wf st \<longleftrightarrow> fst st \<noteq> [] \<and> (\<forall>a \<in> set (fst st). word_token a) \<and>
     (\<forall>r \<in> set (snd st). word_token (rdPath r) \<and> rdTargetFd r = caps_redir_fd (rdType r))"

lemma redir_text_op [simp]: "is_redir_op (redir_text t)"
  by (cases t) (simp_all add: is_redir_op_def)

lemma redir_type_of_text [simp]: "redir_type_of (redir_text t) = t"
  by (cases t) (simp_all add: redir_type_of_def)

lemma redir_text_not_bar [simp]: "redir_text t \<noteq> ''|''" "''|'' \<noteq> redir_text t"
  by (cases t; simp)+

lemma redir_text_type_of: "is_redir_op u \<Longrightarrow> redir_text (redir_type_of u) = u"
  unfolding is_redir_op_def by (elim insertE emptyE) (simp_all add: redir_type_of_def)

lemma redir_tokens_simps [simp]:
  "redir_tokens [] = []"
  "redir_tokens (r # rs) = redir_text (rdType r) # rdPath r # redir_tokens rs"
  by (simp_all add: redir_tokens_def)

lemma stage_ranges_not_Nil [simp]: "stage_ranges ts \<noteq> []"
  by (cases ts) (auto split: list.splits)

lemma stage_ranges_word:
  "''|'' \<notin> set r \<Longrightarrow> stage_ranges (r @ ts) =
     (case stage_ranges ts of q # qs \<Rightarrow> (r @ q) # qs | [] \<Rightarrow> [r])"
  by (induction r) (auto split: list.splits)

lemma stage_ranges_bar_join:
  "rs \<noteq> [] \<Longrightarrow> \<forall>r \<in> set rs. ''|'' \<notin> set r \<Longrightarrow> stage_ranges (bar_join rs) = rs"
proof (induction rs rule: bar_join.induct)
  case (2 r)
  then show ?case using stage_ranges_word [of r "[]"] by simp
qed (simp_all add: stage_ranges_word)

lemma bar_join_Cons: "rs \<noteq> [] \<Longrightarrow> bar_join ((t # r) # rs) = t # bar_join (r # rs)"
  by (cases rs) simp_all

lemma bar_join_stage_ranges: "bar_join (stage_ranges ts) = ts"
proof (induction ts)
  case (Cons t ts)
  obtain r rs where split: "stage_ranges ts = r # rs"
    by (cases "stage_ranges ts") simp_all
  with Cons show ?case
    by (cases rs) simp_all
qed simp

lemma stage_ranges_no_bar: "r \<in> set (stage_ranges ts) \<Longrightarrow> ''|'' \<notin> set r"
  by (induction ts arbitrary: r) (auto split: list.splits if_splits)

lemma redirections_valid_Cons:
  "redirections_valid (t # ts) = Inr u \<Longrightarrow>
     redirections_valid ts = Inr u \<and> (is_redir_op t \<longrightarrow> ts \<noteq> [] \<and> \<not> is_redir_op (hd ts))"
  by (auto split: if_splits list.splits)

lemma take_redirections_op:
  assumes "is_redir_op t" and "\<not> is_redir_op w"
  shows "take_redirections (t # w # ws) =
      (fst (take_redirections ws),
       \<lparr>rdType = redir_type_of t, rdPath = w, rdTargetFd = caps_redir_fd (redir_type_of t)\<rparr> #
       snd (take_redirections ws))"
  using assms by (simp add: case_prod_unfold Let_def)

lemma take_redirections_word:
  "\<not> is_redir_op t \<Longrightarrow>
     take_redirections (t # ts) = (t # fst (take_redirections ts), snd (take_redirections ts))"
  by (simp add: case_prod_unfold Let_def)

lemma take_redirections_cases [consumes 1, case_names Nil Op Word]:
  assumes "redirections_valid ts = Inr u"
    and "P []"
    and "\<And>t w ws. is_redir_op t \<Longrightarrow> \<not> is_redir_op w \<Longrightarrow> redirections_valid ws = Inr u \<Longrightarrow>
      P ws \<Longrightarrow> P (t # w # ws)"
    and "\<And>t ws. \<not> is_redir_op t \<Longrightarrow> redirections_valid ws = Inr u \<Longrightarrow> P ws \<Longrightarrow> P (t # ws)"
  shows "P ts"
  using assms(1)
proof (induction ts rule: length_induct)
  case (1 ts)
  show ?case
  proof (cases ts)
    case Nil
    with assms(2) show ?thesis by simp
  next
    case (Cons t us)
    note valid = redirections_valid_Cons [of t us u] 1(2)
    show ?thesis
    proof (cases "is_redir_op t")
      case True
      with valid Cons obtain w ws where us: "us = w # ws" "\<not> is_redir_op w"
        by (cases us) auto
      with valid Cons redirections_valid_Cons [of w ws u] have "redirections_valid ws = Inr u" by simp
      with True us Cons 1(1) assms(3) [of t w ws] show ?thesis by simp
    next
      case False
      with valid Cons 1(1) assms(4) [of t us] show ?thesis by simp
    qed
  qed
qed

lemma split_redirections_rebuild:
  assumes "\<forall>a \<in> set argv. \<not> is_redir_op a"
    and "\<forall>r \<in> set redirs. \<not> is_redir_op (rdPath r) \<and> rdTargetFd r = caps_redir_fd (rdType r)"
  shows "parser_split_redirections (argv @ redir_tokens redirs) = Inr (argv, redirs)"
proof -
  have "redirections_valid (redir_tokens redirs) = Inr () \<and>
      take_redirections (redir_tokens redirs) = ([], redirs)"
    using assms(2) by (induction redirs) (auto simp: take_redirections_op simp del: take_redirections.simps(2))
  then have "redirections_valid (argv @ redir_tokens redirs) = Inr () \<and>
      take_redirections (argv @ redir_tokens redirs) = (argv, redirs)"
    using assms(1) by (induction argv) (auto simp: take_redirections_word simp del: take_redirections.simps(2))
  then show ?thesis by (simp add: parser_split_redirections_def)
qed

lemma take_redirections_words:
  assumes "redirections_valid ts = Inr u"
  shows "(\<forall>a \<in> set (fst (take_redirections ts)). a \<in> set ts \<and> \<not> is_redir_op a) \<and>
    (\<forall>r \<in> set (snd (take_redirections ts)). rdPath r \<in> set ts \<and> \<not> is_redir_op (rdPath r) \<and>
       rdTargetFd r = caps_redir_fd (rdType r)) \<and>
    length (fst (take_redirections ts)) + 2 * length (snd (take_redirections ts)) = length ts"
  using assms
  by (induction ts rule: take_redirections_cases)
     (auto simp: take_redirections_op take_redirections_word simp del: take_redirections.simps(2))

lemma take_redirections_last_empty:
  assumes "redirections_valid ts = Inr u" and "\<forall>t \<in> set (butlast ts). t \<noteq> []"
  shows "\<forall>a \<in> set (butlast (fst (take_redirections ts))). a \<noteq> []"
  using assms
proof (induction ts rule: take_redirections_cases)
  case (Op t w ws)
  then show ?case by (cases "ws = []") (auto simp: take_redirections_op simp del: take_redirections.simps(2))
next
  case (Word t ws)
  then show ?case by (cases "ws = []") (auto simp: take_redirections_word simp del: take_redirections.simps(2))
qed simp

text \<open>A parsed line is a list of well-formed stages; only the line's last token can be empty.\<close>

definition stage_tokens :: "string list \<times> redirection list \<Rightarrow> string list" where
  "stage_tokens st = fst st @ redir_tokens (snd st)"

definition pipeline_wf :: "(string list \<times> redirection list) list \<Rightarrow> bool" where
  "pipeline_wf sts \<longleftrightarrow> sts \<noteq> [] \<and> length sts \<le> CAPS_MAX_STAGES \<and> (\<forall>st \<in> set sts. stage_wf st) \<and>
     length (bar_join (map stage_tokens sts)) \<le> CAPS_MAX_ARGS"

lemma length_bar_join:
  "length (bar_join rs) = sum_list (map length rs) + (length rs - 1)"
  by (induction rs rule: bar_join.induct) simp_all

lemma length_redir_tokens [simp]: "length (redir_tokens rs) = 2 * length rs"
  by (induction rs) simp_all

lemma stage_wf_no_bar: "stage_wf st \<Longrightarrow> ''|'' \<notin> set (stage_tokens st)"
  by (auto simp: stage_wf_def stage_tokens_def redir_tokens_def word_token_def)

lemma build_stages_rebuild:
  "\<forall>st \<in> set sts. stage_wf st \<Longrightarrow> build_stages k (map stage_tokens sts) = Inr sts"
proof (induction sts arbitrary: k)
  case (Cons st sts)
  obtain argv redirs where st: "st = (argv, redirs)" by fastforce
  with Cons.prems have "parser_split_redirections (argv @ redir_tokens redirs) = Inr (argv, redirs)"
    by (intro split_redirections_rebuild) (auto simp: stage_wf_def word_token_def)
  with Cons st show ?case by (simp add: stage_tokens_def stage_wf_def)
qed simp

lemma build_stages_ranges:
  "build_stages k ranges = Inr sts \<Longrightarrow>
     list_all2 (\<lambda>r st. parser_split_redirections r = Inr st \<and> fst st \<noteq> []) ranges sts"
  by (induction k ranges arbitrary: sts rule: build_stages.induct)
     (auto split: if_splits sum.splits prod.splits)

lemma split_redirections_wf:
  assumes "parser_split_redirections r = Inr st" and "fst st \<noteq> []"
    and "''|'' \<notin> set r" and "\<forall>t \<in> set r. length t \<le> CAPS_MAX_TOKEN"
  shows "stage_wf st \<and> length (stage_tokens st) = length r \<and>
    ((\<forall>t \<in> set (butlast r). t \<noteq> []) \<longrightarrow> (\<forall>a \<in> set (butlast (fst st)). a \<noteq> [])) \<and>
    set (fst st) \<subseteq> set r"
proof -
  have "redirections_valid r = Inr ()" and st: "st = take_redirections r"
    using assms(1) by (auto simp: parser_split_redirections_def split: sum.splits)
  from take_redirections_words [OF this(1)] take_redirections_last_empty [OF this(1)] assms(2-4)
  show ?thesis unfolding st
    by (auto simp: stage_wf_def word_token_def stage_tokens_def)
qed

text \<open>Where a range's tokens are in the line.\<close>

lemma bar_join_butlast:
  "r \<in> set (butlast rs) \<Longrightarrow> t \<in> set r \<Longrightarrow> t \<in> set (butlast (bar_join rs))"
  by (induction rs rule: bar_join.induct) (auto simp: butlast_append split: if_splits)

lemma bar_join_last:
  "rs \<noteq> [] \<Longrightarrow> t \<in> set (butlast (last rs)) \<Longrightarrow> t \<in> set (butlast (bar_join rs))"
  by (induction rs rule: bar_join.induct) (auto simp: butlast_append split: if_splits)

lemma bar_join_set: "r \<in> set rs \<Longrightarrow> set r \<subseteq> set (bar_join rs)"
  by (induction rs rule: bar_join.induct) auto

definition last_may_be_empty :: "(string list \<times> redirection list) list \<Rightarrow> bool" where
  "last_may_be_empty sts \<longleftrightarrow>
     (\<forall>st \<in> set (butlast sts). \<forall>a \<in> set (fst st). a \<noteq> []) \<and>
     (\<forall>a \<in> set (butlast (fst (last sts))). a \<noteq> [])"

abbreviation bare :: "engine_stage \<Rightarrow> string list \<times> redirection list" where
  "bare st \<equiv> (esArgv st, esRedirs st)"

definition labelled :: "(string list \<times> redirection list) list \<Rightarrow> engine_stage list" where
  "labelled sts = map (label_stage (length sts)) (enumerate 0 sts)"

lemma bare_labelled [simp]: "map bare (labelled sts) = sts"
proof -
  have "bare \<circ> label_stage n = snd" for n
    by (auto simp: label_stage_def fun_eq_iff)
  then show ?thesis
    by (simp add: labelled_def)
qed

lemma parse_pipeline_rebuilt:
  assumes "parser_tokenize line = Inr (bar_join (map stage_tokens sts))" and "pipeline_wf sts"
  shows "parser_parse_pipeline line = Inr (labelled sts)"
proof -
  have "stage_ranges (bar_join (map stage_tokens sts)) = map stage_tokens sts"
    using assms(2) by (intro stage_ranges_bar_join) (auto simp: pipeline_wf_def stage_wf_no_bar)
  then show ?thesis
    using assms build_stages_rebuild [of sts 0]
    by (simp add: parser_parse_pipeline_def pipeline_wf_def labelled_def)
qed

lemma parse_pipeline_wf:
  assumes "parser_parse_pipeline line = Inr stages"
  shows "\<exists>sts. stages = labelled sts \<and> pipeline_wf sts \<and> last_may_be_empty sts"
proof -
  obtain tokens sts where tok: "parser_tokenize line = Inr tokens"
      and few: "length (stage_ranges tokens) \<le> CAPS_MAX_STAGES"
      and build: "build_stages 0 (stage_ranges tokens) = Inr sts"
      and stages: "stages = map (label_stage (length (stage_ranges tokens))) (enumerate 0 sts)"
    using assms by (auto simp: parser_parse_pipeline_def Let_def split: sum.splits if_splits)
  let ?rs = "stage_ranges tokens"
  note tok_ok = parser_tokenize_ok [OF tok]
  note all2 = build_stages_ranges [OF build]
  then have len: "length sts = length ?rs" by (simp add: list_all2_lengthD)
  have tokens: "tokens = bar_join ?rs" by (simp add: bar_join_stage_ranges)
  have each: "stage_wf (sts ! i) \<and> length (stage_tokens (sts ! i)) = length (?rs ! i) \<and>
      ((\<forall>t \<in> set (butlast (?rs ! i)). t \<noteq> []) \<longrightarrow> (\<forall>a \<in> set (butlast (fst (sts ! i))). a \<noteq> [])) \<and>
      set (fst (sts ! i)) \<subseteq> set (?rs ! i)" if "i < length ?rs" for i
  proof (rule split_redirections_wf)
    show "parser_split_redirections (?rs ! i) = Inr (sts ! i)" "fst (sts ! i) \<noteq> []"
      using list_all2_nthD [OF all2 that] by auto
    show "''|'' \<notin> set (?rs ! i)" using that stage_ranges_no_bar nth_mem by blast
    show "\<forall>t \<in> set (?rs ! i). length t \<le> CAPS_MAX_TOKEN"
      using tok_ok bar_join_set [of "?rs ! i" ?rs] that tokens by auto
  qed
  have "map (\<lambda>st. length (stage_tokens st)) sts = map length ?rs"
    using each len by (intro nth_equalityI) simp_all
  then have "length (bar_join (map stage_tokens sts)) = length tokens"
    by (subst tokens) (simp add: length_bar_join len o_def)
  moreover have "\<forall>st \<in> set sts. stage_wf st"
    using each len by (metis in_set_conv_nth)
  moreover have "sts \<noteq> []" using len by auto
  ultimately have "pipeline_wf sts"
    using few len tok_ok by (simp add: pipeline_wf_def)
  moreover have "\<forall>st \<in> set (butlast sts). \<forall>a \<in> set (fst st). a \<noteq> []"
  proof (intro ballI)
    fix st a assume "st \<in> set (butlast sts)" and a: "a \<in> set (fst st)"
    then obtain i where i: "i < length ?rs - 1" "st = sts ! i"
      by (auto simp: in_set_conv_nth nth_butlast len)
    then have "?rs ! i \<in> set (butlast ?rs)"
      by (auto simp: in_set_conv_nth nth_butlast)
    moreover have "i < length ?rs" using i(1) by linarith
    then have "a \<in> set (?rs ! i)" using each [of i] i(2) a by auto
    ultimately show "a \<noteq> []"
      using bar_join_butlast [of "?rs ! i" ?rs a] tok_ok tokens by auto
  qed
  moreover have "\<forall>a \<in> set (butlast (fst (last sts))). a \<noteq> []"
  proof -
    have "\<forall>t \<in> set (butlast (last ?rs)). t \<noteq> []"
      using bar_join_last [of ?rs] tok_ok tokens by auto
    then show ?thesis
      using each [of "length ?rs - 1"] len by (cases "sts = []") (auto simp: last_conv_nth)
  qed
  ultimately have "stages = labelled sts \<and> pipeline_wf sts \<and> last_may_be_empty sts"
    using stages len by (simp add: labelled_def last_may_be_empty_def)
  then show ?thesis by blast
qed

end
