(* ===== verification/Path_Policy.thy ===== *)
theory Path_Policy
  imports Prelude
begin

text \<open>
  \<^verbatim>\<open>web/backend/src/security/policy.ts\<close> and the executable verification of
  \<^verbatim>\<open>web/backend/src/catalog/commands.ts\<close>: which file names the browser may pass, which
  redirection targets and input files lie in the workspace, and which executable is pinned.

  An absolute, normalised path is the list of its components; \<open>path_text\<close> is its spelling and
  \<open>resolve\<close> is \<open>path.resolve\<close> from an absolute directory.  The file system is the environment:
  the record \<open>fs\<close> holds the answers of the four calls the code makes.  An error message is the
  constructor of its template, with what the template interpolates.
\<close>

section \<open>Paths\<close>

type_synonym path = "string list"

abbreviation slash :: char where "slash \<equiv> CHR ''/''"

definition isAbsolute :: "string \<Rightarrow> bool" where
  "isAbsolute s = prefix [slash] s"

definition path_text :: "path \<Rightarrow> string" where
  "path_text p = slash # join_with [slash] p"

definition normalise_step :: "path \<Rightarrow> string \<Rightarrow> path" where
  "normalise_step acc part =
     (if part = [] \<or> part = ''.'' then acc
      else if part = ''..'' then butlast acc
      else acc @ [part])"

definition resolve :: "path \<Rightarrow> string \<Rightarrow> path" where
  "resolve base s =
     foldl normalise_step (if isAbsolute s then [] else base) (split_on (\<lambda>c. c = slash) s)"

text \<open>\<open>path.relative\<close>: up from the end of the common part, then down.\<close>

fun relative_parts :: "path \<Rightarrow> path \<Rightarrow> path" where
  "relative_parts (x # xs) (y # ys) =
     (if x = y then relative_parts xs ys else replicate (length (x # xs)) ''..'' @ y # ys)"
| "relative_parts xs ys = replicate (length xs) ''..'' @ ys"

definition relative_path :: "path \<Rightarrow> path \<Rightarrow> string" where
  "relative_path from to' = join_with [slash] (relative_parts from to')"

section \<open>The file system\<close>

datatype errno = ENOENT | EACCES | Other_errno string

datatype file_kind = Regular_file | Directory | Symbolic_link | Special_file

record file_info =
  fiKind :: file_kind
  fiUid :: int
  fiMode :: int

record fs =
  fsExists :: "path \<Rightarrow> bool"
  fsRealpath :: "path \<Rightarrow> errno + path"
  fsLstat :: "path \<Rightarrow> errno + file_info"
  fsExecutable :: "path \<Rightarrow> bool"

section \<open>Policy errors\<close>

datatype policy_error =
    Invalid_command_name | Too_many_arguments | Vector_too_large | Nul_in_argument
  | Target_empty | Target_rejected | Workspace_missing | Traverses_symlink
  | Target_escapes | Target_unverifiable
  | File_rejected | File_escapes | File_not_regular | File_must_exist
  | Raw_fs_error errno

definition validateArgVector :: "string \<Rightarrow> string list \<Rightarrow> policy_error + unit" where
  "validateArgVector command args =
     (if length command = 0 \<or> length command > 256 then Inl Invalid_command_name
      else if length args > 512 then Inl Too_many_arguments
      else if fold (\<lambda>a acc. acc + length a) args 0 > 128 * 1024 then Inl Vector_too_large
      else if \<exists>a \<in> set (command # args). CHR 0x00 \<in> set a then Inl Nul_in_argument
      else Inr ())"

definition path_separator :: "char \<Rightarrow> bool" where
  "path_separator c \<longleftrightarrow> c = slash \<or> c = CHR 0x5C"

definition control_char :: "char \<Rightarrow> bool" where
  "control_char c \<longleftrightarrow> (of_char c :: nat) \<le> 31"

definition isSafeRedirTarget :: "string \<Rightarrow> bool" where
  "isSafeRedirTarget name =
     (if length name = 0 \<or> length name > 255 then False
      else if length (js_trim name) = 0 then False
      else if CHR 0x00 \<in> set name then False
      else if CHR ''~'' \<in> set name then False
      else if isAbsolute name then False
      else if \<exists>c \<in> set name. control_char c then False
      else \<forall>part \<in> set (split_on path_separator name).
             \<not> (part = ''..'' \<or> part = ''.'' \<or> part = []))"

definition contained :: "path \<Rightarrow> path \<Rightarrow> bool" where
  "contained base candidate =
     (let rel = relative_path base candidate in
      rel = [] \<or> (rel \<noteq> ''..'' \<and> \<not> prefix (''..'' @ [slash]) rel \<and> \<not> isAbsolute rel))"

fun walk_target :: "fs \<Rightarrow> path \<Rightarrow> path \<Rightarrow> string list \<Rightarrow> policy_error + unit" where
  "walk_target f base current [] =
     (if contained base current then Inr () else Inl Target_escapes)"
| "walk_target f base current (part # parts) =
     (let current = resolve current part in
      case fsLstat f current of
        Inl e \<Rightarrow>
          if e = ENOENT
          then (if contained base current then Inr () else Inl Target_escapes)
          else Inl Target_unverifiable
      | Inr info \<Rightarrow>
          if fiKind info = Symbolic_link then Inl Traverses_symlink
          else
            (case fsRealpath f current of
               Inl e \<Rightarrow>
                 if e = ENOENT
                 then (if contained base current then Inr () else Inl Target_escapes)
                 else Inl Target_unverifiable
             | Inr actual \<Rightarrow>
                 if contained base actual then walk_target f base actual parts
                 else Inl Target_escapes))"

definition assertTargetInWorkspace :: "fs \<Rightarrow> path \<Rightarrow> string \<Rightarrow> policy_error + unit" where
  "assertTargetInWorkspace f workspace target =
     (if \<not> isSafeRedirTarget target
      then Inl (if length target = 0 \<or> length (js_trim target) = 0
                then Target_empty else Target_rejected)
      else if \<not> fsExists f workspace then Inl Workspace_missing
      else
        (case fsRealpath f workspace of
           Inl e \<Rightarrow> Inl (Raw_fs_error e)
         | Inr base \<Rightarrow> walk_target f base base (split_on path_separator target)))"

definition assertReadableFileInWorkspace :: "fs \<Rightarrow> path \<Rightarrow> string \<Rightarrow> policy_error + unit" where
  "assertReadableFileInWorkspace f workspace target =
     (if \<not> isSafeRedirTarget target \<or> prefix ''-'' target then Inl File_rejected
      else
        (case fsRealpath f workspace of
           Inl e \<Rightarrow> Inl File_must_exist
         | Inr base \<Rightarrow>
             (case fsRealpath f (resolve workspace target) of
                Inl e \<Rightarrow> Inl File_must_exist
              | Inr resolved \<Rightarrow>
                  if path_text resolved \<noteq> path_text base \<and>
                     \<not> prefix (path_text base @ [slash]) (path_text resolved)
                  then Inl File_escapes
                  else
                    (case fsLstat f resolved of
                       Inl e \<Rightarrow> Inl File_must_exist
                     | Inr info \<Rightarrow>
                         if fiKind info \<noteq> Regular_file then Inl File_not_regular else Inr ()))))"

section \<open>Lemmas: paths\<close>

definition plain_part :: "string \<Rightarrow> bool" where
  "plain_part w \<longleftrightarrow> w \<noteq> [] \<and> w \<noteq> ''.'' \<and> w \<noteq> ''..'' \<and> slash \<notin> set w"

definition canonical :: "path \<Rightarrow> bool" where
  "canonical p \<longleftrightarrow> (\<forall>w \<in> set p. plain_part w)"

lemma canonical_Nil [simp]: "canonical []"
  by (simp add: canonical_def)

lemma canonical_append [simp]: "canonical (p @ q) \<longleftrightarrow> canonical p \<and> canonical q"
  by (auto simp: canonical_def)

lemma canonical_Cons [simp]: "canonical (w # p) \<longleftrightarrow> plain_part w \<and> canonical p"
  by (simp add: canonical_def)

lemma foldl_normalise_plain: "\<forall>w \<in> set ws. plain_part w \<Longrightarrow> foldl normalise_step acc ws = acc @ ws"
  by (induction ws arbitrary: acc) (auto simp: normalise_step_def plain_part_def)

lemma foldl_normalise_canonical:
  "canonical acc \<Longrightarrow> \<forall>w \<in> set ws. slash \<notin> set w \<Longrightarrow> canonical (foldl normalise_step acc ws)"
proof (induction ws arbitrary: acc)
  case Nil
  then show ?case by simp
next
  case (Cons w ws)
  have "canonical (butlast acc)"
    using Cons.prems(1) by (auto simp: canonical_def dest: in_set_butlastD)
  with Cons.prems have "canonical (normalise_step acc w)"
    by (simp add: normalise_step_def plain_part_def)
  with Cons show ?case by simp
qed

lemma resolve_canonical: "canonical base \<Longrightarrow> canonical (resolve base s)"
  unfolding resolve_def by (rule foldl_normalise_canonical) (auto dest: split_on_parts)

lemma resolve_part: "plain_part w \<Longrightarrow> resolve base w = base @ [w]"
proof -
  assume w: "plain_part w"
  then have "split_on (\<lambda>c. c = slash) w = [w]" and "\<not> isAbsolute w"
    by (auto simp: plain_part_def isAbsolute_def prefix_def intro!: split_on_no_sep)
  with w show ?thesis by (simp add: resolve_def normalise_step_def plain_part_def)
qed

lemma relative_parts_prefix: "relative_parts p (p @ q) = q"
  by (induction p) (cases q; simp)+

lemma relative_parts_outside:
  "\<not> prefix p q \<Longrightarrow> \<exists>r. relative_parts p q = ''..'' # r"
proof (induction p arbitrary: q)
  case Nil
  then show ?case by simp
next
  case (Cons x xs)
  then show ?case by (cases q) auto
qed

lemma dotdot_slash_prefix:
  "plain_part w \<Longrightarrow> r = [] \<or> hd r = slash \<Longrightarrow> \<not> prefix (''..'' @ [slash]) (w @ r)"
  by (auto simp: plain_part_def prefix_def Cons_eq_append_conv append_eq_Cons_conv)

lemma prefix_join: "plain_part w \<Longrightarrow> \<exists>r. join_with [slash] (w # ws) = w @ r \<and> (r = [] \<or> hd r = slash)"
  by (cases ws) auto

lemma contained_iff:
  assumes "canonical candidate"
  shows "contained base candidate \<longleftrightarrow> prefix base candidate"
proof
  assume "prefix base candidate"
  then obtain q where q: "candidate = base @ q" by (auto simp: prefix_def)
  show "contained base candidate"
  proof (cases q)
    case Nil
    with q show ?thesis
      by (simp add: contained_def relative_path_def relative_parts_prefix [of base "[]", simplified])
  next
    case (Cons w ws)
    with assms q have w: "plain_part w" by simp
    then obtain r where r: "join_with [slash] (w # ws) = w @ r" "r = [] \<or> hd r = slash"
      using prefix_join by blast
    have "w @ r \<noteq> ''..''"
      using w r(2) by (cases r) (auto simp: plain_part_def Cons_eq_append_conv append_eq_Cons_conv)
    moreover have "\<not> prefix (''..'' @ [slash]) (w @ r)"
      using w r(2) by (rule dotdot_slash_prefix)
    moreover have "\<not> isAbsolute (w @ r)"
      using w by (cases w) (auto simp: isAbsolute_def plain_part_def)
    ultimately show ?thesis
      by (simp add: contained_def relative_path_def q Cons relative_parts_prefix r(1) Let_def)
  qed
next
  assume c: "contained base candidate"
  show "prefix base candidate"
  proof (rule ccontr)
    assume "\<not> prefix base candidate"
    then obtain r where "relative_parts base candidate = ''..'' # r"
      using relative_parts_outside by blast
    then have "relative_path base candidate = ''..'' \<or>
        prefix (''..'' @ [slash]) (relative_path base candidate)"
      by (cases r) (simp_all add: relative_path_def)
    with c show False by (auto simp: contained_def Let_def relative_path_def)
  qed
qed

section \<open>Lemmas: safe names\<close>

lemma split_on_refine:
  "(\<forall>c \<in> set (hd (split_on P s)). \<not> Q c) \<longrightarrow>
      hd (split_on (\<lambda>c. P c \<or> Q c) s) = hd (split_on P s)"
  "w \<in> set (tl (split_on P s)) \<Longrightarrow> \<forall>c \<in> set w. \<not> Q c \<Longrightarrow>
      w \<in> set (tl (split_on (\<lambda>c. P c \<or> Q c) s))"
proof (induction s)
  case Nil
  { case 1 then show ?case by simp }
  { case 2 then show ?case by simp }
next
  case (Cons x s)
  obtain a as b bs where e: "split_on P s = a # as" "split_on (\<lambda>c. P c \<or> Q c) s = b # bs"
    by (metis neq_Nil_conv split_on_not_Nil)
  { case 1 with Cons.IH(1) e show ?case by auto }
  { case 2 with Cons.IH e show ?case by (auto split: if_splits) }
qed

lemma split_on_refine':
  assumes "w \<in> set (split_on P s)" and "\<forall>c \<in> set w. \<not> Q c"
  shows "w \<in> set (split_on (\<lambda>c. P c \<or> Q c) s)"
proof -
  obtain a as b bs where e: "split_on P s = a # as" "split_on (\<lambda>c. P c \<or> Q c) s = b # bs"
    by (metis neq_Nil_conv split_on_not_Nil)
  with assms split_on_refine(1) [of P s Q] split_on_refine(2) [of w P s Q] show ?thesis by auto
qed

lemma safe_parts:
  assumes "isSafeRedirTarget name" and "w \<in> set (split_on path_separator name)"
  shows "plain_part w"
  using assms split_on_parts [OF assms(2)]
  by (auto simp: isSafeRedirTarget_def plain_part_def path_separator_def split: if_splits)

lemma safe_slash_parts:
  assumes "isSafeRedirTarget name" and w: "w \<in> set (split_on (\<lambda>c. c = slash) name)"
  shows "plain_part w"
proof (cases "CHR 0x5C \<in> set w")
  case True
  with split_on_parts [OF w] show ?thesis by (auto simp: plain_part_def)
next
  case False
  with w have "w \<in> set (split_on (\<lambda>c. c = slash \<or> c = CHR 0x5C) name)"
    by (intro split_on_refine') auto
  then have "w \<in> set (split_on path_separator name)"
    by (simp add: path_separator_def [abs_def])
  with assms(1) show ?thesis by (rule safe_parts)
qed

lemma safe_resolve:
  assumes "isSafeRedirTarget name"
  shows "resolve base name = base @ split_on (\<lambda>c. c = slash) name"
proof -
  have "\<not> isAbsolute name" using assms by (simp add: isSafeRedirTarget_def split: if_splits)
  moreover have "\<forall>w \<in> set (split_on (\<lambda>c. c = slash) name). plain_part w"
    using safe_slash_parts [OF assms] by blast
  ultimately show ?thesis by (simp add: resolve_def foldl_normalise_plain)
qed

lemma join_append: "ws \<noteq> [] \<Longrightarrow> vs \<noteq> [] \<Longrightarrow> join_with sep (ws @ vs) = join_with sep ws @ sep @ join_with sep vs"
  by (induction sep ws rule: join_with.induct) (auto simp: neq_Nil_conv)

lemma split_slash:
  "slash \<notin> set w \<Longrightarrow> split_on (\<lambda>c. c = slash) w = [w]"
  "slash \<notin> set w \<Longrightarrow> split_on (\<lambda>c. c = slash) (w @ slash # s) = w # split_on (\<lambda>c. c = slash) s"
  by (auto intro!: split_on_no_sep split_on_append_sep)

lemma split_join:
  "ws \<noteq> [] \<Longrightarrow> \<forall>w \<in> set ws. slash \<notin> set w \<Longrightarrow> split_on (\<lambda>c. c = slash) (join_with [slash] ws) = ws"
  by (induction "[slash]" ws rule: join_with.induct)
     (auto simp: split_slash)

lemma join_eq_Nil: "canonical ws \<Longrightarrow> join_with [slash] ws = [] \<longleftrightarrow> ws = []"
  by (cases ws; cases "tl ws") (auto simp: plain_part_def)

lemma join_inj:
  assumes "canonical p" "canonical q" "join_with [slash] p = join_with [slash] q"
  shows "p = q"
proof (cases "p = [] \<or> q = []")
  case True
  then show ?thesis
    using assms join_eq_Nil [OF assms(1)] join_eq_Nil [OF assms(2)] by auto
next
  case False
  have "split_on (\<lambda>c. c = slash) (join_with [slash] p) = p"
    using False assms(1) by (intro split_join) (auto simp: canonical_def plain_part_def)
  moreover have "split_on (\<lambda>c. c = slash) (join_with [slash] q) = q"
    using False assms(2) by (intro split_join) (auto simp: canonical_def plain_part_def)
  ultimately show ?thesis using assms(3) by metis
qed

lemma path_text_inj: "canonical p \<Longrightarrow> canonical q \<Longrightarrow> path_text p = path_text q \<longleftrightarrow> p = q"
  using join_inj by (auto simp: path_text_def)

lemma split_on_append_same:
  "split_on P (xs @ c # ys) = split_on P xs @ split_on P ys" if "P c"
proof (induction xs)
  case (Cons x xs)
  then show ?case using that by (cases "split_on P xs") auto
qed (use that in simp)

lemma path_text_below:
  assumes "canonical p" "canonical q" "p \<noteq> []"
  shows "prefix (path_text p @ [slash]) (path_text q) \<longleftrightarrow> strict_prefix p q"
proof
  assume "prefix (path_text p @ [slash]) (path_text q)"
  then obtain r where r: "join_with [slash] q = join_with [slash] p @ slash # r"
    by (auto simp: path_text_def prefix_def)
  then have "q \<noteq> []" by auto
  have "split_on (\<lambda>c. c = slash) (join_with [slash] q) =
      split_on (\<lambda>c. c = slash) (join_with [slash] p) @ split_on (\<lambda>c. c = slash) r"
    unfolding r by (rule split_on_append_same) simp
  then have "q = p @ split_on (\<lambda>c. c = slash) r"
    using assms \<open>q \<noteq> []\<close> by (simp add: split_join canonical_def plain_part_def)
  then show "strict_prefix p q"
    by (metis prefixI split_on_not_Nil strict_prefix_def append_self_conv)
next
  assume "strict_prefix p q"
  then obtain r where "q = p @ r" "r \<noteq> []"
    by (auto simp: strict_prefix_def prefix_def)
  with assms(3) show "prefix (path_text p @ [slash]) (path_text q)"
    by (simp add: path_text_def join_append)
qed

section \<open>The file system's contract\<close>

text \<open>
  What the code relies on of \<open>realpath\<close> and \<open>lstat\<close>: a result of \<open>realpath\<close> is normalised and
  its own real path, and below a real directory an entry that is not a symbolic link is its own
  real path.
\<close>

definition honest_fs :: "fs \<Rightarrow> bool" where
  "honest_fs f \<longleftrightarrow>
     (\<forall>p q. fsRealpath f p = Inr q \<longrightarrow> canonical q \<and> fsRealpath f q = Inr q) \<and>
     (\<forall>p w i. fsRealpath f p = Inr p \<and> plain_part w \<and> fsLstat f (p @ [w]) = Inr i \<and>
        fiKind i \<noteq> Symbolic_link \<longrightarrow> fsRealpath f (p @ [w]) = Inr (p @ [w]))"

lemma walk_target_no_symlink:
  assumes "honest_fs f" and "\<forall>w \<in> set parts. plain_part w" and "fsRealpath f current = Inr current"
    and "walk_target f base current parts = Inr ()"
    and "n < length parts"
    and "\<forall>m < n. \<exists>i. fsLstat f (current @ take (m + 1) parts) = Inr i"
    and "fsLstat f (current @ take (n + 1) parts) = Inr i"
  shows "fiKind i \<noteq> Symbolic_link \<and> fsRealpath f (current @ take (n + 1) parts) = Inr (current @ take (n + 1) parts)"
  using assms
proof (induction parts arbitrary: current n i)
  case Nil
  then show ?case by simp
next
  case (Cons part parts)
  from Cons.prems(2) have r: "resolve current part = current @ [part]"
    by (simp add: resolve_part)
  obtain j where j: "fsLstat f (current @ [part]) = Inr j"
  proof (cases n)
    case 0
    with Cons.prems(7) that show ?thesis by auto
  next
    case (Suc m)
    with Cons.prems(6) that show ?thesis by (auto dest: spec [of _ 0])
  qed
  with Cons.prems(4) r have k: "fiKind j \<noteq> Symbolic_link"
    by (auto simp: Let_def split: if_splits)
  with Cons.prems(1-3) j have real: "fsRealpath f (current @ [part]) = Inr (current @ [part])"
    by (auto simp: honest_fs_def)
  show ?case
  proof (cases n)
    case 0
    with k j real Cons.prems(7) show ?thesis by simp
  next
    case (Suc m)
    have "walk_target f base (current @ [part]) parts = Inr ()"
      using Cons.prems(4) r j k real by (auto simp: Let_def split: if_splits)
    from Cons.IH [OF Cons.prems(1) _ real this, of m i] Cons.prems(2,5-7) Suc show ?thesis
      by (auto dest: spec [of _ "Suc _"])
  qed
qed

section \<open>Properties\<close>

text \<open>C13: An accepted redirection target stays in the workspace and goes through no symbolic link.
  Its name appends plain components to the workspace's real path, and as far as the components
  of the target exist, none of them is a symbolic link and each is its own real path.\<close>
theorem redirection_target_confined:
  assumes "honest_fs f" and "assertTargetInWorkspace f workspace target = Inr ()"
  shows "\<exists>base q. fsRealpath f workspace = Inr base \<and>
    resolve base target = base @ q \<and> q \<noteq> [] \<and> canonical q \<and>
    (\<forall>n i. n < length (split_on path_separator target) \<and>
       (\<forall>m < n. \<exists>j. fsLstat f (base @ take (m + 1) (split_on path_separator target)) = Inr j) \<and>
       fsLstat f (base @ take (n + 1) (split_on path_separator target)) = Inr i \<longrightarrow>
       fiKind i \<noteq> Symbolic_link \<and>
       fsRealpath f (base @ take (n + 1) (split_on path_separator target)) =
         Inr (base @ take (n + 1) (split_on path_separator target)))"
proof -
  from assms(2) have safe: "isSafeRedirTarget target"
    by (simp add: assertTargetInWorkspace_def split: if_splits)
  with assms(2) obtain base where base: "fsRealpath f workspace = Inr base"
    and walk: "walk_target f base base (split_on path_separator target) = Inr ()"
    by (auto simp: assertTargetInWorkspace_def split: if_splits sum.splits)
  have "fsRealpath f base = Inr base"
    using assms(1) base by (auto simp: honest_fs_def)
  moreover have "\<forall>w \<in> set (split_on path_separator target). plain_part w"
    using safe by (blast intro: safe_parts)
  ultimately have steps: "\<And>n i. n < length (split_on path_separator target) \<Longrightarrow>
       \<forall>m < n. \<exists>j. fsLstat f (base @ take (m + 1) (split_on path_separator target)) = Inr j \<Longrightarrow>
       fsLstat f (base @ take (n + 1) (split_on path_separator target)) = Inr i \<Longrightarrow>
       fiKind i \<noteq> Symbolic_link \<and>
       fsRealpath f (base @ take (n + 1) (split_on path_separator target)) =
         Inr (base @ take (n + 1) (split_on path_separator target))"
    using walk_target_no_symlink [OF assms(1) _ _ walk] by blast
  have "canonical (split_on (\<lambda>c. c = slash) target)"
    using safe by (simp add: canonical_def safe_slash_parts)
  then have "fsRealpath f workspace = Inr base \<and>
      resolve base target = base @ split_on (\<lambda>c. c = slash) target \<and>
      split_on (\<lambda>c. c = slash) target \<noteq> [] \<and> canonical (split_on (\<lambda>c. c = slash) target)"
    using base safe_resolve [OF safe, of base] by simp
  with steps show ?thesis by meson
qed

definition sample_fs :: fs where
  "sample_fs =
     \<lparr>fsExists = (\<lambda>p. p \<in> {[], [''ws''], [''ws'', ''a''], [''ws'', ''l'']}),
      fsRealpath =
        (\<lambda>p. if p \<in> {[], [''ws''], [''ws'', ''a'']} then Inr p
             else if p = [''ws'', ''l''] then Inr [] else Inl ENOENT),
      fsLstat =
        (\<lambda>p. if p \<in> {[], [''ws'']} then Inr \<lparr>fiKind = Directory, fiUid = 0, fiMode = 493\<rparr>
             else if p = [''ws'', ''a''] then Inr \<lparr>fiKind = Regular_file, fiUid = 0, fiMode = 420\<rparr>
             else if p = [''ws'', ''l''] then Inr \<lparr>fiKind = Symbolic_link, fiUid = 0, fiMode = 511\<rparr>
             else Inl ENOENT),
      fsExecutable = (\<lambda>p. False)\<rparr>"

lemma sample_fs_honest: "honest_fs sample_fs"
  by (auto simp: honest_fs_def sample_fs_def plain_part_def split: if_splits)

theorem redirection_target_confined_witness:
  "\<exists>base q. fsRealpath sample_fs [''ws''] = Inr base \<and> resolve base ''a'' = base @ q"
proof -
  have "assertTargetInWorkspace sample_fs [''ws''] ''a'' = Inr ()"
    by code_simp
  from redirection_target_confined [OF sample_fs_honest this] show ?thesis by blast
qed

text \<open>A file argument is accepted exactly when its name is safe, does not look like a flag, and
  its real path is a regular file at or below the workspace's real path. The code compares
  spelled paths; the statement compares components.\<close>
theorem readable_file_exact:
  assumes "honest_fs f"
  shows "assertReadableFileInWorkspace f workspace target = Inr () \<longleftrightarrow>
    isSafeRedirTarget target \<and> \<not> prefix ''-'' target \<and>
    (\<exists>base p i. fsRealpath f workspace = Inr base \<and>
       fsRealpath f (resolve workspace target) = Inr p \<and>
       prefix base p \<and> (base = [] \<longrightarrow> p = []) \<and>
       fsLstat f p = Inr i \<and> fiKind i = Regular_file)"
proof -
  have inside: "path_text p \<noteq> path_text base \<and> \<not> prefix (path_text base @ [slash]) (path_text p)
      \<longleftrightarrow> \<not> (prefix base p \<and> (base = [] \<longrightarrow> p = []))"
    if "canonical base" "canonical p" for base p
  proof (cases "base = []")
    case True
    have "\<not> prefix (path_text [] @ [slash]) (path_text p)"
      using that(2) by (cases p; cases "tl p") (auto simp: path_text_def plain_part_def prefix_def Cons_eq_append_conv append_eq_Cons_conv)
    with True path_text_inj [OF that(2,1)] show ?thesis by auto
  next
    case False
    with that show ?thesis
      by (auto simp: path_text_inj path_text_below strict_prefix_def)
  qed
  have canon: "canonical p" if "fsRealpath f q = Inr p" for p q
    using assms that by (auto simp: honest_fs_def)
  show ?thesis
    unfolding assertReadableFileInWorkspace_def
    by (auto simp: inside canon split: sum.splits if_splits)
qed

theorem readable_file_exact_witness:
  "assertReadableFileInWorkspace sample_fs [''ws''] ''a'' = Inr () \<and>
   assertReadableFileInWorkspace sample_fs [''ws''] ''l'' \<noteq> Inr ()"
proof
  show "assertReadableFileInWorkspace sample_fs [''ws''] ''a'' = Inr ()"
    by code_simp
  have "fsRealpath sample_fs [''ws''] = Inr [''ws'']"
    and "fsRealpath sample_fs (resolve [''ws''] ''l'') = Inr []"
    by code_simp+
  with readable_file_exact [OF sample_fs_honest, of "[''ws'']" "''l''"]
  show "assertReadableFileInWorkspace sample_fs [''ws''] ''l'' \<noteq> Inr ()"
    by auto
qed

end
