(* ===== verification/Decimal.thy ===== *)
theory Decimal
  imports Prelude
begin

text \<open>
  Decimal integers as the gateway reads and prints them: \<open>/^\d{1,n}$/\<close> with \<open>Number\<close> or
  \<open>parseInt\<close> on the one side, \<open>String\<close> on the other.  The code admits at most ten digits, far
  below the integers a double represents exactly, so the values are unbounded naturals here.
\<close>

definition is_digit :: "char \<Rightarrow> bool" where
  "is_digit c \<longleftrightarrow> c \<in> set ''0123456789''"

definition digit_value :: "char \<Rightarrow> nat" where
  "digit_value c = of_char c - 48"

definition digit_char :: "nat \<Rightarrow> char" where
  "digit_char d = ''0123456789'' ! d"

definition decimal_value :: "string \<Rightarrow> nat" where
  "decimal_value s = foldl (\<lambda>n c. 10 * n + digit_value c) 0 s"

text \<open>\<open>/^\d{1,n}$/.test(s)\<close>\<close>

definition plain_digits :: "nat \<Rightarrow> string \<Rightarrow> bool" where
  "plain_digits n s \<longleftrightarrow> 1 \<le> length s \<and> length s \<le> n \<and> (\<forall>c \<in> set s. is_digit c)"

fun nat_text :: "nat \<Rightarrow> string" where
  "nat_text n = (if n < 10 then [digit_char n] else nat_text (n div 10) @ [digit_char (n mod 10)])"

declare nat_text.simps [simp del]

definition int_text :: "int \<Rightarrow> string" where
  "int_text i = (if i < 0 then CHR ''-'' # nat_text (nat (- i)) else nat_text (nat i))"

lemma less_ten: "d < (10::nat) \<Longrightarrow> d \<in> {0,1,2,3,4,5,6,7,8,9}"
  by auto

lemma digit_char_digit [simp]: "d < 10 \<Longrightarrow> is_digit (digit_char d)"
  by (drule less_ten) (auto simp: is_digit_def digit_char_def)

lemma digit_value_char [simp]: "d < 10 \<Longrightarrow> digit_value (digit_char d) = d"
  by (drule less_ten) (auto simp: digit_value_def digit_char_def)

lemma digit_value_less: "is_digit c \<Longrightarrow> digit_value c < 10"
  by (auto simp: is_digit_def digit_value_def)

lemma decimal_value_snoc: "decimal_value (s @ [c]) = 10 * decimal_value s + digit_value c"
  by (simp add: decimal_value_def)

lemma decimal_value_nat_text [simp]: "decimal_value (nat_text n) = n"
proof (induction n rule: nat_text.induct)
  case (1 n)
  show ?case
  proof (cases "n < 10")
    case True
    then show ?thesis by (simp add: nat_text.simps decimal_value_def)
  next
    case False
    with 1 show ?thesis by (simp add: nat_text.simps [of n] decimal_value_snoc)
  qed
qed

lemma nat_text_digits: "c \<in> set (nat_text n) \<Longrightarrow> is_digit c"
proof (induction n rule: nat_text.induct)
  case (1 n)
  then show ?case by (cases "n < 10") (auto simp: nat_text.simps [of n])
qed

lemma nat_text_not_Nil [simp]: "nat_text n \<noteq> []"
  by (subst nat_text.simps) simp

lemma nat_text_length: "n < 10 ^ k \<Longrightarrow> 0 < k \<Longrightarrow> length (nat_text n) \<le> k"
proof (induction n arbitrary: k rule: nat_text.induct)
  case (1 n)
  show ?case
  proof (cases "n < 10")
    case True
    with 1 show ?thesis by (simp add: nat_text.simps)
  next
    case False
    then obtain j where j: "k = Suc j" "0 < j"
      using 1(2,3) by (cases k; cases "k - 1") auto
    then have "n div 10 < 10 ^ j"
      using 1(2) by (simp add: div_less_iff_less_mult mult.commute)
    with 1(1) [OF False this j(2)] False j show ?thesis by (simp add: nat_text.simps [of n])
  qed
qed

lemma nat_text_plain: "n < 10 ^ k \<Longrightarrow> 0 < k \<Longrightarrow> plain_digits k (nat_text n)"
  using nat_text_length [of n k] nat_text_digits [of _ n]
  by (auto simp: plain_digits_def Suc_le_eq)

end
