(* ===== verification/Workload_Catalog.thy ===== *)
theory Workload_Catalog
  imports Path_Policy Decimal
begin

text \<open>
  \<^verbatim>\<open>web/backend/src/execution/workloadCatalog.ts\<close>: the controlled workloads, their argument
  bounds, the probe of their binaries and the strict validation that turns the user's words
  into the full argv.  Labels and descriptions are left out.  Every profile's \<open>buildArgv\<close> prints
  each of its own arguments, supplied or default, so it is one function of the profile.
\<close>

section \<open>Profiles\<close>

record workload_arg =
  waName :: string
  waMin :: int
  waMax :: int
  waDefault :: int
  waUnit :: string

record workload_profile =
  wpId :: string
  wpObserves :: "string list"
  wpArgs :: "workload_arg list"

definition duration :: "int \<Rightarrow> workload_arg" where
  "duration def =
     \<lparr>waName = ''seconds'', waMin = 1, waMax = 30, waDefault = def, waUnit = ''s''\<rparr>"

definition memory :: workload_arg where
  "memory = \<lparr>waName = ''mib'', waMin = 1, waMax = 256, waDefault = 64, waUnit = ''MiB''\<rparr>"

definition io :: workload_arg where
  "io = \<lparr>waName = ''mib'', waMin = 1, waMax = 64, waDefault = 8, waUnit = ''MiB''\<rparr>"

definition children :: workload_arg where
  "children =
     \<lparr>waName = ''children'', waMin = 1, waMax = 4, waDefault = 2, waUnit = ''processes''\<rparr>"

definition num_or_default :: "int option \<Rightarrow> workload_arg \<Rightarrow> int" where
  "num_or_default v spec = (case v of None \<Rightarrow> waDefault spec | Some n \<Rightarrow> n)"

definition WORKLOAD_PROFILES :: "workload_profile list" where
  "WORKLOAD_PROFILES =
     [\<lparr>wpId = ''caps_cpu_burn'',
       wpObserves = [''cpuUserMs'', ''cpuSystemMs'', ''cpuPercent'', ''elapsedMs''],
       wpArgs = [duration 10]\<rparr>,
      \<lparr>wpId = ''caps_memory_burn'',
       wpObserves = [''rssBytes'', ''virtualMemoryBytes'', ''minorFaults''],
       wpArgs = [duration 10, memory]\<rparr>,
      \<lparr>wpId = ''caps_io_burn'',
       wpObserves = [''readBytes'', ''writeBytes'', ''rcharBytes'', ''wcharBytes''],
       wpArgs = [duration 10, io]\<rparr>,
      \<lparr>wpId = ''caps_mixed_burn'',
       wpObserves = [''cpuPercent'', ''rssBytes'', ''readBytes'', ''writeBytes''],
       wpArgs = [duration 10, memory, io]\<rparr>,
      \<lparr>wpId = ''caps_fork_tree'',
       wpObserves = [''forkActivity'', ''processGroupId'', ''elapsedMs''],
       wpArgs = [duration 8, children]\<rparr>]"

definition buildArgv :: "workload_profile \<Rightarrow> int option list \<Rightarrow> string list" where
  "buildArgv p v =
     map (\<lambda>i. int_text (num_or_default (if i < length v then v ! i else None) (wpArgs p ! i)))
       [0..<length (wpArgs p)]"

definition getWorkloadProfile :: "string \<Rightarrow> workload_profile option" where
  "getWorkloadProfile command = map_of (rev (map (\<lambda>p. (wpId p, p)) WORKLOAD_PROFILES)) command"

definition isWorkloadId :: "string \<Rightarrow> bool" where
  "isWorkloadId command \<longleftrightarrow> getWorkloadProfile command \<noteq> None"

definition workloadIds :: "string list" where
  "workloadIds = map wpId WORKLOAD_PROFILES"

section \<open>Probing a binary\<close>

definition workloadExecutablePath :: "path \<Rightarrow> string \<Rightarrow> path" where
  "workloadExecutablePath repoRoot wid =
     resolve (resolve (resolve repoRoot ''build'') ''workloads'') wid"

datatype workload_refusal = Workload_missing | Workload_not_regular | Workload_stat_failed errno

text \<open>\<open>statSync\<close> follows links, so it is \<open>lstat\<close> of the real path.\<close>

definition stat_following :: "fs \<Rightarrow> path \<Rightarrow> errno + file_info" where
  "stat_following f p = (case fsRealpath f p of Inl e \<Rightarrow> Inl e | Inr q \<Rightarrow> fsLstat f q)"

text \<open>The reason, or nothing when the binary is available.\<close>

definition probeWorkload :: "fs \<Rightarrow> path \<Rightarrow> string \<Rightarrow> workload_refusal option" where
  "probeWorkload f repoRoot wid =
     (let p = workloadExecutablePath repoRoot wid in
      if \<not> fsExecutable f p then Some Workload_missing
      else
        (case stat_following f p of
           Inl e \<Rightarrow> Some (Workload_stat_failed e)
         | Inr info \<Rightarrow> if fiKind info \<noteq> Regular_file then Some Workload_not_regular else None))"

section \<open>Strict request validation\<close>

datatype workload_error =
    Not_a_workload string
  | Too_many_workload_arguments string nat nat
  | Not_a_plain_integer string string
  | Out_of_safe_range string
  | Out_of_bounds string int

text \<open>\<open>/^-?\d{1,9}$/\<close> and \<open>Number.parseInt(raw, 10)\<close>\<close>

definition INTEGER :: "string \<Rightarrow> bool" where
  "INTEGER raw \<longleftrightarrow> plain_digits 9 (if prefix ''-'' raw then tl raw else raw)"

definition parse_int :: "string \<Rightarrow> int" where
  "parse_int raw = (if prefix ''-'' raw then - int (decimal_value (tl raw)) else int (decimal_value raw))"

definition parseOne :: "string \<Rightarrow> workload_arg \<Rightarrow> workload_error + int" where
  "parseOne raw spec =
     (if \<not> INTEGER raw then Inl (Not_a_plain_integer (waName spec) raw)
      else
        (let value = parse_int raw in
         if \<bar>value\<bar> > 2 ^ 53 - 1 then Inl (Out_of_safe_range (waName spec))
         else if value < waMin spec \<or> value > waMax spec then Inl (Out_of_bounds (waName spec) value)
         else Inr value))"

fun parse_values :: "string list \<Rightarrow> workload_arg list \<Rightarrow> workload_error + int option list" where
  "parse_values [] specs = Inr (map (\<lambda>_. None) specs)"
| "parse_values (raw # raws) [] = Inr []"
| "parse_values (raw # raws) (spec # specs) =
     (case parseOne raw spec of
        Inl e \<Rightarrow> Inl e
      | Inr n \<Rightarrow>
          (case parse_values raws specs of Inl e \<Rightarrow> Inl e | Inr vs \<Rightarrow> Inr (Some n # vs)))"

record validated_workload =
  vwProfile :: workload_profile
  vwValues :: "int option list"
  vwArgv :: "string list"

definition validateWorkloadArgv ::
    "string \<Rightarrow> string list \<Rightarrow> workload_error + validated_workload" where
  "validateWorkloadArgv command args =
     (case getWorkloadProfile command of
        None \<Rightarrow> Inl (Not_a_workload command)
      | Some profile \<Rightarrow>
          if length args > length (wpArgs profile)
          then Inl (Too_many_workload_arguments command (length (wpArgs profile)) (length args))
          else
            (case parse_values args (wpArgs profile) of
               Inl e \<Rightarrow> Inl e
             | Inr values \<Rightarrow>
                 Inr \<lparr>vwProfile = profile, vwValues = values, vwArgv = buildArgv profile values\<rparr>))"

definition materializeWorkloadArgv :: "string \<Rightarrow> string list \<Rightarrow> workload_error + string list" where
  "materializeWorkloadArgv command args =
     (case validateWorkloadArgv command args of Inl e \<Rightarrow> Inl e | Inr w \<Rightarrow> Inr (vwArgv w))"

section \<open>Lemmas\<close>

definition in_bounds :: "workload_arg \<Rightarrow> int \<Rightarrow> bool" where
  "in_bounds spec n \<longleftrightarrow> waMin spec \<le> n \<and> n \<le> waMax spec"

lemma isWorkloadId_iff: "isWorkloadId w \<longleftrightarrow> w \<in> set workloadIds"
  by (auto simp: isWorkloadId_def getWorkloadProfile_def workloadIds_def WORKLOAD_PROFILES_def)

lemma profile_args:
  assumes "getWorkloadProfile c = Some p" and "spec \<in> set (wpArgs p)"
  shows "in_bounds spec (waDefault spec) \<and> 1 \<le> waMin spec \<and> waMax spec < 10 ^ 9"
proof -
  have "p \<in> set WORKLOAD_PROFILES"
    using assms(1) by (auto simp: getWorkloadProfile_def dest!: map_of_SomeD)
  with assms(2) show ?thesis
    by (auto simp: WORKLOAD_PROFILES_def in_bounds_def duration_def memory_def io_def children_def)
qed

lemma parseOne_Inr:
  "parseOne raw spec = Inr n \<longleftrightarrow> INTEGER raw \<and> n = parse_int raw \<and> in_bounds spec n \<and> \<bar>n\<bar> \<le> 2 ^ 53 - 1"
  by (auto simp: parseOne_def in_bounds_def Let_def)

lemma int_text_parse:
  assumes "0 \<le> n" "n < 10 ^ 9"
  shows "INTEGER (int_text n) \<and> parse_int (int_text n) = n"
proof -
  have "nat n < 10 ^ 9" using assms by (simp add: nat_less_iff)
  then have plain: "plain_digits 9 (nat_text (nat n))"
    by (rule nat_text_plain) simp
  moreover have "\<not> is_digit (CHR ''-'')"
    by (simp add: is_digit_def)
  ultimately have "\<not> prefix ''-'' (nat_text (nat n))"
    by (auto simp: plain_digits_def prefix_def)
  with plain assms(1) show ?thesis
    by (simp add: INTEGER_def parse_int_def int_text_def)
qed

lemma parse_values_Inr:
  assumes "parse_values raws specs = Inr vs" and "length raws \<le> length specs"
  shows "length vs = length specs \<and>
    (\<forall>i < length specs. if i < length raws then parseOne (raws ! i) (specs ! i) = Inr (the (vs ! i)) \<and> vs ! i \<noteq> None
       else vs ! i = None)"
  using assms
proof (induction raws specs arbitrary: vs rule: parse_values.induct)
  case (3 raw raws spec specs)
  then obtain n vs' where n: "parseOne raw spec = Inr n" and vs': "parse_values raws specs = Inr vs'"
      and vs: "vs = Some n # vs'"
    by (auto split: sum.splits)
  from 3(1) [OF n vs'] 3(3) n vs show ?case
    by (simp add: All_less_Suc2)
qed auto

lemma parse_values_printed:
  assumes "\<forall>i < length specs. in_bounds (specs ! i) (ns ! i) \<and> 0 \<le> ns ! i \<and> ns ! i < 10 ^ 9"
    and "length ns = length specs"
  shows "parse_values (map int_text ns) specs = Inr (map Some ns)"
  using assms
proof (induction ns specs rule: list_induct2')
  case (4 n ns spec specs)
  then have "in_bounds spec n \<and> 0 \<le> n \<and> n < 10 ^ 9" by (auto dest: spec [of _ 0])
  moreover from this have "parseOne (int_text n) spec = Inr n"
    using int_text_parse [of n] by (simp add: parseOne_Inr)
  moreover have "parse_values (map int_text ns) specs = Inr (map Some ns)"
    using 4 by (simp add: All_less_Suc2)
  ultimately show ?case by simp
qed auto

section \<open>Properties\<close>

text \<open>A validated workload runs with a complete argv of canonical decimals inside the documented
  bounds: one word per declared argument, each the printed form of a number between its minimum
  and maximum, which is the number the user wrote where the user wrote one and the default
  elsewhere.\<close>
theorem workload_argv_bounded:
  assumes "validateWorkloadArgv command args = Inr w"
  shows "\<exists>ns. vwArgv w = map int_text ns \<and> length ns = length (wpArgs (vwProfile w)) \<and>
    length args \<le> length ns \<and>
    (\<forall>i < length ns. in_bounds (wpArgs (vwProfile w) ! i) (ns ! i) \<and>
       ns ! i = (if i < length args then parse_int (args ! i) else waDefault (wpArgs (vwProfile w) ! i)))"
proof -
  obtain p where p: "getWorkloadProfile command = Some p" and len: "length args \<le> length (wpArgs p)"
    and parsed: "parse_values args (wpArgs p) = Inr (vwValues w)"
    and w: "vwProfile w = p" "vwArgv w = buildArgv p (vwValues w)"
    using assms by (auto simp: validateWorkloadArgv_def split: option.splits sum.splits if_splits)
  define ns where
    "ns = map (\<lambda>i. num_or_default (vwValues w ! i) (wpArgs p ! i)) [0..<length (wpArgs p)]"
  note vs = parse_values_Inr [OF parsed len]
  have "in_bounds (wpArgs p ! i) (ns ! i) \<and>
      ns ! i = (if i < length args then parse_int (args ! i) else waDefault (wpArgs p ! i))"
    if "i < length ns" for i
    using that vs profile_args [OF p, of "wpArgs p ! i"]
    by (auto simp: ns_def num_or_default_def parseOne_Inr split: if_splits option.splits)
  moreover have "vwArgv w = map int_text ns" and "length ns = length (wpArgs p)"
    using vs w(2) by (simp_all add: buildArgv_def ns_def)
  ultimately show ?thesis
    using len unfolding w(1) by (intro exI [of _ ns] conjI allI impI) metis+
qed

theorem workload_argv_bounded_witness:
  "\<exists>w ns. validateWorkloadArgv ''caps_fork_tree'' [''007''] = Inr w \<and> vwArgv w = map int_text ns \<and>
     length ns = 2"
proof -
  have "\<exists>w. validateWorkloadArgv ''caps_fork_tree'' [''007''] = Inr w \<and> length (wpArgs (vwProfile w)) = 2"
    by (simp add: validateWorkloadArgv_def getWorkloadProfile_def WORKLOAD_PROFILES_def parseOne_def
        INTEGER_def plain_digits_def is_digit_def parse_int_def decimal_value_def digit_value_def
        duration_def children_def)
  then obtain w where "validateWorkloadArgv ''caps_fork_tree'' [''007''] = Inr w"
      "length (wpArgs (vwProfile w)) = 2" by blast
  with workload_argv_bounded [OF this(1)] show ?thesis by metis
qed

text \<open>Materialising is a normal form: the argv of an accepted request is itself accepted for the
  same workload and materialises to itself, so what the gateway records and what the binary
  parses are the same numbers.\<close>
theorem workload_argv_normal_form:
  assumes "materializeWorkloadArgv command args = Inr argv"
  shows "materializeWorkloadArgv command argv = Inr argv"
proof -
  obtain w where w: "validateWorkloadArgv command args = Inr w" and argv: "argv = vwArgv w"
    using assms by (auto simp: materializeWorkloadArgv_def split: sum.splits)
  then obtain p where p: "getWorkloadProfile command = Some p" and len: "length args \<le> length (wpArgs p)"
    and parsed: "parse_values args (wpArgs p) = Inr (vwValues w)"
    and build: "argv = buildArgv p (vwValues w)"
    by (auto simp: validateWorkloadArgv_def split: option.splits sum.splits if_splits)
  let ?ns = "map (\<lambda>i. num_or_default (vwValues w ! i) (wpArgs p ! i)) [0..<length (wpArgs p)]"
  note vs = parse_values_Inr [OF parsed len]
  have bounds: "in_bounds (wpArgs p ! i) (?ns ! i) \<and> 0 \<le> ?ns ! i \<and> ?ns ! i < 10 ^ 9"
    if "i < length (wpArgs p)" for i
  proof -
    have "in_bounds (wpArgs p ! i) (?ns ! i)"
      using that vs profile_args [OF p, of "wpArgs p ! i"]
      by (auto simp: num_or_default_def parseOne_Inr split: if_splits option.splits)
    then show ?thesis
      using that profile_args [OF p, of "wpArgs p ! i"] by (auto simp: in_bounds_def)
  qed
  have printed: "argv = map int_text ?ns"
    using vs build by (simp add: buildArgv_def)
  moreover have "parse_values (map int_text ?ns) (wpArgs p) = Inr (map Some ?ns)"
    using bounds by (intro parse_values_printed) auto
  moreover have "buildArgv p (map Some ?ns) = map int_text ?ns"
    by (simp add: buildArgv_def num_or_default_def)
  ultimately show ?thesis
    using p by (simp add: materializeWorkloadArgv_def validateWorkloadArgv_def)
qed

theorem workload_argv_normal_form_witness:
  "materializeWorkloadArgv ''caps_cpu_burn'' [''7''] = Inr [''7'']"
proof (rule workload_argv_normal_form)
  show "materializeWorkloadArgv ''caps_cpu_burn'' [''007''] = Inr [''7'']"
    by (simp add: materializeWorkloadArgv_def validateWorkloadArgv_def getWorkloadProfile_def
        WORKLOAD_PROFILES_def parseOne_def INTEGER_def plain_digits_def is_digit_def parse_int_def
        decimal_value_def digit_value_def duration_def buildArgv_def num_or_default_def int_text_def
        nat_text.simps digit_char_def)
qed

end
