(* ===== verification/Command_Catalog.thy ===== *)
theory Command_Catalog
  imports Workload_Catalog
begin

text \<open>
  \<^verbatim>\<open>web/backend/src/catalog/commands.ts\<close>: the argument schemas, the command definitions, the
  registry itself (every entry, without its prose), the verification of a candidate executable,
  the memoised probe of the trusted directories and the availability of a command.  The file
  system is \<open>fs\<close>, the memo is passed as state, the repository's root is the argument \<open>repoRoot\<close>.
  The workload identifiers come from \<^verbatim>\<open>execution/workloadCatalog.ts\<close>.
\<close>

unbundle bit_operations_syntax

section \<open>Schemas and definitions\<close>

datatype availability = AVAILABLE | UNAVAILABLE | BLOCKED

datatype command_category =
    Cat_shell_basic | Cat_file | Cat_text | Cat_system | Cat_process | Cat_network
  | Cat_demonstration | Cat_workload

datatype workspace_policy = Confined_files | No_paths | Self_managed

datatype program_language = Awk | Sed

record argument_schema =
  asFlags :: "string list"
  asValueFlags :: "string list option"
  asMaxPositional :: nat
  asMaxArgumentBytes :: nat
  asPositionalIntegers :: "(nat \<times> nat) option"
  asPositionalArePaths :: bool
  asLeadingPatterns :: "nat option"
  asProgramOperand :: "program_language option"
  asNumericCount :: "(string \<times> nat \<times> nat) option"
  asLeadingChoices :: "string list option"
  asChoiceIntegers :: "(string list \<times> nat \<times> nat) option"

record command_definition =
  cdName :: string
  cdCategory :: command_category
  cdExecutable :: string
  cdReadOnly :: bool
  cdWorkspacePolicy :: workspace_policy
  cdSchema :: argument_schema
  cdTimeoutMs :: nat
  cdMaxOutputBytes :: nat

text \<open>A schema with its mandatory fields, and an entry with its eight.\<close>

definition schema :: "string list \<Rightarrow> nat \<Rightarrow> nat \<Rightarrow> bool \<Rightarrow> argument_schema" where
  "schema flags maxPositional maxBytes paths =
     \<lparr>asFlags = flags, asValueFlags = None, asMaxPositional = maxPositional,
      asMaxArgumentBytes = maxBytes, asPositionalIntegers = None, asPositionalArePaths = paths,
      asLeadingPatterns = None, asProgramOperand = None, asNumericCount = None,
      asLeadingChoices = None, asChoiceIntegers = None\<rparr>"

definition entry ::
    "string \<Rightarrow> command_category \<Rightarrow> string \<Rightarrow> bool \<Rightarrow> workspace_policy \<Rightarrow> argument_schema \<Rightarrow> nat \<Rightarrow> nat
      \<Rightarrow> command_definition" where
  "entry name cat exe ro wp sch timeout out =
     \<lparr>cdName = name, cdCategory = cat, cdExecutable = exe, cdReadOnly = ro,
      cdWorkspacePolicy = wp, cdSchema = sch, cdTimeoutMs = timeout, cdMaxOutputBytes = out\<rparr>"

definition TRUSTED_DIRECTORIES :: "string list" where
  "TRUSTED_DIRECTORIES = [''/usr/bin'', ''/bin'', ''/usr/local/bin'', ''/sbin'', ''/usr/sbin'']"

definition REPOSITORY_HELPERS :: "path \<Rightarrow> string \<Rightarrow> path option" where
  "REPOSITORY_HELPERS repoRoot name =
     (if name = ''status_probe'' then Some (resolve (resolve repoRoot ''build'') ''status_probe'')
      else None)"

definition NO_ARGS :: argument_schema where
  "NO_ARGS = schema [] 0 64 False"

section \<open>The registry\<close>

definition CATALOG_BASIC :: "command_definition list" where
  "CATALOG_BASIC =
     [
      entry ''echo'' Cat_shell_basic ''echo'' True No_paths
        ((schema [''-n'', ''-e'', ''-E''] 32 4096 False)
          \<lparr>asValueFlags := Some [''-e'', ''-E'']\<rparr>)
        10000 (64 * 1024),
      entry ''printf'' Cat_shell_basic ''printf'' True No_paths
        (schema [''-v''] 32 4096 False)
        10000 (64 * 1024),
      entry ''pwd'' Cat_shell_basic ''pwd'' True No_paths
        NO_ARGS
        10000 4096,
      entry ''true'' Cat_demonstration ''true'' True No_paths
        NO_ARGS
        10000 1024,
      entry ''false'' Cat_demonstration ''false'' True No_paths
        NO_ARGS
        10000 1024,
      entry ''sleep'' Cat_demonstration ''sleep'' True No_paths
        ((schema [] 1 16 False)
          \<lparr>asPositionalIntegers := Some (0, 120)\<rparr>)
        130000 1024,
      entry ''status_probe'' Cat_demonstration ''status_probe'' True No_paths
        ((schema [] 16 64 False)
          \<lparr>asLeadingChoices := Some [''exit'', ''signal'', ''print''],
           asChoiceIntegers := Some ([''exit'', ''signal''], 0, 255)\<rparr>)
        10000 1024]"

definition CATALOG_FILES :: "command_definition list" where
  "CATALOG_FILES =
     [
      entry ''cat'' Cat_file ''cat'' True Confined_files
        (schema [''-n'', ''-b'', ''-A'', ''-E'', ''-T'', ''-s''] 16 255 True)
        15000 (256 * 1024),
      entry ''head'' Cat_file ''head'' True Confined_files
        ((schema [''-n'', ''-c'', ''-q'', ''-v''] 16 255 True)
          \<lparr>asValueFlags := Some [''-n'', ''-c''],
           asLeadingPatterns := Some 1,
           asNumericCount := Some (''-n'', 1, 100000)\<rparr>)
        15000 (256 * 1024),
      entry ''tail'' Cat_file ''tail'' True Confined_files
        ((schema [''-n'', ''-c'', ''-q'', ''-v''] 16 255 True)
          \<lparr>asValueFlags := Some [''-n'', ''-c''],
           asLeadingPatterns := Some 1,
           asNumericCount := Some (''-n'', 1, 100000)\<rparr>)
        15000 (256 * 1024),
      entry ''wc'' Cat_text ''wc'' True Confined_files
        (schema [''-l'', ''-w'', ''-c'', ''-m''] 16 255 True)
        15000 (32 * 1024),
      entry ''stat'' Cat_file ''stat'' True Confined_files
        ((schema [''-c'', ''-f'', ''-L''] 16 255 True)
          \<lparr>asValueFlags := Some [''-c'', ''-f'']\<rparr>)
        15000 (32 * 1024),
      entry ''file'' Cat_file ''file'' True Confined_files
        (schema [''-b'', ''-i'', ''-L''] 16 255 True)
        15000 (32 * 1024),
      entry ''ls'' Cat_file ''ls'' True Confined_files
        (schema [''-l'', ''-a'', ''-h'', ''-1'', ''-t'', ''-S'', ''-r''] 16 255 True)
        15000 (128 * 1024)]"

definition CATALOG_TEXT :: "command_definition list" where
  "CATALOG_TEXT =
     [
      entry ''grep'' Cat_text ''grep'' True Confined_files
        ((schema [''-c'', ''-i'', ''-v'', ''-n'', ''-q'', ''-E'', ''-F'', ''-l'', ''-h'', ''-o'', ''-w'', ''-x''] 16 512 True)
          \<lparr>asLeadingPatterns := Some 1\<rparr>)
        15000 (256 * 1024),
      entry ''sort'' Cat_text ''sort'' True Confined_files
        ((schema [''-n'', ''-r'', ''-u'', ''-h'', ''-k'', ''-t''] 16 255 True)
          \<lparr>asValueFlags := Some [''-k'', ''-t'']\<rparr>)
        15000 (256 * 1024),
      entry ''uniq'' Cat_text ''uniq'' True Confined_files
        (schema [''-c'', ''-d'', ''-u'', ''-i''] 16 255 True)
        15000 (128 * 1024),
      entry ''cut'' Cat_text ''cut'' True Confined_files
        ((schema [''-d'', ''-f'', ''-c'', ''-s''] 16 255 True)
          \<lparr>asValueFlags := Some [''-d'', ''-f'', ''-c'']\<rparr>)
        15000 (128 * 1024),
      entry ''tr'' Cat_text ''tr'' True No_paths
        ((schema [''-d'', ''-s'', ''-c'', ''-C''] 2 256 False)
          \<lparr>asValueFlags := Some [''-d'', ''-s'', ''-c'', ''-C'']\<rparr>)
        15000 (128 * 1024),
      entry ''sed'' Cat_text ''sed'' True Confined_files
        ((schema [''-n'', ''-e'', ''-E'', ''-r'', ''-s''] 16 1024 True)
          \<lparr>asValueFlags := Some [''-e''],
           asLeadingPatterns := Some 1,
           asProgramOperand := Some Sed\<rparr>)
        15000 (256 * 1024),
      entry ''awk'' Cat_text ''awk'' True Confined_files
        ((schema [''-F'', ''-v''] 16 2048 True)
          \<lparr>asValueFlags := Some [''-F'', ''-v''],
           asLeadingPatterns := Some 1,
           asProgramOperand := Some Awk\<rparr>)
        15000 (256 * 1024)]"

definition CATALOG_SYSTEM :: "command_definition list" where
  "CATALOG_SYSTEM =
     [
      entry ''uname'' Cat_system ''uname'' True No_paths
        (schema [''-a'', ''-s'', ''-n'', ''-r'', ''-v'', ''-m'', ''-p'', ''-i'', ''-o''] 0 16 False)
        10000 4096,
      entry ''hostname'' Cat_system ''hostname'' True No_paths
        NO_ARGS
        10000 1024,
      entry ''date'' Cat_system ''date'' True No_paths
        ((schema [''-u'', ''-R'', ''-I'', ''-r''] 0 16 False)
          \<lparr>asValueFlags := Some [''-r'']\<rparr>)
        10000 4096,
      entry ''uptime'' Cat_system ''uptime'' True No_paths
        (schema [''-p'', ''-s''] 0 16 False)
        10000 4096,
      entry ''whoami'' Cat_system ''whoami'' True No_paths
        NO_ARGS
        10000 1024,
      entry ''id'' Cat_system ''id'' True No_paths
        NO_ARGS
        10000 2048,
      entry ''free'' Cat_system ''free'' True No_paths
        (schema [''-b'', ''-k'', ''-m'', ''-g'', ''-h'', ''-s'', ''-t'', ''-c''] 0 16 False)
        10000 8192,
      entry ''df'' Cat_system ''df'' True No_paths
        (schema [''-h'', ''-H'', ''-T'', ''-i'', ''-t'', ''-x'', ''-a'', ''-P''] 8 255 False)
        15000 (32 * 1024)]"

definition CATALOG_STORAGE :: "command_definition list" where
  "CATALOG_STORAGE =
     [
      entry ''du'' Cat_system ''du'' True Confined_files
        ((schema [''-s'', ''-h'', ''-b'', ''-k'', ''-m'', ''-d''] 8 255 True)
          \<lparr>asValueFlags := Some [''-d'']\<rparr>)
        20000 (64 * 1024),
      entry ''lscpu'' Cat_system ''lscpu'' True No_paths
        (schema [''-e'', ''-j'', ''-p'', ''-J'', ''-x'', ''-a'', ''-s'', ''-r'', ''-t'', ''-c''] 0 16 False)
        15000 (64 * 1024),
      entry ''lsblk'' Cat_system ''lsblk'' True No_paths
        ((schema [''-a'', ''-b'', ''-d'', ''-f'', ''-l'', ''-n'', ''-p'', ''-s'', ''-S'', ''-t'', ''-J'', ''-o''] 0 128 False)
          \<lparr>asValueFlags := Some [''-o'']\<rparr>)
        15000 (64 * 1024),
      entry ''nproc'' Cat_system ''nproc'' True No_paths
        NO_ARGS
        10000 1024]"

definition CATALOG_PROCESS :: "command_definition list" where
  "CATALOG_PROCESS =
     [
      entry ''ps'' Cat_process ''ps'' True No_paths
        ((schema [''-a'', ''-A'', ''-e'', ''-u'', ''-o'', ''-p'', ''-n'', ''-L'', ''-x'', ''-w'', ''-h'', ''-s'', ''--no-headers''] 4 512 False)
          \<lparr>asValueFlags := Some [''-o'', ''-p'', ''-u''],
           asLeadingPatterns := Some 1\<rparr>)
        15000 (512 * 1024),
      entry ''pgrep'' Cat_process ''pgrep'' True No_paths
        ((schema [''-a'', ''-f'', ''-l'', ''-n'', ''-o'', ''-c'', ''-u'', ''-x''] 1 128 False)
          \<lparr>asValueFlags := Some [''-f'', ''-u'']\<rparr>)
        15000 (32 * 1024),
      entry ''seq'' Cat_text ''seq'' True No_paths
        ((schema [''-s'', ''-f'', ''-w''] 3 16 False)
          \<lparr>asValueFlags := Some [''-s'', ''-f''],
           asPositionalIntegers := Some (0, 10000000)\<rparr>)
        20000 (256 * 1024),
      entry ''ip'' Cat_network ''ip'' True No_paths
        (schema [''-4'', ''-6'', ''-br'', ''-c'', ''-s'', ''-o'', ''-j'', ''-t'', ''-d''] 2 32 False)
        15000 (128 * 1024),
      entry ''ss'' Cat_network ''ss'' True No_paths
        (schema [''-a'', ''-l'', ''-n'', ''-p'', ''-t'', ''-u'', ''-x'', ''-w'', ''-s'', ''-e'', ''-m''] 2 32 False)
        15000 (128 * 1024)]"

definition DEFINITIONS :: "command_definition list" where
  "DEFINITIONS =
     CATALOG_BASIC @ CATALOG_FILES @ CATALOG_TEXT @ CATALOG_SYSTEM @ CATALOG_STORAGE @
     CATALOG_PROCESS"

text \<open>A JavaScript \<open>Map\<close> built from pairs keeps the last value of a key.\<close>

definition commandDefinition :: "string \<Rightarrow> command_definition option" where
  "commandDefinition name = map_of (rev (map (\<lambda>d. (cdName d, d)) DEFINITIONS)) name"

section \<open>Verifying an executable\<close>

datatype probe_reason =
    Not_found_here | Present_not_readable | Cannot_resolve errno | Cannot_stat errno
  | Link_loop | Not_regular path | Not_executable
  | Not_root_owned path path int | Group_or_other_writable path path int
  | At_candidate path probe_reason
  | Resolved_from path | Resolved_through path nat path
  | Not_in_trusted_directories
  | Helper_verified path | Helper_unusable path probe_reason
  | Workload_verified path | Workload_refused workload_refusal
  | Not_on_allowlist

definition verifyExecutableFile :: "fs \<Rightarrow> path \<Rightarrow> probe_reason + path \<times> nat" where
  "verifyExecutableFile f candidate =
     (case fsRealpath f candidate of
        Inl e \<Rightarrow>
          Inl (if e = ENOENT then Not_found_here
               else if e = EACCES then Present_not_readable
               else Cannot_resolve e)
      | Inr target \<Rightarrow>
          (let linksTraversed = (if target = candidate then 0 else 1) in
           case fsLstat f target of
             Inl e \<Rightarrow> Inl (Cannot_stat e)
           | Inr info \<Rightarrow>
               if fiKind info = Symbolic_link then Inl Link_loop
               else if fiKind info \<noteq> Regular_file then Inl (Not_regular target)
               else if \<not> fsExecutable f target then Inl Not_executable
               else Inr (target, linksTraversed)))"

definition normalisedRoot :: "string \<Rightarrow> string" where
  "normalisedRoot r = (if r \<noteq> [] \<and> last r = slash then butlast r else r)"

definition insideTrustedRoot :: "string list \<Rightarrow> path \<Rightarrow> bool" where
  "insideTrustedRoot trustedRoots p \<longleftrightarrow>
     (\<exists>r \<in> set trustedRoots. path_text p = normalisedRoot r \<or>
        prefix (normalisedRoot r @ [slash]) (path_text p))"

definition GROUP_OTHER_WRITE :: int where
  "GROUP_OTHER_WRITE = 2 * 8 + 2"

definition verifyExecutablePath :: "fs \<Rightarrow> path \<Rightarrow> string list \<Rightarrow> probe_reason + path \<times> nat" where
  "verifyExecutablePath f candidate trustedRoots =
     (case verifyExecutableFile f candidate of
        Inl r \<Rightarrow> Inl r
      | Inr (p, links) \<Rightarrow>
          if insideTrustedRoot trustedRoots p then Inr (p, links)
          else
            (case fsLstat f p of
               Inl e \<Rightarrow> Inl (Cannot_stat e)
             | Inr info \<Rightarrow>
                 if fiUid info \<noteq> 0 then Inl (Not_root_owned candidate p (fiUid info))
                 else if (fiMode info AND GROUP_OTHER_WRITE) \<noteq> 0
                 then Inl (Group_or_other_writable candidate p (fiMode info))
                 else Inr (p, links)))"

section \<open>The memoised probe\<close>

record probe_result =
  prAvailable :: bool
  prPath :: "path option"
  prReason :: probe_reason

type_synonym probe_cache = "string \<rightharpoonup> probe_result"

fun probe_directories ::
    "fs \<Rightarrow> string \<Rightarrow> string list \<Rightarrow> probe_result option \<Rightarrow> probe_result" where
  "probe_directories f name [] bestRejection =
     (case bestRejection of
        Some r \<Rightarrow> r
      | None \<Rightarrow> \<lparr>prAvailable = False, prPath = None, prReason = Not_in_trusted_directories\<rparr>)"
| "probe_directories f name (dir # dirs) bestRejection =
     (let candidate = resolve (resolve [] dir) name in
      if \<not> fsExists f candidate then probe_directories f name dirs bestRejection
      else
        (case verifyExecutablePath f candidate TRUSTED_DIRECTORIES of
           Inr (p, links) \<Rightarrow>
             \<lparr>prAvailable = True, prPath = Some p,
              prReason = (if links = 0 then Resolved_from candidate
                          else Resolved_through candidate links p)\<rparr>
         | Inl r \<Rightarrow>
             probe_directories f name dirs
               (Some \<lparr>prAvailable = False, prPath = None, prReason = At_candidate candidate r\<rparr>)))"

definition probeSystemCommand :: "fs \<Rightarrow> string \<Rightarrow> probe_cache \<Rightarrow> probe_result \<times> probe_cache" where
  "probeSystemCommand f name probeCache =
     (case probeCache name of
        Some cached \<Rightarrow> (cached, probeCache)
      | None \<Rightarrow>
          let found = probe_directories f name TRUSTED_DIRECTORIES None
          in (found, probeCache(name \<mapsto> found)))"

definition resetCatalogProbes :: "probe_cache \<Rightarrow> probe_cache" where
  "resetCatalogProbes probeCache = Map.empty"

section \<open>Availability of a command\<close>

record probed_command =
  pcName :: string
  pcCategory :: command_category
  pcAvailability :: availability
  pcReason :: probe_reason
  pcResolvedPath :: "path option"
  pcReadOnly :: bool
  pcWorkspacePolicy :: workspace_policy
  pcTimeoutMs :: nat
  pcMaxOutputBytes :: nat
  pcSchema :: argument_schema

definition WORKLOAD_SCHEMA :: argument_schema where
  "WORKLOAD_SCHEMA = (schema [] 3 16 False) \<lparr>asPositionalIntegers := Some (0, 1000000)\<rparr>"

definition probed_from ::
    "command_definition \<Rightarrow> string \<Rightarrow> availability \<Rightarrow> probe_reason \<Rightarrow> path option \<Rightarrow> probed_command" where
  "probed_from d name av reason p =
     \<lparr>pcName = name, pcCategory = cdCategory d, pcAvailability = av, pcReason = reason,
      pcResolvedPath = p, pcReadOnly = cdReadOnly d, pcWorkspacePolicy = cdWorkspacePolicy d,
      pcTimeoutMs = cdTimeoutMs d, pcMaxOutputBytes = cdMaxOutputBytes d, pcSchema = cdSchema d\<rparr>"

definition probeCommand ::
    "fs \<Rightarrow> path \<Rightarrow> string \<Rightarrow> probe_cache \<Rightarrow> probed_command \<times> probe_cache" where
  "probeCommand f repoRoot name probeCache =
     (case commandDefinition name of
        None \<Rightarrow>
          if isWorkloadId name
          then
            (let refusal = probeWorkload f repoRoot name in
             (\<lparr>pcName = name, pcCategory = Cat_workload,
               pcAvailability = (if refusal = None then AVAILABLE else UNAVAILABLE),
               pcReason = (case refusal of
                             Some r \<Rightarrow> Workload_refused r
                           | None \<Rightarrow> Workload_verified (workloadExecutablePath repoRoot name)),
               pcResolvedPath = (if refusal = None then Some (workloadExecutablePath repoRoot name)
                                 else None),
               pcReadOnly = False, pcWorkspacePolicy = Self_managed,
               pcTimeoutMs = 35000, pcMaxOutputBytes = 64 * 1024, pcSchema = WORKLOAD_SCHEMA\<rparr>,
              probeCache))
          else
            (\<lparr>pcName = name, pcCategory = Cat_system, pcAvailability = BLOCKED,
              pcReason = Not_on_allowlist, pcResolvedPath = None, pcReadOnly = False,
              pcWorkspacePolicy = No_paths, pcTimeoutMs = 0, pcMaxOutputBytes = 0,
              pcSchema = NO_ARGS\<rparr>,
             probeCache)
      | Some d \<Rightarrow>
          (case REPOSITORY_HELPERS repoRoot name of
             Some helperPath \<Rightarrow>
               (case verifyExecutableFile f helperPath of
                  Inr (p, _) \<Rightarrow>
                    (probed_from d name AVAILABLE (Helper_verified p) (Some p), probeCache)
                | Inl r \<Rightarrow>
                    (probed_from d name UNAVAILABLE (Helper_unusable helperPath r) None, probeCache))
           | None \<Rightarrow>
               (let (probe, probeCache') = probeSystemCommand f name probeCache in
                (probed_from d name (if prAvailable probe then AVAILABLE else UNAVAILABLE)
                   (prReason probe) (prPath probe), probeCache'))))"

section \<open>The security policy's view\<close>

text \<open>\<open>resolveAllowedExecutable\<close> of \<^verbatim>\<open>security/policy.ts\<close>: the only way to an executable path.\<close>

definition resolveAllowedExecutable ::
    "fs \<Rightarrow> path \<Rightarrow> string \<Rightarrow> probe_cache \<Rightarrow> (probe_reason + path) \<times> probe_cache" where
  "resolveAllowedExecutable f repoRoot command probeCache =
     (let (probed, probeCache') = probeCommand f repoRoot command probeCache in
      case (pcAvailability probed, pcResolvedPath probed) of
        (AVAILABLE, Some p) \<Rightarrow> (Inr p, probeCache')
      | _ \<Rightarrow> (Inl (pcReason probed), probeCache'))"


section \<open>Lemmas\<close>

definition regular_executable :: "fs \<Rightarrow> path \<Rightarrow> bool" where
  "regular_executable f p \<longleftrightarrow>
     (\<exists>i. fsLstat f p = Inr i \<and> fiKind i = Regular_file) \<and> fsExecutable f p"

text \<open>Nobody but root can replace what a pinned path names.\<close>

definition pinned_file :: "fs \<Rightarrow> path \<Rightarrow> bool" where
  "pinned_file f p \<longleftrightarrow> regular_executable f p \<and>
     (insideTrustedRoot TRUSTED_DIRECTORIES p \<or>
      (\<exists>i. fsLstat f p = Inr i \<and> fiUid i = 0 \<and> (fiMode i AND GROUP_OTHER_WRITE) = 0))"

definition probe_sound :: "fs \<Rightarrow> probe_result \<Rightarrow> bool" where
  "probe_sound f r \<longleftrightarrow>
     (if prAvailable r then \<exists>p. prPath r = Some p \<and> pinned_file f p else prPath r = None)"

definition cache_sound :: "fs \<Rightarrow> probe_cache \<Rightarrow> bool" where
  "cache_sound f c \<longleftrightarrow> (\<forall>name r. c name = Some r \<longrightarrow> probe_sound f r)"

lemma cache_sound_empty [simp]: "cache_sound f Map.empty"
  by (simp add: cache_sound_def)

lemma verifyExecutableFile_ok:
  "verifyExecutableFile f cand = Inr (p, n) \<Longrightarrow> fsRealpath f cand = Inr p \<and> regular_executable f p"
  by (auto simp: verifyExecutableFile_def regular_executable_def Let_def
      split: sum.splits if_splits)

lemma verifyExecutablePath_ok:
  "verifyExecutablePath f cand TRUSTED_DIRECTORIES = Inr (p, n) \<Longrightarrow> pinned_file f p"
  by (auto simp: verifyExecutablePath_def pinned_file_def dest: verifyExecutableFile_ok
      split: sum.splits if_splits)

lemma probe_directories_sound:
  "\<forall>r. best = Some r \<longrightarrow> \<not> prAvailable r \<and> prPath r = None \<Longrightarrow>
     probe_sound f (probe_directories f name dirs best)"
proof (induction f name dirs best rule: probe_directories.induct)
  case (1 f name best)
  then show ?case by (cases best) (auto simp: probe_sound_def)
next
  case (2 f name dir dirs best)
  then show ?case
    by (auto simp: Let_def probe_sound_def dest: verifyExecutablePath_ok split: sum.splits)
qed

lemma probeSystemCommand_sound:
  "cache_sound f c \<Longrightarrow> probeSystemCommand f name c = (r, c') \<Longrightarrow>
     probe_sound f r \<and> cache_sound f c' \<and> c' name = Some r"
  using probe_directories_sound [of None f name TRUSTED_DIRECTORIES]
  by (auto simp: probeSystemCommand_def cache_sound_def Let_def split: option.splits if_splits)

lemma probed_from_simps [simp]:
  "pcAvailability (probed_from d n av r p) = av" "pcResolvedPath (probed_from d n av r p) = p"
  "pcReason (probed_from d n av r p) = r" "pcSchema (probed_from d n av r p) = cdSchema d"
  by (simp_all add: probed_from_def)

lemma entry_sel [simp]:
  "cdName (entry n c x r w s t u) = n" "cdExecutable (entry n c x r w s t u) = x"
  "cdReadOnly (entry n c x r w s t u) = r" "cdWorkspacePolicy (entry n c x r w s t u) = w"
  "cdSchema (entry n c x r w s t u) = s" "cdTimeoutMs (entry n c x r w s t u) = t"
  "cdMaxOutputBytes (entry n c x r w s t u) = u" "cdCategory (entry n c x r w s t u) = c"
  by (simp_all add: entry_def)

lemma schema_sel [simp]:
  "asFlags (schema fl mp mb pp) = fl" "asValueFlags (schema fl mp mb pp) = None"
  "asMaxPositional (schema fl mp mb pp) = mp" "asMaxArgumentBytes (schema fl mp mb pp) = mb"
  "asPositionalIntegers (schema fl mp mb pp) = None" "asPositionalArePaths (schema fl mp mb pp) = pp"
  "asLeadingPatterns (schema fl mp mb pp) = None" "asProgramOperand (schema fl mp mb pp) = None"
  "asNumericCount (schema fl mp mb pp) = None" "asLeadingChoices (schema fl mp mb pp) = None"
  "asChoiceIntegers (schema fl mp mb pp) = None"
  by (simp_all add: schema_def)

lemmas catalog_defs = DEFINITIONS_def CATALOG_BASIC_def CATALOG_FILES_def CATALOG_TEXT_def
  CATALOG_SYSTEM_def CATALOG_STORAGE_def CATALOG_PROCESS_def NO_ARGS_def

lemmas catalog_eval = probeCommand_def commandDefinition_def catalog_defs isWorkloadId_def
  getWorkloadProfile_def WORKLOAD_PROFILES_def
  REPOSITORY_HELPERS_def probeSystemCommand_def TRUSTED_DIRECTORIES_def
  resolve_def normalise_step_def isAbsolute_def Let_def verifyExecutablePath_def
  verifyExecutableFile_def insideTrustedRoot_def normalisedRoot_def path_text_def

text \<open>Where the path of a command may come from.\<close>

definition verified_path :: "fs \<Rightarrow> path \<Rightarrow> string \<Rightarrow> path \<Rightarrow> bool" where
  "verified_path f repoRoot command p \<longleftrightarrow>
     ((\<exists>d. commandDefinition command = Some d) \<and> REPOSITORY_HELPERS repoRoot command = None \<and>
        pinned_file f p) \<or>
     (\<exists>h. REPOSITORY_HELPERS repoRoot command = Some h \<and> fsRealpath f h = Inr p \<and>
        regular_executable f p) \<or>
     (isWorkloadId command \<and> p = workloadExecutablePath repoRoot command \<and> fsExecutable f p \<and>
        (\<exists>i. stat_following f p = Inr i \<and> fiKind i = Regular_file))"

lemma probeCommand_sound:
  assumes "cache_sound f c" and "probeCommand f repoRoot command c = (probed, c')"
  shows "cache_sound f c' \<and>
    (\<forall>p. pcAvailability probed = AVAILABLE \<and> pcResolvedPath probed = Some p \<longrightarrow>
       verified_path f repoRoot command p)"
proof (cases "commandDefinition command")
  case None
  with assms show ?thesis
    by (auto simp: probeCommand_def probeWorkload_def verified_path_def Let_def
        split: if_splits sum.splits option.splits)
next
  case (Some d)
  note declared = this
  show ?thesis
  proof (cases "REPOSITORY_HELPERS repoRoot command")
    case None
    obtain r c2 where r: "probeSystemCommand f command c = (r, c2)"
      by (cases "probeSystemCommand f command c")
    with probeSystemCommand_sound [OF assms(1) r] assms(2) declared None show ?thesis
      by (auto simp: probeCommand_def verified_path_def probe_sound_def split: if_splits)
  next
    case (Some h)
    with declared assms show ?thesis
      by (auto simp: probeCommand_def verified_path_def dest: verifyExecutableFile_ok
          split: sum.splits)
  qed
qed

section \<open>Properties\<close>

text \<open>C14: Whatever path \<open>resolveAllowedExecutable\<close> hands out was declared and verified. A system
  command's path is a regular executable file inside a trusted directory, or owned by root and
  writable neither by group nor by other; a helper's path is the real path of the repository's
  own binary, a regular executable; a workload's is its fixed build path, an executable regular file:
  who owns these two and who may write them is not checked. The memo keeps holding verified answers
  only.\<close>
theorem resolved_executable_verified:
  assumes "cache_sound f c" and "resolveAllowedExecutable f repoRoot command c = (Inr p, c')"
  shows "cache_sound f c' \<and>
    ((\<exists>d. commandDefinition command = Some d \<and> REPOSITORY_HELPERS repoRoot command = None \<and>
        pinned_file f p) \<or>
     (\<exists>h. REPOSITORY_HELPERS repoRoot command = Some h \<and> fsRealpath f h = Inr p \<and>
        regular_executable f p) \<or>
     (isWorkloadId command \<and> p = workloadExecutablePath repoRoot command \<and> fsExecutable f p \<and>
        (\<exists>i. stat_following f p = Inr i \<and> fiKind i = Regular_file)))"
proof -
  obtain probed where probed: "probeCommand f repoRoot command c = (probed, c')"
      and "pcAvailability probed = AVAILABLE" and "pcResolvedPath probed = Some p"
    using assms(2)
    by (auto simp: resolveAllowedExecutable_def split: prod.splits availability.splits option.splits)
  with probeCommand_sound [OF assms(1) probed] show ?thesis
    by (auto simp: verified_path_def)
qed

definition sample_bin :: fs where
  "sample_bin =
     \<lparr>fsExists = (\<lambda>p. True), fsRealpath = Inr,
      fsLstat = (\<lambda>p. Inr \<lparr>fiKind = Regular_file, fiUid = 0, fiMode = 493\<rparr>),
      fsExecutable = (\<lambda>p. True)\<rparr>"

theorem resolved_executable_verified_witness:
  "pinned_file sample_bin [''usr'', ''bin'', ''echo''] \<or>
   REPOSITORY_HELPERS [] ''echo'' \<noteq> None \<or> isWorkloadId ''echo''"
proof -
  have "fst (resolveAllowedExecutable sample_bin [] ''echo'' Map.empty) = Inr [''usr'', ''bin'', ''echo'']"
    by (simp add: resolveAllowedExecutable_def catalog_eval sample_bin_def)
  then have "resolveAllowedExecutable sample_bin [] ''echo'' Map.empty =
      (Inr [''usr'', ''bin'', ''echo''], snd (resolveAllowedExecutable sample_bin [] ''echo'' Map.empty))"
    by (metis prod.collapse)
  from resolved_executable_verified [OF cache_sound_empty this] show ?thesis by auto
qed

text \<open>The registry is consistent: its names are distinct, every entry runs the executable of its
  own name, every flag that takes a value is an accepted flag, the path policy applies exactly
  to the commands declared confined, only a command whose first operand is exempt may declare a
  program operand, every operand mode with an integer is a declared mode, every limit is
  positive, and no shell, interpreter, downloader or file-changing command is among them.\<close>
theorem catalog_well_formed:
  "distinct (map cdName DEFINITIONS) \<and>
   list_all (\<lambda>d. cdExecutable d = cdName d \<and> cdReadOnly d \<and> 0 < cdTimeoutMs d \<and>
     0 < cdMaxOutputBytes d \<and> 0 < asMaxArgumentBytes (cdSchema d)) DEFINITIONS \<and>
   list_all (\<lambda>d. case asValueFlags (cdSchema d) of None \<Rightarrow> True
                  | Some vs \<Rightarrow> set vs \<subseteq> set (asFlags (cdSchema d))) DEFINITIONS \<and>
   list_all (\<lambda>d. asPositionalArePaths (cdSchema d) = (cdWorkspacePolicy d = Confined_files))
     DEFINITIONS \<and>
   list_all (\<lambda>d. asProgramOperand (cdSchema d) = None \<or> asLeadingPatterns (cdSchema d) = Some 1)
     DEFINITIONS \<and>
   list_all (\<lambda>d. case (asChoiceIntegers (cdSchema d), asLeadingChoices (cdSchema d)) of
                   (Some (ms, lo, hi), Some cs) \<Rightarrow> set ms \<subseteq> set cs \<and> lo \<le> hi
                 | (Some _, None) \<Rightarrow> False | (None, _) \<Rightarrow> True) DEFINITIONS \<and>
   set (map cdName DEFINITIONS) \<inter>
     {''bash'', ''sh'', ''python'', ''perl'', ''node'', ''ruby'', ''php'', ''gcc'', ''make'',
      ''curl'', ''rm'', ''chmod'', ''mount'', ''kill''} = {}"
  by (intro conjI; simp add: catalog_defs)

end
