(* ===== verification/Regex.thy ===== *)
theory Regex
  imports Prelude
begin

text \<open>
  The fragment of JavaScript's regular expressions the gateway's policies and its terminal
  grammar use: character classes, literals, sequence, alternation, option, a starred class and
  the assertions \<open>^\<close>, \<open>$\<close> and \<open>\b\<close>.  \<open>rx_test\<close> is the executable \<open>RegExp.prototype.test\<close>; a
  backtracking matcher and the list of all match ends agree on whether a match exists.
  \<open>rx_matches\<close> is the meaning of a pattern in its context, and \<open>rx_test_iff\<close> shows the matcher
  decides it.
\<close>

datatype rx =
    Class "char \<Rightarrow> bool"
  | Lit string
  | Then rx rx
  | Or rx rx
  | Maybe rx
  | Star "char \<Rightarrow> bool"
  | Bos
  | Bol
  | Eos
  | WordB

text \<open>A position in the subject: the text before it, reversed, and the text after it.\<close>

type_synonym cursor = "string \<times> string"

definition ident_char :: "char \<Rightarrow> bool" where
  "ident_char c \<longleftrightarrow>
     c \<in> set ''ABCDEFGHIJKLMNOPQRSTUVWXYZabcdefghijklmnopqrstuvwxyz0123456789_''"

definition blank :: "char \<Rightarrow> bool" where
  "blank c \<longleftrightarrow> c = CHR 0x20 \<or> c = CHR 0x09"

definition line_end :: "char \<Rightarrow> bool" where
  "line_end c \<longleftrightarrow> c = CHR 0x0A \<or> c = CHR 0x0D"

definition at_word_boundary :: "cursor \<Rightarrow> bool" where
  "at_word_boundary z \<longleftrightarrow>
     (fst z \<noteq> [] \<and> ident_char (hd (fst z))) \<noteq> (snd z \<noteq> [] \<and> ident_char (hd (snd z)))"

fun star_ends :: "(char \<Rightarrow> bool) \<Rightarrow> string \<Rightarrow> string \<Rightarrow> cursor list" where
  "star_ends P b [] = [(b, [])]"
| "star_ends P b (c # cs) = (b, c # cs) # (if P c then star_ends P (c # b) cs else [])"

fun rx_ends :: "rx \<Rightarrow> cursor \<Rightarrow> cursor list" where
  "rx_ends (Class P) (b, a) =
     (case a of [] \<Rightarrow> [] | c # cs \<Rightarrow> if P c then [(c # b, cs)] else [])"
| "rx_ends (Lit w) (b, a) = (if prefix w a then [(rev w @ b, drop (length w) a)] else [])"
| "rx_ends (Then r q) z = concat (map (rx_ends q) (rx_ends r z))"
| "rx_ends (Or r q) z = rx_ends r z @ rx_ends q z"
| "rx_ends (Maybe r) z = rx_ends r z @ [z]"
| "rx_ends (Star P) (b, a) = star_ends P b a"
| "rx_ends Bos z = (if fst z = [] then [z] else [])"
| "rx_ends Bol z = (if fst z = [] \<or> line_end (hd (fst z)) then [z] else [])"
| "rx_ends Eos z = (if snd z = [] then [z] else [])"
| "rx_ends WordB z = (if at_word_boundary z then [z] else [])"

fun rx_test_from :: "rx \<Rightarrow> string \<Rightarrow> string \<Rightarrow> bool" where
  "rx_test_from r b [] = (rx_ends r (b, []) \<noteq> [])"
| "rx_test_from r b (c # cs) = (rx_ends r (b, c # cs) \<noteq> [] \<or> rx_test_from r (c # b) cs)"

definition rx_test :: "rx \<Rightarrow> string \<Rightarrow> bool" where
  "rx_test r s = rx_test_from r [] s"

section \<open>The meaning of a pattern\<close>

text \<open>\<open>rx_matches r pre m post\<close>: the pattern matches \<open>m\<close> where it stands between \<open>pre\<close> and \<open>post\<close>.\<close>

fun rx_matches :: "rx \<Rightarrow> string \<Rightarrow> string \<Rightarrow> string \<Rightarrow> bool" where
  "rx_matches (Class P) pre m post \<longleftrightarrow> (\<exists>c. m = [c] \<and> P c)"
| "rx_matches (Lit w) pre m post \<longleftrightarrow> m = w"
| "rx_matches (Then r q) pre m post \<longleftrightarrow>
     (\<exists>x y. m = x @ y \<and> rx_matches r pre x (y @ post) \<and> rx_matches q (pre @ x) y post)"
| "rx_matches (Or r q) pre m post \<longleftrightarrow> rx_matches r pre m post \<or> rx_matches q pre m post"
| "rx_matches (Maybe r) pre m post \<longleftrightarrow> rx_matches r pre m post \<or> m = []"
| "rx_matches (Star P) pre m post \<longleftrightarrow> (\<forall>c \<in> set m. P c)"
| "rx_matches Bos pre m post \<longleftrightarrow> m = [] \<and> pre = []"
| "rx_matches Bol pre m post \<longleftrightarrow> m = [] \<and> (pre = [] \<or> line_end (last pre))"
| "rx_matches Eos pre m post \<longleftrightarrow> m = [] \<and> post = []"
| "rx_matches WordB pre m post \<longleftrightarrow> m = [] \<and>
     (pre \<noteq> [] \<and> ident_char (last pre)) \<noteq> (post \<noteq> [] \<and> ident_char (hd post))"

lemma star_ends_iff:
  "(b', a') \<in> set (star_ends P b a) \<longleftrightarrow>
     (\<exists>m. a = m @ a' \<and> b' = rev m @ b \<and> (\<forall>c \<in> set m. P c))"
proof (induction a arbitrary: b)
  case Nil
  then show ?case by auto
next
  case (Cons c cs)
  have "(\<exists>m. c # cs = m @ a' \<and> b' = rev m @ b \<and> (\<forall>d \<in> set m. P d)) \<longleftrightarrow>
     (a' = c # cs \<and> b' = b) \<or>
     (P c \<and> (\<exists>m. cs = m @ a' \<and> b' = rev m @ c # b \<and> (\<forall>d \<in> set m. P d)))"
    (is "?l \<longleftrightarrow> ?r")
  proof
    assume ?l
    then obtain m where m: "c # cs = m @ a'" "b' = rev m @ b" "\<forall>d \<in> set m. P d" by blast
    then show ?r by (cases m) auto
  next
    assume ?r
    then show ?l
    proof
      assume "P c \<and> (\<exists>m. cs = m @ a' \<and> b' = rev m @ c # b \<and> (\<forall>d \<in> set m. P d))"
      then obtain m where "P c" "cs = m @ a'" "b' = rev m @ c # b" "\<forall>d \<in> set m. P d" by blast
      then have "c # cs = (c # m) @ a' \<and> b' = rev (c # m) @ b \<and> (\<forall>d \<in> set (c # m). P d)"
        by simp
      then show ?l by blast
    qed auto
  qed
  with Cons.IH show ?case by auto
qed

lemma rx_ends_iff:
  "(b', a') \<in> set (rx_ends r (b, a)) \<longleftrightarrow>
     (\<exists>m. a = m @ a' \<and> b' = rev m @ b \<and> rx_matches r (rev b) m a')"
proof (induction r arbitrary: b a b' a')
  case (Class P)
  then show ?case by (auto split: list.split)
next
  case (Lit w)
  then show ?case by (auto simp: prefix_def)
next
  case (Then r q)
  have "(b', a') \<in> set (rx_ends (Then r q) (b, a)) \<longleftrightarrow>
      (\<exists>b1 a1. (b1, a1) \<in> set (rx_ends r (b, a)) \<and> (b', a') \<in> set (rx_ends q (b1, a1)))"
    by auto
  also have "\<dots> \<longleftrightarrow> (\<exists>x y. a = x @ y @ a' \<and> b' = rev y @ rev x @ b \<and>
      rx_matches r (rev b) x (y @ a') \<and> rx_matches q (rev b @ x) y a')"
    unfolding Then.IH by (auto; metis rev_append rev_rev_ident)
  also have "\<dots> \<longleftrightarrow>
      (\<exists>m. a = m @ a' \<and> b' = rev m @ b \<and> rx_matches (Then r q) (rev b) m a')"
    by force
  finally show ?case .
next
  case (Or r q)
  have "(b', a') \<in> set (rx_ends (Or r q) (b, a)) \<longleftrightarrow>
      (b', a') \<in> set (rx_ends r (b, a)) \<or> (b', a') \<in> set (rx_ends q (b, a))"
    by simp
  then show ?case
    unfolding Or.IH by auto
next
  case (Maybe r)
  have "(b', a') \<in> set (rx_ends (Maybe r) (b, a)) \<longleftrightarrow>
      (b', a') \<in> set (rx_ends r (b, a)) \<or> (b' = b \<and> a' = a)"
    by auto
  then show ?case
    unfolding Maybe.IH by auto
next
  case (Star P)
  then show ?case by (simp add: star_ends_iff)
next
  case Bol
  then show ?case by (cases b) auto
next
  case WordB
  then show ?case by (cases b) (auto simp: at_word_boundary_def)
qed auto

lemma rx_test_from_iff:
  "rx_test_from r b a \<longleftrightarrow>
     (\<exists>pre m post. a = pre @ m @ post \<and> rx_matches r (rev b @ pre) m post)"
proof (induction a arbitrary: b)
  case Nil
  have "rx_ends r (b, []) \<noteq> [] \<longleftrightarrow> (\<exists>b' a'. (b', a') \<in> set (rx_ends r (b, [])))"
    by (metis list.set_intros(1) list.set(1) empty_iff neq_Nil_conv surj_pair)
  then show ?case by (auto simp: rx_ends_iff)
next
  case (Cons c cs)
  have "rx_ends r (b, c # cs) \<noteq> [] \<longleftrightarrow> (\<exists>b' a'. (b', a') \<in> set (rx_ends r (b, c # cs)))"
    by (metis list.set_intros(1) list.set(1) empty_iff neq_Nil_conv surj_pair)
  then have here: "rx_ends r (b, c # cs) \<noteq> [] \<longleftrightarrow>
      (\<exists>m post. c # cs = m @ post \<and> rx_matches r (rev b) m post)"
    by (auto simp: rx_ends_iff)
  have "(\<exists>pre m post. c # cs = pre @ m @ post \<and> rx_matches r (rev b @ pre) m post) \<longleftrightarrow>
      (\<exists>m post. c # cs = m @ post \<and> rx_matches r (rev b) m post) \<or>
      (\<exists>pre m post. cs = pre @ m @ post \<and> rx_matches r (rev b @ c # pre) m post)"
    (is "?l \<longleftrightarrow> ?r1 \<or> ?r2")
  proof
    assume ?l
    then obtain pre m post where m: "c # cs = pre @ m @ post" "rx_matches r (rev b @ pre) m post"
      by blast
    then show "?r1 \<or> ?r2" by (cases pre) auto
  next
    assume "?r1 \<or> ?r2"
    then show ?l
      by (metis append_Cons append_Nil append_Nil2)
  qed
  with here Cons.IH [of "c # b"] show ?case by simp
qed

lemma rx_test_iff:
  "rx_test r s \<longleftrightarrow> (\<exists>pre m post. s = pre @ m @ post \<and> rx_matches r pre m post)"
  by (simp add: rx_test_def rx_test_from_iff)

text \<open>A pattern that starts with a guard on what stands before a keyword.\<close>

definition not_after :: "(char \<Rightarrow> bool) \<Rightarrow> rx" where
  "not_after P = Or Bos (Class (\<lambda>c. \<not> P c))"

lemma rx_test_guarded:
  "rx_test (Then (not_after P) r) s \<longleftrightarrow>
     (\<exists>pre m post. s = pre @ m @ post \<and> (pre = [] \<or> \<not> P (last pre)) \<and> rx_matches r pre m post)"
    (is "?l \<longleftrightarrow> ?r")
proof
  assume ?l
  then obtain pre x y post where "s = pre @ (x @ y) @ post"
      "rx_matches (not_after P) pre x (y @ post)" "rx_matches r (pre @ x) y post"
    by (auto simp: rx_test_iff)
  then have "s = (pre @ x) @ y @ post \<and> (pre @ x = [] \<or> \<not> P (last (pre @ x))) \<and>
      rx_matches r (pre @ x) y post"
    by (auto simp: not_after_def)
  then show ?r by blast
next
  assume ?r
  then obtain pre m post where s: "s = pre @ m @ post" "pre = [] \<or> \<not> P (last pre)"
      "rx_matches r pre m post" by blast
  show ?l
  proof (cases pre rule: rev_cases)
    case Nil
    with s show ?thesis
      unfolding rx_test_iff
      by (intro exI [of _ "[]"] exI [of _ m] exI [of _ post]) (auto simp: not_after_def)
  next
    case (snoc p c)
    with s have "s = p @ ([c] @ m) @ post" "rx_matches (not_after P) p [c] (m @ post)"
        "rx_matches r (p @ [c]) m post"
      by (auto simp: not_after_def)
    then show ?thesis
      unfolding rx_test_iff by (metis rx_matches.simps(3))
  qed
qed

end
