(* ===== verification/Program_Policy.thy ===== *)
theory Program_Policy
  imports Regex
begin

text \<open>
  \<^verbatim>\<open>web/backend/src/catalog/programPolicy.ts\<close>: the scanners that refuse an awk program or a
  sed script which reaches outside the workspace.  Patterns are the source's regular
  expressions, built from the combinators of \<open>Regex\<close>; the print scanner is the source's index
  loop, its jump over the keyword included.
\<close>

section \<open>Violations\<close>

datatype violation_kind = Shell_escape | File_write | File_read | Script_load | Shell_flag

record program_violation =
  pvKind :: violation_kind
  pvRule :: string

definition add_violation ::
    "violation_kind \<Rightarrow> string \<Rightarrow> program_violation list \<Rightarrow> program_violation list" where
  "add_violation k r found =
     (if \<exists>v \<in> set found. pvKind v = k then found else found @ [\<lparr>pvKind = k, pvRule = r\<rparr>])"

section \<open>Masking literals\<close>

abbreviation dquote :: char where "dquote \<equiv> CHR 0x22"
abbreviation squote :: char where "squote \<equiv> CHR 0x27"
abbreviation backslash :: char where "backslash \<equiv> CHR 0x5C"
abbreviation space_char :: char where "space_char \<equiv> CHR 0x20"

fun mask_outside :: "char \<Rightarrow> string \<Rightarrow> string"
  and mask_inside :: "char \<Rightarrow> string \<Rightarrow> string" where
  "mask_outside q [] = []"
| "mask_outside q (c # cs) =
     (if c = backslash
      then space_char # (case cs of [] \<Rightarrow> [] | d # ds \<Rightarrow> space_char # mask_outside q ds)
      else if c = q then space_char # mask_inside q cs
      else c # mask_outside q cs)"
| "mask_inside q [] = []"
| "mask_inside q (c # cs) =
     (if c = backslash
      then space_char # (case cs of [] \<Rightarrow> [] | d # ds \<Rightarrow> space_char # mask_inside q ds)
      else if c = q then space_char # mask_outside q cs
      else space_char # mask_inside q cs)"

definition maskLiterals :: "string \<Rightarrow> char \<Rightarrow> string" where
  "maskLiterals source q = mask_outside q source"

section \<open>Print redirections\<close>

datatype redirect_kind = Gt | Pipe

definition ident_or_dollar :: "char \<Rightarrow> bool" where
  "ident_or_dollar c \<longleftrightarrow> ident_char c \<or> c = CHR ''$''"

definition print_pattern :: rx where
  "print_pattern =
     Then (not_after ident_or_dollar)
       (Then (Lit ''print'')
         (Then (Maybe (Lit ''f''))
           (Then (Star blank) (Or Eos (Class (\<lambda>c. \<not> ident_or_dollar c))))))"

definition print_window :: "string \<Rightarrow> nat \<Rightarrow> string" where
  "print_window masked i = take (i + 7 - (i - 1)) (drop (i - 1) masked)"

function print_scan ::
    "string \<Rightarrow> nat \<Rightarrow> int \<Rightarrow> bool \<Rightarrow> int \<Rightarrow> redirect_kind list \<Rightarrow> redirect_kind list" where
  "print_scan masked i depth pendingPrint pendingDepth kinds =
     (if i < length masked
      then
        (let ch = masked ! i in
         if ch = CHR ''(''
         then print_scan masked (i + 1) (depth + 1) pendingPrint pendingDepth kinds
         else if ch = CHR '')''
         then (if pendingPrint \<and> depth - 1 < pendingDepth
               then print_scan masked (i + 1) (depth - 1) False 0 kinds
               else print_scan masked (i + 1) (depth - 1) pendingPrint pendingDepth kinds)
         else if ch = CHR '';'' \<or> ch = CHR ''{'' \<or> ch = CHR ''}'' \<or> ch = CHR 0x0A
         then print_scan masked (i + 1) depth False 0 kinds
         else if rx_test print_pattern (print_window masked i)
         then print_scan masked (i + 5 + 1) depth True depth kinds
         else if \<not> pendingPrint \<or> depth \<noteq> pendingDepth
         then print_scan masked (i + 1) depth pendingPrint pendingDepth kinds
         else if ch = CHR ''>''
         then print_scan masked (i + 1) depth False pendingDepth (kinds @ [Gt])
         else if ch = CHR ''|''
         then print_scan masked (i + 1) depth False pendingDepth (kinds @ [Pipe])
         else print_scan masked (i + 1) depth pendingPrint pendingDepth kinds)
      else kinds)"
  by pat_completeness auto
termination
  by (relation "measure (\<lambda>(masked, i, _). length masked - i)") auto

declare print_scan.simps [simp del]

definition findPrintRedirects :: "string \<Rightarrow> redirect_kind list" where
  "findPrintRedirects masked = print_scan masked 0 0 False 0 []"

section \<open>The awk scanner\<close>

definition load_pattern :: rx where
  "load_pattern =
     Then Bol (Then (Star blank) (Then (Lit ''@'') (Then (Or (Lit ''load'') (Lit ''include'')) WordB)))"

definition system_pattern :: rx where
  "system_pattern =
     Then (not_after ident_or_dollar) (Then (Lit ''system'') (Then (Star blank) (Lit ''('')))"

definition getline_pattern :: rx where
  "getline_pattern = Then (not_after ident_or_dollar) (Then (Lit ''getline'') WordB)"

definition add_redirect :: "redirect_kind \<Rightarrow> program_violation list \<Rightarrow> program_violation list" where
  "add_redirect hit found =
     (if hit = Gt
      then add_violation File_write
             ''an awk program may not redirect print/printf output to a file'' found
      else add_violation Shell_escape
             ''an awk program may not pipe print/printf output to a command'' found)"

definition findAwkProgramViolations :: "string \<Rightarrow> program_violation list" where
  "findAwkProgramViolations program =
     (let masked = maskLiterals program dquote;
          found = [];
          found = (if rx_test load_pattern masked
                   then add_violation Script_load
                          ''an awk program may not use @load or @include'' found
                   else found);
          found = (if rx_test system_pattern masked
                   then add_violation Shell_escape ''an awk program may not call system()'' found
                   else found);
          found = (if rx_test getline_pattern masked
                   then add_violation File_read ''an awk program may not use getline'' found
                   else found)
      in fold add_redirect (findPrintRedirects masked) found)"

section \<open>The sed scanner\<close>

definition CMD :: rx where
  "CMD = Or (Then (Or Bos (Class (\<lambda>c. c \<in> {CHR '';'', CHR ''{'', CHR ''}''}))) (Star blank))
           (Or (Then (Lit '')'') (Star blank)) (Then (Lit ''/'') (Star blank)))"

definition sed_command_pattern :: "char \<Rightarrow> rx" where
  "sed_command_pattern c = Then CMD (Then (Lit [c]) (Class blank))"

definition sed_flag_pattern :: rx where
  "sed_flag_pattern =
     Then (Lit ''s'')
      (Then (Star (\<lambda>c. c \<notin> {CHR '';'', CHR ''/'', CHR 0x0A}))
       (Then (Lit ''/'')
        (Then (Star (\<lambda>c. c \<notin> {CHR '';'', CHR 0x0A}))
         (Then WordB (Then (Lit ''e'') (Then WordB (Then (Star blank) Eos)))))))"

definition findSedScriptViolations :: "string \<Rightarrow> program_violation list" where
  "findSedScriptViolations script =
     (let masked = maskLiterals script squote;
          found = [];
          found = (if rx_test (sed_command_pattern (CHR ''w'')) masked
                   then add_violation File_write
                          ''a sed script may not use the `w` command, which writes a file'' found
                   else found);
          found = (if rx_test (sed_command_pattern (CHR ''W'')) masked
                   then add_violation File_write
                          ''a sed script may not use the `W` command, which appends to a file'' found
                   else found);
          found = (if rx_test (sed_command_pattern (CHR ''r'')) masked
                   then add_violation File_read
                          ''a sed script may not use the `r` command, which reads a file'' found
                   else found);
          found = (if rx_test (sed_command_pattern (CHR ''e'')) masked
                   then add_violation Shell_escape
                          ''a sed script may not use the `e` command, which runs a shell'' found
                   else found)
      in if rx_test sed_flag_pattern masked
         then add_violation Shell_escape
                ''a sed script may not use the `e` flag, which runs a shell'' found
         else found)"


section \<open>Lemmas: masking\<close>

lemma mask_length [simp]:
  "length (mask_outside q s) = length s" "length (mask_inside q s) = length s"
proof (induction q s and q s rule: mask_outside_mask_inside.induct)
  case (2 q c cs)
  show ?case
  proof (cases "c = backslash")
    case True
    with 2(1) show ?thesis by (cases cs) simp_all
  next
    case False
    with 2(2,3) show ?thesis by (cases "c = q") simp_all
  qed
next
  case (4 q c cs)
  show ?case
  proof (cases "c = backslash")
    case True
    with 4(1) show ?thesis by (cases cs) simp_all
  next
    case False
    with 4(2,3) show ?thesis by (cases "c = q") simp_all
  qed
qed simp_all

lemma mask_no_quote:
  "\<forall>c \<in> set (mask_outside q s). c = space_char \<or> c \<noteq> q \<and> c \<noteq> backslash"
  "\<forall>c \<in> set (mask_inside q s). c = space_char \<or> c \<noteq> q \<and> c \<noteq> backslash"
proof (induction q s and q s rule: mask_outside_mask_inside.induct)
  case (2 q c cs)
  show ?case
  proof (cases "c = backslash")
    case True
    with 2(1) show ?thesis by (cases cs) simp_all
  next
    case False
    with 2(2,3) show ?thesis by (cases "c = q") simp_all
  qed
next
  case (4 q c cs)
  show ?case
  proof (cases "c = backslash")
    case True
    with 4(1) show ?thesis by (cases cs) simp_all
  next
    case False
    with 4(2,3) show ?thesis by (cases "c = q") simp_all
  qed
qed simp_all

lemma mask_keeps_or_blanks:
  "list_all2 (\<lambda>c d. d = c \<or> d = space_char) s (mask_outside q s)"
  "list_all2 (\<lambda>c d. d = c \<or> d = space_char) s (mask_inside q s)"
proof (induction q s and q s rule: mask_outside_mask_inside.induct)
  case (2 q c cs)
  show ?case
  proof (cases "c = backslash")
    case True
    with 2(1) show ?thesis by (cases cs) simp_all
  next
    case False
    with 2(2,3) show ?thesis by (cases "c = q") simp_all
  qed
next
  case (4 q c cs)
  show ?case
  proof (cases "c = backslash")
    case True
    with 4(1) show ?thesis by (cases cs) simp_all
  next
    case False
    with 4(2,3) show ?thesis by (cases "c = q") simp_all
  qed
qed simp_all

lemma mask_outside_plain:
  "q \<notin> set a \<Longrightarrow> backslash \<notin> set a \<Longrightarrow> mask_outside q (a @ s) = a @ mask_outside q s"
  by (induction a) auto

lemma mask_inside_plain:
  "q \<notin> set a \<Longrightarrow> backslash \<notin> set a \<Longrightarrow>
     mask_inside q (a @ s) = replicate (length a) space_char @ mask_inside q s"
  by (induction a) auto

lemma mask_literal:
  assumes "q \<notin> set a" "backslash \<notin> set a" "q \<notin> set w" "backslash \<notin> set w" "q \<noteq> backslash"
  shows "maskLiterals (a @ q # w @ q # b) q =
     a @ space_char # replicate (length w) space_char @ space_char # maskLiterals b q"
  using assms by (simp add: maskLiterals_def mask_outside_plain mask_inside_plain)

section \<open>Lemmas: the scanners\<close>

definition has_kind :: "violation_kind \<Rightarrow> program_violation list \<Rightarrow> bool" where
  "has_kind k found \<longleftrightarrow> k \<in> set (map pvKind found)"

lemma has_kind_Nil [simp]: "\<not> has_kind k []"
  by (simp add: has_kind_def)

lemma has_kind_add [simp]: "has_kind k (add_violation k' r found) \<longleftrightarrow> k = k' \<or> has_kind k found"
  by (auto simp: has_kind_def add_violation_def)

lemma has_kind_redirect [simp]:
  "has_kind k (add_redirect hit found) \<longleftrightarrow>
     (k = (if hit = Gt then File_write else Shell_escape)) \<or> has_kind k found"
  by (simp add: add_redirect_def)

lemma has_kind_redirects:
  "has_kind k (fold add_redirect hits found) \<longleftrightarrow>
     (k = File_write \<and> Gt \<in> set hits) \<or> (k = Shell_escape \<and> Pipe \<in> set hits) \<or> has_kind k found"
  by (induction hits arbitrary: found) (auto intro: redirect_kind.exhaust)

lemma distinct_add: "distinct (map pvKind found) \<Longrightarrow> distinct (map pvKind (add_violation k r found))"
  by (auto simp: add_violation_def)

lemma distinct_redirects:
  "distinct (map pvKind found) \<Longrightarrow> distinct (map pvKind (fold add_redirect hits found))"
  by (induction hits arbitrary: found) (auto simp: add_redirect_def distinct_add)

lemma awk_kinds:
  "has_kind k (findAwkProgramViolations p) \<longleftrightarrow>
     (let m = maskLiterals p dquote in
       (k = Script_load \<and> rx_test load_pattern m) \<or>
       (k = Shell_escape \<and> (rx_test system_pattern m \<or> Pipe \<in> set (findPrintRedirects m))) \<or>
       (k = File_read \<and> rx_test getline_pattern m) \<or>
       (k = File_write \<and> Gt \<in> set (findPrintRedirects m)))"
  by (auto simp: findAwkProgramViolations_def Let_def has_kind_redirects)

lemma awk_distinct: "distinct (map pvKind (findAwkProgramViolations p))"
  unfolding findAwkProgramViolations_def Let_def
  by (intro distinct_redirects) (simp add: distinct_add)

definition keyword_free :: "string \<Rightarrow> bool" where
  "keyword_free pre \<longleftrightarrow> pre = [] \<or> \<not> ident_or_dollar (last pre)"

lemma getline_iff:
  "rx_test getline_pattern m \<longleftrightarrow>
     (\<exists>pre post. m = pre @ ''getline'' @ post \<and> keyword_free pre \<and>
        (post = [] \<or> \<not> ident_char (hd post)))"
  by (simp add: getline_pattern_def rx_test_guarded keyword_free_def ident_char_def)

lemma lit_star_lit_iff:
  "rx_test (Then (not_after P) (Then (Lit w) (Then (Star Q) (Lit v)))) m \<longleftrightarrow>
     (\<exists>pre bs post. m = pre @ w @ bs @ v @ post \<and> (pre = [] \<or> \<not> P (last pre)) \<and>
        (\<forall>c \<in> set bs. Q c))"
  unfolding rx_test_guarded
proof (intro iffI; elim exE conjE)
  fix pre x post
  assume x: "rx_matches (Then (Lit w) (Then (Star Q) (Lit v))) pre x post"
    and m: "m = pre @ x @ post" "pre = [] \<or> \<not> P (last pre)"
  from x obtain bs where "x = w @ bs @ v" "\<forall>c \<in> set bs. Q c" by auto
  with m show "\<exists>pre bs post. m = pre @ w @ bs @ v @ post \<and> (pre = [] \<or> \<not> P (last pre)) \<and>
      (\<forall>c \<in> set bs. Q c)"
    by (intro exI [of _ pre] exI [of _ bs] exI [of _ post]) simp
next
  fix pre bs post
  assume "m = pre @ w @ bs @ v @ post" "pre = [] \<or> \<not> P (last pre)" "\<forall>c \<in> set bs. Q c"
  then show "\<exists>pre x post. m = pre @ x @ post \<and> (pre = [] \<or> \<not> P (last pre)) \<and>
      rx_matches (Then (Lit w) (Then (Star Q) (Lit v))) pre x post"
    by (intro exI [of _ pre] exI [of _ "w @ bs @ v"] exI [of _ post]) auto
qed

lemma system_iff:
  "rx_test system_pattern m \<longleftrightarrow>
     (\<exists>pre bs post. m = pre @ ''system'' @ bs @ ''('' @ post \<and> keyword_free pre \<and>
        (\<forall>c \<in> set bs. blank c))"
  unfolding system_pattern_def lit_star_lit_iff keyword_free_def ..

definition command_position :: "string \<Rightarrow> bool" where
  "command_position pre \<longleftrightarrow>
     pre = [] \<or> last pre \<in> {CHR '';'', CHR ''{'', CHR ''}'', CHR '')'', CHR ''/''}"

lemma CMD_matches:
  "rx_matches CMD pre x post \<longleftrightarrow>
     (\<exists>y bs. x = y @ bs \<and> (\<forall>c \<in> set bs. blank c) \<and>
        (y = [] \<and> pre = [] \<or> (\<exists>c. y = [c] \<and> c \<in> {CHR '';'', CHR ''{'', CHR ''}'', CHR '')'', CHR ''/''})))"
    (is "?l \<longleftrightarrow> ?r")
proof
  assume ?l
  then obtain y bs where "x = y @ bs" "\<forall>c \<in> set bs. blank c"
      "(y = [] \<and> pre = []) \<or> (\<exists>c. y = [c] \<and> c \<in> {CHR '';'', CHR ''{'', CHR ''}''}) \<or>
       y = '')'' \<or> y = ''/''"
    unfolding CMD_def rx_matches.simps by blast
  then show ?r by blast
next
  assume ?r
  then obtain y bs where y: "x = y @ bs" "\<forall>c \<in> set bs. blank c"
      "(y = [] \<and> pre = []) \<or> (\<exists>c. y = [c] \<and> c \<in> {CHR '';'', CHR ''{'', CHR ''}''}) \<or>
       y = '')'' \<or> y = ''/''"
    by blast
  then show ?l
    unfolding CMD_def rx_matches.simps by blast
qed

lemma sed_command_iff:
  "rx_test (sed_command_pattern c) m \<longleftrightarrow>
     (\<exists>pre bs d post. m = pre @ bs @ c # d # post \<and> blank d \<and> (\<forall>x \<in> set bs. blank x) \<and>
        command_position pre)"
  unfolding rx_test_iff sed_command_pattern_def
proof (intro iffI; elim exE conjE)
  fix pre x post
  assume x: "rx_matches (Then CMD (Then (Lit [c]) (Class blank))) pre x post"
    and m: "m = pre @ x @ post"
  from x obtain z d where z: "x = z @ [c, d]" "rx_matches CMD pre z (c # d # post)" "blank d"
    by auto
  from z(2) obtain y bs where y: "z = y @ bs" "\<forall>c \<in> set bs. blank c"
      "y = [] \<and> pre = [] \<or> (\<exists>c. y = [c] \<and> c \<in> {CHR '';'', CHR ''{'', CHR ''}'', CHR '')'', CHR ''/''})"
    unfolding CMD_matches by blast
  from y(3) have "command_position (pre @ y)"
    by (auto simp: command_position_def)
  from m z(1) y(1) have "m = (pre @ y) @ bs @ c # d # post" by simp
  with y(2) \<open>command_position (pre @ y)\<close> z(3) show "\<exists>pre bs d post. m = pre @ bs @ c # d # post \<and> blank d \<and>
      (\<forall>x \<in> set bs. blank x) \<and> command_position pre"
    by blast
next
  fix pre bs d post
  assume m: "m = pre @ bs @ c # d # post" "blank d" "\<forall>x \<in> set bs. blank x" "command_position pre"
  obtain p y where p: "pre = p @ y" "rx_matches CMD p (y @ bs) (c # d # post)"
  proof (cases pre rule: rev_cases)
    case Nil
    with m that [of "[]" "[]"] show ?thesis by (simp add: CMD_matches) blast
  next
    case (snoc p k)
    with m(4) have "k \<in> {CHR '';'', CHR ''{'', CHR ''}'', CHR '')'', CHR ''/''}"
      by (simp add: command_position_def)
    with m(3) have "rx_matches CMD p ([k] @ bs) (c # d # post)"
      unfolding CMD_matches by blast
    with snoc that [of p "[k]"] show ?thesis by simp
  qed
  then have "rx_matches (Then CMD (Then (Lit [c]) (Class blank))) p ((y @ bs) @ [c, d]) post"
    using m(2) by (simp del: append_assoc) (metis append_Cons append_Nil)
  moreover have "m = p @ ((y @ bs) @ [c, d]) @ post"
    using m(1) p(1) by simp
  ultimately show "\<exists>pre x post. m = pre @ x @ post \<and>
      rx_matches (Then CMD (Then (Lit [c]) (Class blank))) pre x post"
    by blast
qed

section \<open>Lemmas: the print scanner\<close>

definition print_at :: "string \<Rightarrow> nat \<Rightarrow> bool" where
  "print_at m i = rx_test print_pattern (print_window m i)"

definition statement_char :: "char \<Rightarrow> bool" where
  "statement_char c \<longleftrightarrow>
     c \<notin> {CHR ''('', CHR '')'', CHR '';'', CHR ''{'', CHR ''}'', CHR 0x0A}"

lemma prefix_sep: "c \<notin> set w \<Longrightarrow> prefix w (a @ c # b) \<longleftrightarrow> prefix w a"
proof (induction a arbitrary: w)
  case Nil
  then show ?case by (cases w) auto
next
  case (Cons x a)
  then show ?case by (cases w) auto
qed

lemma has_word_sep:
  "c \<notin> set w \<Longrightarrow> w \<noteq> [] \<Longrightarrow> has_word w (a @ c # b) \<longleftrightarrow> has_word w a \<or> has_word w b"
proof (induction a)
  case Nil
  then show ?case by (cases w) auto
next
  case (Cons x a)
  from prefix_sep [OF Cons.prems(1), of "x # a" b] Cons show ?case by auto
qed

lemma has_word_take: "has_word w (take n s) \<Longrightarrow> has_word w s"
  by (metis append_take_drop_id has_word_iff append.assoc)

lemma has_word_drop: "has_word w (drop n s) \<Longrightarrow> has_word w s"
  by (metis append_take_drop_id has_word_iff append.assoc)

lemma print_pattern_word: "rx_test print_pattern s \<Longrightarrow> has_word ''print'' s"
  unfolding print_pattern_def rx_test_guarded has_word_iff
  by (elim exE conjE, simp only: rx_matches.simps) (metis append.assoc)

lemma print_pattern_hit:
  "rx_test print_pattern (u @ '' print'')" "rx_test print_pattern (u @ '' print '')"
proof -
  let ?r = "Then (Lit ''print'') (Then (Maybe (Lit ''f'')) (Then (Star blank)
      (Or Eos (Class (\<lambda>c. \<not> ident_or_dollar c)))))"
  have sp: "\<not> ident_or_dollar space_char"
    by (simp add: ident_or_dollar_def ident_char_def)
  have "rx_matches ?r (u @ '' '') ''print'' []" and "rx_matches ?r (u @ '' '') ''print '' []"
    using sp
     by (auto simp: Cons_eq_append_conv) (metis append_Nil empty_iff empty_set)
  then show "rx_test print_pattern (u @ '' print'')" "rx_test print_pattern (u @ '' print '')"
    unfolding print_pattern_def rx_test_guarded
    by (metis append.assoc append_Cons append_Nil append_Nil2 last_snoc sp)+
qed

lemma print_at_before: "print_at m i \<Longrightarrow> i + 7 \<le> n \<Longrightarrow> has_word ''print'' (take n m)"
proof -
  assume "print_at m i" and n: "i + 7 \<le> n"
  then have "has_word ''print'' (take (i + 7 - (i - 1)) (drop (i - 1) m))"
    by (simp add: print_at_def print_window_def print_pattern_word)
  then have "has_word ''print'' (take (i + 7) m)"
    by (simp add: take_drop has_word_drop)
  then show ?thesis
    using n has_word_take [of _ "i + 7" "take n m"] by (simp add: min_def)
qed

lemma print_at_after: "print_at m i \<Longrightarrow> n \<le> i - 1 \<Longrightarrow> has_word ''print'' (drop n m)"
proof -
  assume "print_at m i" and n: "n \<le> i - 1"
  then have "has_word ''print'' (take (i + 7 - (i - 1)) (drop (i - 1) m))"
    by (simp add: print_at_def print_window_def print_pattern_word)
  then have "has_word ''print'' (drop (i - 1) m)"
    by (rule has_word_take)
  moreover have "drop (i - 1) m = drop (i - 1 - n) (drop n m)"
    using n by (simp only: drop_drop le_add_diff_inverse2)
  ultimately show ?thesis
    using has_word_drop by metis
qed

lemma print_scan_idle:
  "i \<le> k \<Longrightarrow> k \<le> length m \<Longrightarrow> \<forall>j. i \<le> j \<and> j < k \<longrightarrow> \<not> print_at m j \<Longrightarrow>
     \<exists>d' pd'. print_scan m i d False pd ks = print_scan m k d' False pd' ks"
proof (induction "k - i" arbitrary: i d pd)
  case 0
  then show ?case by auto
next
  case (Suc n)
  then have i: "i < k" "i < length m" "\<not> rx_test print_pattern (print_window m i)"
    by (auto simp: print_at_def)
  then have "\<exists>d' pd'. print_scan m i d False pd ks = print_scan m (i + 1) d' False pd' ks"
    by (subst print_scan.simps) (auto simp: Let_def)
  then obtain d' pd' where
    "print_scan m i d False pd ks = print_scan m (i + 1) d' False pd' ks" by blast
  with Suc.hyps(1) [of "i + 1" d' pd'] Suc.hyps(2) Suc.prems i show ?case
    by auto
qed

lemma print_scan_hit:
  "i < length m \<Longrightarrow> statement_char (m ! i) \<Longrightarrow> print_at m i \<Longrightarrow>
     print_scan m i d b pd ks = print_scan m (i + 6) d True d ks"
  by (subst print_scan.simps) (simp add: Let_def statement_char_def print_at_def add.commute)

lemma print_scan_pending:
  "i \<le> k \<Longrightarrow> k \<le> length m \<Longrightarrow>
     \<forall>j. i \<le> j \<and> j < k \<longrightarrow> \<not> print_at m j \<and> statement_char (m ! j) \<and> m ! j \<noteq> CHR ''>'' \<and> m ! j \<noteq> CHR ''|'' \<Longrightarrow>
     print_scan m i d True d ks = print_scan m k d True d ks"
proof (induction "k - i" arbitrary: i)
  case 0
  then show ?case by auto
next
  case (Suc n)
  then have i: "i < k" "i < length m" "\<not> print_at m i" "statement_char (m ! i)"
      "m ! i \<noteq> CHR ''>''" "m ! i \<noteq> CHR ''|''"
    by auto
  then have "print_scan m i d True d ks = print_scan m (i + 1) d True d ks"
    by (subst print_scan.simps) (simp add: Let_def statement_char_def print_at_def)
  with Suc.hyps(1) [of "i + 1"] Suc.hyps(2) Suc.prems i show ?case
    by simp
qed

lemma print_scan_operator:
  "i < length m \<Longrightarrow> \<not> print_at m i \<Longrightarrow> m ! i = CHR ''>'' \<or> m ! i = CHR ''|'' \<Longrightarrow>
     print_scan m i d True d ks =
       print_scan m (i + 1) d False d (ks @ [if m ! i = CHR ''>'' then Gt else Pipe])"
  by (subst print_scan.simps) (auto simp: Let_def print_at_def)

lemma print_scan_end: "length m \<le> i \<Longrightarrow> print_scan m i d b pd ks = ks"
  by (subst print_scan.simps) simp

lemma single_print_found:
  assumes a: "\<not> has_word ''print'' a" and e: "\<not> has_word ''print'' (e @ c # post)"
    and plain: "\<forall>x \<in> set e. statement_char x \<and> x \<noteq> CHR ''>'' \<and> x \<noteq> CHR ''|''"
    and c: "c = CHR ''>'' \<or> c = CHR ''|''"
    and m: "m = a @ '' print '' @ e @ c # post"
  shows "findPrintRedirects m = [if c = CHR ''>'' then Gt else Pipe]"
proof -
  let ?k = "length a" and ?op = "length a + 7 + length e"
  have quiet_before: "\<not> print_at m j" if "j + 7 \<le> ?k + 5" for j
  proof
    assume "print_at m j"
    then have "has_word ''print'' (take (?k + 5) m)"
      using that by (rule print_at_before)
    then have "has_word ''print'' (a @ space_char # ''prin'')"
      by (simp add: m)
    then show False
      using a by (simp add: has_word_sep)
  qed
  have quiet_after: "\<not> print_at m j" if "?k + 5 \<le> j" for j
  proof
    assume "print_at m j"
    then have "has_word ''print'' (drop (?k + 4) m)"
      using that by (intro print_at_after) auto
    then have "has_word ''print'' (''nt'' @ space_char # e @ c # post)"
      by (simp add: m)
    then show False
      using e by (subst (asm) has_word_sep) simp_all
  qed
  have chars: "m ! (?k + 5) = CHR ''t''" "m ! (?k + 6) = space_char" "m ! ?op = c"
    "\<forall>j < length e. m ! (?k + 7 + j) = e ! j"
    by (simp_all add: m nth_append)
  have len: "length m = ?op + 1 + length post"
    by (simp add: m)
  have rest: "print_scan m i d True d [] = [if c = CHR ''>'' then Gt else Pipe]"
    if "i = ?k + 5 \<or> i = ?k + 6" for i d
  proof -
    have "\<not> print_at m j \<and> statement_char (m ! j) \<and> m ! j \<noteq> CHR ''>'' \<and> m ! j \<noteq> CHR ''|''"
      if j: "?k + 5 \<le> j" "j < ?op" for j
    proof (cases "j < ?k + 7")
      case True
      with j have "j = ?k + 5 \<or> j = ?k + 6" by auto
      with j chars show ?thesis by (auto simp: statement_char_def quiet_after)
    next
      case False
      with j have "m ! j = e ! (j - ?k - 7)" "j - ?k - 7 < length e"
        using chars(4) by (auto dest: spec [of _ "j - ?k - 7"])
      with j plain show ?thesis by (simp add: quiet_after)
    qed
    with that len have "print_scan m i d True d [] = print_scan m ?op d True d []"
      by (intro print_scan_pending) auto
    also have "\<dots> = print_scan m (?op + 1) d False d [if c = CHR ''>'' then Gt else Pipe]"
      using c chars(3) len by (subst print_scan_operator) (auto simp: quiet_after)
    also have "\<dots> = [if c = CHR ''>'' then Gt else Pipe]"
    proof -
      have "\<exists>d' pd'. print_scan m (?op + 1) d False d ks = print_scan m (length m) d' False pd' ks"
        for ks using len by (intro print_scan_idle) (auto simp: quiet_after)
      then show ?thesis by (metis le_refl print_scan_end)
    qed
    finally show ?thesis .
  qed
  show ?thesis
  proof (cases a rule: rev_cases)
    case Nil
    have "print_at m 0"
      using print_pattern_hit(2) [of "[]"] by (simp add: print_at_def print_window_def m Nil)
    then have "print_scan m 0 0 False 0 [] = print_scan m (0 + 6) 0 True 0 []"
      by (intro print_scan_hit) (auto simp: m Nil statement_char_def)
    with rest [of 6 0] Nil show ?thesis by (simp add: findPrintRedirects_def)
  next
    case (snoc u x)
    have "\<exists>d' pd'. print_scan m 0 0 False 0 [] = print_scan m (length u) d' False pd' []"
      using len snoc by (intro print_scan_idle) (auto intro!: quiet_before)
    then obtain d pd where start: "print_scan m 0 0 False 0 [] = print_scan m (length u) d False pd []"
      by blast
    have x: "m ! length u = x" "length u < length m" "?k = length u + 1"
      by (simp_all add: m snoc)
    show ?thesis
    proof (cases "statement_char x")
      case True
      have "print_window m (length u) = drop (length u - 1) (u @ [x]) @ '' print''"
        by (cases u rule: rev_cases) (simp_all add: print_window_def m snoc)
      then have "print_at m (length u)"
        by (simp only: print_at_def print_pattern_hit)
      with True x have "print_scan m (length u) d False pd [] = print_scan m (?k + 5) d True d []"
        by (subst print_scan_hit) (auto simp: add.commute)
      with start rest show ?thesis by (simp add: findPrintRedirects_def)
    next
      case False
      then have "\<exists>d' pd'. print_scan m (length u) d False pd [] = print_scan m (length u + 1) d' False pd' []"
        using x by (subst print_scan.simps) (auto simp: Let_def statement_char_def)
      then obtain d' pd' where
        next': "print_scan m (length u) d False pd [] = print_scan m ?k d' False pd' []"
        using x by auto
      have "print_window m ?k = [x] @ '' print ''"
        by (simp add: print_window_def m snoc)
      then have "print_at m ?k"
        by (simp only: print_at_def print_pattern_hit)
      then have "print_scan m ?k d' False pd' [] = print_scan m (?k + 6) d' True d' []"
        by (intro print_scan_hit) (auto simp: m statement_char_def)
      with start next' rest show ?thesis by (simp add: findPrintRedirects_def)
    qed
  qed
qed

lemma sed_kinds:
  "has_kind k (findSedScriptViolations s) \<longleftrightarrow>
     (let m = maskLiterals s squote in
       (k = File_write \<and> (rx_test (sed_command_pattern (CHR ''w'')) m \<or>
                            rx_test (sed_command_pattern (CHR ''W'')) m)) \<or>
       (k = File_read \<and> rx_test (sed_command_pattern (CHR ''r'')) m) \<or>
       (k = Shell_escape \<and> (rx_test (sed_command_pattern (CHR ''e'')) m \<or>
                              rx_test sed_flag_pattern m)))"
  by (auto simp: findSedScriptViolations_def Let_def)

section \<open>Properties\<close>

text \<open>What an awk program is refused for, exactly, over its text with string literals and
  escapes blanked: a file read for a free-standing \<open>getline\<close>, a shell escape for
  \<open>system\<close> followed by an opening parenthesis or for a piped print, a file write for a redirected print.
  Each kind is reported at most once.\<close>
theorem awk_refusals_exact:
  "has_kind File_read (findAwkProgramViolations p) =
     (\<exists>pre post. maskLiterals p dquote = pre @ ''getline'' @ post \<and> keyword_free pre \<and>
        (post = [] \<or> \<not> ident_char (hd post))) \<and>
   has_kind Shell_escape (findAwkProgramViolations p) =
     ((\<exists>pre bs post. maskLiterals p dquote = pre @ ''system'' @ bs @ ''('' @ post \<and>
         keyword_free pre \<and> (\<forall>c \<in> set bs. blank c)) \<or>
      Pipe \<in> set (findPrintRedirects (maskLiterals p dquote))) \<and>
   has_kind File_write (findAwkProgramViolations p) =
     (Gt \<in> set (findPrintRedirects (maskLiterals p dquote))) \<and>
   distinct (map pvKind (findAwkProgramViolations p))"
  by (intro conjI awk_distinct) (simp_all only: awk_kinds getline_iff system_iff Let_def
      violation_kind.simps simp_thms)

theorem awk_refusals_exact_witness:
  "has_kind File_read (findAwkProgramViolations ''NR>1{getline}'')"
proof -
  have "maskLiterals ''NR>1{getline}'' dquote = ''NR>1{'' @ ''getline'' @ ''}'' \<and>
      keyword_free ''NR>1{'' \<and> \<not> ident_char (hd ''}'')"
    by code_simp
  with awk_refusals_exact [of "''NR>1{getline}''"] show ?thesis by blast
qed

text \<open>A literal's contents neither trigger a refusal nor hide one: replacing the text between
  two quotes by any other text of the same length leaves the verdict unchanged.\<close>
theorem awk_literal_contents_irrelevant:
  assumes "dquote \<notin> set a" "backslash \<notin> set a" and "length w = length w'"
    and "{dquote, backslash} \<inter> (set w \<union> set w') = {}"
  shows "findAwkProgramViolations (a @ dquote # w @ dquote # b) =
    findAwkProgramViolations (a @ dquote # w' @ dquote # b)"
proof -
  have "dquote \<notin> set w" "backslash \<notin> set w" "dquote \<notin> set w'" "backslash \<notin> set w'"
    using assms(4) by auto
  then have "maskLiterals (a @ dquote # w @ dquote # b) dquote =
      maskLiterals (a @ dquote # w' @ dquote # b) dquote"
    using assms by (simp add: mask_literal)
  then show ?thesis by (simp only: findAwkProgramViolations_def)
qed

theorem awk_literal_contents_irrelevant_witness:
  "findAwkProgramViolations (''{x='' @ dquote # ''system()'' @ dquote # ''}'') =
   findAwkProgramViolations (''{x='' @ dquote # ''harmless'' @ dquote # ''}'')"
  by (rule awk_literal_contents_irrelevant) simp_all

text \<open>A print statement cannot be redirected or piped out. When the masked program holds one
  print, with blanks around the keyword, followed by operand text of the same statement and
  parenthesis level and then by \<open>>\<close> or \<open>|\<close>, the program is refused for that operator, whatever
  surrounds the statement.\<close>
theorem print_redirect_refused:
  assumes "maskLiterals p dquote = a @ '' print '' @ e @ c # post"
    and "\<not> has_word ''print'' a" and "\<not> has_word ''print'' (e @ c # post)"
    and "\<forall>x \<in> set e. statement_char x \<and> x \<noteq> CHR ''>'' \<and> x \<noteq> CHR ''|''"
    and "c = CHR ''>'' \<or> c = CHR ''|''"
  shows "has_kind (if c = CHR ''>'' then File_write else Shell_escape)
    (findAwkProgramViolations p)"
  using assms(5) single_print_found [OF assms(2-5,1)] by (auto simp: awk_kinds Let_def)

definition sample_awk :: string where
  "sample_awk = ''BEGIN { print '' @ dquote # ''p'' @ dquote # '' > '' @ dquote # ''/tmp/x'' @ dquote # ''}''"

theorem print_redirect_refused_witness:
  "has_kind File_write (findAwkProgramViolations sample_awk)"
proof -
  have "maskLiterals sample_awk dquote = ''BEGIN {'' @ '' print '' @ ''    '' @ CHR ''>'' # ''         }''"
    by code_simp
  moreover have "\<not> has_word ''print'' ''BEGIN {'' \<and> \<not> has_word ''print'' (''    '' @ CHR ''>'' # ''         }'')"
    by code_simp
  moreover have "\<forall>x \<in> set ''    ''. statement_char x \<and> x \<noteq> CHR ''>'' \<and> x \<noteq> CHR ''|''"
    by (simp add: statement_char_def)
  ultimately show ?thesis
    using print_redirect_refused [of sample_awk "''BEGIN {''" "''    ''" "CHR ''>''"] by auto
qed

text \<open>Which sed commands are refused: the script writes a file exactly when a
  \<open>w\<close> or \<open>W\<close> followed by a blank stands in command position (at the start, or after one of
  \<open>; { } ) /\<close> and blanks), and reads one exactly when an \<open>r\<close> does.\<close>
theorem sed_commands_exact:
  "has_kind File_write (findSedScriptViolations s) =
     (\<exists>pre bs c d post. maskLiterals s squote = pre @ bs @ c # d # post \<and>
        c \<in> {CHR ''w'', CHR ''W''} \<and> blank d \<and> (\<forall>x \<in> set bs. blank x) \<and> command_position pre) \<and>
   has_kind File_read (findSedScriptViolations s) =
     (\<exists>pre bs d post. maskLiterals s squote = pre @ bs @ CHR ''r'' # d # post \<and>
        blank d \<and> (\<forall>x \<in> set bs. blank x) \<and> command_position pre)"
  unfolding sed_kinds Let_def sed_command_iff by (rule conjI) (simp, blast, simp)

theorem sed_commands_exact_witness:
  "has_kind File_write (findSedScriptViolations ''s/a/b/; w /tmp/x'')"
proof -
  have "maskLiterals ''s/a/b/; w /tmp/x'' squote = ''s/a/b/;'' @ '' '' @ CHR ''w'' # space_char # ''/tmp/x'' \<and>
      CHR ''w'' \<in> {CHR ''w'', CHR ''W''} \<and> blank space_char \<and> (\<forall>x \<in> set '' ''. blank x) \<and>
      command_position ''s/a/b/;''"
    by code_simp
  with sed_commands_exact [of "''s/a/b/; w /tmp/x''"] show ?thesis by blast
qed

text \<open>The scanners are not complete. The print scanner jumps over the character after the
  keyword, so a redirection written directly after \<open>print\<close> at the start of an action passes;
  it also takes a name that begins with print for the keyword and jumps over the operator
  before it. The sed scanner knows neither an address before a command, nor a missing blank
  after \<open>w\<close>, nor an \<open>e\<close> flag after other flags or other delimiters.\<close>
theorem program_policy_gaps:
  "findAwkProgramViolations (''{print>'' @ dquote # ''/tmp/x'' @ dquote # ''}'') = [] \<and>
   findAwkProgramViolations
     (''BEGIN{printer='' @ dquote # ''/tmp/x'' @ dquote # ''; print 1 >printer}'') = [] \<and>
   findSedScriptViolations ''1w /tmp/x'' = [] \<and> findSedScriptViolations ''w/tmp/x'' = [] \<and>
   findSedScriptViolations ''1e id'' = [] \<and> findSedScriptViolations ''s/a/id/ge'' = [] \<and>
   findSedScriptViolations ''s|a|id|e'' = []"
  by (intro conjI; code_simp)

end
