(* ===== verification/Argument_Policy.thy ===== *)
theory Argument_Policy
  imports Command_Catalog Program_Policy
begin

text \<open>
  \<^verbatim>\<open>web/backend/src/catalog/validation.ts\<close>: the walk over an argument vector that a command's
  schema governs.  The loop body is \<open>argument_step\<close> over the loop's variables
  (\<open>argument_state\<close>), the loop is \<open>argument_walk\<close>, and the path checks run after it, as in the
  code.  An error is the constructor of its message.
\<close>

datatype argument_error =
    Command_blocked probe_reason
  | Command_unavailable probe_reason
  | Argument_too_long nat nat
  | Argument_has_nul
  | Unknown_flag string
  | Too_many_positionals nat nat
  | Not_decimal string
  | Out_of_range nat nat nat
  | Not_a_mode string
  | Program_refused program_language program_violation
  | Path_refused string nat policy_error

definition assertIntegerInRange :: "string \<Rightarrow> nat \<times> nat \<Rightarrow> argument_error + unit" where
  "assertIntegerInRange value bounds =
     (if \<not> plain_digits 10 value then Inl (Not_decimal value)
      else
        (let n = decimal_value value in
         if n < fst bounds \<or> n > snd bounds then Inl (Out_of_range n (fst bounds) (snd bounds))
         else Inr ()))"

definition takesValue :: "argument_schema \<Rightarrow> string \<Rightarrow> bool" where
  "takesValue s flag \<longleftrightarrow>
     flag \<in> set (case asValueFlags s of None \<Rightarrow> [] | Some vs \<Rightarrow> vs)"

definition looksLikePath :: "string \<Rightarrow> bool" where
  "looksLikePath v \<longleftrightarrow>
     prefix ''/'' v \<or> prefix ''./'' v \<or> prefix ''../'' v \<or> v = ''..'' \<or> v = ''.''"

definition assertProgramOperand :: "program_language \<Rightarrow> string \<Rightarrow> argument_error + unit" where
  "assertProgramOperand language program =
     (case (if language = Awk then findAwkProgramViolations program
            else findSedScriptViolations program) of
        [] \<Rightarrow> Inr ()
      | first # _ \<Rightarrow> Inl (Program_refused language first))"

section \<open>The walk\<close>

record argument_state =
  stPending :: bool
  stPositional :: nat
  stPositionalSeen :: nat
  stLeadingChoice :: "string option"
  stPathsToCheck :: "(nat \<times> string \<times> bool) list"

definition initial_state :: argument_state where
  "initial_state =
     \<lparr>stPending = False, stPositional = 0, stPositionalSeen = 0, stLeadingChoice = None,
      stPathsToCheck = []\<rparr>"

text \<open>The value glued to a short flag, bounded as the separated form would be.\<close>

definition glued_value :: "argument_schema \<Rightarrow> string \<Rightarrow> argument_error + unit" where
  "glued_value s glued =
     (case asPositionalIntegers s of
        Some b \<Rightarrow> assertIntegerInRange glued b
      | None \<Rightarrow>
          (case asNumericCount s of
             Some (_, lo, hi) \<Rightarrow>
               if plain_digits 10 glued then assertIntegerInRange glued (lo, hi) else Inr ()
           | None \<Rightarrow> Inr ()))"

text \<open>The characters of a short cluster; the result says whether the next token is a value.\<close>

fun short_cluster :: "argument_schema \<Rightarrow> string \<Rightarrow> string \<Rightarrow> argument_error + bool" where
  "short_cluster s arg [] = Inr False"
| "short_cluster s arg (c # cs) =
     (let flag = [CHR ''-'', c] in
      if flag \<notin> set (asFlags s) then Inl (Unknown_flag arg)
      else if takesValue s flag
      then (if cs \<noteq> []
            then (case glued_value s cs of Inl e \<Rightarrow> Inl e | Inr _ \<Rightarrow> Inr False)
            else Inr True)
      else short_cluster s arg cs)"

definition flag_step :: "argument_schema \<Rightarrow> string \<Rightarrow> argument_error + bool" where
  "flag_step s arg =
     (case asNumericCount s of
        Some (_, lo, hi) \<Rightarrow>
          if plain_digits 10 (tl arg)
          then (case assertIntegerInRange (tl arg) (lo, hi) of Inl e \<Rightarrow> Inl e | Inr _ \<Rightarrow> Inr False)
          else if prefix ''--'' arg
          then (if arg \<in> set (asFlags s) then Inr False else Inl (Unknown_flag arg))
          else if arg \<in> set (asFlags s) then Inr (takesValue s arg)
          else short_cluster s arg (tl arg)
      | None \<Rightarrow>
          if prefix ''--'' arg
          then (if arg \<in> set (asFlags s) then Inr False else Inl (Unknown_flag arg))
          else if arg \<in> set (asFlags s) then Inr (takesValue s arg)
          else short_cluster s arg (tl arg))"

definition mode_step ::
    "argument_schema \<Rightarrow> string \<Rightarrow> nat \<Rightarrow> string option \<Rightarrow> argument_error + string option" where
  "mode_step s arg positional leadingChoice =
     (if positional = 1 \<and> asLeadingChoices s \<noteq> None
      then (if arg \<notin> set (the (asLeadingChoices s)) then Inl (Not_a_mode arg) else Inr (Some arg))
      else if positional = 2 \<and> leadingChoice \<noteq> None \<and> asChoiceIntegers s \<noteq> None
      then (case the (asChoiceIntegers s) of (modes, lo, hi) \<Rightarrow>
              if the leadingChoice \<in> set modes
              then (case assertIntegerInRange arg (lo, hi) of
                      Inl e \<Rightarrow> Inl e | Inr _ \<Rightarrow> Inr leadingChoice)
              else Inr leadingChoice)
      else Inr leadingChoice)"

definition positional_step ::
    "argument_schema \<Rightarrow> nat \<Rightarrow> string \<Rightarrow> argument_state \<Rightarrow> argument_error + argument_state" where
  "positional_step s i arg st =
     (let positional = stPositional st + 1 in
      if positional > asMaxPositional s
      then Inl (Too_many_positionals (asMaxPositional s) positional)
      else
        (case (case asPositionalIntegers s of
                 Some b \<Rightarrow> assertIntegerInRange arg b | None \<Rightarrow> Inr ()) of
           Inl e \<Rightarrow> Inl e
         | Inr _ \<Rightarrow>
             (case mode_step s arg positional (stLeadingChoice st) of
                Inl e \<Rightarrow> Inl e
              | Inr choice \<Rightarrow>
                  (let leadingPatterns = (case asLeadingPatterns s of None \<Rightarrow> 0 | Some n \<Rightarrow> n);
                       isLeadingPattern =
                         stPositionalSeen st < leadingPatterns \<and> \<not> looksLikePath arg;
                       seen = stPositionalSeen st + 1 in
                   case (case asProgramOperand s of
                           Some language \<Rightarrow>
                             if seen = 1 then assertProgramOperand language arg else Inr ()
                         | None \<Rightarrow> Inr ()) of
                     Inl e \<Rightarrow> Inl e
                   | Inr _ \<Rightarrow>
                       Inr (st \<lparr>stPositional := positional, stPositionalSeen := seen,
                                stLeadingChoice := choice,
                                stPathsToCheck := stPathsToCheck st @
                                  [(i, arg, asPositionalArePaths s \<and> \<not> isLeadingPattern)]\<rparr>)))))"

definition flag_like :: "string \<Rightarrow> bool" where
  "flag_like arg \<longleftrightarrow> prefix ''-'' arg \<and> arg \<noteq> ''-''"

definition argument_step ::
    "argument_schema \<Rightarrow> nat \<Rightarrow> string \<Rightarrow> argument_state \<Rightarrow> argument_error + argument_state" where
  "argument_step s i arg st =
     (if length arg > asMaxArgumentBytes s
      then Inl (Argument_too_long (length arg) (asMaxArgumentBytes s))
      else if CHR 0x00 \<in> set arg then Inl Argument_has_nul
      else if stPending st
      then
        (case (case asPositionalIntegers s of
                 Some b \<Rightarrow> assertIntegerInRange arg b | None \<Rightarrow> Inr ()) of
           Inl e \<Rightarrow> Inl e
         | Inr _ \<Rightarrow> Inr (st \<lparr>stPending := False\<rparr>))
      else if flag_like arg
      then (case flag_step s arg of
              Inl e \<Rightarrow> Inl e | Inr pending \<Rightarrow> Inr (st \<lparr>stPending := pending\<rparr>))
      else positional_step s i arg st)"

fun argument_walk ::
    "argument_schema \<Rightarrow> nat \<Rightarrow> string list \<Rightarrow> argument_state \<Rightarrow> argument_error + argument_state" where
  "argument_walk s i [] st = Inr st"
| "argument_walk s i (arg # args) st =
     (case argument_step s i arg st of
        Inl e \<Rightarrow> Inl e
      | Inr st' \<Rightarrow> argument_walk s (i + 1) args st')"

fun check_paths :: "fs \<Rightarrow> path \<Rightarrow> (nat \<times> string \<times> bool) list \<Rightarrow> argument_error + unit" where
  "check_paths f workspace [] = Inr ()"
| "check_paths f workspace ((i, v, isPath) # cs) =
     (if \<not> isPath then check_paths f workspace cs
      else
        (case assertReadableFileInWorkspace f workspace v of
           Inl e \<Rightarrow> Inl (Path_refused v (i + 1) e)
         | Inr _ \<Rightarrow> check_paths f workspace cs))"

definition check_arguments ::
    "fs \<Rightarrow> path \<Rightarrow> argument_schema \<Rightarrow> string list \<Rightarrow> argument_error + string list" where
  "check_arguments f workspace s args =
     (case argument_walk s 0 args initial_state of
        Inl e \<Rightarrow> Inl e
      | Inr st \<Rightarrow>
          (case check_paths f workspace (stPathsToCheck st) of
             Inl e \<Rightarrow> Inl e | Inr _ \<Rightarrow> Inr args))"

definition validateArguments ::
    "fs \<Rightarrow> path \<Rightarrow> path \<Rightarrow> string \<Rightarrow> string list \<Rightarrow> probe_cache
      \<Rightarrow> (argument_error + string list) \<times> probe_cache" where
  "validateArguments f repoRoot workspace command args probeCache =
     (let (probed, probeCache') = probeCommand f repoRoot command probeCache in
      (case pcAvailability probed of
         BLOCKED \<Rightarrow> Inl (Command_blocked (pcReason probed))
       | UNAVAILABLE \<Rightarrow> Inl (Command_unavailable (pcReason probed))
       | AVAILABLE \<Rightarrow> check_arguments f workspace (pcSchema probed) args,
       probeCache'))"

section \<open>What the walk promises\<close>

text \<open>The role of each token: a flag, the value of the flag before it, or an operand.\<close>

datatype token_role = Flag_token | Value_token | Operand_token

fun cluster_declared :: "argument_schema \<Rightarrow> string \<Rightarrow> bool" where
  "cluster_declared s [] \<longleftrightarrow> True"
| "cluster_declared s (c # cs) \<longleftrightarrow>
     [CHR ''-'', c] \<in> set (asFlags s) \<and>
     (takesValue s [CHR ''-'', c] \<or> cluster_declared s cs)"

fun cluster_requests :: "argument_schema \<Rightarrow> string \<Rightarrow> bool" where
  "cluster_requests s [] \<longleftrightarrow> False"
| "cluster_requests s (c # cs) \<longleftrightarrow>
     (if takesValue s [CHR ''-'', c] then cs = [] else cluster_requests s cs)"

definition numeric_form :: "argument_schema \<Rightarrow> string \<Rightarrow> bool" where
  "numeric_form s arg \<longleftrightarrow> asNumericCount s \<noteq> None \<and> plain_digits 10 (tl arg)"

definition declared_flag :: "argument_schema \<Rightarrow> string \<Rightarrow> bool" where
  "declared_flag s arg \<longleftrightarrow>
     (if numeric_form s arg
      then (case the (asNumericCount s) of (_, lo, hi) \<Rightarrow>
              lo \<le> decimal_value (tl arg) \<and> decimal_value (tl arg) \<le> hi)
      else arg \<in> set (asFlags s) \<or> (\<not> prefix ''--'' arg \<and> cluster_declared s (tl arg)))"

definition requests_value :: "argument_schema \<Rightarrow> string \<Rightarrow> bool" where
  "requests_value s arg \<longleftrightarrow>
     \<not> numeric_form s arg \<and> \<not> prefix ''--'' arg \<and>
     (if arg \<in> set (asFlags s) then takesValue s arg else cluster_requests s (tl arg))"

fun roles :: "argument_schema \<Rightarrow> bool \<Rightarrow> string list \<Rightarrow> token_role list" where
  "roles s p [] = []"
| "roles s p (t # ts) =
     (if p then Value_token # roles s False ts
      else if flag_like t then Flag_token # roles s (requests_value s t) ts
      else Operand_token # roles s False ts)"

definition operand_rank :: "token_role list \<Rightarrow> nat \<Rightarrow> nat" where
  "operand_rank rs k = length (filter (\<lambda>r. r = Operand_token) (take k rs))"

definition integer_ok :: "argument_schema \<Rightarrow> string \<Rightarrow> bool" where
  "integer_ok s arg \<longleftrightarrow>
     (case asPositionalIntegers s of None \<Rightarrow> True
      | Some (lo, hi) \<Rightarrow> plain_digits 10 arg \<and> lo \<le> decimal_value arg \<and> decimal_value arg \<le> hi)"

definition program_clean :: "argument_schema \<Rightarrow> string \<Rightarrow> bool" where
  "program_clean s arg \<longleftrightarrow>
     (case asProgramOperand s of None \<Rightarrow> True
      | Some Awk \<Rightarrow> findAwkProgramViolations arg = []
      | Some Sed \<Rightarrow> findSedScriptViolations arg = [])"

definition exempt_operand :: "argument_schema \<Rightarrow> nat \<Rightarrow> string \<Rightarrow> bool" where
  "exempt_operand s n arg \<longleftrightarrow>
     n < (case asLeadingPatterns s of None \<Rightarrow> 0 | Some m \<Rightarrow> m) \<and> \<not> looksLikePath arg"

definition token_ok :: "argument_schema \<Rightarrow> token_role \<Rightarrow> nat \<Rightarrow> string \<Rightarrow> bool" where
  "token_ok s r n arg \<longleftrightarrow>
     length arg \<le> asMaxArgumentBytes s \<and> CHR 0x00 \<notin> set arg \<and>
     (case r of
        Flag_token \<Rightarrow> declared_flag s arg
      | Value_token \<Rightarrow> integer_ok s arg
      | Operand_token \<Rightarrow> n < asMaxPositional s \<and> integer_ok s arg \<and>
          (n = 0 \<longrightarrow> program_clean s arg \<and>
             (case asLeadingChoices s of None \<Rightarrow> True | Some cs \<Rightarrow> arg \<in> set cs)))"

lemma length_roles [simp]: "length (roles s p ts) = length ts"
  by (induction s p ts rule: roles.induct) auto

lemma assertInteger_Inr:
  "assertIntegerInRange v b = Inr u \<longleftrightarrow>
     plain_digits 10 v \<and> fst b \<le> decimal_value v \<and> decimal_value v \<le> snd b"
  by (auto simp: assertIntegerInRange_def Let_def)

lemma integer_ok_iff:
  "(case asPositionalIntegers s of Some b \<Rightarrow> assertIntegerInRange v b | None \<Rightarrow> Inr ()) = Inr u
     \<longleftrightarrow> integer_ok s v"
  by (auto simp: integer_ok_def assertInteger_Inr split: option.split)

lemma short_cluster_Inr:
  "short_cluster s arg cs = Inr b \<Longrightarrow> cluster_declared s cs \<and> b = cluster_requests s cs"
  by (induction s arg cs rule: short_cluster.induct) (auto simp: Let_def split: if_splits sum.splits)

lemma flag_step_Inr:
  "flag_step s arg = Inr b \<Longrightarrow> declared_flag s arg \<and> b = requests_value s arg"
  by (auto simp: flag_step_def declared_flag_def requests_value_def numeric_form_def
      assertInteger_Inr dest: short_cluster_Inr split: option.splits if_splits sum.splits)

lemma program_ok_iff:
  "(case asProgramOperand s of Some l \<Rightarrow> assertProgramOperand l arg | None \<Rightarrow> Inr ()) = Inr u
     \<longleftrightarrow> program_clean s arg"
  by (auto simp: assertProgramOperand_def program_clean_def
      split: option.split list.split program_language.split)

lemma mode_step_first: "mode_step s arg 1 c = Inr c' \<Longrightarrow>
    (case asLeadingChoices s of None \<Rightarrow> True | Some cs \<Rightarrow> arg \<in> set cs)"
  by (auto simp: mode_step_def split: if_splits option.splits)

lemma positional_step_Inr:
  assumes "positional_step s i arg st = Inr st'" and "stPositionalSeen st = stPositional st"
  shows "stPositional st' = stPositional st + 1 \<and> stPositionalSeen st' = stPositional st' \<and>
    stPending st' = stPending st \<and>
    stPathsToCheck st' = stPathsToCheck st @
      [(i, arg, asPositionalArePaths s \<and> \<not> exempt_operand s (stPositional st) arg)] \<and>
    stPositional st < asMaxPositional s \<and> integer_ok s arg \<and>
    (stPositional st = 0 \<longrightarrow> program_clean s arg \<and>
       (case asLeadingChoices s of None \<Rightarrow> True | Some cs \<Rightarrow> arg \<in> set cs))"
proof -
  obtain u c where "\<not> stPositional st + 1 > asMaxPositional s"
      and i: "(case asPositionalIntegers s of Some b \<Rightarrow> assertIntegerInRange arg b | None \<Rightarrow> Inr ()) = Inr u"
      and m: "mode_step s arg (stPositional st + 1) (stLeadingChoice st) = Inr c"
    using assms(1) unfolding positional_step_def Let_def
    by (auto split: if_splits sum.splits)
  moreover from this assms obtain u' where
     pr: "(case asProgramOperand s of Some l \<Rightarrow> if stPositionalSeen st + 1 = 1 then assertProgramOperand l arg else Inr ()
        | None \<Rightarrow> Inr ()) = Inr u'"
     and st': "st' = st \<lparr>stPositional := stPositional st + 1, stPositionalSeen := stPositionalSeen st + 1,
                stLeadingChoice := c, stPathsToCheck := stPathsToCheck st @
                  [(i, arg, asPositionalArePaths s \<and> \<not> (stPositionalSeen st <
                    (case asLeadingPatterns s of None \<Rightarrow> 0 | Some n \<Rightarrow> n) \<and> \<not> looksLikePath arg))]\<rparr>"
    unfolding positional_step_def Let_def by (auto split: sum.splits)
  moreover have "integer_ok s arg" using i by (simp add: integer_ok_iff)
  moreover have "program_clean s arg" if "stPositional st = 0"
    using pr assms(2) that program_ok_iff [where s = s and arg = arg] by (cases "asProgramOperand s") simp_all
  moreover have "case asLeadingChoices s of None \<Rightarrow> True | Some cs \<Rightarrow> arg \<in> set cs" if "stPositional st = 0"
    using m that mode_step_first [of s arg] by simp
  ultimately show ?thesis
    using assms(2) by (simp add: exempt_operand_def)
qed

lemma argument_step_Inr:
  assumes "argument_step s i arg st = Inr st'" and "stPositionalSeen st = stPositional st"
  defines "r \<equiv> hd (roles s (stPending st) [arg])"
  shows "token_ok s r (stPositional st) arg \<and> stPositionalSeen st' = stPositional st' \<and>
    stPositional st' = stPositional st + (if r = Operand_token then 1 else 0) \<and>
    stPending st' = (r = Flag_token \<and> requests_value s arg) \<and>
    stPathsToCheck st' = stPathsToCheck st @
      (if r = Operand_token
       then [(i, arg, asPositionalArePaths s \<and> \<not> exempt_operand s (stPositional st) arg)] else [])"
proof -
  have size: "length arg \<le> asMaxArgumentBytes s \<and> CHR 0x00 \<notin> set arg"
    using assms(1) by (auto simp: argument_step_def split: if_splits)
  show ?thesis
  proof (cases "stPending st")
    case True
    then obtain u where "(case asPositionalIntegers s of Some b \<Rightarrow> assertIntegerInRange arg b | None \<Rightarrow> Inr ()) = Inr u"
        and st': "st' = st \<lparr>stPending := False\<rparr>"
      using assms(1) size by (auto simp: argument_step_def split: sum.splits)
    then have "integer_ok s arg" by (simp add: integer_ok_iff)
    with True size st' assms(2) show ?thesis by (simp add: r_def token_ok_def)
  next
    case False
    note nonpending = False
    show ?thesis
    proof (cases "flag_like arg")
      case True
      then obtain b where b: "flag_step s arg = Inr b" and st': "st' = st \<lparr>stPending := b\<rparr>"
        using assms(1) size False by (auto simp: argument_step_def split: sum.splits)
      from flag_step_Inr [OF b] True False size st' assms(2) show ?thesis
        by (simp add: r_def token_ok_def)
    next
      case False
      then have "positional_step s i arg st = Inr st'"
        using assms(1) size nonpending by (auto simp: argument_step_def)
      from positional_step_Inr [OF this assms(2)] False nonpending size show ?thesis
        by (simp add: r_def token_ok_def)
    qed
  qed
qed

lemma operand_rank_simps [simp]:
  "operand_rank rs 0 = 0"
  "operand_rank (r # rs) (Suc k) = (if r = Operand_token then 1 else 0) + operand_rank rs k"
  by (simp_all add: operand_rank_def)

lemma argument_walk_Inr:
  assumes "argument_walk s i args st = Inr st'" and "stPositionalSeen st = stPositional st"
  defines "rs \<equiv> roles s (stPending st) args"
  shows "set (stPathsToCheck st) \<subseteq> set (stPathsToCheck st') \<and>
    (\<forall>k < length args.
       token_ok s (rs ! k) (stPositional st + operand_rank rs k) (args ! k) \<and>
       (rs ! k = Operand_token \<longrightarrow>
          (i + k, args ! k, asPositionalArePaths s \<and>
             \<not> exempt_operand s (stPositional st + operand_rank rs k) (args ! k))
            \<in> set (stPathsToCheck st')))"
  using assms(1,2) unfolding rs_def
proof (induction args arbitrary: i st)
  case Nil
  then show ?case by simp
next
  case (Cons arg args)
  then obtain st1 where step: "argument_step s i arg st = Inr st1"
      and walk: "argument_walk s (i + 1) args st1 = Inr st'"
    by (auto split: sum.splits)
  note one = argument_step_Inr [OF step Cons.prems(2)]
  then have "stPositionalSeen st1 = stPositional st1" by blast
  note rest = Cons.IH [OF walk this]
  define r where "r = hd (roles s (stPending st) [arg])"
  have "roles s (stPending st) (arg # args) = r # roles s (stPending st1) args"
    using one by (simp add: r_def)
  then show ?case
    using one rest unfolding r_def [symmetric]
    by (simp add: All_less_Suc2 add.assoc del: roles.simps) auto
qed

lemma check_paths_Inr:
  "check_paths f ws cs = Inr u \<Longrightarrow> (i, v, True) \<in> set cs \<Longrightarrow> assertReadableFileInWorkspace f ws v = Inr ()"
  by (induction f ws cs rule: check_paths.induct) (auto split: if_splits sum.splits)

lemma check_arguments_Inr:
  assumes "check_arguments f ws s args = Inr args'"
  defines "rs \<equiv> roles s False args"
  shows "args' = args \<and>
    (\<forall>k < length args. token_ok s (rs ! k) (operand_rank rs k) (args ! k) \<and>
       (rs ! k = Operand_token \<and> asPositionalArePaths s \<and>
        \<not> exempt_operand s (operand_rank rs k) (args ! k) \<longrightarrow>
          assertReadableFileInWorkspace f ws (args ! k) = Inr ()))"
proof -
  obtain st u where walk: "argument_walk s 0 args initial_state = Inr st"
      and paths: "check_paths f ws (stPathsToCheck st) = Inr u" and "args' = args"
    using assms(1) by (auto simp: check_arguments_def split: sum.splits)
  have init: "stPositionalSeen initial_state = stPositional initial_state"
    "stPending initial_state = False" "stPositional initial_state = 0"
    by (simp_all add: initial_state_def)
  show ?thesis
    using argument_walk_Inr [OF walk init(1)] check_paths_Inr [OF paths] \<open>args' = args\<close>
    unfolding init rs_def by auto
qed

section \<open>Properties\<close>

text \<open>Every token of an accepted request was checked for what it is. The command is declared and
  available, the vector is returned unchanged, no token is over-long or holds a NUL, a flag is
  one the schema declares (verbatim, as a cluster of declared letters, or as a bounded count), a
  value or operand of an integer command is a bounded integer, the operands do not exceed their
  maximum, and the first operand of a program command is a program without a violation.\<close>
theorem accepted_tokens_checked:
  assumes "validateArguments f repoRoot workspace command args c = (Inr args', c')"
  defines "probed \<equiv> fst (probeCommand f repoRoot command c)"
  defines "rs \<equiv> roles (pcSchema probed) False args"
  shows "pcAvailability probed = AVAILABLE \<and> args' = args \<and>
    (\<forall>k < length args. token_ok (pcSchema probed) (rs ! k) (operand_rank rs k) (args ! k))"
proof -
  have "pcAvailability probed = AVAILABLE \<and>
      check_arguments f workspace (pcSchema probed) args = Inr args'"
    using assms(1) unfolding probed_def validateArguments_def
    by (auto split: prod.splits availability.splits)
  then show ?thesis
    using check_arguments_Inr [of f workspace "pcSchema probed" args args'] unfolding rs_def by blast
qed

lemma sample_accepts_wc:
  "validateArguments sample_bin [] [''ws''] ''wc'' [''-lw'', ''a''] Map.empty =
     (Inr [''-lw'', ''a''], snd (probeCommand sample_bin [] ''wc'' Map.empty))"
  "asPositionalArePaths (pcSchema (fst (probeCommand sample_bin [] ''wc'' Map.empty)))"
  "roles (pcSchema (fst (probeCommand sample_bin [] ''wc'' Map.empty))) False [''-lw'', ''a''] =
     [Flag_token, Operand_token]"
  by (simp_all add: validateArguments_def catalog_eval sample_bin_def check_arguments_def
      argument_step_def initial_state_def flag_like_def flag_step_def takesValue_def
      positional_step_def mode_step_def assertReadableFileInWorkspace_def isSafeRedirTarget_def
      js_trim_def trim_start_def trim_end_def js_space_def control_char_def path_separator_def
      requests_value_def numeric_form_def)

theorem accepted_tokens_checked_witness:
  "token_ok (pcSchema (fst (probeCommand sample_bin [] ''wc'' Map.empty))) Flag_token 0 ''-lw''"
  using accepted_tokens_checked [OF sample_accepts_wc(1)] sample_accepts_wc(3)
  by (auto simp: operand_rank_def dest: spec [of _ 0])

text \<open>C12: No operand of a confined command escapes the path policy: every operand that is not an
  exempt leading pattern is a regular file in the workspace.\<close>
theorem accepted_operands_confined:
  assumes "validateArguments f repoRoot workspace command args c = (Inr args', c')"
  defines "probed \<equiv> fst (probeCommand f repoRoot command c)"
  defines "rs \<equiv> roles (pcSchema probed) False args"
  assumes "asPositionalArePaths (pcSchema probed)" and "k < length args" and "rs ! k = Operand_token"
    and "\<not> exempt_operand (pcSchema probed) (operand_rank rs k) (args ! k)"
  shows "assertReadableFileInWorkspace f workspace (args ! k) = Inr ()"
proof -
  have "check_arguments f workspace (pcSchema probed) args = Inr args'"
    using assms(1) unfolding probed_def validateArguments_def
    by (auto split: prod.splits availability.splits)
  from check_arguments_Inr [OF this] assms(4-7) show ?thesis
    unfolding rs_def by blast
qed

theorem accepted_operands_confined_witness:
  "assertReadableFileInWorkspace sample_bin [''ws''] ''a'' = Inr ()"
proof -
  have "asLeadingPatterns (pcSchema (fst (probeCommand sample_bin [] ''wc'' Map.empty))) = None"
    by (simp add: catalog_eval sample_bin_def)
  with accepted_operands_confined [OF sample_accepts_wc(1,2), of 1] sample_accepts_wc(3)
  show ?thesis by (simp add: exempt_operand_def)
qed

text \<open>A command outside the registry never runs: it is refused as blocked before any of its
  arguments is looked at, whatever the file system holds, and no executable is resolved.\<close>
theorem undeclared_command_refused:
  assumes "commandDefinition command = None" and "\<not> isWorkloadId command"
  shows "validateArguments f repoRoot workspace command args c =
      (Inl (Command_blocked Not_on_allowlist), c) \<and>
    resolveAllowedExecutable f repoRoot command c = (Inl Not_on_allowlist, c)"
  using assms by (simp add: validateArguments_def probeCommand_def resolveAllowedExecutable_def)

theorem undeclared_command_refused_witness:
  "fst (validateArguments sample_bin [] [] ''bash'' [] Map.empty) = Inl (Command_blocked Not_on_allowlist)"
proof -
  have "commandDefinition ''bash'' = None" and "\<not> isWorkloadId ''bash''"
    by (simp_all add: catalog_eval)
  from undeclared_command_refused [OF this] show ?thesis by simp
qed

text \<open>Requests that the checks are documented to refuse and that the registry's schemas accept,
  whatever the workspace holds: a count given as a separate value is never bounded, a leading
  operand such as a directory followed by parent steps is exempt from the path policy, a sed
  script given with \<open>-e\<close> is not scanned, a mutating verb of \<open>ip\<close> is an ordinary operand,
  and the file that \<open>date -r\<close> reads is not a workspace file.\<close>
theorem argument_policy_gaps:
  "map_option (\<lambda>d. check_arguments f w (cdSchema d) [''-c'', ''100000000000''])
     (commandDefinition ''head'') = Some (Inr [''-c'', ''100000000000'']) \<and>
   map_option (\<lambda>d. check_arguments f w (cdSchema d) [''d/../../etc/passwd''])
     (commandDefinition ''head'') = Some (Inr [''d/../../etc/passwd'']) \<and>
   map_option (\<lambda>d. check_arguments f w (cdSchema d) [''-e'', ''w /tmp/x''])
     (commandDefinition ''sed'') = Some (Inr [''-e'', ''w /tmp/x'']) \<and>
   map_option (\<lambda>d. check_arguments f w (cdSchema d) [''route'', ''add''])
     (commandDefinition ''ip'') = Some (Inr [''route'', ''add'']) \<and>
   map_option (\<lambda>d. check_arguments f w (cdSchema d) [''-r'', ''/etc/shadow''])
     (commandDefinition ''date'') = Some (Inr [''-r'', ''/etc/shadow''])"
  by (intro conjI; simp add: catalog_eval check_arguments_def argument_step_def initial_state_def
      flag_like_def flag_step_def takesValue_def positional_step_def mode_step_def
      looksLikePath_def plain_digits_def is_digit_def)

end
