(* ===== verification/Terminal_Grammar.thy ===== *)
theory Terminal_Grammar
  imports Engine_Lexer Argument_Policy
begin

text \<open>
  \<^verbatim>\<open>web/backend/src/terminal/grammar.ts\<close>: a command line typed in the browser is lexed by the
  engine (\<^verbatim>\<open>caps --inspect\<close>), every stage is validated, and the line is rebuilt with the verified
  paths for \<^verbatim>\<open>caps --run-line\<close>.  What the engine's process answers is the argument
  \<open>ask\<close>: a document, an exit with code 2 and a reason, or any other failure (a timeout, a missing
  binary, too much output, a NUL that no argument vector can carry).  \<open>inspect_line_mode\<close> of
  \<^verbatim>\<open>src/main.c\<close> says which documents a working engine sends.
\<close>

section \<open>The engine's view of a line\<close>

record inspected_redirection =
  irOp :: string
  irFd :: nat
  irTarget :: string

record inspected_stage =
  isIndex :: nat
  isArgv :: "string list"
  isRedirections :: "inspected_redirection list"
  isStdinSource :: string
  isStdoutDest :: string

definition inspected_redirection_of :: "redirection \<Rightarrow> inspected_redirection" where
  "inspected_redirection_of r =
     \<lparr>irOp = redir_text (rdType r), irFd = rdTargetFd r, irTarget = rdPath r\<rparr>"

definition inspected_stage_of :: "nat \<times> engine_stage \<Rightarrow> inspected_stage" where
  "inspected_stage_of st =
     (case st of (i, e) \<Rightarrow>
        \<lparr>isIndex = i, isArgv = esArgv e,
         isRedirections = map inspected_redirection_of (esRedirs e),
         isStdinSource = esStdinSource e, isStdoutDest = esStdoutDest e\<rparr>)"

definition inspect_line_mode :: "string \<Rightarrow> lex_error + inspected_stage list" where
  "inspect_line_mode line =
     (case parser_parse_pipeline line of
        Inl e \<Rightarrow> Inl e
      | Inr stages \<Rightarrow> Inr (map inspected_stage_of (enumerate 0 stages)))"

datatype engine_reply =
    Reply_document "inspected_stage list" | Reply_unreadable
  | Reply_exit_two string | Reply_failed string

datatype terminal_error =
    Line_over_limit | Not_parseable string | Engine_not_asked string | Response_unreadable
  | No_stages
  | No_command nat | Names_a_path nat string | Stage_blocked nat probe_reason
  | Stage_unavailable nat string probe_reason | Stage_arguments nat string argument_error
  | Stage_redirection nat string policy_error

definition inspectCommandLine ::
    "(string \<Rightarrow> engine_reply) \<Rightarrow> string \<Rightarrow> terminal_error + inspected_stage list" where
  "inspectCommandLine ask line =
     (case ask line of
        Reply_exit_two stderr \<Rightarrow> Inl (Not_parseable (js_trim stderr))
      | Reply_failed stderr \<Rightarrow> Inl (Engine_not_asked (js_trim stderr))
      | Reply_unreadable \<Rightarrow> Inl Response_unreadable
      | Reply_document stages \<Rightarrow> if stages = [] then Inl No_stages else Inr stages)"

section \<open>Validation\<close>

record validated_stage = inspected_stage +
  vsCommand :: string
  vsExecutablePath :: path
  vsResolutionNote :: probe_reason

record validated_pipeline =
  vpCommandLine :: string
  vpStages :: "validated_stage list"
  vpTimeoutMs :: nat
  vpMaxOutputBytes :: nat

fun check_redirections ::
    "fs \<Rightarrow> path \<Rightarrow> nat \<Rightarrow> inspected_redirection list \<Rightarrow> terminal_error + unit" where
  "check_redirections f workspace i [] = Inr ()"
| "check_redirections f workspace i (redir # redirs) =
     (case assertTargetInWorkspace f workspace (irTarget redir) of
        Inl e \<Rightarrow> Inl (Stage_redirection i (irTarget redir) e)
      | Inr _ \<Rightarrow> check_redirections f workspace i redirs)"

text \<open>The body of the loop over the stages: the stage validated, and what the command declares.\<close>

definition validate_stage ::
    "fs \<Rightarrow> path \<Rightarrow> path \<Rightarrow> inspected_stage \<Rightarrow> probe_cache
      \<Rightarrow> (terminal_error + validated_stage \<times> probed_command) \<times> probe_cache" where
  "validate_stage f repoRoot workspace stage probeCache =
     (if isArgv stage = [] \<or> hd (isArgv stage) = [] then (Inl (No_command (isIndex stage)), probeCache)
      else if slash \<in> set (hd (isArgv stage))
      then (Inl (Names_a_path (isIndex stage) (hd (isArgv stage))), probeCache)
      else
        (let command = hd (isArgv stage);
             (probed, probeCache') = probeCommand f repoRoot command probeCache in
         if pcAvailability probed = BLOCKED
         then (Inl (Stage_blocked (isIndex stage) (pcReason probed)), probeCache')
         else if pcAvailability probed = UNAVAILABLE \<or> pcResolvedPath probed = None
         then (Inl (Stage_unavailable (isIndex stage) command (pcReason probed)), probeCache')
         else
           (let (checked, probeCache'') =
                  validateArguments f repoRoot workspace command (tl (isArgv stage)) probeCache' in
            (case checked of
               Inl e \<Rightarrow> Inl (Stage_arguments (isIndex stage) command e)
             | Inr _ \<Rightarrow>
                 (case check_redirections f workspace (isIndex stage) (isRedirections stage) of
                    Inl e \<Rightarrow> Inl e
                  | Inr _ \<Rightarrow>
                      Inr (inspected_stage.extend stage
                             (validated_stage.fields command (the (pcResolvedPath probed))
                                (pcReason probed)),
                           probed)),
             probeCache''))))"

fun validate_stages ::
    "fs \<Rightarrow> path \<Rightarrow> path \<Rightarrow> inspected_stage list \<Rightarrow> validated_stage list \<Rightarrow> nat \<Rightarrow> nat \<Rightarrow> probe_cache
      \<Rightarrow> (terminal_error + validated_stage list \<times> nat \<times> nat) \<times> probe_cache" where
  "validate_stages f repoRoot workspace [] validated timeoutMs maxOutputBytes probeCache =
     (Inr (validated, timeoutMs, maxOutputBytes), probeCache)"
| "validate_stages f repoRoot workspace (stage # stages) validated timeoutMs maxOutputBytes
       probeCache =
     (case validate_stage f repoRoot workspace stage probeCache of
        (Inl e, probeCache') \<Rightarrow> (Inl e, probeCache')
      | (Inr (v, probed), probeCache') \<Rightarrow>
          validate_stages f repoRoot workspace stages (validated @ [v])
            (max timeoutMs (pcTimeoutMs probed)) (max maxOutputBytes (pcMaxOutputBytes probed))
            probeCache')"

definition validateCommandLine ::
    "fs \<Rightarrow> path \<Rightarrow> path \<Rightarrow> (string \<Rightarrow> engine_reply) \<Rightarrow> string \<Rightarrow> probe_cache
      \<Rightarrow> (terminal_error + validated_pipeline) \<times> probe_cache" where
  "validateCommandLine f repoRoot workspace ask line probeCache =
     (if length line > 65536 then (Inl Line_over_limit, probeCache)
      else
        (case inspectCommandLine ask line of
           Inl e \<Rightarrow> (Inl e, probeCache)
         | Inr stages \<Rightarrow>
             (case validate_stages f repoRoot workspace stages [] 0 0 probeCache of
                (Inl e, probeCache') \<Rightarrow> (Inl e, probeCache')
              | (Inr (validated, timeoutMs, maxOutputBytes), probeCache') \<Rightarrow>
                  (Inr \<lparr>vpCommandLine = line, vpStages = validated, vpTimeoutMs = timeoutMs,
                        vpMaxOutputBytes = maxOutputBytes\<rparr>,
                   probeCache'))))"

section \<open>The line the engine runs\<close>

definition plain_char :: "char \<Rightarrow> bool" where
  "plain_char c \<longleftrightarrow>
     c \<in> set (''ABCDEFGHIJKLMNOPQRSTUVWXYZ'' @ ''abcdefghijklmnopqrstuvwxyz'' @ ''0123456789'' @
              ''_@%+=:,./-'')"

definition escaped :: "char \<Rightarrow> string" where
  "escaped c =
     (if c \<in> {ch_backslash, ch_dquote, CHR ''$'', ch_bquote} then [ch_backslash, c] else [c])"

definition quoteForLexer :: "string \<Rightarrow> string" where
  "quoteForLexer token =
     (if token = [] then [ch_dquote, ch_dquote]
      else if \<forall>c \<in> set token. plain_char c then token
      else [ch_dquote] @ concat (map escaped token) @ [ch_dquote])"

definition resolved_stage :: "validated_stage \<Rightarrow> string" where
  "resolved_stage stage =
     join_with '' ''
       (quoteForLexer (path_text (vsExecutablePath stage)) #
        map quoteForLexer (tl (isArgv stage)) @
        concat (map (\<lambda>redir. [irOp redir, quoteForLexer (irTarget redir)])
          (isRedirections stage)))"

definition buildResolvedLine :: "validated_pipeline \<Rightarrow> string" where
  "buildResolvedLine pipeline = join_with '' | '' (map resolved_stage (vpStages pipeline))"

section \<open>What validation establishes of a stage\<close>

abbreviation declared_command :: "fs \<Rightarrow> path \<Rightarrow> string \<Rightarrow> probed_command" where
  "declared_command f repoRoot command \<equiv> fst (probeCommand f repoRoot command Map.empty)"

lemma probe_declares:
  "pcSchema (fst (probeCommand f r n c)) = pcSchema (declared_command f r n)"
  "pcTimeoutMs (fst (probeCommand f r n c)) = pcTimeoutMs (declared_command f r n)"
  "pcMaxOutputBytes (fst (probeCommand f r n c)) = pcMaxOutputBytes (declared_command f r n)"
  by (simp_all add: probeCommand_def probed_from_def case_prod_unfold Let_def
      split: option.split sum.split)

definition stage_checked :: "fs \<Rightarrow> path \<Rightarrow> path \<Rightarrow> validated_stage \<Rightarrow> bool" where
  "stage_checked f repoRoot workspace v \<longleftrightarrow>
     isArgv v \<noteq> [] \<and> vsCommand v = hd (isArgv v) \<and> vsCommand v \<noteq> [] \<and> slash \<notin> set (vsCommand v) \<and>
     check_arguments f workspace (pcSchema (declared_command f repoRoot (vsCommand v))) (tl (isArgv v)) =
       Inr (tl (isArgv v)) \<and>
     (\<forall>r \<in> set (isRedirections v). assertTargetInWorkspace f workspace (irTarget r) = Inr ())"

lemma check_redirections_Inr:
  "check_redirections f ws i rs = Inr u \<Longrightarrow>
     r \<in> set rs \<Longrightarrow> assertTargetInWorkspace f ws (irTarget r) = Inr ()"
  by (induction f ws i rs rule: check_redirections.induct) (auto split: sum.splits)

lemma check_arguments_same: "check_arguments f ws s args = Inr out \<Longrightarrow> out = args"
  by (auto simp: check_arguments_def split: sum.splits)

lemma validate_stage_Inr:
  assumes "validate_stage f repoRoot ws st c = (Inr (v, probed), c')"
  shows "inspected_stage.truncate v = st \<and> stage_checked f repoRoot ws v \<and>
    pcTimeoutMs probed = pcTimeoutMs (declared_command f repoRoot (vsCommand v)) \<and>
    pcMaxOutputBytes probed = pcMaxOutputBytes (declared_command f repoRoot (vsCommand v)) \<and>
    (cache_sound f c \<longrightarrow> cache_sound f c' \<and> verified_path f repoRoot (vsCommand v) (vsExecutablePath v))"
proof -
  let ?command = "hd (isArgv st)"
  obtain probed' c1 where probe: "probeCommand f repoRoot ?command c = (probed', c1)" by fastforce
  obtain checked c2 where args: "validateArguments f repoRoot ws ?command (tl (isArgv st)) c1 = (checked, c2)"
    by fastforce
  have shape: "isArgv st \<noteq> []" "?command \<noteq> []" "slash \<notin> set ?command"
    using assms by (auto simp: validate_stage_def split: if_splits)
  have open_gate: "pcAvailability probed' \<noteq> BLOCKED" "pcAvailability probed' \<noteq> UNAVAILABLE"
      "pcResolvedPath probed' \<noteq> None"
    using assms probe shape by (auto simp: validate_stage_def Let_def split: if_splits)
  obtain out where out: "checked = Inr out"
    using assms probe args shape open_gate
    by (cases checked) (auto simp: validate_stage_def Let_def)
  have redirs: "check_redirections f ws (isIndex st) (isRedirections st) = Inr ()"
    using assms probe args shape open_gate out
    by (auto simp: validate_stage_def Let_def split: sum.splits)
  have result: "v = inspected_stage.extend st (validated_stage.fields ?command
             (the (pcResolvedPath probed')) (pcReason probed'))" "probed = probed'" "c' = c2"
    using assms probe args shape open_gate out redirs
    by (auto simp: validate_stage_def Let_def)
  then have fields: "isArgv v = isArgv st" "isRedirections v = isRedirections st"
      "vsCommand v = ?command" "vsExecutablePath v = the (pcResolvedPath probed')"
      "inspected_stage.truncate v = st"
    by (simp_all add: inspected_stage.defs validated_stage.defs)
  have available: "pcAvailability probed' = AVAILABLE"
    using open_gate by (cases "pcAvailability probed'") simp_all
  obtain probed2 where probe2: "probeCommand f repoRoot ?command c1 = (probed2, c2)"
      and "check_arguments f ws (pcSchema probed2) (tl (isArgv st)) = Inr out"
    using args out by (auto simp: validateArguments_def split: prod.splits availability.splits)
  then have checked: "check_arguments f ws (pcSchema (declared_command f repoRoot ?command)) (tl (isArgv st)) =
      Inr (tl (isArgv st))"
    using check_arguments_same probe_declares(1) [of f repoRoot ?command c1] by fastforce
  have "cache_sound f c2 \<and> verified_path f repoRoot ?command (the (pcResolvedPath probed'))"
    if "cache_sound f c"
    using probeCommand_sound [OF that probe] probeCommand_sound [OF _ probe2] available open_gate(3)
    by auto
  then show ?thesis
    using fields result(2,3) shape checked check_redirections_Inr [OF redirs] probe
      probe_declares(2,3) [of f repoRoot ?command c]
    by (auto simp: stage_checked_def)
qed

lemma validate_stages_Inr:
  assumes "validate_stages f repoRoot ws sts acc t m c = (Inr (vs, t', m'), c')"
  shows "\<exists>new. vs = acc @ new \<and> map inspected_stage.truncate new = sts \<and>
    (\<forall>v \<in> set new. stage_checked f repoRoot ws v) \<and>
    t' = fold max (map (\<lambda>v. pcTimeoutMs (declared_command f repoRoot (vsCommand v))) new) t \<and>
    m' = fold max (map (\<lambda>v. pcMaxOutputBytes (declared_command f repoRoot (vsCommand v))) new) m \<and>
    (cache_sound f c \<longrightarrow> cache_sound f c' \<and>
       (\<forall>v \<in> set new. verified_path f repoRoot (vsCommand v) (vsExecutablePath v)))"
  using assms
proof (induction sts arbitrary: acc t m c)
  case (Cons st sts)
  obtain v probed c1 where one: "validate_stage f repoRoot ws st c = (Inr (v, probed), c1)"
      and rest: "validate_stages f repoRoot ws sts (acc @ [v]) (max t (pcTimeoutMs probed))
        (max m (pcMaxOutputBytes probed)) c1 = (Inr (vs, t', m'), c')"
    using Cons.prems by (auto split: prod.splits sum.splits)
  note head = validate_stage_Inr [OF one]
  from Cons.IH [OF rest] obtain new where "vs = (acc @ [v]) @ new \<and>
      map inspected_stage.truncate new = sts \<and>
      (\<forall>v \<in> set new. stage_checked f repoRoot ws v) \<and>
      t' = fold max (map (\<lambda>v. pcTimeoutMs (declared_command f repoRoot (vsCommand v))) new)
             (max t (pcTimeoutMs probed)) \<and>
      m' = fold max (map (\<lambda>v. pcMaxOutputBytes (declared_command f repoRoot (vsCommand v))) new)
             (max m (pcMaxOutputBytes probed)) \<and>
      (cache_sound f c1 \<longrightarrow> cache_sound f c' \<and>
         (\<forall>v \<in> set new. verified_path f repoRoot (vsCommand v) (vsExecutablePath v)))" by blast
  with head show ?case
    by (intro exI [of _ "v # new"]) (auto simp: max.commute)
qed simp

end
