(* ===== verification/Terminal_Execution.thy ===== *)
theory Terminal_Execution
  imports Terminal_Grammar
begin

text \<open>
  What the engine runs for a validated command line.  \<open>validateCommandLine\<close> checks the argument
  vectors the engine's lexer found; \<open>buildResolvedLine\<close> writes them down again with the verified
  paths; the engine lexes that text once more.  The theory relates the two lexings: first one
  rendered token (\<open>tokens_from_rendered\<close>), then a line of them, then the pipeline.
\<close>

section \<open>Lexing a rebuilt line\<close>

lemma double_quoted_escaped:
  "length bb \<le> CAPS_MAX_TOKEN \<Longrightarrow>
   double_quoted bb (concat (map escaped t) @ ch_dquote # rest) =
     (if length bb + length t \<le> CAPS_MAX_TOKEN then Inr (bb @ t, rest) else Inl Token_too_long)"
proof (induction t arbitrary: bb)
  case (Cons c t)
  show ?case
  proof (cases "c \<in> {ch_backslash, ch_dquote, CHR ''$'', ch_bquote}")
    case True
    then have "escaped c = [ch_backslash, c]" "escapable c" "c \<noteq> ch_newline"
      by (auto simp: escaped_def escapable_def)
    with Cons show ?thesis by (simp add: bb_push_lit_def)
  next
    case False
    then have "escaped c = [c]" "c \<noteq> ch_dquote" "c \<noteq> ch_backslash" by (auto simp: escaped_def)
    with Cons show ?thesis by (simp add: bb_push_lit_def)
  qed
qed simp

text \<open>A byte that is nothing but itself outside quotes, and the start of what follows a token.\<close>

definition ordinary :: "char \<Rightarrow> bool" where
  "ordinary c \<longleftrightarrow> \<not> c_isspace c \<and> c \<notin> {CHR ''#'', ch_squote, ch_dquote, ch_backslash}"

definition at_break :: "string \<Rightarrow> bool" where
  "at_break p \<longleftrightarrow> p = [] \<or> c_isspace (hd p)"

abbreviation with_token :: "lexer \<Rightarrow> string \<Rightarrow> lexer" where
  "with_token s t \<equiv> \<lparr>lxArgv = lxArgv s @ [t], lxBuf = [], lxHaveToken = False\<rparr>"

lemma tokens_from_ordinary:
  assumes "t \<noteq> []" and "\<forall>c \<in> set t. ordinary c" and "at_break rest"
    and "length (lxArgv s) < CAPS_MAX_ARGS" and "length (lxBuf s) \<le> CAPS_MAX_TOKEN"
  shows "tokens_from (t @ rest) s =
    (if length (lxBuf s) + length t \<le> CAPS_MAX_TOKEN
     then tokens_from rest (with_token s (lxBuf s @ t)) else Inl Token_too_long)"
  using assms
proof (induction t arbitrary: s)
  case (Cons c t)
  then have c: "\<not> c_isspace c" "c \<noteq> CHR ''#''" "c \<noteq> ch_squote" "c \<noteq> ch_dquote" "c \<noteq> ch_backslash"
    by (auto simp: ordinary_def)
  show ?case
  proof (cases "t = []")
    case True
    with Cons.prems c show ?thesis
      by (auto simp: lex_piece_def bb_push_lit_def close_token_def at_break_def)
  next
    case False
    then have "\<not> c_isspace (hd (t @ rest))" "t @ rest \<noteq> []"
      using Cons.prems(2) by (auto simp: ordinary_def)
    with Cons False c show ?thesis
      by (simp add: lex_piece_def bb_push_lit_def close_token_def)
  qed
qed simp

lemma tokens_from_quoted:
  assumes "lxBuf s = []" and "at_break rest" and "length (lxArgv s) < CAPS_MAX_ARGS"
  shows "tokens_from ([ch_dquote] @ concat (map escaped t) @ [ch_dquote] @ rest) s =
    (if length t > CAPS_MAX_TOKEN then Inl Token_too_long
     else tokens_from rest (if t = [] then s \<lparr>lxBuf := [], lxHaveToken := True\<rparr> else with_token s t))"
  using assms double_quoted_escaped [of "[]" t rest]
  by (auto simp: c_isspace_def lex_piece_def close_token_def at_break_def)

lemma plain_char_ordinary: "plain_char c \<Longrightarrow> ordinary c"
  unfolding plain_char_def set_append list.set
  by (elim UnE insertE emptyE; simp add: ordinary_def c_isspace_def)

definition renders :: "string \<Rightarrow> string \<Rightarrow> bool" where
  "renders r t \<longleftrightarrow> r = quoteForLexer t \<or> (r = t \<and> (is_redir_op t \<or> t = ''|''))"

lemma operator_ordinary: "is_redir_op t \<or> t = ''|'' \<Longrightarrow> t \<noteq> [] \<and> (\<forall>c \<in> set t. ordinary c)"
  unfolding is_redir_op_def by (auto simp: ordinary_def c_isspace_def)

lemma tokens_from_rendered:
  assumes "renders r t" and "lxBuf s = []" and "at_break rest" and "length (lxArgv s) < CAPS_MAX_ARGS"
  shows "tokens_from (r @ rest) s =
    (if length t > CAPS_MAX_TOKEN then Inl Token_too_long
     else tokens_from rest (if t = [] then s \<lparr>lxBuf := [], lxHaveToken := True\<rparr> else with_token s t))"
proof (cases "t \<noteq> [] \<and> r = t \<and> (\<forall>c \<in> set t. ordinary c)")
  case True
  with tokens_from_ordinary [of t rest s] assms show ?thesis by (simp add: not_le)
next
  case False
  have "r = [ch_dquote] @ concat (map escaped t) @ [ch_dquote]"
  proof (cases "t = []")
    case True
    with assms(1) operator_ordinary [of t] show ?thesis by (auto simp: renders_def quoteForLexer_def)
  next
    case nonempty: False
    with False assms(1) operator_ordinary [of t] have "r = quoteForLexer t" "r \<noteq> t \<or> \<not> (\<forall>c \<in> set t. ordinary c)"
      by (auto simp: renders_def)
    with nonempty plain_char_ordinary show ?thesis
      by (auto simp: quoteForLexer_def split: if_splits)
  qed
  with tokens_from_quoted [OF assms(2-4), of t] show ?thesis by simp
qed

lemma tokens_from_line:
  assumes "list_all2 renders rs ts" and "lxBuf s = []"
    and "length (lxArgv s) + length ts \<le> CAPS_MAX_ARGS"
  shows "tokens_from (join_with '' '' rs) s =
    (if \<exists>t \<in> set ts. length t > CAPS_MAX_TOKEN then Inl Token_too_long
     else Inr \<lparr>lxArgv = lxArgv s @ filter (\<lambda>t. t \<noteq> []) ts, lxBuf = [],
               lxHaveToken = (if ts = [] then lxHaveToken s else last ts = [])\<rparr>)"
  using assms
proof (induction rs ts arbitrary: s rule: list_all2_induct)
  case Nil
  then show ?case by simp
next
  case (Cons r rs t ts)
  have few: "length (lxArgv s) < CAPS_MAX_ARGS" using Cons.prems(2) by simp
  let ?rest = "if rs = [] then [] else CHR '' '' # join_with '' '' rs"
  have line: "join_with '' '' (r # rs) = r @ ?rest" by (cases rs) simp_all
  have "at_break ?rest" by (simp add: at_break_def c_isspace_def)
  note head = tokens_from_rendered [OF Cons.hyps(1) Cons.prems(1) this few]
  have tail: "tokens_from ?rest s' = tokens_from (join_with '' '' rs) s'" for s'
    by (simp add: c_isspace_def)
  have "rs = [] \<longleftrightarrow> ts = []" using Cons.hyps(2) by auto
  then show ?case
    unfolding line head tail
    using Cons.IH [of "s \<lparr>lxBuf := [], lxHaveToken := True\<rparr>"] Cons.IH [of "with_token s t"]
      Cons.prems by auto
qed

definition collapse :: "string list \<Rightarrow> string list" where
  "collapse ts = filter (\<lambda>t. t \<noteq> []) (butlast ts) @ (if ts = [] then [] else [last ts])"

lemma parser_tokenize_line:
  assumes "list_all2 renders rs ts" and "length ts \<le> CAPS_MAX_ARGS"
  shows "parser_tokenize (join_with '' '' rs) =
    (if length (join_with '' '' rs) > CAPS_MAX_LINE
     then Inl (Line_too_long (length (join_with '' '' rs)))
     else if \<exists>t \<in> set ts. length t > CAPS_MAX_TOKEN then Inl Token_too_long
     else Inr (collapse ts))"
proof (cases ts rule: rev_cases)
  case Nil
  with tokens_from_line [OF assms(1), of "\<lparr>lxArgv = [], lxBuf = [], lxHaveToken = False\<rparr>"]
  show ?thesis by (auto simp: parser_tokenize_def collapse_def)
next
  case (snoc us u)
  with tokens_from_line [OF assms(1), of "\<lparr>lxArgv = [], lxBuf = [], lxHaveToken = False\<rparr>"] assms(2)
  show ?thesis by (auto simp: parser_tokenize_def collapse_def)
qed

lemma join_bar_join:
  "\<forall>xs \<in> set xss. xs \<noteq> [] \<Longrightarrow>
     join_with '' | '' (map (join_with '' '') xss) = join_with '' '' (bar_join xss)"
proof (induction xss rule: bar_join.induct)
  case (3 r q rs)
  then have "bar_join (q # rs) \<noteq> []" by (cases rs) auto
  with 3 show ?case
    using join_append [of r "''|'' # bar_join (q # rs)" "'' ''"]
    by (cases "bar_join (q # rs)") auto
qed simp_all

lemma list_all2_bar_join:
  "list_all2 (list_all2 renders) xss yss \<Longrightarrow> list_all2 renders (bar_join xss) (bar_join yss)"
proof (induction xss arbitrary: yss rule: bar_join.induct)
  case (3 r q rs)
  then show ?case
    by (auto simp: list_all2_Cons1 renders_def intro!: list_all2_appendI)
qed (auto simp: list_all2_Cons1)

section \<open>What is executed\<close>

text \<open>
  The stage the engine builds from the rebuilt line: the verified path, the validated arguments
  and redirections.  The lexer gives an empty quoted string that another token follows to that
  token, so a stage with redirections loses an empty last argument.
\<close>

definition redirection_of :: "inspected_redirection \<Rightarrow> redirection" where
  "redirection_of r =
     \<lparr>rdType = redir_type_of (irOp r), rdPath = irTarget r, rdTargetFd = irFd r\<rparr>"

definition kept_arguments :: "validated_stage \<Rightarrow> string list" where
  "kept_arguments v =
     (if isRedirections v = [] then tl (isArgv v) else filter (\<lambda>a. a \<noteq> []) (tl (isArgv v)))"

definition executed_stage :: "validated_stage \<Rightarrow> engine_stage" where
  "executed_stage v =
     \<lparr>esArgv = path_text (vsExecutablePath v) # kept_arguments v,
      esRedirs = map redirection_of (isRedirections v),
      esStdinSource = isStdinSource v, esStdoutDest = isStdoutDest v\<rparr>"

definition written_tokens :: "validated_stage \<Rightarrow> string list" where
  "written_tokens v = path_text (vsExecutablePath v) # tl (isArgv v) @
     concat (map (\<lambda>r. [irOp r, irTarget r]) (isRedirections v))"

definition rendered_tokens :: "validated_stage \<Rightarrow> string list" where
  "rendered_tokens v = quoteForLexer (path_text (vsExecutablePath v)) #
     map quoteForLexer (tl (isArgv v)) @
     concat (map (\<lambda>r. [irOp r, quoteForLexer (irTarget r)]) (isRedirections v))"

definition written_ok :: "validated_stage \<Rightarrow> bool" where
  "written_ok v \<longleftrightarrow>
     (\<forall>r \<in> set (isRedirections v). is_redir_op (irOp r) \<and> irTarget r \<noteq> [])"

lemma rendered_renders:
  assumes "written_ok v"
  shows "list_all2 renders (rendered_tokens v) (written_tokens v)"
proof -
  have "list_all2 renders (concat (map (\<lambda>r. [irOp r, quoteForLexer (irTarget r)]) rs))
      (concat (map (\<lambda>r. [irOp r, irTarget r]) rs))" if "set rs \<subseteq> set (isRedirections v)" for rs
    using that assms by (induction rs) (auto simp: renders_def written_ok_def)
  then show ?thesis
    by (auto simp: rendered_tokens_def written_tokens_def renders_def list_all2_map1
        list.rel_refl intro!: list_all2_appendI)
qed

lemma buildResolvedLine_join:
  "buildResolvedLine p = join_with '' '' (bar_join (map rendered_tokens (vpStages p)))"
proof -
  have "map resolved_stage (vpStages p) = map (join_with '' '') (map rendered_tokens (vpStages p))"
    by (simp add: resolved_stage_def rendered_tokens_def)
  then show ?thesis
    unfolding buildResolvedLine_def
    by (simp add: join_bar_join rendered_tokens_def flip: map_map)
qed

lemma bar_join_snoc:
  "bar_join (xs @ [x]) = (if xs = [] then x else bar_join xs @ ''|'' # x)"
  by (induction xs rule: bar_join.induct) auto

lemma collapse_append:
  "x \<noteq> [] \<Longrightarrow> collapse (pre @ x) = filter (\<lambda>t. t \<noteq> []) pre @ collapse x"
  by (auto simp: collapse_def butlast_append)

lemma collapse_id: "\<forall>t \<in> set (butlast ts). t \<noteq> [] \<Longrightarrow> collapse ts = ts"
  by (cases ts rule: rev_cases) (auto simp: collapse_def filter_id_conv)

lemma path_text_not_Nil [simp]: "path_text p \<noteq> []"
  by (simp add: path_text_def)

lemma written_redirs:
  assumes "written_ok v"
  shows "concat (map (\<lambda>r. [irOp r, irTarget r]) (isRedirections v)) =
      redir_tokens (map redirection_of (isRedirections v)) \<and>
    (\<forall>t \<in> set (redir_tokens (map redirection_of (isRedirections v))). t \<noteq> [])"
proof -
  have "concat (map (\<lambda>r. [irOp r, irTarget r]) rs) = redir_tokens (map redirection_of rs) \<and>
      (\<forall>t \<in> set (redir_tokens (map redirection_of rs)). t \<noteq> [])"
    if "set rs \<subseteq> set (isRedirections v)" for rs
    using that assms
    by (induction rs) (auto simp: written_ok_def redirection_of_def redir_text_type_of is_redir_op_def)
  then show ?thesis by blast
qed

lemma collapse_written:
  assumes "written_ok v" and "isArgv v \<noteq> []" and "\<forall>a \<in> set (butlast (isArgv v)). a \<noteq> []"
  shows "collapse (written_tokens v) = stage_tokens (bare (executed_stage v))"
proof (cases "isRedirections v = []")
  case True
  have "\<forall>t \<in> set (butlast (path_text (vsExecutablePath v) # tl (isArgv v))). t \<noteq> []"
    using assms(2,3) by (cases "isArgv v") (auto split: if_splits)
  with True show ?thesis
    by (simp add: written_tokens_def executed_stage_def kept_arguments_def stage_tokens_def collapse_id)
next
  case False
  let ?rt = "redir_tokens (map redirection_of (isRedirections v))"
  from False have "?rt \<noteq> []" by (cases "isRedirections v") auto
  then have "collapse (written_tokens v) =
      filter (\<lambda>t. t \<noteq> []) (path_text (vsExecutablePath v) # tl (isArgv v)) @ collapse ?rt"
    using written_redirs [OF assms(1)] collapse_append [of ?rt "path_text (vsExecutablePath v) # tl (isArgv v)"]
    by (simp add: written_tokens_def)
  moreover have "collapse ?rt = ?rt"
    using written_redirs [OF assms(1)] by (intro collapse_id) (auto dest: in_set_butlastD)
  ultimately show ?thesis
    using False by (simp add: executed_stage_def kept_arguments_def stage_tokens_def)
qed

lemma filter_written:
  assumes "written_ok v" and "isArgv v \<noteq> []" and "\<forall>a \<in> set (isArgv v). a \<noteq> []"
  shows "filter (\<lambda>t. t \<noteq> []) (written_tokens v) = stage_tokens (bare (executed_stage v))"
proof -
  have "\<forall>t \<in> set (tl (isArgv v)). t \<noteq> []" using assms(2,3) by (cases "isArgv v") auto
  then have "filter (\<lambda>t. t \<noteq> []) (tl (isArgv v)) = tl (isArgv v)" by (simp add: filter_id_conv)
  moreover have "filter (\<lambda>t. t \<noteq> []) (redir_tokens (map redirection_of (isRedirections v))) =
      redir_tokens (map redirection_of (isRedirections v))"
    using written_redirs [OF assms(1)] by (simp add: filter_id_conv)
  ultimately show ?thesis
    using written_redirs [OF assms(1)]
    by (simp add: written_tokens_def executed_stage_def kept_arguments_def stage_tokens_def)
qed

lemma filter_bar_join:
  "P ''|'' \<Longrightarrow> filter P (bar_join xs) = bar_join (map (filter P) xs)"
  by (induction xs rule: bar_join.induct) auto

lemma collapse_line:
  assumes "vs \<noteq> []" and "\<forall>v \<in> set vs. written_ok v \<and> isArgv v \<noteq> []"
    and "\<forall>v \<in> set (butlast vs). \<forall>a \<in> set (isArgv v). a \<noteq> []"
    and "\<forall>a \<in> set (butlast (isArgv (last vs))). a \<noteq> []"
  shows "collapse (bar_join (map written_tokens vs)) =
    bar_join (map (\<lambda>v. stage_tokens (bare (executed_stage v))) vs)"
proof -
  obtain us v where vs: "vs = us @ [v]" using assms(1) by (cases vs rule: rev_cases) auto
  have us: "map (filter (\<lambda>t. t \<noteq> [])) (map written_tokens us) =
      map (\<lambda>v. stage_tokens (bare (executed_stage v))) us"
    using assms(2,3) by (auto simp: vs filter_written)
  have v: "collapse (written_tokens v) = stage_tokens (bare (executed_stage v))"
    using assms(2,4) by (intro collapse_written) (auto simp: vs)
  show ?thesis
  proof (cases "us = []")
    case True
    with v show ?thesis by (simp add: vs)
  next
    case False
    have "collapse (bar_join (map written_tokens us) @ ''|'' # written_tokens v) =
        filter (\<lambda>t. t \<noteq> []) (bar_join (map written_tokens us) @ [''|'']) @ collapse (written_tokens v)"
      using collapse_append [of "written_tokens v" "bar_join (map written_tokens us) @ [''|'']"]
      by (simp add: written_tokens_def)
    with False us v show ?thesis
      by (simp add: vs bar_join_snoc filter_bar_join cong: map_cong)
  qed
qed

text \<open>What is relied on of the engine's process: a document it sends is the one it prints.\<close>

definition engine_answers :: "(string \<Rightarrow> engine_reply) \<Rightarrow> bool" where
  "engine_answers ask \<longleftrightarrow>
     (\<forall>line stages. ask line = Reply_document stages \<longrightarrow> inspect_line_mode line = Inr stages)"

lemma validateCommandLine_Inr:
  assumes "engine_answers ask"
    and "validateCommandLine f repoRoot ws ask line c = (Inr p, c')"
  shows "\<exists>stages. parser_parse_pipeline line = Inr stages \<and> vpCommandLine p = line \<and>
    map inspected_stage.truncate (vpStages p) = map inspected_stage_of (enumerate 0 stages) \<and>
    (\<forall>v \<in> set (vpStages p). stage_checked f repoRoot ws v) \<and>
    vpTimeoutMs p =
      fold max (map (\<lambda>v. pcTimeoutMs (declared_command f repoRoot (vsCommand v))) (vpStages p)) 0 \<and>
    vpMaxOutputBytes p =
      fold max (map (\<lambda>v. pcMaxOutputBytes (declared_command f repoRoot (vsCommand v))) (vpStages p)) 0 \<and>
    (cache_sound f c \<longrightarrow>
       (\<forall>v \<in> set (vpStages p). verified_path f repoRoot (vsCommand v) (vsExecutablePath v)))"
proof -
  obtain stages where asked: "ask line = Reply_document stages"
      and run: "validate_stages f repoRoot ws stages [] 0 0 c =
        (Inr (vpStages p, vpTimeoutMs p, vpMaxOutputBytes p), c')"
      and "vpCommandLine p = line"
    using assms(2)
    by (auto simp: validateCommandLine_def inspectCommandLine_def
        split: if_splits sum.splits prod.splits engine_reply.splits)
  moreover have "inspect_line_mode line = Inr stages"
    using assms(1) asked by (auto simp: engine_answers_def)
  ultimately show ?thesis
    using validate_stages_Inr [OF run]
    by (auto simp: inspect_line_mode_def split: sum.splits)
qed

lemma truncate_fields:
  "isArgv v = isArgv (inspected_stage.truncate v)"
  "isRedirections v = isRedirections (inspected_stage.truncate v)"
  "isStdinSource v = isStdinSource (inspected_stage.truncate v)"
  "isStdoutDest v = isStdoutDest (inspected_stage.truncate v)"
  by (simp_all add: inspected_stage.defs)

lemma redirection_roundtrip:
  "rdTargetFd r = caps_redir_fd (rdType r) \<Longrightarrow> redirection_of (inspected_redirection_of r) = r"
  by (simp add: redirection_of_def inspected_redirection_of_def)

lemma parsed_stage_view:
  assumes "map inspected_stage.truncate vs = map inspected_stage_of (enumerate 0 (labelled sts))"
    and "i < length vs"
  shows "length vs = length sts" and "isArgv (vs ! i) = fst (sts ! i)"
    and "isRedirections (vs ! i) = map inspected_redirection_of (snd (sts ! i))"
    and "isStdinSource (vs ! i) = esStdinSource (labelled sts ! i)"
    and "isStdoutDest (vs ! i) = esStdoutDest (labelled sts ! i)"
proof -
  have "length (labelled sts) = length sts" by (simp add: labelled_def)
  with arg_cong [OF assms(1), of length] show len: "length vs = length sts" by simp
  have i: "i < length (labelled sts)" using assms(2) len by (simp add: labelled_def)
  have "inspected_stage.truncate (vs ! i) = inspected_stage_of (i, labelled sts ! i)"
    using arg_cong [OF assms(1), of "\<lambda>xs. xs ! i"] assms(2) i by (simp add: nth_enumerate_eq)
  note at_i = arg_cong [OF this, of isArgv] arg_cong [OF this, of isRedirections]
    arg_cong [OF this, of isStdinSource] arg_cong [OF this, of isStdoutDest]
  have "labelled sts ! i = label_stage (length sts) (i, sts ! i)"
    using i by (simp add: labelled_def nth_enumerate_eq)
  then show "isArgv (vs ! i) = fst (sts ! i)"
    "isRedirections (vs ! i) = map inspected_redirection_of (snd (sts ! i))"
    "isStdinSource (vs ! i) = esStdinSource (labelled sts ! i)"
    "isStdoutDest (vs ! i) = esStdoutDest (labelled sts ! i)"
    using at_i
    by (simp_all add: inspected_stage_of_def label_stage_def inspected_stage.defs split: prod.split)
qed

lemma executed_labelled:
  assumes "map inspected_stage.truncate vs = map inspected_stage_of (enumerate 0 (labelled sts))"
    and "\<forall>st \<in> set sts. stage_wf st"
  shows "labelled (map (\<lambda>v. bare (executed_stage v)) vs) = map executed_stage vs"
proof (rule nth_equalityI)
  fix i
  assume "i < length (labelled (map (\<lambda>v. bare (executed_stage v)) vs))"
  then have i: "i < length vs" by (simp add: labelled_def)
  note view = parsed_stage_view [OF assms(1) i]
  have "stage_wf (sts ! i)" using assms(2) i view(1) by simp
  then have redirs: "map redirection_of (isRedirections (vs ! i)) = snd (sts ! i)"
    by (auto simp: view(3) stage_wf_def redirection_roundtrip intro!: map_idI)
  obtain argv rs where st: "sts ! i = (argv, rs)" by fastforce
  have "labelled sts ! i = label_stage (length sts) (i, argv, rs)"
    using i view(1) st by (simp add: labelled_def nth_enumerate_eq)
  moreover have "labelled (map (\<lambda>v. bare (executed_stage v)) vs) ! i =
      label_stage (length sts) (i, esArgv (executed_stage (vs ! i)), rs)"
    using i view(1) st redirs by (simp add: labelled_def nth_enumerate_eq executed_stage_def)
  ultimately show "labelled (map (\<lambda>v. bare (executed_stage v)) vs) ! i = map executed_stage vs ! i"
    using i view(4,5) st redirs by (simp add: executed_stage_def label_stage_def)
qed (simp add: labelled_def)

lemma nonempty_target:
  "assertTargetInWorkspace f ws t = Inr () \<Longrightarrow> t \<noteq> []"
  by (auto simp: assertTargetInWorkspace_def isSafeRedirTarget_def split: if_splits)

lemma operator_short: "is_redir_op t \<Longrightarrow> length t \<le> CAPS_MAX_TOKEN"
  by (auto simp: is_redir_op_def CAPS_MAX_TOKEN_def)

lemma path_text_word: "length (path_text p) \<le> CAPS_MAX_TOKEN \<Longrightarrow> word_token (path_text p)"
  by (simp add: word_token_def is_redir_op_def path_text_def)

text \<open>A validated stage beside the parsed stage it came from.\<close>

definition stage_of_parse :: "validated_stage \<Rightarrow> string list \<times> redirection list \<Rightarrow> bool" where
  "stage_of_parse v st \<longleftrightarrow> stage_wf st \<and> isArgv v = fst st \<and>
     isRedirections v = map inspected_redirection_of (snd st) \<and> written_ok v"

lemma stage_of_parse_tokens:
  assumes "stage_of_parse v st"
  shows "length (written_tokens v) = length (stage_tokens st)"
    and "length (stage_tokens (bare (executed_stage v))) \<le> length (stage_tokens st)"
    and "(\<exists>t \<in> set (written_tokens v). length t > CAPS_MAX_TOKEN) \<longleftrightarrow>
      length (path_text (vsExecutablePath v)) > CAPS_MAX_TOKEN"
    and "length (path_text (vsExecutablePath v)) \<le> CAPS_MAX_TOKEN \<Longrightarrow>
      stage_wf (bare (executed_stage v))"
proof -
  note ok = assms [unfolded stage_of_parse_def stage_wf_def]
  have redirs: "map redirection_of (isRedirections v) = snd st"
    using ok by (auto simp: redirection_roundtrip intro!: map_idI)
  have concat: "concat (map (\<lambda>r. [irOp r, irTarget r]) (isRedirections v)) = redir_tokens (snd st)"
    using written_redirs [of v] ok redirs by simp
  have len: "Suc (length (tl (isArgv v))) = length (fst st)"
    using ok by (cases "isArgv v") auto
  show "length (written_tokens v) = length (stage_tokens st)"
    using len concat by (simp add: written_tokens_def stage_tokens_def)
  have "length (kept_arguments v) \<le> length (tl (isArgv v))"
    using length_filter_le [of "\<lambda>a. a \<noteq> []" "tl (isArgv v)"] by (auto simp: kept_arguments_def)
  then show "length (stage_tokens (bare (executed_stage v))) \<le> length (stage_tokens st)"
    using len redirs by (simp add: stage_tokens_def executed_stage_def)
  have args: "\<forall>a \<in> set (tl (isArgv v)). word_token a"
    using ok by (metis list.set_sel(2) tl_Nil)
  have "\<forall>t \<in> set (redir_tokens (snd st)). length t \<le> CAPS_MAX_TOKEN"
    using ok by (auto simp: redir_tokens_def word_token_def operator_short)
  with args concat show "(\<exists>t \<in> set (written_tokens v). length t > CAPS_MAX_TOKEN) \<longleftrightarrow>
      length (path_text (vsExecutablePath v)) > CAPS_MAX_TOKEN"
    by (force simp: written_tokens_def word_token_def)
  show "stage_wf (bare (executed_stage v))"
    if "length (path_text (vsExecutablePath v)) \<le> CAPS_MAX_TOKEN"
    using ok args redirs path_text_word [OF that]
    by (auto simp: stage_wf_def executed_stage_def kept_arguments_def)
qed

lemma list_all2_partner: "list_all2 P xs ys \<Longrightarrow> x \<in> set xs \<Longrightarrow> \<exists>y \<in> set ys. P x y"
  by (induction rule: list_all2_induct) auto

lemma empty_only_last:
  assumes "list_all2 stage_of_parse vs sts" and "last_may_be_empty sts" and "vs \<noteq> []"
  shows "(\<forall>v \<in> set (butlast vs). \<forall>a \<in> set (isArgv v). a \<noteq> []) \<and>
    (\<forall>a \<in> set (butlast (isArgv (last vs))). a \<noteq> [])"
proof -
  obtain us v where vs: "vs = us @ [v]" using assms(3) by (cases vs rule: rev_cases) auto
  from assms(1) [unfolded vs list_all2_append1] obtain ss tt
    where split: "sts = ss @ tt" "list_all2 stage_of_parse us ss" "list_all2 stage_of_parse [v] tt"
    by blast
  from split(3) obtain st where "tt = [st]" "stage_of_parse v st"
    by (auto simp: list_all2_Cons1)
  with split have sts: "sts = ss @ [st]" "list_all2 stage_of_parse us ss" "stage_of_parse v st"
    by simp_all
  have "\<forall>a \<in> set (isArgv u). a \<noteq> []" if u: "u \<in> set us" for u
  proof -
    obtain s where "s \<in> set ss" "stage_of_parse u s"
      using list_all2_partner [OF sts(2) u] by blast
    with assms(2) sts(1) show ?thesis by (auto simp: last_may_be_empty_def stage_of_parse_def)
  qed
  moreover have "\<forall>a \<in> set (butlast (isArgv v)). a \<noteq> []"
    using assms(2) sts(1,3) by (simp add: last_may_be_empty_def stage_of_parse_def)
  ultimately show ?thesis by (simp add: vs)
qed

lemma bar_join_tokens: "set (bar_join rs) \<subseteq> insert ''|'' (\<Union> (set ` set rs))"
  by (induction rs rule: bar_join.induct) auto

lemma validated_parse:
  assumes "engine_answers ask" and "validateCommandLine f repoRoot ws ask line c = (Inr p, c')"
  shows "\<exists>sts. pipeline_wf sts \<and> last_may_be_empty sts \<and>
    map inspected_stage.truncate (vpStages p) = map inspected_stage_of (enumerate 0 (labelled sts)) \<and>
    list_all2 stage_of_parse (vpStages p) sts"
proof -
  obtain stages where parse: "parser_parse_pipeline line = Inr stages"
      and view: "map inspected_stage.truncate (vpStages p) = map inspected_stage_of (enumerate 0 stages)"
      and checked: "\<forall>v \<in> set (vpStages p). stage_checked f repoRoot ws v"
    using validateCommandLine_Inr [OF assms] by blast
  from parse_pipeline_wf [OF parse] obtain sts where sts: "stages = labelled sts"
      "pipeline_wf sts" "last_may_be_empty sts" by blast
  note view = view [unfolded sts(1)]
  have len: "length (vpStages p) = length sts"
    using arg_cong [OF view, of length] by (simp add: labelled_def)
  have "stage_of_parse (vpStages p ! i) (sts ! i)" if i: "i < length (vpStages p)" for i
  proof -
    note at_i = parsed_stage_view [OF view i]
    have "stage_checked f repoRoot ws (vpStages p ! i)" using checked i by simp
    then have "written_ok (vpStages p ! i)"
      using at_i(3) by (auto simp: written_ok_def stage_checked_def inspected_redirection_of_def
          dest: nonempty_target)
    then show ?thesis
      using at_i sts(2) i len by (simp add: stage_of_parse_def pipeline_wf_def)
  qed
  then show ?thesis
    using sts(2,3) view len by (auto simp: list_all2_conv_all_nth)
qed

lemma fold_max_bounds: "m \<le> fold max xs (m :: nat) \<and> (\<forall>x \<in> set xs. x \<le> fold max xs m)"
proof (induction xs arbitrary: m)
  case (Cons a xs)
  from Cons [of "max a m"] show ?case by auto
qed simp

lemma fold_max_mem: "xs \<noteq> [] \<Longrightarrow> fold max xs (0 :: nat) \<in> set xs"
proof -
  have "fold max xs m \<in> insert m (set xs)" for m :: nat
    by (induction xs arbitrary: m) (auto simp: max_def)
  moreover assume "xs \<noteq> []"
  ultimately show ?thesis
    using fold_max_bounds [of 0 xs] by (cases xs) (metis insertE le_0_eq list.set_intros(1))+
qed

lemma checked_tokens:
  assumes "stage_checked f repoRoot ws v"
  defines "s \<equiv> pcSchema (declared_command f repoRoot (vsCommand v))" and "args \<equiv> tl (isArgv v)"
  defines "rs \<equiv> roles s False args"
  shows "isArgv v = vsCommand v # args \<and> slash \<notin> set (vsCommand v) \<and>
    (\<forall>k < length args. token_ok s (rs ! k) (operand_rank rs k) (args ! k) \<and>
       (rs ! k = Operand_token \<and> asPositionalArePaths s \<and>
        \<not> exempt_operand s (operand_rank rs k) (args ! k) \<longrightarrow>
          assertReadableFileInWorkspace f ws (args ! k) = Inr ())) \<and>
    (\<forall>r \<in> set (isRedirections v). assertTargetInWorkspace f ws (irTarget r) = Inr ())"
proof -
  have "check_arguments f ws s args = Inr args"
    using assms(1) unfolding stage_checked_def s_def args_def by blast
  note tokens = check_arguments_Inr [OF this, folded rs_def]
  have "isArgv v = vsCommand v # args" "slash \<notin> set (vsCommand v)"
    "\<forall>r \<in> set (isRedirections v). assertTargetInWorkspace f ws (irTarget r) = Inr ()"
    using assms(1) unfolding stage_checked_def args_def by (metis list.collapse)+
  with tokens show ?thesis by blast
qed

section \<open>Properties\<close>

text \<open>C11: What the engine runs is what was validated, but for one argument.  Suppose that the engine answers
  \<^verbatim>\<open>--inspect\<close> as its lexer does.  The line rebuilt from an accepted command line is refused by the engine
  when it is too long or a verified path is; otherwise the engine's lexer reads back the stages
  that were validated, in order: the verified absolute path, the validated arguments, the validated
  redirections and the wiring that was shown.  An empty last argument of a stage with redirections is
  dropped, so that such a stage runs with one argument less.  Every other argument survives,
  whatever blanks, quotes, backslashes, dollars, bars or line breaks it holds.\<close>
theorem executed_is_validated:
  assumes "engine_answers ask" and "validateCommandLine f repoRoot ws ask line c = (Inr p, c')"
  shows "parser_parse_pipeline (buildResolvedLine p) =
    (if length (buildResolvedLine p) > CAPS_MAX_LINE
     then Inl (Line_too_long (length (buildResolvedLine p)))
     else if \<exists>v \<in> set (vpStages p). length (path_text (vsExecutablePath v)) > CAPS_MAX_TOKEN
     then Inl Token_too_long
     else Inr (map executed_stage (vpStages p)))"
proof -
  obtain sts where sts: "pipeline_wf sts" "last_may_be_empty sts"
      and view: "map inspected_stage.truncate (vpStages p) =
        map inspected_stage_of (enumerate 0 (labelled sts))"
      and pair: "list_all2 stage_of_parse (vpStages p) sts"
    using validated_parse [OF assms] by blast
  let ?vs = "vpStages p" and ?ts = "bar_join (map written_tokens (vpStages p))"
  have each: "\<forall>v \<in> set ?vs. \<exists>st. stage_of_parse v st"
    using list_all2_partner [OF pair] by blast
  then have ok: "\<forall>v \<in> set ?vs. written_ok v \<and> isArgv v \<noteq> []"
    by (auto simp: stage_of_parse_def stage_wf_def)
  have args: "map (\<lambda>v. isArgv v) ?vs = map fst sts"
    using pair by (induction rule: list_all2_induct) (auto simp: stage_of_parse_def)
  have ne: "?vs \<noteq> []" using pair sts(1) by (auto simp: pipeline_wf_def)
  have render: "list_all2 renders (bar_join (map rendered_tokens ?vs)) ?ts"
    using ok by (intro list_all2_bar_join) (auto simp: list_all2_conv_all_nth [where P = "list_all2 renders"]
        intro!: rendered_renders)
  have count: "map (length \<circ> written_tokens) ?vs = map (length \<circ> stage_tokens) sts"
    using pair by (induction rule: list_all2_induct) (auto simp: stage_of_parse_tokens(1))
  then have "length ?ts = length (bar_join (map stage_tokens sts))"
    using list_all2_lengthD [OF pair] by (simp add: length_bar_join)
  then have few: "length ?ts \<le> CAPS_MAX_ARGS" using sts(1) by (simp add: pipeline_wf_def)
  have long: "(\<exists>t \<in> set ?ts. length t > CAPS_MAX_TOKEN) \<longleftrightarrow>
      (\<exists>v \<in> set ?vs. length (path_text (vsExecutablePath v)) > CAPS_MAX_TOKEN)" (is "?L \<longleftrightarrow> ?R")
  proof
    assume ?L
    then obtain t where t: "t \<in> set ?ts" "length t > CAPS_MAX_TOKEN" by blast
    then have "t \<noteq> ''|''" by (auto simp: CAPS_MAX_TOKEN_def)
    with t bar_join_tokens [of "map written_tokens ?vs"] obtain v
      where "v \<in> set ?vs" "t \<in> set (written_tokens v)" by auto
    with t(2) have "v \<in> set ?vs" "\<exists>t \<in> set (written_tokens v). length t > CAPS_MAX_TOKEN" by auto
    with each stage_of_parse_tokens(3) show ?R by metis
  next
    assume ?R
    with bar_join_set [of "written_tokens _" "map written_tokens ?vs"] show ?L
      by (fastforce simp: written_tokens_def)
  qed
  note last = empty_only_last [OF pair sts(2) ne]
  have kept: "collapse ?ts = bar_join (map stage_tokens (map (\<lambda>v. bare (executed_stage v)) ?vs))"
    using collapse_line [OF ne ok] last by (simp add: o_def)
  have wf: "pipeline_wf (map (\<lambda>v. bare (executed_stage v)) ?vs)"
    if "\<not> (\<exists>v \<in> set ?vs. length (path_text (vsExecutablePath v)) > CAPS_MAX_TOKEN)"
  proof -
    have "sum_list (map (\<lambda>v. length (stage_tokens (bare (executed_stage v)))) ?vs) \<le>
        sum_list (map (\<lambda>st. length (stage_tokens st)) sts)"
      using pair by (induction rule: list_all2_induct)
        (auto intro!: add_mono dest: stage_of_parse_tokens(2))
    then have "length (bar_join (map stage_tokens (map (\<lambda>v. bare (executed_stage v)) ?vs))) \<le> CAPS_MAX_ARGS"
      using sts(1) list_all2_lengthD [OF pair]
      by (simp add: length_bar_join pipeline_wf_def o_def)
    moreover have "\<forall>v \<in> set ?vs. stage_wf (bare (executed_stage v))"
      using each that stage_of_parse_tokens(4) by (meson not_le)
    ultimately show ?thesis
      using ne sts(1) list_all2_lengthD [OF pair] by (simp add: pipeline_wf_def)
  qed
  have labels: "labelled (map (\<lambda>v. bare (executed_stage v)) ?vs) = map executed_stage ?vs"
    using executed_labelled [OF view] sts(1) by (simp add: pipeline_wf_def)
  note tokenized = parser_tokenize_line [OF render few, folded buildResolvedLine_join, unfolded long kept]
  show ?thesis
    using tokenized parse_pipeline_rebuilt [OF _ wf, of "buildResolvedLine p"] labels
    by (auto simp: parser_parse_pipeline_def)
qed

definition working_engine :: "string \<Rightarrow> engine_reply" where
  "working_engine line =
     (case inspect_line_mode line of
        Inl e \<Rightarrow> Reply_exit_two [] | Inr stages \<Rightarrow> Reply_document stages)"

lemma working_engine_answers: "engine_answers working_engine"
  by (simp add: engine_answers_def working_engine_def split: sum.split)

lemmas lexer_eval = parser_parse_pipeline_def parser_tokenize_def c_isspace_def lex_piece_def
  bb_push_lit_def close_token_def parser_split_redirections_def is_redir_op_def redir_type_of_def
  label_stage_def CAPS_MAX_TOKEN_def CAPS_MAX_LINE_def CAPS_MAX_ARGS_def CAPS_MAX_STAGES_def

definition sample_line :: string where
  "sample_line = ''echo a > o '' @ [ch_dquote, ch_dquote]"

definition sample_stage :: inspected_stage where
  "sample_stage =
     \<lparr>isIndex = 0, isArgv = [''echo'', ''a'', []],
      isRedirections = [\<lparr>irOp = ''>'', irFd = 1, irTarget = ''o''\<rparr>],
      isStdinSource = ''inherit'', isStdoutDest = ''file''\<rparr>"

definition sample_pipeline :: validated_pipeline where
  "sample_pipeline =
     \<lparr>vpCommandLine = sample_line,
      vpStages = [inspected_stage.extend sample_stage
        (validated_stage.fields ''echo'' [''usr'', ''bin'', ''echo'']
           (Resolved_from [''usr'', ''bin'', ''echo'']))],
      vpTimeoutMs = 10000, vpMaxOutputBytes = 64 * 1024\<rparr>"

lemma sample_inspect: "working_engine sample_line = Reply_document [sample_stage]"
  by (simp add: working_engine_def inspect_line_mode_def sample_line_def lexer_eval
      inspected_stage_of_def inspected_redirection_of_def sample_stage_def)

lemmas argument_eval = validateArguments_def check_arguments_def argument_step_def
  initial_state_def flag_like_def positional_step_def mode_step_def

lemmas target_eval = assertTargetInWorkspace_def isSafeRedirTarget_def js_trim_def trim_start_def
  trim_end_def js_space_def control_char_def path_separator_def contained_def relative_path_def

lemma sample_target: "assertTargetInWorkspace sample_bin [''ws''] ''o'' = Inr ()"
  by code_simp

lemma sample_validated:
  "fst (validateCommandLine sample_bin [] [''ws''] working_engine sample_line Map.empty) =
     Inr sample_pipeline"
  unfolding validateCommandLine_def inspectCommandLine_def sample_inspect
  by (simp add: sample_line_def sample_stage_def validate_stage_def sample_target [unfolded sample_bin_def] argument_eval catalog_eval sample_bin_def 
      sample_pipeline_def
      inspected_stage.defs validated_stage.defs probed_from_def)

theorem executed_is_validated_witness:
  "parser_parse_pipeline (buildResolvedLine sample_pipeline) =
     Inr [\<lparr>esArgv = [''/usr/bin/echo'', ''a''],
           esRedirs = [\<lparr>rdType = Redir_out, rdPath = ''o'', rdTargetFd = 1\<rparr>],
           esStdinSource = ''inherit'', esStdoutDest = ''file''\<rparr>] \<and>
   isArgv (hd (vpStages sample_pipeline)) = [''echo'', ''a'', []]"
proof -
  have line: "buildResolvedLine sample_pipeline =
      ''/usr/bin/echo a '' @ [ch_dquote, ch_dquote] @ '' > o''"
    by (simp add: buildResolvedLine_def resolved_stage_def quoteForLexer_def plain_char_def
        sample_pipeline_def sample_stage_def path_text_def inspected_stage.defs validated_stage.defs)
  obtain c' where "validateCommandLine sample_bin [] [''ws''] working_engine sample_line Map.empty =
      (Inr sample_pipeline, c')"
    using sample_validated by (metis prod.collapse)
  from executed_is_validated [OF working_engine_answers this] show ?thesis
    by (simp add: line) (simp add: sample_pipeline_def sample_stage_def executed_stage_def
        kept_arguments_def redirection_of_def redir_type_of_def path_text_def CAPS_MAX_LINE_def
        CAPS_MAX_TOKEN_def inspected_stage.defs validated_stage.defs)
qed

text \<open>An accepted command line is checked in every stage. Each stage names a declared command by its
  bare name, its executable is a verified path of that very command, every argument token passed
  the command's schema, a path operand names a regular file in the workspace, every redirection
  target passed the workspace policy, and the pipeline's two limits are at least those of each
  of its commands and the limit of one of them.\<close>
theorem every_stage_checked:
  assumes "engine_answers ask" and "cache_sound f c"
    and "validateCommandLine f repoRoot ws ask line c = (Inr p, c')"
  shows "vpStages p \<noteq> [] \<and>
    (\<forall>v \<in> set (vpStages p).
      let command = vsCommand v; probed = declared_command f repoRoot command; s = pcSchema probed;
          args = tl (isArgv v); rs = roles s False args in
      isArgv v = command # args \<and> slash \<notin> set command \<and>
      verified_path f repoRoot command (vsExecutablePath v) \<and>
      (\<forall>k < length args. token_ok s (rs ! k) (operand_rank rs k) (args ! k) \<and>
         (rs ! k = Operand_token \<and> asPositionalArePaths s \<and>
          \<not> exempt_operand s (operand_rank rs k) (args ! k) \<longrightarrow>
            assertReadableFileInWorkspace f ws (args ! k) = Inr ())) \<and>
      (\<forall>r \<in> set (isRedirections v). assertTargetInWorkspace f ws (irTarget r) = Inr ()) \<and>
      pcTimeoutMs probed \<le> vpTimeoutMs p \<and> pcMaxOutputBytes probed \<le> vpMaxOutputBytes p) \<and>
    (\<exists>v \<in> set (vpStages p). vpTimeoutMs p = pcTimeoutMs (declared_command f repoRoot (vsCommand v))) \<and>
    (\<exists>v \<in> set (vpStages p).
       vpMaxOutputBytes p = pcMaxOutputBytes (declared_command f repoRoot (vsCommand v)))"
proof -
  let ?vs = "vpStages p"
  have ne: "?vs \<noteq> []"
    using validated_parse [OF assms(1,3)] by (auto simp: pipeline_wf_def)
  obtain checked: "\<forall>v \<in> set ?vs. stage_checked f repoRoot ws v"
      and verified: "\<forall>v \<in> set ?vs. verified_path f repoRoot (vsCommand v) (vsExecutablePath v)"
      and limits: "vpTimeoutMs p =
          fold max (map (\<lambda>v. pcTimeoutMs (declared_command f repoRoot (vsCommand v))) ?vs) 0"
        "vpMaxOutputBytes p =
          fold max (map (\<lambda>v. pcMaxOutputBytes (declared_command f repoRoot (vsCommand v))) ?vs) 0"
    using validateCommandLine_Inr [OF assms(1,3)] assms(2) by blast
  have "vpTimeoutMs p \<in> set (map (\<lambda>v. pcTimeoutMs (declared_command f repoRoot (vsCommand v))) ?vs)"
    "vpMaxOutputBytes p \<in> set (map (\<lambda>v. pcMaxOutputBytes (declared_command f repoRoot (vsCommand v))) ?vs)"
    unfolding limits using ne by (simp_all only: fold_max_mem map_is_Nil_conv not_False_eq_True)
  moreover have "\<forall>v \<in> set ?vs.
      pcTimeoutMs (declared_command f repoRoot (vsCommand v)) \<le> vpTimeoutMs p \<and>
      pcMaxOutputBytes (declared_command f repoRoot (vsCommand v)) \<le> vpMaxOutputBytes p"
    unfolding limits using fold_max_bounds by (metis (no_types, lifting) image_eqI list.set_map)
  ultimately show ?thesis
    using ne checked verified checked_tokens by (auto simp: Let_def)
qed

theorem every_stage_checked_witness:
  "verified_path sample_bin [] ''echo'' [''usr'', ''bin'', ''echo''] \<and>
   pcTimeoutMs (declared_command sample_bin [] ''echo'') \<le> 10000"
proof -
  obtain c' where "validateCommandLine sample_bin [] [''ws''] working_engine sample_line Map.empty =
      (Inr sample_pipeline, c')"
    using sample_validated by (metis prod.collapse)
  from every_stage_checked [OF working_engine_answers cache_sound_empty this] show ?thesis
    by (simp add: sample_pipeline_def sample_stage_def inspected_stage.defs validated_stage.defs Let_def)
qed

definition linked_bin :: fs where
  "linked_bin =
     \<lparr>fsExists = (\<lambda>p. True),
      fsRealpath = (\<lambda>p. if p \<in> {[''usr'', ''bin'', ''echo''], [''usr'', ''bin'', ''seq'']}
                       then Inr [''usr'', ''bin'', ''busybox''] else Inr p),
      fsLstat = (\<lambda>p. Inr \<lparr>fiKind = Regular_file, fiUid = 0, fiMode = 493\<rparr>),
      fsExecutable = (\<lambda>p. True)\<rparr>"

definition line_for :: "fs \<Rightarrow> string \<Rightarrow> terminal_error + string" where
  "line_for f line =
     map_sum id buildResolvedLine
       (fst (validateCommandLine f [] [''ws''] working_engine line Map.empty))"

lemmas terminal_eval = line_for_def validateCommandLine_def inspectCommandLine_def
  working_engine_def inspect_line_mode_def inspected_stage_of_def validate_stage_def
  buildResolvedLine_def resolved_stage_def quoteForLexer_def plain_char_def
  inspected_stage.defs validated_stage.defs probed_from_def

text \<open>A command loses its name on the way to the engine. On a system whose \<open>/usr/bin/echo\<close> is a
  link to a multi-call binary, \<open>echo sh\<close> is accepted as \<open>echo\<close> and the engine is told to run that
  binary with \<open>sh\<close> as its first argument, where such a binary looks for the program to be; and a
  different command linked to the same file gives the same line.\<close>
theorem command_name_lost:
  "line_for linked_bin ''echo sh'' = Inr ''/usr/bin/busybox sh'' \<and>
   line_for linked_bin ''echo 7'' = line_for linked_bin ''seq 7''"
proof
  show "line_for linked_bin ''echo sh'' = Inr ''/usr/bin/busybox sh''"
    by (simp add: terminal_eval lexer_eval argument_eval catalog_eval linked_bin_def)
  have "decimal_value ''7'' = 7 \<and> plain_digits 10 ''7''" by code_simp
  then show "line_for linked_bin ''echo 7'' = line_for linked_bin ''seq 7''"
    by (simp add: terminal_eval lexer_eval argument_eval catalog_eval linked_bin_def
        assertIntegerInRange_def)
qed

end
