(* ===== verification/Event_Store.thy ===== *)
theory Event_Store
  imports Observability
begin

text \<open>
  \<^verbatim>\<open>web/backend/src/db/repositories/events.ts\<close>, \<^verbatim>\<open>sessions.ts\<close> and \<open>transact\<close> of
  \<^verbatim>\<open>db/database.ts\<close>: the two tables the execution path writes, as the code uses them.

  \<open>dbEvents\<close> is the table of events in insertion (rowid) order with its payload column parsed;
  the columns and constraints are those of the first migration: \<open>id\<close> is a primary key,
  \<open>(session_id, sequence)\<close> is unique, \<open>session_id\<close> references an existing session.  A write
  returns \<open>None\<close> where the statement throws; the argument \<open>ok\<close> is the environment's say (disk
  full, lock timeout), a violated constraint throws whatever it says.  \<open>transact\<close> is sequential
  composition in the option monad: nothing of a failed unit of work remains.
\<close>

section \<open>Tables\<close>

text \<open>What a session row's \<open>error\<close> column says, one constructor per template.\<close>

datatype run_error =
    Timed_out_after int
  | Terminated_by_signal "rat option"
  | Execvp_failed string
  | Waitpid_failed string
  | Could_not_launch string
  | Exited_with_code "rat option"
  | Closed_without_outcome
  | No_lifecycle_event
  | Plain_reason string

record session_row =
  rowCommand :: string
  rowArgs :: "string list"
  rowRedirections :: "(string \<times> string \<times> string) list"
  rowStatus :: session_status
  rowStartedAt :: int
  rowTimeoutMs :: int
  rowEndedAt :: "int option"
  rowDurationMs :: "int option"
  rowExitCode :: "rat option"
  rowSignal :: "rat option"
  rowIsSuccess :: "bool option"
  rowPid :: "rat option"
  rowError :: "run_error option"
  rowStdout :: string
  rowStderr :: string

record db =
  dbSessions :: "string \<rightharpoonup> session_row"
  dbEvents :: "canonical_event list"

section \<open>Events\<close>

definition insertEvent :: "bool \<Rightarrow> canonical_event \<Rightarrow> db \<Rightarrow> db option" where
  "insertEvent ok e d =
     (if \<not> ok then None
      else if dbSessions d (evSessionId e) = None then None
      else if \<exists>x \<in> set (dbEvents d). evId x = evId e then None
      else if \<exists>x \<in> set (dbEvents d). evSessionId x = evSessionId e \<and> evSequence x = evSequence e
      then None
      else Some (d \<lparr>dbEvents := dbEvents d @ [e]\<rparr>))"

definition session_events :: "db \<Rightarrow> string \<Rightarrow> canonical_event list" where
  "session_events d sid = filter (\<lambda>e. evSessionId e = sid) (dbEvents d)"

definition maxSequence :: "db \<Rightarrow> string \<Rightarrow> int" where
  "maxSequence d sid = fold max (map evSequence (session_events d sid)) (- 1)"

definition listForSession :: "db \<Rightarrow> string \<Rightarrow> int \<Rightarrow> canonical_event list" where
  "listForSession d sid afterSeq =
     sort_key evSequence (filter (\<lambda>e. evSequence e > afterSeq) (session_events d sid))"

definition listAllForSession :: "db \<Rightarrow> string \<Rightarrow> canonical_event list" where
  "listAllForSession d sid = sort_key evSequence (session_events d sid)"

definition latestForSessionByType :: "db \<Rightarrow> string \<Rightarrow> event_type \<Rightarrow> canonical_event option" where
  "latestForSessionByType d sid ty =
     (case rev (filter (\<lambda>e. evType e = ty) (listAllForSession d sid)) of
        [] \<Rightarrow> None | e # _ \<Rightarrow> Some e)"

definition listRecentGlobal :: "db \<Rightarrow> nat \<Rightarrow> canonical_event list \<times> string set" where
  "listRecentGlobal d limit =
     (let events = rev (take limit (rev (dbEvents d))) in (events, evId ` set events))"

section \<open>Reading a stored event\<close>

record event_row =
  erId :: string
  erSessionId :: string
  erSequence :: int
  erType :: event_type
  erSource :: event_source
  erTimestamp :: int
  erMonotonicMs :: "rat option"
  erPid :: "rat option"
  erPayload :: string
  erPayloadCorrupt :: bool
  erPayloadError :: "string option"

definition baseEvent :: "event_row \<Rightarrow> payload \<Rightarrow> payload \<Rightarrow> canonical_event" where
  "baseEvent r p extra =
     \<lparr>evId = erId r, evSessionId = erSessionId r, evSequence = erSequence r, evType = erType r,
      evSource = erSource r, evTimestamp = erTimestamp r, evMonotonicMs = erMonotonicMs r,
      evPid = erPid r, evPayload = fold (\<lambda>(k, v) q. put k v q) extra p\<rparr>"

definition corrupt_fields :: "string \<Rightarrow> payload" where
  "corrupt_fields why = [(''payloadCorrupt'', JBool True), (''payloadError'', JStr why)]"

text \<open>\<open>parse\<close> is \<open>JSON.parse\<close>, with the message of its error where it throws.\<close>

definition rowToEvent :: "(string \<Rightarrow> string + json) \<Rightarrow> event_row \<Rightarrow> canonical_event" where
  "rowToEvent parse r =
     (if erPayloadCorrupt r
      then baseEvent r []
             (corrupt_fields (case erPayloadError r of
                                Some w \<Rightarrow> w | None \<Rightarrow> ''payload could not be parsed''))
      else
        (case parse (erPayload r) of
           Inr (JObj p) \<Rightarrow> baseEvent r p []
         | Inr _ \<Rightarrow> baseEvent r [] (corrupt_fields ''payload was not a JSON object'')
         | Inl w \<Rightarrow> baseEvent r [] (corrupt_fields w)))"

section \<open>Sessions\<close>

record create_session_input =
  csId :: string
  csCommand :: string
  csArgs :: "string list"
  csRedirections :: "(string \<times> string \<times> string) list"
  csTimeoutMs :: int
  csStartedAt :: int
  csFirstEvent :: "canonical_event option"

definition createWithFirstEvent :: "bool \<Rightarrow> create_session_input \<Rightarrow> db \<Rightarrow> db option" where
  "createWithFirstEvent ok i d =
     (if \<not> ok then None
      else if dbSessions d (csId i) \<noteq> None then None
      else
        (let d = d \<lparr>dbSessions := (dbSessions d)(csId i \<mapsto>
               \<lparr>rowCommand = csCommand i, rowArgs = csArgs i, rowRedirections = csRedirections i,
                rowStatus = CREATED, rowStartedAt = csStartedAt i, rowTimeoutMs = csTimeoutMs i,
                rowEndedAt = None, rowDurationMs = None, rowExitCode = None, rowSignal = None,
                rowIsSuccess = None, rowPid = None, rowError = None, rowStdout = [],
                rowStderr = []\<rparr>)\<rparr>
         in case csFirstEvent i of
              None \<Rightarrow> Some d
            | Some e \<Rightarrow>
                insertEvent True
                  (e \<lparr>evSessionId := csId i, evMonotonicMs := None, evPid := None\<rparr>) d))"

record final_fields =
  ffStatus :: session_status
  ffExitCode :: "rat option"
  ffSignal :: "rat option"
  ffIsSuccess :: "bool option"
  ffDurationMs :: "int option"
  ffPid :: "rat option"
  ffError :: "run_error option"

definition coalesce :: "'a option \<Rightarrow> 'a option \<Rightarrow> 'a option" where
  "coalesce a b = (case a of Some x \<Rightarrow> Some x | None \<Rightarrow> b)"

text \<open>An \<open>UPDATE\<close> of a row that is not there changes nothing and does not throw.\<close>

definition update_row :: "string \<Rightarrow> (session_row \<Rightarrow> session_row) \<Rightarrow> db \<Rightarrow> db" where
  "update_row sid f d = d \<lparr>dbSessions := (dbSessions d)(sid := map_option f (dbSessions d sid))\<rparr>"

definition finalizeRow :: "bool \<Rightarrow> string \<Rightarrow> final_fields \<Rightarrow> int \<Rightarrow> db \<Rightarrow> db option" where
  "finalizeRow ok sid ff now d =
     (if \<not> ok then None
      else Some (update_row sid
        (\<lambda>r. r \<lparr>rowStatus := ffStatus ff, rowExitCode := ffExitCode ff, rowSignal := ffSignal ff,
                rowIsSuccess := ffIsSuccess ff, rowDurationMs := ffDurationMs ff,
                rowPid := coalesce (rowPid r) (ffPid ff), rowError := ffError ff,
                rowEndedAt := coalesce (rowEndedAt r) (Some now)\<rparr>) d))"

definition setStatus :: "string \<Rightarrow> session_status \<Rightarrow> int \<Rightarrow> db \<Rightarrow> db" where
  "setStatus sid st e d =
     update_row sid (\<lambda>r. r \<lparr>rowStatus := st, rowEndedAt := coalesce (rowEndedAt r) (Some e)\<rparr>) d"

definition recordRedirection :: "bool \<Rightarrow> string \<Rightarrow> string \<times> string \<times> string \<Rightarrow> db \<Rightarrow> db option" where
  "recordRedirection ok sid x d =
     (if \<not> ok \<or> dbSessions d sid = None then None
      else Some (update_row sid (\<lambda>r. r \<lparr>rowRedirections := rowRedirections r @ [x]\<rparr>) d))"

definition setPid :: "string \<Rightarrow> rat \<Rightarrow> db \<Rightarrow> db" where
  "setPid sid pid d = update_row sid (\<lambda>r. r \<lparr>rowPid := Some pid\<rparr>) d"

definition appendOutput :: "string \<Rightarrow> string \<Rightarrow> string \<Rightarrow> db \<Rightarrow> db" where
  "appendOutput sid out err d =
     (if length out = 0 \<and> length err = 0 then d
      else update_row sid
        (\<lambda>r. r \<lparr>rowStdout := rowStdout r @ out, rowStderr := rowStderr r @ err\<rparr>) d)"

definition findById :: "db \<Rightarrow> string \<Rightarrow> session_row option" where
  "findById d sid = dbSessions d sid"

definition eventCount :: "db \<Rightarrow> string \<Rightarrow> nat" where
  "eventCount d sid = length (session_events d sid)"

definition deleteById :: "db \<Rightarrow> string \<Rightarrow> db" where
  "deleteById d sid =
     d \<lparr>dbEvents := filter (\<lambda>e. evSessionId e \<noteq> sid) (dbEvents d),
        dbSessions := (dbSessions d)(sid := None)\<rparr>"

text \<open>A session's \<open>created_at\<close> is the \<open>startedAt\<close> it was created with.\<close>

definition purgeOlderThan :: "int \<Rightarrow> db \<Rightarrow> db" where
  "purgeOlderThan cutoff d =
     (let old = (\<lambda>sid. \<exists>r. dbSessions d sid = Some r \<and> rowStartedAt r < cutoff) in
      d \<lparr>dbEvents := filter (\<lambda>e. \<not> old (evSessionId e)) (dbEvents d),
         dbSessions := (\<lambda>sid. if old sid then None else dbSessions d sid)\<rparr>)"

section \<open>The interface of an event log\<close>

text \<open>
  What the execution path and the live stream rely on of the store: an accepted insertion adds
  one event of fresh id and sequence to its session's replay and changes no other session's,
  a replay is in strictly increasing sequence order, and a resume returns its tail.
\<close>

locale event_log =
  fixes insert_ev :: "canonical_event \<Rightarrow> 'db \<Rightarrow> 'db option"
    and replay :: "'db \<Rightarrow> string \<Rightarrow> canonical_event list"
    and resume :: "'db \<Rightarrow> string \<Rightarrow> int \<Rightarrow> canonical_event list"
    and log_ok :: "'db \<Rightarrow> bool"
  assumes insert_ok: "log_ok d \<Longrightarrow> insert_ev e d = Some d' \<Longrightarrow> log_ok d'"
    and insert_own: "log_ok d \<Longrightarrow> insert_ev e d = Some d' \<Longrightarrow>
      mset (replay d' (evSessionId e)) = add_mset e (mset (replay d (evSessionId e)))"
    and insert_other: "insert_ev e d = Some d' \<Longrightarrow> sid \<noteq> evSessionId e \<Longrightarrow> replay d' sid = replay d sid"
    and replay_sorted: "log_ok d \<Longrightarrow> sorted_wrt (<) (map evSequence (replay d sid))"
    and replay_ids: "log_ok d \<Longrightarrow> distinct (map evId (replay d sid))"
    and replay_session: "e \<in> set (replay d sid) \<Longrightarrow> evSessionId e = sid"
    and resume_tail: "resume d sid n = filter (\<lambda>e. evSequence e > n) (replay d sid)"

context event_log
begin

lemma replay_distinct: "log_ok d \<Longrightarrow> distinct (map evSequence (replay d sid))"
  using replay_sorted by (simp add: strict_sorted_iff)

text \<open>An event past the end is appended.\<close>

lemma insert_appends:
  assumes "log_ok d" and "insert_ev e d = Some d'"
    and "\<forall>x \<in> set (replay d (evSessionId e)). evSequence x < evSequence e"
  shows "replay d' (evSessionId e) = replay d (evSessionId e) @ [e]"
proof -
  let ?sid = "evSessionId e"
  have "sorted (map evSequence (replay d' ?sid))" "distinct (map evSequence (replay d' ?sid))"
    using replay_sorted [OF insert_ok [OF assms(1,2)]] by (simp_all add: strict_sorted_iff)
  then have one: "sort_key evSequence (replay d' ?sid) = replay d' ?sid"
    by (simp add: sort_key_id_if_sorted)
  have "sorted (map evSequence (replay d ?sid @ [e]))"
    using replay_sorted [OF assms(1), of ?sid] assms(3)
    by (auto simp: sorted_append strict_sorted_iff)
  then have two: "sort_key evSequence (replay d ?sid @ [e]) = replay d ?sid @ [e]"
    by (simp add: sort_key_id_if_sorted)
  have "sort_key evSequence (replay d' ?sid) = sort_key evSequence (replay d ?sid @ [e])"
  proof (rule sort_key_unique)
    show "mset (replay d' ?sid) = mset (replay d ?sid @ [e])"
      using insert_own [OF assms(1,2)] by simp
  qed fact
  then show ?thesis unfolding one two .
qed

lemma resume_all: "\<forall>x \<in> set (replay d sid). n < evSequence x \<Longrightarrow> resume d sid n = replay d sid"
  by (simp add: resume_tail)

text \<open>Resuming from the last sequence a client saw yields exactly what it has not seen.\<close>

lemma resume_splits:
  assumes "log_ok d" and "replay d sid = seen @ rest" and "seen \<noteq> []"
  shows "resume d sid (evSequence (last seen)) = rest"
proof -
  have s: "sorted_wrt (<) (map evSequence (seen @ rest))"
    using replay_sorted [OF assms(1), of sid] assms(2) by simp
  have "\<forall>x \<in> set seen. \<not> evSequence (last seen) < evSequence x"
  proof
    fix x assume "x \<in> set seen"
    moreover have "sorted_wrt (<) (map evSequence (butlast seen @ [last seen]))"
      using s assms(3) by (simp add: sorted_wrt_append)
    ultimately show "\<not> evSequence (last seen) < evSequence x"
      using assms(3) by (cases seen rule: rev_cases) (auto simp: sorted_wrt_append)
  qed
  moreover have "\<forall>x \<in> set rest. evSequence (last seen) < evSequence x"
    using s assms(3) by (auto simp: sorted_wrt_append)
  ultimately show ?thesis
    by (simp add: resume_tail assms(2))
qed

end

section \<open>The database keeps the interface\<close>

definition db_ok :: "db \<Rightarrow> bool" where
  "db_ok d \<longleftrightarrow> distinct (map evId (dbEvents d)) \<and>
     distinct (map (\<lambda>e. (evSessionId e, evSequence e)) (dbEvents d)) \<and>
     (\<forall>e \<in> set (dbEvents d). dbSessions d (evSessionId e) \<noteq> None)"

lemma insertEvent_Some:
  "insertEvent ok e d = Some d' \<Longrightarrow>
     ok \<and> d' = d \<lparr>dbEvents := dbEvents d @ [e]\<rparr> \<and> dbSessions d (evSessionId e) \<noteq> None \<and>
     (\<forall>x \<in> set (dbEvents d). evId x \<noteq> evId e \<and>
        \<not> (evSessionId x = evSessionId e \<and> evSequence x = evSequence e))"
  by (auto simp: insertEvent_def split: if_splits)

lemma insertEvent_ok: "db_ok d \<Longrightarrow> insertEvent ok e d = Some d' \<Longrightarrow> db_ok d'"
  by (drule insertEvent_Some) (auto simp: db_ok_def)

lemma session_events_distinct: "db_ok d \<Longrightarrow> distinct (map evSequence (session_events d sid))"
  unfolding db_ok_def session_events_def
  by (auto simp: distinct_map inj_on_def intro!: distinct_filter)

lemma filter_sort_key: "filter P (sort_key f xs) = sort_key f (filter P xs)"
  by (simp add: filter_sort)

interpretation store: event_log "insertEvent ok" listAllForSession listForSession db_ok for ok
proof
  fix d e d' assume "db_ok d" "insertEvent ok e d = Some d'"
  then show "db_ok d'" by (rule insertEvent_ok)
next
  fix d e d' assume "db_ok d" "insertEvent ok e d = Some d'"
  then show "mset (listAllForSession d' (evSessionId e)) =
      add_mset e (mset (listAllForSession d (evSessionId e)))"
    by (auto simp: listAllForSession_def session_events_def dest!: insertEvent_Some)
next
  fix e d d' and sid :: string assume "insertEvent ok e d = Some d'" "sid \<noteq> evSessionId e"
  then show "listAllForSession d' sid = listAllForSession d sid"
    by (auto simp: listAllForSession_def session_events_def dest!: insertEvent_Some)
next
  fix d and sid :: string assume "db_ok d"
  then show "sorted_wrt (<) (map evSequence (listAllForSession d sid))"
    using session_events_distinct [of d sid]
    by (simp add: strict_sorted_iff listAllForSession_def distinct_map distinct_sort)
next
  fix d and sid :: string assume "db_ok d"
  then have "distinct (map evId (session_events d sid))"
    unfolding db_ok_def session_events_def by (simp add: distinct_map_filter)
  then show "distinct (map evId (listAllForSession d sid))"
    by (simp add: listAllForSession_def distinct_map distinct_sort)
next
  fix e d and sid :: string assume "e \<in> set (listAllForSession d sid)"
  then show "evSessionId e = sid" by (simp add: listAllForSession_def session_events_def)
next
  fix d and sid :: string and n
  show "listForSession d sid n = filter (\<lambda>e. evSequence e > n) (listAllForSession d sid)"
    by (simp add: listForSession_def listAllForSession_def filter_sort_key)
qed

end
