(* ===== verification/Process_Identity.thy ===== *)
theory Process_Identity
  imports Decimal
begin

text \<open>
  \<^verbatim>\<open>web/backend/src/execution/terminator.ts\<close>: identities that survive pid reuse, and the signals
  sent under them.  The operating system is the record \<open>os\<close>: the text of \<^verbatim>\<open>/proc/<pid>/stat\<close>,
  the answer of \<open>kill\<close> and that of the pidfd helper (\<^verbatim>\<open>execution/pidfd.ts\<close>).  A synchronous
  function sees one \<open>os\<close>; \<open>escalateTo\<close> waits for the helper between its check and its kill,
  so it takes the system before and after that wait.  The second component of a result is the
  list of deliveries made, so that "nothing was signalled" is a statement about it.
\<close>

section \<open>Reading an identity\<close>

record process_identity =
  piPid :: int
  piStartTicks :: nat

datatype sig = Sig_name string | Sig_number nat

datatype kill_error = ESRCH | Kill_error string

record pidfd_outcome =
  poPidfd :: bool
  poDelivered :: bool
  poReason :: string

record os =
  osStat :: "int \<Rightarrow> string option"
  osKill :: "int \<Rightarrow> sig \<Rightarrow> kill_error option"
  osPidfd :: "int \<Rightarrow> nat \<Rightarrow> nat \<Rightarrow> pidfd_outcome"

text \<open>The part of a text after its last closing parenthesis.\<close>

definition after_last_paren :: "string \<Rightarrow> string option" where
  "after_last_paren text =
     (if CHR '')'' \<in> set text then Some (rev (takeWhile (\<lambda>c. c \<noteq> CHR '')'') (rev text))) else None)"

text \<open>\<open>s.trim().split(/\s+/)\<close>\<close>

definition split_spaces :: "string \<Rightarrow> string list" where
  "split_spaces s =
     (if js_trim s = [] then [[]] else filter (\<lambda>w. w \<noteq> []) (split_on js_space s))"

definition MAX_SAFE_INTEGER :: nat where
  "MAX_SAFE_INTEGER = 2 ^ 53 - 1"

definition stat_ticks :: "string list \<Rightarrow> nat option" where
  "stat_ticks rest =
     (if length rest \<le> 19 then None
      else
        (let raw = rest ! 19 in
         if raw = [] \<or> \<not> (\<forall>c \<in> set raw. is_digit c) then None
         else if decimal_value raw \<le> MAX_SAFE_INTEGER then Some (decimal_value raw) else None))"

definition parseStartTicks :: "string \<Rightarrow> nat option" where
  "parseStartTicks text =
     (case after_last_paren text of None \<Rightarrow> None | Some r \<Rightarrow> stat_ticks (split_spaces r))"

definition readProcessIdentity :: "os \<Rightarrow> rat option \<Rightarrow> process_identity option" where
  "readProcessIdentity s pid =
     (case pid of
        None \<Rightarrow> None
      | Some p \<Rightarrow>
          if \<not> is_integral p \<or> p \<le> 0 then None
          else
            (case osStat s \<lfloor>p\<rfloor> of
               None \<Rightarrow> None
             | Some text \<Rightarrow>
                 (case parseStartTicks text of
                    None \<Rightarrow> None
                  | Some t \<Rightarrow> Some \<lparr>piPid = \<lfloor>p\<rfloor>, piStartTicks = t\<rparr>)))"

section \<open>The identity cache\<close>

type_synonym tick_cache = "int \<rightharpoonup> nat"

definition rememberIdentity ::
    "os \<Rightarrow> rat option \<Rightarrow> tick_cache \<Rightarrow> process_identity option \<times> tick_cache" where
  "rememberIdentity s pid c =
     (case readProcessIdentity s pid of
        None \<Rightarrow> (None, c)
      | Some i \<Rightarrow> (Some i, c(piPid i \<mapsto> piStartTicks i)))"

definition recalledIdentity :: "int option \<Rightarrow> tick_cache \<Rightarrow> process_identity option" where
  "recalledIdentity pid c =
     (case pid of
        None \<Rightarrow> None
      | Some p \<Rightarrow> map_option (\<lambda>t. \<lparr>piPid = p, piStartTicks = t\<rparr>) (c p))"

definition forgetIdentity :: "process_identity option \<Rightarrow> tick_cache \<Rightarrow> tick_cache" where
  "forgetIdentity i c =
     (case i of
        None \<Rightarrow> c
      | Some j \<Rightarrow> if c (piPid j) = Some (piStartTicks j) then c(piPid j := None) else c)"

definition resetIdentityCache :: "tick_cache \<Rightarrow> tick_cache" where
  "resetIdentityCache c = Map.empty"

section \<open>Sending a signal\<close>

datatype mechanism = Via_pidfd | Via_kill | Via_kill_group | Via_none

datatype signal_reason =
    No_child_pid | Already_gone | Kill_failed string | No_captured_identity
  | Identity_changed int | No_process_group | No_member_identities | No_live_member int
  | Group_empty | No_recorded_identity | No_proc_entry | Pidfd_said string
  | Reused int nat nat | Verified_by_ticks | Nothing_tracked | Group_killed

record signal_result =
  srSent :: bool
  srReason :: "signal_reason option"
  srIdentity :: "process_identity option"
  srMechanism :: mechanism

type_synonym deliveries = "(int \<times> sig) list"

definition SIGNAL_NUMBERS :: "(string \<times> nat) list" where
  "SIGNAL_NUMBERS =
     [(''SIGHUP'', 1), (''SIGINT'', 2), (''SIGQUIT'', 3), (''SIGKILL'', 9), (''SIGTERM'', 15)]"

definition signalNumber :: "sig \<Rightarrow> nat option" where
  "signalNumber s = (case s of Sig_number n \<Rightarrow> Some n | Sig_name w \<Rightarrow> map_of SIGNAL_NUMBERS w)"

definition refused :: "signal_reason \<Rightarrow> process_identity option \<Rightarrow> mechanism \<Rightarrow> signal_result" where
  "refused r i m = \<lparr>srSent = False, srReason = Some r, srIdentity = i, srMechanism = m\<rparr>"

definition kill_reason :: "kill_error \<Rightarrow> signal_reason \<Rightarrow> signal_reason" where
  "kill_reason e gone = (case e of ESRCH \<Rightarrow> gone | Kill_error m \<Rightarrow> Kill_failed m)"

definition signalChild ::
    "os \<Rightarrow> int option \<Rightarrow> sig \<Rightarrow> tick_cache \<Rightarrow> signal_result \<times> deliveries \<times> tick_cache" where
  "signalChild s pid sg c =
     (case pid of
        None \<Rightarrow> (refused No_child_pid None Via_none, [], c)
      | Some p \<Rightarrow>
          if p \<le> 0 then (refused No_child_pid None Via_none, [], c)
          else
            (let (identity, c) = rememberIdentity s (Some (of_int p)) c in
             case osKill s p sg of
               None \<Rightarrow>
                 (\<lparr>srSent = True, srReason = None, srIdentity = identity, srMechanism = Via_kill\<rparr>,
                  [(p, sg)], c)
             | Some e \<Rightarrow> (refused (kill_reason e Already_gone) identity Via_none, [], c)))"

definition signalCapturedIdentity ::
    "os \<Rightarrow> process_identity option \<Rightarrow> sig \<Rightarrow> signal_result \<times> deliveries" where
  "signalCapturedIdentity s expected sg =
     (case expected of
        None \<Rightarrow> (refused No_captured_identity None Via_none, [])
      | Some i \<Rightarrow>
          (let current = readProcessIdentity s (Some (of_int (piPid i))) in
           if current = None \<or> piStartTicks (the current) \<noteq> piStartTicks i
           then (refused (Identity_changed (piPid i)) current Via_none, [])
           else
             (case osKill s (piPid i) sg of
                None \<Rightarrow>
                  (\<lparr>srSent = True, srReason = None, srIdentity = Some i, srMechanism = Via_kill\<rparr>,
                   [(piPid i, sg)])
              | Some e \<Rightarrow> (refused (kill_reason e Already_gone) (Some i) Via_none, []))))"

section \<open>The process group\<close>

text \<open>\<open>Number(fields[2])\<close> on what the kernel prints there: a decimal with an optional sign.\<close>

definition safe_integer :: "string \<Rightarrow> int option" where
  "safe_integer w =
     (let digits = (if prefix ''-'' w then tl w else w) in
      if digits = [] \<or> \<not> (\<forall>c \<in> set digits. is_digit c) then None
      else if decimal_value digits > MAX_SAFE_INTEGER then None
      else Some (if prefix ''-'' w then - int (decimal_value digits) else int (decimal_value digits)))"

definition readProcessGroupIdentity :: "os \<Rightarrow> int \<Rightarrow> (process_identity \<times> int) option" where
  "readProcessGroupIdentity s pid =
     (case osStat s pid of
        None \<Rightarrow> None
      | Some stat \<Rightarrow>
          (case after_last_paren stat of
             None \<Rightarrow> None
           | Some r \<Rightarrow>
               (let fields = split_spaces r in
                case (parseStartTicks stat, if length fields \<le> 2 then None else safe_integer (fields ! 2)) of
                  (Some t, Some g) \<Rightarrow> Some (\<lparr>piPid = pid, piStartTicks = t\<rparr>, g)
                | _ \<Rightarrow> None)))"

definition live_member :: "os \<Rightarrow> int \<Rightarrow> process_identity \<Rightarrow> bool" where
  "live_member s pgid expected \<longleftrightarrow>
     (case readProcessGroupIdentity s (piPid expected) of
        None \<Rightarrow> False
      | Some (current, g) \<Rightarrow> piStartTicks current = piStartTicks expected \<and> g = pgid)"

definition signalProcessGroup ::
    "os \<Rightarrow> int option \<Rightarrow> process_identity list \<Rightarrow> sig \<Rightarrow> signal_result \<times> deliveries" where
  "signalProcessGroup s pgid members sg =
     (case pgid of
        None \<Rightarrow> (refused No_process_group None Via_none, [])
      | Some g \<Rightarrow>
          if g \<le> 1 then (refused No_process_group None Via_none, [])
          else if members = [] then (refused No_member_identities None Via_none, [])
          else
            (case find (live_member s g) members of
               None \<Rightarrow> (refused (No_live_member g) None Via_none, [])
             | Some member \<Rightarrow>
                 (case osKill s (- g) sg of
                    None \<Rightarrow>
                      (\<lparr>srSent = True, srReason = None, srIdentity = Some member,
                        srMechanism = Via_kill_group\<rparr>, [(- g, sg)])
                  | Some e \<Rightarrow> (refused (kill_reason e Group_empty) (Some member) Via_none, []))))"

section \<open>Escalation\<close>

text \<open>A delivery through the helper is recorded as one to the expected pid.\<close>

definition escalateTo ::
    "os \<Rightarrow> os \<Rightarrow> process_identity option \<Rightarrow> sig \<Rightarrow> signal_result \<times> deliveries" where
  "escalateTo before after expected sg =
     (case expected of
        None \<Rightarrow> (refused No_recorded_identity None Via_none, [])
      | Some i \<Rightarrow>
          (case readProcessIdentity before (Some (of_int (piPid i))) of
             None \<Rightarrow> (refused No_proc_entry None Via_none, [])
           | Some current \<Rightarrow>
               (let p = osPidfd before (piPid i) (piStartTicks i) (the (signalNumber sg)) in
                if poPidfd p
                then (if poDelivered p
                      then (\<lparr>srSent = True, srReason = Some (Pidfd_said (poReason p)),
                             srIdentity = Some current, srMechanism = Via_pidfd\<rparr>, [(piPid i, sg)])
                      else (refused (Pidfd_said (poReason p)) (Some current) Via_pidfd, []))
                else if piStartTicks current \<noteq> piStartTicks i
                then (refused (Reused (piPid i) (piStartTicks i) (piStartTicks current))
                        (Some current) Via_none, [])
                else
                  (case osKill after (piPid i) sg of
                     None \<Rightarrow>
                       (\<lparr>srSent = True, srReason = Some Verified_by_ticks,
                         srIdentity = Some current, srMechanism = Via_kill\<rparr>, [(piPid i, sg)])
                   | Some e \<Rightarrow> (refused (kill_reason e Already_gone) (Some current) Via_none, [])))))"

text \<open>
  Each round of the fallback waits for the helper: \<open>w 0\<close>, \<open>w 1\<close>, ... is the system at its
  successive checks and kills.
\<close>

fun escalateTrackedIdentities ::
    "(nat \<Rightarrow> os) \<Rightarrow> process_identity list \<Rightarrow> sig \<Rightarrow> signal_reason \<Rightarrow> signal_result \<times> deliveries" where
  "escalateTrackedIdentities w [] sg lastReason =
     (refused lastReason None Via_none, [])"
| "escalateTrackedIdentities w (i # is) sg lastReason =
     (let (outcome, d) = escalateTo (w 0) (w 1) (Some i) sg in
      if srSent outcome
      then (\<lparr>srSent = True, srReason = srReason outcome, srIdentity = None,
             srMechanism = srMechanism outcome\<rparr>, d)
      else escalateTrackedIdentities (\<lambda>k. w (k + 2)) is sg (the (srReason outcome)))"

text \<open>
  \<open>terminateGracefully\<close> in two parts: the signal sent now, and the escalation that runs after
  the grace period, on the system as it is at the moments \<open>w 0\<close>, \<open>w 1\<close>, ... then.  \<open>grp\<close> is the group option's pgid and members.
\<close>

definition terminateFirst ::
    "os \<Rightarrow> int option \<Rightarrow> sig \<Rightarrow> (int option \<times> process_identity list) option \<Rightarrow> tick_cache
      \<Rightarrow> signal_result \<times> deliveries \<times> tick_cache" where
  "terminateFirst s pid sg grp c =
     (case grp of
        None \<Rightarrow> signalChild s pid sg c
      | Some (pgid, members) \<Rightarrow>
          (let (r, d) = signalProcessGroup s pgid members sg in
           if srSent r then (r, d, c)
           else
             (let capturedTarget = find (\<lambda>m. Some (piPid m) = pid) members;
                  (r, d) = signalCapturedIdentity s capturedTarget sg
              in (r, d, c))))"

definition terminateEscalation ::
    "(nat \<Rightarrow> os) \<Rightarrow> int option \<Rightarrow> (int option \<times> process_identity list) option \<Rightarrow> signal_result
      \<Rightarrow> signal_result \<times> deliveries" where
  "terminateEscalation w pid grp first =
     (let sigkill = Sig_name ''SIGKILL'' in
      if \<not> srSent first
      then (\<lparr>srSent = False, srReason = srReason first, srIdentity = None,
             srMechanism = srMechanism first\<rparr>, [])
      else
        (case grp of
           Some (pgid, members) \<Rightarrow>
             (let (r, d) = signalProcessGroup (w 0) pgid members sigkill in
              if srSent r
              then (\<lparr>srSent = True, srReason = Some Group_killed, srIdentity = None,
                     srMechanism = Via_kill_group\<rparr>, d)
              else escalateTrackedIdentities w members sigkill Nothing_tracked)
         | None \<Rightarrow>
             (let target = (case pid of Some p \<Rightarrow> Some p
                            | None \<Rightarrow> map_option piPid (srIdentity first)) in
              case (target, srIdentity first) of
                (Some p, Some i) \<Rightarrow>
                  escalateTo (w 0) (w 1) (Some \<lparr>piPid = p, piStartTicks = piStartTicks i\<rparr>) sigkill
              | _ \<Rightarrow> escalateTo (w 0) (w 1) None sigkill)))"


section \<open>Lemmas\<close>

lemma after_last_paren_append:
  "CHR '')'' \<notin> set b \<Longrightarrow> after_last_paren (a @ CHR '')'' # b) = Some b"
proof -
  assume b: "CHR '')'' \<notin> set b"
  then have "takeWhile (\<lambda>c. c \<noteq> CHR '')'') (rev b @ CHR '')'' # rev a) = rev b"
    by (subst takeWhile_append2) auto
  then show ?thesis by (simp add: after_last_paren_def)
qed

lemma js_space_blank [simp]: "js_space (CHR 0x20)"
  by (simp add: js_space_def)

lemma dropWhile_no: "xs \<noteq> [] \<Longrightarrow> \<not> P (hd xs) \<Longrightarrow> dropWhile P xs = xs"
  by (cases xs) auto

definition stat_word :: "string \<Rightarrow> bool" where
  "stat_word w \<longleftrightarrow> w \<noteq> [] \<and> (\<forall>c \<in> set w. \<not> js_space c \<and> c \<noteq> CHR '')'')"

lemma split_words:
  "ws \<noteq> [] \<Longrightarrow> \<forall>w \<in> set ws. stat_word w \<Longrightarrow> split_on js_space (join_with '' '' ws) = ws"
proof (induction "'' ''" ws rule: join_with.induct)
  case (2 w)
  then show ?case by (auto simp: stat_word_def intro!: split_on_no_sep)
next
  case (3 w v ws)
  have "split_on js_space (w @ CHR 0x20 # join_with '' '' (v # ws)) =
      w # split_on js_space (join_with '' '' (v # ws))"
    using 3(3) by (intro split_on_append_sep) (auto simp: stat_word_def)
  with 3 show ?case by simp
qed simp

lemma trim_nonempty: "\<exists>c \<in> set s. \<not> js_space c \<Longrightarrow> js_trim s \<noteq> []"
  by (auto simp: js_trim_def trim_start_def trim_end_def dropWhile_eq_Nil_conv)
     (metis set_takeWhileD takeWhile_dropWhile_id Un_iff set_append)

lemma join_words_chars: "w \<in> set ws \<Longrightarrow> c \<in> set w \<Longrightarrow> c \<in> set (join_with sep ws)"
  by (induction sep ws rule: join_with.induct) auto

lemma set_join_words: "c \<in> set (join_with sep ws) \<Longrightarrow> c \<in> set sep \<or> (\<exists>w \<in> set ws. c \<in> set w)"
  by (induction sep ws rule: join_with.induct) auto

lemma split_spaces_words:
  assumes "ws \<noteq> []" and "\<forall>w \<in> set ws. stat_word w"
  shows "split_spaces (CHR 0x20 # join_with '' '' ws) = ws"
proof -
  obtain w where w: "w \<in> set ws" "stat_word w" using assms by (cases ws) auto
  then have "hd w \<in> set w" "\<not> js_space (hd w)"
    unfolding stat_word_def by (meson hd_in_set)+
  then obtain c where "c \<in> set w" "\<not> js_space c" by blast
  with w have "js_trim (CHR 0x20 # join_with '' '' ws) \<noteq> []"
    by (intro trim_nonempty) (auto dest: join_words_chars)
  moreover have "filter (\<lambda>w. w \<noteq> []) ws = ws"
    using assms(2) by (auto simp: filter_id_conv stat_word_def)
  ultimately show ?thesis
    using assms by (simp add: split_spaces_def split_words)
qed

lemma readProcessIdentity_pid:
  "readProcessIdentity s (Some (of_int p)) = Some i \<Longrightarrow> piPid i = p \<and> 0 < p"
  by (auto simp: readProcessIdentity_def split: if_splits option.splits)

lemma signalCapturedIdentity_deliveries:
  "(t, g) \<in> set (snd (signalCapturedIdentity s (Some i) sg)) \<Longrightarrow>
     t = piPid i \<and> readProcessIdentity s (Some (of_int (piPid i))) = Some i"
  by (auto simp: signalCapturedIdentity_def Let_def dest!: readProcessIdentity_pid
      split: if_splits option.splits)

text \<open>A recorded member that still is the process it was recorded as, in the group recorded for it.\<close>

definition same_process_in :: "os \<Rightarrow> int \<Rightarrow> process_identity \<Rightarrow> bool" where
  "same_process_in s p m \<longleftrightarrow>
     (\<exists>i. readProcessGroupIdentity s (piPid m) = Some (i, p) \<and> piStartTicks i = piStartTicks m)"

lemma live_member_same: "live_member s p m \<Longrightarrow> same_process_in s p m"
  by (auto simp: live_member_def same_process_in_def split: option.splits)

lemma signalProcessGroup_deliveries:
  "(t, g) \<in> set (snd (signalProcessGroup s pgid members sg)) \<Longrightarrow>
     \<exists>p. pgid = Some p \<and> 1 < p \<and> t = - p \<and> (\<exists>m \<in> set members. same_process_in s p m)"
  by (auto simp: signalProcessGroup_def find_Some_iff intro: live_member_same nth_mem
      split: if_splits option.splits)

definition verified_target ::
    "os \<Rightarrow> int option \<Rightarrow> process_identity list \<Rightarrow> int \<Rightarrow> bool" where
  "verified_target s pgid members t \<longleftrightarrow>
     (\<exists>p. pgid = Some p \<and> 1 < p \<and> t = - p \<and> (\<exists>m \<in> set members. same_process_in s p m)) \<or>
     (\<exists>m \<in> set members. t = piPid m \<and> 0 < t \<and>
        (readProcessIdentity s (Some (of_int t)) = Some m \<or>
         (\<exists>i n. readProcessIdentity s (Some (of_int t)) = Some i \<and>
            poDelivered (osPidfd s t (piStartTicks m) n))))"

lemma escalateTo_deliveries:
  "(t, g) \<in> set (snd (escalateTo b a (Some i) sg)) \<Longrightarrow>
     t = piPid i \<and> 0 < t \<and>
     (readProcessIdentity b (Some (of_int t)) = Some i \<or>
      (\<exists>j n. readProcessIdentity b (Some (of_int t)) = Some j \<and> poDelivered (osPidfd b t (piStartTicks i) n)))"
proof -
  assume d: "(t, g) \<in> set (snd (escalateTo b a (Some i) sg))"
  then obtain j where j: "readProcessIdentity b (Some (of_int (piPid i))) = Some j"
    by (auto simp: escalateTo_def split: option.splits)
  with d show ?thesis
    using readProcessIdentity_pid [OF j]
    by (auto simp: escalateTo_def Let_def split: if_splits option.splits)
qed

lemma escalateTracked_deliveries:
  "(t, g) \<in> set (snd (escalateTrackedIdentities w ms sg r)) \<Longrightarrow> \<exists>m \<in> set ms. \<exists>k.
     t = piPid m \<and> 0 < t \<and>
     (readProcessIdentity (w k) (Some (of_int t)) = Some m \<or>
      (\<exists>j n. readProcessIdentity (w k) (Some (of_int t)) = Some j \<and>
         poDelivered (osPidfd (w k) t (piStartTicks m) n)))"
proof (induction ms arbitrary: r w)
  case (Cons i ms)
  show ?case
  proof (cases "srSent (fst (escalateTo (w 0) (w 1) (Some i) sg))")
    case True
    with Cons.prems have "(t, g) \<in> set (snd (escalateTo (w 0) (w 1) (Some i) sg))"
      by (simp add: split_beta Let_def)
    from escalateTo_deliveries [OF this] show ?thesis by auto
  next
    case False
    with Cons.prems have "(t, g) \<in> set (snd (escalateTrackedIdentities (\<lambda>k. w (k + 2)) ms sg
        (the (srReason (fst (escalateTo (w 0) (w 1) (Some i) sg))))))"
      by (simp add: split_beta Let_def)
    from Cons.IH [OF this] show ?thesis by (meson list.set_intros(2))
  qed
qed simp

lemma escalateTo_one: "length (snd (escalateTo b a i sg)) \<le> 1"
  by (simp add: escalateTo_def Let_def split: option.split)

lemma terminateFirst_verified:
  assumes d: "(t, g) \<in> set (fst (snd (terminateFirst s pid sg (Some (pgid, members)) c)))"
  shows "verified_target s pgid members t"
proof (cases "srSent (fst (signalProcessGroup s pgid members sg))")
  case True
  with d have "(t, g) \<in> set (snd (signalProcessGroup s pgid members sg))"
    by (simp add: terminateFirst_def split_beta Let_def)
  from signalProcessGroup_deliveries [OF this] show ?thesis by (auto simp: verified_target_def)
next
  case False
  with d have d': "(t, g) \<in> set (snd (signalCapturedIdentity s (find (\<lambda>m. Some (piPid m) = pid) members) sg))"
    by (simp add: terminateFirst_def split_beta Let_def)
  then obtain m where m: "find (\<lambda>m. Some (piPid m) = pid) members = Some m"
    by (cases "find (\<lambda>m. Some (piPid m) = pid) members") (auto simp: signalCapturedIdentity_def)
  then have "m \<in> set members" by (auto simp: find_Some_iff)
  moreover have "t = piPid m \<and> readProcessIdentity s (Some (of_int (piPid m))) = Some m"
    using d' m signalCapturedIdentity_deliveries [of t g s m sg] by simp
  moreover from this have "0 < t"
    using readProcessIdentity_pid by blast
  ultimately show ?thesis unfolding verified_target_def by blast
qed

lemma terminateEscalation_verified:
  assumes "(t, g) \<in> set (snd (terminateEscalation w pid (Some (pgid, members)) first))"
  shows "\<exists>k. verified_target (w k) pgid members t"
proof -
  from assms consider
      "(t, g) \<in> set (snd (signalProcessGroup (w 0) pgid members (Sig_name ''SIGKILL'')))"
    | "(t, g) \<in> set (snd (escalateTrackedIdentities w members (Sig_name ''SIGKILL'') Nothing_tracked))"
    by (auto simp: terminateEscalation_def split_beta Let_def split: if_splits)
  then show ?thesis
  proof cases
    case 1
    from signalProcessGroup_deliveries [OF this] show ?thesis by (auto simp: verified_target_def)
  next
    case 2
    from escalateTracked_deliveries [OF this] show ?thesis
      unfolding verified_target_def by blast
  qed
qed

section \<open>Properties\<close>

text \<open>The start time of a process is read correctly whatever its name: with any command text
  between the parentheses, closing parentheses and spaces included, the twentieth field after
  the last parenthesis is the identity.\<close>
theorem parseStartTicks_any_name:
  assumes "\<forall>w \<in> set columns. stat_word w" and "19 < length columns"
    and "columns ! 19 = nat_text t" and "t \<le> MAX_SAFE_INTEGER"
  shows "parseStartTicks (nat_text pid @ '' ('' @ comm @ '') '' @ join_with '' '' columns) = Some t"
proof -
  have "CHR '')'' \<notin> set (CHR 0x20 # join_with '' '' columns)"
  proof
    assume "CHR '')'' \<in> set (CHR 0x20 # join_with '' '' columns)"
    then have "CHR '')'' \<in> set (join_with '' '' columns)" by simp
    then obtain w where "w \<in> set columns" "CHR '')'' \<in> set w"
      using set_join_words by fastforce
    with assms(1) show False by (auto simp: stat_word_def)
  qed
  from after_last_paren_append [OF this, of "nat_text pid @ '' ('' @ comm"]
  have "after_last_paren (nat_text pid @ '' ('' @ comm @ '') '' @ join_with '' '' columns) =
      Some (CHR 0x20 # join_with '' '' columns)" by simp
  moreover have "split_spaces (CHR 0x20 # join_with '' '' columns) = columns"
    using assms(1,2) by (intro split_spaces_words) auto
  moreover have "\<forall>c \<in> set (nat_text t). is_digit c"
    using nat_text_digits by blast
  ultimately show ?thesis
    using assms(2-4) by (simp add: parseStartTicks_def stat_ticks_def Let_def)
qed

theorem parseStartTicks_any_name_witness:
  "parseStartTicks (nat_text 7 @ '' ('' @ ''a) R 1'' @ '') '' @
     join_with '' '' (replicate 19 ''0'' @ [nat_text 42])) = Some 42"
  by (rule parseStartTicks_any_name)
     (auto simp: stat_word_def js_space_def nth_append MAX_SAFE_INTEGER_def nat_text.simps
       digit_char_def)

text \<open>C10: A signal reaches only a process the gateway started. Whatever
  \<open>terminateGracefully\<close> delivers, now or on escalation, goes to the recorded group (never 0 or 1) while one of its
  recorded members is alive in it under its recorded start time, or to a recorded member whose
  identity was read back, or through the kernel handle bound to that member's identity; a
  recycled pid is never signalled and nothing is ever sent to pid 0 or -1.\<close>
theorem only_own_processes_signalled:
  assumes "(t, g) \<in> set (fst (snd (terminateFirst s pid sg (Some (pgid, members)) c))) \<or>
    (t, g) \<in> set (snd (terminateEscalation w pid (Some (pgid, members)) first))"
  shows "(verified_target s pgid members t \<or> (\<exists>k. verified_target (w k) pgid members t)) \<and>
    t \<noteq> 0 \<and> t \<noteq> - 1"
proof -
  have "verified_target s pgid members t \<or> (\<exists>k. verified_target (w k) pgid members t)"
    using assms terminateFirst_verified terminateEscalation_verified by blast
  moreover have "verified_target u pgid members t \<Longrightarrow> t \<noteq> 0 \<and> t \<noteq> - 1" for u
    by (auto simp: verified_target_def)
  ultimately show ?thesis by blast
qed

definition sample_columns :: "string list" where
  "sample_columns = [''S'', ''1'', ''7''] @ replicate 17 ''5''"

definition sample_os :: os where
  "sample_os =
     \<lparr>osStat = (\<lambda>p. if p = 7 then Some (''7 (x'' @ CHR '')'' # CHR 0x20 # join_with '' '' sample_columns)
                   else None),
      osKill = (\<lambda>p sg. None),
      osPidfd = (\<lambda>p t n. \<lparr>poPidfd = False, poDelivered = False, poReason = []\<rparr>)\<rparr>"

lemma sample_stat:
  "after_last_paren (''7 (x'' @ CHR '')'' # CHR 0x20 # join_with '' '' sample_columns) =
     Some (CHR 0x20 # join_with '' '' sample_columns)"
  "split_spaces (CHR 0x20 # join_with '' '' sample_columns) = sample_columns"
proof -
  have words: "\<forall>w \<in> set sample_columns. stat_word w"
    by (auto simp: sample_columns_def stat_word_def js_space_def)
  have "CHR '')'' \<notin> set (CHR 0x20 # join_with '' '' sample_columns)"
  proof
    assume "CHR '')'' \<in> set (CHR 0x20 # join_with '' '' sample_columns)"
    then have "CHR '')'' \<in> set (join_with '' '' sample_columns)" by simp
    then obtain w where "w \<in> set sample_columns" "CHR '')'' \<in> set w"
      using set_join_words by fastforce
    with words show False by (auto simp: stat_word_def)
  qed
  then show "after_last_paren (''7 (x'' @ CHR '')'' # CHR 0x20 # join_with '' '' sample_columns) =
     Some (CHR 0x20 # join_with '' '' sample_columns)"
    by (rule after_last_paren_append)
  show "split_spaces (CHR 0x20 # join_with '' '' sample_columns) = sample_columns"
    using words by (intro split_spaces_words) (simp_all add: sample_columns_def)
qed

lemma sample_fields:
  "length sample_columns = 20" "sample_columns ! 2 = ''7''" "sample_columns ! 19 = ''5''"
  by (simp_all add: sample_columns_def nth_append)

theorem only_own_processes_signalled_witness:
  "verified_target sample_os (Some 7) [\<lparr>piPid = 7, piStartTicks = 5\<rparr>] (- 7)"
proof -
  have "parseStartTicks (''7 (x'' @ CHR '')'' # CHR 0x20 # join_with '' '' sample_columns) = Some 5"
    unfolding parseStartTicks_def sample_stat option.case stat_ticks_def sample_fields Let_def
    by (simp add: is_digit_def decimal_value_def digit_value_def MAX_SAFE_INTEGER_def)
  moreover have "safe_integer ''7'' = Some 7"
    by (simp add: safe_integer_def is_digit_def decimal_value_def digit_value_def MAX_SAFE_INTEGER_def)
  ultimately have "live_member sample_os 7 \<lparr>piPid = 7, piStartTicks = 5\<rparr>"
    unfolding live_member_def readProcessGroupIdentity_def
    by (simp add: sample_os_def sample_stat [simplified] sample_fields)
  then have "(- 7, Sig_number 15) \<in> set (fst (snd (terminateFirst sample_os (Some 7) (Sig_number 15)
      (Some (Some 7, [\<lparr>piPid = 7, piStartTicks = 5\<rparr>])) Map.empty)))"
    by (simp add: terminateFirst_def signalProcessGroup_def) (simp add: sample_os_def)
  from only_own_processes_signalled [OF disjI1 [OF this], where w = "\<lambda>k. sample_os"]
  show ?thesis by simp
qed

text \<open>The fallback escalation stops at the first success: when the group cannot be killed as a
  whole, at most one recorded process receives the SIGKILL, however many are alive, although the
  ownership list is documented as reaching every reported stage.\<close>
theorem escalation_fallback_reaches_one:
  "length (snd (escalateTrackedIdentities w members sg why)) \<le> 1"
proof (induction members arbitrary: why w)
  case (Cons m ms)
  then show ?case
    using escalateTo_one [of "w 0" "w 1" "Some m" sg] by (simp add: split_beta Let_def)
qed simp

text \<open>Cleaning up a finished session cannot erase a recycled pid's new identity, and a captured
  identity is recalled as captured until it is forgotten: \<open>rememberIdentity\<close> stores what it
  returns, and \<open>forgetIdentity\<close> removes exactly the identity it is given.\<close>
theorem identity_cache_exact:
  "(fst (rememberIdentity s pid c) = Some i \<longrightarrow>
      recalledIdentity (Some (piPid i)) (snd (rememberIdentity s pid c)) = Some i) \<and>
   recalledIdentity (Some p) (forgetIdentity (Some j) c) =
     (if recalledIdentity (Some p) c = Some j then None else recalledIdentity (Some p) c)"
  by (cases j) (auto simp: rememberIdentity_def recalledIdentity_def forgetIdentity_def
      split: option.splits)

theorem identity_cache_exact_witness:
  "recalledIdentity (Some 7) (forgetIdentity (Some \<lparr>piPid = 7, piStartTicks = 4\<rparr>) [7 \<mapsto> 5]) =
     Some \<lparr>piPid = 7, piStartTicks = 5\<rparr>"
  using identity_cache_exact [of sample_os None "[7 \<mapsto> 5]" "\<lparr>piPid = 7, piStartTicks = 5\<rparr>" 7
      "\<lparr>piPid = 7, piStartTicks = 4\<rparr>"]
  by (simp add: recalledIdentity_def)

end
