(* ===== verification/Session_Registry.thy ===== *)
theory Session_Registry
  imports Event_Store Process_Identity
begin

text \<open>
  \<^verbatim>\<open>web/backend/src/execution/registry.ts\<close>: the in-flight executions.  The handlers of a child
  process hold its \<open>ActiveSession\<close> object by closure, also after the registry has dropped it, so
  the objects live in a heap of their own (\<open>regObjects\<close>, addressed by session id) and the
  registry's \<open>Map\<close> is the list of the ids it holds, in insertion order.
\<close>

section \<open>Active sessions\<close>

record active_session =
  acSessionId :: string
  acCommand :: string
  acArgv :: "string list"
  acState :: session_status
  acProcessLive :: bool
  acChildPid :: "rat option"
  acChildIdentity :: "process_identity option"
  acChildPgid :: "rat option"
  acChildGroupLeader :: "process_identity option"
  acOwned :: "process_identity list"
  acProcessStartedAt :: "int option"
  acProcessReaped :: bool
  acStartedAt :: int
  acMonotonicStartMs :: int
  acExitCode :: "rat option"
  acSignal :: "rat option"
  acTimedOut :: bool
  acTerminateRequested :: bool
  acTimeoutMs :: int
  acLastEventAt :: int
  acStdoutBytes :: nat
  acStderrBytes :: nat
  acSawSummary :: bool
  acSawExecError :: bool
  acSawWaitFailure :: bool
  acSawLaunchFailure :: bool
  acEngineOutcome :: "string option"
  acEngineReason :: "string option"
  acKillTimer :: bool
  acEscalation :: bool
  acStderrLineBuffer :: string
  acFinalized :: bool
  acNextSeq :: int

text \<open>\<open>isTerminalState\<close> is the registry's own copy of the terminal list.\<close>

definition isTerminalState :: "session_status \<Rightarrow> bool" where
  "isTerminalState st \<longleftrightarrow> st \<in> {COMPLETED, FAILED, TIMED_OUT, CANCELLED}"

record registry =
  regOrder :: "string list"
  regObjects :: "string \<rightharpoonup> active_session"

definition reg_size :: "registry \<Rightarrow> nat" where
  "reg_size r = length (regOrder r)"

definition reg_get :: "registry \<Rightarrow> string \<Rightarrow> active_session option" where
  "reg_get r sid = (if sid \<in> set (regOrder r) then regObjects r sid else None)"

definition list_sessions :: "registry \<Rightarrow> active_session list" where
  "list_sessions r = map (\<lambda>sid. the (regObjects r sid)) (regOrder r)"

definition runningCount :: "registry \<Rightarrow> nat" where
  "runningCount r = length (filter (\<lambda>s. \<not> isTerminalState (acState s)) (list_sessions r))"

definition hasCapacity :: "nat \<Rightarrow> registry \<Rightarrow> bool" where
  "hasCapacity maxConcurrent r \<longleftrightarrow> runningCount r < maxConcurrent"

definition reg_add :: "active_session \<Rightarrow> registry \<Rightarrow> registry" where
  "reg_add s r =
     r \<lparr>regOrder := (if acSessionId s \<in> set (regOrder r) then regOrder r
                     else regOrder r @ [acSessionId s]),
        regObjects := (regObjects r)(acSessionId s \<mapsto> s)\<rparr>"

text \<open>A change to an object, through whoever holds it.\<close>

definition upd_object :: "string \<Rightarrow> (active_session \<Rightarrow> active_session) \<Rightarrow> registry \<Rightarrow> registry" where
  "upd_object sid f r = r \<lparr>regObjects := (regObjects r)(sid := map_option f (regObjects r sid))\<rparr>"

definition reg_delete :: "string \<Rightarrow> registry \<Rightarrow> registry" where
  "reg_delete sid r =
     (let r = (if sid \<in> set (regOrder r) then upd_object sid (\<lambda>s. s \<lparr>acKillTimer := False\<rparr>) r else r)
      in r \<lparr>regOrder := filter (\<lambda>k. k \<noteq> sid) (regOrder r)\<rparr>)"

definition markState :: "string \<Rightarrow> session_status \<Rightarrow> registry \<Rightarrow> registry" where
  "markState sid st r =
     (if sid \<in> set (regOrder r) then upd_object sid (\<lambda>s. s \<lparr>acState := st\<rparr>) r else r)"

definition touch :: "string \<Rightarrow> int \<Rightarrow> registry \<Rightarrow> registry" where
  "touch sid now r =
     (if sid \<in> set (regOrder r) then upd_object sid (\<lambda>s. s \<lparr>acLastEventAt := now\<rparr>) r else r)"

section \<open>Ownership\<close>

text \<open>The triple that \<open>identityKey\<close> spells: pid, start ticks, boot id.\<close>

type_synonym identity_key = "rat \<times> nat option \<times> string option"

definition identityKey :: "rat \<Rightarrow> nat option \<Rightarrow> string option \<Rightarrow> identity_key" where
  "identityKey pid startTicks bootId = (pid, startTicks, bootId)"

definition session_keys :: "string option \<Rightarrow> active_session \<Rightarrow> identity_key list" where
  "session_keys bootId s =
     (if isTerminalState (acState s) then []
      else map (\<lambda>i. identityKey (of_int (piPid i)) (Some (piStartTicks i)) bootId) (acOwned s) @
        (case acChildPid s of
           Some p \<Rightarrow>
             if acOwned s = []
             then [identityKey p (map_option piStartTicks (acChildIdentity s)) bootId] else []
         | None \<Rightarrow> []))"

definition ownedIdentityKeys :: "string option \<Rightarrow> registry \<Rightarrow> identity_key set" where
  "ownedIdentityKeys bootId r = \<Union> (set (map (\<lambda>s. set (session_keys bootId s)) (list_sessions r)))"

datatype process_state = P_RUNNING | P_STARTING | P_WAITING

record process_record =
  prcSessionId :: string
  prcPid :: rat
  prcCommand :: string
  prcArgv :: "string list"
  prcState :: process_state
  prcStartedAt :: int
  prcDurationMs :: int
  prcExitCode :: "rat option"
  prcSignal :: "rat option"

definition process_record_of :: "int \<Rightarrow> active_session \<Rightarrow> process_record option" where
  "process_record_of now s =
     (case acChildPid s of
        None \<Rightarrow> None
      | Some p \<Rightarrow>
          if isTerminalState (acState s) then None
          else Some \<lparr>prcSessionId = acSessionId s, prcPid = p, prcCommand = acCommand s,
                     prcArgv = acArgv s,
                     prcState = (if acState s = RUNNING then P_RUNNING
                                 else if acState s = STARTING then P_STARTING else P_WAITING),
                     prcStartedAt = acStartedAt s, prcDurationMs = now - acMonotonicStartMs s,
                     prcExitCode = acExitCode s, prcSignal = acSignal s\<rparr>)"

definition listProcesses :: "int \<Rightarrow> registry \<Rightarrow> process_record list" where
  "listProcesses now r = List.map_filter (process_record_of now) (list_sessions r)"

definition sweep :: "int \<Rightarrow> int \<Rightarrow> registry \<Rightarrow> string list \<times> registry" where
  "sweep now staleMs r =
     (let stale = filter (\<lambda>sid. \<not> acProcessLive (the (regObjects r sid)) \<and>
                            now - acLastEventAt (the (regObjects r sid)) > staleMs) (regOrder r)
      in (stale, fold reg_delete stale r))"

section \<open>The registry as a keyed store\<close>

definition reg_ok :: "registry \<Rightarrow> bool" where
  "reg_ok r \<longleftrightarrow> distinct (regOrder r) \<and>
     (\<forall>sid \<in> set (regOrder r). \<exists>s. regObjects r sid = Some s \<and> acSessionId s = sid)"

lemma isTerminalState_eq: "isTerminalState st = isTerminalStatus st"
  by (simp add: isTerminalState_def isTerminalStatus_cases)

lemma upd_object_sel [simp]:
  "regOrder (upd_object sid f r) = regOrder r"
  "regObjects (upd_object sid f r) k = (if k = sid then map_option f (regObjects r sid) else regObjects r k)"
  by (simp_all add: upd_object_def)

lemma reg_delete_order [simp]: "regOrder (reg_delete sid r) = filter (\<lambda>k. k \<noteq> sid) (regOrder r)"
  by (simp add: reg_delete_def Let_def)

lemma reg_delete_objects:
  "regObjects (reg_delete sid r) k =
     (if k = sid \<and> sid \<in> set (regOrder r)
      then map_option (\<lambda>s. s \<lparr>acKillTimer := False\<rparr>) (regObjects r sid) else regObjects r k)"
  by (simp add: reg_delete_def Let_def)

interpretation reg: keyed_store reg_get acSessionId reg_add reg_delete
  by unfold_locales (auto simp: reg_get_def reg_add_def reg_delete_objects)

end
