(* ===== verification/Thermal_Guard.thy ===== *)
theory Thermal_Guard
  imports Decimal
begin

text \<open>
  \<^verbatim>\<open>web/backend/src/execution/thermalGuard.ts\<close>: the admission check that compares a sysfs
  temperature with the configured thresholds before a workload starts.  The sensors that the
  discovery of \<^verbatim>\<open>telemetry/system/thermal.ts\<close> found and the contents of the sensor file
  are arguments, and so are the printing of a number (\<open>num_text\<close>) and \<open>JSON.stringify\<close> of a
  string (\<open>quote\<close>).  A \<open>SystemMetric\<close> is its value, \<open>None\<close> for \<open>null\<close>.  Numbers of the
  configuration are finite: \<open>Number.isFinite\<close> is true of every one of them.
\<close>

section \<open>Configuration and records\<close>

datatype thermal_action = ACT_WARN | ACT_TERM | ACT_TERM_THEN_KILL

datatype sensor_selector = Sel_auto | Sel_name string | Sel_path string | Sel_package

record thermal_config =
  tcEnabled :: bool
  tcSensor :: sensor_selector
  tcWarningC :: rat
  tcCriticalC :: rat
  tcAction :: thermal_action
  tcTermGraceMs :: rat

definition DEFAULT_THERMAL_GUARD :: thermal_config where
  "DEFAULT_THERMAL_GUARD =
     \<lparr>tcEnabled = False, tcSensor = Sel_auto, tcWarningC = 80, tcCriticalC = 95, tcAction = ACT_WARN,
      tcTermGraceMs = 2000\<rparr>"

datatype source_class = Thermal_zone | Hwmon

record thermal_sensor =
  tsName :: string
  tsRawMilli :: "rat option"
  tsCelsius :: "rat option"
  tsCelsiusReason :: "string option"
  tsKind :: "string option"
  tsSourceClass :: source_class
  tsPath :: string
  tsIsPackage :: "bool option"

record guard_sensor =
  gsName :: string
  gsPath :: string
  gsSourceClass :: source_class
  gsIsPackage :: bool
  gsSelectionReason :: string

datatype reading_provenance = OBSERVED | UNAVAILABLE

record guard_reading =
  grRawMilli :: "nat option"
  grCelsius :: "rat option"
  grTimestamp :: int
  grSource :: string
  grProvenance :: reading_provenance
  grReason :: "string option"

datatype guard_decision =
    ALLOW | WARN_ONLY | REFUSE_TERM | REFUSE_KILL | UNAVAILABLE_ALLOW | UNAVAILABLE_REFUSE
  | DISABLED

datatype threshold_kind = Warning | Critical

datatype guard_result = R_NONE | WARNING_ISSUED | TERM_SENT | TERM_THEN_KILL_SENT

record thermal_decision_record =
  tdDecision :: guard_decision
  tdAction :: thermal_action
  tdThreshold :: "(threshold_kind \<times> rat) option"
  tdSensor :: "guard_sensor option"
  tdReading :: guard_reading
  tdTimestamp :: int
  tdWorkloadId :: "string option"
  tdSessionId :: "string option"
  tdResult :: guard_result
  tdReason :: string

datatype config_problem =
    Warning_not_below_critical rat rat | Below_absolute_zero | Negative_grace | Kill_without_grace

definition validateThermalGuardConfig :: "thermal_config \<Rightarrow> config_problem list" where
  "validateThermalGuardConfig c =
     (if tcWarningC c \<ge> tcCriticalC c
      then [Warning_not_below_critical (tcWarningC c) (tcCriticalC c)] else []) @
     (if tcWarningC c \<le> - 27315 / 100 then [Below_absolute_zero] else []) @
     (if tcTermGraceMs c < 0 then [Negative_grace] else []) @
     (if tcAction c = ACT_TERM_THEN_KILL \<and> tcTermGraceMs c = 0 then [Kill_without_grace] else [])"

section \<open>Choosing a sensor\<close>

definition count_text :: "'a list \<Rightarrow> string" where
  "count_text xs = nat_text (length xs)"

definition or_none :: "string \<Rightarrow> string" where
  "or_none s = (if s = [] then ''none'' else s)"

definition dq :: string where
  "dq = [CHR 0x22]"

definition degrees :: string where
  "degrees = [CHR 0x20, CHR 0xB0, CHR ''C'']"

definition THERMAL_ABSENT_REASON :: string where
  "THERMAL_ABSENT_REASON =
     ''No supported temperature sensor is exposed by this Linux environment. /sys/class/thermal contains no thermal zones and /sys/class/hwmon exposes no temperature inputs. This is the expected result under WSL2, inside most virtual machines, and on hardware whose driver does not publish a thermal sensor. CAPS does not synthesise a temperature from CPU load, because such a curve would be indistinguishable from a measurement while being entirely invented.''"

text \<open>\<open>reduce((a, b) => a.raw >= b.raw ? a : b)\<close>, on readable sensors.\<close>

definition hotter :: "thermal_sensor \<Rightarrow> thermal_sensor \<Rightarrow> thermal_sensor" where
  "hotter a b = (if the (tsRawMilli a) \<ge> the (tsRawMilli b) then a else b)"

definition hottest_of :: "thermal_sensor list \<Rightarrow> thermal_sensor" where
  "hottest_of ss = foldl hotter (hd ss) (tl ss)"

definition guard_sensor_of :: "thermal_sensor \<Rightarrow> bool \<Rightarrow> string \<Rightarrow> guard_sensor" where
  "guard_sensor_of s isPackage why =
     \<lparr>gsName = tsName s, gsPath = tsPath s, gsSourceClass = tsSourceClass s,
      gsIsPackage = isPackage, gsSelectionReason = why\<rparr>"

definition select_path :: "thermal_sensor list \<Rightarrow> string \<Rightarrow> guard_sensor option \<times> string" where
  "select_path sensors path =
     (case find (\<lambda>s. tsPath s = path) sensors of
        None \<Rightarrow>
          (None, ''the configured sensor path '' @ path @
             '' does not correspond to any sensor this host exposes. '' @ count_text sensors @
             '' sensor(s) were discovered: '' @
             or_none (join_with '', '' (map (\<lambda>s. tsName s @ '' ('' @ tsPath s @ '')'') sensors)) @ ''.'')
      | Some match \<Rightarrow>
          (Some (guard_sensor_of match (tsIsPackage match = Some True)
             (''selected explicitly by path: '' @ path)),
           ''the sensor at '' @ path @ '' was selected explicitly by configuration''))"

definition select_name :: "thermal_sensor list \<Rightarrow> string \<Rightarrow> guard_sensor option \<times> string" where
  "select_name sensors name =
     (case filter (\<lambda>s. tsName s = name) sensors of
        [] \<Rightarrow>
          (None, ''no sensor named '' @ dq @ name @ dq @ '' exists on this host. '' @
             count_text sensors @ '' sensor(s) were discovered: '' @
             or_none (join_with '', '' (map tsName sensors)) @ ''.'')
      | [match] \<Rightarrow>
          (Some (guard_sensor_of match (tsIsPackage match = Some True)
             (''selected explicitly by name: '' @ dq @ name @ dq)),
           ''the sensor named '' @ dq @ name @ dq @ '' was selected explicitly by configuration'')
      | matches \<Rightarrow>
          (None, count_text matches @ '' sensors are named '' @ dq @ name @ dq @ '' ('' @
             join_with '', '' (map tsPath matches) @
             ''), so the name does not identify one of them. Select by path instead, or by auto.''))"

definition select_package :: "thermal_sensor list \<Rightarrow> guard_sensor option \<times> string" where
  "select_package sensors =
     (let pkg = filter (\<lambda>s. tsRawMilli s \<noteq> None \<and> tsIsPackage s = Some True) sensors in
      if pkg = [] then
        (None,
         if sensors = []
         then ''this host exposes no temperature sensor at all, so no package sensor can be selected''
         else ''none of the '' @ count_text sensors @
           '' discovered sensor(s) identifies itself as a package sensor. The kernel publishes: '' @
           join_with '', ''
             (map (\<lambda>s. tsName s @ '' ('' @ (case tsKind s of Some k \<Rightarrow> k | None \<Rightarrow> ''untyped'') @ '')'')
               sensors) @ ''. Select by name or path instead.'')
      else
        (let hottest = hottest_of pkg in
         (Some (guard_sensor_of hottest True
            (''selected because the kernel identifies '' @ dq @ tsName hottest @ dq @
             '' as a package sensor; it is the highest of '' @ count_text pkg @
             '' package sensor(s)'')),
          ''a package sensor was required and '' @ dq @ tsName hottest @ dq @
          '' was the highest of '' @ count_text pkg @ '' available'')))"

definition select_auto :: "thermal_sensor list \<Rightarrow> guard_sensor option \<times> string" where
  "select_auto sensors =
     (let readable = filter (\<lambda>s. tsRawMilli s \<noteq> None) sensors;
          pkg = filter (\<lambda>s. tsIsPackage s = Some True) readable in
      if readable = [] then
        (None,
         if sensors = []
         then ''this host exposes no readable temperature sensor, so the guard has nothing to read. '' @
           THERMAL_ABSENT_REASON
         else ''all '' @ count_text sensors @
           '' discovered sensor(s) exist but none produced a readable value, so the guard has nothing to read. A sensor that is present but unreadable is usually a driver that has unloaded, or a container that exposes a stub file.'')
      else if pkg \<noteq> [] then
        (let hottest = hottest_of pkg in
         (Some (guard_sensor_of hottest True
            (''auto-selection preferred the package sensor '' @ dq @ tsName hottest @ dq @
             '' because the kernel identifies it as package-level; it is the highest of '' @
             count_text pkg @ '' package sensor(s)'')),
          ''auto-selection chose the package sensor '' @ dq @ tsName hottest @ dq @
          '' in preference to '' @ nat_text (length readable - length pkg) @
          '' non-package sensor(s)''))
      else
        (let hottest = hottest_of readable in
         (Some (guard_sensor_of hottest False
            (''auto-selection fell back to the highest readable sensor, '' @ dq @ tsName hottest @
             dq @ '', because no sensor on this host identifies itself as a package sensor'')),
          ''auto-selection chose the highest readable sensor, '' @ dq @ tsName hottest @ dq @
          '' ('' @ tsPath hottest @
          ''). No sensor identifies itself as package-level on this host, so this is the hottest thing that was measured, not necessarily the CPU package.'')))"

definition selectSensor ::
    "thermal_sensor list \<Rightarrow> sensor_selector \<Rightarrow> guard_sensor option \<times> string" where
  "selectSensor sensors selector =
     (case selector of
        Sel_path p \<Rightarrow> select_path sensors p
      | Sel_name n \<Rightarrow> select_name sensors n
      | Sel_package \<Rightarrow> select_package sensors
      | Sel_auto \<Rightarrow> select_auto sensors)"

section \<open>Reading it\<close>

text \<open>A sensor file: its trimmed text, or why it could not be read.\<close>

type_synonym file_read = "string + string"

definition readSensorMilliCelsius :: "(string \<Rightarrow> file_read) \<Rightarrow> string \<Rightarrow> nat option" where
  "readSensorMilliCelsius read path =
     (case read path of
        Inl why \<Rightarrow> None
      | Inr raw \<Rightarrow>
          (let txt = js_trim raw in
           if plain_digits 12 txt then Some (decimal_value txt) else None))"

definition defaultReadSensor ::
    "(string \<Rightarrow> file_read) \<Rightarrow> (string \<Rightarrow> string) \<Rightarrow> guard_sensor \<Rightarrow> int \<Rightarrow> guard_reading" where
  "defaultReadSensor read quote sensor timestamp =
     (case readSensorMilliCelsius read (gsPath sensor) of
        None \<Rightarrow>
          \<lparr>grRawMilli = None, grCelsius = None, grTimestamp = timestamp, grSource = gsPath sensor,
           grProvenance = UNAVAILABLE,
           grReason = Some
             (case read (gsPath sensor) of
                Inr raw \<Rightarrow> gsPath sensor @ '' contained '' @ quote (take 32 (js_trim raw)) @
                  '', which is not a plain non-negative millidegree value. The reading is discarded rather than interpreted, because guessing a temperature from malformed input would defeat the purpose of the guard.''
              | Inl why \<Rightarrow> gsPath sensor @ '' could not be read: '' @ why @
                  ''. The sensor may have been removed, or the driver may have been unloaded, between discovery and this decision.'')\<rparr>
      | Some milli \<Rightarrow>
          \<lparr>grRawMilli = Some milli, grCelsius = Some (of_nat milli / 1000), grTimestamp = timestamp,
           grSource = gsPath sensor, grProvenance = OBSERVED, grReason = None\<rparr>)"


section \<open>The decision\<close>

record guard_state =
  gtAvailable :: bool
  gtUnavailableReason :: "string option"
  gtDiscovered :: "(string \<times> string \<times> rat option \<times> string option) list"
  gtSelected :: "guard_sensor option"
  gtConfig :: thermal_config

definition inspectThermalGuard :: "thermal_config \<Rightarrow> thermal_sensor list \<Rightarrow> guard_state" where
  "inspectThermalGuard config sensors =
     (let (sensor, reason) = selectSensor sensors (tcSensor config) in
      \<lparr>gtAvailable = (sensor \<noteq> None),
       gtUnavailableReason = (if sensor = None then Some reason else None),
       gtDiscovered = map (\<lambda>s. (tsName s, tsPath s, tsCelsius s,
          if tsCelsius s = None
          then Some (case tsCelsiusReason s of Some w \<Rightarrow> w | None \<Rightarrow> ''no reason recorded'')
          else None)) sensors,
       gtSelected = sensor, gtConfig = config\<rparr>)"

definition unavailableReading :: "int \<Rightarrow> string \<Rightarrow> string \<Rightarrow> guard_reading" where
  "unavailableReading timestamp reason source =
     \<lparr>grRawMilli = None, grCelsius = None, grTimestamp = timestamp, grSource = source,
      grProvenance = UNAVAILABLE, grReason = Some reason\<rparr>"

fun action_text :: "thermal_action \<Rightarrow> string" where
  "action_text ACT_WARN = ''WARN''"
| "action_text ACT_TERM = ''TERM''"
| "action_text ACT_TERM_THEN_KILL = ''TERM_THEN_KILL''"

definition reading_text :: "(rat \<Rightarrow> string) \<Rightarrow> rat \<Rightarrow> guard_sensor \<Rightarrow> string" where
  "reading_text num_text celsius sensor =
     num_text celsius @ degrees @ '' on '' @ dq @ gsName sensor @ dq @ '' ('' @ gsPath sensor @ '')''"

text \<open>The three outcomes of a reading: at or above critical, at or above warning, below both.\<close>

definition decide_reading ::
    "(rat \<Rightarrow> string) \<Rightarrow> thermal_config \<Rightarrow> guard_sensor \<Rightarrow> rat
      \<Rightarrow> guard_decision \<times> (threshold_kind \<times> rat) option \<times> guard_result \<times> string" where
  "decide_reading num_text c sensor celsius =
     (if celsius \<ge> tcCriticalC c then
        (if tcAction c = ACT_WARN then WARN_ONLY else REFUSE_KILL,
         Some (Critical, tcCriticalC c),
         if tcAction c = ACT_WARN then WARNING_ISSUED else TERM_THEN_KILL_SENT,
         reading_text num_text celsius sensor @ '' is at or above the critical threshold of '' @
           num_text (tcCriticalC c) @ degrees @ ''. '' @
           (if tcAction c = ACT_WARN
            then ''The configured action is WARN, so the workload was allowed and a warning was issued. Note that WARN does not prevent a workload from running on a machine already at its critical temperature; set CAPS_THERMAL_GUARD_ACTION to TERM or TERM_THEN_KILL if that is not the intent.''
            else ''The configured action is '' @ action_text (tcAction c) @
              '', so this CAPS-owned workload is not permitted to start and is terminated.''))
      else if celsius \<ge> tcWarningC c then
        (if tcAction c = ACT_WARN then WARN_ONLY else REFUSE_TERM,
         Some (Warning, tcWarningC c),
         if tcAction c = ACT_WARN then WARNING_ISSUED else TERM_SENT,
         reading_text num_text celsius sensor @ '' is at or above the warning threshold of '' @
           num_text (tcWarningC c) @ degrees @ '' and below the critical threshold of '' @
           num_text (tcCriticalC c) @ degrees @ ''. '' @
           (if tcAction c = ACT_WARN
            then ''The configured action is WARN, so the workload was allowed and a warning was issued.''
            else ''The configured action is '' @ action_text (tcAction c) @
              '', so this CAPS-owned workload is not permitted to start.''))
      else
        (ALLOW, None, R_NONE,
         reading_text num_text celsius sensor @ '' is below the warning threshold of '' @
           num_text (tcWarningC c) @ degrees @ '', so the workload was admitted.''))"

definition evaluateThermalGuard ::
    "(string \<Rightarrow> file_read) \<Rightarrow> (string \<Rightarrow> string) \<Rightarrow> (rat \<Rightarrow> string) \<Rightarrow> thermal_config
      \<Rightarrow> thermal_sensor list \<Rightarrow> int \<Rightarrow> string option \<Rightarrow> string option
      \<Rightarrow> thermal_decision_record" where
  "evaluateThermalGuard read quote num_text c sensors timestamp workloadId sessionId =
     (let record = (\<lambda>decision threshold sensor reading result reason.
        \<lparr>tdDecision = decision, tdAction = tcAction c, tdThreshold = threshold, tdSensor = sensor,
         tdReading = reading, tdTimestamp = timestamp, tdWorkloadId = workloadId,
         tdSessionId = sessionId, tdResult = result, tdReason = reason\<rparr>) in
      if \<not> tcEnabled c then
        record DISABLED None None
          (unavailableReading timestamp
             ''the thermal guard is disabled by configuration, so no sensor was read and no threshold was evaluated''
             ''configuration'')
          R_NONE
          ''The thermal guard is disabled (CAPS_THERMAL_GUARD_ENABLED is false). The configured thresholds were not evaluated and no temperature was read. This decision is not evidence that the machine was cool.''
      else
        (let state = inspectThermalGuard c sensors;
             why = (case gtUnavailableReason state of
                      Some w \<Rightarrow> w | None \<Rightarrow> ''no sensor could be selected'') in
         case gtSelected state of
           None \<Rightarrow>
             record UNAVAILABLE_ALLOW None None
               (unavailableReading timestamp why ''/sys/class/thermal, /sys/class/hwmon'')
               R_NONE
               (''The thermal guard is enabled but could not operate: '' @ why @
                ''. The workload was admitted because an absent sensor is not evidence of a hot machine, but this admission carries NO thermal justification. No temperature was read and none is reported.'')
         | Some sensor \<Rightarrow>
             (let reading = defaultReadSensor read quote sensor timestamp in
              case (grProvenance reading, grCelsius reading) of
                (OBSERVED, Some celsius) \<Rightarrow>
                  (let (decision, threshold, result, reason) = decide_reading num_text c sensor celsius
                   in record decision threshold (Some sensor) reading result reason)
              | _ \<Rightarrow>
                  record UNAVAILABLE_ALLOW None (Some sensor) reading R_NONE
                    (''The selected sensor '' @ dq @ gsName sensor @ dq @ '' ('' @ gsPath sensor @
                     '') could not be read: '' @
                     (case grReason reading of Some w \<Rightarrow> w | None \<Rightarrow> ''no reason recorded'') @
                     ''. The workload was admitted, but no threshold was evaluated and this admission carries no thermal justification.''))))"

datatype severity_level = Debug_level | Warn_level | Error_level

definition logThermalDecision :: "thermal_decision_record \<Rightarrow> severity_level" where
  "logThermalDecision r =
     (if tdDecision r = ALLOW \<or> tdDecision r = DISABLED then Debug_level
      else if tdDecision r = WARN_ONLY then Warn_level
      else if tdDecision r = UNAVAILABLE_ALLOW then Warn_level
      else Error_level)"

section \<open>Lemmas\<close>

lemma foldl_hotter_in: "foldl hotter a ss \<in> insert a (set ss)"
  by (induction ss arbitrary: a) (auto simp: hotter_def split: if_splits)

lemma foldl_hotter_max:
  "\<forall>s \<in> insert a (set ss). the (tsRawMilli s) \<le> the (tsRawMilli (foldl hotter a ss))"
proof (induction ss arbitrary: a)
  case (Cons b ss)
  have "the (tsRawMilli a) \<le> the (tsRawMilli (hotter a b))"
    "the (tsRawMilli b) \<le> the (tsRawMilli (hotter a b))"
    by (auto simp: hotter_def)
  with Cons [of "hotter a b"] show ?case by (auto intro: order_trans)
qed simp

lemma hottest_of:
  "ss \<noteq> [] \<Longrightarrow> hottest_of ss \<in> set ss \<and>
     (\<forall>s \<in> set ss. the (tsRawMilli s) \<le> the (tsRawMilli (hottest_of ss)))"
  using foldl_hotter_in [of "hd ss" "tl ss"] foldl_hotter_max [of "hd ss" "tl ss"]
  by (cases ss) (auto simp: hottest_of_def)

text \<open>The four ways through \<open>evaluateThermalGuard\<close>.\<close>

lemma evaluate_disabled:
  assumes "\<not> tcEnabled c"
  shows "tdDecision (evaluateThermalGuard read quote num_text c sensors ts wl sid) = DISABLED"
    and "grCelsius (tdReading (evaluateThermalGuard read quote num_text c sensors ts wl sid)) = None"
  unfolding evaluateThermalGuard_def Let_def if_P [OF assms] unavailableReading_def by simp_all

lemma evaluate_no_sensor:
  assumes "tcEnabled c" and "fst (selectSensor sensors (tcSensor c)) = None"
  shows "tdDecision (evaluateThermalGuard read quote num_text c sensors ts wl sid) = UNAVAILABLE_ALLOW"
    and "grCelsius (tdReading (evaluateThermalGuard read quote num_text c sensors ts wl sid)) = None"
proof -
  have "gtSelected (inspectThermalGuard c sensors) = None"
    using assms(2) by (simp add: inspectThermalGuard_def split_beta Let_def)
  then show
    "tdDecision (evaluateThermalGuard read quote num_text c sensors ts wl sid) = UNAVAILABLE_ALLOW"
    and "grCelsius (tdReading (evaluateThermalGuard read quote num_text c sensors ts wl sid)) = None"
    using assms(1) by (simp_all add: evaluateThermalGuard_def unavailableReading_def Let_def)
qed

lemma evaluate_sensor:
  assumes "tcEnabled c" and "fst (selectSensor sensors (tcSensor c)) = Some sensor"
  shows "readSensorMilliCelsius read (gsPath sensor) = None \<Longrightarrow>
      tdDecision (evaluateThermalGuard read quote num_text c sensors ts wl sid) = UNAVAILABLE_ALLOW \<and>
      grCelsius (tdReading (evaluateThermalGuard read quote num_text c sensors ts wl sid)) = None"
    and "readSensorMilliCelsius read (gsPath sensor) = Some milli \<Longrightarrow>
      tdDecision (evaluateThermalGuard read quote num_text c sensors ts wl sid) =
        fst (decide_reading num_text c sensor (of_nat milli / 1000)) \<and>
      grCelsius (tdReading (evaluateThermalGuard read quote num_text c sensors ts wl sid)) =
        Some (of_nat milli / 1000)"
proof -
  have sel: "gtSelected (inspectThermalGuard c sensors) = Some sensor"
    using assms(2) by (simp add: inspectThermalGuard_def split_beta Let_def)
  {
    assume "readSensorMilliCelsius read (gsPath sensor) = None"
    then have "grProvenance (defaultReadSensor read quote sensor ts) = UNAVAILABLE"
      "grCelsius (defaultReadSensor read quote sensor ts) = None"
      by (simp_all add: defaultReadSensor_def)
    then show "tdDecision (evaluateThermalGuard read quote num_text c sensors ts wl sid) = UNAVAILABLE_ALLOW \<and>
      grCelsius (tdReading (evaluateThermalGuard read quote num_text c sensors ts wl sid)) = None"
      using assms(1) sel by (simp add: evaluateThermalGuard_def Let_def)
  }
  assume "readSensorMilliCelsius read (gsPath sensor) = Some milli"
  then have "grProvenance (defaultReadSensor read quote sensor ts) = OBSERVED"
    "grCelsius (defaultReadSensor read quote sensor ts) = Some (of_nat milli / 1000)"
    by (simp_all add: defaultReadSensor_def)
  then show "tdDecision (evaluateThermalGuard read quote num_text c sensors ts wl sid) =
        fst (decide_reading num_text c sensor (of_nat milli / 1000)) \<and>
      grCelsius (tdReading (evaluateThermalGuard read quote num_text c sensors ts wl sid)) =
        Some (of_nat milli / 1000)"
    using assms(1) sel by (simp add: evaluateThermalGuard_def Let_def split_beta)
qed

lemma selected_discovered:
  "fst (selectSensor sensors sel) = Some g \<Longrightarrow>
     \<exists>s \<in> set sensors. gsName g = tsName s \<and> gsPath g = tsPath s \<and> gsSourceClass g = tsSourceClass s"
proof (cases sel)
  case Sel_auto
  moreover assume "fst (selectSensor sensors sel) = Some g"
  ultimately show ?thesis
    using hottest_of [of "filter (\<lambda>s. tsIsPackage s = Some True) (filter (\<lambda>s. tsRawMilli s \<noteq> None) sensors)"]
      hottest_of [of "filter (\<lambda>s. tsRawMilli s \<noteq> None) sensors"]
    by (auto simp: selectSensor_def select_auto_def Let_def guard_sensor_of_def split: if_splits
        intro!: bexI)
next
  case (Sel_name n)
  moreover assume "fst (selectSensor sensors sel) = Some g"
  ultimately obtain m where "filter (\<lambda>s. tsName s = n) sensors = [m]"
    "g = guard_sensor_of m (tsIsPackage m = Some True) (''selected explicitly by name: '' @ dq @ n @ dq)"
    by (auto simp: selectSensor_def select_name_def split: list.splits)
  moreover from this have "m \<in> set sensors"
    by (metis filter_is_subset list.set_intros(1) subsetD)
  ultimately show ?thesis by (auto simp: guard_sensor_of_def intro!: bexI)
next
  case (Sel_path p)
  moreover assume "fst (selectSensor sensors sel) = Some g"
  ultimately show ?thesis
    by (auto simp: selectSensor_def select_path_def guard_sensor_of_def find_Some_iff
        split: option.splits intro!: bexI)
next
  case Sel_package
  moreover assume "fst (selectSensor sensors sel) = Some g"
  ultimately show ?thesis
    using hottest_of [of "filter (\<lambda>s. tsRawMilli s \<noteq> None \<and> tsIsPackage s = Some True) sensors"]
    by (auto simp: selectSensor_def select_package_def Let_def guard_sensor_of_def split: if_splits
        intro!: bexI)
qed

lemma decide_reading_refuses:
  "fst (decide_reading num_text c sensor x) \<in> {REFUSE_TERM, REFUSE_KILL} \<longleftrightarrow>
     tcAction c \<noteq> ACT_WARN \<and> (tcWarningC c \<le> x \<or> tcCriticalC c \<le> x)"
  by (auto simp: decide_reading_def)

section \<open>Properties\<close>

text \<open>Exactly when a workload is refused: the guard is enabled, its action is not WARN, a
  sensor was selected whose file holds a plain decimal, and that temperature has reached a
  threshold.  No sensor, an unreadable file or a malformed one never refuses.\<close>
theorem thermal_refusal_exact:
  "tdDecision (evaluateThermalGuard read quote num_text c sensors ts wl sid) \<in> {REFUSE_TERM, REFUSE_KILL} \<longleftrightarrow>
     tcEnabled c \<and> tcAction c \<noteq> ACT_WARN \<and>
     (\<exists>sensor milli. fst (selectSensor sensors (tcSensor c)) = Some sensor \<and>
        readSensorMilliCelsius read (gsPath sensor) = Some milli \<and>
        (tcWarningC c \<le> of_nat milli / 1000 \<or> tcCriticalC c \<le> of_nat milli / 1000))"
  (is "tdDecision ?r \<in> _ \<longleftrightarrow> ?rhs")
proof (cases "tcEnabled c \<and> fst (selectSensor sensors (tcSensor c)) \<noteq> None")
  case False
  then show ?thesis
    using evaluate_disabled(1) [of c read quote num_text sensors ts wl sid]
      evaluate_no_sensor(1) [of c sensors read quote num_text ts wl sid] by (cases "tcEnabled c") simp_all
next
  case True
  then obtain sensor where s: "tcEnabled c" "fst (selectSensor sensors (tcSensor c)) = Some sensor"
    by blast
  show ?thesis
  proof (cases "readSensorMilliCelsius read (gsPath sensor)")
    case None
    with evaluate_sensor(1) [OF s None, of quote num_text ts wl sid] s show ?thesis by simp
  next
    case (Some milli)
    with evaluate_sensor(2) [OF s Some, of quote num_text ts wl sid] s
      decide_reading_refuses [of num_text c sensor "of_nat milli / 1000"]
    show ?thesis by simp
  qed
qed

text \<open>No temperature is ever invented.  A decision either carries no temperature and is one of
  the two that claim no thermal justification, or it carries the value of the decimal that the
  file of a discovered sensor holds, divided by a thousand.\<close>
theorem thermal_no_fabrication:
  "case grCelsius (tdReading (evaluateThermalGuard read quote num_text c sensors ts wl sid)) of
     None \<Rightarrow> tdDecision (evaluateThermalGuard read quote num_text c sensors ts wl sid)
               \<in> {DISABLED, UNAVAILABLE_ALLOW}
   | Some x \<Rightarrow> \<exists>s raw. s \<in> set sensors \<and> read (tsPath s) = Inr raw \<and>
       plain_digits 12 (js_trim raw) \<and> x = of_nat (decimal_value (js_trim raw)) / 1000"
proof (cases "tcEnabled c \<and> fst (selectSensor sensors (tcSensor c)) \<noteq> None")
  case False
  then show ?thesis
    using evaluate_disabled [of c read quote num_text sensors ts wl sid]
      evaluate_no_sensor [of c sensors read quote num_text ts wl sid] by (cases "tcEnabled c") simp_all
next
  case True
  then obtain sensor where e: "tcEnabled c" "fst (selectSensor sensors (tcSensor c)) = Some sensor"
    by blast
  show ?thesis
  proof (cases "readSensorMilliCelsius read (gsPath sensor)")
    case None
    with evaluate_sensor(1) [OF e None, of quote num_text ts wl sid] show ?thesis by simp
  next
    case (Some milli)
    from selected_discovered [OF e(2)] obtain s where s: "s \<in> set sensors" "gsPath sensor = tsPath s"
      by blast
    from Some obtain raw where "read (tsPath s) = Inr raw" "plain_digits 12 (js_trim raw)"
      "milli = decimal_value (js_trim raw)"
      by (auto simp: readSensorMilliCelsius_def s(2) Let_def split: sum.splits if_splits)
    with s evaluate_sensor(2) [OF e Some, of quote num_text ts wl sid] show ?thesis by auto
  qed
qed

text \<open>Automatic selection takes the hottest readable package sensor, and only when the kernel
  names no readable one the hottest readable sensor; it selects nothing exactly when no sensor
  is readable.\<close>
theorem auto_selection_hottest:
  "case fst (selectSensor sensors Sel_auto) of
     None \<Rightarrow> filter (\<lambda>s. tsRawMilli s \<noteq> None) sensors = []
   | Some g \<Rightarrow> \<exists>s. s \<in> set sensors \<and> gsPath g = tsPath s \<and> tsRawMilli s \<noteq> None \<and>
       gsIsPackage g = list_ex (\<lambda>t. tsRawMilli t \<noteq> None \<and> tsIsPackage t = Some True) sensors \<and>
       (gsIsPackage g \<longleftrightarrow> tsIsPackage s = Some True) \<and>
       list_all (\<lambda>t. the (tsRawMilli t) \<le> the (tsRawMilli s))
         (filter (\<lambda>t. tsRawMilli t \<noteq> None \<and> (tsIsPackage t = Some True) = gsIsPackage g) sensors)"
proof -
  let ?readable = "filter (\<lambda>s. tsRawMilli s \<noteq> None) sensors"
  let ?pkg = "filter (\<lambda>s. tsIsPackage s = Some True) ?readable"
  consider "?readable = []" | "?pkg \<noteq> []" | "?readable \<noteq> []" "?pkg = []" by blast
  then show ?thesis
  proof cases
    case 1
    then show ?thesis by (simp add: selectSensor_def select_auto_def)
  next
    case 2
    then have "?readable \<noteq> []" by (metis filter.simps(1))
    with 2 have "fst (selectSensor sensors Sel_auto) =
        Some (guard_sensor_of (hottest_of ?pkg) True
          (''auto-selection preferred the package sensor '' @ dq @ tsName (hottest_of ?pkg) @ dq @
             '' because the kernel identifies it as package-level; it is the highest of '' @
             count_text ?pkg @ '' package sensor(s)''))"
      by (simp only: selectSensor_def select_auto_def Let_def sensor_selector.case if_False if_True
          not_False_eq_True fst_conv)
    with hottest_of [OF 2] 2 show ?thesis
      by (auto simp: guard_sensor_of_def list_all_iff list_ex_iff filter_empty_conv intro!: exI [of _ "hottest_of ?pkg"])
  next
    case 3
    then have "fst (selectSensor sensors Sel_auto) =
        Some (guard_sensor_of (hottest_of ?readable) False
          (''auto-selection fell back to the highest readable sensor, '' @ dq @ tsName (hottest_of ?readable) @
             dq @ '', because no sensor on this host identifies itself as a package sensor''))"
      by (auto simp: selectSensor_def select_auto_def Let_def)
    with hottest_of [OF 3(1)] 3(2) show ?thesis
      by (auto simp: guard_sensor_of_def list_all_iff list_ex_iff filter_empty_conv intro!: exI [of _ "hottest_of ?readable"])
  qed
qed

end
