(* ===== verification/Runner.thy ===== *)
theory Runner
  imports Session_Registry Normalizer Stream_Protocol Thermal_Guard
begin

text \<open>
  \<^verbatim>\<open>web/backend/src/execution/runner.ts\<close>: starting an execution, routing what the engine
  writes, the timeout, termination and the three ways an execution is finalized.

  The gateway is single-threaded and every handler below runs to its end before the next one
  starts, so a handler is a function on the state \<open>world\<close>: the database, the registry with the
  session objects, the output buffers, the sampling loops, the publications made on the event
  bus, the identity cache, the signals sent, the pending escalations and the log lines that
  report an event that was not stored.  A handler during which an exception escapes is
  \<open>Threw\<close> with the state it leaves.

  \<open>caps_config\<close> is the configuration the runner reads, with the parts of the platform it calls:
  the id generator, \<open>JSON.parse\<close> and the printing of a number.  A \<open>moment\<close> is what the
  environment answers while one handler runs: the clock, the database and the kernel.
\<close>

section \<open>Configuration, moments and the state\<close>

record caps_config =
  cfMaxConcurrent :: nat
  cfCapsExecutable :: string
  cfStdoutBytes :: nat
  cfStderrBytes :: nat
  cfNewId :: "string \<Rightarrow> nat \<Rightarrow> string"
  cfParse :: "string \<Rightarrow> json option"
  cfNumText :: "rat \<Rightarrow> string"

text \<open>\<open>moInsert\<close> answers by event id whether the database accepts an insertion (or the commit
  after it), \<open>moUpdate\<close> whether an \<open>UPDATE\<close> succeeds, \<open>moBegin\<close> whether a transaction opens.\<close>

record moment =
  moNow :: int
  moBegin :: bool
  moUpdate :: bool
  moInsert :: "string \<Rightarrow> bool"
  moOs :: os

datatype channel = Stdout | Stderr

record text_buffer =
  tbText :: string
  tbTruncated :: bool

record pending_escalation =
  peSessionId :: string
  pePid :: "int option"
  pePgid :: "int option"
  peFirst :: signal_result

record world =
  wDb :: db
  wReg :: registry
  wBuffers :: "channel \<times> string \<Rightarrow> text_buffer option"
  wSampling :: "(string \<times> rat) list"
  wBus :: "canonical_event list"
  wTicks :: tick_cache
  wFresh :: nat
  wFaults :: "(string \<times> int) list"
  wSignals :: deliveries
  wEscalations :: "pending_escalation list"
  wClosing :: bool

datatype outcome = Done world | Threw world

fun world_of :: "outcome \<Rightarrow> world" where
  "world_of (Done w) = w"
| "world_of (Threw w) = w"

fun and_then :: "outcome \<Rightarrow> (world \<Rightarrow> outcome) \<Rightarrow> outcome" where
  "and_then (Done w) f = f w"
| "and_then (Threw w) f = Threw w"

definition fresh_id :: "caps_config \<Rightarrow> string \<Rightarrow> world \<Rightarrow> string \<times> world" where
  "fresh_id cf p w = (cfNewId cf p (wFresh w), w \<lparr>wFresh := wFresh w + 1\<rparr>)"

text \<open>An assignment to the session object \<open>active\<close>, whether or not the registry still holds it.\<close>

definition upd_active :: "string \<Rightarrow> (active_session \<Rightarrow> active_session) \<Rightarrow> world \<Rightarrow> world" where
  "upd_active sid f w = w \<lparr>wReg := upd_object sid f (wReg w)\<rparr>"

definition start_sampling :: "string \<Rightarrow> rat \<Rightarrow> world \<Rightarrow> world" where
  "start_sampling sid p w = w \<lparr>wSampling := List.insert (sid, p) (wSampling w)\<rparr>"

text \<open>\<open>telemetry.stop(sessionId, pid?)\<close>: one loop, or every loop of the session.\<close>

definition stop_sampling :: "string \<Rightarrow> rat option \<Rightarrow> world \<Rightarrow> world" where
  "stop_sampling sid p w =
     w \<lparr>wSampling := filter (\<lambda>(s, q). \<not> (s = sid \<and> (p = None \<or> p = Some q))) (wSampling w)\<rparr>"

section \<open>Identities, flags and texts\<close>

definition forgetActiveIdentities :: "active_session \<Rightarrow> world \<Rightarrow> world" where
  "forgetActiveIdentities a w =
     (let owned = fold (\<lambda>i m. AList.update (piPid i) i m) (acOwned a) [];
          identities = (case acChildIdentity a of None \<Rightarrow> owned
                        | Some i \<Rightarrow> AList.update (piPid i) i owned);
          identities = (case acChildGroupLeader a of None \<Rightarrow> identities
                        | Some i \<Rightarrow> AList.update (piPid i) i identities)
      in w \<lparr>wTicks := fold (\<lambda>(p, i) c. forgetIdentity (Some i) c) identities (wTicks w)\<rparr>)"

definition REDIR_FLAGS :: "(string \<times> string) list" where
  "REDIR_FLAGS =
     [(''in'', ''O_RDONLY''), (''out'', ''O_WRONLY | O_CREAT | O_TRUNC''),
      (''append'', ''O_WRONLY | O_CREAT | O_APPEND'')]"

definition keepTail :: "string \<Rightarrow> string \<Rightarrow> nat \<Rightarrow> string" where
  "keepTail buf chunk limit =
     (let combined = buf @ chunk
      in if length combined \<le> limit then combined else slice_last limit combined)"

definition MAX_PENDING_LINE :: nat where
  "MAX_PENDING_LINE = 64 * 1024"

definition pending_notice :: string where
  "pending_notice =
     newline # ''[truncated: an unterminated line exceeded 65536 characters]'' @ [newline]"

fun status_text :: "session_status \<Rightarrow> string" where
  "status_text CREATED = ''CREATED''"
| "status_text STARTING = ''STARTING''"
| "status_text RUNNING = ''RUNNING''"
| "status_text COMPLETED = ''COMPLETED''"
| "status_text FAILED = ''FAILED''"
| "status_text TIMED_OUT = ''TIMED_OUT''"
| "status_text CANCELLED = ''CANCELLED''"

definition or_question :: "(rat \<Rightarrow> string) \<Rightarrow> rat option \<Rightarrow> string" where
  "or_question num_text n = (case n of None \<Rightarrow> ''?'' | Some x \<Rightarrow> num_text x)"

fun error_text :: "(rat \<Rightarrow> string) \<Rightarrow> run_error \<Rightarrow> string" where
  "error_text num_text (Timed_out_after ms) =
     ''execution timed out after '' @ int_text ms @ ''ms''"
| "error_text num_text (Terminated_by_signal s) =
     ''terminated by signal '' @ or_question num_text s"
| "error_text num_text (Execvp_failed why) = ''execvp() failed ('' @ why @ ''); no program ran''"
| "error_text num_text (Waitpid_failed why) =
     ''waitpid() failed ('' @ why @ ''); the process outcome is unknown''"
| "error_text num_text (Could_not_launch why) =
     ''the engine could not launch the child ('' @ why @ '')''"
| "error_text num_text (Exited_with_code c) = ''exited with code '' @ or_question num_text c"
| "error_text num_text Closed_without_outcome =
     ''the engine closed the monitor stream without reporting a process outcome''"
| "error_text num_text No_lifecycle_event = ''no process lifecycle event was observed''"
| "error_text num_text (Plain_reason s) = s"

section \<open>Retaining output\<close>

definition outputCapFor :: "caps_config \<Rightarrow> channel \<Rightarrow> nat" where
  "outputCapFor cf ch = (case ch of Stderr \<Rightarrow> cfStderrBytes cf | Stdout \<Rightarrow> cfStdoutBytes cf)"

definition empty_buffer :: text_buffer where
  "empty_buffer = \<lparr>tbText = [], tbTruncated = False\<rparr>"

definition append_output :: "caps_config \<Rightarrow> channel \<Rightarrow> string \<Rightarrow> string \<Rightarrow> world \<Rightarrow> world" where
  "append_output cf ch sid txt w =
     (let cur = (case wBuffers w (ch, sid) of Some b \<Rightarrow> b | None \<Rightarrow> empty_buffer);
          limit = outputCapFor cf ch;
          combined = tbText cur @ txt;
          b = (if length combined \<le> limit
               then \<lparr>tbText = combined, tbTruncated = tbTruncated cur\<rparr>
               else \<lparr>tbText = slice_last limit combined, tbTruncated = True\<rparr>)
      in w \<lparr>wBuffers := (wBuffers w)((ch, sid) := Some b)\<rparr>)"

record output_snapshot =
  snStdout :: string
  snStderr :: string
  snStdoutTruncated :: bool
  snStderrTruncated :: bool

definition outputFor :: "string \<Rightarrow> world \<Rightarrow> output_snapshot option" where
  "outputFor sid w =
     (let live = wBuffers w (Stdout, sid); liveErr = wBuffers w (Stderr, sid) in
      if live = None \<and> liveErr = None then None
      else
        (let a = (case live of Some b \<Rightarrow> b | None \<Rightarrow> empty_buffer);
             b = (case liveErr of Some b \<Rightarrow> b | None \<Rightarrow> empty_buffer)
         in Some \<lparr>snStdout = tbText a, snStderr = tbText b,
                  snStdoutTruncated = tbTruncated a, snStderrTruncated = tbTruncated b\<rparr>))"


section \<open>Persisting, then publishing\<close>

text \<open>The outcome of the insertion: stored and published, or logged and not published.\<close>

definition store_event :: "moment \<Rightarrow> canonical_event \<Rightarrow> world \<Rightarrow> world" where
  "store_event mo ev w =
     (case insertEvent (moInsert mo (evId ev)) ev (wDb w) of
        Some d \<Rightarrow> w \<lparr>wDb := d, wBus := wBus w @ [ev]\<rparr>
      | None \<Rightarrow> w \<lparr>wFaults := wFaults w @ [(evSessionId ev, evSequence ev)]\<rparr>)"

definition emit :: "moment \<Rightarrow> canonical_event \<Rightarrow> world \<Rightarrow> world" where
  "emit mo ev w =
     (case reg_get (wReg w) (evSessionId ev) of
        Some a \<Rightarrow>
          store_event mo (ev \<lparr>evSequence := acNextSeq a\<rparr>)
            (upd_active (evSessionId ev) (\<lambda>s. s \<lparr>acNextSeq := acNextSeq s + 1\<rparr>) w)
      | None \<Rightarrow> store_event mo ev w)"

text \<open>
  \<open>emit\<close> of an event whose type is no string: the sequence is consumed and the database refuses
  to bind the type.
\<close>

definition emit_untyped :: "string \<Rightarrow> int \<Rightarrow> world \<Rightarrow> world" where
  "emit_untyped sid sequence w =
     (case reg_get (wReg w) sid of
        Some a \<Rightarrow>
          (let w = upd_active sid (\<lambda>s. s \<lparr>acNextSeq := acNextSeq s + 1\<rparr>) w
           in w \<lparr>wFaults := wFaults w @ [(sid, acNextSeq a)]\<rparr>)
      | None \<Rightarrow> w \<lparr>wFaults := wFaults w @ [(sid, sequence)]\<rparr>)"

section \<open>Observing the lifecycle\<close>

definition own :: "process_identity option \<Rightarrow> process_identity list \<Rightarrow> process_identity list" where
  "own i owned =
     (case i of
        None \<Rightarrow> owned
      | Some j \<Rightarrow> if list_ex (\<lambda>k. piPid k = piPid j) owned then owned else owned @ [j])"

definition observe_pid :: "moment \<Rightarrow> string \<Rightarrow> rat option \<Rightarrow> world \<Rightarrow> outcome" where
  "observe_pid mo sid pid w =
     (case pid of
        None \<Rightarrow> Done w
      | Some p \<Rightarrow>
          if \<not> moUpdate mo then Threw w
          else
            (let (identity, ticks) = rememberIdentity (moOs mo) (Some p) (wTicks w);
                 w = w \<lparr>wDb := setPid sid p (wDb w), wTicks := ticks\<rparr>
             in Done (upd_active sid
                  (\<lambda>s. s \<lparr>acChildIdentity := identity, acOwned := own identity (acOwned s)\<rparr>) w)))"

definition observe_group :: "string \<Rightarrow> canonical_event \<Rightarrow> world \<Rightarrow> world" where
  "observe_group sid ev w =
     (case as_num (field (evPayload ev) ''pgid'') of
        Some g \<Rightarrow>
          if g > 1
          then upd_active sid
                 (\<lambda>s. s \<lparr>acChildPgid := Some g,
                        acChildGroupLeader :=
                          (if acChildGroupLeader s = None \<and> evPid ev = Some g
                           then acChildIdentity s else acChildGroupLeader s)\<rparr>) w
          else w
      | None \<Rightarrow> w)"

definition observe_started :: "moment \<Rightarrow> string \<Rightarrow> canonical_event \<Rightarrow> world \<Rightarrow> outcome" where
  "observe_started mo sid ev w =
     (let w = upd_active sid
            (\<lambda>s. s \<lparr>acState := RUNNING, acChildPid := evPid ev,
                   acProcessStartedAt := Some (evTimestamp ev), acProcessReaped := False\<rparr>) w
      in and_then (observe_pid mo sid (evPid ev) w)
           (\<lambda>w. let w = observe_group sid ev w
                in Done (case evPid ev of None \<Rightarrow> w | Some p \<Rightarrow> start_sampling sid p w)))"

definition payload_str :: "canonical_event \<Rightarrow> string \<Rightarrow> string option" where
  "payload_str ev k = as_str (field (evPayload ev) k)"

definition payload_num :: "canonical_event \<Rightarrow> string \<Rightarrow> rat option" where
  "payload_num ev k = as_num (field (evPayload ev) k)"

definition note_outcome :: "canonical_event \<Rightarrow> active_session \<Rightarrow> active_session" where
  "note_outcome ev s =
     s \<lparr>acEngineOutcome :=
          (case payload_str ev ''outcome'' of Some o' \<Rightarrow> Some o' | None \<Rightarrow> acEngineOutcome s)\<rparr>"

definition note_signal :: "canonical_event \<Rightarrow> active_session \<Rightarrow> active_session" where
  "note_signal ev s =
     s \<lparr>acSignal := (case payload_num ev ''signal'' of Some n \<Rightarrow> Some n | None \<Rightarrow> acSignal s)\<rparr>"

definition note_exit :: "canonical_event \<Rightarrow> active_session \<Rightarrow> active_session" where
  "note_exit ev s =
     s \<lparr>acExitCode := (case payload_num ev ''exitCode'' of Some n \<Rightarrow> Some n | None \<Rightarrow> acExitCode s),
        acProcessReaped := True\<rparr>"

definition note_failure :: "canonical_event \<Rightarrow> active_session \<Rightarrow> active_session" where
  "note_failure ev s =
     s \<lparr>acEngineReason := payload_str ev ''reason'',
        acSawExecError := (acSawExecError s \<or> evType ev = Process_exec_error),
        acSawWaitFailure := (acSawWaitFailure s \<or> evType ev = Process_wait_failed),
        acSawLaunchFailure := (acSawLaunchFailure s \<or> evType ev = Process_launch_failed),
        acProcessReaped := True\<rparr>"

definition observe :: "moment \<Rightarrow> string \<Rightarrow> canonical_event \<Rightarrow> world \<Rightarrow> outcome" where
  "observe mo sid ev w =
     (if reg_get (wReg w) sid = None then Done w
      else
        (case evType ev of
           Process_started \<Rightarrow> observe_started mo sid ev w
         | Signal_received \<Rightarrow>
             Done (upd_active sid (\<lambda>s. note_outcome ev (note_signal ev s)) w)
         | Process_exited \<Rightarrow>
             Done (stop_sampling sid (evPid ev)
                     (upd_active sid (\<lambda>s. note_exit ev (note_outcome ev s)) w))
         | Process_exec_error \<Rightarrow>
             Done (stop_sampling sid (evPid ev)
                     (upd_active sid (\<lambda>s. note_failure ev (note_outcome ev s)) w))
         | Process_wait_failed \<Rightarrow>
             Done (stop_sampling sid (evPid ev)
                     (upd_active sid (\<lambda>s. note_failure ev (note_outcome ev s)) w))
         | Process_launch_failed \<Rightarrow>
             Done (stop_sampling sid (evPid ev)
                     (upd_active sid (\<lambda>s. note_failure ev (note_outcome ev s)) w))
         | Session_summary \<Rightarrow> Done (upd_active sid (\<lambda>s. s \<lparr>acSawSummary := True\<rparr>) w)
         | _ \<Rightarrow> Done w))"

section \<open>Routing what the child writes\<close>

definition append_line :: "caps_config \<Rightarrow> string \<Rightarrow> string \<Rightarrow> world \<Rightarrow> world" where
  "append_line cf sid txt w = append_output cf Stderr sid (txt @ [newline]) w"

definition normalize_line :: "caps_config \<Rightarrow> moment \<Rightarrow> string \<Rightarrow> string \<Rightarrow> world \<Rightarrow> normalized" where
  "normalize_line cf mo sid line w =
     (case parseCapsLine (cfParse cf) line of
        Parsed_event (JObj raw) \<Rightarrow>
          normalizeCapsEvent (cfNumText cf) raw
            \<lparr>cxSessionId = sid, cxSequence = acNextSeq (the (regObjects (wReg w) sid)),
             cxEvId = fst (fresh_id cf ''evt'' w), cxRawTs = moNow mo\<rparr>
      | _ \<Rightarrow> Not_an_event)"

definition routeStderrLine :: "caps_config \<Rightarrow> moment \<Rightarrow> string \<Rightarrow> string \<Rightarrow> world \<Rightarrow> outcome" where
  "routeStderrLine cf mo sid line w =
     (let c = classifyLine (cfParse cf) line in
      case clKind c of
        Monitor_event obj \<Rightarrow>
          (case normalize_line cf mo sid line w of
             Normalized ev \<Rightarrow> observe mo sid ev (emit mo ev (snd (fresh_id cf ''evt'' w)))
           | Untyped_event \<Rightarrow>
               Done (emit_untyped sid (acNextSeq (the (regObjects (wReg w) sid)))
                       (snd (fresh_id cf ''evt'' w)))
           | Not_an_event \<Rightarrow> Done (append_line cf sid line w))
      | Caps_diagnostic \<Rightarrow> Done (append_line cf sid (clText c) w)
      | Protocol_error \<Rightarrow> Done (append_line cf sid (''[monitor protocol] '' @ clText c) w)
      | Target_output \<Rightarrow> Done (append_line cf sid (clText c) w))"

fun route_lines :: "caps_config \<Rightarrow> moment \<Rightarrow> string \<Rightarrow> string list \<Rightarrow> world \<Rightarrow> outcome" where
  "route_lines cf mo sid [] w = Done w"
| "route_lines cf mo sid (l # ls) w =
     and_then (routeStderrLine cf mo sid l w) (route_lines cf mo sid ls)"

definition onStderr :: "caps_config \<Rightarrow> moment \<Rightarrow> string \<Rightarrow> string \<Rightarrow> world \<Rightarrow> outcome" where
  "onStderr cf mo sid chunk w =
     (let (lines, rest) = splitLines (acStderrLineBuffer (the (regObjects (wReg w) sid)) @ chunk);
          w = upd_active sid
            (\<lambda>s. s \<lparr>acStderrBytes := acStderrBytes s + length chunk, acLastEventAt := moNow mo\<rparr>) w;
          w = (if length rest > MAX_PENDING_LINE
               then upd_active sid (\<lambda>s. s \<lparr>acStderrLineBuffer := []\<rparr>)
                      (append_output cf Stderr sid (take MAX_PENDING_LINE rest @ pending_notice) w)
               else upd_active sid (\<lambda>s. s \<lparr>acStderrLineBuffer := rest\<rparr>) w)
      in route_lines cf mo sid lines w)"

definition flushStderrTail :: "caps_config \<Rightarrow> moment \<Rightarrow> string \<Rightarrow> world \<Rightarrow> outcome" where
  "flushStderrTail cf mo sid w =
     (let tail = acStderrLineBuffer (the (regObjects (wReg w) sid));
          w = upd_active sid (\<lambda>s. s \<lparr>acStderrLineBuffer := []\<rparr>) w
      in if tail = [] then Done w else routeStderrLine cf mo sid tail w)"

definition onStdout :: "caps_config \<Rightarrow> moment \<Rightarrow> string \<Rightarrow> string \<Rightarrow> world \<Rightarrow> world" where
  "onStdout cf mo sid chunk w =
     append_output cf Stdout sid chunk
       (upd_active sid
         (\<lambda>s. s \<lparr>acStdoutBytes := acStdoutBytes s + length chunk, acLastEventAt := moNow mo\<rparr>) w)"


section \<open>Termination and the timeout\<close>

text \<open>The engine prints integers; a number that is none identifies no process.\<close>

definition as_pid :: "rat option \<Rightarrow> int option" where
  "as_pid n = (case n of Some p \<Rightarrow> if is_integral p then Some \<lfloor>p\<rfloor> else None | None \<Rightarrow> None)"

definition terminateActive ::
    "moment \<Rightarrow> string \<Rightarrow> sig \<Rightarrow> world \<Rightarrow> signal_result \<times> world" where
  "terminateActive mo sid sg w =
     (let a = the (regObjects (wReg w) sid);
          (r, sent, ticks) =
            terminateFirst (moOs mo) (as_pid (acChildPid a)) sg
              (Some (as_pid (acChildPgid a), acOwned a)) (wTicks w)
      in (r, w \<lparr>wTicks := ticks, wSignals := wSignals w @ sent\<rparr>))"

text \<open>\<open>waitForEscalation()\<close>: the timer is armed with what it captured.\<close>

definition arm_escalation :: "string \<Rightarrow> signal_result \<Rightarrow> world \<Rightarrow> world" where
  "arm_escalation sid r w =
     (let a = the (regObjects (wReg w) sid) in
      w \<lparr>wEscalations := wEscalations w @
           [\<lparr>peSessionId = sid, pePid = as_pid (acChildPid a), pePgid = as_pid (acChildPgid a),
             peFirst = r\<rparr>]\<rparr>)"

text \<open>Its expiry: the members are the list object of the session, as it is then.\<close>

definition run_escalation :: "(nat \<Rightarrow> os) \<Rightarrow> pending_escalation \<Rightarrow> world \<Rightarrow> world" where
  "run_escalation os_at e w =
     (let a = the (regObjects (wReg w) (peSessionId e));
          (r, sent) = terminateEscalation os_at (pePid e) (Some (pePgid e, acOwned a)) (peFirst e)
      in w \<lparr>wSignals := wSignals w @ sent, wEscalations := remove1 e (wEscalations w)\<rparr>)"

definition handleTimeout :: "moment \<Rightarrow> string \<Rightarrow> world \<Rightarrow> world" where
  "handleTimeout mo sid w =
     (let a = the (regObjects (wReg w) sid) in
      if acTimedOut a \<or> acFinalized a then w
      else
        (let w = upd_active sid (\<lambda>s. s \<lparr>acTimedOut := True, acState := TIMED_OUT\<rparr>) w;
             (r, w) = terminateActive mo sid (Sig_name ''SIGTERM'') w;
             w = upd_active sid
               (\<lambda>s. s \<lparr>acChildIdentity := coalesce (srIdentity r) (acChildIdentity s),
                      acEscalation := True\<rparr>) w
         in arm_escalation sid r w))"

definition requestTerminate ::
    "moment \<Rightarrow> string \<Rightarrow> sig \<Rightarrow> world \<Rightarrow> signal_result option \<times> world" where
  "requestTerminate mo sid sg w =
     (if reg_get (wReg w) sid = None then (None, w)
      else
        (let (r, w) = terminateActive mo sid sg w in
         if srSent r
         then (Some r,
               arm_escalation sid r
                 (upd_active sid
                   (\<lambda>s. s \<lparr>acTerminateRequested := True,
                          acChildIdentity := coalesce (srIdentity r) (acChildIdentity s),
                          acEscalation := True\<rparr>) w))
         else (Some r, w)))"

section \<open>Telemetry snapshots\<close>

definition publishSnapshot ::
    "caps_config \<Rightarrow> moment \<Rightarrow> string \<Rightarrow> rat \<Rightarrow> payload \<Rightarrow> world \<Rightarrow> world" where
  "publishSnapshot cf mo sid pid snapshot w =
     (case reg_get (wReg w) sid of
        None \<Rightarrow> w
      | Some a \<Rightarrow>
          if acFinalized a then w
          else
            (let (i, w) = fresh_id cf ''evt'' w;
                 p = filter (\<lambda>(k, v). k \<noteq> ''identityStartTicks'') snapshot
             in emit mo (gatewayEvent sid 0 i (moNow mo) Gateway Process_snapshot p (Some pid)) w))"

section \<open>The verdict\<close>

definition failed_because :: "run_error \<Rightarrow> session_status \<times> bool \<times> run_error option" where
  "failed_because e = (FAILED, False, Some e)"

definition reason_or :: "string \<Rightarrow> active_session \<Rightarrow> string" where
  "reason_or d a = (case acEngineReason a of Some r \<Rightarrow> r | None \<Rightarrow> d)"

definition decideStatus ::
    "active_session \<Rightarrow> rat option \<Rightarrow> session_status \<times> bool \<times> run_error option" where
  "decideStatus a exitCode =
     (if acTimedOut a then (TIMED_OUT, False, Some (Timed_out_after (acTimeoutMs a)))
      else if acTerminateRequested a \<and> acSignal a \<noteq> None
      then (CANCELLED, False, Some (Terminated_by_signal (acSignal a)))
      else if acSawExecError a then failed_because (Execvp_failed (reason_or ''exec_failed'' a))
      else if acSawWaitFailure a then failed_because (Waitpid_failed (reason_or ''wait_failed'' a))
      else if acSawLaunchFailure a
      then failed_because (Could_not_launch (reason_or ''launch_failed'' a))
      else if acEngineOutcome a = Some ''SIGNALED'' \<or> acSignal a \<noteq> None
      then failed_because (Terminated_by_signal (acSignal a))
      else if acEngineOutcome a = Some ''COMPLETED'' then (COMPLETED, True, None)
      else if acEngineOutcome a = Some ''EXITED''
      then failed_because (Exited_with_code (coalesce (acExitCode a) exitCode))
      else failed_because (if acSawSummary a then Closed_without_outcome else No_lifecycle_event))"

fun final_type :: "session_status \<Rightarrow> event_type" where
  "final_type TIMED_OUT = Execution_timeout"
| "final_type CANCELLED = Execution_cancelled"
| "final_type COMPLETED = Execution_completed"
| "final_type _ = Execution_failed"

definition json_str :: "string option \<Rightarrow> json" where
  "json_str s = (case s of None \<Rightarrow> JNull | Some x \<Rightarrow> JStr x)"

definition json_num :: "rat option \<Rightarrow> json" where
  "json_num n = (case n of None \<Rightarrow> JNull | Some x \<Rightarrow> JNum x)"

definition final_payload ::
    "caps_config \<Rightarrow> active_session \<Rightarrow> rat option \<Rightarrow> string option \<Rightarrow> rat option \<Rightarrow> int
      \<Rightarrow> session_status \<times> bool \<times> run_error option \<Rightarrow> bool \<Rightarrow> bool \<Rightarrow> bool \<Rightarrow> payload" where
  "final_payload cf a code signalCode exitCode durationMs verdict outCut errCut closing =
     (let (status, isSuccess, err) = verdict in
      [(''status'', JStr (status_text status)), (''exitCode'', json_num exitCode),
       (''signal'', json_num (acSignal a)), (''durationMs'', JNum (of_int durationMs)),
       (''isSuccess'', JBool isSuccess), (''capsExitCode'', json_num code),
       (''capsSignal'', json_str signalCode), (''engineOutcome'', json_str (acEngineOutcome a)),
       (''execError'', JBool (acSawExecError a)), (''waitFailure'', JBool (acSawWaitFailure a)),
       (''launchFailure'', JBool (acSawLaunchFailure a)), (''stdoutTruncated'', JBool outCut),
       (''stderrTruncated'', JBool errCut)] @
      (case err of None \<Rightarrow> [] | Some e \<Rightarrow> [(''reason'', JStr (error_text (cfNumText cf) e))]) @
      (if closing then [(''shutdown'', JBool True)] else []))"


section \<open>Finalizing\<close>

definition remove_active :: "string \<Rightarrow> world \<Rightarrow> world" where
  "remove_active sid w = w \<lparr>wReg := reg_delete sid (wReg w)\<rparr>"

definition drop_buffers :: "string \<Rightarrow> world \<Rightarrow> world" where
  "drop_buffers sid w =
     w \<lparr>wBuffers := (wBuffers w)((Stdout, sid) := None, (Stderr, sid) := None)\<rparr>"

text \<open>
  The transaction of \<open>finalize\<close>: the new database, if it commits, and the sequence counter
  afterwards.  The counter advances inside the transaction, just before the insertion, and once
  more when the transaction failed.
\<close>

definition final_transaction ::
    "moment \<Rightarrow> string \<Rightarrow> final_fields \<Rightarrow> string \<Rightarrow> string \<Rightarrow> canonical_event \<Rightarrow> int \<Rightarrow> db
      \<Rightarrow> db option \<times> int" where
  "final_transaction mo sid ff out err ev n d =
     (if \<not> moBegin mo then (None, n + 1)
      else
        (case finalizeRow (moUpdate mo) sid ff (moNow mo) d of
           None \<Rightarrow> (None, n + 1)
         | Some d' \<Rightarrow>
             (case insertEvent (moInsert mo (evId ev)) (ev \<lparr>evSequence := n\<rparr>)
                     (appendOutput sid out err d') of
                None \<Rightarrow> (None, n + 2)
              | Some d'' \<Rightarrow> (Some d'', n + 1))))"

text \<open>From the transaction to the end of \<open>finalize\<close>: publish what committed, log what did not.\<close>

definition finish ::
    "moment \<Rightarrow> string \<Rightarrow> final_fields \<Rightarrow> string \<Rightarrow> string \<Rightarrow> canonical_event \<Rightarrow> world \<Rightarrow> world" where
  "finish mo sid ff out err ev w =
     (let n = acNextSeq (the (regObjects (wReg w) sid));
          (committed, n') = final_transaction mo sid ff out err ev n (wDb w);
          w = upd_active sid (\<lambda>s. s \<lparr>acNextSeq := n'\<rparr>) w
      in remove_active sid
           (case committed of
              Some d \<Rightarrow> w \<lparr>wDb := d, wBus := wBus w @ [ev \<lparr>evSequence := n\<rparr>]\<rparr>
            | None \<Rightarrow> w \<lparr>wFaults := wFaults w @ [(sid, n)]\<rparr>))"

definition finalize ::
    "caps_config \<Rightarrow> moment \<Rightarrow> string \<Rightarrow> rat option \<Rightarrow> string option \<Rightarrow> world \<Rightarrow> world" where
  "finalize cf mo sid code signalCode w =
     (let a = the (regObjects (wReg w) sid) in
      if acFinalized a then w
      else
        (let exitCode = (if signalCode \<noteq> None \<and> signalCode \<noteq> Some [] then None else code);
             durationMs = max 0 (moNow mo - acMonotonicStartMs a);
             (status, isSuccess, err) = decideStatus a exitCode;
             live = (case wBuffers w (Stdout, sid) of Some b \<Rightarrow> b | None \<Rightarrow> empty_buffer);
             liveErr = (case wBuffers w (Stderr, sid) of Some b \<Rightarrow> b | None \<Rightarrow> empty_buffer);
             p = final_payload cf a code signalCode exitCode durationMs (status, isSuccess, err)
                   (tbTruncated live) (tbTruncated liveErr) (wClosing w);
             ff = \<lparr>ffStatus = status, ffExitCode = exitCode, ffSignal = acSignal a,
                   ffIsSuccess = Some isSuccess, ffDurationMs = Some durationMs,
                   ffPid = acChildPid a, ffError = err\<rparr>;
             w = upd_active sid (\<lambda>s. s \<lparr>acFinalized := True\<rparr>) w;
             w = forgetActiveIdentities a (stop_sampling sid None (drop_buffers sid w));
             (i, w) = fresh_id cf ''evt'' w
         in finish mo sid ff (tbText live) (tbText liveErr)
              (gatewayEvent sid 0 i (moNow mo) Gateway (final_type status) p (acChildPid a)) w))"

definition finalizeFailed :: "caps_config \<Rightarrow> moment \<Rightarrow> string \<Rightarrow> string \<Rightarrow> world \<Rightarrow> outcome" where
  "finalizeFailed cf mo sid reason w =
     (let a = the (regObjects (wReg w) sid) in
      if acFinalized a then Done w
      else
        (let w = forgetActiveIdentities a
                   (stop_sampling sid None (upd_active sid (\<lambda>s. s \<lparr>acFinalized := True\<rparr>) w));
             ff = \<lparr>ffStatus = FAILED, ffExitCode = None, ffSignal = None, ffIsSuccess = Some False,
                   ffDurationMs = Some (max 0 (moNow mo - acMonotonicStartMs a)),
                   ffPid = acChildPid a, ffError = Some (Plain_reason reason)\<rparr>
         in case finalizeRow (moUpdate mo) sid ff (moNow mo) (wDb w) of
              None \<Rightarrow> Threw w
            | Some d \<Rightarrow>
                (let (i, w) = fresh_id cf ''evt'' (w \<lparr>wDb := d\<rparr>) in
                 Done (remove_active sid
                   (emit mo
                     (gatewayEvent sid 0 i (moNow mo) Gateway Execution_failed
                       [(''reason'', JStr reason), (''outcome'', JStr ''LAUNCH_FAILED'')] None) w)))))"

datatype abandon_kind = Recovered | Shutdown

definition abandoned_payload :: "string \<Rightarrow> abandon_kind \<Rightarrow> int \<Rightarrow> payload" where
  "abandoned_payload reason kind durationMs =
     [(''reason'', JStr reason), (''recovered'', JBool (kind = Recovered)),
      (''shutdown'', JBool (kind = Shutdown)), (''outcome'', JStr ''LAUNCH_FAILED''),
      (''durationMs'', JNum (of_int durationMs))]"

definition record_transaction ::
    "moment \<Rightarrow> string \<Rightarrow> final_fields \<Rightarrow> canonical_event \<Rightarrow> db \<Rightarrow> db option" where
  "record_transaction mo sid ff ev d =
     (if \<not> moBegin mo then None
      else Option.bind (finalizeRow (moUpdate mo) sid ff (moNow mo) d)
             (insertEvent (moInsert mo (evId ev)) ev))"

text \<open>The row of a session no live object stands for: its row and its terminal event, or neither.\<close>

definition finalize_record ::
    "caps_config \<Rightarrow> moment \<Rightarrow> string \<Rightarrow> string \<Rightarrow> abandon_kind \<Rightarrow> world
      \<Rightarrow> canonical_event option \<times> outcome" where
  "finalize_record cf mo sid reason kind w =
     (case findById (wDb w) sid of
        None \<Rightarrow> (None, Done w)
      | Some r \<Rightarrow>
          if isTerminalStatus (rowStatus r) then (None, Done w)
          else
            (let durationMs = max 0 (moNow mo - rowStartedAt r);
                 (i, w) = fresh_id cf ''evt'' w;
                 ev = gatewayEvent sid (maxSequence (wDb w) sid + 1) i (moNow mo) Gateway
                        Execution_failed (abandoned_payload reason kind durationMs) None;
                 ff = \<lparr>ffStatus = FAILED, ffExitCode = None, ffSignal = None,
                       ffIsSuccess = Some False, ffDurationMs = Some durationMs,
                       ffPid = rowPid r, ffError = Some (Plain_reason reason)\<rparr>
             in case record_transaction mo sid ff ev (wDb w) of
                  None \<Rightarrow> (None, Done w)
                | Some d \<Rightarrow> (Some ev, Done (w \<lparr>wDb := d, wBus := wBus w @ [ev]\<rparr>))))"

definition finalizeAbandoned ::
    "caps_config \<Rightarrow> moment \<Rightarrow> string \<Rightarrow> string \<Rightarrow> abandon_kind \<Rightarrow> world
      \<Rightarrow> canonical_event option \<times> outcome" where
  "finalizeAbandoned cf mo sid reason kind w =
     (case reg_get (wReg w) sid of
        Some a \<Rightarrow>
          if \<not> acFinalized a then (None, finalizeFailed cf mo sid reason w)
          else finalize_record cf mo sid reason kind w
      | None \<Rightarrow> finalize_record cf mo sid reason kind w)"


section \<open>Starting\<close>

record start_input =
  siCommand :: string
  siCommandLine :: "string option"
  siExecutable :: "string option"
  siArgs :: "string list"
  siRedirections :: redirection_spec
  siTimeoutMs :: int

datatype start_error =
    Concurrency_limit_reached nat | Persistence_failed | Thermal_refused string
  | Spawn_failed string

fun decision_text :: "guard_decision \<Rightarrow> string" where
  "decision_text ALLOW = ''ALLOW''"
| "decision_text WARN_ONLY = ''WARN_ONLY''"
| "decision_text REFUSE_TERM = ''REFUSE_TERM''"
| "decision_text REFUSE_KILL = ''REFUSE_KILL''"
| "decision_text UNAVAILABLE_ALLOW = ''UNAVAILABLE_ALLOW''"
| "decision_text UNAVAILABLE_REFUSE = ''UNAVAILABLE_REFUSE''"
| "decision_text DISABLED = ''DISABLED''"

fun result_text :: "guard_result \<Rightarrow> string" where
  "result_text R_NONE = ''NONE''"
| "result_text WARNING_ISSUED = ''WARNING_ISSUED''"
| "result_text TERM_SENT = ''TERM_SENT''"
| "result_text TERM_THEN_KILL_SENT = ''TERM_THEN_KILL_SENT''"

definition class_text :: "source_class \<Rightarrow> string" where
  "class_text c = (case c of Thermal_zone \<Rightarrow> ''thermal_zone'' | Hwmon \<Rightarrow> ''hwmon'')"

definition kind_text :: "threshold_kind \<Rightarrow> string" where
  "kind_text k = (case k of Warning \<Rightarrow> ''warning'' | Critical \<Rightarrow> ''critical'')"

definition provenance_text :: "reading_provenance \<Rightarrow> string" where
  "provenance_text p = (case p of OBSERVED \<Rightarrow> ''OBSERVED'' | UNAVAILABLE \<Rightarrow> ''UNAVAILABLE'')"

text \<open>A timestamp of a payload is its epoch value, as everywhere in the model.\<close>

definition thermalGuardPayload :: "thermal_decision_record \<Rightarrow> payload" where
  "thermalGuardPayload r =
     (let th = tdThreshold r; se = tdSensor r; rd = tdReading r in
      [(''decision'', JStr (decision_text (tdDecision r))),
       (''action'', JStr (action_text (tdAction r))),
       (''enabled'', JBool (tdDecision r \<noteq> DISABLED)),
       (''threshold'', json_str (map_option (\<lambda>x. kind_text (fst x)) th)),
       (''thresholdCelsius'', json_num (map_option snd th)),
       (''sensor'', json_str (map_option gsName se)),
       (''sensorPath'', json_str (map_option gsPath se)),
       (''sensorSourceClass'', json_str (map_option (\<lambda>s. class_text (gsSourceClass s)) se)),
       (''sensorIsPackage'', (case se of None \<Rightarrow> JNull | Some s \<Rightarrow> JBool (gsIsPackage s))),
       (''celsius'', json_num (grCelsius rd)),
       (''rawMilliCelsius'', json_num (map_option of_nat (grRawMilli rd))),
       (''readingProvenance'', JStr (provenance_text (grProvenance rd))),
       (''readingSource'', JStr (grSource rd)),
       (''result'', JStr (result_text (tdResult r))),
       (''reason'', JStr (tdReason r)),
       (''decidedAt'', JNum (of_int (tdTimestamp r)))])"

definition refuses :: "thermal_decision_record \<Rightarrow> bool" where
  "refuses r \<longleftrightarrow> tdDecision r = REFUSE_TERM \<or> tdDecision r = REFUSE_KILL"

definition no_redirections :: redirection_spec where
  "no_redirections = \<lparr>rdIn = None, rdOut = None, rdAppend = None\<rparr>"

definition effective_redirections :: "start_input \<Rightarrow> redirection_spec" where
  "effective_redirections i =
     (case siCommandLine i of None \<Rightarrow> siRedirections i | Some l \<Rightarrow> no_redirections)"

text \<open>The slots that hold a target, each with the flags recorded for it.\<close>

definition redir_slots :: "redirection_spec \<Rightarrow> (string \<times> string) list" where
  "redir_slots r =
     List.map_filter (\<lambda>(slot, t). case t of Some x \<Rightarrow> if x = [] then None else Some (slot, x) | None \<Rightarrow> None)
       [(''in'', rdIn r), (''out'', rdOut r), (''append'', rdAppend r)]"

definition redirDetail :: "redirection_spec \<Rightarrow> (string \<times> string \<times> string) list" where
  "redirDetail r =
     map (\<lambda>(slot, t). (slot, t, the (map_of REDIR_FLAGS slot))) (redir_slots r)"

definition created_payload :: "start_input \<Rightarrow> thermal_decision_record \<Rightarrow> payload" where
  "created_payload i guard =
     [(''command'', JStr (siCommand i)), (''argumentCount'', JNum (of_nat (length (siArgs i)))),
      (''timeoutMs'', JNum (of_int (siTimeoutMs i))),
      (''thermalGuard'', JObj (thermalGuardPayload guard))] @
     (case siCommandLine i of None \<Rightarrow> [] | Some l \<Rightarrow> [(''commandLine'', JStr l)])"

text \<open>The session row and the first event of an execution, admitted or refused.\<close>

definition creation ::
    "start_input \<Rightarrow> redirection_spec \<Rightarrow> thermal_decision_record \<Rightarrow> string \<Rightarrow> string \<Rightarrow> int
      \<Rightarrow> create_session_input" where
  "creation i redirs guard sid evid now =
     \<lparr>csId = sid, csCommand = siCommand i, csArgs = siArgs i, csRedirections = redirDetail redirs,
      csTimeoutMs = siTimeoutMs i, csStartedAt = now,
      csFirstEvent = Some (gatewayEvent sid 0 evid now Gateway Execution_created
        (created_payload i guard) None)\<rparr>"

definition caps_argv :: "caps_config \<Rightarrow> start_input \<Rightarrow> string list" where
  "caps_argv cf i =
     [cfCapsExecutable cf, ''--monitor'', ''--json''] @
     (case siCommandLine i of
        Some l \<Rightarrow> [''--run-line'', l]
      | None \<Rightarrow>
          concat (map (\<lambda>(slot, t). [''--redir-'' @ slot, t]) (redir_slots (siRedirections i))) @
          (case siExecutable i of Some e \<Rightarrow> [e] | None \<Rightarrow> []) @ siArgs i)"

definition failBeforeStart ::
    "caps_config \<Rightarrow> moment \<Rightarrow> string \<Rightarrow> string \<Rightarrow> int \<Rightarrow> payload \<Rightarrow> world \<Rightarrow> outcome" where
  "failBeforeStart cf mo sid reason sequence extra w =
     (let ff = \<lparr>ffStatus = FAILED, ffExitCode = None, ffSignal = None, ffIsSuccess = Some False,
                ffDurationMs = None, ffPid = None, ffError = Some (Plain_reason reason)\<rparr> in
      case finalizeRow (moUpdate mo) sid ff (moNow mo) (wDb w) of
        None \<Rightarrow> Threw w
      | Some d \<Rightarrow>
          (let (i, w) = fresh_id cf ''evt'' (w \<lparr>wDb := d\<rparr>);
               p = fold (\<lambda>(k, v) q. put k v q) extra
                     [(''reason'', JStr reason), (''outcome'', JStr ''LAUNCH_FAILED'')];
               ev = gatewayEvent sid sequence i (moNow mo) Gateway Execution_failed p None
           in case insertEvent (moInsert mo i) ev (wDb w) of
                None \<Rightarrow> Threw w
              | Some d \<Rightarrow> Done (w \<lparr>wDb := d, wBus := wBus w @ [ev]\<rparr>)))"

definition new_active :: "start_input \<Rightarrow> string \<Rightarrow> int \<Rightarrow> active_session" where
  "new_active i sid now =
     \<lparr>acSessionId = sid, acCommand = siCommand i,
      acArgv = (case siCommandLine i of None \<Rightarrow> siCommand i # siArgs i | Some l \<Rightarrow> [siCommand i]),
      acState = STARTING, acProcessLive = True, acChildPid = None, acChildIdentity = None,
      acChildPgid = None, acChildGroupLeader = None, acOwned = [], acProcessStartedAt = None,
      acProcessReaped = False, acStartedAt = now, acMonotonicStartMs = now, acExitCode = None,
      acSignal = None, acTimedOut = False, acTerminateRequested = False,
      acTimeoutMs = siTimeoutMs i, acLastEventAt = now, acStdoutBytes = 0, acStderrBytes = 0,
      acSawSummary = False, acSawExecError = False, acSawWaitFailure = False,
      acSawLaunchFailure = False, acEngineOutcome = None, acEngineReason = None,
      acKillTimer = False, acEscalation = False, acStderrLineBuffer = [], acFinalized = False,
      acNextSeq = 1\<rparr>"

definition started_payload :: "caps_config \<Rightarrow> start_input \<Rightarrow> payload" where
  "started_payload cf i =
     [(''argv'', JArr (map JStr (tl (caps_argv cf i)))), (''command'', JStr (siCommand i))] @
     (case siExecutable i of None \<Rightarrow> [] | Some e \<Rightarrow> [(''executable'', JStr e)])"

text \<open>\<open>spawn_error\<close> is the message with which \<open>spawn\<close> threw, if it did.\<close>

definition spawnFor ::
    "caps_config \<Rightarrow> moment \<Rightarrow> string \<Rightarrow> start_input \<Rightarrow> string option \<Rightarrow> world
      \<Rightarrow> start_error option \<times> outcome" where
  "spawnFor cf mo sid i spawn_error w =
     (case spawn_error of
        Some m \<Rightarrow>
          (Some (Spawn_failed m),
           failBeforeStart cf mo sid (''execution could not be started: '' @ m) 1 [] w)
      | None \<Rightarrow>
          (let w = w \<lparr>wBuffers := (wBuffers w)((Stdout, sid) := Some empty_buffer,
                         (Stderr, sid) := Some empty_buffer),
                      wReg := reg_add (new_active i sid (moNow mo)) (wReg w)\<rparr>;
               (evid, w) = fresh_id cf ''evt'' w;
               w = emit mo (gatewayEvent sid 0 evid (moNow mo) Gateway Execution_started
                     (started_payload cf i) None) w
           in (None, Done (upd_active sid (\<lambda>s. s \<lparr>acState := RUNNING, acKillTimer := True\<rparr>) w))))"

definition refuseForThermal ::
    "caps_config \<Rightarrow> moment \<Rightarrow> string \<Rightarrow> start_input \<Rightarrow> thermal_decision_record \<Rightarrow> world
      \<Rightarrow> start_error \<times> outcome" where
  "refuseForThermal cf mo sid i guard w =
     (let (evid, w) = fresh_id cf ''evt'' w in
      case createWithFirstEvent (moBegin mo \<and> moInsert mo evid)
             (creation i no_redirections guard sid evid (moNow mo)) (wDb w) of
        None \<Rightarrow> (Persistence_failed, Done w)
      | Some d \<Rightarrow>
          (Thermal_refused (tdReason guard),
           failBeforeStart cf mo sid (tdReason guard) 1
             [(''outcome'', JStr ''LAUNCH_FAILED''), (''refusedBy'', JStr ''thermal-guard''),
              (''thermalGuard'', JObj (thermalGuardPayload guard))]
             (w \<lparr>wDb := d\<rparr>)))"

text \<open>\<open>guard\<close> is \<open>evaluateThermalGuard\<close> on the host as it is, for a session and a time.\<close>

definition start ::
    "caps_config \<Rightarrow> moment \<Rightarrow> (string \<Rightarrow> int \<Rightarrow> thermal_decision_record) \<Rightarrow> string option
      \<Rightarrow> start_input \<Rightarrow> world \<Rightarrow> (start_error + string) \<times> outcome" where
  "start cf mo guard spawn_error i w =
     (if \<not> hasCapacity (cfMaxConcurrent cf) (wReg w)
      then (Inl (Concurrency_limit_reached (cfMaxConcurrent cf)), Done w)
      else
        (let (sid, w) = fresh_id cf ''exec'' w; record = guard sid (moNow mo) in
         if refuses record
         then (let (e, res) = refuseForThermal cf mo sid i record w in (Inl e, res))
         else
           (let (evid, w) = fresh_id cf ''evt'' w in
            case createWithFirstEvent (moBegin mo \<and> moInsert mo evid)
                   (creation i (effective_redirections i) record sid evid (moNow mo)) (wDb w) of
              None \<Rightarrow> (Inl Persistence_failed, Done w)
            | Some d \<Rightarrow>
                (let (e, res) = spawnFor cf mo sid i spawn_error (w \<lparr>wDb := d\<rparr>) in
                 (case e of None \<Rightarrow> Inr sid | Some x \<Rightarrow> Inl x, res)))))"

definition close_runner :: "world \<Rightarrow> world" where
  "close_runner w = w \<lparr>wClosing := True, wSampling := [], wBuffers := (\<lambda>k. None)\<rparr>"


section \<open>The child's handlers\<close>

text \<open>\<open>child.on("close")\<close>: the timer, the partial line, the end.\<close>

definition onClose ::
    "caps_config \<Rightarrow> moment \<Rightarrow> string \<Rightarrow> rat option \<Rightarrow> string option \<Rightarrow> world \<Rightarrow> outcome" where
  "onClose cf mo sid code signalCode w =
     and_then (flushStderrTail cf mo sid (upd_active sid (\<lambda>s. s \<lparr>acKillTimer := False\<rparr>) w))
       (\<lambda>w. Done (finalize cf mo sid code signalCode w))"

definition onError :: "caps_config \<Rightarrow> moment \<Rightarrow> string \<Rightarrow> string \<Rightarrow> world \<Rightarrow> outcome" where
  "onError cf mo sid message w =
     finalizeFailed cf mo sid (''execution could not start: '' @ message) w"

end
