(* ===== verification/Execution.thy ===== *)
theory Execution
  imports Runner Event_Invariants
begin

text \<open>
  Runs of the gateway.  An \<open>action\<close> is one turn of the event loop with everything the
  environment contributes to it; \<open>perform\<close> is the handler it runs and \<open>enabled\<close> says when the
  platform can deliver it.  A run starts on an empty database and may hold any interleaving of
  any number of sessions, failing database calls, sweeps, restarts of the gateway and boot
  recovery.
\<close>

section \<open>Actions\<close>

datatype action =
    Start moment "string \<Rightarrow> int \<Rightarrow> thermal_decision_record" "string option" start_input
  | Child_stderr moment string string
  | Child_stdout moment string string
  | Child_error moment string string
  | Child_close moment string "rat option" "string option"
  | Child_exit string
  | Timer_expires moment string
  | Escalation_expires "nat \<Rightarrow> os" pending_escalation
  | Terminate_request moment string sig
  | Sample moment string rat payload
  | Abandon moment string string abandon_kind
  | Sweep int int
  | Close_runner
  | Restart

definition restart :: "world \<Rightarrow> world" where
  "restart w =
     w \<lparr>wReg := \<lparr>regOrder = [], regObjects = (\<lambda>k. None)\<rparr>, wBuffers := (\<lambda>k. None),
        wSampling := [], wTicks := (\<lambda>k. None), wEscalations := [], wClosing := False\<rparr>"

fun perform :: "caps_config \<Rightarrow> action \<Rightarrow> world \<Rightarrow> outcome" where
  "perform cf (Start mo guard spawn_error i) w = snd (start cf mo guard spawn_error i w)"
| "perform cf (Child_stderr mo sid chunk) w = onStderr cf mo sid chunk w"
| "perform cf (Child_stdout mo sid chunk) w = Done (onStdout cf mo sid chunk w)"
| "perform cf (Child_error mo sid message) w = onError cf mo sid message w"
| "perform cf (Child_close mo sid code sc) w = onClose cf mo sid code sc w"
| "perform cf (Child_exit sid) w = Done (upd_active sid (\<lambda>s. s \<lparr>acProcessLive := False\<rparr>) w)"
| "perform cf (Timer_expires mo sid) w = Done (handleTimeout mo sid w)"
| "perform cf (Escalation_expires os_at e) w = Done (run_escalation os_at e w)"
| "perform cf (Terminate_request mo sid sg) w = Done (snd (requestTerminate mo sid sg w))"
| "perform cf (Sample mo sid pid p) w = Done (publishSnapshot cf mo sid pid p w)"
| "perform cf (Abandon mo sid reason kind) w = snd (finalizeAbandoned cf mo sid reason kind w)"
| "perform cf (Sweep now staleMs) w = Done (w \<lparr>wReg := snd (sweep now staleMs (wReg w))\<rparr>)"
| "perform cf Close_runner w = Done (close_runner w)"
| "perform cf Restart w = Done (restart w)"

definition has_object :: "world \<Rightarrow> string \<Rightarrow> bool" where
  "has_object w sid \<longleftrightarrow> regObjects (wReg w) sid \<noteq> None"

fun enabled :: "action \<Rightarrow> world \<Rightarrow> bool" where
  "enabled (Child_stderr mo sid chunk) w = has_object w sid"
| "enabled (Child_stdout mo sid chunk) w = has_object w sid"
| "enabled (Child_error mo sid message) w = has_object w sid"
| "enabled (Child_close mo sid code sc) w = has_object w sid"
| "enabled (Child_exit sid) w = has_object w sid"
| "enabled (Timer_expires mo sid) w =
     (has_object w sid \<and> acKillTimer (the (regObjects (wReg w) sid)))"
| "enabled (Escalation_expires os_at e) w = (e \<in> set (wEscalations w))"
| "enabled (Sample mo sid pid p) w = ((sid, pid) \<in> set (wSampling w))"
| "enabled a w = True"

definition boot :: world where
  "boot =
     \<lparr>wDb = \<lparr>dbSessions = (\<lambda>k. None), dbEvents = []\<rparr>,
      wReg = \<lparr>regOrder = [], regObjects = (\<lambda>k. None)\<rparr>, wBuffers = (\<lambda>k. None), wSampling = [],
      wBus = [], wTicks = (\<lambda>k. None), wFresh = 0, wFaults = [], wSignals = [], wEscalations = [],
      wClosing = False\<rparr>"

inductive reachable :: "caps_config \<Rightarrow> action list \<Rightarrow> world \<Rightarrow> bool" for cf where
  start: "reachable cf [] boot"
| step: "reachable cf (as @ [a]) (world_of (perform cf a w))"
    if "reachable cf as w" and "enabled a w"

inductive_cases reachable_snoc: "reachable cf (as @ [a]) w"

section \<open>The log and the bus\<close>

text \<open>
  The abstract specification of persist-then-publish: a step appends events to the log and
  publishes, in the same order, those of them that are not the creation of a session.
\<close>

definition announced :: "canonical_event \<Rightarrow> bool" where
  "announced e \<longleftrightarrow> evType e \<noteq> Execution_created"

definition log_step :: "world \<Rightarrow> world \<Rightarrow> bool" where
  "log_step w w' \<longleftrightarrow>
     (\<exists>new. dbEvents (wDb w') = dbEvents (wDb w) @ new \<and>
            wBus w' = wBus w @ filter announced new)"

lemma log_step_same: "dbEvents (wDb w') = dbEvents (wDb w) \<Longrightarrow> wBus w' = wBus w \<Longrightarrow> log_step w w'"
  unfolding log_step_def by (rule exI [of _ "[]"]) simp

lemma log_step_trans: "log_step w v \<Longrightarrow> log_step v u \<Longrightarrow> log_step w u"
  unfolding log_step_def by (elim exE conjE) (rule exI, auto)

lemma log_step_refl [simp]: "log_step w w"
  by (rule log_step_same) simp_all


section \<open>Frame rules\<close>

lemma upd_active_frame [simp]:
  "wDb (upd_active sid f w) = wDb w" "wBus (upd_active sid f w) = wBus w"
  "wBuffers (upd_active sid f w) = wBuffers w" "wFaults (upd_active sid f w) = wFaults w"
  "wFresh (upd_active sid f w) = wFresh w" "wSampling (upd_active sid f w) = wSampling w"
  "wSignals (upd_active sid f w) = wSignals w" "wTicks (upd_active sid f w) = wTicks w"
  "wEscalations (upd_active sid f w) = wEscalations w" "wClosing (upd_active sid f w) = wClosing w"
  "wReg (upd_active sid f w) = upd_object sid f (wReg w)"
  by (simp_all add: upd_active_def)

lemma append_output_frame [simp]:
  "wDb (append_output cf ch sid t w) = wDb w" "wBus (append_output cf ch sid t w) = wBus w"
  "wReg (append_output cf ch sid t w) = wReg w" "wFaults (append_output cf ch sid t w) = wFaults w"
  "wFresh (append_output cf ch sid t w) = wFresh w"
  "wSampling (append_output cf ch sid t w) = wSampling w"
  by (simp_all add: append_output_def Let_def)

lemma append_line_frame [simp]:
  "wDb (append_line cf sid t w) = wDb w" "wBus (append_line cf sid t w) = wBus w"
  "wReg (append_line cf sid t w) = wReg w" "wFaults (append_line cf sid t w) = wFaults w"
  "wFresh (append_line cf sid t w) = wFresh w"
  by (simp_all add: append_line_def)

lemma sampling_frame [simp]:
  "wDb (start_sampling sid p w) = wDb w" "wBus (start_sampling sid p w) = wBus w"
  "wReg (start_sampling sid p w) = wReg w" "wFaults (start_sampling sid p w) = wFaults w"
  "wFresh (start_sampling sid p w) = wFresh w"
  "wDb (stop_sampling sid q w) = wDb w" "wBus (stop_sampling sid q w) = wBus w"
  "wReg (stop_sampling sid q w) = wReg w" "wFaults (stop_sampling sid q w) = wFaults w"
  "wFresh (stop_sampling sid q w) = wFresh w" "wClosing (stop_sampling sid q w) = wClosing w"
  "wBuffers (stop_sampling sid q w) = wBuffers w"
  by (simp_all add: start_sampling_def stop_sampling_def)

lemma drop_buffers_frame [simp]:
  "wDb (drop_buffers sid w) = wDb w" "wBus (drop_buffers sid w) = wBus w"
  "wReg (drop_buffers sid w) = wReg w" "wFaults (drop_buffers sid w) = wFaults w"
  "wFresh (drop_buffers sid w) = wFresh w" "wClosing (drop_buffers sid w) = wClosing w"
  "wSampling (drop_buffers sid w) = wSampling w"
  by (simp_all add: drop_buffers_def)

lemma forget_frame [simp]:
  "wDb (forgetActiveIdentities a w) = wDb w" "wBus (forgetActiveIdentities a w) = wBus w"
  "wReg (forgetActiveIdentities a w) = wReg w" "wFaults (forgetActiveIdentities a w) = wFaults w"
  "wFresh (forgetActiveIdentities a w) = wFresh w" "wBuffers (forgetActiveIdentities a w) = wBuffers w"
  "wSampling (forgetActiveIdentities a w) = wSampling w" "wClosing (forgetActiveIdentities a w) = wClosing w"
  by (simp_all add: forgetActiveIdentities_def Let_def)

lemma remove_active_frame [simp]:
  "wDb (remove_active sid w) = wDb w" "wBus (remove_active sid w) = wBus w"
  "wReg (remove_active sid w) = reg_delete sid (wReg w)" "wFaults (remove_active sid w) = wFaults w"
  "wFresh (remove_active sid w) = wFresh w"
  by (simp_all add: remove_active_def)

lemma terminateActive_frame [simp]:
  "wDb (snd (terminateActive mo sid sg w)) = wDb w" "wBus (snd (terminateActive mo sid sg w)) = wBus w"
  "wReg (snd (terminateActive mo sid sg w)) = wReg w" "wFaults (snd (terminateActive mo sid sg w)) = wFaults w"
  "wFresh (snd (terminateActive mo sid sg w)) = wFresh w"
  by (simp_all add: terminateActive_def Let_def split: prod.split)

lemma arm_escalation_frame [simp]:
  "wDb (arm_escalation sid r w) = wDb w" "wBus (arm_escalation sid r w) = wBus w"
  "wReg (arm_escalation sid r w) = wReg w" "wFaults (arm_escalation sid r w) = wFaults w"
  "wFresh (arm_escalation sid r w) = wFresh w"
  by (simp_all add: arm_escalation_def Let_def)

lemma run_escalation_frame [simp]:
  "wDb (run_escalation os_at e w) = wDb w" "wBus (run_escalation os_at e w) = wBus w"
  "wReg (run_escalation os_at e w) = wReg w" "wFaults (run_escalation os_at e w) = wFaults w"
  "wFresh (run_escalation os_at e w) = wFresh w"
  by (simp_all add: run_escalation_def Let_def split: prod.split)

lemma update_row_events [simp]:
  "dbEvents (update_row sid f d) = dbEvents d" "dbEvents (setPid sid p d) = dbEvents d"
  "dbEvents (appendOutput sid x y d) = dbEvents d"
  by (simp_all add: update_row_def setPid_def appendOutput_def)

lemma finalizeRow_events: "finalizeRow ok sid ff now d = Some d' \<Longrightarrow> dbEvents d' = dbEvents d"
  by (auto simp: finalizeRow_def split: if_splits)

lemma createWithFirstEvent_events:
  "createWithFirstEvent ok (creation i r g sid evid now) d = Some d' \<Longrightarrow>
     dbEvents d' = dbEvents d @ [gatewayEvent sid 0 evid now Gateway Execution_created (created_payload i g) None]"
  by (auto simp: createWithFirstEvent_def creation_def gatewayEvent_def Let_def split: if_splits
      dest!: insertEvent_Some)

lemma world_of_and_then:
  "world_of (and_then r f) = (case r of Done w \<Rightarrow> world_of (f w) | Threw w \<Rightarrow> w)"
  by (cases r) simp_all

section \<open>Every handler is a step of the log\<close>

lemma log_step_store: "announced ev \<Longrightarrow> log_step w (store_event mo ev w)"
  unfolding log_step_def store_event_def
  by (cases "insertEvent (moInsert mo (evId ev)) ev (wDb w)")
     (auto intro: exI [of _ "[]"] exI [of _ "[ev]"] dest!: insertEvent_Some)

lemma log_step_cong:
  "log_step v u \<Longrightarrow> wDb w = wDb v \<Longrightarrow> wBus w = wBus v \<Longrightarrow> log_step w u"
  by (simp add: log_step_def)

lemma log_step_emit: "announced ev \<Longrightarrow> log_step w (emit mo ev w)"
  unfolding emit_def
  by (auto split: option.split intro!: log_step_store
      intro: log_step_cong [OF log_step_store] simp: announced_def)

lemma log_step_observe: "log_step w (world_of (observe mo sid ev w))"
proof (rule log_step_same)
  have g: "wDb (observe_group sid ev v) = wDb v" "wBus (observe_group sid ev v) = wBus v" for v
    by (simp_all add: observe_group_def split: option.split)
  have p: "dbEvents (wDb (world_of (observe_pid mo sid q v))) = dbEvents (wDb v)"
    "wBus (world_of (observe_pid mo sid q v)) = wBus v" for q v
    by (simp_all add: observe_pid_def Let_def split: option.split prod.split)
  have s: "dbEvents (wDb (world_of (observe_started mo sid ev v))) = dbEvents (wDb v)"
    "wBus (world_of (observe_started mo sid ev v)) = wBus v" for v
    using p [of "evPid ev"] unfolding observe_started_def Let_def world_of_and_then
    by (auto simp: g split: outcome.split option.split)
       (metis upd_active_frame(1,2) world_of.simps)+
  show "dbEvents (wDb (world_of (observe mo sid ev w))) = dbEvents (wDb w)"
    "wBus (world_of (observe mo sid ev w)) = wBus w"
    by (simp_all add: observe_def s split: event_type.split)
qed


lemma fresh_id_frame [simp]:
  "wDb (snd (fresh_id cf p w)) = wDb w" "wBus (snd (fresh_id cf p w)) = wBus w"
  "wReg (snd (fresh_id cf p w)) = wReg w" "wFaults (snd (fresh_id cf p w)) = wFaults w"
  "wFresh (snd (fresh_id cf p w)) = wFresh w + 1" "wBuffers (snd (fresh_id cf p w)) = wBuffers w"
  "wClosing (snd (fresh_id cf p w)) = wClosing w" "wSampling (snd (fresh_id cf p w)) = wSampling w"
  "fst (fresh_id cf p w) = cfNewId cf p (wFresh w)"
  by (simp_all add: fresh_id_def)

lemma normalize_line_type:
  assumes "normalize_line cf mo sid line w = Normalized ev"
  shows "announced ev" and "\<not> isTerminalEventType (evType ev)" and "evSessionId ev = sid"
    and "evId ev = cfNewId cf ''evt'' (wFresh w)"
    and "evType ev \<noteq> Execution_started" and "evType ev \<noteq> Process_snapshot"
    and "evSequence ev = acNextSeq (the (regObjects (wReg w) sid))"
proof -
  from assms obtain raw where n: "normalizeCapsEvent (cfNumText cf) raw
      \<lparr>cxSessionId = sid, cxSequence = acNextSeq (the (regObjects (wReg w) sid)),
       cxEvId = fst (fresh_id cf ''evt'' w), cxRawTs = moNow mo\<rparr> = Normalized ev"
    by (auto simp: normalize_line_def split: parsed_line.splits json.splits)
  from normalize_Normalized [OF n] obtain name where m: "map_of CAPS_EVENT_NAMES name = Some (evType ev)"
      "evSessionId ev = sid" "evId ev = cfNewId cf ''evt'' (wFresh w)"
      "evSequence ev = acNextSeq (the (regObjects (wReg w) sid))"
    by auto
  from m show "evSessionId ev = sid" "evId ev = cfNewId cf ''evt'' (wFresh w)"
    "evSequence ev = acNextSeq (the (regObjects (wReg w) sid))" by simp_all
  show "announced ev" "\<not> isTerminalEventType (evType ev)"
    "evType ev \<noteq> Execution_started" "evType ev \<noteq> Process_snapshot"
    using caps_types_not_gateway [OF caps_names_range [OF m(1)]]
      caps_types_not_terminal [OF caps_names_range [OF m(1)]]
    by (simp_all add: announced_def)
qed

lemma emit_untyped_frame [simp]:
  "wDb (emit_untyped sid n w) = wDb w" "wBus (emit_untyped sid n w) = wBus w"
  by (simp_all add: emit_untyped_def Let_def split: option.split)

lemma log_step_route: "log_step w (world_of (routeStderrLine cf mo sid line w))"
proof -
  have "log_step w (world_of (observe mo sid ev (emit mo ev (snd (fresh_id cf ''evt'' w)))))"
    if "announced ev" for ev
  proof (rule log_step_trans [OF _ log_step_observe])
    show "log_step w (emit mo ev (snd (fresh_id cf ''evt'' w)))"
      by (rule log_step_trans [OF _ log_step_emit [OF that]]) (rule log_step_same; simp)
  qed
  then show ?thesis
    by (auto simp: routeStderrLine_def Let_def split: classified_kind.split normalized.split
        intro: log_step_same dest: normalize_line_type(1))
qed

lemma log_step_and_then:
  "log_step w (world_of r) \<Longrightarrow> (\<And>v. log_step v (world_of (f v))) \<Longrightarrow> log_step w (world_of (and_then r f))"
  by (cases r) (auto intro: log_step_trans)

lemma log_step_lines: "log_step w (world_of (route_lines cf mo sid ls w))"
  by (induction ls arbitrary: w) (simp_all add: log_step_and_then log_step_route)

lemma log_step_stderr: "log_step w (world_of (onStderr cf mo sid chunk w))"
  unfolding onStderr_def Let_def split_beta
  by (rule log_step_trans [OF _ log_step_lines], rule log_step_same) simp_all

lemma log_step_flush: "log_step w (world_of (flushStderrTail cf mo sid w))"
  unfolding flushStderrTail_def Let_def
  by (auto intro: log_step_same intro!: log_step_trans [OF _ log_step_route])

lemma final_transaction_events:
  "final_transaction mo sid ff out err ev n d = (Some d', n') \<Longrightarrow>
     dbEvents d' = dbEvents d @ [ev \<lparr>evSequence := n\<rparr>] \<and> n' = n + 1"
  by (auto simp: final_transaction_def split: if_splits option.splits
      dest!: insertEvent_Some finalizeRow_events)

lemma final_type_announced: "final_type st \<noteq> Execution_created"
  by (cases st) simp_all

lemma log_step_append:
  "dbEvents (wDb w') = dbEvents (wDb w) @ [e] \<Longrightarrow> wBus w' = wBus w @ [e] \<Longrightarrow> announced e \<Longrightarrow> log_step w w'"
  unfolding log_step_def by (rule exI [of _ "[e]"]) simp

lemma log_step_finish:
  assumes "announced ev"
  shows "log_step w (finish mo sid ff out err ev w)"
proof (cases "final_transaction mo sid ff out err ev (acNextSeq (the (regObjects (wReg w) sid))) (wDb w)")
  case (Pair c n)
  show ?thesis
  proof (cases c)
    case None
    with Pair show ?thesis by (auto simp: finish_def Let_def intro: log_step_same)
  next
    case (Some d)
    with Pair assms show ?thesis
      by (intro log_step_append [where e = "ev \<lparr>evSequence := acNextSeq (the (regObjects (wReg w) sid))\<rparr>"])
         (auto simp: finish_def Let_def announced_def dest!: final_transaction_events)
  qed
qed

lemma log_step_finalize: "log_step w (finalize cf mo sid code sc w)"
  unfolding finalize_def Let_def split_beta
  by (auto intro!: log_step_cong [OF log_step_finish]
      simp: announced_def gatewayEvent_def final_type_announced)

lemma log_step_emit':
  assumes "announced ev" and "dbEvents (wDb v) = dbEvents (wDb w)" and "wBus v = wBus w"
    and "wDb u = wDb (emit mo ev v)" and "wBus u = wBus (emit mo ev v)"
  shows "log_step w u"
  using log_step_emit [OF assms(1), of v mo] assms(2-) by (simp add: log_step_def)

lemma log_step_finalizeFailed: "log_step w (world_of (finalizeFailed cf mo sid reason w))"
proof (cases "finalizeRow (moUpdate mo) sid
    \<lparr>ffStatus = FAILED, ffExitCode = None, ffSignal = None, ffIsSuccess = Some False,
     ffDurationMs = Some (max 0 (moNow mo - acMonotonicStartMs (the (regObjects (wReg w) sid)))),
     ffPid = acChildPid (the (regObjects (wReg w) sid)), ffError = Some (Plain_reason reason)\<rparr>
    (moNow mo) (wDb w)")
  case None
  then show ?thesis by (auto simp: finalizeFailed_def Let_def intro: log_step_same)
next
  case (Some d)
  then show ?thesis
    unfolding finalizeFailed_def Let_def split_beta
    by (cases "acFinalized (the (regObjects (wReg w) sid))")
       (simp, simp, rule log_step_emit', auto simp: announced_def gatewayEvent_def
          dest!: finalizeRow_events)
qed

lemma record_transaction_Some:
  assumes "record_transaction mo sid ff ev d = Some d'"
  obtains d1 where "finalizeRow (moUpdate mo) sid ff (moNow mo) d = Some d1"
    and "insertEvent (moInsert mo (evId ev)) ev d1 = Some d'"
  using assms by (auto simp: record_transaction_def split: if_splits bind_splits)

lemma record_transaction_events:
  "record_transaction mo sid ff ev d = Some d' \<Longrightarrow> dbEvents d' = dbEvents d @ [ev]"
  by (erule record_transaction_Some) (auto dest!: insertEvent_Some finalizeRow_events)

lemma log_step_record: "log_step w (world_of (snd (finalize_record cf mo sid reason kind w)))"
proof (cases "findById (wDb w) sid")
  case None
  then show ?thesis by (simp add: finalize_record_def)
next
  case (Some r)
  show ?thesis
    unfolding finalize_record_def Some Let_def split_beta
    by (auto split: option.split intro: log_step_same log_step_append
        dest!: record_transaction_events simp: announced_def gatewayEvent_def)
qed

lemma log_step_abandon: "log_step w (world_of (snd (finalizeAbandoned cf mo sid reason kind w)))"
  by (simp add: finalizeAbandoned_def log_step_finalizeFailed log_step_record split: option.split)

lemma log_step_failBefore: "log_step w (world_of (failBeforeStart cf mo sid reason n extra w))"
  unfolding failBeforeStart_def Let_def split_beta
  by (auto split: option.split intro: log_step_same log_step_append
      dest!: insertEvent_Some finalizeRow_events simp: announced_def gatewayEvent_def)

lemma log_step_create:
  "createWithFirstEvent ok (creation i r g sid evid now) d = Some d' \<Longrightarrow> wDb w = d \<Longrightarrow>
     log_step w (w \<lparr>wDb := d'\<rparr>)"
  by (drule createWithFirstEvent_events)
     (auto simp: log_step_def announced_def gatewayEvent_def)

lemma log_step_spawn: "log_step w (world_of (snd (spawnFor cf mo sid i se w)))"
proof (cases se)
  case (Some m)
  then show ?thesis by (simp add: spawnFor_def log_step_failBefore)
next
  case None
  then show ?thesis
    unfolding spawnFor_def Let_def split_beta option.case
    by simp (rule log_step_emit', auto simp: announced_def gatewayEvent_def)
qed

lemma log_step_start: "log_step w (world_of (snd (start cf mo g se i w)))"
proof -
  have r: "log_step v (world_of (snd (refuseForThermal cf mo sid i rec v)))" for sid rec v
    unfolding refuseForThermal_def Let_def split_beta
    by (auto split: option.split intro: log_step_same
        intro!: log_step_trans [OF log_step_trans [OF _ log_step_create [OF _ refl]] log_step_failBefore])
  show ?thesis
    unfolding start_def Let_def split_beta
    by (auto split: option.split intro: log_step_same
        intro!: log_step_trans [OF _ r]
          log_step_trans [OF log_step_trans [OF _ log_step_create [OF _ refl]] log_step_spawn])
qed

lemma requestTerminate_frame [simp]:
  "wDb (snd (requestTerminate mo sid sg w)) = wDb w" "wBus (snd (requestTerminate mo sid sg w)) = wBus w"
  "wFaults (snd (requestTerminate mo sid sg w)) = wFaults w"
  "wFresh (snd (requestTerminate mo sid sg w)) = wFresh w"
  by (auto simp: requestTerminate_def Let_def split_beta)

lemma handleTimeout_frame [simp]:
  "wDb (handleTimeout mo sid w) = wDb w" "wBus (handleTimeout mo sid w) = wBus w"
  "wFaults (handleTimeout mo sid w) = wFaults w" "wFresh (handleTimeout mo sid w) = wFresh w"
  by (auto simp: handleTimeout_def Let_def split_beta)

lemma log_step_sample: "log_step w (publishSnapshot cf mo sid pid p w)"
  unfolding publishSnapshot_def Let_def split_beta
  by (auto split: option.split intro: log_step_same
      intro!: log_step_trans [OF _ log_step_emit] simp: gatewayEvent_def announced_def)

lemma log_step_close: "log_step w (world_of (onClose cf mo sid code sc w))"
  unfolding onClose_def
  by (rule log_step_and_then)
     (auto intro: log_step_finalize log_step_same intro!: log_step_trans [OF _ log_step_flush])

lemma log_step_perform: "log_step w (world_of (perform cf a w))"
proof (cases a)
  case (Child_stdout mo sid chunk)
  then show ?thesis by (simp add: onStdout_def log_step_same)
qed (simp_all add: log_step_start log_step_stderr log_step_close log_step_finalizeFailed onError_def
    log_step_same log_step_sample log_step_abandon close_runner_def restart_def)

lemma reachable_log: "reachable cf as w \<Longrightarrow> wBus w = filter announced (dbEvents (wDb w))"
proof (induction rule: reachable.induct)
  case start
  show ?case by (simp add: boot_def)
next
  case (step as w a)
  from log_step_perform [of w cf a] step.IH show ?case by (auto simp: log_step_def)
qed

section \<open>Persist, then publish\<close>

text \<open>C1: Every turn of the event loop refines the log: whatever the handler does and wherever it
  fails, it appends some events to the table and publishes exactly those of them that are not
  the creation of a session, in the order in which they were stored.\<close>
theorem publishing_refines_the_log:
  "\<exists>new. dbEvents (wDb (world_of (perform cf a w))) = dbEvents (wDb w) @ new \<and>
     wBus (world_of (perform cf a w)) = wBus w @ filter announced new"
  using log_step_perform [of w cf a] by (simp add: log_step_def)

text \<open>C2: Live delivery and replay never disagree. In every reachable state the events published
  for a session are the events a replay returns for it, without its creation: none is published
  that replay does not return, none is published twice, and none that replay returns was
  withheld.\<close>
theorem live_equals_replay:
  assumes "reachable cf as w"
  shows "filter (\<lambda>e. evSessionId e = sid) (wBus w) = filter announced (session_events (wDb w) sid) \<and>
    mset (filter (\<lambda>e. evSessionId e = sid) (wBus w)) =
      mset (filter announced (listAllForSession (wDb w) sid))"
  using reachable_log [OF assms]
  by (simp add: session_events_def listAllForSession_def filter_filter conj_commute mset_filter
      filter_filter_mset)

end
