(* ===== verification/Execution_Invariants.thy ===== *)
theory Execution_Invariants
  imports Execution
begin

text \<open>
  What every run keeps, whatever fails and in whatever order things arrive: the constraints of
  the two tables, the shape of a session's log (its creation at sequence 0, everything else at a
  later one), the registry over its objects, and sequence counters that never run backwards.
  From it: a replay always satisfies the validator's checks on sessions, ids, order and origin.
\<close>


section \<open>What every run keeps\<close>

definition origin_ok :: "db \<Rightarrow> bool" where
  "origin_ok d \<longleftrightarrow>
     (\<forall>sid. dbSessions d sid \<noteq> None \<longrightarrow>
        (\<exists>e rest. session_events d sid = e # rest \<and> evType e = Execution_created \<and>
           evSequence e = 0 \<and> (\<forall>x \<in> set rest. announced x \<and> 0 < evSequence x)))"

definition objects_ok :: "world \<Rightarrow> bool" where
  "objects_ok w \<longleftrightarrow>
     (\<forall>sid a. regObjects (wReg w) sid = Some a \<longrightarrow>
        dbSessions (wDb w) sid \<noteq> None \<and> acSessionId a = sid \<and> 0 \<le> acNextSeq a)"

definition world_ok :: "world \<Rightarrow> bool" where
  "world_ok w \<longleftrightarrow> db_ok (wDb w) \<and> origin_ok (wDb w) \<and> reg_ok (wReg w) \<and> objects_ok w"

text \<open>A change to a session object that keeps the invariant.\<close>

definition tame :: "(active_session \<Rightarrow> active_session) \<Rightarrow> bool" where
  "tame f \<longleftrightarrow> (\<forall>s. acSessionId (f s) = acSessionId s \<and> acNextSeq s \<le> acNextSeq (f s))"

lemma reg_ok_upd: "reg_ok r \<Longrightarrow> tame f \<Longrightarrow> reg_ok (upd_object sid f r)"
  by (fastforce simp: reg_ok_def tame_def)

lemma world_ok_upd:
  assumes "world_ok w" and "tame f"
  shows "world_ok (upd_active sid f w)"
  using assms reg_ok_upd [OF _ assms(2)]
  by (fastforce simp: world_ok_def objects_ok_def tame_def intro: order_trans)

lemma world_ok_cong:
  "world_ok v \<Longrightarrow> wDb w = wDb v \<Longrightarrow> wReg w = wReg v \<Longrightarrow> world_ok w"
  by (simp add: world_ok_def objects_ok_def)

lemma reg_ok_delete: "reg_ok r \<Longrightarrow> reg_ok (reg_delete sid r)"
  by (auto simp: reg_ok_def reg_delete_objects)

lemma world_ok_remove: "world_ok w \<Longrightarrow> world_ok (remove_active sid w)"
  using reg_ok_delete [of "wReg w" sid]
  by (auto simp: world_ok_def objects_ok_def reg_delete_objects split: if_splits)

section \<open>Storing an event\<close>

lemma origin_ok_insert:
  assumes "origin_ok d" and "insertEvent ok e d = Some d'" and "announced e" and "0 \<le> evSequence e"
  shows "origin_ok d'"
  unfolding origin_ok_def
proof (intro allI impI)
  fix sid assume sid: "dbSessions d' sid \<noteq> None"
  note ins = insertEvent_Some [OF assms(2)]
  with sid have "dbSessions d sid \<noteq> None" by auto
  with assms(1) obtain c rest where c: "session_events d sid = c # rest" "evType c = Execution_created"
      "evSequence c = 0" "\<forall>x \<in> set rest. announced x \<and> 0 < evSequence x"
    unfolding origin_ok_def by meson
  show "\<exists>c rest. session_events d' sid = c # rest \<and> evType c = Execution_created \<and>
      evSequence c = 0 \<and> (\<forall>x \<in> set rest. announced x \<and> 0 < evSequence x)"
  proof (cases "evSessionId e = sid")
    case True
    have "c \<in> set (session_events d sid)" using c(1) by simp
    then have "c \<in> set (dbEvents d)" "evSessionId c = sid" by (auto simp: session_events_def)
    then have "evSequence c \<noteq> evSequence e" using ins True by auto
    then have "0 < evSequence e" using c(3) assms(4) by linarith
    with True ins c assms(3) show ?thesis by (auto simp: session_events_def)
  next
    case False
    with ins c show ?thesis by (auto simp: session_events_def)
  qed
qed

lemma world_ok_insert:
  assumes "world_ok w" and "insertEvent ok e (wDb w) = Some d" and "announced e" and "0 \<le> evSequence e"
    and "wDb w' = d" and "wReg w' = wReg w"
  shows "world_ok w'"
  using assms insertEvent_ok [OF _ assms(2)] origin_ok_insert [OF _ assms(2,3,4)]
    insertEvent_Some [OF assms(2)]
  by (auto simp: world_ok_def objects_ok_def)

lemma world_ok_store:
  assumes "world_ok w" and "announced e" and "0 \<le> evSequence e"
  shows "world_ok (store_event mo e w)"
proof (cases "insertEvent (moInsert mo (evId e)) e (wDb w)")
  case None
  with assms(1) show ?thesis by (auto simp: store_event_def intro: world_ok_cong)
next
  case (Some d)
  show ?thesis
    by (rule world_ok_insert [OF assms(1) Some assms(2,3)]) (simp_all add: store_event_def Some)
qed

lemma reg_get_object: "reg_get r sid = Some a \<Longrightarrow> regObjects r sid = Some a \<and> sid \<in> set (regOrder r)"
  by (simp add: reg_get_def split: if_splits)

lemma tame_next [simp]: "tame (\<lambda>s. s \<lparr>acNextSeq := acNextSeq s + 1\<rparr>)"
  by (simp add: tame_def)

lemma world_ok_emit:
  assumes "world_ok w" and "announced e" and "0 \<le> evSequence e"
  shows "world_ok (emit mo e w)"
proof (cases "reg_get (wReg w) (evSessionId e)")
  case None
  then show ?thesis using world_ok_store [OF assms] by (simp add: emit_def)
next
  case (Some a)
  then have "0 \<le> acNextSeq a"
    using assms(1) by (auto dest!: reg_get_object simp: world_ok_def objects_ok_def)
  with Some assms show ?thesis
    by (auto simp: emit_def announced_def intro!: world_ok_store world_ok_upd)
qed

section \<open>Updating a session row\<close>

lemma update_row_sel [simp]:
  "dbSessions (update_row sid f d) k = (if k = sid then map_option f (dbSessions d sid) else dbSessions d k)"
  by (simp add: update_row_def)

lemma session_events_update_row [simp]: "session_events (update_row sid f d) k = session_events d k"
  by (simp add: session_events_def)

lemma db_ok_update_row [simp]: "db_ok d \<Longrightarrow> db_ok (update_row sid f d)"
  by (fastforce simp: db_ok_def)

lemma origin_ok_update_row [simp]: "origin_ok d \<Longrightarrow> origin_ok (update_row sid f d)"
  by (simp add: origin_ok_def)

lemma world_ok_update_row:
  "world_ok w \<Longrightarrow> wDb w' = update_row sid f (wDb w) \<Longrightarrow> wReg w' = wReg w \<Longrightarrow> world_ok w'"
  by (fastforce simp: world_ok_def objects_ok_def)

lemma finalizeRow_Some: "finalizeRow ok sid ff now d = Some d' \<Longrightarrow> \<exists>f. d' = update_row sid f d"
  by (auto simp: finalizeRow_def split: if_splits)

lemma appendOutput_row: "\<exists>f. appendOutput sid x y d = update_row sid f d"
proof (cases "length x = 0 \<and> length y = 0")
  case True
  then have "appendOutput sid x y d = update_row sid id d"
    by (simp add: appendOutput_def update_row_def option.map_id)
  then show ?thesis by blast
next
  case False
  then show ?thesis by (auto simp: appendOutput_def)
qed


section \<open>Every handler keeps the state well-formed\<close>

lemma tame_simps [simp]:
  "tame (\<lambda>s. s \<lparr>acFinalized := b\<rparr>)" "tame (\<lambda>s. s \<lparr>acStderrLineBuffer := x\<rparr>)"
  "tame (\<lambda>s. s \<lparr>acStderrBytes := f s, acLastEventAt := t\<rparr>)"
  "tame (\<lambda>s. s \<lparr>acStdoutBytes := f s, acLastEventAt := t\<rparr>)"
  "tame (\<lambda>s. s \<lparr>acSawSummary := b\<rparr>)" "tame (\<lambda>s. s \<lparr>acProcessLive := b\<rparr>)"
  "tame (\<lambda>s. s \<lparr>acKillTimer := b\<rparr>)" "tame (\<lambda>s. s \<lparr>acState := st, acKillTimer := b\<rparr>)"
  "tame (\<lambda>s. s \<lparr>acTimedOut := b, acState := st\<rparr>)"
  "tame (\<lambda>s. s \<lparr>acChildIdentity := i s, acEscalation := b\<rparr>)"
  "tame (\<lambda>s. s \<lparr>acTerminateRequested := b, acChildIdentity := i s, acEscalation := c\<rparr>)"
  "tame (\<lambda>s. s \<lparr>acState := st, acChildPid := p, acProcessStartedAt := q, acProcessReaped := b\<rparr>)"
  "tame (\<lambda>s. s \<lparr>acChildIdentity := j, acOwned := g s\<rparr>)"
  "tame (\<lambda>s. s \<lparr>acChildPgid := k, acChildGroupLeader := h s\<rparr>)"
  "tame (\<lambda>s. note_outcome ev (note_signal ev s))" "tame (\<lambda>s. note_exit ev (note_outcome ev s))"
  "tame (\<lambda>s. note_failure ev (note_outcome ev s))"
  by (simp_all add: tame_def note_outcome_def note_signal_def note_exit_def note_failure_def)

lemma world_ok_observe_group: "world_ok w \<Longrightarrow> world_ok (observe_group sid ev w)"
  by (simp add: observe_group_def world_ok_upd split: option.split)

lemma world_ok_observe_pid: "world_ok w \<Longrightarrow> world_ok (world_of (observe_pid mo sid pid w))"
  by (auto simp: observe_pid_def Let_def split_beta setPid_def split: option.split
      intro!: world_ok_upd intro: world_ok_update_row)

lemma world_ok_and_then:
  "world_ok (world_of r) \<Longrightarrow> (\<And>v. world_ok v \<Longrightarrow> world_ok (world_of (f v))) \<Longrightarrow>
     world_ok (world_of (and_then r f))"
  by (cases r) simp_all

lemma world_ok_sampling [simp]:
  "world_ok (start_sampling sid p w) = world_ok w" "world_ok (stop_sampling sid q w) = world_ok w"
  by (simp_all add: world_ok_def objects_ok_def)

lemma world_ok_observe_started: "world_ok w \<Longrightarrow> world_ok (world_of (observe_started mo sid ev w))"
  unfolding observe_started_def Let_def
  by (rule world_ok_and_then [OF world_ok_observe_pid [OF world_ok_upd]])
     (simp_all add: world_ok_observe_group split: option.split)

lemma world_ok_observe: "world_ok w \<Longrightarrow> world_ok (world_of (observe mo sid ev w))"
  by (auto simp: observe_def intro!: world_ok_observe_started world_ok_upd split: event_type.split)

lemma world_ok_append [simp]:
  "world_ok (append_output cf ch sid t w) = world_ok w" "world_ok (append_line cf sid t w) = world_ok w"
  by (simp_all add: world_ok_def objects_ok_def)

lemma world_ok_fresh [simp]: "world_ok (snd (fresh_id cf p w)) = world_ok w"
  by (simp add: world_ok_def objects_ok_def)

lemma world_ok_emit_untyped: "world_ok w \<Longrightarrow> world_ok (emit_untyped sid n w)"
proof (cases "reg_get (wReg w) sid")
  case None
  assume "world_ok w"
  then show ?thesis by (rule world_ok_cong) (simp_all add: emit_untyped_def None)
next
  case (Some a)
  assume "world_ok w"
  then have "world_ok (upd_active sid (\<lambda>s. s \<lparr>acNextSeq := acNextSeq s + 1\<rparr>) w)"
    by (simp add: world_ok_upd)
  then show ?thesis by (rule world_ok_cong) (simp_all add: emit_untyped_def Some Let_def)
qed

lemma world_ok_route:
  assumes "world_ok w" and "has_object w sid"
  shows "world_ok (world_of (routeStderrLine cf mo sid line w))"
proof -
  have seq: "0 \<le> acNextSeq (the (regObjects (wReg w) sid))"
    using assms by (auto simp: has_object_def world_ok_def objects_ok_def)
  show ?thesis
    using assms(1) seq
    by (auto simp: routeStderrLine_def Let_def split: classified_kind.split normalized.split
        intro!: world_ok_observe world_ok_emit world_ok_emit_untyped
        dest: normalize_line_type(1,7))
qed

text \<open>No handler but \<open>Restart\<close> drops a session object.\<close>

lemma has_object_upd [simp]: "has_object (upd_active sid f w) s = has_object w s"
  by (simp add: has_object_def)

lemma has_object_cong: "wReg w = wReg v \<Longrightarrow> has_object w s = has_object v s"
  by (simp add: has_object_def)

lemma has_object_frame [simp]:
  "has_object (append_output cf ch sid t w) s = has_object w s"
  "has_object (append_line cf sid t w) s = has_object w s"
  "has_object (snd (fresh_id cf p w)) s = has_object w s"
  "has_object (start_sampling sid q w) s = has_object w s"
  "has_object (stop_sampling sid q' w) s = has_object w s"
  by (simp_all add: has_object_def)

lemma has_object_store [simp]: "has_object (store_event mo e w) s = has_object w s"
  by (simp add: store_event_def has_object_def split: option.split)

lemma has_object_emit [simp]: "has_object (emit mo e w) s = has_object w s"
  by (simp add: emit_def split: option.split)

lemma has_object_untyped [simp]: "has_object (emit_untyped sid n w) s = has_object w s"
  by (simp add: emit_untyped_def Let_def has_object_def split: option.split)

lemma has_object_and_then:
  "has_object (world_of r) s = has_object w s \<Longrightarrow>
     (\<And>v. has_object (world_of (f v)) s = has_object v s) \<Longrightarrow>
     has_object (world_of (and_then r f)) s = has_object w s"
  by (cases r) simp_all

lemma has_object_observe [simp]: "has_object (world_of (observe mo sid ev w)) s = has_object w s"
proof -
  have g: "has_object (observe_group sid ev v) s = has_object v s" for v
    by (simp add: observe_group_def split: option.split)
  have p: "has_object (world_of (observe_pid mo sid q v)) s = has_object v s" for q v
    by (simp add: observe_pid_def Let_def split_beta has_object_def split: option.split)
  have "has_object (world_of (observe_started mo sid ev v)) s = has_object v s" for v
    unfolding observe_started_def Let_def
    by (rule has_object_and_then) (simp_all add: g p split: option.split)
  then show ?thesis by (simp add: observe_def split: event_type.split)
qed

lemma has_object_route [simp]: "has_object (world_of (routeStderrLine cf mo sid line w)) s = has_object w s"
  by (simp add: routeStderrLine_def Let_def split: classified_kind.split normalized.split)

lemma world_ok_lines:
  "world_ok w \<Longrightarrow> has_object w sid \<Longrightarrow> world_ok (world_of (route_lines cf mo sid ls w))"
proof (induction ls arbitrary: w)
  case (Cons l ls)
  then show ?case
    using world_ok_route [OF Cons.prems, of cf mo l] has_object_route [of cf mo sid l w sid]
    by (cases "routeStderrLine cf mo sid l w") simp_all
qed simp

lemma world_ok_stderr:
  "world_ok w \<Longrightarrow> has_object w sid \<Longrightarrow> world_ok (world_of (onStderr cf mo sid chunk w))"
  unfolding onStderr_def Let_def split_beta
  by (rule world_ok_lines) (auto intro!: world_ok_upd)

lemma world_ok_flush:
  "world_ok w \<Longrightarrow> has_object w sid \<Longrightarrow> world_ok (world_of (flushStderrTail cf mo sid w))"
  by (auto simp: flushStderrTail_def Let_def intro!: world_ok_upd world_ok_route)

lemma has_object_flush [simp]: "has_object (world_of (flushStderrTail cf mo sid w)) s = has_object w s"
  by (simp add: flushStderrTail_def Let_def)

lemma final_transaction_next: "final_transaction mo sid ff x y ev n d = (c, n') \<Longrightarrow> n < n'"
  by (auto simp: final_transaction_def split: if_splits option.splits)

lemma final_transaction_Some:
  assumes "final_transaction mo sid ff x y ev n d = (Some d', n')"
  obtains f where "insertEvent (moInsert mo (evId ev)) (ev \<lparr>evSequence := n\<rparr>) (update_row sid f d) = Some d'"
proof -
  from assms obtain d1 where d1: "finalizeRow (moUpdate mo) sid ff (moNow mo) d = Some d1"
      "insertEvent (moInsert mo (evId ev)) (ev \<lparr>evSequence := n\<rparr>) (appendOutput sid x y d1) = Some d'"
    by (auto simp: final_transaction_def split: if_splits option.splits)
  obtain f where "d1 = update_row sid f d"
    using finalizeRow_Some [OF d1(1)] by blast
  moreover obtain g where "appendOutput sid x y d1 = update_row sid g d1"
    using appendOutput_row by blast
  ultimately have "appendOutput sid x y d1 = update_row sid (g \<circ> f) d"
    by (simp add: update_row_def option.map_comp)
  with d1(2) that show thesis by simp
qed

lemma world_ok_finish:
  assumes ok: "world_ok w" and a: "announced ev" and o: "has_object w sid"
  shows "world_ok (finish mo sid ff x y ev w)"
proof -
  let ?n = "acNextSeq (the (regObjects (wReg w) sid))"
  have seq: "0 \<le> ?n"
    using ok o by (auto simp: has_object_def world_ok_def objects_ok_def)
  obtain c n' where t: "final_transaction mo sid ff x y ev ?n (wDb w) = (c, n')"
    by (metis surj_pair)
  have up: "world_ok (v \<lparr>wReg := upd_object sid (\<lambda>s. s \<lparr>acNextSeq := n'\<rparr>) (wReg w)\<rparr>)"
    if v: "world_ok v" "wReg v = wReg w" for v
  proof -
    have "reg_ok (upd_object sid (\<lambda>s. s \<lparr>acNextSeq := n'\<rparr>) (wReg w))"
      using v by (fastforce simp: world_ok_def reg_ok_def)
    with v seq final_transaction_next [OF t] show ?thesis
      by (fastforce simp: world_ok_def objects_ok_def)
  qed
  show ?thesis
  proof (cases c)
    case None
    with t up [OF ok refl] show ?thesis
      by (auto simp: finish_def Let_def upd_active_def intro!: world_ok_remove intro: world_ok_cong)
  next
    case (Some d')
    with t obtain f where i: "insertEvent (moInsert mo (evId ev)) (ev \<lparr>evSequence := ?n\<rparr>)
        (update_row sid f (wDb w)) = Some d'"
      by (metis final_transaction_Some)
    have r: "world_ok (w \<lparr>wDb := update_row sid f (wDb w)\<rparr>)"
      by (rule world_ok_update_row [OF ok]) simp_all
    have "world_ok (w \<lparr>wDb := d'\<rparr>)"
      by (rule world_ok_insert [OF r, where d = d' and ok = "moInsert mo (evId ev)" and e = "ev \<lparr>evSequence := ?n\<rparr>"])
         (use i a seq in \<open>simp_all add: announced_def\<close>)
    from up [OF this] Some t show ?thesis
      by (auto simp: finish_def Let_def upd_active_def intro!: world_ok_remove intro: world_ok_cong)
  qed
qed

lemma world_ok_finalize:
  assumes "world_ok w" and "has_object w sid"
  shows "world_ok (finalize cf mo sid code sc w)"
proof -
  have f: "world_ok (forgetActiveIdentities a (stop_sampling sid None (drop_buffers sid v)))" if "world_ok v" for a v
    using that by (rule world_ok_cong) simp_all
  show ?thesis
    unfolding finalize_def Let_def split_beta
    using assms
    by (auto intro!: world_ok_finish f world_ok_upd
        simp: announced_def gatewayEvent_def final_type_announced has_object_def)
qed

lemma world_ok_finalizeFailed:
  assumes "world_ok w"
  shows "world_ok (world_of (finalizeFailed cf mo sid reason w))"
proof -
  let ?v = "forgetActiveIdentities (the (regObjects (wReg w) sid))
      (stop_sampling sid None (upd_active sid (\<lambda>s. s \<lparr>acFinalized := True\<rparr>) w))"
  have v: "world_ok ?v"
    by (rule world_ok_cong [OF world_ok_upd [OF assms]]) simp_all
  have "world_ok (remove_active sid (emit mo e (snd (fresh_id cf p (?v \<lparr>wDb := d\<rparr>)))))"
    if "finalizeRow ok sid ff now (wDb w) = Some d" "announced e" "0 \<le> evSequence e" for ok ff now d e p
  proof -
    from finalizeRow_Some [OF that(1)] obtain f where "d = update_row sid f (wDb ?v)" by auto
    then have "world_ok (?v \<lparr>wDb := d\<rparr>)" by (intro world_ok_update_row [OF v]) simp_all
    with that(2,3) show ?thesis by (intro world_ok_remove world_ok_emit) simp_all
  qed
  with assms v show ?thesis
    unfolding finalizeFailed_def Let_def split_beta
    by (auto split: option.split simp: announced_def gatewayEvent_def)
qed


lemma maxSequence_ge: "- 1 \<le> maxSequence d sid"
proof -
  have "n \<le> fold max xs n" for xs :: "int list" and n
  proof (induction xs arbitrary: n)
    case (Cons x xs)
    from Cons [of "max x n"] show ?case by simp
  qed simp
  then show ?thesis by (simp add: maxSequence_def)
qed

lemma world_ok_row_insert:
  assumes "world_ok w" and "finalizeRow ok sid ff now (wDb w) = Some d1" and "insertEvent ok' e d1 = Some d"
    and "announced e" and "0 \<le> evSequence e" and "wDb v = d" and "wReg v = wReg w"
  shows "world_ok v"
proof -
  from finalizeRow_Some [OF assms(2)] obtain f where "d1 = update_row sid f (wDb w)" by blast
  then have "world_ok (w \<lparr>wDb := d1\<rparr>)"
    using world_ok_update_row [OF assms(1), of "w \<lparr>wDb := d1\<rparr>" sid f] by simp
  then show ?thesis
    by (rule world_ok_insert [OF _ _ assms(4,5,6), where ok = ok']) (simp_all add: assms(3,7))
qed

lemma finalize_record_cases:
  obtains "snd (finalize_record cf mo sid reason kind w) = Done w"
  | "snd (finalize_record cf mo sid reason kind w) = Done (snd (fresh_id cf ''evt'' w))"
  | r ff d1 e d v where "findById (wDb w) sid = Some r" "\<not> isTerminalStatus (rowStatus r)"
      "finalizeRow (moUpdate mo) sid ff (moNow mo) (wDb w) = Some d1" "ffStatus ff = FAILED"
      "insertEvent (moInsert mo (evId e)) e d1 = Some d"
      "evSequence e = maxSequence (wDb w) sid + 1" "evType e = Execution_failed" "evSessionId e = sid"
      "wDb v = d" "wReg v = wReg w" "wFaults v = wFaults w"
      "snd (finalize_record cf mo sid reason kind w) = Done v"
proof (cases "findById (wDb w) sid")
  case None
  then show thesis by (intro that(1)) (simp add: finalize_record_def)
next
  case (Some r)
  let ?dur = "max 0 (moNow mo - rowStartedAt r)"
  let ?ff = "\<lparr>ffStatus = FAILED, ffExitCode = None, ffSignal = None, ffIsSuccess = Some False,
     ffDurationMs = Some ?dur, ffPid = rowPid r, ffError = Some (Plain_reason reason)\<rparr>"
  let ?i = "cfNewId cf ''evt'' (wFresh w)"
  let ?e = "gatewayEvent sid (maxSequence (wDb w) sid + 1) ?i (moNow mo) Gateway
     Execution_failed (abandoned_payload reason kind ?dur) None"
  show thesis
  proof (cases "isTerminalStatus (rowStatus r)")
    case True
    with Some show thesis by (intro that(1)) (simp add: finalize_record_def)
  next
    case False
    note live = False
    show thesis
    proof (cases "record_transaction mo sid ?ff ?e (wDb w)")
      case None
      with Some False show thesis
        by (intro that(2)) (simp add: finalize_record_def Let_def split_beta)
    next
      case (Some d)
      note bound = Some
      from record_transaction_Some [OF bound] obtain d1
        where d1: "finalizeRow (moUpdate mo) sid ?ff (moNow mo) (wDb w) = Some d1"
          "insertEvent (moInsert mo (evId ?e)) ?e d1 = Some d" by blast
      show thesis
        by (rule that(3) [where e = ?e and ff = ?ff and r = r and ?d1.0 = d1 and d = d
              and v = "(snd (fresh_id cf ''evt'' w)) \<lparr>wDb := d, wBus := wBus w @ [?e]\<rparr>"])
           (use \<open>findById (wDb w) sid = Some r\<close> live bound d1 in
             \<open>simp_all add: finalize_record_def Let_def split_beta gatewayEvent_def\<close>)
    qed
  qed
qed

lemma world_ok_record:
  assumes "world_ok w"
  shows "world_ok (world_of (snd (finalize_record cf mo sid reason kind w)))"
proof (cases rule: finalize_record_cases [of cf mo sid reason kind w])
  case (3 r ff d1 e d v)
  have "world_ok v"
    by (rule world_ok_row_insert [OF assms 3(3,5)])
       (use 3 maxSequence_ge [of "wDb w" sid] in \<open>simp_all add: announced_def\<close>)
  with 3 show ?thesis by simp
qed (use assms in simp_all)

lemma world_ok_abandon:
  "world_ok w \<Longrightarrow> world_ok (world_of (snd (finalizeAbandoned cf mo sid reason kind w)))"
  by (simp add: finalizeAbandoned_def world_ok_finalizeFailed world_ok_record split: option.split)

lemma failBeforeStart_cases:
  obtains "failBeforeStart cf mo sid reason n extra w = Threw w"
  | ff d1 v where "finalizeRow (moUpdate mo) sid ff (moNow mo) (wDb w) = Some d1"
      "wDb v = d1" "wReg v = wReg w" "failBeforeStart cf mo sid reason n extra w = Threw v"
      "ffStatus ff = FAILED" "wFaults v = wFaults w"
  | ff d1 e d v where "finalizeRow (moUpdate mo) sid ff (moNow mo) (wDb w) = Some d1"
      "ffStatus ff = FAILED" "insertEvent (moInsert mo (evId e)) e d1 = Some d"
      "evSequence e = n" "evType e = Execution_failed" "evSessionId e = sid"
      "wDb v = d" "wReg v = wReg w" "wFaults v = wFaults w"
      "failBeforeStart cf mo sid reason n extra w = Done v"
proof -
  let ?ff = "\<lparr>ffStatus = FAILED, ffExitCode = None, ffSignal = None, ffIsSuccess = Some False,
     ffDurationMs = None, ffPid = None, ffError = Some (Plain_reason reason)\<rparr>"
  let ?i = "cfNewId cf ''evt'' (wFresh w)"
  let ?p = "fold (\<lambda>(k, v) q. put k v q) extra
     [(''reason'', JStr reason), (''outcome'', JStr ''LAUNCH_FAILED'')]"
  let ?e = "gatewayEvent sid n ?i (moNow mo) Gateway Execution_failed ?p None"
  show thesis
  proof (cases "finalizeRow (moUpdate mo) sid ?ff (moNow mo) (wDb w)")
    case None
    then show thesis by (intro that(1)) (simp add: failBeforeStart_def)
  next
    case (Some d1)
    note row = Some
    show thesis
    proof (cases "insertEvent (moInsert mo ?i) ?e d1")
      case None
      show thesis
        by (rule that(2) [OF row, where v = "snd (fresh_id cf ''evt'' (w \<lparr>wDb := d1\<rparr>))"])
           (use row None in \<open>simp_all add: failBeforeStart_def Let_def split_beta fresh_id_def\<close>)
    next
      case (Some d)
      show thesis
        by (rule that(3) [OF row, where e = ?e and d = d
              and v = "(snd (fresh_id cf ''evt'' (w \<lparr>wDb := d1\<rparr>))) \<lparr>wDb := d, wBus := wBus w @ [?e]\<rparr>"])
           (use row Some in \<open>simp_all add: failBeforeStart_def Let_def split_beta fresh_id_def gatewayEvent_def\<close>)
    qed
  qed
qed

lemma world_ok_failBefore:
  assumes "world_ok w" and "0 \<le> n"
  shows "world_ok (world_of (failBeforeStart cf mo sid reason n extra w))"
proof (cases rule: failBeforeStart_cases [of cf mo sid reason n extra w])
  case 1
  with assms show ?thesis by simp
next
  case (2 ff d1 v)
  from finalizeRow_Some [OF 2(1)] obtain f where "d1 = update_row sid f (wDb w)" by blast
  with 2 show ?thesis using world_ok_update_row [OF assms(1), of v sid f] by simp
next
  case (3 ff d1 e d v)
  have "world_ok v"
    by (rule world_ok_row_insert [OF assms(1) 3(1,3)])
       (use 3 assms in \<open>simp_all add: announced_def\<close>)
  with 3 show ?thesis by simp
qed

lemma world_ok_create:
  assumes ok: "world_ok w" and c: "createWithFirstEvent b (creation i r g sid evid now) (wDb w) = Some d"
  shows "world_ok (w \<lparr>wDb := d\<rparr>) \<and> dbSessions (wDb w) sid = None \<and> dbSessions d sid \<noteq> None"
proof -
  let ?e = "gatewayEvent sid 0 evid now Gateway Execution_created (created_payload i g) None"
  from c obtain row where new: "dbSessions (wDb w) sid = None"
    and ins: "insertEvent True ?e ((wDb w) \<lparr>dbSessions := (dbSessions (wDb w))(sid \<mapsto> row)\<rparr>) = Some d"
    by (auto simp: createWithFirstEvent_def creation_def gatewayEvent_def Let_def split: if_splits)
  note i = insertEvent_Some [OF ins]
  have none: "session_events (wDb w) sid = []"
    using ok new by (auto simp: world_ok_def db_ok_def session_events_def filter_empty_conv)
  have own: "evSessionId ?e = sid" "evType ?e = Execution_created" "evSequence ?e = 0"
    by (simp_all add: gatewayEvent_def)
  have "db_ok ((wDb w) \<lparr>dbSessions := (dbSessions (wDb w))(sid \<mapsto> row)\<rparr>)"
    using ok by (auto simp: world_ok_def db_ok_def)
  from insertEvent_ok [OF this ins] have "db_ok d" .
  moreover have "origin_ok d"
    unfolding origin_ok_def
  proof (intro allI impI)
    fix s assume s: "dbSessions d s \<noteq> None"
    show "\<exists>e rest. session_events d s = e # rest \<and> evType e = Execution_created \<and>
           evSequence e = 0 \<and> (\<forall>x \<in> set rest. announced x \<and> 0 < evSequence x)"
    proof (cases "s = sid")
      case True
      with i none own show ?thesis by (auto simp: session_events_def)
    next
      case False
      with s i have "dbSessions (wDb w) s \<noteq> None" by auto
      moreover from False i own have "session_events d s = session_events (wDb w) s"
        by (auto simp: session_events_def)
      ultimately show ?thesis using ok by (simp add: world_ok_def origin_ok_def)
    qed
  qed
  moreover have "objects_ok (w \<lparr>wDb := d\<rparr>)"
    using ok i by (auto simp: world_ok_def objects_ok_def)
  ultimately show ?thesis using ok new i by (auto simp: world_ok_def)
qed

lemma world_ok_spawn:
  assumes "world_ok w" and "dbSessions (wDb w) sid \<noteq> None"
  shows "world_ok (world_of (snd (spawnFor cf mo sid i se w)))"
proof (cases se)
  case (Some m)
  with assms show ?thesis by (simp add: spawnFor_def world_ok_failBefore)
next
  case None
  let ?v = "w \<lparr>wBuffers := (wBuffers w)((Stdout, sid) \<mapsto> empty_buffer, (Stderr, sid) \<mapsto> empty_buffer),
              wReg := reg_add (new_active i sid (moNow mo)) (wReg w)\<rparr>"
  have "reg_ok (reg_add (new_active i sid (moNow mo)) (wReg w))"
    using assms by (auto simp: world_ok_def reg_ok_def reg_add_def new_active_def)
  then have "world_ok ?v"
    using assms by (auto simp: world_ok_def objects_ok_def reg_add_def new_active_def)
  with None show ?thesis
    by (auto simp: spawnFor_def Let_def split_beta announced_def gatewayEvent_def
        intro!: world_ok_upd world_ok_emit)
qed

lemma world_ok_start:
  assumes "world_ok w"
  shows "world_ok (world_of (snd (start cf mo g se i w)))"
proof -
  have r: "world_ok (world_of (snd (refuseForThermal cf mo sid i rec v)))" if "world_ok v" for sid rec v
    using that world_ok_create [of "snd (fresh_id cf ''evt'' v)"]
    unfolding refuseForThermal_def Let_def split_beta
    by (auto split: option.split intro!: world_ok_failBefore)
  have s: "world_ok (world_of (snd (spawnFor cf mo sid i se (v \<lparr>wDb := d\<rparr>))))"
    if "world_ok v" "createWithFirstEvent b (creation i rr gg sid evid now) (wDb v) = Some d" for v b rr gg sid evid now d
    using world_ok_create [OF that] by (intro world_ok_spawn) simp_all
  show ?thesis
    using assms unfolding start_def Let_def split_beta
    by (auto split: option.split intro!: r s)
qed

lemma reg_ok_deletes: "reg_ok r \<Longrightarrow> reg_ok (fold reg_delete ks r)"
  by (induction ks arbitrary: r) (simp_all add: reg_ok_delete)

lemma reg_delete_objects_some:
  "regObjects (reg_delete sid r) k = Some a \<Longrightarrow>
     \<exists>b. regObjects r k = Some b \<and> acSessionId a = acSessionId b \<and> acNextSeq a = acNextSeq b"
  by (auto simp: reg_delete_objects split: if_splits)

lemma fold_delete_objects_some:
  "regObjects (fold reg_delete ks r) k = Some a \<Longrightarrow>
     \<exists>b. regObjects r k = Some b \<and> acSessionId a = acSessionId b \<and> acNextSeq a = acNextSeq b"
proof (induction ks arbitrary: r)
  case (Cons x ks)
  then obtain b where "regObjects (reg_delete x r) k = Some b" "acSessionId a = acSessionId b"
    "acNextSeq a = acNextSeq b" by fastforce
  with reg_delete_objects_some [OF this(1)] show ?case by auto
qed simp

lemma world_ok_sweep: "world_ok w \<Longrightarrow> world_ok (w \<lparr>wReg := snd (sweep now st (wReg w))\<rparr>)"
  by (fastforce simp: world_ok_def objects_ok_def sweep_def Let_def reg_ok_deletes
      dest: fold_delete_objects_some)

lemma world_ok_terminate: "world_ok w \<Longrightarrow> world_ok (snd (requestTerminate mo sid sg w))"
proof -
  assume w: "world_ok w"
  then have t: "world_ok (snd (terminateActive mo sid sg w))" by (rule world_ok_cong) simp_all
  have a: "world_ok (arm_escalation sid r v)" if "world_ok v" for r v
    using that by (rule world_ok_cong) simp_all
  show ?thesis using w t by (auto simp: requestTerminate_def Let_def split_beta intro!: a world_ok_upd)
qed

lemma world_ok_timeout: "world_ok w \<Longrightarrow> world_ok (handleTimeout mo sid w)"
proof -
  assume w: "world_ok w"
  have t: "world_ok (snd (terminateActive mo sid sg v))" if "world_ok v" for sg v
    using that by (rule world_ok_cong) simp_all
  have a: "world_ok (arm_escalation sid r v)" if "world_ok v" for r v
    using that by (rule world_ok_cong) simp_all
  show ?thesis using w by (auto simp: handleTimeout_def Let_def split_beta intro!: a world_ok_upd t)
qed

lemma world_ok_sample: "world_ok w \<Longrightarrow> world_ok (publishSnapshot cf mo sid pid p w)"
  by (auto simp: publishSnapshot_def Let_def split_beta gatewayEvent_def announced_def
      split: option.split intro!: world_ok_emit)

lemma world_ok_close:
  assumes "world_ok w" and "has_object w sid"
  shows "world_ok (world_of (onClose cf mo sid code sc w))"
proof -
  let ?v = "upd_active sid (\<lambda>s. s \<lparr>acKillTimer := False\<rparr>) w"
  have "world_ok (world_of (flushStderrTail cf mo sid ?v))"
    using assms by (intro world_ok_flush world_ok_upd) simp_all
  moreover have "has_object (world_of (flushStderrTail cf mo sid ?v)) sid" using assms by simp
  ultimately show ?thesis
    by (cases "flushStderrTail cf mo sid ?v") (simp_all add: onClose_def world_ok_finalize)
qed

lemma world_ok_perform:
  assumes "world_ok w" and "enabled a w"
  shows "world_ok (world_of (perform cf a w))"
proof (cases a)
  case (Child_stdout mo sid chunk)
  with assms show ?thesis by (simp add: onStdout_def world_ok_upd)
next
  case (Escalation_expires os_at e)
  with assms show ?thesis by (auto intro: world_ok_cong)
next
  case Close_runner
  with assms show ?thesis by (auto simp: close_runner_def intro: world_ok_cong)
next
  case Restart
  with assms show ?thesis by (simp add: world_ok_def objects_ok_def restart_def reg_ok_def)
qed (use assms in \<open>simp_all add: world_ok_start world_ok_stderr world_ok_close world_ok_finalizeFailed
    onError_def world_ok_upd world_ok_timeout world_ok_terminate world_ok_sample world_ok_abandon
    world_ok_sweep\<close>)

lemma reachable_ok: "reachable cf as w \<Longrightarrow> world_ok w"
proof (induction rule: reachable.induct)
  case start
  show ?case
    by (simp add: boot_def world_ok_def db_ok_def origin_ok_def objects_ok_def reg_ok_def)
next
  case (step as w a)
  then show ?case by (intro world_ok_perform)
qed


section \<open>Every replay is well-formed\<close>

lemma listAllForSession_origin:
  assumes "world_ok w" and "dbSessions (wDb w) sid \<noteq> None"
  obtains e rest where "listAllForSession (wDb w) sid = e # rest" and "evType e = Execution_created"
    and "evSequence e = 0" and "\<forall>x \<in> set rest. announced x \<and> 0 < evSequence x"
proof -
  from assms obtain e rest where e: "session_events (wDb w) sid = e # rest"
      "evType e = Execution_created" "evSequence e = 0" "\<forall>x \<in> set rest. announced x \<and> 0 < evSequence x"
    unfolding world_ok_def origin_ok_def by meson
  have "sort_key evSequence (e # rest) = e # sort_key evSequence rest"
    using e(3,4) by (simp add: insort_is_Cons less_imp_le)
  with e that [of e "sort_key evSequence rest"] show thesis
    by (simp add: listAllForSession_def)
qed

lemma check_ids:
  "vInvariant ` set (check_contiguous i s) \<subseteq> {I4_contiguous_sequence}"
  "vInvariant ` set (check_terminal s) \<subseteq>
     {I5_single_terminal, I6_terminal_is_last, I7_no_snapshot_after_terminal}"
  "vInvariant ` set (check_status st s) \<subseteq> {I10_terminal_present_when_finalized}"
  "vInvariant ` set (check_orphans ks s) \<subseteq> {I11_no_orphan_process_lifecycle}"
  "vInvariant ` set (check_pipeline_completed s) \<subseteq> {I14_pipeline_stages_accounted}"
  "vInvariant ` set (check_stage_range s) \<subseteq> {I14_pipeline_stages_accounted}"
  "vInvariant ` set (check_success s) \<subseteq> {I12_success_has_process_exit}"
  "vInvariant ` set (check_payloads s) \<subseteq> {I13_payload_not_corrupt}"
proof -
  have v: "vInvariant (violation i m es sev) = i" for i m es sev by (simp add: violation_def)
  show "vInvariant ` set (check_contiguous i s) \<subseteq> {I4_contiguous_sequence}"
    by (induction s arbitrary: i) (simp_all add: v)
  show "vInvariant ` set (check_terminal s) \<subseteq>
     {I5_single_terminal, I6_terminal_is_last, I7_no_snapshot_after_terminal}"
    by (auto simp: check_terminal_def v Let_def split: list.split)
  show "vInvariant ` set (check_status st s) \<subseteq> {I10_terminal_present_when_finalized}"
    by (auto simp: check_status_def v Let_def split: option.split)
  show "vInvariant ` set (check_orphans ks s) \<subseteq> {I11_no_orphan_process_lifecycle}"
    by (induction s arbitrary: ks) (auto simp: v Let_def split: option.split)
  show "vInvariant ` set (check_pipeline_completed s) \<subseteq> {I14_pipeline_stages_accounted}"
    by (auto simp: check_pipeline_completed_def v Let_def split: option.split if_splits)
  show "vInvariant ` set (check_stage_range s) \<subseteq> {I14_pipeline_stages_accounted}"
    by (auto simp: check_stage_range_def v split: option.splits if_splits)
  show "vInvariant ` set (check_success s) \<subseteq> {I12_success_has_process_exit}"
    by (auto simp: check_success_def v split: option.split)
  show "vInvariant ` set (check_payloads s) \<subseteq> {I13_payload_not_corrupt}"
    by (auto simp: check_payloads_def v split: if_splits)
qed

lemma replay_checks:
  assumes "world_ok w" and "dbSessions (wDb w) sid \<noteq> None"
  shows "check_sessions (listAllForSession (wDb w) sid) = []"
    and "check_unique {} {} (listAllForSession (wDb w) sid) = []"
    and "check_increasing (listAllForSession (wDb w) sid) = []"
    and "check_origin (listAllForSession (wDb w) sid) = []"
proof -
  have d: "db_ok (wDb w)" using assms(1) by (simp add: world_ok_def)
  show "check_sessions (listAllForSession (wDb w) sid) = []"
    using store.replay_session by (auto simp: check_sessions_ok one_session_def)
  show "check_unique {} {} (listAllForSession (wDb w) sid) = []"
    using store.replay_distinct [OF d] store.replay_ids [OF d] by (simp add: check_unique_ok)
  show "check_increasing (listAllForSession (wDb w) sid) = []"
    using store.replay_sorted [OF d] by (simp add: check_increasing_ok)
  obtain e rest where "listAllForSession (wDb w) sid = e # rest" "evType e = Execution_created"
    by (rule listAllForSession_origin [OF assms])
  then show "check_origin (listAllForSession (wDb w) sid) = []" by (simp add: check_origin_def)
qed

lemma sorted_stream_replay:
  "sorted_stream (listAllForSession d sid) = listAllForSession d sid"
  by (simp add: sorted_stream_def listAllForSession_def sort_key_id_if_sorted)

lemma replay_violations:
  assumes "world_ok w" and "dbSessions (wDb w) sid \<noteq> None"
  shows "vInvariant ` set (vrViolations (validateEventStream (listAllForSession (wDb w) sid) status)) \<subseteq>
     {I4_contiguous_sequence, I5_single_terminal, I6_terminal_is_last,
      I7_no_snapshot_after_terminal, I10_terminal_present_when_finalized,
      I11_no_orphan_process_lifecycle, I12_success_has_process_exit, I13_payload_not_corrupt,
      I14_pipeline_stages_accounted}"
  unfolding validateEventStream_def Let_def sorted_stream_replay stream_violations_def
    replay_checks [OF assms] validation_result.simps append_Nil set_append image_Un Un_subset_iff
  by (intro conjI subset_trans [OF check_ids(1)] subset_trans [OF check_ids(2)]
      subset_trans [OF check_ids(3)] subset_trans [OF check_ids(4)] subset_trans [OF check_ids(5)]
      subset_trans [OF check_ids(6)] subset_trans [OF check_ids(7)] subset_trans [OF check_ids(8)])
     simp_all

text \<open>C4: Whatever happens -- failing insertions, repeated ids, late output, sweeps, restarts -- the
  stored stream of every session belongs to that session alone, holds no sequence and no event id
  twice, increases strictly and begins with its creation: a replay never violates the validator's
  invariants I1, I2, I3, I8 or I9.\<close>
theorem replay_always_well_formed:
  assumes "reachable cf as w" and "findById (wDb w) sid = Some row"
  shows "vInvariant ` set (vrViolations
      (validateEventStream (listAllForSession (wDb w) sid) (Some (rowStatus row)))) \<inter>
    {I1_single_session, I2_unique_sequence, I3_increasing_sequence, I8_unique_event_id,
     I9_origin_event} = {}"
  using replay_violations [OF reachable_ok [OF assms(1)], of sid "Some (rowStatus row)"] assms(2)
  by (fastforce simp: findById_def)

end
