(* ===== verification/Session_Frames.thy ===== *)
theory Session_Frames
  imports Execution_Invariants
begin

text \<open>
  What a handler leaves alone: the frame of the step functions.  A handler for one session does
  not touch the log, the row, the object or the registration of another, and the log lines that
  report a lost event are never taken back.  The handlers with several ways through are given
  their case analyses here.
\<close>

section \<open>Sessions do not touch each other\<close>

definition faulty :: "world \<Rightarrow> string \<Rightarrow> bool" where
  "faulty w sid \<longleftrightarrow> sid \<in> fst ` set (wFaults w)"

definition untouched :: "string \<Rightarrow> world \<Rightarrow> world \<Rightarrow> bool" where
  "untouched sid w w' \<longleftrightarrow>
     session_events (wDb w') sid = session_events (wDb w) sid \<and>
     dbSessions (wDb w') sid = dbSessions (wDb w) sid \<and>
     regObjects (wReg w') sid = regObjects (wReg w) sid \<and>
     (sid \<in> set (regOrder (wReg w')) \<longleftrightarrow> sid \<in> set (regOrder (wReg w))) \<and>
     faulty w' sid = faulty w sid"

lemma untouched_refl [simp]: "untouched sid w w"
  by (simp add: untouched_def)

lemma untouched_trans: "untouched sid w v \<Longrightarrow> untouched sid v u \<Longrightarrow> untouched sid w u"
  by (simp add: untouched_def)

lemma untouched_cong:
  "wDb w' = wDb w \<Longrightarrow> wReg w' = wReg w \<Longrightarrow> wFaults w' = wFaults w \<Longrightarrow> untouched sid w w'"
  by (simp add: untouched_def faulty_def)

lemma untouched_upd: "s \<noteq> sid \<Longrightarrow> untouched sid w (upd_active s f w)"
  by (simp add: untouched_def faulty_def)

lemma untouched_remove: "s \<noteq> sid \<Longrightarrow> untouched sid w (remove_active s w)"
  by (auto simp: untouched_def faulty_def reg_delete_objects)

lemma untouched_insert:
  "insertEvent ok e (wDb w) = Some d \<Longrightarrow> evSessionId e \<noteq> sid \<Longrightarrow> wDb w' = d \<Longrightarrow> wReg w' = wReg w \<Longrightarrow>
     wFaults w' = wFaults w \<Longrightarrow> untouched sid w w'"
  by (auto simp: untouched_def faulty_def session_events_def dest!: insertEvent_Some)

lemma untouched_row:
  "wDb w' = update_row s f (wDb w) \<Longrightarrow> s \<noteq> sid \<Longrightarrow> wReg w' = wReg w \<Longrightarrow> wFaults w' = wFaults w \<Longrightarrow>
     untouched sid w w'"
  by (simp add: untouched_def faulty_def)

lemma untouched_store: "evSessionId e \<noteq> sid \<Longrightarrow> untouched sid w (store_event mo e w)"
  by (cases "insertEvent (moInsert mo (evId e)) e (wDb w)")
     (auto simp: store_event_def untouched_def faulty_def session_events_def dest!: insertEvent_Some)

lemma untouched_emit: "evSessionId e \<noteq> sid \<Longrightarrow> untouched sid w (emit mo e w)"
  by (auto simp: emit_def split: option.split intro: untouched_store
      intro!: untouched_trans [OF untouched_upd untouched_store])

lemma untouched_emit_untyped: "s \<noteq> sid \<Longrightarrow> untouched sid w (emit_untyped s n w)"
  by (auto simp: emit_untyped_def untouched_def faulty_def Let_def split: option.split)

lemma untouched_and_then:
  "untouched sid w (world_of r) \<Longrightarrow> (\<And>v. untouched sid v (world_of (f v))) \<Longrightarrow>
     untouched sid w (world_of (and_then r f))"
  by (cases r) (auto intro: untouched_trans)

lemma untouched_observe:
  assumes "s \<noteq> sid"
  shows "untouched sid w (world_of (observe mo s ev w))"
proof -
  have g: "untouched sid v (observe_group s ev v)" for v
    using assms by (simp add: observe_group_def untouched_upd split: option.split)
  have p: "untouched sid v (world_of (observe_pid mo s q v))" for q v
    using assms by (simp add: observe_pid_def Let_def split_beta setPid_def untouched_def faulty_def
        split: option.split)
  have r: "untouched sid v (start_sampling s q v)" "untouched sid v (stop_sampling s q' v)" for q q' v
    by (auto intro: untouched_cong)
  have "untouched sid v (world_of (observe_started mo s ev v))" for v
    unfolding observe_started_def Let_def
    by (rule untouched_and_then [OF untouched_trans [OF untouched_upd [OF assms] p]])
       (auto intro: g untouched_trans [OF g r(1)] split: option.split)
  then show ?thesis
    using assms
    by (auto simp: observe_def split: event_type.split intro: untouched_upd
        intro!: untouched_trans [OF untouched_upd r(2)])
qed

lemma untouched_append [simp]:
  "untouched sid w (append_output cf ch s t w)" "untouched sid w (append_line cf s t w)"
  "untouched sid w (snd (fresh_id cf p w))"
  by (auto intro: untouched_cong)

lemma untouched_route:
  assumes "s \<noteq> sid"
  shows "untouched sid w (world_of (routeStderrLine cf mo s line w))"
proof -
  have "untouched sid w (world_of (observe mo s ev (emit mo ev (snd (fresh_id cf ''evt'' w)))))"
    if "evSessionId ev = s" for ev
    using assms that
    by (intro untouched_trans [OF _ untouched_observe] untouched_trans [OF _ untouched_emit]) simp_all
  moreover have "untouched sid w (emit_untyped s n (snd (fresh_id cf ''evt'' w)))" for n
    using assms by (intro untouched_trans [OF _ untouched_emit_untyped]) simp_all
  ultimately show ?thesis
    by (auto simp: routeStderrLine_def Let_def split: classified_kind.split normalized.split
        dest: normalize_line_type(3))
qed

lemma untouched_lines: "s \<noteq> sid \<Longrightarrow> untouched sid w (world_of (route_lines cf mo s ls w))"
  by (induction ls arbitrary: w) (simp_all add: untouched_and_then untouched_route)

lemma untouched_stderr: "s \<noteq> sid \<Longrightarrow> untouched sid w (world_of (onStderr cf mo s chunk w))"
  unfolding onStderr_def Let_def split_beta
  by (rule untouched_trans [OF _ untouched_lines])
     (auto intro: untouched_upd untouched_trans [OF untouched_trans [OF untouched_upd untouched_append(1)] untouched_upd]
        untouched_trans [OF untouched_upd untouched_upd])

lemma untouched_flush: "s \<noteq> sid \<Longrightarrow> untouched sid w (world_of (flushStderrTail cf mo s w))"
  by (auto simp: flushStderrTail_def Let_def intro: untouched_upd
      intro!: untouched_trans [OF untouched_upd untouched_route])

lemma untouched_finish:
  assumes "s \<noteq> sid" and "evSessionId ev = s"
  shows "untouched sid w (finish mo s ff x y ev w)"
proof -
  obtain c n' where t: "final_transaction mo s ff x y ev (acNextSeq (the (regObjects (wReg w) s))) (wDb w) = (c, n')"
    by (metis surj_pair)
  show ?thesis
  proof (cases c)
    case None
    with t assms show ?thesis
      by (auto simp: finish_def untouched_def faulty_def reg_delete_objects Let_def)
  next
    case (Some d')
    with t obtain f where i: "insertEvent (moInsert mo (evId ev))
        (ev \<lparr>evSequence := acNextSeq (the (regObjects (wReg w) s))\<rparr>) (update_row s f (wDb w)) = Some d'"
      by (metis final_transaction_Some)
    with Some t assms show ?thesis
      by (auto simp: finish_def untouched_def faulty_def reg_delete_objects Let_def session_events_def
          dest!: insertEvent_Some)
  qed
qed

lemma untouched_finalize:
  assumes "s \<noteq> sid"
  shows "untouched sid w (finalize cf mo s code sc w)"
proof -
  have f: "untouched sid w (snd (fresh_id cf p (forgetActiveIdentities a
      (stop_sampling s None (drop_buffers s (upd_active s g w))))))" for a p g
    using untouched_upd [OF assms, of w g] by (simp add: untouched_def faulty_def)
  show ?thesis
    unfolding finalize_def Let_def split_beta
    using assms by (auto intro!: untouched_trans [OF f untouched_finish] simp: gatewayEvent_def)
qed

lemma finalizeFailed_cases:
  fixes w sid
  defines "v \<equiv> forgetActiveIdentities (the (regObjects (wReg w) sid))
     (stop_sampling sid None (upd_active sid (\<lambda>s. s \<lparr>acFinalized := True\<rparr>) w))"
  obtains "acFinalized (the (regObjects (wReg w) sid))" "finalizeFailed cf mo sid reason w = Done w"
  | "\<not> acFinalized (the (regObjects (wReg w) sid))" "finalizeFailed cf mo sid reason w = Threw v"
  | ff d e where "\<not> acFinalized (the (regObjects (wReg w) sid))" "ffStatus ff = FAILED"
      "finalizeRow (moUpdate mo) sid ff (moNow mo) (wDb w) = Some d"
      "evSessionId e = sid" "evType e = Execution_failed" "evSequence e = 0"
      "finalizeFailed cf mo sid reason w =
         Done (remove_active sid (emit mo e (snd (fresh_id cf ''evt'' (v \<lparr>wDb := d\<rparr>)))))"
proof -
  let ?a = "the (regObjects (wReg w) sid)"
  let ?ff = "\<lparr>ffStatus = FAILED, ffExitCode = None, ffSignal = None, ffIsSuccess = Some False,
      ffDurationMs = Some (max 0 (moNow mo - acMonotonicStartMs ?a)),
      ffPid = acChildPid ?a, ffError = Some (Plain_reason reason)\<rparr>"
  let ?e = "gatewayEvent sid 0 (cfNewId cf ''evt'' (wFresh w)) (moNow mo) Gateway Execution_failed
     [(''reason'', JStr reason), (''outcome'', JStr ''LAUNCH_FAILED'')] None"
  show thesis
  proof (cases "acFinalized ?a")
    case True
    then show thesis by (intro that(1)) (simp_all add: finalizeFailed_def)
  next
    case False
    show thesis
    proof (cases "finalizeRow (moUpdate mo) sid ?ff (moNow mo) (wDb w)")
      case None
      with False show thesis by (intro that(2)) (simp_all add: finalizeFailed_def Let_def v_def)
    next
      case (Some d)
      with False show thesis
        by (intro that(3) [where ff = ?ff and e = ?e and d = d])
           (simp_all add: finalizeFailed_def Let_def v_def split_beta gatewayEvent_def)
    qed
  qed
qed

lemma untouched_finalizeFailed:
  assumes "s \<noteq> sid"
  shows "untouched sid w (world_of (finalizeFailed cf mo s reason w))"
proof (cases rule: finalizeFailed_cases [where w = w and sid = s and cf = cf and mo = mo and reason = reason])
  case 2
  with assms untouched_upd [OF assms, of w] show ?thesis by (simp add: untouched_def faulty_def)
next
  case (3 ff d e)
  from finalizeRow_Some [OF 3(3)] obtain f where d: "d = update_row s f (wDb w)" by blast
  let ?v = "snd (fresh_id cf ''evt'' (forgetActiveIdentities (the (regObjects (wReg w) s))
     (stop_sampling s None (upd_active s (\<lambda>s. s \<lparr>acFinalized := True\<rparr>) w)) \<lparr>wDb := d\<rparr>))"
  have "untouched sid w ?v"
    using assms untouched_upd [OF assms, of w] by (simp add: untouched_def faulty_def d)
  moreover have "untouched sid ?v (remove_active s (emit mo e ?v))"
    using assms 3(4) by (intro untouched_trans [OF untouched_emit untouched_remove]) simp_all
  ultimately show ?thesis using 3 by (auto intro: untouched_trans)
qed simp


lemma untouched_create:
  "createWithFirstEvent b (creation i r g s evid now) (wDb w) = Some d \<Longrightarrow> s \<noteq> sid \<Longrightarrow>
     untouched sid w (w \<lparr>wDb := d\<rparr>)"
  by (auto simp: createWithFirstEvent_def creation_def gatewayEvent_def Let_def untouched_def faulty_def
      session_events_def split: if_splits dest!: insertEvent_Some)

lemma untouched_failBefore:
  assumes "s \<noteq> sid"
  shows "untouched sid w (world_of (failBeforeStart cf mo s reason n extra w))"
proof (cases rule: failBeforeStart_cases [of cf mo s reason n extra w])
  case (2 ff d1 v)
  from finalizeRow_Some [OF 2(1)] obtain f where "d1 = update_row s f (wDb w)" by blast
  moreover from 2(4) have "wFaults v = wFaults w"
    by (auto simp: failBeforeStart_def Let_def split_beta split: option.splits)
  ultimately show ?thesis using 2 assms untouched_row [of v s f w sid] by simp
next
  case (3 ff d1 e d v)
  from finalizeRow_Some [OF 3(1)] obtain f where f: "d1 = update_row s f (wDb w)" by blast
  from 3 assms have "untouched sid w v"
    by (auto simp: untouched_def faulty_def session_events_def f dest!: insertEvent_Some)
  with 3 show ?thesis by simp
qed simp

lemma untouched_record:
  assumes "s \<noteq> sid"
  shows "untouched sid w (world_of (snd (finalize_record cf mo s reason kind w)))"
proof (cases rule: finalize_record_cases [of cf mo s reason kind w])
  case (3 r ff d1 e d v)
  from finalizeRow_Some [OF 3(3)] obtain f where f: "d1 = update_row s f (wDb w)" by blast
  from 3 assms have "untouched sid w v"
    by (auto simp: untouched_def faulty_def session_events_def f dest!: insertEvent_Some)
  with 3 show ?thesis by simp
qed simp_all

lemma untouched_spawn:
  assumes "s \<noteq> sid"
  shows "untouched sid w (world_of (snd (spawnFor cf mo s i se w)))"
proof (cases se)
  case (Some m)
  with assms show ?thesis by (simp add: spawnFor_def untouched_failBefore)
next
  case None
  let ?v = "w \<lparr>wBuffers := (wBuffers w)((Stdout, s) \<mapsto> empty_buffer, (Stderr, s) \<mapsto> empty_buffer),
              wReg := reg_add (new_active i s (moNow mo)) (wReg w)\<rparr>"
  have "untouched sid w ?v"
    using assms by (simp add: untouched_def faulty_def reg_add_def new_active_def)
  then show ?thesis
    using assms None
    by (auto simp: spawnFor_def Let_def split_beta gatewayEvent_def
        intro!: untouched_trans [OF _ untouched_upd] untouched_trans [OF _ untouched_emit]
          untouched_trans [OF _ untouched_append(3)])
qed

lemma untouched_start:
  assumes "cfNewId cf ''exec'' (wFresh w) \<noteq> sid"
  shows "untouched sid w (world_of (snd (start cf mo g se i w)))"
proof -
  let ?s = "cfNewId cf ''exec'' (wFresh w)"
  have r: "untouched sid v (world_of (snd (refuseForThermal cf mo ?s i rec v)))" for rec v
    using assms unfolding refuseForThermal_def Let_def split_beta
    by (auto split: option.split
        intro!: untouched_trans [OF untouched_trans [OF untouched_append(3) untouched_create] untouched_failBefore])
  show ?thesis
    using assms unfolding start_def Let_def split_beta
    by (auto split: option.split
        intro!: untouched_trans [OF untouched_append(3) r]
          untouched_trans [OF untouched_append(3) untouched_append(3)]
          untouched_trans [OF untouched_trans [OF untouched_trans [OF untouched_append(3) untouched_append(3)]
             untouched_create] untouched_spawn])
qed

lemma untouched_timeout: "s \<noteq> sid \<Longrightarrow> untouched sid w (handleTimeout mo s w)"
  by (auto simp: handleTimeout_def Let_def split_beta untouched_def faulty_def)

lemma untouched_terminate: "s \<noteq> sid \<Longrightarrow> untouched sid w (snd (requestTerminate mo s sg w))"
  by (auto simp: requestTerminate_def Let_def split_beta untouched_def faulty_def)

lemma untouched_sample: "s \<noteq> sid \<Longrightarrow> untouched sid w (publishSnapshot cf mo s pid p w)"
  by (auto simp: publishSnapshot_def Let_def split_beta gatewayEvent_def split: option.split
      intro!: untouched_trans [OF untouched_append(3) untouched_emit])

lemma untouched_close: "s \<noteq> sid \<Longrightarrow> untouched sid w (world_of (onClose cf mo s code sc w))"
  unfolding onClose_def
  by (rule untouched_and_then [OF untouched_trans [OF untouched_upd untouched_flush]])
     (simp_all add: untouched_finalize)

lemma fold_delete_other:
  "k \<notin> set ks \<Longrightarrow> regObjects (fold reg_delete ks r) k = regObjects r k \<and>
     (k \<in> set (regOrder (fold reg_delete ks r)) \<longleftrightarrow> k \<in> set (regOrder r))"
  by (induction ks arbitrary: r) (simp_all add: reg_delete_objects)

lemma untouched_sweep:
  "sid \<notin> set (fst (sweep now st (wReg w))) \<Longrightarrow> untouched sid w (w \<lparr>wReg := snd (sweep now st (wReg w))\<rparr>)"
  using fold_delete_other [of sid] by (simp add: untouched_def faulty_def sweep_def Let_def)

section \<open>Fault lines are never taken back\<close>

definition grows :: "world \<Rightarrow> world \<Rightarrow> bool" where
  "grows w w' \<longleftrightarrow> set (wFaults w) \<subseteq> set (wFaults w')"

lemma grows_refl [simp]: "grows w w"
  by (simp add: grows_def)

lemma grows_trans: "grows w v \<Longrightarrow> grows v u \<Longrightarrow> grows w u"
  by (auto simp: grows_def)

lemma grows_faulty: "grows w w' \<Longrightarrow> faulty w sid \<Longrightarrow> faulty w' sid"
  by (auto simp: grows_def faulty_def)

lemma grows_same: "wFaults w' = wFaults w \<Longrightarrow> grows w w'"
  by (simp add: grows_def)

lemma grows_store: "grows w (store_event mo e w)"
  by (auto simp: store_event_def grows_def split: option.split)

lemma grows_emit: "grows w (emit mo e w)"
  using grows_store [of "upd_active sid f w" mo e' for sid f e'] grows_store
  by (simp add: emit_def grows_def split: option.split)

lemma grows_and_then:
  "grows w (world_of r) \<Longrightarrow> (\<And>v. grows v (world_of (f v))) \<Longrightarrow> grows w (world_of (and_then r f))"
  by (cases r) (auto intro: grows_trans)

lemma faults_observe [simp]: "wFaults (world_of (observe mo sid ev w)) = wFaults w"
proof -
  have g: "wFaults (observe_group sid ev v) = wFaults v" for v
    by (simp add: observe_group_def split: option.split)
  have p: "wFaults (world_of (observe_pid mo sid q v)) = wFaults v" for q v
    by (simp add: observe_pid_def Let_def split_beta split: option.split)
  have "wFaults (world_of (observe_started mo sid ev v)) = wFaults v" for v
    using p [of "evPid ev" "upd_active sid (\<lambda>s. s \<lparr>acState := RUNNING, acChildPid := evPid ev,
          acProcessStartedAt := Some (evTimestamp ev), acProcessReaped := False\<rparr>) v"]
    unfolding observe_started_def Let_def
    by (cases "observe_pid mo sid (evPid ev) (upd_active sid (\<lambda>s. s \<lparr>acState := RUNNING, acChildPid := evPid ev,
          acProcessStartedAt := Some (evTimestamp ev), acProcessReaped := False\<rparr>) v)")
       (simp_all add: g split: option.split)
  then show ?thesis by (simp add: observe_def split: event_type.split)
qed

lemma grows_route: "grows w (world_of (routeStderrLine cf mo sid line w))"
proof -
  have "grows w (world_of (observe mo sid ev (emit mo ev (snd (fresh_id cf ''evt'' w)))))" for ev
    using grows_emit [of "snd (fresh_id cf ''evt'' w)" mo ev] by (simp add: grows_def)
  moreover have "grows w (emit_untyped sid n (snd (fresh_id cf ''evt'' w)))" for n
    by (auto simp: grows_def emit_untyped_def Let_def split: option.split)
  ultimately show ?thesis
    by (auto simp: routeStderrLine_def Let_def split: classified_kind.split normalized.split
        intro: grows_same)
qed

lemma grows_lines: "grows w (world_of (route_lines cf mo sid ls w))"
  by (induction ls arbitrary: w) (simp_all add: grows_and_then grows_route)

lemma grows_stderr: "grows w (world_of (onStderr cf mo sid chunk w))"
  unfolding onStderr_def Let_def split_beta
  by (rule grows_trans [OF _ grows_lines]) (auto intro: grows_same)

lemma grows_flush: "grows w (world_of (flushStderrTail cf mo sid w))"
  using grows_route [of "upd_active sid (\<lambda>s. s \<lparr>acStderrLineBuffer := []\<rparr>) w" cf mo sid]
  by (auto simp: flushStderrTail_def Let_def grows_def)

lemma grows_finish: "grows w (finish mo sid ff x y ev w)"
  by (auto simp: finish_def grows_def Let_def split: prod.split option.split)

lemma finalize_cases:
  obtains "acFinalized (the (regObjects (wReg w) sid))" "finalize cf mo sid code sc w = w"
  | ff x y p ec where "\<not> acFinalized (the (regObjects (wReg w) sid))"
      "ffStatus ff = fst (decideStatus (the (regObjects (wReg w) sid)) ec)"
      "finalize cf mo sid code sc w =
         finish mo sid ff x y
           (gatewayEvent sid 0 (cfNewId cf ''evt'' (wFresh w)) (moNow mo) Gateway
             (final_type (ffStatus ff)) p (acChildPid (the (regObjects (wReg w) sid))))
           (snd (fresh_id cf ''evt''
             (forgetActiveIdentities (the (regObjects (wReg w) sid))
               (stop_sampling sid None
                 (drop_buffers sid (upd_active sid (\<lambda>s. s \<lparr>acFinalized := True\<rparr>) w))))))"
proof (cases "acFinalized (the (regObjects (wReg w) sid))")
  case True
  then show thesis by (intro that(1)) (simp_all add: finalize_def)
next
  case False
  let ?a = "the (regObjects (wReg w) sid)"
  let ?ec = "if sc \<noteq> None \<and> sc \<noteq> Some [] then None else code"
  let ?ff = "\<lparr>ffStatus = fst (decideStatus ?a ?ec), ffExitCode = ?ec, ffSignal = acSignal ?a,
     ffIsSuccess = Some (fst (snd (decideStatus ?a ?ec))),
     ffDurationMs = Some (max 0 (moNow mo - acMonotonicStartMs ?a)),
     ffPid = acChildPid ?a, ffError = snd (snd (decideStatus ?a ?ec))\<rparr>"
  let ?o = "case wBuffers w (Stdout, sid) of Some b \<Rightarrow> b | None \<Rightarrow> empty_buffer"
  let ?e = "case wBuffers w (Stderr, sid) of Some b \<Rightarrow> b | None \<Rightarrow> empty_buffer"
  let ?p = "final_payload cf ?a code sc ?ec (max 0 (moNow mo - acMonotonicStartMs ?a))
     (decideStatus ?a ?ec) (tbTruncated ?o) (tbTruncated ?e) (wClosing w)"
  show thesis
    by (rule that(2) [OF False, where ff = ?ff and ec = ?ec and x = "tbText ?o" and y = "tbText ?e" and p = ?p])
       (use False in \<open>simp_all add: finalize_def Let_def split_beta split del: if_split\<close>)
qed

lemma grows_finalize: "grows w (finalize cf mo sid code sc w)"
proof (cases rule: finalize_cases [of w sid cf mo code sc])
  case (2 ff x y p ec)
  show ?thesis
    unfolding 2(3) by (rule grows_trans [OF _ grows_finish]) (simp add: grows_def)
qed simp

lemma grows_failed: "grows w (world_of (finalizeFailed cf mo sid reason w))"
proof (cases rule: finalizeFailed_cases [where w = w and sid = sid and cf = cf and mo = mo and reason = reason])
  case (3 ff d e)
  then show ?thesis
    using grows_emit [of "snd (fresh_id cf ''evt'' (forgetActiveIdentities (the (regObjects (wReg w) sid))
     (stop_sampling sid None (upd_active sid (\<lambda>s. s \<lparr>acFinalized := True\<rparr>) w)) \<lparr>wDb := d\<rparr>))" mo e]
    by (auto simp: grows_def)
qed (simp_all add: grows_def)

lemma grows_failBefore: "grows w (world_of (failBeforeStart cf mo sid reason n extra w))"
  by (auto simp: failBeforeStart_def grows_def Let_def split_beta split: option.split)

lemma start_cases:
  obtains v where "wDb v = wDb w" "wReg v = wReg w" "wFaults v = wFaults w"
      "snd (start cf mo g se i w) = Done v"
  | b rr rec evid v reason extra
    where "createWithFirstEvent b (creation i rr rec (cfNewId cf ''exec'' (wFresh w)) evid (moNow mo)) (wDb w) =
        Some (wDb v)"
      "wReg v = wReg w" "wFaults v = wFaults w"
      "snd (start cf mo g se i w) = failBeforeStart cf mo (cfNewId cf ''exec'' (wFresh w)) reason 1 extra v"
  | b rr rec evid v
    where "createWithFirstEvent b (creation i rr rec (cfNewId cf ''exec'' (wFresh w)) evid (moNow mo)) (wDb w) =
        Some (wDb v)"
      "wReg v = wReg w" "wFaults v = wFaults w" "hasCapacity (cfMaxConcurrent cf) (wReg w)"
      "snd (start cf mo g se i w) = snd (spawnFor cf mo (cfNewId cf ''exec'' (wFresh w)) i None v)"
proof (cases "hasCapacity (cfMaxConcurrent cf) (wReg w)")
  case False
  then show thesis by (intro that(1)) (simp_all add: start_def)
next
  case True
  note cap = True
  let ?sid = "cfNewId cf ''exec'' (wFresh w)"
  let ?rec = "g ?sid (moNow mo)"
  let ?rr = "if refuses ?rec then no_redirections else effective_redirections i"
  let ?w = "snd (fresh_id cf ''evt'' (snd (fresh_id cf ''exec'' w)))"
  let ?evid = "cfNewId cf ''evt'' (wFresh w + 1)"
  let ?c = "createWithFirstEvent (moBegin mo \<and> moInsert mo ?evid)
     (creation i ?rr ?rec ?sid ?evid (moNow mo)) (wDb w)"
  show thesis
  proof (cases ?c)
    case None
    with cap show thesis
      by (intro that(1) [of ?w])
         (simp_all add: start_def refuseForThermal_def Let_def split_beta split: if_splits)
  next
    case (Some d)
    show thesis
    proof (cases "refuses ?rec")
      case True
      with cap Some show thesis
        by (intro that(2) [where v = "?w \<lparr>wDb := d\<rparr>" and rr = ?rr])
           (simp_all add: start_def refuseForThermal_def Let_def split_beta)
    next
      case False
      show thesis
      proof (cases se)
        case None
        with cap Some False show thesis
          by (intro that(3) [where v = "?w \<lparr>wDb := d\<rparr>" and rr = ?rr])
             (simp_all add: start_def Let_def split_beta)
      next
        case (Some m)
        with cap False \<open>?c = Some d\<close> show thesis
          by (intro that(2) [where v = "?w \<lparr>wDb := d\<rparr>" and rr = ?rr])
             (simp_all add: start_def spawnFor_def Let_def split_beta)
      qed
    qed
  qed
qed

lemma grows_start: "grows w (world_of (snd (start cf mo g se i w)))"
proof (cases rule: start_cases [of w cf mo g se i])
  case (2 b rr rec evid v reason extra)
  with grows_failBefore [of v cf mo] show ?thesis by (simp add: grows_def)
next
  case (3 b rr rec evid v)
  let ?v = "snd (fresh_id cf ''evt'' (v \<lparr>wBuffers := (wBuffers v)
      ((Stdout, cfNewId cf ''exec'' (wFresh w)) \<mapsto> empty_buffer,
       (Stderr, cfNewId cf ''exec'' (wFresh w)) \<mapsto> empty_buffer),
      wReg := reg_add (new_active i (cfNewId cf ''exec'' (wFresh w)) (moNow mo)) (wReg v)\<rparr>))"
  from 3 grows_emit [of ?v mo] show ?thesis
    by (simp add: grows_def spawnFor_def Let_def split_beta)
qed (simp_all add: grows_def)

lemma grows_perform: "grows w (world_of (perform cf a w))"
proof (cases a)
  case (Child_stdout mo sid chunk)
  then show ?thesis by (simp add: onStdout_def grows_def)
next
  case (Sample mo sid pid p)
  then show ?thesis
    by (auto simp: publishSnapshot_def Let_def split_beta split: option.split
        intro!: grows_trans [OF _ grows_emit] intro: grows_same)
next
  case (Abandon mo sid reason kind)
  have "grows w (world_of (snd (finalize_record cf mo sid reason kind w)))"
    by (cases rule: finalize_record_cases [of cf mo sid reason kind w]) (simp_all add: grows_def)
  with Abandon show ?thesis
    by (simp add: finalizeAbandoned_def grows_failed split: option.split)
next
  case (Child_close mo sid code sc)
  then show ?thesis
    using grows_trans [OF grows_same grows_flush]
    by (auto simp: onClose_def grows_finalize intro!: grows_and_then)
qed (simp_all add: grows_start grows_stderr grows_failed onError_def grows_same close_runner_def restart_def)


section \<open>The session an action is about\<close>

fun about :: "caps_config \<Rightarrow> action \<Rightarrow> world \<Rightarrow> string \<Rightarrow> bool" where
  "about cf (Start mo g se i) w sid = (cfNewId cf ''exec'' (wFresh w) = sid)"
| "about cf (Child_stderr mo s chunk) w sid = (s = sid)"
| "about cf (Child_stdout mo s chunk) w sid = (s = sid)"
| "about cf (Child_error mo s m) w sid = (s = sid)"
| "about cf (Child_close mo s c sc) w sid = (s = sid)"
| "about cf (Child_exit s) w sid = (s = sid)"
| "about cf (Timer_expires mo s) w sid = (s = sid)"
| "about cf (Escalation_expires u e) w sid = False"
| "about cf (Terminate_request mo s sg) w sid = (s = sid)"
| "about cf (Sample mo s q p) w sid = (s = sid)"
| "about cf (Abandon mo s r k) w sid = (s = sid)"
| "about cf (Sweep now st) w sid = (sid \<in> set (fst (sweep now st (wReg w))))"
| "about cf Close_runner w sid = False"
| "about cf Restart w sid = True"

lemma untouched_perform:
  assumes "\<not> about cf a w sid"
  shows "untouched sid w (world_of (perform cf a w))"
proof (cases a)
  case (Child_stdout mo s chunk)
  with assms show ?thesis
    by (auto simp: onStdout_def intro: untouched_trans [OF untouched_upd untouched_append(1)])
next
  case (Abandon mo s reason kind)
  with assms show ?thesis
    by (auto simp: finalizeAbandoned_def untouched_finalizeFailed untouched_record split: option.split)
qed (use assms in \<open>simp_all add: untouched_start untouched_stderr untouched_finalizeFailed onError_def
    untouched_close untouched_upd untouched_timeout untouched_terminate untouched_sample untouched_sweep
    untouched_cong close_runner_def\<close>)

end
