(* ===== verification/Session_Lifecycle.thy ===== *)
theory Session_Lifecycle
  imports Session_Frames
begin

text \<open>
  The lifecycle of one session through a whole run.  \<open>calm_run\<close> is a run that a given session
  goes through undisturbed; \<open>sound\<close> is the invariant of its row, its stored stream and its object,
  unless a lost event was logged; \<open>alive\<close> and \<open>closing\<close> are its two phases before the end.  From
  it: the stored stream is complete and ends exactly once, and the end of the child is the end of
  the session.
\<close>

section \<open>Undisturbed runs\<close>

fun undisturbed :: "string \<Rightarrow> action \<Rightarrow> world \<Rightarrow> bool" where
  "undisturbed sid (Child_stderr mo s chunk) w =
     (s = sid \<longrightarrow> sid \<in> set (regOrder (wReg w)))"
| "undisturbed sid (Child_close mo s c sc) w =
     (s = sid \<longrightarrow> sid \<in> set (regOrder (wReg w)) \<or>
        acStderrLineBuffer (the (regObjects (wReg w) sid)) = [])"
| "undisturbed sid (Sweep now st) w = (sid \<notin> set (fst (sweep now st (wReg w))))"
| "undisturbed sid a w = True"

inductive calm_run :: "caps_config \<Rightarrow> string \<Rightarrow> action list \<Rightarrow> world \<Rightarrow> bool" for cf sid where
  start: "calm_run cf sid [] boot"
| step: "calm_run cf sid (as @ [a]) w'"
    if "calm_run cf sid as w" and "enabled a w" and "undisturbed sid a w" and "perform cf a w = Done w'"

lemma calm_run_reachable: "calm_run cf sid as w \<Longrightarrow> reachable cf as w"
proof (induction rule: calm_run.induct)
  case (step as w a w')
  from reachable.step [OF step.IH step.hyps(2)] step.hyps(4) show ?case by simp
qed (rule reachable.start)

section \<open>The lifecycle of one session\<close>

definition stream_ok :: "world \<Rightarrow> string \<Rightarrow> session_row \<Rightarrow> bool" where
  "stream_ok w sid row \<longleftrightarrow>
     numbered (session_events (wDb w) sid) \<and> ends_once (session_events (wDb w) sid) \<and>
     has_terminal (session_events (wDb w) sid) = isTerminalStatus (rowStatus row)"

definition object_ok :: "world \<Rightarrow> string \<Rightarrow> session_row \<Rightarrow> active_session \<Rightarrow> bool" where
  "object_ok w sid row a \<longleftrightarrow>
     (acFinalized a \<longleftrightarrow> sid \<notin> set (regOrder (wReg w))) \<and>
     (acFinalized a \<longleftrightarrow> isTerminalStatus (rowStatus row)) \<and>
     (\<not> acFinalized a \<longrightarrow> acNextSeq a = int (length (session_events (wDb w) sid)))"

definition session_ok :: "world \<Rightarrow> string \<Rightarrow> bool" where
  "session_ok w sid \<longleftrightarrow>
     (\<forall>row. dbSessions (wDb w) sid = Some row \<longrightarrow>
        stream_ok w sid row \<and> (\<forall>a. regObjects (wReg w) sid = Some a \<longrightarrow> object_ok w sid row a))"

definition live :: "world \<Rightarrow> string \<Rightarrow> bool" where
  "live w sid \<longleftrightarrow>
     (\<exists>a. regObjects (wReg w) sid = Some a \<and> sid \<in> set (regOrder (wReg w)) \<and> \<not> acFinalized a)"

text \<open>The invariant says nothing of a session whose loss of an event was logged.\<close>

definition sound :: "world \<Rightarrow> string \<Rightarrow> bool" where
  "sound w sid \<longleftrightarrow> faulty w sid \<or> session_ok w sid"

lemma live_untouched: "untouched sid w w' \<Longrightarrow> live w' sid = live w sid"
  by (simp add: live_def untouched_def)

text \<open>Changes to the object that concern neither its end nor its counter.\<close>

definition quiet :: "(active_session \<Rightarrow> active_session) \<Rightarrow> bool" where
  "quiet f \<longleftrightarrow> (\<forall>s. acFinalized (f s) = acFinalized s \<and> acNextSeq (f s) = acNextSeq s)"

lemma quiet_simps [simp]:
  "quiet (\<lambda>s. s \<lparr>acStderrLineBuffer := x\<rparr>)"
  "quiet (\<lambda>s. s \<lparr>acStderrBytes := f s, acLastEventAt := t\<rparr>)"
  "quiet (\<lambda>s. s \<lparr>acStdoutBytes := f s, acLastEventAt := t\<rparr>)"
  "quiet (\<lambda>s. s \<lparr>acSawSummary := b\<rparr>)" "quiet (\<lambda>s. s \<lparr>acProcessLive := b\<rparr>)"
  "quiet (\<lambda>s. s \<lparr>acKillTimer := b\<rparr>)" "quiet (\<lambda>s. s \<lparr>acState := st, acKillTimer := b\<rparr>)"
  "quiet (\<lambda>s. s \<lparr>acTimedOut := b, acState := st\<rparr>)"
  "quiet (\<lambda>s. s \<lparr>acChildIdentity := i s, acEscalation := b\<rparr>)"
  "quiet (\<lambda>s. s \<lparr>acTerminateRequested := b, acChildIdentity := i s, acEscalation := c\<rparr>)"
  "quiet (\<lambda>s. s \<lparr>acState := st, acChildPid := p, acProcessStartedAt := q, acProcessReaped := b\<rparr>)"
  "quiet (\<lambda>s. s \<lparr>acChildIdentity := j, acOwned := g s\<rparr>)"
  "quiet (\<lambda>s. s \<lparr>acChildPgid := k, acChildGroupLeader := h s\<rparr>)"
  "quiet (\<lambda>s. note_outcome ev (note_signal ev s))" "quiet (\<lambda>s. note_exit ev (note_outcome ev s))"
  "quiet (\<lambda>s. note_failure ev (note_outcome ev s))"
  by (simp_all add: quiet_def note_outcome_def note_signal_def note_exit_def note_failure_def)

text \<open>A step that keeps what the invariant reads: the log, the row's status, the registration and
  the two fields of the object.\<close>

definition keeps :: "string \<Rightarrow> world \<Rightarrow> world \<Rightarrow> bool" where
  "keeps sid w w' \<longleftrightarrow>
     session_events (wDb w') sid = session_events (wDb w) sid \<and>
     map_option rowStatus (dbSessions (wDb w') sid) = map_option rowStatus (dbSessions (wDb w) sid) \<and>
     map_option (\<lambda>a. (acFinalized a, acNextSeq a)) (regObjects (wReg w') sid) =
       map_option (\<lambda>a. (acFinalized a, acNextSeq a)) (regObjects (wReg w) sid) \<and>
     (sid \<in> set (regOrder (wReg w')) \<longleftrightarrow> sid \<in> set (regOrder (wReg w))) \<and>
     faulty w' sid = faulty w sid"

lemma keeps_refl [simp]: "keeps sid w w"
  by (simp add: keeps_def)

lemma keeps_trans: "keeps sid w v \<Longrightarrow> keeps sid v u \<Longrightarrow> keeps sid w u"
  by (simp add: keeps_def)

lemma keeps_untouched: "untouched sid w w' \<Longrightarrow> keeps sid w w'"
  by (simp add: keeps_def untouched_def)

lemma keeps_cong: "wDb w' = wDb w \<Longrightarrow> wReg w' = wReg w \<Longrightarrow> wFaults w' = wFaults w \<Longrightarrow> keeps sid w w'"
  by (simp add: keeps_def faulty_def)

lemma keeps_upd: "quiet f \<Longrightarrow> keeps sid w (upd_active s f w)"
  by (cases "regObjects (wReg w) s") (auto simp: keeps_def faulty_def quiet_def)

lemma keeps_session_ok:
  assumes "keeps sid w w'" and "session_ok w sid"
  shows "session_ok w' sid"
  unfolding session_ok_def
proof (intro allI impI)
  fix row' assume row': "dbSessions (wDb w') sid = Some row'"
  with assms(1) obtain row where row: "dbSessions (wDb w) sid = Some row" "rowStatus row' = rowStatus row"
    by (auto simp: keeps_def map_option_case split: option.splits)
  with assms have s: "stream_ok w sid row" "\<And>a. regObjects (wReg w) sid = Some a \<Longrightarrow> object_ok w sid row a"
    by (auto simp: session_ok_def)
  have "object_ok w' sid row' a'" if a': "regObjects (wReg w') sid = Some a'" for a'
  proof -
    from a' assms(1) obtain a where a: "regObjects (wReg w) sid = Some a" "acFinalized a' = acFinalized a"
      "acNextSeq a' = acNextSeq a"
      by (auto simp: keeps_def map_option_case split: option.splits)
    from s(2) [OF a(1)] a row assms(1) show ?thesis by (auto simp: object_ok_def keeps_def)
  qed
  with s(1) row assms(1) show "stream_ok w' sid row' \<and>
      (\<forall>a. regObjects (wReg w') sid = Some a \<longrightarrow> object_ok w' sid row' a)"
    by (auto simp: stream_ok_def keeps_def)
qed

lemma keeps_sound: "keeps sid w w' \<Longrightarrow> sound w sid \<Longrightarrow> sound w' sid"
  by (auto simp: sound_def keeps_session_ok) (simp add: keeps_def)

lemma sound_untouched: "untouched sid w w' \<Longrightarrow> sound w sid \<Longrightarrow> sound w' sid"
  by (rule keeps_sound [OF keeps_untouched])

lemma keeps_live:
  assumes "keeps sid w w'" shows "live w' sid = live w sid"
  using assms by (auto simp: live_def keeps_def map_option_case split: option.splits)

section \<open>Storing an event of a live session\<close>

lemma numbered_snoc:
  "numbered (es @ [e]) \<longleftrightarrow> numbered es \<and> evSequence e = int (length es)"
  by (simp add: numbered_def)

lemma sound_emit:
  assumes "sound w sid" and "live w sid" and "dbSessions (wDb w) sid \<noteq> None"
    and "evSessionId e = sid" and "\<not> isTerminalEventType (evType e)"
  shows "sound (emit mo e w) sid \<and> live (emit mo e w) sid"
proof -
  from assms(2) obtain a where a: "regObjects (wReg w) sid = Some a" "sid \<in> set (regOrder (wReg w))"
    "\<not> acFinalized a" by (auto simp: live_def)
  let ?v = "upd_active sid (\<lambda>s. s \<lparr>acNextSeq := acNextSeq s + 1\<rparr>) w"
  let ?e = "e \<lparr>evSequence := acNextSeq a\<rparr>"
  have emit: "emit mo e w = store_event mo ?e ?v"
    using a assms(4) by (simp add: emit_def reg_get_def)
  have live: "live (store_event mo ?e ?v) sid"
    using a by (simp add: live_def store_event_def split: option.split)
  show ?thesis
  proof (cases "insertEvent (moInsert mo (evId e)) ?e (wDb w)")
    case None
    then have "faulty (store_event mo ?e ?v) sid"
      using assms(4) by (simp add: store_event_def faulty_def)
    with live show ?thesis by (simp add: emit sound_def)
  next
    case (Some d)
    from insertEvent_Some [OF Some] have d: "d = (wDb w) \<lparr>dbEvents := dbEvents (wDb w) @ [?e]\<rparr>" by simp
    have st: "store_event mo ?e ?v = ?v \<lparr>wDb := d, wBus := wBus w @ [?e]\<rparr>"
      using Some by (simp add: store_event_def)
    show ?thesis
    proof (cases "faulty w sid")
      case True
      then show ?thesis using live by (simp add: emit sound_def st faulty_def)
    next
      case False
      with assms(1) have ok: "session_ok w sid" by (simp add: sound_def)
      have ev: "session_events d sid = session_events (wDb w) sid @ [?e]"
        using assms(4) by (simp add: session_events_def d)
      have rows: "dbSessions d = dbSessions (wDb w)" by (simp add: d)
      have "session_ok (?v \<lparr>wDb := d, wBus := wBus w @ [?e]\<rparr>) sid"
        unfolding session_ok_def
      proof (intro allI impI)
        fix row assume "dbSessions (wDb (?v \<lparr>wDb := d, wBus := wBus w @ [?e]\<rparr>)) sid = Some row"
        then have row: "dbSessions (wDb w) sid = Some row" by (simp add: rows)
        with ok a have s: "stream_ok w sid row" "object_ok w sid row a" by (auto simp: session_ok_def)
        then have n: "acNextSeq a = int (length (session_events (wDb w) sid))"
          "\<not> isTerminalStatus (rowStatus row)" using a by (simp_all add: object_ok_def)
        have "\<not> has_terminal (session_events (wDb w) sid)" using s(1) n(2) by (simp add: stream_ok_def)
        then have "stream_ok (?v \<lparr>wDb := d, wBus := wBus w @ [?e]\<rparr>) sid row"
          using s(1) n assms(5) unfolding stream_ok_def
          by (simp add: ev numbered_snoc ends_once_def has_terminal_def)
        then show "stream_ok (?v \<lparr>wDb := d, wBus := wBus w @ [?e]\<rparr>) sid row \<and>
            (\<forall>b. regObjects (wReg (?v \<lparr>wDb := d, wBus := wBus w @ [?e]\<rparr>)) sid = Some b \<longrightarrow>
               object_ok (?v \<lparr>wDb := d, wBus := wBus w @ [?e]\<rparr>) sid row b)"
          using s(2) a n by (simp add: object_ok_def ev)
      qed
      with live show ?thesis by (simp add: emit sound_def st)
    qed
  qed
qed


text \<open>A session that runs: registered, not finalized, its stream as the invariant has it.\<close>

definition alive :: "world \<Rightarrow> string \<Rightarrow> bool" where
  "alive w sid \<longleftrightarrow> sound w sid \<and> live w sid \<and> dbSessions (wDb w) sid \<noteq> None"

lemma keeps_alive:
  assumes "keeps sid w w'" and "alive w sid" shows "alive w' sid"
proof -
  have "dbSessions (wDb w') sid \<noteq> None"
    using assms by (auto simp: keeps_def alive_def map_option_case split: option.splits)
  with assms show ?thesis by (simp add: alive_def keeps_sound keeps_live)
qed

lemma store_event_rows: "dbSessions (wDb (store_event mo e w)) = dbSessions (wDb w)"
  by (auto simp: store_event_def split: option.split dest!: insertEvent_Some)

lemma emit_rows: "dbSessions (wDb (emit mo e w)) = dbSessions (wDb w)"
  by (simp add: emit_def store_event_rows split: option.split)

lemma alive_emit:
  "alive w sid \<Longrightarrow> evSessionId e = sid \<Longrightarrow> \<not> isTerminalEventType (evType e) \<Longrightarrow> alive (emit mo e w) sid"
  using sound_emit [of w sid e mo] by (simp add: alive_def emit_rows)

lemma alive_emit_untyped: "alive w sid \<Longrightarrow> alive (emit_untyped sid n w) sid"
  by (auto simp: alive_def sound_def live_def emit_untyped_def Let_def faulty_def split: option.split)

lemma keeps_observe: "keeps sid w (world_of (observe mo s ev w))"
proof -
  have g: "keeps sid v (observe_group s ev v)" for v
    by (simp add: observe_group_def keeps_upd split: option.split)
  have p: "keeps sid v (world_of (observe_pid mo s q v))" for q v
  proof -
    have "keeps sid v (upd_active s (\<lambda>x. x \<lparr>acChildIdentity := i, acOwned := own i (acOwned x)\<rparr>)
        (v \<lparr>wDb := setPid s r (wDb v), wTicks := t\<rparr>))" for i r t
      by (rule keeps_trans [OF _ keeps_upd])
         (auto simp: keeps_def faulty_def setPid_def option.map_comp comp_def)
    then show ?thesis by (simp add: observe_pid_def Let_def split_beta split: option.split)
  qed
  have r: "keeps sid v (start_sampling s q v)" "keeps sid v (stop_sampling s q' v)" for q q' v
    by (auto intro: keeps_cong)
  have a: "keeps sid v (world_of r) \<Longrightarrow> (\<And>u. keeps sid u (world_of (f u))) \<Longrightarrow>
      keeps sid v (world_of (and_then r f))" for v r f
    by (cases r) (auto intro: keeps_trans)
  have "keeps sid v (world_of (observe_started mo s ev v))" for v
    unfolding observe_started_def Let_def
    by (rule a [OF keeps_trans [OF keeps_upd p]])
       (auto intro: g keeps_trans [OF g r(1)] split: option.split)
  then show ?thesis
    by (auto simp: observe_def split: event_type.split intro: keeps_upd
        intro!: keeps_trans [OF keeps_upd r(2)])
qed

lemma keeps_append [simp]:
  "keeps sid w (append_output cf ch s t w)" "keeps sid w (append_line cf s t w)"
  "keeps sid w (snd (fresh_id cf p w))"
  by (auto intro: keeps_cong)

lemma alive_route:
  assumes "alive w sid"
  shows "alive (world_of (routeStderrLine cf mo sid line w)) sid"
proof -
  note f = keeps_alive [OF keeps_append(3) assms, of cf "''evt''"]
  show ?thesis
    using assms f
    by (auto simp: routeStderrLine_def Let_def split: classified_kind.split normalized.split
        intro: keeps_alive [OF keeps_append(2)] alive_emit_untyped
        intro!: keeps_alive [OF keeps_observe] alive_emit dest: normalize_line_type(2,3))
qed

lemma alive_lines: "alive w sid \<Longrightarrow> alive (world_of (route_lines cf mo sid ls w)) sid"
proof (induction ls arbitrary: w)
  case (Cons l ls)
  then show ?case
    using alive_route [OF Cons.prems, of cf mo l] by (cases "routeStderrLine cf mo sid l w") simp_all
qed simp

lemma alive_upd: "quiet f \<Longrightarrow> alive w sid \<Longrightarrow> alive (upd_active s f w) sid"
  by (rule keeps_alive [OF keeps_upd])

lemma alive_stderr: "alive w sid \<Longrightarrow> alive (world_of (onStderr cf mo sid chunk w)) sid"
  unfolding onStderr_def Let_def split_beta
  by (rule alive_lines) (auto intro!: alive_upd keeps_alive [OF keeps_append(1)])

lemma alive_flush: "alive w sid \<Longrightarrow> alive (world_of (flushStderrTail cf mo sid w)) sid"
  by (auto simp: flushStderrTail_def Let_def intro!: alive_upd alive_route)


section \<open>The end of a session\<close>

text \<open>Finalized but not yet removed: the terminal event is still to be stored.\<close>

definition closing :: "world \<Rightarrow> string \<Rightarrow> bool" where
  "closing w sid \<longleftrightarrow>
     (\<exists>a. regObjects (wReg w) sid = Some a \<and> acFinalized a \<and> sid \<in> set (regOrder (wReg w)) \<and>
        (faulty w sid \<or>
         numbered (session_events (wDb w) sid) \<and> \<not> has_terminal (session_events (wDb w) sid) \<and>
         acNextSeq a = int (length (session_events (wDb w) sid))))"

lemma alive_closing:
  assumes "alive w sid" and "session_events (wDb v) sid = session_events (wDb w) sid"
    and "wReg v = upd_object sid (\<lambda>s. s \<lparr>acFinalized := True\<rparr>) (wReg w)" and "wFaults v = wFaults w"
  shows "closing v sid"
proof -
  obtain a row where a: "regObjects (wReg w) sid = Some a" "sid \<in> set (regOrder (wReg w))"
    "\<not> acFinalized a" "dbSessions (wDb w) sid = Some row"
    using assms(1) by (auto simp: alive_def live_def)
  have "faulty w sid \<or> stream_ok w sid row \<and> object_ok w sid row a"
    using assms(1) a by (auto simp: alive_def sound_def session_ok_def)
  with a assms(2-) show ?thesis
    by (auto simp: closing_def faulty_def stream_ok_def object_ok_def)
qed

lemma numbered_ends:
  "numbered es \<Longrightarrow> \<not> has_terminal es \<Longrightarrow> isTerminalEventType (evType e) \<Longrightarrow> evSequence e = int (length es) \<Longrightarrow>
     numbered (es @ [e]) \<and> ends_once (es @ [e]) \<and> has_terminal (es @ [e])"
  by (simp add: numbered_snoc ends_once_def has_terminal_def)

text \<open>The terminal event stored with a terminal status.\<close>

lemma sound_ended:
  assumes "numbered es" and "\<not> has_terminal es" and "isTerminalEventType (evType e)"
    and "evSequence e = int (length es)"
    and "session_events (wDb v) sid = es @ [e]"
    and "\<And>row. dbSessions (wDb v) sid = Some row \<Longrightarrow> isTerminalStatus (rowStatus row)"
    and "sid \<notin> set (regOrder (wReg v))"
    and "\<And>a. regObjects (wReg v) sid = Some a \<Longrightarrow> acFinalized a"
  shows "sound v sid"
  using numbered_ends [OF assms(1-4)] assms(5-)
  by (simp add: sound_def session_ok_def stream_ok_def object_ok_def)

lemma finalizeRow_row:
  "finalizeRow ok sid ff now d = Some d' \<Longrightarrow>
     dbSessions d' sid = Some row \<Longrightarrow> rowStatus row = ffStatus ff"
  by (auto simp: finalizeRow_def split: if_splits)

lemma appendOutput_status:
  "dbSessions (appendOutput sid x y d) sid = Some row \<Longrightarrow>
     \<exists>r. dbSessions d sid = Some r \<and> rowStatus r = rowStatus row"
  by (auto simp: appendOutput_def split: if_splits)

lemma final_transaction_row:
  assumes "final_transaction mo sid ff x y ev n d = (Some d', n')" and "dbSessions d' sid = Some row"
  shows "rowStatus row = ffStatus ff"
proof -
  from assms(1) obtain d1 where d1: "finalizeRow (moUpdate mo) sid ff (moNow mo) d = Some d1"
      "insertEvent (moInsert mo (evId ev)) (ev \<lparr>evSequence := n\<rparr>) (appendOutput sid x y d1) = Some d'"
    by (auto simp: final_transaction_def split: if_splits option.splits)
  from insertEvent_Some [OF d1(2)] assms(2) have "dbSessions (appendOutput sid x y d1) sid = Some row"
    by simp
  from appendOutput_status [OF this] finalizeRow_row [OF d1(1)] show ?thesis by auto
qed

lemma sound_finish:
  assumes "closing w sid" and "isTerminalEventType (evType ev)" and "evSessionId ev = sid"
    and "isTerminalStatus (ffStatus ff)"
  shows "sound (finish mo sid ff x y ev w) sid"
proof -
  obtain a where a: "regObjects (wReg w) sid = Some a" "acFinalized a" "sid \<in> set (regOrder (wReg w))"
    "faulty w sid \<or> numbered (session_events (wDb w) sid) \<and> \<not> has_terminal (session_events (wDb w) sid) \<and>
         acNextSeq a = int (length (session_events (wDb w) sid))"
    using assms(1) by (auto simp: closing_def)
  obtain c n' where t: "final_transaction mo sid ff x y ev (acNextSeq a) (wDb w) = (c, n')"
    by (metis surj_pair)
  show ?thesis
  proof (cases c)
    case None
    with t a(1) show ?thesis by (simp add: finish_def Let_def sound_def faulty_def)
  next
    case (Some d)
    let ?e = "ev \<lparr>evSequence := acNextSeq a\<rparr>"
    have f: "finish mo sid ff x y ev w =
        remove_active sid (upd_active sid (\<lambda>s. s \<lparr>acNextSeq := n'\<rparr>) w \<lparr>wDb := d, wBus := wBus w @ [?e]\<rparr>)"
      using t a(1) Some by (simp add: finish_def Let_def)
    show ?thesis
    proof (cases "faulty w sid")
      case True
      then show ?thesis by (simp add: f sound_def faulty_def)
    next
      case False
      have ev: "session_events d sid = session_events (wDb w) sid @ [?e]"
        using final_transaction_events [OF t [unfolded Some]] assms(3) by (simp add: session_events_def)
      show ?thesis
        by (rule sound_ended [where e = ?e and es = "session_events (wDb w) sid"])
           (use False a assms(2,4) final_transaction_row [OF t [unfolded Some]] in
             \<open>auto simp: f ev reg_delete_objects\<close>)
    qed
  qed
qed

lemma final_type_terminal: "isTerminalEventType (final_type st)"
  by (cases st) simp_all

lemma decideStatus_terminal: "isTerminalStatus (fst (decideStatus a ec))"
  by (simp add: decideStatus_def failed_because_def isTerminalStatus_cases)

lemma sound_finalize:
  assumes "alive w sid"
  shows "sound (finalize cf mo sid code sc w) sid"
proof (cases rule: finalize_cases [of w sid cf mo code sc])
  case 1
  with assms show ?thesis by (simp add: alive_def)
next
  case (2 ff x y p ec)
  have "closing (snd (fresh_id cf ''evt''
          (forgetActiveIdentities (the (regObjects (wReg w) sid))
            (stop_sampling sid None
              (drop_buffers sid (upd_active sid (\<lambda>s. s \<lparr>acFinalized := True\<rparr>) w)))))) sid"
    by (rule alive_closing [OF assms]) simp_all
  then show ?thesis
    unfolding 2(3)
    by (rule sound_finish)
       (simp_all add: gatewayEvent_def final_type_terminal 2(2) decideStatus_terminal)
qed

lemma emit_registered:
  "regObjects (wReg v) sid = Some a \<Longrightarrow> sid \<in> set (regOrder (wReg v)) \<Longrightarrow> evSessionId e = sid \<Longrightarrow>
     emit mo e v = store_event mo (e \<lparr>evSequence := acNextSeq a\<rparr>)
       (upd_active sid (\<lambda>s. s \<lparr>acNextSeq := acNextSeq s + 1\<rparr>) v)"
  by (simp add: emit_def reg_get_def)

lemma sound_failed:
  assumes "alive w sid" and "finalizeFailed cf mo sid reason w = Done w'"
  shows "sound w' sid"
proof (cases rule: finalizeFailed_cases [where w = w and sid = sid and cf = cf and mo = mo and reason = reason])
  case 1
  with assms show ?thesis by (simp add: alive_def)
next
  case 2
  with assms(2) show ?thesis by simp
next
  case (3 ff d e)
  from finalizeRow_Some [OF 3(3)] obtain f where d: "d = update_row sid f (wDb w)" by blast
  let ?v = "snd (fresh_id cf ''evt'' (forgetActiveIdentities (the (regObjects (wReg w) sid))
     (stop_sampling sid None (upd_active sid (\<lambda>s. s \<lparr>acFinalized := True\<rparr>) w)) \<lparr>wDb := d\<rparr>))"
  have w': "w' = remove_active sid (emit mo e ?v)" using 3(7) assms(2) by simp
  have "closing ?v sid" by (rule alive_closing [OF assms(1)]) (simp_all add: d)
  then obtain a where a: "regObjects (wReg ?v) sid = Some a" "acFinalized a" "sid \<in> set (regOrder (wReg ?v))"
    "faulty ?v sid \<or> numbered (session_events (wDb ?v) sid) \<and> \<not> has_terminal (session_events (wDb ?v) sid) \<and>
         acNextSeq a = int (length (session_events (wDb ?v) sid))"
    unfolding closing_def by blast
  let ?e = "e \<lparr>evSequence := acNextSeq a\<rparr>"
  let ?u = "upd_active sid (\<lambda>s. s \<lparr>acNextSeq := acNextSeq s + 1\<rparr>) ?v"
  have em: "emit mo e ?v = store_event mo ?e ?u"
    by (rule emit_registered [OF a(1,3) 3(4)])
  show ?thesis
  proof (cases "insertEvent (moInsert mo (evId e)) ?e (wDb ?v)")
    case None
    then have "faulty w' sid" using 3(4) by (simp add: w' em store_event_def faulty_def)
    then show ?thesis by (simp add: sound_def)
  next
    case (Some d')
    then have st: "emit mo e ?v = ?u \<lparr>wDb := d', wBus := wBus ?v @ [?e]\<rparr>"
      by (simp add: em store_event_def)
    from insertEvent_Some [OF Some] have d': "d' = d \<lparr>dbEvents := dbEvents d @ [?e]\<rparr>" by simp
    have ev: "session_events d' sid = session_events d sid @ [?e]"
      using 3(4) by (simp add: session_events_def d')
    have row: "isTerminalStatus (rowStatus row)" if "dbSessions d' sid = Some row" for row
      using finalizeRow_row [OF 3(3), of row] that 3(2) by (simp add: d' isTerminalStatus_cases)
    show ?thesis
    proof (cases "faulty ?v sid")
      case True
      then show ?thesis by (simp add: w' st sound_def faulty_def)
    next
      case False
      show ?thesis
        by (rule sound_ended [where e = ?e and es = "session_events d sid"])
           (use False a row 3(5) in \<open>auto simp: w' st ev reg_delete_objects\<close>)
    qed
  qed
qed


lemma maxSequence_numbered:
  assumes "numbered (session_events d sid)"
  shows "maxSequence d sid = int (length (session_events d sid)) - 1"
proof -
  have "fold max (map evSequence es) (- 1) = int (length es) - 1" if "numbered es" for es
    using that
  proof (induction es rule: rev_induct)
    case (snoc e es)
    then show ?case by (simp add: numbered_snoc)
  qed simp
  from this [OF assms] show ?thesis by (simp add: maxSequence_def)
qed

lemma sound_record:
  assumes ok: "session_ok w sid" and off: "sid \<notin> set (regOrder (wReg w))"
    and res: "snd (finalize_record cf mo sid reason kind w) = Done w'"
  shows "sound w' sid"
proof (cases rule: finalize_record_cases [of cf mo sid reason kind w])
  case 1
  with res ok show ?thesis by (simp add: sound_def)
next
  case 2
  with res have "w' = snd (fresh_id cf ''evt'' w)" by simp
  with ok keeps_session_ok [OF keeps_append(3) ok] show ?thesis by (simp add: sound_def)
next
  case (3 r ff d1 e d v)
  from 3(1) have r: "dbSessions (wDb w) sid = Some r" by (simp add: findById_def)
  with ok have s: "stream_ok w sid r" "\<And>a. regObjects (wReg w) sid = Some a \<Longrightarrow> object_ok w sid r a"
    by (auto simp: session_ok_def)
  have none: "regObjects (wReg w) sid = None"
    using s(2) off 3(2) by (cases "regObjects (wReg w) sid") (auto simp: object_ok_def)
  from s(1) 3(2) have n: "numbered (session_events (wDb w) sid)" "\<not> has_terminal (session_events (wDb w) sid)"
    by (simp_all add: stream_ok_def)
  from finalizeRow_Some [OF 3(3)] obtain f where d1: "d1 = update_row sid f (wDb w)" by blast
  from insertEvent_Some [OF 3(5)] have d: "d = d1 \<lparr>dbEvents := dbEvents d1 @ [e]\<rparr>" by simp
  have w': "wDb w' = d" "wReg w' = wReg w" using 3 res by simp_all
  have row: "isTerminalStatus (rowStatus row)" if "dbSessions d sid = Some row" for row
    using finalizeRow_row [OF 3(3), of row] that 3(4) by (simp add: d isTerminalStatus_cases)
  show ?thesis
    by (rule sound_ended [where e = e and es = "session_events (wDb w) sid"])
       (use n 3(6,7,8) none off row maxSequence_numbered [OF n(1)] in
         \<open>auto simp: w' d d1 session_events_def\<close>)
qed

section \<open>The start of a session\<close>

lemma createWithFirstEvent_row:
  assumes "world_ok w" and "createWithFirstEvent b (creation i r g sid evid now) (wDb w) = Some d"
  shows "\<exists>row e. dbSessions d sid = Some row \<and> rowStatus row = CREATED \<and> session_events d sid = [e] \<and>
     evType e = Execution_created \<and> evSequence e = 0 \<and> regObjects (wReg w) sid = None \<and>
     sid \<notin> set (regOrder (wReg w))"
proof -
  from world_ok_create [OF assms] have new: "dbSessions (wDb w) sid = None" by simp
  then have "session_events (wDb w) sid = []"
    using assms(1) by (auto simp: world_ok_def db_ok_def session_events_def filter_empty_conv)
  moreover have none: "regObjects (wReg w) sid = None"
    using assms(1) new unfolding world_ok_def objects_ok_def by (metis option.exhaust)
  moreover have "sid \<notin> set (regOrder (wReg w))"
    using assms(1) none by (auto simp: world_ok_def reg_ok_def)
  ultimately show ?thesis
    using assms(2) createWithFirstEvent_events [OF assms(2)]
    by (auto simp: createWithFirstEvent_def creation_def gatewayEvent_def Let_def session_events_def
        split: if_splits dest!: insertEvent_Some)
qed

lemma sound_start:
  assumes ok: "world_ok w" and s: "sound w (cfNewId cf ''exec'' (wFresh w))"
    and res: "snd (start cf mo g se i w) = Done w'"
  shows "sound w' (cfNewId cf ''exec'' (wFresh w))"
proof (cases rule: start_cases [of w cf mo g se i])
  case (1 v)
  with res have "keeps sid w w'" for sid by (intro keeps_cong) simp_all
  with s show ?thesis by (rule keeps_sound [rotated])
next
  case (2 b rr rec evid v reason extra)
  let ?sid = "cfNewId cf ''exec'' (wFresh w)"
  from createWithFirstEvent_row [OF ok 2(1)] obtain row e where c: "dbSessions (wDb v) ?sid = Some row"
    "rowStatus row = CREATED" "session_events (wDb v) ?sid = [e]" "evType e = Execution_created"
    "evSequence e = 0" "regObjects (wReg v) ?sid = None" "?sid \<notin> set (regOrder (wReg v))"
    using 2(2) by auto
  show ?thesis
  proof (cases rule: failBeforeStart_cases [of cf mo ?sid reason 1 extra v])
    case (3 ff d1 f d u)
    from finalizeRow_Some [OF 3(1)] obtain h where d1: "d1 = update_row ?sid h (wDb v)" by blast
    from insertEvent_Some [OF 3(3)] have d: "d = d1 \<lparr>dbEvents := dbEvents d1 @ [f]\<rparr>" by simp
    have w': "wDb w' = d" "wReg w' = wReg v" using 2 3 res by simp_all
    have row: "isTerminalStatus (rowStatus x)" if "dbSessions d ?sid = Some x" for x
      using finalizeRow_row [OF 3(1), of x] that 3(2) by (simp add: d isTerminalStatus_cases)
    show ?thesis
      by (rule sound_ended [where e = f and es = "[e]"])
         (use c 3(4,5,6) row in \<open>auto simp: w' d d1 session_events_def numbered_def has_terminal_def\<close>)
  qed (use 2 res in simp_all)
next
  case (3 b rr rec evid v)
  let ?sid = "cfNewId cf ''exec'' (wFresh w)"
  from createWithFirstEvent_row [OF ok 3(1)] obtain row e where c: "dbSessions (wDb v) ?sid = Some row"
    "rowStatus row = CREATED" "session_events (wDb v) ?sid = [e]" "evType e = Execution_created"
    "evSequence e = 0" "regObjects (wReg v) ?sid = None" "?sid \<notin> set (regOrder (wReg v))"
    using 3(2) by auto
  let ?v = "snd (fresh_id cf ''evt'' (v \<lparr>wBuffers := (wBuffers v)((Stdout, ?sid) \<mapsto> empty_buffer,
      (Stderr, ?sid) \<mapsto> empty_buffer), wReg := reg_add (new_active i ?sid (moNow mo)) (wReg v)\<rparr>))"
  have "alive ?v ?sid"
    using c by (simp add: alive_def sound_def session_ok_def stream_ok_def object_ok_def live_def
        reg_add_def new_active_def numbered_def ends_once_def has_terminal_def isTerminalStatus_cases)
  then have "alive (upd_active ?sid (\<lambda>s. s \<lparr>acState := RUNNING, acKillTimer := True\<rparr>)
      (emit mo (gatewayEvent ?sid 0 (cfNewId cf ''evt'' (wFresh v)) (moNow mo) Gateway Execution_started
         (started_payload cf i) None) ?v)) ?sid"
    by (intro alive_upd alive_emit) (simp_all add: gatewayEvent_def)
  then show ?thesis
    using 3(5) res by (simp add: spawnFor_def Let_def split_beta alive_def)
qed

section \<open>Every undisturbed step keeps the lifecycle\<close>

lemma alive_registered:
  assumes "world_ok w" and "session_ok w sid" and "sid \<in> set (regOrder (wReg w))"
  shows "alive w sid"
proof -
  from assms(1,3) obtain a where a: "regObjects (wReg w) sid = Some a"
    unfolding world_ok_def reg_ok_def by blast
  with assms(1) obtain row where "dbSessions (wDb w) sid = Some row"
    unfolding world_ok_def objects_ok_def by blast
  with assms a show ?thesis
    by (auto simp: alive_def live_def sound_def session_ok_def object_ok_def)
qed

lemma finalized_off:
  assumes "world_ok w" and "session_ok w sid" and "regObjects (wReg w) sid = Some a"
  shows "acFinalized a \<longleftrightarrow> sid \<notin> set (regOrder (wReg w))"
proof -
  from assms(1,3) obtain row where "dbSessions (wDb w) sid = Some row"
    unfolding world_ok_def objects_ok_def by blast
  with assms(2,3) show ?thesis by (auto simp: session_ok_def object_ok_def)
qed

lemma keeps_terminateActive: "keeps sid w (snd (terminateActive mo s sg w))"
  by (rule keeps_cong) simp_all

lemma keeps_arm: "keeps sid w (arm_escalation s r w)"
  by (rule keeps_cong) simp_all

lemma keeps_timeout: "keeps sid w (handleTimeout mo s w)"
  by (auto simp: handleTimeout_def Let_def split_beta intro!: keeps_upd
      keeps_trans [OF _ keeps_arm] keeps_trans [OF _ keeps_upd] keeps_trans [OF _ keeps_terminateActive])

lemma keeps_terminate: "keeps sid w (snd (requestTerminate mo s sg w))"
  by (auto simp: requestTerminate_def Let_def split_beta intro!: keeps_upd keeps_terminateActive
      keeps_trans [OF _ keeps_arm] keeps_trans [OF _ keeps_upd])

lemma sound_sample:
  assumes "world_ok w" and "session_ok w sid"
  shows "sound (publishSnapshot cf mo sid pid p w) sid"
proof (cases "reg_get (wReg w) sid")
  case None
  with assms show ?thesis by (simp add: publishSnapshot_def sound_def)
next
  case (Some a)
  with assms have "alive w sid" by (auto dest!: reg_get_object intro: alive_registered)
  with keeps_alive [OF keeps_append(3) this, of cf "''evt''"] show ?thesis
    using Some by (auto simp: publishSnapshot_def Let_def split_beta gatewayEvent_def alive_def
        intro: sound_emit [THEN conjunct1])
qed

lemma sound_close:
  assumes "world_ok w" and "session_ok w sid" and "has_object w sid"
    and calm: "sid \<in> set (regOrder (wReg w)) \<or> acStderrLineBuffer (the (regObjects (wReg w) sid)) = []"
    and res: "onClose cf mo sid code sc w = Done w'"
  shows "sound w' sid"
proof (cases "sid \<in> set (regOrder (wReg w))")
  case True
  let ?v = "upd_active sid (\<lambda>s. s \<lparr>acKillTimer := False\<rparr>) w"
  have "alive (world_of (flushStderrTail cf mo sid ?v)) sid"
    using alive_registered [OF assms(1,2) True] by (intro alive_flush alive_upd) simp_all
  with res show ?thesis
    by (cases "flushStderrTail cf mo sid ?v") (auto simp: onClose_def intro: sound_finalize)
next
  case False
  obtain a where a: "regObjects (wReg w) sid = Some a" "acFinalized a" "acStderrLineBuffer a = []"
    using assms(1-3) calm False by (auto simp: has_object_def dest: finalized_off)
  then have "w' = upd_active sid (\<lambda>s. s \<lparr>acStderrLineBuffer := []\<rparr>)
      (upd_active sid (\<lambda>s. s \<lparr>acKillTimer := False\<rparr>) w)"
    using res by (simp add: onClose_def flushStderrTail_def Let_def finalize_def)
  then have "keeps sid w w'" by (simp add: keeps_trans [OF keeps_upd keeps_upd])
  with assms(2) show ?thesis by (simp add: sound_def keeps_session_ok)
qed

lemma sound_failed_any:
  assumes "world_ok w" and "session_ok w sid" and "has_object w sid"
    and "finalizeFailed cf mo sid reason w = Done w'"
  shows "sound w' sid"
proof (cases "sid \<in> set (regOrder (wReg w))")
  case True
  from sound_failed [OF alive_registered [OF assms(1,2) True] assms(4)] show ?thesis .
next
  case False
  with assms have "w' = w"
    by (auto simp: has_object_def finalizeFailed_def dest: finalized_off)
  with assms(2) show ?thesis by (simp add: sound_def)
qed

lemma sound_perform:
  assumes ok: "world_ok w" and s: "sound w sid" and "enabled a w" and "undisturbed sid a w"
    and res: "perform cf a w = Done w'"
  shows "sound w' sid"
proof (cases "about cf a w sid \<and> \<not> faulty w sid")
  case False
  from res have w': "world_of (perform cf a w) = w'" by simp
  show ?thesis
  proof (cases "faulty w sid")
    case True
    with grows_faulty [OF grows_perform, of w sid cf a] show ?thesis by (simp add: sound_def w')
  next
    case off: False
    with False have "untouched sid w w'" using untouched_perform [of cf a w sid] by (simp add: w')
    from sound_untouched [OF this s] show ?thesis .
  qed
next
  case True
  with s have ses: "session_ok w sid" by (simp add: sound_def)
  note k = keeps_session_ok [OF _ ses]
  show ?thesis
  proof (cases a)
    case (Start mo g se i)
    with True res sound_start [OF ok, of cf mo g se i w'] s show ?thesis by simp
  next
    case (Child_stderr mo t chunk)
    with True assms(4) have "sid \<in> set (regOrder (wReg w))" by simp
    from alive_stderr [OF alive_registered [OF ok ses this], of cf mo chunk] Child_stderr True res
    show ?thesis by (simp add: alive_def)
  next
    case (Child_stdout mo t chunk)
    with True res have "keeps sid w w'"
      by (auto simp: onStdout_def intro!: keeps_trans [OF keeps_upd keeps_append(1)])
    with k show ?thesis by (simp add: sound_def)
  next
    case (Child_error mo t m)
    with True assms(3) res sound_failed_any [OF ok ses] show ?thesis by (simp add: onError_def)
  next
    case (Child_close mo t c sc)
    with True assms(3,4) res sound_close [OF ok ses] show ?thesis by simp
  next
    case (Abandon mo t reason kind)
    have "has_object w sid" if "sid \<in> set (regOrder (wReg w))"
      using ok that by (auto simp: world_ok_def reg_ok_def has_object_def)
    with Abandon True res show ?thesis
      using sound_record [OF ses] sound_failed_any [OF ok ses] finalized_off [OF ok ses]
      by (auto simp: finalizeAbandoned_def reg_get_def has_object_def split: option.splits if_splits)
  next
    case (Sample mo t q p)
    with True res sound_sample [OF ok ses] show ?thesis by auto
  next
    case (Sweep now st)
    with True assms(4) show ?thesis by simp
  next
    case Restart
    with res ses show ?thesis by (auto simp: sound_def session_ok_def stream_ok_def restart_def)
  qed (use True res k keeps_timeout keeps_terminate keeps_upd in \<open>auto simp: sound_def\<close>)
qed


lemma calm_run_sound: "calm_run cf sid as w \<Longrightarrow> sound w sid"
proof (induction rule: calm_run.induct)
  case start
  show ?case by (simp add: boot_def sound_def session_ok_def)
next
  case (step as w a w')
  from reachable_ok [OF calm_run_reachable [OF step.hyps(1)]] step.IH step.hyps(2-4)
  show ?case by (rule sound_perform)
qed

section \<open>A calm run's replay is valid\<close>

lemma numbered_sorted: "numbered es \<Longrightarrow> sort_key evSequence es = es"
  using numbered_increasing [of es] by (simp add: sort_key_id_if_sorted strict_sorted_iff)

lemma stored_lifecycle:
  assumes "calm_run cf sid as w" and "\<not> faulty w sid" and "dbSessions (wDb w) sid = Some row"
  shows "listAllForSession (wDb w) sid = session_events (wDb w) sid"
    and "numbered (listAllForSession (wDb w) sid)" and "ends_once (listAllForSession (wDb w) sid)"
    and "has_terminal (listAllForSession (wDb w) sid) = isTerminalStatus (rowStatus row)"
proof -
  from calm_run_sound [OF assms(1)] assms(2,3) have s: "stream_ok w sid row"
    by (simp add: sound_def session_ok_def)
  then show e: "listAllForSession (wDb w) sid = session_events (wDb w) sid"
    by (simp add: listAllForSession_def numbered_sorted stream_ok_def)
  from s show "numbered (listAllForSession (wDb w) sid)" "ends_once (listAllForSession (wDb w) sid)"
    "has_terminal (listAllForSession (wDb w) sid) = isTerminalStatus (rowStatus row)"
    by (simp_all add: e stream_ok_def)
qed


lemma calm_violations:
  assumes "calm_run cf sid as w" and "\<not> faulty w sid" and "dbSessions (wDb w) sid = Some row"
  shows "vInvariant ` set (vrViolations
      (validateEventStream (listAllForSession (wDb w) sid) (Some (rowStatus row)))) \<subseteq>
    {I11_no_orphan_process_lifecycle, I12_success_has_process_exit, I13_payload_not_corrupt,
     I14_pipeline_stages_accounted}"
proof -
  let ?s = "listAllForSession (wDb w) sid"
  note l = stored_lifecycle [OF assms]
  note r = replay_checks [OF reachable_ok [OF calm_run_reachable [OF assms(1)]], of sid]
  have "check_contiguous 0 ?s = []"
    using check_contiguous_ok [of 0 ?s] l(2) by (simp add: numbered_def)
  moreover have "check_terminal ?s = []" using check_terminal_ok [OF l(2)] l(3) by simp
  moreover have "check_status (Some (rowStatus row)) ?s = []" using l(4) by (simp add: check_status_ok)
  ultimately show ?thesis
    unfolding validateEventStream_def Let_def sorted_stream_replay stream_violations_def
    using assms(3) check_ids(4-8) by (fastforce simp: r)
qed

text \<open>C5: The lifecycle of a session, end to end. In every run whose losses were not logged for a
  session, that did not sweep it while it was running and whose child wrote nothing to its stderr
  after its end was recorded, the stored stream of the session is complete: its sequences are
  0, 1, 2, ... without a gap, it has a terminal event exactly when its row has a terminal status,
  that event is the last one, and nothing was stored after it. Of the validator's invariants only
  those about what the engine itself reported (I11, I12, I13, I14) can fail.\<close>
theorem calm_stream_valid:
  assumes "calm_run cf sid as w" and "\<not> faulty w sid" and "findById (wDb w) sid = Some row"
  shows "map evSequence (listAllForSession (wDb w) sid) =
      map int [0..<length (listAllForSession (wDb w) sid)] \<and>
    vInvariant ` set (vrViolations
      (validateEventStream (listAllForSession (wDb w) sid) (Some (rowStatus row)))) \<subseteq>
    {I11_no_orphan_process_lifecycle, I12_success_has_process_exit, I13_payload_not_corrupt,
     I14_pipeline_stages_accounted}"
  using stored_lifecycle(2) [OF assms(1,2)] calm_violations [OF assms(1,2)] assms(3)
  by (simp add: findById_def numbered_def)

section \<open>The end of the child is the end of the session\<close>

lemma finish_order: "regOrder (wReg (finish mo sid ff x y ev w)) = filter (\<lambda>k. k \<noteq> sid) (regOrder (wReg w))"
  by (simp add: finish_def Let_def split_beta split: option.split)

lemma close_removes:
  assumes "alive w sid" and "onClose cf mo sid code sc w = Done w'"
  shows "sid \<notin> set (regOrder (wReg w')) \<and> has_object w' sid"
proof -
  let ?v = "upd_active sid (\<lambda>s. s \<lparr>acKillTimer := False\<rparr>) w"
  obtain u where u: "flushStderrTail cf mo sid ?v = Done u" "w' = finalize cf mo sid code sc u"
    using assms(2) by (cases "flushStderrTail cf mo sid ?v") (simp_all add: onClose_def)
  have "alive (world_of (flushStderrTail cf mo sid ?v)) sid"
    using assms(1) by (intro alive_flush alive_upd) simp_all
  with u have live: "live u sid" by (simp add: alive_def)
  then show ?thesis
    unfolding u(2)
    by (cases rule: finalize_cases [of u sid cf mo code sc])
       (auto simp: live_def finish_order has_object_def finish_def Let_def split_beta reg_delete_objects
         split: option.split)
qed

text \<open>C6: When, in an undisturbed run, the child of a running session closes and its handler returns,
  the session leaves the registry, whether or not its last transaction could be stored.  Unless the
  loss of an event of the session was logged, its row then has a terminal status and its stored
  stream ends with its one terminal event; after a loss neither is claimed.\<close>
theorem close_settles:
  assumes "calm_run cf sid as w" and "live w sid"
    and "perform cf (Child_close mo sid code sc) w = Done w'"
  shows "reg_get (wReg w') sid = None \<and>
    (\<not> faulty w' sid \<longrightarrow>
      (\<exists>row. findById (wDb w') sid = Some row \<and> isTerminalStatus (rowStatus row) \<and>
         isTerminalEventType (evType (last (listAllForSession (wDb w') sid)))))"
proof (intro conjI impI)
  from assms(2) obtain a where a: "regObjects (wReg w) sid = Some a" "sid \<in> set (regOrder (wReg w))"
    by (auto simp: live_def)
  from reachable_ok [OF calm_run_reachable [OF assms(1)]] a(1)
  have "dbSessions (wDb w) sid \<noteq> None" unfolding world_ok_def objects_ok_def by auto
  then have al: "alive w sid" using assms(2) calm_run_sound [OF assms(1)] by (simp add: alive_def)
  have off: "sid \<notin> set (regOrder (wReg w'))" "has_object w' sid"
    using close_removes [OF al] assms(3) by auto
  then show "reg_get (wReg w') sid = None" by (simp add: reg_get_def)
  have run: "calm_run cf sid (as @ [Child_close mo sid code sc]) w'"
    by (rule calm_run.step [OF assms(1)]) (use a assms(3) in \<open>simp_all add: has_object_def\<close>)
  have ok: "world_ok w'" by (rule reachable_ok [OF calm_run_reachable [OF run]])
  from off(2) obtain b where b: "regObjects (wReg w') sid = Some b" by (auto simp: has_object_def)
  with ok obtain row where row: "dbSessions (wDb w') sid = Some row"
    unfolding world_ok_def objects_ok_def by blast
  assume clean: "\<not> faulty w' sid"
  then have "session_ok w' sid" using calm_run_sound [OF run] by (simp add: sound_def)
  with b row off have t: "isTerminalStatus (rowStatus row)" by (auto simp: session_ok_def object_ok_def)
  note l = stored_lifecycle [OF run clean row]
  from l(4) t obtain e where "e \<in> set (listAllForSession (wDb w') sid)" "isTerminalEventType (evType e)"
    by (auto simp: has_terminal_def)
  with l(3) have "isTerminalEventType (evType (last (listAllForSession (wDb w') sid)))"
    by (cases "listAllForSession (wDb w') sid" rule: rev_cases) (auto simp: ends_once_def)
  with t row show "\<exists>row. findById (wDb w') sid = Some row \<and> isTerminalStatus (rowStatus row) \<and>
      isTerminalEventType (evType (last (listAllForSession (wDb w') sid)))"
    by (simp add: findById_def)
qed

end
