(* ===== verification/Verdict_Evidence.thy ===== *)
theory Verdict_Evidence
  imports Session_Lifecycle
begin

text \<open>
  Where a verdict comes from.  \<open>evident\<close> is the invariant that every engine outcome a session
  object carries, and every row that says COMPLETED, is backed by an event of the engine in the
  session's stored stream; \<open>mild\<close> is a step that brings in neither an outcome nor a completed
  row, and the only steps that are not are the observation of an event just stored and
  \<open>finalize\<close>.
\<close>

section \<open>The verdict\<close>

definition no_failure :: "active_session \<Rightarrow> bool" where
  "no_failure a \<longleftrightarrow> \<not> acTimedOut a \<and> \<not> acSawExecError a \<and> \<not> acSawWaitFailure a \<and>
     \<not> acSawLaunchFailure a \<and> acSignal a = None"

lemma decideStatus_completed:
  "fst (decideStatus a ec) = COMPLETED \<longleftrightarrow> no_failure a \<and> acEngineOutcome a = Some ''COMPLETED''"
  by (auto simp: decideStatus_def failed_because_def no_failure_def)

section \<open>What the log says of an outcome\<close>

definition witnessed :: "world \<Rightarrow> string \<Rightarrow> string \<Rightarrow> bool" where
  "witnessed w sid x \<longleftrightarrow>
     (\<exists>e \<in> set (session_events (wDb w) sid). evSource e = Caps \<and> payload_str e ''outcome'' = Some x)"

definition evident :: "world \<Rightarrow> string \<Rightarrow> bool" where
  "evident w sid \<longleftrightarrow> faulty w sid \<or>
     (\<forall>a x. regObjects (wReg w) sid = Some a \<longrightarrow> acEngineOutcome a = Some x \<longrightarrow> witnessed w sid x) \<and>
     (\<forall>row. dbSessions (wDb w) sid = Some row \<longrightarrow> rowStatus row = COMPLETED \<longrightarrow>
        witnessed w sid ''COMPLETED'')"

text \<open>A step that adds no outcome to an object and no completed row.\<close>

definition mild :: "string \<Rightarrow> world \<Rightarrow> world \<Rightarrow> bool" where
  "mild sid w w' \<longleftrightarrow>
     set (session_events (wDb w) sid) \<subseteq> set (session_events (wDb w') sid) \<and>
     (faulty w sid \<longrightarrow> faulty w' sid) \<and>
     (\<forall>a' x. regObjects (wReg w') sid = Some a' \<and> acEngineOutcome a' = Some x \<longrightarrow>
        (\<exists>a. regObjects (wReg w) sid = Some a \<and> acEngineOutcome a = Some x)) \<and>
     (\<forall>r'. dbSessions (wDb w') sid = Some r' \<and> rowStatus r' = COMPLETED \<longrightarrow>
        (\<exists>r. dbSessions (wDb w) sid = Some r \<and> rowStatus r = COMPLETED))"

lemma mild_refl [simp]: "mild sid w w"
  by (auto simp: mild_def)

lemma mild_trans: "mild sid w v \<Longrightarrow> mild sid v u \<Longrightarrow> mild sid w u"
  unfolding mild_def by blast

lemma mild_evident: "mild sid w w' \<Longrightarrow> evident w sid \<Longrightarrow> evident w' sid"
  unfolding mild_def evident_def witnessed_def by blast

lemma mild_untouched: "untouched sid w w' \<Longrightarrow> mild sid w w'"
  by (simp add: mild_def untouched_def)

lemma mild_cong: "wDb w' = wDb w \<Longrightarrow> wReg w' = wReg w \<Longrightarrow> wFaults w' = wFaults w \<Longrightarrow> mild sid w w'"
  by (rule mild_untouched [OF untouched_cong])

definition same_outcome :: "(active_session \<Rightarrow> active_session) \<Rightarrow> bool" where
  "same_outcome f \<longleftrightarrow> (\<forall>s. acEngineOutcome (f s) = acEngineOutcome s)"

lemma same_outcome_simps [simp]:
  "same_outcome (\<lambda>s. s \<lparr>acNextSeq := n s\<rparr>)" "same_outcome (\<lambda>s. s \<lparr>acFinalized := b\<rparr>)"
  "same_outcome (\<lambda>s. s \<lparr>acStderrLineBuffer := x\<rparr>)"
  "same_outcome (\<lambda>s. s \<lparr>acStderrBytes := f s, acLastEventAt := t\<rparr>)"
  "same_outcome (\<lambda>s. s \<lparr>acStdoutBytes := f s, acLastEventAt := t\<rparr>)"
  "same_outcome (\<lambda>s. s \<lparr>acSawSummary := b\<rparr>)" "same_outcome (\<lambda>s. s \<lparr>acProcessLive := b\<rparr>)"
  "same_outcome (\<lambda>s. s \<lparr>acKillTimer := b\<rparr>)" "same_outcome (\<lambda>s. s \<lparr>acState := st, acKillTimer := b\<rparr>)"
  "same_outcome (\<lambda>s. s \<lparr>acTimedOut := b, acState := st\<rparr>)"
  "same_outcome (\<lambda>s. s \<lparr>acChildIdentity := i s, acEscalation := b\<rparr>)"
  "same_outcome (\<lambda>s. s \<lparr>acTerminateRequested := b, acChildIdentity := i s, acEscalation := c\<rparr>)"
  "same_outcome (\<lambda>s. s \<lparr>acState := st, acChildPid := p, acProcessStartedAt := q, acProcessReaped := b\<rparr>)"
  "same_outcome (\<lambda>s. s \<lparr>acChildIdentity := j, acOwned := g s\<rparr>)"
  "same_outcome (\<lambda>s. s \<lparr>acChildPgid := k, acChildGroupLeader := h s\<rparr>)"
  "same_outcome (note_signal ev)"
  by (simp_all add: same_outcome_def note_signal_def)

lemma mild_upd: "same_outcome f \<Longrightarrow> mild sid w (upd_active s f w)"
  by (cases "regObjects (wReg w) s") (auto simp: mild_def faulty_def same_outcome_def)

lemma mild_remove: "mild sid w (remove_active s w)"
  by (auto simp: mild_def faulty_def reg_delete_objects split: if_splits)

lemma mild_store: "mild sid w (store_event mo e w)"
  by (cases "insertEvent (moInsert mo (evId e)) e (wDb w)")
     (auto simp: store_event_def mild_def faulty_def session_events_def dest!: insertEvent_Some)

lemma mild_emit: "mild sid w (emit mo e w)"
  by (auto simp: emit_def split: option.split intro: mild_store
      intro!: mild_trans [OF mild_upd mild_store])

lemma mild_emit_untyped: "mild sid w (emit_untyped s n w)"
  by (auto simp: emit_untyped_def Let_def mild_def faulty_def split: option.split)

lemma mild_row:
  "wDb w' = update_row s f (wDb w) \<Longrightarrow> (\<And>r. rowStatus (f r) = COMPLETED \<Longrightarrow> rowStatus r = COMPLETED) \<Longrightarrow>
     wReg w' = wReg w \<Longrightarrow> wFaults w' = wFaults w \<Longrightarrow> mild sid w w'"
  by (auto simp: mild_def faulty_def)

lemma mild_and_then:
  "mild sid w (world_of r) \<Longrightarrow> (\<And>v. mild sid v (world_of (f v))) \<Longrightarrow>
     mild sid w (world_of (and_then r f))"
  by (cases r) (auto intro: mild_trans)

lemma mild_append [simp]:
  "mild sid w (append_output cf ch s t w)" "mild sid w (append_line cf s t w)"
  "mild sid w (snd (fresh_id cf p w))" "mild sid v (start_sampling s q v)" "mild sid v (stop_sampling s q' v)"
  by (auto intro: mild_cong)

section \<open>Observing a stored event\<close>

lemma mild_started: "mild sid w (world_of (observe_started mo s ev w))"
proof -
  have g: "mild sid v (observe_group s ev v)" for v
    by (simp add: observe_group_def mild_upd split: option.split)
  have p: "mild sid v (world_of (observe_pid mo s q v))" for q v
  proof -
    have "mild sid v (upd_active s (\<lambda>x. x \<lparr>acChildIdentity := i, acOwned := own i (acOwned x)\<rparr>)
        (v \<lparr>wDb := setPid s r (wDb v), wTicks := t\<rparr>))" for i r t
      by (rule mild_trans [OF mild_row [where s = s and f = "\<lambda>x. x \<lparr>rowPid := Some r\<rparr>"] mild_upd])
         (simp_all add: setPid_def)
    then show ?thesis by (simp add: observe_pid_def Let_def split_beta split: option.split)
  qed
  show ?thesis
    unfolding observe_started_def Let_def
    by (rule mild_and_then [OF mild_trans [OF mild_upd p]])
       (auto intro: g mild_trans [OF g mild_append(4)] split: option.split)
qed

lemma evident_note:
  assumes "evident w sid" and "\<And>x. payload_str ev ''outcome'' = Some x \<Longrightarrow> faulty w sid \<or> witnessed w sid x"
    and "\<And>s. acEngineOutcome (f s) = acEngineOutcome (note_outcome ev s)"
  shows "evident (upd_active sid f w) sid"
  using assms by (cases "regObjects (wReg w) sid")
    (auto simp: evident_def witnessed_def faulty_def note_outcome_def split: option.splits)

lemma evident_observe:
  assumes "evident w sid" and "\<And>x. payload_str ev ''outcome'' = Some x \<Longrightarrow> faulty w sid \<or> witnessed w sid x"
  shows "evident (world_of (observe mo sid ev w)) sid"
proof -
  have n: "evident (upd_active sid (\<lambda>s. note_outcome ev (note_signal ev s)) w) sid"
    "evident (upd_active sid (\<lambda>s. note_exit ev (note_outcome ev s)) w) sid"
    "evident (upd_active sid (\<lambda>s. note_failure ev (note_outcome ev s)) w) sid"
    by (rule evident_note [OF assms], assumption,
        auto simp: note_outcome_def note_signal_def note_exit_def note_failure_def split: option.split)+
  show ?thesis
    using assms(1) n
    by (auto simp: observe_def split: event_type.split intro: mild_evident [OF mild_started]
        mild_evident [OF mild_upd] mild_evident [OF mild_append(5)])
qed

lemma emit_witnessed:
  assumes "evSource e = Caps" and "evSessionId e = sid" and "payload_str e ''outcome'' = Some x"
  shows "faulty (emit mo e w) sid \<or> witnessed (emit mo e w) sid x"
proof -
  have "faulty (store_event mo f v) sid \<or> witnessed (store_event mo f v) sid x"
    if "evSource f = Caps" "evSessionId f = sid" "payload_str f ''outcome'' = Some x" for f v
    using that by (cases "insertEvent (moInsert mo (evId f)) f (wDb v)")
      (auto simp: store_event_def faulty_def witnessed_def session_events_def dest!: insertEvent_Some)
  with assms show ?thesis by (simp add: emit_def payload_str_def split: option.split)
qed

lemma normalize_line_caps: "normalize_line cf mo sid line w = Normalized ev \<Longrightarrow> evSource ev = Caps"
  by (auto simp: normalize_line_def elim: normalize_Normalized split: parsed_line.splits json.splits)

lemma evident_route:
  assumes "evident w sid"
  shows "evident (world_of (routeStderrLine cf mo sid line w)) sid"
proof -
  have f: "evident (emit mo ev (snd (fresh_id cf ''evt'' w))) sid" for ev
    using mild_evident [OF mild_trans [OF mild_append(3) mild_emit] assms] .
  have o: "evident (world_of (observe mo sid ev (emit mo ev (snd (fresh_id cf ''evt'' w))))) sid"
    if "evSource ev = Caps" "evSessionId ev = sid" for ev
    by (rule evident_observe [OF f emit_witnessed [OF that]])
  show ?thesis
    using assms
    by (auto simp: routeStderrLine_def Let_def split: classified_kind.split normalized.split
        intro: mild_evident [OF mild_append(2)] mild_evident [OF mild_trans [OF mild_append(3) mild_emit_untyped]]
          o [OF normalize_line_caps normalize_line_type(3)])
qed

lemma evident_lines: "evident w sid \<Longrightarrow> evident (world_of (route_lines cf mo sid ls w)) sid"
proof (induction ls arbitrary: w)
  case (Cons l ls)
  then show ?case
    using evident_route [OF Cons.prems, of cf mo l] by (cases "routeStderrLine cf mo sid l w") simp_all
qed simp

lemma evident_upd: "same_outcome f \<Longrightarrow> evident w sid \<Longrightarrow> evident (upd_active s f w) sid"
  by (rule mild_evident [OF mild_upd])

lemma evident_stderr: "evident w sid \<Longrightarrow> evident (world_of (onStderr cf mo sid chunk w)) sid"
  unfolding onStderr_def Let_def split_beta
  by (rule evident_lines) (auto intro!: evident_upd mild_evident [OF mild_append(1)])

lemma evident_flush: "evident w sid \<Longrightarrow> evident (world_of (flushStderrTail cf mo sid w)) sid"
  by (auto simp: flushStderrTail_def Let_def intro!: evident_upd evident_route)

section \<open>The end of a session\<close>

lemma evident_finish:
  assumes ev: "evident w sid" and a: "regObjects (wReg w) sid = Some a" and "evSessionId e = sid"
    and st: "ffStatus ff = COMPLETED \<Longrightarrow> acEngineOutcome a = Some ''COMPLETED''"
  shows "evident (finish mo sid ff x y e w) sid"
proof (cases "faulty w sid")
  case True
  with grows_faulty [OF grows_finish] show ?thesis by (simp add: evident_def)
next
  case False
  obtain c n' where t: "final_transaction mo sid ff x y e (acNextSeq a) (wDb w) = (c, n')"
    by (metis surj_pair)
  let ?v = "upd_active sid (\<lambda>s. s \<lparr>acNextSeq := n'\<rparr>) w"
  show ?thesis
  proof (cases c)
    case None
    with t a show ?thesis by (simp add: finish_def Let_def evident_def faulty_def)
  next
    case (Some d)
    have f: "finish mo sid ff x y e w =
        remove_active sid (?v \<lparr>wDb := d, wBus := wBus w @ [e \<lparr>evSequence := acNextSeq a\<rparr>]\<rparr>)"
      using t a Some by (simp add: finish_def Let_def)
    have sub: "set (session_events (wDb w) sid) \<subseteq> set (session_events d sid)"
      using final_transaction_events [OF t [unfolded Some]] by (auto simp: session_events_def)
    have row: "rowStatus r = ffStatus ff" if "dbSessions d sid = Some r" for r
      by (rule final_transaction_row [OF t [unfolded Some] that])
    have "evident (?v \<lparr>wDb := d, wBus := wBus w @ [e \<lparr>evSequence := acNextSeq a\<rparr>]\<rparr>) sid"
      using ev False a st row sub by (fastforce simp: evident_def faulty_def witnessed_def)
    then show ?thesis unfolding f by (rule mild_evident [OF mild_remove])
  qed
qed

lemma evident_finalize:
  assumes "evident w sid" and "has_object w sid"
  shows "evident (finalize cf mo sid code sc w) sid"
proof (cases rule: finalize_cases [of w sid cf mo code sc])
  case 1
  with assms show ?thesis by simp
next
  case (2 ff x y p ec)
  let ?v = "snd (fresh_id cf ''evt'' (forgetActiveIdentities (the (regObjects (wReg w) sid))
      (stop_sampling sid None (drop_buffers sid (upd_active sid (\<lambda>s. s \<lparr>acFinalized := True\<rparr>) w)))))"
  have "mild sid (upd_active sid (\<lambda>s. s \<lparr>acFinalized := True\<rparr>) w) ?v"
    by (rule mild_cong) simp_all
  from mild_trans [OF mild_upd this] have "mild sid w ?v" by simp
  from mild_evident [OF this assms(1)] have v: "evident ?v sid" .
  obtain a where a: "regObjects (wReg w) sid = Some a" using assms(2) by (auto simp: has_object_def)
  show ?thesis
    unfolding 2(3)
    by (rule evident_finish [OF v])
       (use a 2(2) in \<open>auto simp: gatewayEvent_def decideStatus_completed\<close>)
qed

lemma mild_failed: "mild sid w (world_of (finalizeFailed cf mo sid reason w))"
proof (cases rule: finalizeFailed_cases [where w = w and sid = sid and cf = cf and mo = mo and reason = reason])
  case 1
  then show ?thesis by simp
next
  case 2
  have "mild sid (upd_active sid (\<lambda>s. s \<lparr>acFinalized := True\<rparr>) w) (world_of (finalizeFailed cf mo sid reason w))"
    by (rule mild_cong) (simp_all add: 2)
  then show ?thesis by (rule mild_trans [OF mild_upd, rotated]) simp
next
  case (3 ff d e)
  let ?u = "upd_active sid (\<lambda>s. s \<lparr>acFinalized := True\<rparr>) w"
  let ?v = "snd (fresh_id cf ''evt'' (forgetActiveIdentities (the (regObjects (wReg w) sid))
     (stop_sampling sid None ?u) \<lparr>wDb := d\<rparr>))"
  from 3(2,3) obtain f where f: "d = update_row sid f (wDb w)" "\<And>r. rowStatus (f r) = FAILED"
    by (auto simp: finalizeRow_def split: if_splits)
  have "mild sid ?u ?v" by (rule mild_row [where s = sid and f = f]) (simp_all add: f)
  from mild_trans [OF mild_upd this] show ?thesis
    unfolding 3(7) world_of.simps by (rule mild_trans [OF _ mild_trans [OF mild_emit mild_remove]]) simp
qed


section \<open>Every run\<close>

lemma finalizeRow_failed:
  assumes "finalizeRow ok s ff now d = Some d1" and "ffStatus ff = FAILED"
  obtains f where "d1 = update_row s f d" and "\<forall>r. rowStatus (f r) = FAILED"
  using assms by (auto simp: finalizeRow_def split: if_splits)

lemma mild_insert:
  assumes "mild sid w v" and "insertEvent ok e (wDb v) = Some d" and "wDb u = d" and "wReg u = wReg v"
    and "wFaults u = wFaults v"
  shows "mild sid w u"
proof (rule mild_trans [OF assms(1)])
  show "mild sid v u"
    using insertEvent_Some [OF assms(2)] assms(3-) by (auto simp: mild_def faulty_def session_events_def)
qed

lemma mild_failed_row:
  assumes "finalizeRow ok s ff now (wDb w) = Some d1" and "ffStatus ff = FAILED"
    and "insertEvent ok' e d1 = Some d" and "wDb v = d" and "wReg v = wReg w" and "wFaults v = wFaults w"
  shows "mild sid w v"
proof -
  obtain f where f: "d1 = update_row s f (wDb w)" "\<forall>r. rowStatus (f r) = FAILED"
    by (rule finalizeRow_failed [OF assms(1,2)])
  have "mild sid w (w \<lparr>wDb := d1\<rparr>)" by (rule mild_row [where s = s and f = f]) (simp_all add: f)
  from mild_insert [OF this, of ok' e d v] assms(3-) show ?thesis by simp
qed

lemma mild_failBefore: "mild sid w (world_of (failBeforeStart cf mo s reason n extra w))"
proof (cases rule: failBeforeStart_cases [of cf mo s reason n extra w])
  case 1
  then show ?thesis by simp
next
  case (2 ff d1 v)
  obtain f where f: "d1 = update_row s f (wDb w)" "\<forall>r. rowStatus (f r) = FAILED"
    by (rule finalizeRow_failed [OF 2(1,5)])
  show ?thesis unfolding 2(4) world_of.simps
    by (rule mild_row [where s = s and f = f]) (simp_all add: f 2)
next
  case (3 ff d1 e d v)
  show ?thesis unfolding 3(10) world_of.simps by (rule mild_failed_row [OF 3(1,2,3,7,8,9)])
qed

lemma mild_record: "mild sid w (world_of (snd (finalize_record cf mo s reason kind w)))"
proof (cases rule: finalize_record_cases [of cf mo s reason kind w])
  case (3 r ff d1 e d v)
  show ?thesis unfolding 3(12) world_of.simps by (rule mild_failed_row [OF 3(3,4,5,9,10,11)])
qed simp_all

lemma mild_create:
  assumes "createWithFirstEvent b (creation i r g s evid now) (wDb w) = Some (wDb v)"
    and "wReg v = wReg w" and "wFaults v = wFaults w"
  shows "mild sid w v"
  using assms createWithFirstEvent_events [OF assms(1)]
  by (auto simp: createWithFirstEvent_def creation_def gatewayEvent_def Let_def mild_def faulty_def
      session_events_def split: if_splits dest!: insertEvent_Some)

lemma mild_start: "mild sid w (world_of (snd (start cf mo g se i w)))"
proof (cases rule: start_cases [of w cf mo g se i])
  case (1 v)
  then show ?thesis by (simp add: mild_cong)
next
  case (2 b rr rec evid v reason extra)
  show ?thesis unfolding 2(4) by (rule mild_trans [OF mild_create [OF 2(1-3)] mild_failBefore])
next
  case (3 b rr rec evid v)
  let ?s = "cfNewId cf ''exec'' (wFresh w)"
  let ?v = "v \<lparr>wBuffers := (wBuffers v)((Stdout, ?s) \<mapsto> empty_buffer,
      (Stderr, ?s) \<mapsto> empty_buffer), wReg := reg_add (new_active i ?s (moNow mo)) (wReg v)\<rparr>"
  have "mild sid v ?v" by (auto simp: mild_def faulty_def reg_add_def new_active_def)
  from mild_trans [OF mild_create [OF 3(1-3)] this] have "mild sid w ?v" .
  then show ?thesis unfolding 3(5)
    by (auto simp: spawnFor_def Let_def split_beta intro!: mild_trans [OF _ mild_upd]
        mild_trans [OF _ mild_emit] mild_trans [OF _ mild_append(3)])
qed

lemma mild_timeout: "mild sid w (handleTimeout mo s w)"
proof -
  have a: "mild sid v (arm_escalation s r v)" "mild sid v (snd (terminateActive mo s sg v))" for v r sg
    by (rule mild_cong; simp)+
  show ?thesis
    by (auto simp: handleTimeout_def Let_def split_beta intro!: mild_upd
        mild_trans [OF _ a(1)] mild_trans [OF _ mild_upd] mild_trans [OF _ a(2)])
qed

lemma mild_terminate: "mild sid w (snd (requestTerminate mo s sg w))"
proof -
  have a: "mild sid v (arm_escalation s r v)" "mild sid v (snd (terminateActive mo s sg v))" for v r sg
    by (rule mild_cong; simp)+
  show ?thesis
    by (auto simp: requestTerminate_def Let_def split_beta intro!: a(2)
        mild_trans [OF _ a(1)] mild_trans [OF _ mild_upd])
qed

lemma evident_perform:
  assumes "evident w sid" and "enabled a w"
  shows "evident (world_of (perform cf a w)) sid"
proof (cases "about cf a w sid")
  case False
  from mild_evident [OF mild_untouched [OF untouched_perform [OF False]] assms(1)] show ?thesis .
next
  case True
  note m = mild_evident [OF _ assms(1)]
  show ?thesis
  proof (cases a)
    case (Child_stderr mo s chunk)
    with True assms evident_stderr show ?thesis by simp
  next
    case (Child_close mo s c sc)
    let ?r = "flushStderrTail cf mo sid (upd_active sid (\<lambda>s. s \<lparr>acKillTimer := False\<rparr>) w)"
    have "evident (world_of ?r) sid" "has_object (world_of ?r) sid"
      using assms True Child_close by (auto intro!: evident_flush evident_upd)
    then show ?thesis using True Child_close
      by (cases ?r) (auto simp: onClose_def intro: evident_finalize)
  next
    case (Child_stdout mo s chunk)
    then show ?thesis by (auto simp: onStdout_def intro!: m mild_trans [OF mild_upd mild_append(1)])
  next
    case (Abandon mo s reason kind)
    with True show ?thesis
      by (auto simp: finalizeAbandoned_def intro!: m mild_record mild_failed split: option.split)
  next
    case (Sample mo s q p)
    then show ?thesis
      by (auto simp: publishSnapshot_def Let_def split_beta split: option.split
          intro!: m mild_trans [OF _ mild_emit] mild_append(3))
  next
    case (Sweep now st)
    have "mild sid w (w \<lparr>wReg := fold reg_delete ks (wReg w)\<rparr>)" for ks
    proof (induction ks rule: rev_induct)
      case (snoc k ks)
      have "mild sid (w \<lparr>wReg := fold reg_delete ks (wReg w)\<rparr>)
          (w \<lparr>wReg := fold reg_delete (ks @ [k]) (wReg w)\<rparr>)"
        using mild_remove [of sid "w \<lparr>wReg := fold reg_delete ks (wReg w)\<rparr>" k]
        by (simp add: remove_active_def)
      with snoc show ?case by (rule mild_trans)
    qed simp
    with Sweep show ?thesis by (auto simp: sweep_def Let_def intro!: m)
  next
    case Restart
    with assms(1) show ?thesis
      by (auto simp: evident_def restart_def faulty_def witnessed_def)
  next
    case (Child_error mo s msg)
    with True show ?thesis by (auto simp: onError_def intro!: m mild_failed)
  qed (auto intro!: m mild_start mild_timeout mild_terminate mild_upd intro: mild_cong simp: close_runner_def)
qed

lemma reachable_evident: "reachable cf as w \<Longrightarrow> evident w sid"
proof (induction rule: reachable.induct)
  case start
  show ?case by (simp add: boot_def evident_def)
next
  case (step as w a)
  then show ?case by (intro evident_perform)
qed

text \<open>C7: Success is never fabricated. Whatever happened, a session whose row says COMPLETED has in
  its stored stream an event of the engine itself that reports the outcome COMPLETED -- unless
  losing an event of that session was logged.\<close>
theorem no_fabricated_success:
  assumes "reachable cf as w" and "\<not> faulty w sid"
    and "findById (wDb w) sid = Some row" and "rowStatus row = COMPLETED"
  shows "\<exists>e \<in> set (listAllForSession (wDb w) sid).
    evSource e = Caps \<and> payload_str e ''outcome'' = Some ''COMPLETED''"
  using reachable_evident [OF assms(1), of sid] assms(2-)
  by (auto simp: evident_def witnessed_def findById_def listAllForSession_def)

end
