(* ===== verification/Sample_Runs.thy ===== *)
theory Sample_Runs
  imports Session_Lifecycle
begin

text \<open>
  Concrete runs, evaluated step by step: a host that answers every call, one execution that
  starts, reports its process and closes, and the properties of runs applied to it.
\<close>

section \<open>Running a list of actions\<close>

fun calm_steps :: "caps_config \<Rightarrow> string \<Rightarrow> action list \<Rightarrow> world \<Rightarrow> world option" where
  "calm_steps cf sid [] w = Some w"
| "calm_steps cf sid (a # as) w =
     (if enabled a w \<and> undisturbed sid a w
      then case perform cf a w of Done w' \<Rightarrow> calm_steps cf sid as w' | Threw w' \<Rightarrow> None
      else None)"

lemma calm_steps_run:
  "calm_run cf sid bs w \<Longrightarrow> calm_steps cf sid as w = Some w' \<Longrightarrow> calm_run cf sid (bs @ as) w'"
proof (induction as arbitrary: bs w)
  case (Cons a as)
  then obtain v where v: "enabled a w" "undisturbed sid a w" "perform cf a w = Done v"
    "calm_steps cf sid as v = Some w'"
    by (auto split: if_splits outcome.splits)
  from Cons.IH [OF calm_run.step [OF Cons.prems(1) v(1-3)] v(4)] show ?case by simp
qed simp

section \<open>A sample host\<close>

definition quoted :: "string \<Rightarrow> string" where
  "quoted s = EVENT_PREFIX @ s @ [CHR 0x22, CHR ''}'']"

definition sample_parse :: "string \<Rightarrow> json option" where
  "sample_parse t =
     map_of
       [(quoted ''PROCESS_STARTED'', JObj [(''event'', JStr ''PROCESS_STARTED''), (''pid'', JNum 100)]),
        (quoted ''PROCESS_EXITED'',
         JObj [(''event'', JStr ''PROCESS_EXITED''), (''pid'', JNum 100), (''exit_code'', JNum 0),
               (''outcome'', JStr ''COMPLETED'')])] t"

definition sample_config :: caps_config where
  "sample_config =
     \<lparr>cfMaxConcurrent = 1, cfCapsExecutable = ''caps'', cfStdoutBytes = 64, cfStderrBytes = 64,
      cfNewId = (\<lambda>p n. p @ replicate n CHR ''.''), cfParse = sample_parse, cfNumText = (\<lambda>n. ''n'')\<rparr>"

definition sample_os :: os where
  "sample_os = \<lparr>osStat = (\<lambda>p. None), osKill = (\<lambda>p s. None), osPidfd = (\<lambda>p t s. \<lparr>poPidfd = False, poDelivered = False, poReason = []\<rparr>)\<rparr>"

definition sample_moment :: "int \<Rightarrow> moment" where
  "sample_moment t =
     \<lparr>moNow = t, moBegin = True, moUpdate = True, moInsert = (\<lambda>i. True), moOs = sample_os\<rparr>"

definition sample_guard :: "string \<Rightarrow> int \<Rightarrow> thermal_decision_record" where
  "sample_guard sid now =
     \<lparr>tdDecision = DISABLED, tdAction = ACT_WARN, tdThreshold = None, tdSensor = None,
      tdReading = \<lparr>grRawMilli = None, grCelsius = None, grTimestamp = now, grSource = ''none'',
        grProvenance = UNAVAILABLE, grReason = None\<rparr>,
      tdTimestamp = now, tdWorkloadId = None, tdSessionId = Some sid, tdResult = R_NONE,
      tdReason = ''off''\<rparr>"

definition sample_input :: start_input where
  "sample_input =
     \<lparr>siCommand = ''ls'', siCommandLine = None, siExecutable = Some ''/bin/ls'', siArgs = [],
      siRedirections = no_redirections, siTimeoutMs = 1000\<rparr>"

definition sample_sid :: string where
  "sample_sid = ''exec''"

definition sample_start :: action where
  "sample_start = Start (sample_moment 1) sample_guard None sample_input"

definition sample_output :: action where
  "sample_output =
     Child_stderr (sample_moment 2) sample_sid
       (quoted ''PROCESS_STARTED'' @ [newline] @ ''hi'' @ [newline] @ quoted ''PROCESS_EXITED'' @ [newline])"

definition sample_close :: action where
  "sample_close = Child_close (sample_moment 3) sample_sid (Some 0) None"

text \<open>A code equation that does not spell 65536 in unary.\<close>

lemma onStderr_code [code]:
  "onStderr cf mo sid chunk w =
     (let (lines, rest) = splitLines (acStderrLineBuffer (the (regObjects (wReg w) sid)) @ chunk);
          w = upd_active sid
            (\<lambda>s. s \<lparr>acStderrBytes := acStderrBytes s + length chunk, acLastEventAt := moNow mo\<rparr>) w;
          w = (if int (length rest) > 65536
               then upd_active sid (\<lambda>s. s \<lparr>acStderrLineBuffer := []\<rparr>)
                      (append_output cf Stderr sid (take MAX_PENDING_LINE rest @ pending_notice) w)
               else upd_active sid (\<lambda>s. s \<lparr>acStderrLineBuffer := rest\<rparr>) w)
      in route_lines cf mo sid lines w)"
proof -
  have "(int (length rest) > 65536) = (length rest > MAX_PENDING_LINE)" for rest :: string
    by (simp add: MAX_PENDING_LINE_def)
  then show ?thesis by (simp only: onStderr_def)
qed
section \<open>A whole execution\<close>

definition runs :: "world \<Rightarrow> string \<Rightarrow> bool" where
  "runs w sid \<longleftrightarrow>
     (case regObjects (wReg w) sid of Some a \<Rightarrow> sid \<in> set (regOrder (wReg w)) \<and> \<not> acFinalized a
      | None \<Rightarrow> False)"

lemma runs_live: "runs w sid \<Longrightarrow> live w sid"
  by (simp add: runs_def live_def split: option.splits)

lemma sample_evaluated:
  "case calm_steps sample_config sample_sid [sample_start, sample_output] boot of
     None \<Rightarrow> False
   | Some w \<Rightarrow> runs w sample_sid \<and>
       (case perform sample_config sample_close w of
          Threw w' \<Rightarrow> False
        | Done w' \<Rightarrow> wFaults w' = [] \<and>
            map evType (listAllForSession (wDb w') sample_sid) =
              [Execution_created, Execution_started, Process_started, Process_exited, Execution_completed] \<and>
            map_option rowStatus (findById (wDb w') sample_sid) = Some COMPLETED)"
  by code_simp

lemma sample_facts:
  obtains w w' row where "calm_run sample_config sample_sid [sample_start, sample_output] w"
    and "live w sample_sid" and "perform sample_config sample_close w = Done w'"
    and "calm_run sample_config sample_sid [sample_start, sample_output, sample_close] w'"
    and "\<not> faulty w' sample_sid" and "findById (wDb w') sample_sid = Some row"
    and "rowStatus row = COMPLETED" and "length (listAllForSession (wDb w') sample_sid) = 5"
proof -
  from sample_evaluated obtain w w' row where w: "calm_steps sample_config sample_sid [sample_start, sample_output] boot = Some w"
    "runs w sample_sid" "perform sample_config sample_close w = Done w'" "wFaults w' = []"
    "map evType (listAllForSession (wDb w') sample_sid) =
       [Execution_created, Execution_started, Process_started, Process_exited, Execution_completed]"
    "findById (wDb w') sample_sid = Some row" "rowStatus row = COMPLETED"
    by (auto split: option.splits outcome.splits)
  from calm_steps_run [OF calm_run.start w(1)] have run: "calm_run sample_config sample_sid [sample_start, sample_output] w"
    by simp
  have l: "live w sample_sid" using w(2) by (rule runs_live)
  have "calm_run sample_config sample_sid ([sample_start, sample_output] @ [sample_close]) w'"
    by (rule calm_run.step [OF run _ _ w(3)]) (use l in \<open>auto simp: sample_close_def has_object_def live_def\<close>)
  moreover from arg_cong [OF w(5), of length] have "length (listAllForSession (wDb w') sample_sid) = 5"
    by (simp only: length_map) simp
  ultimately show thesis using that [OF run l w(3)] w(4,6,7) by (simp add: faulty_def)
qed

theorem calm_stream_valid_witness:
  "\<exists>w row. calm_run sample_config sample_sid [sample_start, sample_output, sample_close] w \<and>
     \<not> faulty w sample_sid \<and> findById (wDb w) sample_sid = Some row \<and>
     map evSequence (listAllForSession (wDb w) sample_sid) = [0, 1, 2, 3, 4]"
proof -
  obtain w w' row where w: "calm_run sample_config sample_sid [sample_start, sample_output, sample_close] w'"
    "\<not> faulty w' sample_sid" "findById (wDb w') sample_sid = Some row"
    "length (listAllForSession (wDb w') sample_sid) = 5"
    by (rule sample_facts)
  from calm_stream_valid [OF w(1-3)] w(4)
  have "map evSequence (listAllForSession (wDb w') sample_sid) = map int [0..<5]" by simp
  with w show ?thesis by (auto simp: upt_rec)
qed

theorem close_settles_witness:
  "\<exists>w w' row. live w sample_sid \<and> perform sample_config sample_close w = Done w' \<and>
     reg_get (wReg w') sample_sid = None \<and> findById (wDb w') sample_sid = Some row \<and>
     isTerminalStatus (rowStatus row)"
proof -
  obtain w w' row where w: "calm_run sample_config sample_sid [sample_start, sample_output] w"
    "live w sample_sid" "perform sample_config sample_close w = Done w'" "\<not> faulty w' sample_sid"
    by (rule sample_facts)
  from close_settles [OF w(1,2) w(3) [unfolded sample_close_def]] w(2,3,4) show ?thesis by blast
qed

theorem live_equals_replay_witness:
  "\<exists>w. reachable sample_config [sample_start, sample_output, sample_close] w \<and>
     filter (\<lambda>e. evSessionId e = sample_sid) (wBus w) =
       filter announced (session_events (wDb w) sample_sid)"
proof -
  obtain w w' row where "calm_run sample_config sample_sid [sample_start, sample_output, sample_close] w'"
    by (rule sample_facts)
  note r = calm_run_reachable [OF this]
  from live_equals_replay [OF r, of sample_sid] r show ?thesis by blast
qed

theorem replay_always_well_formed_witness:
  "\<exists>w row. reachable sample_config [sample_start, sample_output, sample_close] w \<and>
     findById (wDb w) sample_sid = Some row \<and>
     I9_origin_event \<notin> vInvariant ` set (vrViolations
       (validateEventStream (listAllForSession (wDb w) sample_sid) (Some (rowStatus row))))"
proof -
  obtain w w' row where w: "calm_run sample_config sample_sid [sample_start, sample_output, sample_close] w'"
    "findById (wDb w') sample_sid = Some row"
    by (rule sample_facts)
  note r = calm_run_reachable [OF w(1)]
  from replay_always_well_formed [OF r w(2)] r w(2) show ?thesis by blast
qed

end
