(* ===== verification/Runner_Properties.thy ===== *)
theory Runner_Properties
  imports Verdict_Evidence Sample_Runs
begin

text \<open>
  What the runner promises of one call: exact retention of output, admission and refusal,
  finalization as one unit of work, and sessions that do not interfere; each with an application
  to a concrete state.
\<close>

section \<open>Output retention\<close>

lemma slice_last_append:
  "0 < n \<Longrightarrow> n < length x \<Longrightarrow> slice_last n (slice_last n x @ y) = slice_last n (x @ y)"
  by (simp add: slice_last_def add.commute)

text \<open>What a buffer of a given cap holds of everything written to it.\<close>

definition retained :: "nat \<Rightarrow> string \<Rightarrow> text_buffer" where
  "retained limit s =
     (if length s \<le> limit then \<lparr>tbText = s, tbTruncated = False\<rparr>
      else \<lparr>tbText = slice_last limit s, tbTruncated = True\<rparr>)"

lemma append_retained:
  assumes "wBuffers w (ch, sid) = Some (retained (outputCapFor cf ch) s)" and "0 < outputCapFor cf ch"
  shows "wBuffers (append_output cf ch sid t w) (ch, sid) = Some (retained (outputCapFor cf ch) (s @ t))"
proof (cases "length s \<le> outputCapFor cf ch")
  case True
  with assms show ?thesis by (auto simp: append_output_def Let_def retained_def)
next
  case False
  with assms have l: "length (slice_last (outputCapFor cf ch) s) = outputCapFor cf ch"
    by (simp add: length_slice_last)
  show ?thesis
  proof (cases "t = []")
    case True
    with assms False l show ?thesis by (simp add: append_output_def Let_def retained_def)
  next
    case t: False
    then have "0 < length t" by simp
    with assms False l slice_last_append [of "outputCapFor cf ch" s t] show ?thesis
      by (simp add: append_output_def Let_def retained_def)
  qed
qed

text \<open>Output retention is exact. With a positive cap, after any sequence of chunks a buffer holds
  everything that was written while that fits the cap, and otherwise exactly the last characters of
  it, as many as the cap says; it is marked truncated if and only if something was dropped, however
  the output was cut into chunks.\<close>
theorem output_retention_exact:
  assumes "0 < outputCapFor cf ch" and "wBuffers w (ch, sid) = Some empty_buffer"
  shows "wBuffers (fold (append_output cf ch sid) chunks w) (ch, sid) =
    Some (retained (outputCapFor cf ch) (concat chunks))"
proof -
  have "wBuffers (fold (append_output cf ch sid) chunks v) (ch, sid) =
      Some (retained (outputCapFor cf ch) (s @ concat chunks))"
    if "wBuffers v (ch, sid) = Some (retained (outputCapFor cf ch) s)" for v s
    using that
  proof (induction chunks arbitrary: v s)
    case (Cons t ts)
    from Cons.IH [OF append_retained [OF Cons.prems assms(1)]] show ?case by simp
  qed simp
  from this [of w "[]"] assms(2) show ?thesis by (simp add: retained_def empty_buffer_def)
qed

section \<open>Refusals\<close>

text \<open>C20: A thermal refusal starts nothing. When the guard's decision is a refusal, \<open>start\<close> answers
  with an error, registers no session, opens no output buffer and samples no process, and the only
  events it can store are the creation and the failure of the refused execution.\<close>
theorem thermal_refusal_spawns_nothing:
  assumes "refuses (guard (cfNewId cf ''exec'' (wFresh w)) (moNow mo))"
    and "w' = world_of (snd (start cf mo guard se i w))"
  shows "(\<exists>e. fst (start cf mo guard se i w) = Inl e) \<and> wReg w' = wReg w \<and>
     wBuffers w' = wBuffers w \<and> wSampling w' = wSampling w \<and>
     (\<forall>x \<in> set (dbEvents (wDb w')) - set (dbEvents (wDb w)).
        evType x = Execution_created \<or> evType x = Execution_failed)"
proof (cases "hasCapacity (cfMaxConcurrent cf) (wReg w)")
  case False
  with assms(2) show ?thesis by (simp add: start_def)
next
  case True
  with assms(1) show ?thesis
    unfolding assms(2) start_def Let_def split_beta refuseForThermal_def failBeforeStart_def
    by (auto simp: fresh_id_def gatewayEvent_def split: option.splits
        dest!: insertEvent_Some finalizeRow_events createWithFirstEvent_events)
qed

section \<open>Admission\<close>

definition running_flags :: "registry \<Rightarrow> bool list" where
  "running_flags r = map (\<lambda>sid. \<not> isTerminalState (acState (the (regObjects r sid)))) (regOrder r)"

lemma runningCount_flags: "runningCount r = length (filter id (running_flags r))"
  by (simp add: runningCount_def list_sessions_def running_flags_def filter_map comp_def)

lemma flags_add:
  "acSessionId s \<notin> set (regOrder r) \<Longrightarrow>
     running_flags (reg_add s r) = running_flags r @ [\<not> isTerminalState (acState s)]"
  by (simp add: running_flags_def reg_add_def)

lemma flags_upd:
  assumes "regObjects r sid = Some a" and "isTerminalState (acState (f a)) = isTerminalState (acState a)"
  shows "running_flags (upd_object sid f r) = running_flags r"
  using assms by (auto simp: running_flags_def)

lemma store_reg [simp]: "wReg (store_event mo e w) = wReg w"
  by (simp add: store_event_def split: option.split)

lemma emit_reg:
  assumes "regObjects (wReg w) sid = Some a" and "sid \<in> set (regOrder (wReg w))" and "evSessionId e = sid"
  shows "regOrder (wReg (emit mo e w)) = regOrder (wReg w) \<and>
    running_flags (wReg (emit mo e w)) = running_flags (wReg w) \<and>
    (\<exists>b. regObjects (wReg (emit mo e w)) sid = Some b \<and> acState b = acState a)"
  using assms flags_upd [OF assms(1), of "\<lambda>s. s \<lparr>acNextSeq := acNextSeq s + 1\<rparr>"]
  by (simp add: emit_def reg_get_def)

text \<open>C19: Admission respects the cap. In every reachable state, a \<open>start\<close> that answers with a
  session id has completed, raised the number of running sessions by exactly one, and not raised it
  above the configured maximum; the new session is registered.\<close>
theorem admission_respects_capacity:
  assumes "reachable cf as w" and "start cf mo guard se i w = (Inr sid, r)"
  shows "\<exists>w'. r = Done w' \<and> runningCount (wReg w') = runningCount (wReg w) + 1 \<and>
     runningCount (wReg w') \<le> cfMaxConcurrent cf \<and> sid \<in> set (regOrder (wReg w'))"
proof -
  let ?u = "snd (fresh_id cf ''evt'' (snd (fresh_id cf ''exec'' w)))"
  from assms(2) obtain b rr g evid d where c: "hasCapacity (cfMaxConcurrent cf) (wReg w)"
    "sid = cfNewId cf ''exec'' (wFresh w)" "se = None"
    "createWithFirstEvent b (creation i rr g sid evid (moNow mo)) (wDb ?u) = Some d"
    "r = snd (spawnFor cf mo sid i None (?u \<lparr>wDb := d\<rparr>))"
    by (auto simp: start_def Let_def split_beta spawnFor_def split: if_splits option.splits)
  have "world_ok ?u" using reachable_ok [OF assms(1)] by simp
  from createWithFirstEvent_row [OF this c(4)] have new: "sid \<notin> set (regOrder (wReg w))" by auto
  let ?a = "new_active i sid (moNow mo)"
  let ?v = "?u \<lparr>wDb := d, wBuffers := (wBuffers w)((Stdout, sid) \<mapsto> empty_buffer,
      (Stderr, sid) \<mapsto> empty_buffer), wReg := reg_add ?a (wReg w)\<rparr>"
  let ?e = "gatewayEvent sid 0 (cfNewId cf ''evt'' (wFresh ?v)) (moNow mo) Gateway Execution_started
      (started_payload cf i) None"
  let ?m = "emit mo ?e (snd (fresh_id cf ''evt'' ?v))"
  let ?w = "upd_active sid (\<lambda>s. s \<lparr>acState := RUNNING, acKillTimer := True\<rparr>) ?m"
  have r: "r = Done ?w" using c(5) by (simp add: spawnFor_def Let_def split_beta)
  have st: "\<not> isTerminalState STARTING" "\<not> isTerminalState RUNNING"
    by (simp_all add: isTerminalState_eq isTerminalStatus_cases)
  have a: "regObjects (wReg (snd (fresh_id cf ''evt'' ?v))) sid = Some ?a"
    "sid \<in> set (regOrder (wReg (snd (fresh_id cf ''evt'' ?v))))" "acState ?a = STARTING"
    by (simp_all add: reg_add_def new_active_def)
  obtain b' where b': "regObjects (wReg ?m) sid = Some b'" "acState b' = STARTING"
    "running_flags (wReg ?m) = running_flags (reg_add ?a (wReg w))" "sid \<in> set (regOrder (wReg ?m))"
    using emit_reg [OF a(1,2), of ?e mo] a(2,3) by (auto simp: gatewayEvent_def)
  have "running_flags (wReg ?w) = running_flags (wReg w) @ [True]"
    using flags_upd [OF b'(1), of "\<lambda>s. s \<lparr>acState := RUNNING, acKillTimer := True\<rparr>"] b' st
      flags_add [of ?a "wReg w"] new by (simp add: new_active_def)
  then have "runningCount (wReg ?w) = runningCount (wReg w) + 1" by (simp add: runningCount_flags)
  with r c(1) b'(4) show ?thesis by (auto simp: hasCapacity_def)
qed


section \<open>Finalizing\<close>

lemma final_transaction_insert:
  assumes "final_transaction mo sid ff x y ev n d = (Some d', n')"
  shows "dbSessions d' (evSessionId ev) \<noteq> None"
proof -
  from assms obtain f where "insertEvent (moInsert mo (evId ev)) (ev \<lparr>evSequence := n\<rparr>) (update_row sid f d) = Some d'"
    by (rule final_transaction_Some)
  from insertEvent_Some [OF this] show ?thesis by auto
qed

text \<open>C8: Finalizing is all or nothing. \<open>finalize\<close> of a session that is already finalized does
  nothing; otherwise either nothing of it reaches the database or the bus and the loss is logged,
  or the row has a terminal status and exactly one event was stored and published, with the
  session's next sequence and the terminal type that belongs to the status of the row.\<close>
theorem finalize_all_or_nothing:
  "let w' = finalize cf mo sid code sc w; a = the (regObjects (wReg w) sid) in
   (acFinalized a \<and> w' = w) \<or>
    (\<not> acFinalized a \<and> wDb w' = wDb w \<and> wBus w' = wBus w \<and> (sid, acNextSeq a) \<in> set (wFaults w')) \<or>
    (\<not> acFinalized a \<and> wFaults w' = wFaults w \<and>
     (\<exists>e row. dbEvents (wDb w') = dbEvents (wDb w) @ [e] \<and> wBus w' = wBus w @ [e] \<and>
        evSessionId e = sid \<and> evSequence e = acNextSeq a \<and> isTerminalEventType (evType e) \<and>
        findById (wDb w') sid = Some row \<and> isTerminalStatus (rowStatus row) \<and>
        evType e = final_type (rowStatus row)))"
proof (cases rule: finalize_cases [of w sid cf mo code sc])
  case 1
  then show ?thesis by simp
next
  case (2 ff x y p ec)
  let ?a = "the (regObjects (wReg w) sid)"
  let ?e = "gatewayEvent sid 0 (cfNewId cf ''evt'' (wFresh w)) (moNow mo) Gateway (final_type (ffStatus ff)) p
      (acChildPid (the (regObjects (wReg w) sid)))"
  let ?v = "snd (fresh_id cf ''evt'' (forgetActiveIdentities (the (regObjects (wReg w) sid))
      (stop_sampling sid None (drop_buffers sid (upd_active sid (\<lambda>s. s \<lparr>acFinalized := True\<rparr>) w)))))"
  have n: "acNextSeq (the (regObjects (wReg ?v) sid)) = acNextSeq ?a"
    by (cases "regObjects (wReg w) sid") simp_all
  obtain c n' where t: "final_transaction mo sid ff x y ?e (acNextSeq ?a) (wDb w) = (c, n')"
    by (metis surj_pair)
  show ?thesis
  proof (cases c)
    case None
    with t n 2 show ?thesis by (simp add: finish_def Let_def)
  next
    case (Some d)
    from final_transaction_insert [OF t [unfolded Some]] obtain row where row: "dbSessions d sid = Some row"
      by (auto simp: gatewayEvent_def)
    from final_transaction_row [OF t [unfolded Some] row] final_transaction_events [OF t [unfolded Some]]
    show ?thesis
      using t n 2 row Some decideStatus_terminal final_type_terminal
      by (auto simp: finish_def Let_def gatewayEvent_def findById_def)
  qed
qed


section \<open>Interference\<close>

text \<open>Sessions do not interfere. An action that is about another session -- a start that is given
  another id, output, an error or the end of another child, another session's timer, termination,
  sample, abandonment or sweep -- leaves a session's stored stream, its row, its object, its
  registration and the record of its losses as they were.\<close>
theorem sessions_do_not_interfere:
  assumes "\<not> about cf a w sid"
  shows "session_events (wDb (world_of (perform cf a w))) sid = session_events (wDb w) sid \<and>
    findById (wDb (world_of (perform cf a w))) sid = findById (wDb w) sid \<and>
    reg_get (wReg (world_of (perform cf a w))) sid = reg_get (wReg w) sid \<and>
    faulty (world_of (perform cf a w)) sid = faulty w sid"
  using untouched_perform [OF assms] by (simp add: untouched_def findById_def reg_get_def)

section \<open>Applied\<close>

theorem output_retention_exact_witness:
  "wBuffers (fold (append_output (sample_config \<lparr>cfStdoutBytes := 3\<rparr>) Stdout ''s'') [''ab'', ''cd'', ''e'']
      (boot \<lparr>wBuffers := [(Stdout, ''s'') \<mapsto> empty_buffer]\<rparr>)) (Stdout, ''s'') =
    Some \<lparr>tbText = ''cde'', tbTruncated = True\<rparr>"
  using output_retention_exact [of "sample_config \<lparr>cfStdoutBytes := 3\<rparr>" Stdout
      "boot \<lparr>wBuffers := [(Stdout, ''s'') \<mapsto> empty_buffer]\<rparr>" "''s''" "[''ab'', ''cd'', ''e'']"]
  by (simp add: outputCapFor_def sample_config_def retained_def slice_last_def)

definition refusing_guard :: "string \<Rightarrow> int \<Rightarrow> thermal_decision_record" where
  "refusing_guard sid now = (sample_guard sid now) \<lparr>tdDecision := REFUSE_KILL\<rparr>"

theorem thermal_refusal_spawns_nothing_witness:
  "refuses (refusing_guard ''exec'' 1) \<and>
   wReg (world_of (snd (start sample_config (sample_moment 1) refusing_guard None sample_input boot))) = wReg boot"
proof -
  have r: "refuses (refusing_guard s t)" for s t by (simp add: refuses_def refusing_guard_def)
  from thermal_refusal_spawns_nothing [where guard = refusing_guard and cf = sample_config and w = boot
      and mo = "sample_moment 1" and se = None and i = sample_input, OF r refl] r
  show ?thesis by simp
qed

theorem admission_respects_capacity_witness:
  "\<exists>w'. start sample_config (sample_moment 1) sample_guard None sample_input boot = (Inr ''exec'', Done w') \<and>
     runningCount (wReg w') = 1"
proof -
  have "fst (start sample_config (sample_moment 1) sample_guard None sample_input boot) = Inr ''exec''"
    by code_simp
  then obtain r where r: "start sample_config (sample_moment 1) sample_guard None sample_input boot = (Inr ''exec'', r)"
    by (metis prod.collapse)
  from admission_respects_capacity [OF reachable.start r] r show ?thesis
    by (auto simp: boot_def runningCount_def list_sessions_def)
qed

theorem sessions_do_not_interfere_witness:
  "reg_get (wReg (world_of (perform sample_config sample_start boot))) ''other'' = reg_get (wReg boot) ''other''"
proof -
  have "\<not> about sample_config sample_start boot ''other''"
    by (simp add: sample_start_def sample_config_def boot_def)
  from sessions_do_not_interfere [OF this] show ?thesis by blast
qed

theorem no_fabricated_success_witness:
  "\<exists>w. reachable sample_config [sample_start, sample_output, sample_close] w \<and>
     (\<exists>e \<in> set (listAllForSession (wDb w) sample_sid).
        evSource e = Caps \<and> payload_str e ''outcome'' = Some ''COMPLETED'')"
proof -
  obtain w w' row where w: "calm_run sample_config sample_sid [sample_start, sample_output, sample_close] w'"
    "\<not> faulty w' sample_sid" "findById (wDb w') sample_sid = Some row" "rowStatus row = COMPLETED"
    by (rule sample_facts)
  note r = calm_run_reachable [OF w(1)]
  from no_fabricated_success [OF r w(2-4)] r show ?thesis by blast
qed

end
