(* ===== verification/Boundary_Runs.thy ===== *)
theory Boundary_Runs
  imports Runner_Properties
begin

text \<open>
  Runs at the edge of what the runner promises: two short executions that end in a state its
  documentation rules out, evaluated step by step, and the one way past the cap.
\<close>

fun run_steps :: "caps_config \<Rightarrow> action list \<Rightarrow> world \<Rightarrow> world option" where
  "run_steps cf [] w = Some w"
| "run_steps cf (a # as) w = (if enabled a w then run_steps cf as (world_of (perform cf a w)) else None)"

lemma run_steps_reachable:
  "reachable cf bs w \<Longrightarrow> run_steps cf as w = Some w' \<Longrightarrow> reachable cf (bs @ as) w'"
proof (induction as arbitrary: bs w)
  case (Cons a as)
  then have "enabled a w" and v: "run_steps cf as (world_of (perform cf a w)) = Some w'"
    by (auto split: if_splits)
  from Cons.IH [OF reachable.step [OF Cons.prems(1) this(1)] v] show ?case by simp
qed simp

lemma run_steps_boot: "run_steps cf as boot = Some w \<Longrightarrow> reachable cf as w"
  using run_steps_reachable [OF reachable.start] by fastforce

section \<open>An event after the terminal event\<close>

definition late_event_run :: "action list" where
  "late_event_run =
     [sample_start, Child_error (sample_moment 2) sample_sid ''EPIPE'',
      Child_stderr (sample_moment 3) sample_sid (quoted ''PROCESS_STARTED'' @ [newline])]"

lemma late_event_evaluated:
  "case run_steps sample_config late_event_run boot of None \<Rightarrow> False
   | Some w \<Rightarrow> wFaults w = [] \<and>
       map evType (listAllForSession (wDb w) sample_sid) =
         [Execution_created, Execution_started, Execution_failed, Process_started] \<and>
       (case findById (wDb w) sample_sid of None \<Rightarrow> False | Some row \<Rightarrow>
          I6_terminal_is_last \<in> vInvariant ` set (vrViolations
            (validateEventStream (listAllForSession (wDb w) sample_sid) (Some (rowStatus row)))))"
  by code_simp

text \<open>The limit of the lifecycle: an engine whose pipe failed is finalized while it may still
  run, and what it writes afterwards is stored behind the terminal event. There is a run in which no
  loss is logged and the validator's invariant I6 fails on the stored stream.\<close>
theorem late_output_breaks_the_stream:
  "\<exists>w row. reachable sample_config late_event_run w \<and> wFaults w = [] \<and>
     findById (wDb w) sample_sid = Some row \<and>
     I6_terminal_is_last \<in> vInvariant ` set (vrViolations
       (validateEventStream (listAllForSession (wDb w) sample_sid) (Some (rowStatus row))))"
proof -
  from late_event_evaluated obtain w row where w: "run_steps sample_config late_event_run boot = Some w"
    "wFaults w = []" "findById (wDb w) sample_sid = Some row"
    "I6_terminal_is_last \<in> vInvariant ` set (vrViolations
       (validateEventStream (listAllForSession (wDb w) sample_sid) (Some (rowStatus row))))"
    by (auto split: option.splits)
  from run_steps_boot [OF w(1)] w(2-4) show ?thesis by blast
qed

section \<open>A terminal row without a terminal event\<close>

definition refusing_moment :: "int \<Rightarrow> moment" where
  "refusing_moment t = (sample_moment t) \<lparr>moInsert := (\<lambda>i. length i < 5)\<rparr>"

definition lost_terminal_run :: "action list" where
  "lost_terminal_run =
     [Start (refusing_moment 1) sample_guard (Some ''ENOENT'') sample_input,
      Restart, Abandon (sample_moment 2) sample_sid ''recovered'' Recovered]"

lemma lost_terminal_evaluated:
  "case run_steps sample_config lost_terminal_run boot of None \<Rightarrow> False
   | Some w \<Rightarrow> wFaults w = [] \<and>
       map evType (listAllForSession (wDb w) sample_sid) = [Execution_created] \<and>
       map_option rowStatus (findById (wDb w) sample_sid) = Some FAILED"
  by code_simp


text \<open>The limit of recovery: the failure of a start is stored in two statements that are no unit
  of work. There is a run in which the second one fails: the row is FAILED, no loss is logged, the
  stored stream has no terminal event, and neither a restart nor the recovery of abandoned sessions
  repairs it.\<close>
theorem terminal_row_without_terminal_event:
  "\<exists>w row. reachable sample_config lost_terminal_run w \<and> wFaults w = [] \<and>
     findById (wDb w) sample_sid = Some row \<and> rowStatus row = FAILED \<and>
     \<not> has_terminal (listAllForSession (wDb w) sample_sid)"
proof -
  from lost_terminal_evaluated obtain w row where w: "run_steps sample_config lost_terminal_run boot = Some w"
    "wFaults w = []" "findById (wDb w) sample_sid = Some row" "rowStatus row = FAILED"
    "map evType (listAllForSession (wDb w) sample_sid) = [Execution_created]"
    by (auto split: option.splits)
  from w(5) have "\<not> has_terminal (listAllForSession (wDb w) sample_sid)"
    by (auto simp: has_terminal_def)
  with run_steps_boot [OF w(1)] w(2-4) show ?thesis by blast
qed

section \<open>More running than the maximum\<close>

lemma flags_flip:
  assumes "reg_ok r" and "sid \<in> set (regOrder r)" and "regObjects r sid = Some a"
    and "isTerminalState (acState a)" and "\<not> isTerminalState (acState (f a))"
  shows "runningCount (upd_object sid f r) = runningCount r + 1"
proof -
  from split_list [OF assms(2)] obtain xs ys where o': "regOrder r = xs @ sid # ys" by blast
  with assms(1) have n: "sid \<notin> set xs" "sid \<notin> set ys" by (auto simp: reg_ok_def)
  have "filter (\<lambda>s. s \<noteq> sid \<longrightarrow> P s) zs = filter P zs" if "sid \<notin> set zs" for P zs
    using that by (intro filter_cong) auto
  with n assms(3-5) show ?thesis
    by (simp add: runningCount_flags running_flags_def o')
qed

lemma observe_group_flags: "running_flags (wReg (observe_group sid ev w)) = running_flags (wReg w)"
  by (cases "regObjects (wReg w) sid") (auto simp: observe_group_def running_flags_def split: option.split)

text \<open>The limit of the cap: the cap is checked when a session starts, but a session whose timeout
  fired no longer counts although its process may live. When the engine then reports a process of
  it -- a later stage of a pipeline, or the first one if the timer was faster -- the session counts
  again: the number of running sessions grows by one without any check of the maximum.\<close>
theorem late_process_passes_the_cap:
  assumes "reachable cf as w" and "reg_get (wReg w) sid = Some a" and "isTerminalState (acState a)"
    and "evType ev = Process_started" and "moUpdate mo"
  shows "runningCount (wReg (world_of (observe mo sid ev w))) = runningCount (wReg w) + 1"
proof -
  let ?f = "\<lambda>s. s \<lparr>acState := RUNNING, acChildPid := evPid ev,
      acProcessStartedAt := Some (evTimestamp ev), acProcessReaped := False\<rparr>"
  let ?v = "upd_active sid ?f w"
  from assms(2) have a: "regObjects (wReg w) sid = Some a" "sid \<in> set (regOrder (wReg w))"
    by (auto dest: reg_get_object)
  have "reg_ok (wReg w)" using reachable_ok [OF assms(1)] by (simp add: world_ok_def)
  then have up: "runningCount (wReg ?v) = runningCount (wReg w) + 1"
    using flags_flip [OF _ a(2,1) assms(3), of ?f] by (simp add: isTerminalState_eq isTerminalStatus_cases)
  have p: "\<exists>u. observe_pid mo sid (evPid ev) ?v = Done u \<and> running_flags (wReg u) = running_flags (wReg ?v)"
    using assms(5) a by (auto simp: observe_pid_def Let_def split_beta running_flags_def split: option.split)
  then obtain u where u: "observe_pid mo sid (evPid ev) ?v = Done u"
    "running_flags (wReg u) = running_flags (wReg ?v)" by blast
  have "runningCount (wReg (world_of (observe mo sid ev w))) = runningCount (wReg ?v)"
    using assms(2,4) u observe_group_flags [of sid ev u]
    by (simp add: observe_def observe_started_def Let_def runningCount_flags split: option.split)
  with up show ?thesis by simp
qed


definition timer_run :: "action list" where
  "timer_run = [sample_start, Timer_expires (sample_moment 2) sample_sid]"

definition process_report :: canonical_event where
  "process_report = gatewayEvent sample_sid 2 ''evt'' 3 Caps Process_started [] (Some 100)"

lemma timer_evaluated:
  "case run_steps sample_config timer_run boot of None \<Rightarrow> False
   | Some w \<Rightarrow> runningCount (wReg w) = 0 \<and>
       (case reg_get (wReg w) sample_sid of None \<Rightarrow> False | Some a \<Rightarrow> isTerminalState (acState a))"
  by code_simp

theorem late_process_passes_the_cap_witness:
  "\<exists>w. reachable sample_config timer_run w \<and> runningCount (wReg w) = 0 \<and>
     runningCount (wReg (world_of (observe (sample_moment 3) sample_sid process_report w))) = 1"
proof -
  from timer_evaluated obtain w a where w: "run_steps sample_config timer_run boot = Some w"
    "runningCount (wReg w) = 0" "reg_get (wReg w) sample_sid = Some a" "isTerminalState (acState a)"
    by (auto split: option.splits)
  note r = run_steps_boot [OF w(1)]
  have "evType process_report = Process_started" "moUpdate (sample_moment 3)"
    by (simp_all add: process_report_def gatewayEvent_def sample_moment_def)
  from late_process_passes_the_cap [OF r w(3,4) this] r w(2) show ?thesis by auto
qed

end
