(* ===== verification/Live_Stream.thy ===== *)
theory Live_Stream
  imports Sample_Runs
begin

text \<open>
  \<^verbatim>\<open>web/backend/src/events/bus.ts\<close>, \<^verbatim>\<open>events/sse.ts\<close> and the two event streams of
  \<^verbatim>\<open>api/routes.ts\<close>: attaching a client with a buffered subscription, sending the stored backlog,
  going live.  A \<open>client\<close> is the response stream and the subscription of one request; the socket is
  the argument \<open>wr\<close>, which says of a frame whether the write succeeds.  The keep-alive comments
  are no frames and are left out.
\<close>

section \<open>The bus\<close>

text \<open>A listener is a number; a channel holds its listeners in subscription order, each once.\<close>

type_synonym bus = "string \<Rightarrow> nat list"

definition GLOBAL_CHANNEL :: string where
  "GLOBAL_CHANNEL = ''*global*''"

definition bus_subscribe :: "string \<Rightarrow> nat \<Rightarrow> bus \<Rightarrow> bus" where
  "bus_subscribe ch l b = (if l \<in> set (b ch) then b else b(ch := b ch @ [l]))"

definition bus_unsubscribe :: "string \<Rightarrow> nat \<Rightarrow> bus \<Rightarrow> bus" where
  "bus_unsubscribe ch l b = b(ch := filter (\<lambda>k. k \<noteq> l) (b ch))"

text \<open>Whom a publication calls, in order: copies of both channels are walked.\<close>

definition bus_targets :: "canonical_event \<Rightarrow> bus \<Rightarrow> nat list" where
  "bus_targets ev b = b (evSessionId ev) @ b GLOBAL_CHANNEL"

definition listenerCount :: "string \<Rightarrow> bus \<Rightarrow> nat" where
  "listenerCount ch b = length (b ch)"

section \<open>A connected client\<close>

datatype frame =
    Event_frame canonical_event
  | End_frame string string "rat option" "rat option" "int option"

text \<open>The response stream and the buffered subscription of one request.\<close>

record client =
  clClosed :: bool
  clFrames :: "frame list"
  clSentSequences :: "int set"
  clSentIds :: "string set"
  clBuffer :: "canonical_event list"
  clLive :: bool
  clReleased :: bool
  clListening :: bool
  clTarget :: bool

definition new_client :: client where
  "new_client =
     \<lparr>clClosed = False, clFrames = [], clSentSequences = {}, clSentIds = {}, clBuffer = [],
      clLive = False, clReleased = False, clListening = True, clTarget = False\<rparr>"

definition subscription_close :: "client \<Rightarrow> client" where
  "subscription_close c =
     c \<lparr>clReleased := True, clLive := True, clBuffer := [], clListening := False\<rparr>"

definition sse_close :: "client \<Rightarrow> client" where
  "sse_close c = (if clClosed c then c else subscription_close (c \<lparr>clClosed := True\<rparr>))"

text \<open>\<open>wr\<close> says of a frame whether the socket takes it; a write that throws closes the stream.\<close>

definition sendEvent :: "(frame \<Rightarrow> bool) \<Rightarrow> canonical_event \<Rightarrow> client \<Rightarrow> client" where
  "sendEvent wr ev c =
     (if clClosed c then c
      else if wr (Event_frame ev) then c \<lparr>clFrames := clFrames c @ [Event_frame ev]\<rparr>
      else sse_close c)"

definition sendEnd :: "(frame \<Rightarrow> bool) \<Rightarrow> frame \<Rightarrow> client \<Rightarrow> client" where
  "sendEnd wr f c =
     (if clClosed c then c
      else sse_close (if wr f then c \<lparr>clFrames := clFrames c @ [f]\<rparr> else c))"

definition end_frame :: "string \<Rightarrow> session_row option \<Rightarrow> frame" where
  "end_frame sid row =
     (case row of
        Some r \<Rightarrow> End_frame sid (status_text (rowStatus r)) (rowExitCode r) (rowSignal r) (rowDurationMs r)
      | None \<Rightarrow> End_frame sid ''COMPLETED'' None None None)"

definition frame_text :: "(canonical_event \<Rightarrow> string) \<Rightarrow> (frame \<Rightarrow> string) \<Rightarrow> frame \<Rightarrow> string" where
  "frame_text event_json detail_json f =
     (case f of
        Event_frame ev \<Rightarrow>
          ''id: '' @ int_text (evSequence ev) @ newline # ''event: caps.event'' @ newline # ''data: '' @
            event_json ev @ [newline, newline]
      | End_frame s st x g m \<Rightarrow>
          ''event: stream.end'' @ newline # ''data: '' @ detail_json f @ [newline, newline])"

text \<open>\<open>Last-Event-ID\<close>, \<open>-1\<close> for no resume position.\<close>

definition readLastEventId :: "string option \<Rightarrow> int" where
  "readLastEventId header =
     (case header of
        None \<Rightarrow> - 1
      | Some raw \<Rightarrow>
          (let t = js_trim raw in if plain_digits 15 t then int (decimal_value t) else - 1))"

section \<open>The stream of one session\<close>

definition deliver ::
    "(frame \<Rightarrow> bool) \<Rightarrow> db \<Rightarrow> string \<Rightarrow> canonical_event \<Rightarrow> client \<Rightarrow> client" where
  "deliver wr d sid ev c =
     (if clClosed c then c
      else if evSequence ev \<in> clSentSequences c then c
      else
        (let c = sendEvent wr ev (c \<lparr>clSentSequences := insert (evSequence ev) (clSentSequences c)\<rparr>) in
         if isTerminalEventType (evType ev)
         then subscription_close (sendEnd wr (end_frame sid (findById d sid)) c)
         else c))"

text \<open>\<open>flush\<close>: what was buffered, unless already sent, then live.\<close>

definition flush ::
    "(canonical_event \<Rightarrow> client \<Rightarrow> client) \<Rightarrow> (canonical_event \<Rightarrow> client \<Rightarrow> bool) \<Rightarrow> client \<Rightarrow> client" where
  "flush target dup c =
     (fold (\<lambda>ev c. if clReleased c \<or> dup ev c then c else target ev c) (clBuffer c) c)
       \<lparr>clBuffer := [], clLive := True\<rparr>"

text \<open>The request handler.  It runs to its end in one turn: nothing is published meanwhile.\<close>

definition attach :: "(frame \<Rightarrow> bool) \<Rightarrow> db \<Rightarrow> string \<Rightarrow> int \<Rightarrow> client option" where
  "attach wr d sid lastSeq =
     (case findById d sid of
        None \<Rightarrow> None
      | Some row \<Rightarrow>
          (let c = fold (\<lambda>ev c. if clClosed c then c else deliver wr d sid ev c)
                     (listForSession d sid lastSeq) new_client in
           if clClosed c then Some (subscription_close c)
           else if isTerminalStatus (rowStatus row)
           then Some (sendEnd wr (end_frame sid (Some row)) (subscription_close c))
           else Some (flush (deliver wr d sid) (\<lambda>ev c. evSequence ev \<in> clSentSequences c)
                  (c \<lparr>clTarget := True\<rparr>))))"

text \<open>The listener: before the flush it buffers, afterwards it delivers.\<close>

definition on_publish ::
    "(canonical_event \<Rightarrow> client \<Rightarrow> client) \<Rightarrow> canonical_event \<Rightarrow> client \<Rightarrow> client" where
  "on_publish target ev c =
     (if clLive c then (if clTarget c then target ev c else c)
      else c \<lparr>clBuffer := clBuffer c @ [ev]\<rparr>)"

text \<open>Publications of its session reach the client while its listener is subscribed.\<close>

fun receive :: "(frame \<Rightarrow> bool) \<Rightarrow> string \<Rightarrow> (db \<times> canonical_event) list \<Rightarrow> client \<Rightarrow> client" where
  "receive wr sid [] c = c"
| "receive wr sid ((d, ev) # ps) c =
     receive wr sid ps (if clListening c then on_publish (deliver wr d sid) ev c else c)"

definition events_of :: "client \<Rightarrow> canonical_event list" where
  "events_of c = List.map_filter (\<lambda>f. case f of Event_frame e \<Rightarrow> Some e | _ \<Rightarrow> None) (clFrames c)"

definition ends_of :: "client \<Rightarrow> nat" where
  "ends_of c = length (filter (\<lambda>f. case f of Event_frame e \<Rightarrow> False | _ \<Rightarrow> True) (clFrames c))"

section \<open>The stream of all sessions\<close>

definition deliver_global :: "(frame \<Rightarrow> bool) \<Rightarrow> canonical_event \<Rightarrow> client \<Rightarrow> client" where
  "deliver_global wr ev c =
     (if clClosed c \<or> evId ev \<in> clSentIds c then c
      else sendEvent wr ev (c \<lparr>clSentIds := insert (evId ev) (clSentIds c)\<rparr>))"

definition attach_global :: "(frame \<Rightarrow> bool) \<Rightarrow> db \<Rightarrow> client" where
  "attach_global wr d =
     (let (recent, ids) = listRecentGlobal d 30;
          c = fold (\<lambda>ev c. if clClosed c then c
                           else sendEvent wr ev (c \<lparr>clSentIds := insert (evId ev) (clSentIds c)\<rparr>))
                recent new_client
      in flush (deliver_global wr) (\<lambda>ev c. evId ev \<in> clSentIds c)
           (c \<lparr>clSentIds := clSentIds c \<union> ids, clTarget := True\<rparr>))"

fun receive_global :: "(frame \<Rightarrow> bool) \<Rightarrow> canonical_event list \<Rightarrow> client \<Rightarrow> client" where
  "receive_global wr [] c = c"
| "receive_global wr (ev # evs) c =
     receive_global wr evs (if clListening c then on_publish (deliver_global wr) ev c else c)"


section \<open>Delivery\<close>

fun upto_terminal :: "canonical_event list \<Rightarrow> canonical_event list" where
  "upto_terminal [] = []"
| "upto_terminal (e # es) = (if isTerminalEventType (evType e) then [e] else e # upto_terminal es)"

lemma upto_terminal_append:
  "upto_terminal (xs @ ys) = (if has_terminal xs then upto_terminal xs else xs @ upto_terminal ys)"
  by (induction xs) (auto simp: has_terminal_def)

lemma upto_terminal_none: "\<not> has_terminal es \<Longrightarrow> upto_terminal es = es"
  by (induction es) (auto simp: has_terminal_def)

lemma upto_terminal_once: "ends_once es \<Longrightarrow> upto_terminal es = es"
  by (induction es) (auto simp: ends_once_Cons)

lemma has_terminal_simps [simp]:
  "\<not> has_terminal []" "has_terminal (e # es) \<longleftrightarrow> isTerminalEventType (evType e) \<or> has_terminal es"
  "has_terminal (xs @ ys) \<longleftrightarrow> has_terminal xs \<or> has_terminal ys"
  by (auto simp: has_terminal_def)

lemma frames_append:
  "events_of (c \<lparr>clFrames := clFrames c @ fs\<rparr>) =
     events_of c @ List.map_filter (\<lambda>f. case f of Event_frame e \<Rightarrow> Some e | _ \<Rightarrow> None) fs"
  "ends_of (c \<lparr>clFrames := clFrames c @ fs\<rparr>) =
     ends_of c + length (filter (\<lambda>f. case f of Event_frame e \<Rightarrow> False | _ \<Rightarrow> True) fs)"
  by (simp_all add: events_of_def ends_of_def map_filter_def)

lemma end_frame_no_event: "(case end_frame sid r of Event_frame e \<Rightarrow> P e | End_frame a b c d e \<Rightarrow> Q) = Q"
  by (simp add: end_frame_def split: option.split)

lemma deliver_terminal:
  assumes "\<And>f. wr f" and "\<not> clClosed c" and "evSequence ev \<notin> clSentSequences c"
    and "isTerminalEventType (evType ev)"
  shows "events_of (deliver wr d sid ev c) = events_of c @ [ev]" and "ends_of (deliver wr d sid ev c) = ends_of c + 1"
    and "clClosed (deliver wr d sid ev c)" and "\<not> clListening (deliver wr d sid ev c)"
  using assms
  by (simp_all add: deliver_def sendEvent_def sendEnd_def sse_close_def subscription_close_def events_of_def
      ends_of_def map_filter_def end_frame_no_event)

text \<open>What delivery does to a client whose stream goes on.\<close>

definition taken :: "canonical_event list \<Rightarrow> client \<Rightarrow> client" where
  "taken es c =
     c \<lparr>clFrames := clFrames c @ map Event_frame es,
        clSentSequences := evSequence ` set es \<union> clSentSequences c\<rparr>"

lemma deliver_more:
  assumes "\<And>f. wr f" and "\<not> clClosed c" and "evSequence ev \<notin> clSentSequences c"
    and "\<not> isTerminalEventType (evType ev)"
  shows "deliver wr d sid ev c = taken [ev] c"
  using assms by (simp add: deliver_def sendEvent_def taken_def)

lemma taken_append [simp]: "taken ys (taken xs c) = taken (xs @ ys) c"
  by (simp add: taken_def image_Un Un_ac)

lemma taken_sel [simp]:
  "clClosed (taken es c) = clClosed c" "clListening (taken es c) = clListening c"
  "clLive (taken es c) = clLive c" "clTarget (taken es c) = clTarget c"
  "clBuffer (taken es c) = clBuffer c" "clReleased (taken es c) = clReleased c"
  "clSentSequences (taken es c) = evSequence ` set es \<union> clSentSequences c"
  "events_of (taken es c) = events_of c @ es" "ends_of (taken es c) = ends_of c"
  by (simp_all add: taken_def events_of_def ends_of_def map_filter_def filter_empty_conv comp_def)

lemma taken_Nil [simp]: "taken [] c = c"
  by (simp add: taken_def)

abbreviation backlog :: "(frame \<Rightarrow> bool) \<Rightarrow> db \<Rightarrow> string \<Rightarrow> canonical_event list \<Rightarrow> client \<Rightarrow> client" where
  "backlog wr d sid \<equiv> fold (\<lambda>ev c. if clClosed c then c else deliver wr d sid ev c)"

lemma backlog_closed: "clClosed c \<Longrightarrow> backlog wr d sid es c = c"
  by (induction es) simp_all

lemma backlog_open:
  assumes "\<And>f. wr f" and "\<not> clClosed c" and "distinct (map evSequence es)"
    and "evSequence ` set es \<inter> clSentSequences c = {}" and "\<not> has_terminal es"
  shows "backlog wr d sid es c = taken es c"
  using assms(2-)
proof (induction es arbitrary: c)
  case (Cons e es)
  then have "deliver wr d sid e c = taken [e] c" by (intro deliver_more assms) auto
  moreover have "backlog wr d sid es (taken [e] c) = taken es (taken [e] c)"
    using Cons.prems by (intro Cons.IH) auto
  ultimately show ?case using Cons.prems by simp
qed simp

lemma backlog_terminal:
  assumes "\<And>f. wr f" and "\<not> clClosed c" and "distinct (map evSequence es)"
    and "evSequence ` set es \<inter> clSentSequences c = {}" and "has_terminal es"
  shows "events_of (backlog wr d sid es c) = events_of c @ upto_terminal es \<and>
    ends_of (backlog wr d sid es c) = ends_of c + 1 \<and> clClosed (backlog wr d sid es c) \<and>
    \<not> clListening (backlog wr d sid es c)"
  using assms(2-)
proof (induction es arbitrary: c)
  case (Cons e es)
  show ?case
  proof (cases "isTerminalEventType (evType e)")
    case True
    with Cons.prems have "evSequence e \<notin> clSentSequences c" by auto
    from deliver_terminal [OF assms(1) Cons.prems(1) this True] True Cons.prems(1) show ?thesis
      by (simp add: backlog_closed)
  next
    case False
    have "deliver wr d sid e c = taken [e] c" using Cons.prems False by (intro deliver_more assms) auto
    moreover have "events_of (backlog wr d sid es (taken [e] c)) = events_of (taken [e] c) @ upto_terminal es \<and>
      ends_of (backlog wr d sid es (taken [e] c)) = ends_of (taken [e] c) + 1 \<and>
      clClosed (backlog wr d sid es (taken [e] c)) \<and> \<not> clListening (backlog wr d sid es (taken [e] c))"
      using Cons.prems False by (intro Cons.IH) auto
    ultimately show ?thesis using Cons.prems False by simp
  qed
qed simp

lemma receive_off: "\<not> clListening c \<Longrightarrow> receive wr sid ps c = c"
  by (induction ps) (auto split: prod.split)

lemma receive_open:
  assumes "\<And>f. wr f" and "\<not> clClosed c" and "clListening c" and "clLive c" and "clTarget c"
    and "distinct (map evSequence (map snd ps))"
    and "evSequence ` set (map snd ps) \<inter> clSentSequences c = {}"
  shows "events_of (receive wr sid ps c) = events_of c @ upto_terminal (map snd ps) \<and>
    ends_of (receive wr sid ps c) = ends_of c + (if has_terminal (map snd ps) then 1 else 0)"
  using assms(2-)
proof (induction ps arbitrary: c)
  case (Cons p ps)
  obtain d e where p: "p = (d, e)" by (cases p)
  show ?case
  proof (cases "isTerminalEventType (evType e)")
    case True
    from Cons.prems p have "evSequence e \<notin> clSentSequences c" by auto
    from deliver_terminal [OF assms(1) Cons.prems(1) this True] True Cons.prems p show ?thesis
      by (simp add: on_publish_def receive_off)
  next
    case False
    have "deliver wr d sid e c = taken [e] c" using Cons.prems False p by (intro deliver_more assms) auto
    moreover have "events_of (receive wr sid ps (taken [e] c)) = events_of (taken [e] c) @ upto_terminal (map snd ps) \<and>
      ends_of (receive wr sid ps (taken [e] c)) = ends_of (taken [e] c) + (if has_terminal (map snd ps) then 1 else 0)"
      using Cons.prems p by (intro Cons.IH) auto
    ultimately show ?thesis using Cons.prems False p by (simp add: on_publish_def)
  qed
qed simp

lemma new_client_sel [simp]:
  "\<not> clClosed new_client" "clListening new_client" "clSentSequences new_client = {}" "clBuffer new_client = []"
  "events_of new_client = []" "ends_of new_client = 0" "\<not> clReleased new_client" "\<not> clLive new_client"
  by (simp_all add: new_client_def events_of_def ends_of_def map_filter_def)


section \<open>Attaching\<close>

lemma attach_open:
  assumes "\<And>f. wr f" and "findById d sid = Some row" and "\<not> isTerminalStatus (rowStatus row)"
    and "distinct (map evSequence (listForSession d sid n))" and "\<not> has_terminal (listForSession d sid n)"
  obtains c where "attach wr d sid n = Some c" and "\<not> clClosed c" and "clListening c" and "clLive c"
    and "clTarget c" and "events_of c = listForSession d sid n" and "ends_of c = 0"
    and "clSentSequences c = evSequence ` set (listForSession d sid n)"
proof -
  let ?es = "listForSession d sid n"
  have b: "backlog wr d sid ?es new_client = taken ?es new_client"
    using assms by (intro backlog_open) simp_all
  let ?c = "(taken ?es new_client) \<lparr>clTarget := True, clBuffer := [], clLive := True\<rparr>"
  have "attach wr d sid n = Some ?c"
    using assms(2,3) b by (simp add: attach_def Let_def flush_def)
  then show thesis
    by (rule that) (simp_all add: taken_def events_of_def ends_of_def map_filter_def new_client_def
        comp_def filter_empty_conv)
qed

lemma attach_over:
  assumes "\<And>f. wr f" and "findById d sid = Some row" and "isTerminalStatus (rowStatus row)"
    and "distinct (map evSequence (listForSession d sid n))" and "ends_once (listForSession d sid n)"
  obtains c where "attach wr d sid n = Some c" and "\<not> clListening c"
    and "events_of c = listForSession d sid n" and "ends_of c = 1"
proof -
  let ?es = "listForSession d sid n"
  have fr: "events_of (subscription_close c) = events_of c" "ends_of (subscription_close c) = ends_of c"
    "\<not> clListening (subscription_close c)" "clClosed (subscription_close c) = clClosed c" for c
    by (simp_all add: subscription_close_def events_of_def ends_of_def)
  show thesis
  proof (cases "has_terminal ?es")
    case True
    from backlog_terminal [where wr = wr and d = d and sid = sid and c = new_client, OF assms(1) _ assms(4) _ True]
    have b: "events_of (backlog wr d sid ?es new_client) = upto_terminal ?es"
      "ends_of (backlog wr d sid ?es new_client) = 1" "clClosed (backlog wr d sid ?es new_client)" by simp_all
    show thesis
      by (rule that [of "subscription_close (backlog wr d sid ?es new_client)"])
         (use assms(2,5) b fr in \<open>simp_all add: attach_def Let_def upto_terminal_once\<close>)
  next
    case False
    have b: "backlog wr d sid ?es new_client = taken ?es new_client"
      using assms False by (intro backlog_open) simp_all
    let ?c = "sendEnd wr (end_frame sid (Some row)) (subscription_close (taken ?es new_client))"
    have "attach wr d sid n = Some ?c"
      using assms(2,3) b by (simp add: attach_def Let_def)
    then show thesis
      by (rule that) (simp_all add: assms(1) sendEnd_def sse_close_def subscription_close_def taken_def
          events_of_def ends_of_def map_filter_def new_client_def end_frame_no_event comp_def filter_empty_conv)
  qed
qed

section \<open>Two moments of one run\<close>

lemma calm_run_snoc:
  assumes "calm_run cf sid (as @ [a]) w'"
  obtains w where "calm_run cf sid as w" and "perform cf a w = Done w'"
  using assms by (cases rule: calm_run.cases) auto

lemma calm_run_unique: "calm_run cf sid as w \<Longrightarrow> calm_run cf sid as v \<Longrightarrow> w = v"
proof (induction arbitrary: v rule: calm_run.induct)
  case start
  then show ?case by (cases rule: calm_run.cases) auto
next
  case (step as w a w')
  from step.prems obtain u where "calm_run cf sid as u" "perform cf a u = Done v"
    by (rule calm_run_snoc)
  with step.IH [of u] step.hyps(4) show ?case by simp
qed

lemma calm_run_extends:
  assumes "calm_run cf sid as w" and "calm_run cf sid (as @ bs) w'"
  shows "log_step w w' \<and> grows w w'"
  using assms(2)
proof (induction bs arbitrary: w' rule: rev_induct)
  case Nil
  with calm_run_unique [OF assms(1)] show ?case by simp
next
  case (snoc b bs)
  then have "calm_run cf sid ((as @ bs) @ [b]) w'" by simp
  then obtain v where v: "calm_run cf sid (as @ bs) v" "perform cf b v = Done w'"
    by (rule calm_run_snoc)
  from v(2) have "log_step v w'" "grows v w'"
    using log_step_perform [of v cf b] grows_perform [of v cf b] by simp_all
  with snoc.IH [OF v(1)] show ?case by (blast intro: log_step_trans grows_trans)
qed

text \<open>The publications of a session between two moments.\<close>

definition published_since :: "world \<Rightarrow> world \<Rightarrow> string \<Rightarrow> canonical_event list" where
  "published_since w w' sid = filter (\<lambda>e. evSessionId e = sid) (drop (length (wBus w)) (wBus w'))"

lemma published_suffix:
  assumes "log_step w w'" and "world_ok w" and "world_ok w'"
    and "dbSessions (wDb w) sid \<noteq> None" and "dbSessions (wDb w') sid \<noteq> None"
  shows "session_events (wDb w') sid = session_events (wDb w) sid @ published_since w w' sid"
proof -
  from assms(1) obtain new where new: "dbEvents (wDb w') = dbEvents (wDb w) @ new"
    "wBus w' = wBus w @ filter announced new" by (auto simp: log_step_def)
  let ?m = "filter (\<lambda>e. evSessionId e = sid) new"
  from assms(2,4) obtain e rest where e: "session_events (wDb w) sid = e # rest"
    unfolding world_ok_def origin_ok_def by meson
  from assms(3,5) obtain e' rest' where e': "session_events (wDb w') sid = e' # rest'"
    "\<forall>x \<in> set rest'. announced x" unfolding world_ok_def origin_ok_def by meson
  have all: "session_events (wDb w') sid = session_events (wDb w) sid @ ?m"
    by (simp add: session_events_def new)
  with e e' have "\<forall>x \<in> set ?m. announced x" by auto
  then have "filter announced ?m = ?m" by (simp only: filter_True)
  then have "published_since w w' sid = ?m"
    by (simp add: published_since_def new filter_filter conj_commute)
  with all show ?thesis by simp
qed

lemma listForSession_numbered:
  assumes "numbered (session_events d sid)"
  shows "listForSession d sid n = drop (nat (n + 1)) (session_events d sid)"
proof -
  let ?es = "session_events d sid"
  have f: "filter (\<lambda>e. n < evSequence e) es = drop (nat (n + 1)) es" if "numbered es" for es
    using that
  proof (induction es rule: rev_induct)
    case (snoc e es)
    then have "filter (\<lambda>e. n < evSequence e) es = drop (nat (n + 1)) es" "evSequence e = int (length es)"
      by (simp_all add: numbered_snoc)
    then show ?case by (auto simp: le_nat_iff)
  qed simp
  have "numbered es \<Longrightarrow> sort_key evSequence (drop k es) = drop k es" for es k
    using numbered_increasing [of es]
    by (simp add: sort_key_id_if_sorted strict_sorted_iff sorted_wrt_drop flip: drop_map)
  with f [OF assms] assms show ?thesis by (simp add: listForSession_def)
qed

lemma ends_once_append: "ends_once (xs @ ys) \<Longrightarrow> has_terminal xs \<Longrightarrow> ys = []"
  by (cases ys rule: rev_cases) (auto simp: ends_once_def has_terminal_def butlast_append)

lemma ends_once_suffix: "ends_once (xs @ ys) \<Longrightarrow> ends_once ys"
  by (cases "ys = []") (auto simp: ends_once_def butlast_append)

text \<open>C3: A live client sees the replay. Whenever in an undisturbed run without logged losses a client
  attaches to a session, with any resume position from -1 up to the last stored event, every write to
  it succeeds, and whatever is published from then on to any later moment: the events written to it are, in order, exactly what
  a replay from its resume position returns at that moment -- none missed at the seam between
  backlog and live delivery, none twice -- and the stream has been ended once if the session is
  over and not otherwise. So a client that reconnects with the last sequence it saw continues
  without gap or repetition.\<close>
theorem subscriber_sees_the_replay:
  assumes wr: "\<And>f. wr f" and run: "calm_run cf sid as w" "calm_run cf sid (as @ bs) w'"
    and clean: "\<not> faulty w' sid"
    and row: "findById (wDb w) sid = Some row" "findById (wDb w') sid = Some row'"
    and pos: "- 1 \<le> n" "n < int (eventCount (wDb w) sid)"
    and pubs: "map snd ps = published_since w w' sid"
  shows "\<exists>c. attach wr (wDb w) sid n = Some c \<and>
    events_of (receive wr sid ps c) = listForSession (wDb w') sid n \<and>
    ends_of (receive wr sid ps c) = (if isTerminalStatus (rowStatus row') then 1 else 0)"
proof -
  note ext = calm_run_extends [OF run]
  from ext clean have clean0: "\<not> faulty w sid" by (blast dest: grows_faulty)
  have ok: "world_ok w" "world_ok w'" using run by (auto intro: reachable_ok calm_run_reachable)
  from row have r: "dbSessions (wDb w) sid = Some row" "dbSessions (wDb w') sid = Some row'"
    by (simp_all add: findById_def)
  note l = stored_lifecycle [OF run(1) clean0 r(1)] and l' = stored_lifecycle [OF run(2) clean r(2)]
  let ?e = "session_events (wDb w) sid" and ?p = "published_since w w' sid" and ?k = "nat (n + 1)"
  have split: "session_events (wDb w') sid = ?e @ ?p"
    using published_suffix [of w w' sid] ext ok r by simp
  have k: "?k \<le> length ?e" using pos by (simp add: eventCount_def nat_le_iff)
  have L: "listForSession (wDb w) sid n = drop ?k ?e" "listForSession (wDb w') sid n = drop ?k ?e @ ?p"
    using l(1,2) l'(1,2) k by (simp_all add: listForSession_numbered split)
  have num: "numbered (?e @ ?p)" using l'(1,2) split by simp
  then have dist: "distinct (map evSequence (?e @ ?p))"
    by (simp only: numbered_def) (simp add: distinct_map)
  have once: "ends_once (?e @ ?p)" using l'(1,3) split by simp
  have d: "distinct (map evSequence (drop ?k ?e))"
    using dist by (simp flip: drop_map)
  have oe: "ends_once ?e" using l(1,3) by simp
  then have ods: "ends_once (drop ?k ?e)"
    using ends_once_suffix [of "take ?k ?e" "drop ?k ?e"] by simp
  have T: "has_terminal ?e = isTerminalStatus (rowStatus row)" using l(1,4) by simp
  have T': "has_terminal (?e @ ?p) = isTerminalStatus (rowStatus row')" using l'(1,4) split by simp
  show ?thesis
  proof (cases "isTerminalStatus (rowStatus row)")
    case True
    with T once have p: "?p = []" by (blast intro: ends_once_append)
    with T T' True have t': "isTerminalStatus (rowStatus row')" by simp
    obtain c where c: "attach wr (wDb w) sid n = Some c" "\<not> clListening c"
      "events_of c = listForSession (wDb w) sid n" "ends_of c = 1"
      by (rule attach_over [OF wr row(1) True, where n = n]) (use d ods L in simp_all)
    then show ?thesis using L p t' by (simp add: receive_off)
  next
    case False
    with T have nt: "\<not> has_terminal ?e" by simp
    then have ntd: "\<not> has_terminal (drop ?k ?e)"
      by (auto simp: has_terminal_def dest: in_set_dropD)
    obtain c where c: "attach wr (wDb w) sid n = Some c" "\<not> clClosed c" "clListening c" "clLive c"
      "clTarget c" "events_of c = drop ?k ?e" "ends_of c = 0"
      "clSentSequences c = evSequence ` set (drop ?k ?e)"
      by (rule attach_open [OF wr row(1) False, where n = n]) (use d ntd L in simp_all)
    have dp: "distinct (map evSequence ?p)" using dist by simp
    have dj: "evSequence ` set ?p \<inter> clSentSequences c = {}"
      using dist c(8) by (auto dest: in_set_dropD)
    have u: "upto_terminal ?p = ?p" using ends_once_suffix [OF once] by (rule upto_terminal_once)
    have "has_terminal ?p = isTerminalStatus (rowStatus row')" using T' nt by simp
    with receive_open [where wr = wr and sid = sid and ps = ps and c = c, OF wr c(2-5)] dp dj u c L pubs
    show ?thesis by simp
  qed
qed


theorem subscriber_sees_the_replay_witness:
  "\<exists>w w' c ps. map snd ps = published_since w w' sample_sid \<and>
     attach (\<lambda>f. True) (wDb w) sample_sid (- 1) = Some c \<and>
     length (events_of (receive (\<lambda>f. True) sample_sid ps c)) = 5 \<and>
     ends_of (receive (\<lambda>f. True) sample_sid ps c) = 1"
proof -
  obtain w w' row' where w: "calm_run sample_config sample_sid [sample_start, sample_output] w"
    "live w sample_sid"
    "calm_run sample_config sample_sid [sample_start, sample_output, sample_close] w'"
    "\<not> faulty w' sample_sid" "findById (wDb w') sample_sid = Some row'" "rowStatus row' = COMPLETED"
    "length (listAllForSession (wDb w') sample_sid) = 5"
    by (rule sample_facts)
  have run: "calm_run sample_config sample_sid ([sample_start, sample_output] @ [sample_close]) w'"
    using w(3) by simp
  from w(2) reachable_ok [OF calm_run_reachable [OF w(1)]] obtain row
    where row: "findById (wDb w) sample_sid = Some row"
    by (auto simp: live_def world_ok_def objects_ok_def findById_def)
  let ?ps = "map (Pair (wDb w')) (published_since w w' sample_sid)"
  have ps: "map snd ?ps = published_since w w' sample_sid" by (simp add: comp_def)
  have "listForSession (wDb w') sample_sid (- 1) = listAllForSession (wDb w') sample_sid"
    using w(5) stored_lifecycle(1,2) [OF w(3,4)] by (simp add: findById_def listForSession_numbered)
  with subscriber_sees_the_replay [OF TrueI w(1) run w(4) row w(5) _ _ ps, of "- 1"] w(6,7)
  obtain c where "attach (\<lambda>f. True) (wDb w) sample_sid (- 1) = Some c"
    "length (events_of (receive (\<lambda>f. True) sample_sid ?ps c)) = 5"
    "ends_of (receive (\<lambda>f. True) sample_sid ?ps c) = 1"
    by (auto simp: isTerminalStatus_cases)
  with ps show ?thesis by blast
qed

section \<open>The stream of all sessions delivers once\<close>

definition id_taken :: "canonical_event list \<Rightarrow> client \<Rightarrow> client" where
  "id_taken es c =
     c \<lparr>clFrames := clFrames c @ map Event_frame es, clSentIds := evId ` set es \<union> clSentIds c\<rparr>"

lemma receive_global_open:
  assumes "\<And>f. wr f" and "\<not> clClosed c" and "clListening c" and "clLive c" and "clTarget c"
    and "distinct (map evId ps)"
  shows "events_of (receive_global wr ps c) = events_of c @ filter (\<lambda>e. evId e \<notin> clSentIds c) ps"
  using assms(2-)
proof (induction ps arbitrary: c)
  case (Cons e ps)
  show ?case
  proof (cases "evId e \<in> clSentIds c")
    case True
    with Cons show ?thesis by (simp add: on_publish_def deliver_global_def)
  next
    case False
    then have "deliver_global wr e c = id_taken [e] c"
      using Cons.prems assms(1) by (simp add: deliver_global_def sendEvent_def id_taken_def)
    moreover have "events_of (receive_global wr ps (id_taken [e] c)) =
        events_of (id_taken [e] c) @ filter (\<lambda>x. evId x \<notin> clSentIds (id_taken [e] c)) ps"
      using Cons.prems by (intro Cons.IH) (simp_all add: id_taken_def)
    moreover have "filter (\<lambda>x. evId x \<noteq> evId e \<and> evId x \<notin> clSentIds c) ps =
        filter (\<lambda>x. evId x \<notin> clSentIds c) ps"
      using Cons.prems(5) by (intro filter_cong) (auto simp: image_iff)
    moreover have "events_of (id_taken [e] c) = events_of c @ [e]" "clSentIds (id_taken [e] c) = insert (evId e) (clSentIds c)"
      by (simp_all add: id_taken_def events_of_def map_filter_def)
    ultimately show ?thesis using Cons.prems False by (simp add: on_publish_def)
  qed
qed simp

theorem global_stream_delivers_once:
  assumes "\<And>f. wr f" and "distinct (map evId ps)"
  shows "events_of (receive_global wr ps (attach_global wr d)) =
    fst (listRecentGlobal d 30) @ filter (\<lambda>e. evId e \<notin> evId ` set (fst (listRecentGlobal d 30))) ps"
proof -
  let ?r = "fst (listRecentGlobal d 30)"
  have "fold (\<lambda>ev c. if clClosed c then c
      else sendEvent wr ev (c \<lparr>clSentIds := insert (evId ev) (clSentIds c)\<rparr>)) es c = id_taken es c"
    if "\<not> clClosed c" for es c
    using that
  proof (induction es arbitrary: c)
    case (Cons e es)
    have "sendEvent wr e (c \<lparr>clSentIds := insert (evId e) (clSentIds c)\<rparr>) = id_taken [e] c"
      using Cons.prems assms(1) by (simp add: sendEvent_def id_taken_def)
    moreover have "id_taken es (id_taken [e] c) = id_taken (e # es) c"
      by (simp add: id_taken_def)
    moreover have "\<not> clClosed (id_taken [e] c)" using Cons.prems by (simp add: id_taken_def)
    ultimately show ?case using Cons.IH [of "id_taken [e] c"] Cons.prems by simp
  qed (simp add: id_taken_def)
  from this [of new_client ?r]
  have a: "attach_global wr d = (id_taken ?r new_client) \<lparr>clSentIds := evId ` set ?r, clTarget := True,
      clBuffer := [], clLive := True\<rparr>"
    by (simp add: attach_global_def listRecentGlobal_def Let_def flush_def id_taken_def new_client_def)
  have e: "events_of (attach_global wr d) = ?r" "clSentIds (attach_global wr d) = evId ` set ?r"
    unfolding a by (simp_all add: id_taken_def new_client_def events_of_def map_filter_def comp_def)
  have "events_of (receive_global wr ps (attach_global wr d)) =
      events_of (attach_global wr d) @ filter (\<lambda>e. evId e \<notin> clSentIds (attach_global wr d)) ps"
    by (rule receive_global_open [OF assms(1) _ _ _ _ assms(2)])
       (simp_all add: a id_taken_def new_client_def)
  then show ?thesis unfolding e .
qed

end
