(* ===== verification/Process_Telemetry.thy ===== *)
theory Process_Telemetry
  imports Process_Identity Path_Policy
begin

text \<open>
  \<^verbatim>\<open>web/backend/src/telemetry/types.ts\<close>, \<^verbatim>\<open>collector.ts\<close> and \<^verbatim>\<open>derive.ts\<close>: one snapshot of a
  process from procfs, and the rates between two snapshots.  The files and the program
  \<^verbatim>\<open>getconf\<close> are the record \<open>procfs\<close>.  A snapshot's metrics are a function of \<open>metric_key\<close>, since
  the code assigns them by key; a reason is the constructor of its message.  The text
  \<open>new Date(ms).toISOString()\<close> is represented by the time \<open>ms\<close> it spells (\<open>Instant\<close>).  A number that
  is not an integer is an exact rational: the rounding of doubles is not modelled, nor their
  overflow to infinity.  The platform is Linux, \<open>procRoot\<close> is \<^verbatim>\<open>/proc\<close>, and \<^verbatim>\<open>getconf\<close> can be executed
  where it exists (\<open>result.stdout\<close> is \<open>null\<close> otherwise).
\<close>

section \<open>The snapshot contract\<close>

datatype provenance = Observed | Derived | Unavailable

datatype metric_key =
    K_pid | K_capsEnginePid | K_command | K_ppid | K_processGroupId | K_sessionId | K_state
  | K_startTime | K_elapsedMs
  | K_cpuUserMs | K_cpuSystemMs | K_cpuTimeMs | K_cpuPercent
  | K_rssBytes | K_virtualMemoryBytes
  | K_threadCount | K_voluntaryContextSwitches | K_nonVoluntaryContextSwitches
  | K_minorFaults | K_majorFaults | K_minorFaultsPerSec | K_majorFaultsPerSec
  | K_rcharBytes | K_wcharBytes | K_readBytes | K_writeBytes
  | K_rcharBytesPerSec | K_wcharBytesPerSec | K_readBytesPerSec | K_writeBytesPerSec

datatype metric_value = Num rat | Text string | Instant int

datatype metric_reason =
    Process_gone | Permission_denied | Read_failed errno
  | Malformed_command_field | Malformed_fields | Invalid_integer | Unsafe_integer
  | Unexpected_negative | Stat_pid_mismatch
  | No_io_counters | Io_counter_absent | Field_absent
  | No_uptime | No_clock_ticks | First_sample
  | Counter_unavailable metric_key string | Counter_decreased metric_key rat rat string
  | Cpu_time_unavailable | Cpu_time_decreased rat rat
  | No_engine_pid
  | Engine_pid_unknown | Ppid_mismatch | Start_time_mismatch | Identity_changed

record metric =
  mValue :: "metric_value option"
  mProvenance :: provenance
  mSource :: string
  mReason :: "metric_reason option"

record snapshot =
  psTimestamp :: rat
  psMetric :: "metric_key \<Rightarrow> metric"
  psIdentityStartTicks :: "nat option"

definition SNAPSHOT_METRIC_KEYS :: "metric_key list" where
  "SNAPSHOT_METRIC_KEYS =
     [K_pid, K_capsEnginePid, K_command, K_ppid, K_processGroupId, K_sessionId, K_state,
      K_startTime, K_elapsedMs, K_cpuUserMs, K_cpuSystemMs, K_cpuTimeMs, K_cpuPercent,
      K_rssBytes, K_virtualMemoryBytes, K_threadCount, K_voluntaryContextSwitches,
      K_nonVoluntaryContextSwitches, K_minorFaults, K_majorFaults, K_minorFaultsPerSec,
      K_majorFaultsPerSec, K_rcharBytes, K_wcharBytes, K_readBytes, K_writeBytes,
      K_rcharBytesPerSec, K_wcharBytesPerSec, K_readBytesPerSec, K_writeBytesPerSec]"

definition GATEWAY_METRIC_KEYS :: "metric_key list" where
  "GATEWAY_METRIC_KEYS = [K_capsEnginePid]"

definition COLLECTED_METRIC_KEYS :: "metric_key list" where
  "COLLECTED_METRIC_KEYS = filter (\<lambda>k. k \<notin> set GATEWAY_METRIC_KEYS) SNAPSHOT_METRIC_KEYS"

definition RATE_METRIC_KEYS :: "metric_key list" where
  "RATE_METRIC_KEYS =
     [K_cpuPercent, K_minorFaultsPerSec, K_majorFaultsPerSec, K_rcharBytesPerSec,
      K_wcharBytesPerSec, K_readBytesPerSec, K_writeBytesPerSec]"

definition COUNTER_RATES :: "(metric_key \<times> metric_key \<times> string) list" where
  "COUNTER_RATES =
     [(K_minorFaults, K_minorFaultsPerSec, ''faults/s''),
      (K_majorFaults, K_majorFaultsPerSec, ''faults/s''),
      (K_rcharBytes, K_rcharBytesPerSec, ''bytes/s''),
      (K_wcharBytes, K_wcharBytesPerSec, ''bytes/s''),
      (K_readBytes, K_readBytesPerSec, ''bytes/s''),
      (K_writeBytes, K_writeBytesPerSec, ''bytes/s'')]"

definition TELEMETRY_CATEGORIES :: "(string \<times> metric_key list) list" where
  "TELEMETRY_CATEGORIES =
     [(''cpu'', [K_cpuUserMs, K_cpuSystemMs, K_cpuTimeMs, K_cpuPercent]),
      (''memory'', [K_rssBytes, K_virtualMemoryBytes]),
      (''pageFaults'', [K_minorFaults, K_majorFaults, K_minorFaultsPerSec, K_majorFaultsPerSec]),
      (''io'', [K_rcharBytes, K_wcharBytes, K_readBytes, K_writeBytes,
        K_rcharBytesPerSec, K_wcharBytesPerSec, K_readBytesPerSec, K_writeBytesPerSec]),
      (''threads'', [K_threadCount]),
      (''contextSwitches'', [K_voluntaryContextSwitches, K_nonVoluntaryContextSwitches]),
      (''identity'', [K_pid, K_capsEnginePid, K_ppid, K_processGroupId, K_sessionId, K_state,
        K_command, K_startTime, K_elapsedMs])]"

text \<open>\<^verbatim>\<open>telemetry/capabilities.ts\<close>: how the API says a metric comes about.\<close>

datatype provenance_class = Class_observed | Class_derived | Class_gateway

definition DERIVED_ONLY_METRICS :: "metric_key list" where
  "DERIVED_ONLY_METRICS =
     [K_startTime, K_elapsedMs, K_cpuUserMs, K_cpuSystemMs, K_cpuTimeMs] @ RATE_METRIC_KEYS"

definition classifyMetric :: "metric_key \<Rightarrow> provenance_class" where
  "classifyMetric key =
     (if key \<in> set GATEWAY_METRIC_KEYS then Class_gateway
      else if key \<in> set DERIVED_ONLY_METRICS then Class_derived
      else Class_observed)"

definition observed :: "metric_value \<Rightarrow> string \<Rightarrow> metric" where
  "observed v src = \<lparr>mValue = Some v, mProvenance = Observed, mSource = src, mReason = None\<rparr>"

definition derived :: "metric_value \<Rightarrow> string \<Rightarrow> metric" where
  "derived v src = \<lparr>mValue = Some v, mProvenance = Derived, mSource = src, mReason = None\<rparr>"

definition unavailable :: "string \<Rightarrow> metric_reason \<Rightarrow> metric" where
  "unavailable src r =
     \<lparr>mValue = None, mProvenance = Unavailable, mSource = src, mReason = Some r\<rparr>"

section \<open>Reading numbers\<close>

text \<open>
  \<open>Number(s)\<close>: blanks around the text are ignored, the empty text is 0, then a decimal literal
  with an optional sign, fraction and exponent, or a hexadecimal, octal or binary literal.  \<open>None\<close>
  stands for \<open>NaN\<close> and the infinities.
\<close>

definition digits_in :: "nat \<Rightarrow> char \<Rightarrow> nat option" where
  "digits_in base c =
     (let n = (of_char c :: nat);
          d = (if 48 \<le> n \<and> n \<le> 57 then n - 48
               else if 97 \<le> n \<and> n \<le> 102 then n - 87
               else if 65 \<le> n \<and> n \<le> 70 then n - 55 else 36) in
      if d < base then Some d else None)"

definition radix_value :: "nat \<Rightarrow> string \<Rightarrow> rat option" where
  "radix_value base s =
     (if s = [] \<or> (\<exists>c \<in> set s. digits_in base c = None) then None
      else Some (of_nat (foldl (\<lambda>n c. base * n + the (digits_in base c)) 0 s)))"

definition exponent_value :: "rat \<Rightarrow> string \<Rightarrow> rat option" where
  "exponent_value m s =
     (let neg = prefix ''-'' s; ds = (if prefix ''-'' s \<or> prefix ''+'' s then tl s else s) in
      if ds = [] \<or> \<not> (\<forall>c \<in> set ds. is_digit c) then None
      else Some (if neg then m / 10 ^ decimal_value ds else m * 10 ^ decimal_value ds))"

definition unsigned_decimal :: "string \<Rightarrow> rat option" where
  "unsigned_decimal s =
     (let ip = takeWhile is_digit s; r = dropWhile is_digit s;
          fp = (if prefix ''.'' r then takeWhile is_digit (tl r) else []);
          r' = (if prefix ''.'' r then dropWhile is_digit (tl r) else r);
          m = of_nat (decimal_value ip) + of_nat (decimal_value fp) / 10 ^ length fp in
      if ip = [] \<and> fp = [] then None
      else if r' = [] then Some m
      else if hd r' \<in> {CHR ''e'', CHR ''E''} then exponent_value m (tl r')
      else None)"

definition js_number :: "string \<Rightarrow> rat option" where
  "js_number s =
     (let t = js_trim s in
      if t = [] then Some 0
      else if prefix ''0x'' t \<or> prefix ''0X'' t then radix_value 16 (drop 2 t)
      else if prefix ''0o'' t \<or> prefix ''0O'' t then radix_value 8 (drop 2 t)
      else if prefix ''0b'' t \<or> prefix ''0B'' t then radix_value 2 (drop 2 t)
      else if prefix ''-'' t then map_option uminus (unsigned_decimal (tl t))
      else unsigned_decimal (if prefix ''+'' t then tl t else t))"

definition proc_integer :: "string \<Rightarrow> metric_reason + int" where
  "proc_integer value =
     (let ds = (if prefix ''-'' value then tl value else value) in
      if ds = [] \<or> \<not> (\<forall>c \<in> set ds. is_digit c) then Inl Invalid_integer
      else if decimal_value ds > MAX_SAFE_INTEGER then Inl Unsafe_integer
      else Inr (if prefix ''-'' value then - int (decimal_value ds) else int (decimal_value ds)))"

definition nonNegative :: "string \<Rightarrow> metric_reason + nat" where
  "nonNegative value =
     (case proc_integer value of
        Inl e \<Rightarrow> Inl e
      | Inr n \<Rightarrow> if n < 0 then Inl Unexpected_negative else Inr (nat n))"

definition parseFirstInt :: "string option \<Rightarrow> nat option" where
  "parseFirstInt value =
     (case value of
        None \<Rightarrow> None
      | Some v \<Rightarrow>
          (let token = hd (split_spaces v) in
           if token = [] \<or> \<not> (\<forall>c \<in> set token. is_digit c) then None
           else if decimal_value token \<le> MAX_SAFE_INTEGER then Some (decimal_value token) else None))"

definition parseKilobytes :: "string option \<Rightarrow> nat option" where
  "parseKilobytes value =
     (case value of
        None \<Rightarrow> None
      | Some v \<Rightarrow>
          (let t = js_trim v; ds = takeWhile is_digit t; r = dropWhile is_digit t in
           if ds = [] \<or> takeWhile js_space r = [] \<or> dropWhile js_space r \<noteq> ''kB'' then None
           else if decimal_value ds \<le> MAX_SAFE_INTEGER then Some (decimal_value ds * 1024) else None))"

section \<open>Parsing the three files\<close>

record proc_stat =
  tsPid :: int
  tsCommand :: string
  tsState :: string
  tsPpid :: int
  tsProcessGroupId :: int
  tsSessionId :: int
  tsUserTicks :: nat
  tsSystemTicks :: nat
  tsThreadCount :: nat
  tsStartTicks :: nat
  tsMinorFaults :: nat
  tsMajorFaults :: nat

text \<open>\<open>text.indexOf(" (")\<close> and \<open>text.lastIndexOf(")")\<close>; \<open>None\<close> is -1.\<close>

fun index_of_open :: "string \<Rightarrow> nat option" where
  "index_of_open (c # d # s) =
     (if c = CHR '' '' \<and> d = CHR ''('' then Some 0 else map_option Suc (index_of_open (d # s)))"
| "index_of_open _ = None"

definition last_index_of_close :: "string \<Rightarrow> nat option" where
  "last_index_of_close s =
     (if CHR '')'' \<in> set s
      then Some (length s - 1 - length (takeWhile (\<lambda>c. c \<noteq> CHR '')'') (rev s))) else None)"

definition is_letter :: "char \<Rightarrow> bool" where
  "is_letter c \<longleftrightarrow>
     c \<in> set (''ABCDEFGHIJKLMNOPQRSTUVWXYZ'' @ ''abcdefghijklmnopqrstuvwxyz'')"

text \<open>The numbers in the order the object literal reads them.\<close>

definition stat_numbers ::
    "int \<Rightarrow> string \<Rightarrow> string list \<Rightarrow> metric_reason + proc_stat" where
  "stat_numbers pid command columns =
     (case proc_integer (columns ! 1) of Inl e \<Rightarrow> Inl e | Inr ppid \<Rightarrow>
      (case proc_integer (columns ! 2) of Inl e \<Rightarrow> Inl e | Inr pgid \<Rightarrow>
      (case proc_integer (columns ! 3) of Inl e \<Rightarrow> Inl e | Inr sid \<Rightarrow>
      (case nonNegative (columns ! 11) of Inl e \<Rightarrow> Inl e | Inr ut \<Rightarrow>
      (case nonNegative (columns ! 12) of Inl e \<Rightarrow> Inl e | Inr st \<Rightarrow>
      (case nonNegative (columns ! 7) of Inl e \<Rightarrow> Inl e | Inr minf \<Rightarrow>
      (case nonNegative (columns ! 9) of Inl e \<Rightarrow> Inl e | Inr majf \<Rightarrow>
      (case nonNegative (columns ! 17) of Inl e \<Rightarrow> Inl e | Inr threads \<Rightarrow>
      (case nonNegative (columns ! 19) of Inl e \<Rightarrow> Inl e | Inr start \<Rightarrow>
         Inr \<lparr>tsPid = pid, tsCommand = command, tsState = hd columns, tsPpid = ppid,
              tsProcessGroupId = pgid, tsSessionId = sid, tsUserTicks = ut, tsSystemTicks = st,
              tsThreadCount = threads, tsStartTicks = start, tsMinorFaults = minf,
              tsMajorFaults = majf\<rparr>)))))))))"

definition parseProcStat :: "string \<Rightarrow> metric_reason + proc_stat" where
  "parseProcStat text =
     (case (index_of_open text, last_index_of_close text) of
        (Some opn, Some cls) \<Rightarrow>
          if opn = 0 \<or> cls \<le> opn \<or> cls + 2 > length text then Inl Malformed_command_field
          else
            (case proc_integer (js_trim (take opn text)) of
               Inl e \<Rightarrow> Inl e
             | Inr pid \<Rightarrow>
                 (let columns = split_spaces (drop (cls + 1) text) in
                  if length columns < 22 \<or> length (hd columns) \<noteq> 1 \<or> \<not> is_letter (hd (hd columns))
                  then Inl Malformed_fields
                  else stat_numbers pid (take (cls - (opn + 2)) (drop (opn + 2) text)) columns))
      | _ \<Rightarrow> Inl Malformed_command_field)"

text \<open>\<open>text.split(/\r?\n/)\<close>: a carriage return is dropped where a line feed follows it.\<close>

definition drop_cr :: "string \<Rightarrow> string" where
  "drop_cr s = (if s \<noteq> [] \<and> last s = CHR 0x0D then butlast s else s)"

definition split_lines :: "string \<Rightarrow> string list" where
  "split_lines text =
     (let parts = split_on (\<lambda>c. c = CHR 0x0A) text in map drop_cr (butlast parts) @ [last parts])"

text \<open>The key and value of a line with a colon that is not its first character.\<close>

definition colon_line :: "string \<Rightarrow> (string \<times> string) option" where
  "colon_line line =
     (if CHR '':'' \<in> set line \<and> hd line \<noteq> CHR '':''
      then Some (takeWhile (\<lambda>c. c \<noteq> CHR '':'') line, js_trim (tl (dropWhile (\<lambda>c. c \<noteq> CHR '':'') line)))
      else None)"

definition parseProcStatus :: "string \<Rightarrow> string \<rightharpoonup> string" where
  "parseProcStatus text =
     fold (\<lambda>line m. case colon_line line of None \<Rightarrow> m | Some (k, v) \<Rightarrow> m(k \<mapsto> v))
       (split_lines text) Map.empty"

datatype io_key = Io_rchar | Io_wchar | Io_syscr | Io_syscw | Io_readBytes | Io_writeBytes

definition io_key_of :: "string \<Rightarrow> io_key option" where
  "io_key_of k =
     map_of [(''rchar'', Io_rchar), (''wchar'', Io_wchar), (''syscr'', Io_syscr),
       (''syscw'', Io_syscw), (''read_bytes'', Io_readBytes), (''write_bytes'', Io_writeBytes)] k"

definition parseProcIo :: "string \<Rightarrow> io_key \<rightharpoonup> nat" where
  "parseProcIo text =
     fold (\<lambda>line m.
         case colon_line line of
           None \<Rightarrow> m
         | Some (k, v) \<Rightarrow>
             (case (io_key_of (js_trim k), parseFirstInt (Some v)) of
                (Some key, Some n) \<Rightarrow> m(key \<mapsto> n)
              | _ \<Rightarrow> m))
       (split_lines text) Map.empty"

section \<open>One pass over procfs\<close>

record procfs =
  pfStat :: "int \<Rightarrow> errno + string"
  pfStatus :: "int \<Rightarrow> errno + string"
  pfIo :: "int \<Rightarrow> errno + string"
  pfUptime :: "errno + string"
  pfKernelStat :: "errno + string"
  pfGetconf :: "string \<Rightarrow> (int option \<times> string) option"

text \<open>The cache of kernel values; \<open>Some None\<close> is a cached failure.\<close>

record kernel_cache =
  kcClockTicks :: "string \<rightharpoonup> rat option"
  kcBootTime :: "string \<rightharpoonup> rat option"

definition clockTicksPerSecond ::
    "string \<Rightarrow> rat option \<Rightarrow> kernel_cache \<Rightarrow> rat option \<times> kernel_cache" where
  "clockTicksPerSecond key answer c =
     (case kcClockTicks c key of
        Some v \<Rightarrow> (v, c)
      | None \<Rightarrow> (answer, c \<lparr>kcClockTicks := (kcClockTicks c)(key \<mapsto> answer)\<rparr>))"

definition bootTimeSeconds ::
    "string \<Rightarrow> rat option \<Rightarrow> kernel_cache \<Rightarrow> rat option \<times> kernel_cache" where
  "bootTimeSeconds key answer c =
     (case kcBootTime c key of
        Some v \<Rightarrow> (v, c)
      | None \<Rightarrow> (answer, c \<lparr>kcBootTime := (kcBootTime c)(key \<mapsto> answer)\<rparr>))"

definition clear_cache :: "kernel_cache \<Rightarrow> kernel_cache" where
  "clear_cache c = \<lparr>kcClockTicks = Map.empty, kcBootTime = Map.empty\<rparr>"

text \<open>\<open>getconf CLK_TCK\<close>: the exit status and output of each candidate that exists.\<close>

fun probe_getconf :: "procfs \<Rightarrow> string list \<Rightarrow> rat option" where
  "probe_getconf fs [] = None"
| "probe_getconf fs (executable # rest) =
     (case pfGetconf fs executable of
        None \<Rightarrow> probe_getconf fs rest
      | Some (status, stdout) \<Rightarrow>
          (case js_number (js_trim stdout) of
             Some hz \<Rightarrow> if status = Some 0 \<and> hz > 0 then Some hz else probe_getconf fs rest
           | None \<Rightarrow> probe_getconf fs rest))"

definition probeClockTicks :: "procfs \<Rightarrow> rat option" where
  "probeClockTicks fs = probe_getconf fs [''/usr/bin/getconf'', ''/bin/getconf'']"

definition readClockTicksPerSecond :: "procfs \<Rightarrow> kernel_cache \<Rightarrow> rat option \<times> kernel_cache" where
  "readClockTicksPerSecond fs c = clockTicksPerSecond ''/proc|probeClockTicks'' (probeClockTicks fs) c"

definition readUptime :: "procfs \<Rightarrow> rat option" where
  "readUptime fs =
     (case pfUptime fs of
        Inl e \<Rightarrow> None
      | Inr text \<Rightarrow>
          (case js_number (hd (split_spaces text)) of
             Some v \<Rightarrow> if v \<ge> 0 then Some v else None
           | None \<Rightarrow> None))"

definition readBootTimeSeconds :: "procfs \<Rightarrow> rat option" where
  "readBootTimeSeconds fs =
     (case pfKernelStat fs of
        Inl e \<Rightarrow> None
      | Inr text \<Rightarrow>
          (case find (prefix ''btime '') (split_on (\<lambda>c. c = CHR 0x0A) text) of
             None \<Rightarrow> None
           | Some line \<Rightarrow>
               (case js_number (js_trim (drop 6 line)) of
                  Some v \<Rightarrow> if v > 0 then Some v else None
                | None \<Rightarrow> None)))"

fun errorReason :: "errno \<Rightarrow> metric_reason" where
  "errorReason ENOENT = Process_gone"
| "errorReason EACCES = Permission_denied"
| "errorReason (Other_errno e) = (if e = ''EPERM'' then Permission_denied else Read_failed (Other_errno e))"

text \<open>The local variables of \<open>readProcessSnapshot\<close> once the files were read.\<close>

record scan =
  scPid :: int
  scStat :: proc_stat
  scStatus :: "string \<rightharpoonup> string"
  scIo :: "io_key \<rightharpoonup> nat"
  scReason :: "metric_reason option"
  scIoReason :: "metric_reason option"
  scTicks :: "rat option"
  scUptime :: "rat option"
  scBoot :: "rat option"
  scNow :: rat

definition stat_source :: "int \<Rightarrow> string" where
  "stat_source pid = ''/proc/'' @ int_text pid @ ''/stat''"

definition status_source :: "int \<Rightarrow> string" where
  "status_source pid = ''/proc/'' @ int_text pid @ ''/status''"

definition io_source :: "int \<Rightarrow> string" where
  "io_source pid = ''/proc/'' @ int_text pid @ ''/io''"

abbreviation spawn_source :: string where "spawn_source \<equiv> ''gateway child_process.spawn''"
abbreviation derived_source :: string where "derived_source \<equiv> ''DERIVED''"

text \<open>The stat file could not be read: only the pid that was asked for is known.\<close>

definition absent_source :: "int \<Rightarrow> metric_key \<Rightarrow> string" where
  "absent_source pid k =
     (if k = K_capsEnginePid then spawn_source
      else if k \<in> {K_command, K_ppid, K_processGroupId, K_sessionId, K_state, K_minorFaults,
                   K_majorFaults} then stat_source pid
      else if k \<in> {K_rssBytes, K_virtualMemoryBytes, K_threadCount, K_voluntaryContextSwitches,
                   K_nonVoluntaryContextSwitches} then status_source pid
      else if k \<in> {K_readBytes, K_writeBytes, K_rcharBytes, K_wcharBytes} then io_source pid
      else derived_source)"

definition absent_snapshot :: "int \<Rightarrow> rat \<Rightarrow> metric_reason \<Rightarrow> snapshot" where
  "absent_snapshot pid now r =
     \<lparr>psTimestamp = now,
      psMetric = (\<lambda>k. if k = K_pid then observed (Num (of_int pid)) ''CAPS PROCESS_STARTED''
                      else unavailable (absent_source pid k) r),
      psIdentityStartTicks = None\<rparr>"

definition js_trunc :: "rat \<Rightarrow> int" where
  "js_trunc x = (if x < 0 then \<lceil>x\<rceil> else \<lfloor>x\<rfloor>)"

definition js_round :: "rat \<Rightarrow> int" where
  "js_round x = \<lfloor>x + 1 / 2\<rfloor>"

definition elapsed_ms :: "scan \<Rightarrow> rat option" where
  "elapsed_ms s =
     (case (scUptime s, scTicks s) of
        (Some up, Some t) \<Rightarrow> Some (max 0 ((up - of_nat (tsStartTicks (scStat s)) / t) * 1000))
      | _ \<Rightarrow> None)"

definition stable_start_ms :: "scan \<Rightarrow> int option" where
  "stable_start_ms s =
     (case (scBoot s, scTicks s) of
        (Some boot, Some t) \<Rightarrow>
          Some (js_round (boot * 1000 + of_nat (tsStartTicks (scStat s)) / t * 1000))
      | _ \<Rightarrow> None)"

definition start_ms :: "scan \<Rightarrow> int option" where
  "start_ms s =
     (case stable_start_ms s of
        Some ms \<Rightarrow> Some ms
      | None \<Rightarrow> map_option (\<lambda>el. js_trunc (scNow s - el)) (elapsed_ms s))"

definition ticks_ms :: "scan \<Rightarrow> nat \<Rightarrow> rat option" where
  "ticks_ms s n = map_option (\<lambda>t. of_nat n * 1000 / t) (scTicks s)"

definition or_derived :: "rat option \<Rightarrow> string \<Rightarrow> metric_reason \<Rightarrow> metric" where
  "or_derived v src r =
     (case v of None \<Rightarrow> unavailable derived_source r | Some x \<Rightarrow> derived (Num x) src)"

definition or_missing :: "scan \<Rightarrow> nat option \<Rightarrow> string \<Rightarrow> metric" where
  "or_missing s v src =
     (case v of
        None \<Rightarrow> unavailable src (case scReason s of Some r \<Rightarrow> r | None \<Rightarrow> Field_absent)
      | Some n \<Rightarrow> observed (Num (of_nat n)) src)"

definition io_metric :: "scan \<Rightarrow> io_key \<Rightarrow> metric" where
  "io_metric s key =
     (case scIo s key of
        None \<Rightarrow> unavailable (io_source (scPid s))
                  (case scIoReason s of Some r \<Rightarrow> r | None \<Rightarrow> Io_counter_absent)
      | Some n \<Rightarrow> observed (Num (of_nat n)) (io_source (scPid s)))"

abbreviation status_int :: "scan \<Rightarrow> string \<Rightarrow> nat option" where
  "status_int s key \<equiv> parseFirstInt (scStatus s key)"

fun collected :: "scan \<Rightarrow> metric_key \<Rightarrow> metric" where
  "collected s K_pid = observed (Num (of_int (tsPid (scStat s)))) (stat_source (scPid s))"
| "collected s K_capsEnginePid = or_missing s None spawn_source"
| "collected s K_command = observed (Text (tsCommand (scStat s))) (stat_source (scPid s))"
| "collected s K_ppid =
     (case (status_int s ''Pid'', status_int s ''PPid'') of
        (Some _, Some ppid) \<Rightarrow> observed (Num (of_nat ppid)) (status_source (scPid s))
      | _ \<Rightarrow> observed (Num (of_int (tsPpid (scStat s)))) (stat_source (scPid s)))"
| "collected s K_processGroupId =
     observed (Num (of_int (tsProcessGroupId (scStat s)))) (stat_source (scPid s))"
| "collected s K_sessionId =
     observed (Num (of_int (tsSessionId (scStat s)))) (stat_source (scPid s))"
| "collected s K_state = observed (Text (tsState (scStat s))) (stat_source (scPid s))"
| "collected s K_startTime =
     (case start_ms s of
        None \<Rightarrow> unavailable derived_source (if scUptime s = None then No_uptime else No_clock_ticks)
      | Some ms \<Rightarrow>
          derived (Instant ms)
            (stat_source (scPid s) @
             (if stable_start_ms s = None then '' + /proc/uptime''
              else '' field 22 + /proc/stat btime, converted with CLK_TCK'')))"
| "collected s K_elapsedMs =
     or_derived (elapsed_ms s) (stat_source (scPid s) @ '' + /proc/uptime'')
       (if scUptime s = None then No_uptime else No_clock_ticks)"
| "collected s K_cpuUserMs =
     or_derived (ticks_ms s (tsUserTicks (scStat s)))
       (stat_source (scPid s) @ '' ticks converted with _SC_CLK_TCK (utime)'') No_clock_ticks"
| "collected s K_cpuSystemMs =
     or_derived (ticks_ms s (tsSystemTicks (scStat s)))
       (stat_source (scPid s) @ '' ticks converted with _SC_CLK_TCK (stime)'') No_clock_ticks"
| "collected s K_cpuTimeMs =
     or_derived
       (case (ticks_ms s (tsUserTicks (scStat s)), ticks_ms s (tsSystemTicks (scStat s))) of
          (Some u, Some y) \<Rightarrow> Some (u + y) | _ \<Rightarrow> None)
       (stat_source (scPid s) @ '' ticks converted with _SC_CLK_TCK (utime + stime)'') No_clock_ticks"
| "collected s K_rssBytes = or_missing s (parseKilobytes (scStatus s ''VmRSS'')) (status_source (scPid s))"
| "collected s K_virtualMemoryBytes =
     or_missing s (parseKilobytes (scStatus s ''VmSize'')) (status_source (scPid s))"
| "collected s K_threadCount =
     (case status_int s ''Threads'' of
        None \<Rightarrow> observed (Num (of_nat (tsThreadCount (scStat s)))) (stat_source (scPid s))
      | Some n \<Rightarrow> observed (Num (of_nat n)) (status_source (scPid s)))"
| "collected s K_voluntaryContextSwitches =
     or_missing s (status_int s ''voluntary_ctxt_switches'') (status_source (scPid s))"
| "collected s K_nonVoluntaryContextSwitches =
     or_missing s (status_int s ''nonvoluntary_ctxt_switches'') (status_source (scPid s))"
| "collected s K_minorFaults =
     observed (Num (of_nat (tsMinorFaults (scStat s)))) (stat_source (scPid s) @ '' field minflt'')"
| "collected s K_majorFaults =
     observed (Num (of_nat (tsMajorFaults (scStat s)))) (stat_source (scPid s) @ '' field majflt'')"
| "collected s K_readBytes = io_metric s Io_readBytes"
| "collected s K_writeBytes = io_metric s Io_writeBytes"
| "collected s K_rcharBytes = io_metric s Io_rchar"
| "collected s K_wcharBytes = io_metric s Io_wchar"
| "collected s _ = unavailable derived_source First_sample"

text \<open>
  \<open>parseProcStat\<close> runs inside the same \<open>try\<close>, and its result must name the pid.  The status and
  io files are read only after that.
\<close>

definition read_stat :: "procfs \<Rightarrow> int \<Rightarrow> metric_reason + proc_stat" where
  "read_stat fs pid =
     (case pfStat fs pid of
        Inl e \<Rightarrow> Inl (errorReason e)
      | Inr text \<Rightarrow>
          (case parseProcStat text of
             Inl r \<Rightarrow> Inl r
           | Inr st \<Rightarrow> if tsPid st \<noteq> pid then Inl Stat_pid_mismatch else Inr st))"

definition readProcessSnapshot ::
    "procfs \<Rightarrow> int \<Rightarrow> rat \<Rightarrow> kernel_cache \<Rightarrow> snapshot \<times> kernel_cache" where
  "readProcessSnapshot fs pid now c =
     (let (ticks, c') = readClockTicksPerSecond fs c in
      case read_stat fs pid of
        Inl r \<Rightarrow> (absent_snapshot pid now r, c')
      | Inr st \<Rightarrow>
          (let (boot, c'') =
                 (if ticks = None then (None, c')
                  else bootTimeSeconds ''/proc'' (readBootTimeSeconds fs) c');
               (status, reason) =
                 (case pfStatus fs pid of
                    Inl e \<Rightarrow> (Map.empty, Some (errorReason e))
                  | Inr text \<Rightarrow> (parseProcStatus text, None));
               (io, ioReason) =
                 (case pfIo fs pid of
                    Inl e \<Rightarrow> (Map.empty, Some (errorReason e))
                  | Inr text \<Rightarrow>
                      (parseProcIo text,
                       if list_all (\<lambda>k. parseProcIo text k = None)
                            [Io_rchar, Io_wchar, Io_syscr, Io_syscw, Io_readBytes, Io_writeBytes]
                       then Some No_io_counters else None)) in
           (\<lparr>psTimestamp = now,
             psMetric = collected
               \<lparr>scPid = pid, scStat = st, scStatus = status, scIo = io, scReason = reason,
                scIoReason = ioReason, scTicks = ticks, scUptime = readUptime fs, scBoot = boot,
                scNow = now\<rparr>,
             psIdentityStartTicks = Some (tsStartTicks st)\<rparr>,
            c'')))"

text \<open>The blanket pass over a rejected sample.\<close>

definition markUnavailable :: "snapshot \<Rightarrow> metric_reason \<Rightarrow> snapshot" where
  "markUnavailable s r =
     s \<lparr>psMetric := (\<lambda>k. if k \<in> set SNAPSHOT_METRIC_KEYS
                        then unavailable (mSource (psMetric s k)) r else psMetric s k)\<rparr>"

section \<open>Rates between two samples\<close>

text \<open>The value of a numeric metric; \<open>None\<close> is \<open>null\<close>.\<close>

definition number_of :: "metric \<Rightarrow> rat option" where
  "number_of m = (case mValue m of Some (Num n) \<Rightarrow> Some n | _ \<Rightarrow> None)"

definition deriveCpuPercent :: "snapshot \<Rightarrow> snapshot \<Rightarrow> rat \<Rightarrow> metric" where
  "deriveCpuPercent current previous wallMs =
     (let src = mSource (psMetric current K_cpuPercent) in
      case (number_of (psMetric current K_cpuUserMs), number_of (psMetric current K_cpuSystemMs),
            number_of (psMetric previous K_cpuUserMs), number_of (psMetric previous K_cpuSystemMs)) of
        (Some user, Some system, Some priorUser, Some priorSystem) \<Rightarrow>
          (let before = priorUser + priorSystem; now = user + system in
           if now < before then unavailable src (Cpu_time_decreased before now)
           else derived (Num ((now - before) / wallMs * 100))
             ''delta(/proc/<pid>/stat utime+stime) / delta(sample wall time), percent of one core'')
      | _ \<Rightarrow> unavailable src Cpu_time_unavailable)"

definition counter_rate ::
    "snapshot \<Rightarrow> snapshot \<Rightarrow> rat \<Rightarrow> metric_key \<times> metric_key \<times> string \<Rightarrow> metric" where
  "counter_rate current previous seconds entry =
     (case entry of (key, rate, unit) \<Rightarrow>
        (let src = mSource (psMetric current rate) in
         case (number_of (psMetric current key), number_of (psMetric previous key)) of
           (Some now, Some before) \<Rightarrow>
             if now < before then unavailable src (Counter_decreased key before now unit)
             else derived (Num ((now - before) / seconds))
                    (''delta('' @ mSource (psMetric current key) @
                     '') / delta(sample wall time) in '' @ unit)
         | _ \<Rightarrow> unavailable src (Counter_unavailable key unit)))"

definition deriveRates :: "snapshot \<Rightarrow> snapshot option \<Rightarrow> rat option \<Rightarrow> snapshot" where
  "deriveRates current previous wallMs =
     (case (previous, wallMs) of
        (Some prev, Some ms) \<Rightarrow>
          if ms > 0
          then current \<lparr>psMetric :=
                 fold (\<lambda>e m. m(fst (snd e) := counter_rate current prev (ms / 1000) e)) COUNTER_RATES
                   ((psMetric current)(K_cpuPercent := deriveCpuPercent current prev ms))\<rparr>
          else current \<lparr>psMetric := (\<lambda>k. if k \<in> set RATE_METRIC_KEYS
                 then unavailable (mSource (psMetric current k)) First_sample
                 else psMetric current k)\<rparr>
      | _ \<Rightarrow> current \<lparr>psMetric := (\<lambda>k. if k \<in> set RATE_METRIC_KEYS
                 then unavailable (mSource (psMetric current k)) First_sample
                 else psMetric current k)\<rparr>)"

section \<open>The contract of a metric\<close>

text \<open>
  A metric either has a value of its key's type, with the provenance \<open>/api/capabilities\<close> declares
  for the key and no reason, or has no value, the provenance \<open>UNAVAILABLE\<close> and a reason.  Counters,
  durations and rates are not negative.
\<close>

definition value_typed :: "metric_key \<Rightarrow> metric_value \<Rightarrow> bool" where
  "value_typed k v \<longleftrightarrow>
     (case v of
        Text t \<Rightarrow> k \<in> {K_command, K_state}
      | Instant t \<Rightarrow> k = K_startTime
      | Num n \<Rightarrow> k \<notin> {K_command, K_state, K_startTime} \<and>
          (k \<in> {K_pid, K_capsEnginePid, K_ppid, K_processGroupId, K_sessionId} \<or> 0 \<le> n))"

definition metric_typed :: "metric_key \<Rightarrow> metric \<Rightarrow> bool" where
  "metric_typed k m \<longleftrightarrow>
     (case mValue m of
        None \<Rightarrow> mProvenance m = Unavailable \<and> mReason m \<noteq> None
      | Some v \<Rightarrow> value_typed k v \<and> mReason m = None \<and>
          mProvenance m = (if classifyMetric k = Class_derived then Derived else Observed))"

definition snapshot_typed :: "snapshot \<Rightarrow> bool" where
  "snapshot_typed s \<longleftrightarrow> (\<forall>k. metric_typed k (psMetric s k))"

lemma metric_typed_simps [simp]:
  "metric_typed k (unavailable src r)"
  "metric_typed k (observed v src) \<longleftrightarrow> value_typed k v \<and> classifyMetric k \<noteq> Class_derived"
  "metric_typed k (derived v src) \<longleftrightarrow> value_typed k v \<and> classifyMetric k = Class_derived"
  by (auto simp: metric_typed_def unavailable_def observed_def derived_def)

lemma classify_simps [simp]:
  "classifyMetric K_pid = Class_observed" "classifyMetric K_capsEnginePid = Class_gateway"
  "classifyMetric K_command = Class_observed" "classifyMetric K_ppid = Class_observed"
  "classifyMetric K_processGroupId = Class_observed" "classifyMetric K_sessionId = Class_observed"
  "classifyMetric K_state = Class_observed" "classifyMetric K_startTime = Class_derived"
  "classifyMetric K_elapsedMs = Class_derived" "classifyMetric K_cpuUserMs = Class_derived"
  "classifyMetric K_cpuSystemMs = Class_derived" "classifyMetric K_cpuTimeMs = Class_derived"
  "classifyMetric K_cpuPercent = Class_derived" "classifyMetric K_rssBytes = Class_observed"
  "classifyMetric K_virtualMemoryBytes = Class_observed"
  "classifyMetric K_threadCount = Class_observed"
  "classifyMetric K_voluntaryContextSwitches = Class_observed"
  "classifyMetric K_nonVoluntaryContextSwitches = Class_observed"
  "classifyMetric K_minorFaults = Class_observed" "classifyMetric K_majorFaults = Class_observed"
  "classifyMetric K_minorFaultsPerSec = Class_derived"
  "classifyMetric K_majorFaultsPerSec = Class_derived"
  "classifyMetric K_rcharBytes = Class_observed" "classifyMetric K_wcharBytes = Class_observed"
  "classifyMetric K_readBytes = Class_observed" "classifyMetric K_writeBytes = Class_observed"
  "classifyMetric K_rcharBytesPerSec = Class_derived"
  "classifyMetric K_wcharBytesPerSec = Class_derived"
  "classifyMetric K_readBytesPerSec = Class_derived"
  "classifyMetric K_writeBytesPerSec = Class_derived"
  by (simp_all add: classifyMetric_def GATEWAY_METRIC_KEYS_def DERIVED_ONLY_METRICS_def
      RATE_METRIC_KEYS_def)

lemma all_keys: "k \<in> set SNAPSHOT_METRIC_KEYS"
  by (cases k) (simp_all add: SNAPSHOT_METRIC_KEYS_def)

lemma or_missing_typed:
  "k \<notin> {K_command, K_state, K_startTime} \<Longrightarrow> classifyMetric k \<noteq> Class_derived \<Longrightarrow>
     metric_typed k (or_missing s v src)"
  by (simp add: or_missing_def value_typed_def split: option.split)

lemma io_metric_typed:
  "k \<notin> {K_command, K_state, K_startTime} \<Longrightarrow> classifyMetric k \<noteq> Class_derived \<Longrightarrow>
     metric_typed k (io_metric s key)"
  by (simp add: io_metric_def value_typed_def split: option.split)

lemma or_derived_typed:
  "k \<notin> {K_command, K_state, K_startTime} \<Longrightarrow> classifyMetric k = Class_derived \<Longrightarrow>
     \<forall>x. v = Some x \<longrightarrow> 0 \<le> x \<Longrightarrow> metric_typed k (or_derived v src r)"
  by (simp add: or_derived_def value_typed_def split: option.split)

lemma ticks_ms_nonneg: "\<forall>t. scTicks s = Some t \<longrightarrow> 0 < t \<Longrightarrow> ticks_ms s n = Some x \<Longrightarrow> 0 \<le> x"
  by (auto simp: ticks_ms_def)

lemma collected_typed:
  assumes "\<forall>t. scTicks s = Some t \<longrightarrow> 0 < t"
  shows "metric_typed k (collected s k)"
proof (cases k)
  case K_elapsedMs
  have "\<forall>x. elapsed_ms s = Some x \<longrightarrow> 0 \<le> x"
    by (auto simp: elapsed_ms_def split: option.splits)
  then show ?thesis by (simp add: K_elapsedMs or_derived_typed)
next
  case K_cpuTimeMs
  show ?thesis
    unfolding K_cpuTimeMs using ticks_ms_nonneg [OF assms]
    by (auto intro!: or_derived_typed split: option.splits)
qed (use ticks_ms_nonneg [OF assms] in
      \<open>auto simp: value_typed_def split: option.split intro!: or_missing_typed io_metric_typed or_derived_typed\<close>)

definition cache_positive :: "kernel_cache \<Rightarrow> bool" where
  "cache_positive c \<longleftrightarrow> (\<forall>key t. kcClockTicks c key = Some (Some t) \<longrightarrow> 0 < t)"

lemma probe_getconf_positive: "probe_getconf fs es = Some t \<Longrightarrow> 0 < t"
  by (induction fs es rule: probe_getconf.induct) (auto split: option.splits if_splits)

lemma readClockTicks_positive:
  "cache_positive c \<Longrightarrow> readClockTicksPerSecond fs c = (ticks, c') \<Longrightarrow>
     cache_positive c' \<and> (\<forall>t. ticks = Some t \<longrightarrow> 0 < t)"
  by (auto simp: readClockTicksPerSecond_def clockTicksPerSecond_def cache_positive_def
      probeClockTicks_def dest: probe_getconf_positive split: option.splits if_splits)

lemma bootTime_positive:
  "cache_positive c \<Longrightarrow> bootTimeSeconds key v c = (b, c') \<Longrightarrow> cache_positive c'"
  by (auto simp: bootTimeSeconds_def cache_positive_def split: option.splits)

lemma absent_typed: "snapshot_typed (absent_snapshot pid now r)"
  by (simp add: snapshot_typed_def absent_snapshot_def value_typed_def)

lemma readProcessSnapshot_typed:
  assumes "readProcessSnapshot fs pid now c = (s, c')" and "cache_positive c"
  shows "snapshot_typed s \<and> cache_positive c'"
proof -
  obtain ticks c1 where t: "readClockTicksPerSecond fs c = (ticks, c1)" by fastforce
  note pos = readClockTicks_positive [OF assms(2) t]
  show ?thesis
  proof (cases "read_stat fs pid")
    case (Inl r)
    with assms(1) t pos absent_typed show ?thesis
      by (auto simp: readProcessSnapshot_def)
  next
    case (Inr st)
    with assms(1) t pos show ?thesis
      by (auto simp: readProcessSnapshot_def Let_def snapshot_typed_def intro!: collected_typed
          dest: bootTime_positive split: prod.splits if_splits)
  qed
qed

lemma markUnavailable_typed: "snapshot_typed (markUnavailable s r)"
  by (simp add: snapshot_typed_def markUnavailable_def all_keys)

lemma deriveCpuPercent_typed: "0 < ms \<Longrightarrow> metric_typed K_cpuPercent (deriveCpuPercent s p ms)"
  by (auto simp: deriveCpuPercent_def value_typed_def Let_def split: option.split)

lemma counter_rate_typed:
  "0 < seconds \<Longrightarrow> (key, rate, unit) \<in> set COUNTER_RATES \<Longrightarrow>
     metric_typed rate (counter_rate s p seconds (key, rate, unit))"
  by (auto simp: counter_rate_def COUNTER_RATES_def value_typed_def Let_def split: option.split)

lemma deriveRates_typed:
  assumes "snapshot_typed s"
  shows "snapshot_typed (deriveRates s prev ms)"
proof (cases "\<exists>p m. prev = Some p \<and> ms = Some m \<and> 0 < m")
  case True
  then obtain p m where pm: "prev = Some p" "ms = Some m" "0 < m" by blast
  have "snapshot_typed (s \<lparr>psMetric := fold (\<lambda>e f. f(fst (snd e) := counter_rate s p (m / 1000) e)) es
      ((psMetric s)(K_cpuPercent := deriveCpuPercent s p m))\<rparr>)" if "set es \<subseteq> set COUNTER_RATES" for es
    using that
  proof (induction es rule: rev_induct)
    case Nil
    with assms pm(3) show ?case by (simp add: snapshot_typed_def deriveCpuPercent_typed)
  next
    case (snoc e es)
    then show ?case
      using counter_rate_typed [of "m / 1000" "fst e" "fst (snd e)" "snd (snd e)" s p] pm(3)
      by (auto simp: snapshot_typed_def)
  qed
  from this [of COUNTER_RATES] pm show ?thesis by (simp add: deriveRates_def)
next
  case False
  with assms show ?thesis
    by (auto simp: deriveRates_def snapshot_typed_def split: option.split)
qed

lemma collected_start:
  assumes "scBoot s = Some b" and "scTicks s = Some t"
  shows "mValue (collected s K_startTime) =
    Some (Instant (js_round (b * 1000 + of_nat (tsStartTicks (scStat s)) / t * 1000)))"
  using assms by (simp add: start_ms_def stable_start_ms_def derived_def)

section \<open>Properties\<close>

lemma deriveRates_other: "k \<notin> set RATE_METRIC_KEYS \<Longrightarrow> psMetric (deriveRates s prev ms) k = psMetric s k"
  by (simp add: deriveRates_def RATE_METRIC_KEYS_def COUNTER_RATES_def split: option.split)

lemma number_of_simps [simp]:
  "number_of (unavailable src r) = None" "number_of (derived (Num x) src) = Some x"
  "number_of (observed (Num x) src) = Some x"
  by (simp_all add: number_of_def unavailable_def derived_def observed_def)

lemma number_of_counter_rate:
  "number_of (counter_rate s p seconds (key, rate, unit)) =
     (case (number_of (psMetric s key), number_of (psMetric p key)) of
        (Some now, Some before) \<Rightarrow> if before \<le> now then Some ((now - before) / seconds) else None
      | _ \<Rightarrow> None)"
  by (auto simp: counter_rate_def Let_def split: option.split)

lemma fold_upd_distinct:
  "distinct (map g es) \<Longrightarrow> e \<in> set es \<Longrightarrow> fold (\<lambda>e f. f(g e := h e)) es f0 (g e) = h e"
  by (induction es rule: rev_induct) (auto, metis imageI)

lemma deriveRates_counter:
  assumes "0 < m" and "(key, rate, unit) \<in> set COUNTER_RATES"
  shows "psMetric (deriveRates s (Some p) (Some m)) rate = counter_rate s p (m / 1000) (key, rate, unit)"
proof -
  have "distinct (map (\<lambda>e. fst (snd e)) COUNTER_RATES)" by (simp add: COUNTER_RATES_def)
  from fold_upd_distinct [OF this assms(2)] assms(1) show ?thesis by (simp add: deriveRates_def)
qed

text \<open>A rate is reported exactly when it was measured. Every other metric of the snapshot is left as it
  is; a counter's rate has a value just when there is a previous sample, the measured interval
  is positive, the counter was observed in both and did not decrease, and then it is the
  increase per second, 0 for a flat counter included.\<close>
theorem rate_reported_exactly:
  "(k \<notin> set RATE_METRIC_KEYS \<longrightarrow> psMetric (deriveRates s prev ms) k = psMetric s k) \<and>
   ((key, rate, unit) \<in> set COUNTER_RATES \<longrightarrow>
     number_of (psMetric (deriveRates s prev ms) rate) =
       (case (prev, ms) of
          (Some p, Some m) \<Rightarrow>
            if m \<le> 0 then None
            else
              (case (number_of (psMetric s key), number_of (psMetric p key)) of
                 (Some now, Some before) \<Rightarrow>
                   if before \<le> now then Some ((now - before) / (m / 1000)) else None
               | _ \<Rightarrow> None)
        | _ \<Rightarrow> None))"
proof (intro conjI impI deriveRates_other)
  assume entry: "(key, rate, unit) \<in> set COUNTER_RATES"
  then have "rate \<in> set RATE_METRIC_KEYS"
    by (auto simp: COUNTER_RATES_def RATE_METRIC_KEYS_def)
  moreover have "psMetric (deriveRates s (Some p) (Some m)) rate = counter_rate s p (m / 1000) (key, rate, unit)"
    if "0 < m" for p m
    by (rule deriveRates_counter [OF that entry])
  ultimately show "number_of (psMetric (deriveRates s prev ms) rate) =
       (case (prev, ms) of
          (Some p, Some m) \<Rightarrow>
            if m \<le> 0 then None
            else
              (case (number_of (psMetric s key), number_of (psMetric p key)) of
                 (Some now, Some before) \<Rightarrow>
                   if before \<le> now then Some ((now - before) / (m / 1000)) else None
               | _ \<Rightarrow> None)
        | _ \<Rightarrow> None)"
    by (cases prev; cases ms) (auto simp: number_of_counter_rate deriveRates_def not_le)
qed

definition cache_extends :: "kernel_cache \<Rightarrow> kernel_cache \<Rightarrow> bool" where
  "cache_extends c c' \<longleftrightarrow> kcClockTicks c \<subseteq>\<^sub>m kcClockTicks c' \<and> kcBootTime c \<subseteq>\<^sub>m kcBootTime c'"

lemma cached_kernel_values:
  assumes "readProcessSnapshot fs pid now c = (s, c')" and "psIdentityStartTicks s = Some n"
    and "kcClockTicks c ''/proc|probeClockTicks'' = Some (Some t)"
    and "kcBootTime c ''/proc'' = Some (Some b)"
  shows "mValue (psMetric s K_startTime) = Some (Instant (js_round (b * 1000 + of_nat n / t * 1000)))"
  using assms
  by (auto simp: readProcessSnapshot_def readClockTicksPerSecond_def clockTicksPerSecond_def
      bootTimeSeconds_def absent_snapshot_def Let_def collected_start
      simp del: collected.simps split: prod.splits sum.splits)

text \<open>The start time of a process is one value for its whole life. Two snapshots that see the same
  start ticks, taken at any times and uptimes, through a cache that only grew, report the same
  start time as soon as the clock rate and the boot time were read once.\<close>
theorem start_time_stable:
  assumes "readProcessSnapshot fs pid now c = (s, c1)"
    and "readProcessSnapshot fs' pid now' c2 = (s', c3)" and "cache_extends c1 c2"
    and "psIdentityStartTicks s = Some n" and "psIdentityStartTicks s' = Some n"
    and "kcClockTicks c1 ''/proc|probeClockTicks'' = Some (Some t)"
    and "kcBootTime c1 ''/proc'' = Some (Some b)"
  shows "mValue (psMetric s K_startTime) = mValue (psMetric s' K_startTime) \<and>
    mValue (psMetric s K_startTime) \<noteq> None"
proof -
  have "kcClockTicks c2 ''/proc|probeClockTicks'' = Some (Some t)" "kcBootTime c2 ''/proc'' = Some (Some b)"
    using assms(3,6,7) by (auto simp: cache_extends_def map_le_def dom_def)
  from cached_kernel_values [OF assms(2,5) this]
  have "mValue (psMetric s' K_startTime) = Some (Instant (js_round (b * 1000 + of_nat n / t * 1000)))" .
  moreover have "mValue (psMetric s K_startTime) = Some (Instant (js_round (b * 1000 + of_nat n / t * 1000)))"
    using assms(1,4,6,7)
    by (auto simp: readProcessSnapshot_def readClockTicksPerSecond_def clockTicksPerSecond_def
      bootTimeSeconds_def absent_snapshot_def Let_def collected_start
      simp del: collected.simps split: prod.splits sum.splits option.splits if_splits)
  ultimately show ?thesis by simp
qed

text \<open>
  A probe that failed once is never repeated: with the failure in the cache no snapshot has a start
  time, so no process can be identified any more.
\<close>

lemma cached_failure_is_final:
  assumes "readProcessSnapshot fs pid now c = (s, c')"
    and "kcClockTicks c ''/proc|probeClockTicks'' = Some None"
  shows "kcClockTicks c' ''/proc|probeClockTicks'' = Some None \<and>
    (\<forall>k \<in> {K_startTime, K_elapsedMs, K_cpuUserMs, K_cpuSystemMs, K_cpuTimeMs}. mValue (psMetric s k) = None)"
proof -
  have clock: "readClockTicksPerSecond fs c = (None, c)"
    using assms(2) by (simp add: readClockTicksPerSecond_def clockTicksPerSecond_def)
  show ?thesis
  proof (cases "read_stat fs pid")
    case (Inl r)
    with assms clock show ?thesis
      by (auto simp: readProcessSnapshot_def absent_snapshot_def unavailable_def)
  next
    case (Inr st)
    with assms clock show ?thesis
      by (auto simp: readProcessSnapshot_def Let_def unavailable_def start_ms_def stable_start_ms_def
          elapsed_ms_def ticks_ms_def or_derived_def split: prod.splits)
  qed
qed

definition sample_proc :: "nat \<Rightarrow> procfs" where
  "sample_proc up =
     \<lparr>pfStat = (\<lambda>pid. if pid = 41 then Inr ''41 (w) S 900 8 9 0 0 0 70 0 2 0 10 5 0 0 0 0 1 0 500 0 0''
                     else Inl ENOENT),
      pfStatus = (\<lambda>pid. Inr (''Pid: 41'' @ [CHR 0x0A] @ ''PPid: 900'' @ [CHR 0x0A])),
      pfIo = (\<lambda>pid. Inl EACCES), pfUptime = Inr (nat_text up @ ''.00 2.00''),
      pfKernelStat = Inr (''btime 1000''),
      pfGetconf = (\<lambda>p. Some (Some 0, ''100''))\<rparr>"

definition no_cache :: kernel_cache where
  "no_cache = \<lparr>kcClockTicks = Map.empty, kcBootTime = Map.empty\<rparr>"

lemmas number_eval = js_number_def js_trim_def trim_start_def trim_end_def js_space_def is_digit_def
  decimal_value_def digit_value_def unsigned_decimal_def MAX_SAFE_INTEGER_def

lemma sample_proc_stat: "read_stat (sample_proc up) 41 = Inr \<lparr>tsPid = 41, tsCommand = ''w'', tsState = ''S'', tsPpid = 900,
   tsProcessGroupId = 8, tsSessionId = 9, tsUserTicks = 10, tsSystemTicks = 5, tsThreadCount = 1, tsStartTicks = 500,
   tsMinorFaults = 70, tsMajorFaults = 2\<rparr>"
  by (simp add: read_stat_def sample_proc_def parseProcStat_def last_index_of_close_def proc_integer_def
     js_trim_def trim_start_def trim_end_def js_space_def is_digit_def decimal_value_def digit_value_def 
     MAX_SAFE_INTEGER_def split_spaces_def Let_def is_letter_def stat_numbers_def nonNegative_def)

lemma sample_clock: "readClockTicksPerSecond (sample_proc up) no_cache =
  (Some 100, no_cache \<lparr>kcClockTicks := [''/proc|probeClockTicks'' \<mapsto> Some 100]\<rparr>)"
  by (simp add: readClockTicksPerSecond_def clockTicksPerSecond_def no_cache_def probeClockTicks_def sample_proc_def
   js_number_def js_trim_def trim_start_def trim_end_def js_space_def is_digit_def decimal_value_def digit_value_def 
   unsigned_decimal_def Let_def)
lemma sample_boot: "readBootTimeSeconds (sample_proc up) = Some 1000"
  by (simp add: readBootTimeSeconds_def sample_proc_def
   js_number_def js_trim_def trim_start_def trim_end_def js_space_def is_digit_def decimal_value_def digit_value_def 
   unsigned_decimal_def Let_def)
definition warm_cache :: kernel_cache where
  "warm_cache = \<lparr>kcClockTicks = [''/proc|probeClockTicks'' \<mapsto> Some 100],
                 kcBootTime = [''/proc'' \<mapsto> Some 1000]\<rparr>"

lemma sample_snapshot:
  "psIdentityStartTicks (fst (readProcessSnapshot (sample_proc up) 41 now no_cache)) = Some 500"
  "psIdentityStartTicks (fst (readProcessSnapshot (sample_proc up) 41 now warm_cache)) = Some 500"
  "snd (readProcessSnapshot (sample_proc up) 41 now no_cache) = warm_cache"
  using sample_clock [of up]
  by (simp_all add: readProcessSnapshot_def sample_proc_stat sample_boot Let_def bootTimeSeconds_def
      warm_cache_def no_cache_def readClockTicksPerSecond_def clockTicksPerSecond_def
      case_prod_unfold)

theorem start_time_stable_witness:
  "mValue (psMetric (fst (readProcessSnapshot (sample_proc 10) 41 1000000 no_cache)) K_startTime) =
   mValue (psMetric (fst (readProcessSnapshot (sample_proc 20) 41 1010000 warm_cache)) K_startTime)"
proof -
  have one: "readProcessSnapshot (sample_proc 10) 41 1000000 no_cache =
      (fst (readProcessSnapshot (sample_proc 10) 41 1000000 no_cache), warm_cache)"
    using sample_snapshot(3) by (metis prod.collapse)
  have two: "readProcessSnapshot (sample_proc 20) 41 1010000 warm_cache =
      (fst (readProcessSnapshot (sample_proc 20) 41 1010000 warm_cache),
       snd (readProcessSnapshot (sample_proc 20) 41 1010000 warm_cache))"
    by simp
  have "cache_extends warm_cache warm_cache" by (simp add: cache_extends_def)
  from start_time_stable [OF one two this sample_snapshot(1,2)] show ?thesis
    by (simp add: warm_cache_def)
qed

lemma sample_faults:
  "number_of (psMetric (fst (readProcessSnapshot (sample_proc up) 41 now no_cache)) K_minorFaults) = Some 70"
  using sample_clock [of up]
  by (simp add: readProcessSnapshot_def sample_proc_stat sample_boot Let_def bootTimeSeconds_def
      no_cache_def case_prod_unfold)

theorem rate_reported_exactly_witness:
  "number_of (psMetric (deriveRates
     (fst (readProcessSnapshot (sample_proc 11) 41 1000500 no_cache))
     (Some (fst (readProcessSnapshot (sample_proc 10) 41 1000000 no_cache)))
     (Some 500)) K_minorFaultsPerSec) = Some 0"
  using rate_reported_exactly [of K_pid "fst (readProcessSnapshot (sample_proc 11) 41 1000500 no_cache)"
      "Some (fst (readProcessSnapshot (sample_proc 10) 41 1000000 no_cache))" "Some 500"
      K_minorFaults K_minorFaultsPerSec "''faults/s''"]
  by (simp add: COUNTER_RATES_def sample_faults)

end
