(* ===== verification/Telemetry_Sampler.thy ===== *)
theory Telemetry_Sampler
  imports Process_Telemetry
begin

text \<open>
  \<^verbatim>\<open>web/backend/src/telemetry/sampler.ts\<close>: one loop per process of an execution.  The objects the
  timer callbacks close over are \<open>smLoops\<close>, addressed by their index; \<open>smSessions\<close> is the \<open>Map\<close> of
  \<open>Map\<close>s that finds the loop of a process, in insertion order.  One call of \<open>sample\<close> is given what it reads of its
  surroundings (\<open>tick\<close>): whether the execution is finalized, the monotonic clock, and the snapshot
  the collector returns.
\<close>

section \<open>State\<close>

record telemetry_target =
  ttSessionId :: string
  ttPid :: int
  ttCapsEnginePid :: "int option"
  ttProcessStartedAt :: "rat option"

text \<open>
  The start of the process is the result of \<open>Date.parse\<close>, \<open>None\<close> for \<open>NaN\<close>.  The identity of a loop
  is \<open>undefined\<close> before the first sample, then the accepted ticks or \<open>null\<close>.
\<close>

datatype loop_identity = Not_verified | Rejected | Accepted nat

record sampling =
  slTarget :: telemetry_target
  slTimer :: bool
  slIdentity :: loop_identity
  slLastSnapshot :: "snapshot option"
  slLastMonotonic :: "rat option"
  slStopped :: bool

record sampler =
  smSessions :: "(string \<times> (int \<times> nat) list) list"
  smLoops :: "sampling list"
  smEmitted :: "(nat \<times> snapshot) list"

record tick =
  tkFinalized :: bool
  tkMonotonic :: rat
  tkSnapshot :: snapshot

definition new_sampler :: sampler where
  "new_sampler = \<lparr>smSessions = [], smLoops = [], smEmitted = []\<rparr>"

definition activeSessionIds :: "sampler \<Rightarrow> string list" where
  "activeSessionIds m = map fst (smSessions m)"

definition isSampling :: "sampler \<Rightarrow> string \<Rightarrow> int option \<Rightarrow> bool" where
  "isSampling m sid pid =
     (case map_of (smSessions m) sid of
        None \<Rightarrow> False
      | Some ps \<Rightarrow> (case pid of None \<Rightarrow> True | Some p \<Rightarrow> map_of ps p \<noteq> None))"

definition IDENTITY_START_TOLERANCE_MS :: rat where
  "IDENTITY_START_TOLERANCE_MS = 2000"

section \<open>Identity\<close>

definition capsEnginePidMetric :: "int option \<Rightarrow> metric" where
  "capsEnginePidMetric pid =
     (case pid of
        Some p \<Rightarrow> observed (Num (of_int p)) spawn_source
      | None \<Rightarrow> unavailable spawn_source No_engine_pid)"

definition start_of :: "snapshot \<Rightarrow> rat option" where
  "start_of s =
     (case mValue (psMetric s K_startTime) of Some (Instant t) \<Rightarrow> Some (of_int t) | _ \<Rightarrow> None)"

text \<open>The new identity of the loop, and the reason of a rejection.\<close>

definition verifyIdentity ::
    "sampling \<Rightarrow> snapshot \<Rightarrow> loop_identity \<times> metric_reason option" where
  "verifyIdentity l s =
     (case psIdentityStartTicks s of
        None \<Rightarrow> (Rejected, None)
      | Some ticks \<Rightarrow>
          (case ttCapsEnginePid (slTarget l) of
             None \<Rightarrow> (Rejected, Some Engine_pid_unknown)
           | Some engine \<Rightarrow>
               if number_of (psMetric s K_ppid) \<noteq> Some (of_int engine)
               then (Rejected, Some Ppid_mismatch)
               else
                 (case slIdentity l of
                    Not_verified \<Rightarrow>
                      (case (start_of s, ttProcessStartedAt (slTarget l)) of
                         (Some proc, Some caps) \<Rightarrow>
                           if \<bar>proc - caps\<bar> > IDENTITY_START_TOLERANCE_MS
                           then (Rejected, Some Start_time_mismatch)
                           else (Accepted ticks, None)
                       | _ \<Rightarrow> (Rejected, Some Start_time_mismatch))
                  | prior \<Rightarrow>
                      if prior \<noteq> Accepted ticks then (Rejected, Some Identity_changed)
                      else (prior, None))))"

section \<open>Operations\<close>

definition upd_loop :: "nat \<Rightarrow> (sampling \<Rightarrow> sampling) \<Rightarrow> sampler \<Rightarrow> sampler" where
  "upd_loop i f m = m \<lparr>smLoops := (smLoops m)[i := f (smLoops m ! i)]\<rparr>"

text \<open>Deleting a process from its session's map, and the map with its last process.\<close>

definition forget :: "string \<Rightarrow> int \<Rightarrow> sampler \<Rightarrow> sampler" where
  "forget sid pid m =
     (case map_of (smSessions m) sid of
        None \<Rightarrow> m
      | Some ps \<Rightarrow>
          (let ps' = AList.delete pid ps in
           m \<lparr>smSessions := (if ps' = [] then AList.delete sid (smSessions m)
                            else AList.update sid ps' (smSessions m))\<rparr>))"

definition halt :: "string \<Rightarrow> int \<Rightarrow> nat \<Rightarrow> sampler \<Rightarrow> sampler" where
  "halt sid pid i m =
     forget sid pid (upd_loop i (\<lambda>l. l \<lparr>slTimer := False, slStopped := True\<rparr>) m)"

text \<open>What a call of \<open>sample\<close> emits: the collector's snapshot with the engine's pid, judged.\<close>

definition owned_snapshot :: "sampling \<Rightarrow> tick \<Rightarrow> snapshot" where
  "owned_snapshot l t =
     (tkSnapshot t) \<lparr>psMetric := (psMetric (tkSnapshot t))
        (K_capsEnginePid := capsEnginePidMetric (ttCapsEnginePid (slTarget l)))\<rparr>"

definition final_snapshot :: "sampling \<Rightarrow> tick \<Rightarrow> snapshot" where
  "final_snapshot l t =
     (case snd (verifyIdentity l (owned_snapshot l t)) of
        Some r \<Rightarrow> markUnavailable (owned_snapshot l t) r
      | None \<Rightarrow>
          deriveRates (owned_snapshot l t) (slLastSnapshot l)
            (map_option (\<lambda>last. tkMonotonic t - last) (slLastMonotonic l)))"

definition sample :: "nat \<Rightarrow> tick \<Rightarrow> sampler \<Rightarrow> sampler" where
  "sample i t m =
     (let l = smLoops m ! i; sid = ttSessionId (slTarget l); pid = ttPid (slTarget l) in
      if slStopped l then m
      else if tkFinalized t then halt sid pid i m
      else
        (let (identity, rejection) = verifyIdentity l (owned_snapshot l t);
             final = final_snapshot l t;
             m1 = upd_loop i (\<lambda>l. l \<lparr>slIdentity := identity\<rparr>) m;
             m2 = m1 \<lparr>smEmitted := smEmitted m1 @ [(i, final)]\<rparr> in
         if rejection \<noteq> None \<or> psIdentityStartTicks final = None then halt sid pid i m2
         else upd_loop i (\<lambda>l. l \<lparr>slLastSnapshot := Some final,
                              slLastMonotonic := Some (tkMonotonic t)\<rparr>) m2))"

definition start_loop :: "telemetry_target \<Rightarrow> tick \<Rightarrow> sampler \<Rightarrow> sampler" where
  "start_loop g t m =
     (let ps = (case map_of (smSessions m) (ttSessionId g) of Some ps \<Rightarrow> ps | None \<Rightarrow> []) in
      if map_of ps (ttPid g) \<noteq> None then m
      else
        (let i = length (smLoops m);
             m1 = m \<lparr>smSessions := AList.update (ttSessionId g) (AList.update (ttPid g) i ps) (smSessions m),
                     smLoops := smLoops m @
                       [\<lparr>slTarget = g, slTimer = False, slIdentity = Not_verified,
                         slLastSnapshot = None, slLastMonotonic = None, slStopped = False\<rparr>]\<rparr>;
             m2 = sample i t m1 in
         if slStopped (smLoops m2 ! i) then m2 else upd_loop i (\<lambda>l. l \<lparr>slTimer := True\<rparr>) m2))"

definition stop_loop :: "string \<Rightarrow> int option \<Rightarrow> sampler \<Rightarrow> sampler" where
  "stop_loop sid pid m =
     (case map_of (smSessions m) sid of
        None \<Rightarrow> m
      | Some ps \<Rightarrow>
          (case pid of
             Some p \<Rightarrow> (case map_of ps p of None \<Rightarrow> m | Some i \<Rightarrow> halt sid p i m)
           | None \<Rightarrow> fold (\<lambda>(p, i). halt sid p i) ps m))"

definition close_sampler :: "sampler \<Rightarrow> sampler" where
  "close_sampler m = fold (\<lambda>sid. stop_loop sid None) (activeSessionIds m) m"

section \<open>Runs\<close>

text \<open>
  A call of \<open>sample\<close> reads procfs with the collector, whatever procfs holds.  A timer fires for a
  loop whose timer is armed.
\<close>

definition collected_tick :: "int \<Rightarrow> tick \<Rightarrow> bool" where
  "collected_tick pid t \<longleftrightarrow>
     (\<exists>fs now c c'. cache_positive c \<and> readProcessSnapshot fs pid now c = (tkSnapshot t, c'))"

inductive sampler_step :: "sampler \<Rightarrow> sampler \<Rightarrow> bool" where
  Start: "collected_tick (ttPid g) t \<Longrightarrow> sampler_step m (start_loop g t m)"
| Timer: "i < length (smLoops m) \<Longrightarrow> slTimer (smLoops m ! i) \<Longrightarrow>
     collected_tick (ttPid (slTarget (smLoops m ! i))) t \<Longrightarrow> sampler_step m (sample i t m)"
| Stop: "sampler_step m (stop_loop sid pid m)"
| Close: "sampler_step m (close_sampler m)"

inductive sampler_reachable :: "sampler \<Rightarrow> bool" where
  Init: "sampler_reachable new_sampler"
| Step: "sampler_reachable m \<Longrightarrow> sampler_step m m' \<Longrightarrow> sampler_reachable m'"

section \<open>Finding a loop\<close>

definition lookup_loop :: "sampler \<Rightarrow> string \<Rightarrow> int \<Rightarrow> nat option" where
  "lookup_loop m sid pid = Option.bind (map_of (smSessions m) sid) (\<lambda>ps. map_of ps pid)"

lemma lookup_forget [simp]:
  "lookup_loop (forget sid pid m) sid' pid' =
     (if sid' = sid \<and> pid' = pid then None else lookup_loop m sid' pid')"
proof (cases "map_of (smSessions m) sid")
  case (Some ps)
  have "map_of ps pid' = None" if "pid' \<noteq> pid" "AList.delete pid ps = []"
    using that by (metis delete_conv' fun_upd_apply map_of.simps(1))
  then show ?thesis
    using Some by (auto simp: forget_def lookup_loop_def Let_def delete_conv' update_conv')
qed (auto simp: forget_def lookup_loop_def)

lemma forget_loop_frame [simp]: "smLoops (forget sid pid m) = smLoops m" "smEmitted (forget sid pid m) = smEmitted m"
  by (simp_all add: forget_def Let_def split: option.split)

lemma upd_loop_frame [simp]:
  "smSessions (upd_loop i f m) = smSessions m" "smEmitted (upd_loop i f m) = smEmitted m"
  "length (smLoops (upd_loop i f m)) = length (smLoops m)"
  "lookup_loop (upd_loop i f m) = lookup_loop m"
  by (simp_all add: upd_loop_def lookup_loop_def fun_eq_iff)

lemma upd_loop_nth [simp]:
  "j < length (smLoops m) \<Longrightarrow>
     smLoops (upd_loop i f m) ! j = (if j = i then f (smLoops m ! j) else smLoops m ! j)"
  by (simp add: upd_loop_def nth_list_update)

lemma halt_frame [simp]:
  "smEmitted (halt sid pid i m) = smEmitted m" "length (smLoops (halt sid pid i m)) = length (smLoops m)"
  by (simp_all add: halt_def)

lemma halt_nth [simp]:
  "j < length (smLoops m) \<Longrightarrow> smLoops (halt sid pid i m) ! j =
     (if j = i then (smLoops m ! j) \<lparr>slTimer := False, slStopped := True\<rparr> else smLoops m ! j)"
  by (simp add: halt_def)

lemma lookup_halt [simp]:
  "lookup_loop (halt sid pid i m) sid' pid' =
     (if sid' = sid \<and> pid' = pid then None else lookup_loop m sid' pid')"
  by (simp add: halt_def)

text \<open>The map holds exactly the loops that are not stopped, under their own session and process.\<close>

abbreviation sid_of :: "sampler \<Rightarrow> nat \<Rightarrow> string" where
  "sid_of m i \<equiv> ttSessionId (slTarget (smLoops m ! i))"

abbreviation pid_of :: "sampler \<Rightarrow> nat \<Rightarrow> int" where
  "pid_of m i \<equiv> ttPid (slTarget (smLoops m ! i))"

definition map_exact :: "sampler \<Rightarrow> bool" where
  "map_exact m \<longleftrightarrow>
     (\<forall>sid pid i. lookup_loop m sid pid = Some i \<longleftrightarrow>
        i < length (smLoops m) \<and> \<not> slStopped (smLoops m ! i) \<and> sid_of m i = sid \<and> pid_of m i = pid) \<and>
     (\<forall>i < length (smLoops m). slTimer (smLoops m ! i) \<longrightarrow> \<not> slStopped (smLoops m ! i))"

lemma map_exact_halt:
  assumes "map_exact m" and "lookup_loop m sid pid = Some i"
  shows "map_exact (halt sid pid i m)"
proof -
  have i: "i < length (smLoops m)" "sid_of m i = sid" "pid_of m i = pid"
    using assms by (auto simp: map_exact_def)
  have unique: "j = i" if "j < length (smLoops m)" "\<not> slStopped (smLoops m ! j)" "sid_of m j = sid"
      "pid_of m j = pid" for j
  proof -
    from that have "lookup_loop m sid pid = Some j" using assms(1) by (auto simp: map_exact_def)
    with assms(2) show ?thesis by simp
  qed
  have "lookup_loop (halt sid pid i m) s p = Some j \<longleftrightarrow>
      j < length (smLoops m) \<and> \<not> slStopped (smLoops (halt sid pid i m) ! j) \<and>
      sid_of (halt sid pid i m) j = s \<and> pid_of (halt sid pid i m) j = p" for s p j
  proof (cases "j < length (smLoops m)")
    case True
    have m: "lookup_loop m s p = Some j \<longleftrightarrow>
        \<not> slStopped (smLoops m ! j) \<and> sid_of m j = s \<and> pid_of m j = p"
      using assms(1) True by (auto simp: map_exact_def)
    show ?thesis
    proof (cases "j = i")
      case True
      with i m show ?thesis by auto
    next
      case False
      with True m unique [of j] show ?thesis by auto
    qed
  next
    case False
    then have "lookup_loop m s p \<noteq> Some j" using assms(1) by (auto simp: map_exact_def)
    with False show ?thesis by auto
  qed
  moreover have "\<forall>j < length (smLoops m). slTimer (smLoops (halt sid pid i m) ! j) \<longrightarrow>
      \<not> slStopped (smLoops (halt sid pid i m) ! j)"
    using assms(1) by (auto simp: map_exact_def)
  ultimately show ?thesis by (simp add: map_exact_def)
qed

lemma map_exact_emit [simp]: "map_exact (m \<lparr>smEmitted := e\<rparr>) = map_exact m"
  by (simp add: map_exact_def lookup_loop_def)

lemma map_exact_upd:
  assumes "map_exact m" and "\<And>l. slTarget (f l) = slTarget l" and "\<And>l. slStopped (f l) = slStopped l"
    and "\<not> slStopped (smLoops m ! i) \<or> (\<forall>l. slTimer (f l) = slTimer l)"
  shows "map_exact (upd_loop i f m)"
proof -
  have "smLoops (upd_loop i f m) ! j = (if j = i \<and> i < length (smLoops m) then f (smLoops m ! j) else smLoops m ! j)" for j
    by (cases "i < length (smLoops m)") (simp_all add: upd_loop_def nth_list_update list_update_beyond not_less)
  with assms show ?thesis by (auto simp: map_exact_def)
qed

lemma map_exact_sample:
  assumes "map_exact m" and "i < length (smLoops m)"
  shows "map_exact (sample i t m)"
proof (cases "slStopped (smLoops m ! i)")
  case True
  then show ?thesis using assms(1) by (simp add: sample_def Let_def)
next
  case False
  with assms have found: "lookup_loop m (sid_of m i) (pid_of m i) = Some i"
    by (auto simp: map_exact_def)
  obtain identity rejection where v: "verifyIdentity (smLoops m ! i) (owned_snapshot (smLoops m ! i) t) = (identity, rejection)"
    by fastforce
  let ?m = "(upd_loop i (\<lambda>l. l \<lparr>slIdentity := identity\<rparr>) m)
      \<lparr>smEmitted := smEmitted m @ [(i, final_snapshot (smLoops m ! i) t)]\<rparr>"
  have m: "map_exact ?m" using map_exact_upd [OF assms(1), of "\<lambda>l. l \<lparr>slIdentity := identity\<rparr>" i] by simp
  have found': "lookup_loop ?m (sid_of m i) (pid_of m i) = Some i"
    using found by (simp add: lookup_loop_def)
  have "map_exact (upd_loop i f ?m)"
    if "f = (\<lambda>l. l \<lparr>slLastSnapshot := a, slLastMonotonic := b\<rparr>)" for f a b
    using map_exact_upd [OF m, of f i] that by simp
  then show ?thesis
    using False map_exact_halt [OF assms(1) found] map_exact_halt [OF m found'] v
    by (simp add: sample_def Let_def)
qed

definition keys_ok :: "sampler \<Rightarrow> bool" where
  "keys_ok m \<longleftrightarrow> distinct (map fst (smSessions m)) \<and>
     (\<forall>s ps. map_of (smSessions m) s = Some ps \<longrightarrow> ps \<noteq> [] \<and> distinct (map fst ps))"

lemma keys_ok_forget: "keys_ok m \<Longrightarrow> keys_ok (forget sid pid m)"
  by (auto simp: keys_ok_def forget_def Let_def update_conv' delete_conv' distinct_update
      distinct_delete simp del: map_of_eq_Some_iff split: option.split if_splits)

lemma keys_ok_upd [simp]: "keys_ok (upd_loop i f m) = keys_ok m"
  by (simp add: keys_ok_def)

lemma keys_ok_emit [simp]: "keys_ok (m \<lparr>smEmitted := e\<rparr>) = keys_ok m"
  by (simp add: keys_ok_def)

lemma keys_ok_halt: "keys_ok m \<Longrightarrow> keys_ok (halt sid pid i m)"
  by (simp add: halt_def keys_ok_forget)

lemma keys_ok_sample: "keys_ok m \<Longrightarrow> keys_ok (sample i t m)"
  by (simp add: sample_def Let_def keys_ok_halt split: prod.split)

definition sampler_ok :: "sampler \<Rightarrow> bool" where
  "sampler_ok m \<longleftrightarrow> map_exact m \<and> keys_ok m"

definition with_loop :: "telemetry_target \<Rightarrow> sampler \<Rightarrow> sampler" where
  "with_loop g m = m
     \<lparr>smSessions := AList.update (ttSessionId g)
        (AList.update (ttPid g) (length (smLoops m))
          (case map_of (smSessions m) (ttSessionId g) of Some ps \<Rightarrow> ps | None \<Rightarrow> [])) (smSessions m),
      smLoops := smLoops m @
        [\<lparr>slTarget = g, slTimer = False, slIdentity = Not_verified,
          slLastSnapshot = None, slLastMonotonic = None, slStopped = False\<rparr>]\<rparr>"

lemma start_loop_eq:
  "start_loop g t m =
     (if lookup_loop m (ttSessionId g) (ttPid g) \<noteq> None then m
      else
        (let i = length (smLoops m); m2 = sample i t (with_loop g m) in
         if slStopped (smLoops m2 ! i) then m2 else upd_loop i (\<lambda>l. l \<lparr>slTimer := True\<rparr>) m2))"
proof (cases "map_of (smSessions m) (ttSessionId g)")
  case (Some ps)
  then show ?thesis
    by (cases "map_of ps (ttPid g)") (simp_all add: start_loop_def with_loop_def lookup_loop_def Let_def)
qed (simp add: start_loop_def with_loop_def lookup_loop_def Let_def)

lemma lookup_with_loop [simp]:
  "lookup_loop (with_loop g m) s p =
     (if s = ttSessionId g \<and> p = ttPid g then Some (length (smLoops m)) else lookup_loop m s p)"
  by (auto simp: with_loop_def lookup_loop_def update_conv' split: option.split)

lemma with_loop_frame [simp]:
  "smEmitted (with_loop g m) = smEmitted m" "length (smLoops (with_loop g m)) = Suc (length (smLoops m))"
  "j < length (smLoops m) \<Longrightarrow> smLoops (with_loop g m) ! j = smLoops m ! j"
  "smLoops (with_loop g m) ! length (smLoops m) =
     \<lparr>slTarget = g, slTimer = False, slIdentity = Not_verified, slLastSnapshot = None,
      slLastMonotonic = None, slStopped = False\<rparr>"
  by (simp_all add: with_loop_def nth_append)

lemma sampler_ok_with_loop:
  assumes "sampler_ok m" and "lookup_loop m (ttSessionId g) (ttPid g) = None"
  shows "sampler_ok (with_loop g m)"
proof -
  have m: "lookup_loop m s p = Some j \<longleftrightarrow> j < length (smLoops m) \<and>
      \<not> slStopped (smLoops m ! j) \<and> sid_of m j = s \<and> pid_of m j = p" for s p j
    using assms(1) by (auto simp: sampler_ok_def map_exact_def)
  have fresh: "\<not> (j < length (smLoops m) \<and> \<not> slStopped (smLoops m ! j) \<and>
      sid_of m j = ttSessionId g \<and> pid_of m j = ttPid g)" for j
    using m [of "ttSessionId g" "ttPid g" j] assms(2) by auto
  have "lookup_loop (with_loop g m) s p = Some j \<longleftrightarrow> j < Suc (length (smLoops m)) \<and>
      \<not> slStopped (smLoops (with_loop g m) ! j) \<and> sid_of (with_loop g m) j = s \<and>
      pid_of (with_loop g m) j = p" for s p j
  proof (cases "j = length (smLoops m)")
    case True
    with m [of s p j] show ?thesis by auto
  next
    case False
    with m [of s p j] fresh [of j] show ?thesis by (auto simp: less_Suc_eq)
  qed
  moreover have "\<forall>j < Suc (length (smLoops m)). slTimer (smLoops (with_loop g m) ! j) \<longrightarrow>
      \<not> slStopped (smLoops (with_loop g m) ! j)"
    using assms(1) by (auto simp: less_Suc_eq sampler_ok_def map_exact_def)
  moreover have "keys_ok (with_loop g m)"
    using assms(1) by (auto simp: sampler_ok_def keys_ok_def with_loop_def update_conv' distinct_update
        update_nonempty simp del: map_of_eq_Some_iff split: option.split if_splits)
  ultimately show ?thesis by (simp add: sampler_ok_def map_exact_def)
qed

lemma sampler_ok_sample: "sampler_ok m \<Longrightarrow> i < length (smLoops m) \<Longrightarrow> sampler_ok (sample i t m)"
  by (simp add: sampler_ok_def map_exact_sample keys_ok_sample)

lemma sampler_ok_start:
  assumes "sampler_ok m"
  shows "sampler_ok (start_loop g t m)"
proof (cases "lookup_loop m (ttSessionId g) (ttPid g)")
  case None
  let ?m2 = "sample (length (smLoops m)) t (with_loop g m)"
  have "sampler_ok ?m2"
    by (rule sampler_ok_sample [OF sampler_ok_with_loop [OF assms None]]) simp
  then have "slStopped (smLoops ?m2 ! length (smLoops m)) \<or>
      sampler_ok (upd_loop (length (smLoops m)) (\<lambda>l. l \<lparr>slTimer := True\<rparr>) ?m2)"
    using map_exact_upd [of ?m2 "\<lambda>l. l \<lparr>slTimer := True\<rparr>" "length (smLoops m)"]
    by (auto simp: sampler_ok_def)
  with \<open>sampler_ok ?m2\<close> None show ?thesis by (auto simp: start_loop_eq Let_def)
qed (use assms in \<open>simp add: start_loop_eq\<close>)

lemma sampler_ok_halt:
  "sampler_ok m \<Longrightarrow> lookup_loop m sid pid = Some i \<Longrightarrow> sampler_ok (halt sid pid i m)"
  by (simp add: sampler_ok_def map_exact_halt keys_ok_halt)

lemma sampler_ok_halt_all:
  assumes "sampler_ok m" and "distinct (map fst ps)" and "\<forall>(p, i) \<in> set ps. lookup_loop m sid p = Some i"
  shows "sampler_ok (fold (\<lambda>(p, i). halt sid p i) ps m) \<and>
    (\<forall>s p. lookup_loop (fold (\<lambda>(p, i). halt sid p i) ps m) s p =
       (if s = sid \<and> p \<in> fst ` set ps then None else lookup_loop m s p))"
  using assms
proof (induction ps arbitrary: m)
  case (Cons e ps)
  obtain p i where e: "e = (p, i)" by fastforce
  have "sampler_ok (halt sid p i m)"
    using Cons.prems(1,3) e by (simp add: sampler_ok_halt)
  moreover have "\<forall>(q, j) \<in> set ps. lookup_loop (halt sid p i m) sid q = Some j"
    using Cons.prems(2,3) e by force
  ultimately show ?case
    using Cons.IH [of "halt sid p i m"] Cons.prems(2) e by auto
qed simp

lemma session_entries:
  assumes "sampler_ok m" and "map_of (smSessions m) sid = Some ps"
  shows "distinct (map fst ps)" and "\<forall>(p, i) \<in> set ps. lookup_loop m sid p = Some i"
    and "lookup_loop m sid p \<noteq> None \<longleftrightarrow> p \<in> fst ` set ps" and "ps \<noteq> []"
  using assms by (auto simp: sampler_ok_def keys_ok_def lookup_loop_def map_of_is_SomeI
      dest: map_of_SomeD)
    (metis domI domIff dom_map_of_conv_image_fst fst_conv image_eqI)+

lemma sampler_ok_stop:
  assumes "sampler_ok m"
  shows "sampler_ok (stop_loop sid pid m)"
  using assms session_entries [OF assms] sampler_ok_halt_all [OF assms]
  by (auto simp: stop_loop_def lookup_loop_def sampler_ok_halt split: option.split)

lemma lookup_stop_all:
  assumes "sampler_ok m"
  shows "lookup_loop (stop_loop sid None m) s p = (if s = sid then None else lookup_loop m s p)"
proof (cases "map_of (smSessions m) sid")
  case (Some ps)
  have "lookup_loop m sid p = None" if "p \<notin> fst ` set ps"
    using session_entries(3) [OF assms Some, of p] that by blast
  then show ?thesis
    using sampler_ok_halt_all [OF assms session_entries(1,2) [OF assms Some]] Some
    by (auto simp: stop_loop_def)
qed (auto simp: stop_loop_def lookup_loop_def)

lemma close_all:
  assumes "sampler_ok m"
  shows "sampler_ok (fold (\<lambda>sid. stop_loop sid None) ss m) \<and>
    (\<forall>s p. lookup_loop (fold (\<lambda>sid. stop_loop sid None) ss m) s p =
       (if s \<in> set ss then None else lookup_loop m s p))"
  using assms
proof (induction ss arbitrary: m)
  case (Cons s ss)
  from Cons.IH [OF sampler_ok_stop [OF Cons.prems, of s None]] show ?case
    by (auto simp: lookup_stop_all [OF Cons.prems])
qed simp

lemma lookup_close: 
  assumes "sampler_ok m"
  shows "lookup_loop (close_sampler m) s p = None"
proof -
  have "lookup_loop m s p = None" if "s \<notin> set (activeSessionIds m)"
    using that by (auto simp: lookup_loop_def activeSessionIds_def map_of_eq_None_iff bind_eq_None_conv)
  with close_all [OF assms] show ?thesis by (simp add: close_sampler_def)
qed

lemma sampler_ok_close: "sampler_ok m \<Longrightarrow> sampler_ok (close_sampler m)"
  using close_all by (simp add: close_sampler_def)

lemma sampler_ok_reachable: "sampler_reachable m \<Longrightarrow> sampler_ok m"
proof (induction rule: sampler_reachable.induct)
  case Init
  then show ?case
    by (simp add: new_sampler_def sampler_ok_def map_exact_def keys_ok_def lookup_loop_def)
next
  case (Step m m')
  from Step(2,3) show ?case
    by cases (auto intro: sampler_ok_start sampler_ok_sample sampler_ok_stop sampler_ok_close)
qed

end
