(* ===== verification/Sampler_Histories.thy ===== *)
theory Sampler_Histories
  imports Telemetry_Sampler
begin

text \<open>
  What the sampler of \<^verbatim>\<open>web/backend/src/telemetry/sampler.ts\<close> emits over any run: the contract of
  each sample, the identity of the process a loop reports, and the end of a loop.
\<close>

section \<open>What a loop has emitted\<close>

definition history :: "nat \<Rightarrow> sampler \<Rightarrow> snapshot list" where
  "history i m = map snd (filter (\<lambda>e. fst e = i) (smEmitted m))"

text \<open>
  A genuine sample: read from the loop's pid when the process there had the start ticks \<open>n\<close> and the
  execution's engine as its parent.  A worthless one: nothing procfs would have supplied has a value.
\<close>

definition genuine :: "telemetry_target \<Rightarrow> nat \<Rightarrow> snapshot \<Rightarrow> bool" where
  "genuine g n s \<longleftrightarrow> psIdentityStartTicks s = Some n \<and>
     number_of (psMetric s K_pid) = Some (of_int (ttPid g)) \<and>
     (\<exists>engine. ttCapsEnginePid g = Some engine \<and> number_of (psMetric s K_ppid) = Some (of_int engine))"

definition started_near :: "telemetry_target \<Rightarrow> snapshot \<Rightarrow> bool" where
  "started_near g s \<longleftrightarrow>
     (\<exists>proc caps. start_of s = Some proc \<and> ttProcessStartedAt g = Some caps \<and>
        \<bar>proc - caps\<bar> \<le> IDENTITY_START_TOLERANCE_MS)"

definition worthless :: "snapshot \<Rightarrow> bool" where
  "worthless s \<longleftrightarrow> (\<forall>k. k \<noteq> K_pid \<and> k \<noteq> K_capsEnginePid \<longrightarrow> mValue (psMetric s k) = None)"

definition loop_ok :: "sampling \<Rightarrow> snapshot list \<Rightarrow> bool" where
  "loop_ok l evs \<longleftrightarrow>
     (\<exists>good bad. evs = good @ bad \<and> length bad \<le> 1 \<and> (\<forall>s \<in> set bad. worthless s) \<and>
        (bad \<noteq> [] \<longrightarrow> slStopped l) \<and>
        (if good = [] then slStopped l \<or> slIdentity l = Not_verified
         else started_near (slTarget l) (hd good) \<and>
           (\<exists>n. (\<forall>s \<in> set good. genuine (slTarget l) n s) \<and>
              (slStopped l \<or> slIdentity l = Accepted n))))"

lemma loop_ok_stop: "loop_ok l evs \<Longrightarrow> loop_ok (l \<lparr>slTimer := False, slStopped := True\<rparr>) evs"
  by (auto simp: loop_ok_def split: if_splits)

lemma loop_ok_same:
  "loop_ok l evs \<Longrightarrow> slTarget l' = slTarget l \<Longrightarrow> slStopped l' = slStopped l \<Longrightarrow>
     slIdentity l' = slIdentity l \<Longrightarrow> loop_ok l' evs"
  unfolding loop_ok_def by (simp only:)

lemma loop_ok_bad:
  assumes "loop_ok l evs" and "\<not> slStopped l" and "worthless s" and "slTarget l' = slTarget l"
    and "slStopped l'"
  shows "loop_ok l' (evs @ [s])"
proof -
  obtain good bad where gb: "evs = good @ bad" "bad \<noteq> [] \<longrightarrow> slStopped l"
      "if good = [] then slStopped l \<or> slIdentity l = Not_verified
         else started_near (slTarget l) (hd good) \<and>
           (\<exists>n. (\<forall>s \<in> set good. genuine (slTarget l) n s) \<and> (slStopped l \<or> slIdentity l = Accepted n))"
    using assms(1) unfolding loop_ok_def by blast
  then have "evs = good" using assms(2) by simp
  then show ?thesis
    using gb(3) assms(3-5) unfolding loop_ok_def
    by (intro exI [of _ good] exI [of _ "[s]"]) (auto split: if_splits)
qed

lemma loop_ok_good:
  assumes "loop_ok l evs" and "\<not> slStopped l" and "genuine (slTarget l) n s"
    and "slTarget l' = slTarget l" and "slIdentity l' = Accepted n"
    and "slIdentity l = Not_verified \<Longrightarrow> started_near (slTarget l) s"
    and "slIdentity l \<noteq> Not_verified \<Longrightarrow> slIdentity l = Accepted n"
  shows "loop_ok l' (evs @ [s])"
proof -
  obtain good bad where gb: "evs = good @ bad" "bad \<noteq> [] \<longrightarrow> slStopped l"
      "if good = [] then slStopped l \<or> slIdentity l = Not_verified
         else started_near (slTarget l) (hd good) \<and>
           (\<exists>n. (\<forall>s \<in> set good. genuine (slTarget l) n s) \<and> (slStopped l \<or> slIdentity l = Accepted n))"
    using assms(1) unfolding loop_ok_def by blast
  then have evs: "evs = good" using assms(2) by simp
  have "started_near (slTarget l) (hd (good @ [s])) \<and> (\<forall>x \<in> set (good @ [s]). genuine (slTarget l) n x)"
  proof (cases "good = []")
    case True
    with gb(3) assms(2,3,6) show ?thesis by simp
  next
    case False
    with gb(3) assms(2) obtain k where k: "\<forall>x \<in> set good. genuine (slTarget l) k x"
        "slIdentity l = Accepted k" "started_near (slTarget l) (hd good)" by auto
    with assms(7) have "k = n" by simp
    with k assms(3) False show ?thesis by simp
  qed
  then show ?thesis
    unfolding loop_ok_def evs using assms(4,5)
    by (intro exI [of _ "good @ [s]"] exI [of _ "[]"]) auto
qed

lemma absent_worthless: "k \<noteq> K_pid \<Longrightarrow> mValue (psMetric (absent_snapshot pid now r) k) = None"
  by (simp add: absent_snapshot_def unavailable_def)

lemma readProcessSnapshot_absent:
  assumes "readProcessSnapshot fs pid now c = (s, c')" and "psIdentityStartTicks s = None" and "k \<noteq> K_pid"
  shows "mValue (psMetric s k) = None"
proof (cases "read_stat fs pid")
  case (Inl r)
  with assms(1) have "s = absent_snapshot pid now r"
    by (auto simp: readProcessSnapshot_def split: prod.splits)
  with assms(3) show ?thesis by (simp add: absent_worthless)
next
  case (Inr st)
  with assms(1,2) show ?thesis
    by (auto simp: readProcessSnapshot_def Let_def split: prod.splits)
qed

lemma readProcessSnapshot_pid:
  assumes "readProcessSnapshot fs pid now c = (s, c')"
  shows "number_of (psMetric s K_pid) = Some (of_int pid)"
proof (cases "read_stat fs pid")
  case (Inl r)
  with assms have "s = absent_snapshot pid now r"
    by (auto simp: readProcessSnapshot_def split: prod.splits)
  then show ?thesis by (simp add: absent_snapshot_def)
next
  case (Inr st)
  then have "tsPid st = pid"
    by (auto simp: read_stat_def split: sum.splits if_splits)
  with assms Inr show ?thesis
    by (auto simp: readProcessSnapshot_def Let_def split: prod.splits)
qed

lemma collected_tick_facts:
  assumes "collected_tick pid t"
  shows "snapshot_typed (tkSnapshot t)"
    and "psIdentityStartTicks (tkSnapshot t) = None \<Longrightarrow> k \<noteq> K_pid \<Longrightarrow> mValue (psMetric (tkSnapshot t) k) = None"
    and "number_of (psMetric (tkSnapshot t) K_pid) = Some (of_int pid)"
proof -
  obtain fs now c c' where r: "cache_positive c" "readProcessSnapshot fs pid now c = (tkSnapshot t, c')"
    using assms by (auto simp: collected_tick_def)
  then show "snapshot_typed (tkSnapshot t)" using readProcessSnapshot_typed by blast
  show "mValue (psMetric (tkSnapshot t) k) = None" if "psIdentityStartTicks (tkSnapshot t) = None" "k \<noteq> K_pid"
    using readProcessSnapshot_absent [OF r(2)] that by blast
  show "number_of (psMetric (tkSnapshot t) K_pid) = Some (of_int pid)"
    using readProcessSnapshot_pid [OF r(2)] .
qed

lemma deriveRates_identity [simp]: "psIdentityStartTicks (deriveRates s p ms) = psIdentityStartTicks s"
  by (simp add: deriveRates_def split: option.split)

lemma markUnavailable_simps [simp]:
  "psIdentityStartTicks (markUnavailable s r) = psIdentityStartTicks s"
  "mValue (psMetric (markUnavailable s r) k) = None"
  by (simp_all add: markUnavailable_def all_keys unavailable_def)

lemma owned_simps [simp]:
  "psIdentityStartTicks (owned_snapshot l t) = psIdentityStartTicks (tkSnapshot t)"
  "k \<noteq> K_capsEnginePid \<Longrightarrow> psMetric (owned_snapshot l t) k = psMetric (tkSnapshot t) k"
  by (simp_all add: owned_snapshot_def)

lemma final_typed:
  assumes "collected_tick pid t"
  shows "snapshot_typed (final_snapshot l t)"
proof -
  have "snapshot_typed (owned_snapshot l t)"
    using collected_tick_facts(1) [OF assms]
    by (auto simp: snapshot_typed_def owned_snapshot_def capsEnginePidMetric_def value_typed_def
        split: option.split)
  then show ?thesis
    by (simp add: final_snapshot_def markUnavailable_typed deriveRates_typed split: option.split)
qed

lemma deriveRates_worthless:
  assumes "\<forall>k. k \<noteq> K_pid \<and> k \<noteq> K_capsEnginePid \<longrightarrow> mValue (psMetric s k) = None"
  shows "worthless (deriveRates s prev ms)"
proof -
  have none: "number_of (psMetric s k) = None" if "k \<noteq> K_pid" "k \<noteq> K_capsEnginePid" for k
    using assms that by (simp add: number_of_def)
  have "mValue (psMetric (deriveRates s prev ms) k) = None" if "k \<noteq> K_pid" "k \<noteq> K_capsEnginePid" for k
    using assms that
    by (auto simp: deriveRates_def COUNTER_RATES_def RATE_METRIC_KEYS_def counter_rate_def Let_def
      deriveCpuPercent_def none unavailable_def split: option.split)
  then show ?thesis by (simp add: worthless_def)
qed

lemma final_worthless:
  assumes "collected_tick pid t"
    and "snd (verifyIdentity l (owned_snapshot l t)) \<noteq> None \<or> psIdentityStartTicks (final_snapshot l t) = None"
  shows "worthless (final_snapshot l t)"
proof (cases "snd (verifyIdentity l (owned_snapshot l t))")
  case None
  then have "psIdentityStartTicks (tkSnapshot t) = None"
    using assms(2) by (simp add: final_snapshot_def)
  from collected_tick_facts(2) [OF assms(1) this] None show ?thesis
    by (auto simp: final_snapshot_def intro!: deriveRates_worthless)
qed (simp add: final_snapshot_def worthless_def)

lemma accepted_identity:
  assumes "verifyIdentity l s = (identity, None)" and "psIdentityStartTicks s = Some n"
    and "number_of (psMetric s K_pid) = Some (of_int (ttPid (slTarget l)))"
  shows "identity = Accepted n" and "genuine (slTarget l) n s"
    and "slIdentity l = Not_verified \<Longrightarrow> started_near (slTarget l) s"
    and "slIdentity l \<noteq> Not_verified \<Longrightarrow> slIdentity l = Accepted n"
  using assms
  by (auto simp: verifyIdentity_def genuine_def started_near_def not_less
      split: option.splits if_splits loop_identity.splits)

lemma started_near_derive [simp]: "started_near g (deriveRates s p ms) = started_near g s"
  by (simp add: started_near_def start_of_def deriveRates_other RATE_METRIC_KEYS_def)

lemma genuine_derive [simp]: "genuine g n (deriveRates s p ms) = genuine g n s"
  by (simp add: genuine_def deriveRates_other RATE_METRIC_KEYS_def)

definition history_ok :: "sampler \<Rightarrow> bool" where
  "history_ok m \<longleftrightarrow>
     (\<forall>e \<in> set (smEmitted m). fst e < length (smLoops m) \<and> snapshot_typed (snd e)) \<and>
     (\<forall>i < length (smLoops m). loop_ok (smLoops m ! i) (history i m))"

lemma history_frame [simp]:
  "history i (upd_loop j f m) = history i m" "history i (halt sid pid j m) = history i m"
  "history i (with_loop g m) = history i m"
  "history i (m' \<lparr>smEmitted := smEmitted m @ [(j, s)]\<rparr>) = history i m @ (if j = i then [s] else [])"
  by (simp_all add: history_def)

lemma history_ok_halt: "history_ok m \<Longrightarrow> history_ok (halt sid pid i m)"
  by (auto simp: history_ok_def loop_ok_stop)

lemma history_ok_upd:
  assumes "history_ok m" and "\<And>l. slTarget (f l) = slTarget l" "\<And>l. slStopped (f l) = slStopped l"
    "\<And>l. slIdentity (f l) = slIdentity l"
  shows "history_ok (upd_loop i f m)"
  using assms(1) loop_ok_same [OF _ assms(2-4)] by (auto simp: history_ok_def)

text \<open>What one call of \<open>sample\<close> does to the history of its loop and to the others.\<close>

lemma sample_loops:
  assumes "i < length (smLoops m)"
  shows "length (smLoops (sample i t m)) = length (smLoops m)"
    and "j < length (smLoops m) \<Longrightarrow> j \<noteq> i \<Longrightarrow> smLoops (sample i t m) ! j = smLoops m ! j"
    and "j \<noteq> i \<Longrightarrow> history j (sample i t m) = history j m"
    and "slTarget (smLoops (sample i t m) ! i) = slTarget (smLoops m ! i)"
  using assms by (simp_all add: sample_def Let_def split: prod.split)

lemma sample_own:
  assumes "loop_ok (smLoops m ! i) (history i m)" and "i < length (smLoops m)"
    and "collected_tick (pid_of m i) t"
  shows "loop_ok (smLoops (sample i t m) ! i) (history i (sample i t m))"
proof -
  let ?l = "smLoops m ! i" and ?s = "owned_snapshot (smLoops m ! i) t"
  consider "slStopped ?l" | "\<not> slStopped ?l" "tkFinalized t" | "\<not> slStopped ?l" "\<not> tkFinalized t" by blast
  then show ?thesis
  proof cases
    case 3
    obtain identity rejection where v: "verifyIdentity ?l ?s = (identity, rejection)" by fastforce
    show ?thesis
    proof (cases "rejection \<noteq> None \<or> psIdentityStartTicks (final_snapshot ?l t) = None")
      case True
      then have "worthless (final_snapshot ?l t)" using final_worthless [OF assms(3)] v by simp
      with loop_ok_bad [OF assms(1) 3(1)] show ?thesis
        using True 3 v assms(2) by (simp add: sample_def Let_def)
    next
      case False
      then have final: "final_snapshot ?l t = deriveRates ?s (slLastSnapshot ?l)
            (map_option (\<lambda>last. tkMonotonic t - last) (slLastMonotonic ?l))"
        and rej: "rejection = None"
        using v by (auto simp: final_snapshot_def)
      with False obtain n where n: "psIdentityStartTicks ?s = Some n" by auto
      have pid: "number_of (psMetric ?s K_pid) = Some (of_int (ttPid (slTarget ?l)))"
        using collected_tick_facts(3) [OF assms(3)] by simp
      note acc = accepted_identity [OF v [unfolded rej] n pid]
      have "genuine (slTarget ?l) n (final_snapshot ?l t)" using acc(2) final by simp
      from loop_ok_good [OF assms(1) 3(1) this] acc(1,3,4) final show ?thesis
        using False 3 v assms(2) by (simp add: sample_def Let_def)
    qed
  qed (use assms loop_ok_stop in \<open>auto simp: sample_def Let_def\<close>)
qed

lemma sample_emits:
  "set (smEmitted (sample i t m)) \<subseteq> insert (i, final_snapshot (smLoops m ! i) t) (set (smEmitted m))"
  by (auto simp: sample_def Let_def split: prod.split)

lemma history_ok_sample:
  assumes "history_ok m" and "i < length (smLoops m)" and "collected_tick (pid_of m i) t"
  shows "history_ok (sample i t m)"
proof -
  have "loop_ok (smLoops (sample i t m) ! j) (history j (sample i t m))" if "j < length (smLoops m)" for j
    using assms sample_own [OF _ assms(2,3)] sample_loops [OF assms(2)] that
    by (cases "j = i") (auto simp: history_ok_def)
  moreover have "fst e < length (smLoops m) \<and> snapshot_typed (snd e)" if "e \<in> set (smEmitted (sample i t m))" for e
    using subsetD [OF sample_emits that] assms final_typed [OF assms(3)] by (auto simp: history_ok_def)
  ultimately show ?thesis by (simp add: history_ok_def sample_loops(1) [OF assms(2)])
qed

lemma history_ok_with_loop:
  assumes "history_ok m"
  shows "history_ok (with_loop g m)"
proof -
  have "history (length (smLoops m)) m = []"
    using assms by (force simp: history_ok_def history_def filter_empty_conv)
  moreover have "loop_ok l []" if "slIdentity l = Not_verified" for l
    using that by (simp add: loop_ok_def)
  ultimately show ?thesis using assms by (auto simp: history_ok_def less_Suc_eq)
qed

lemma history_ok_start:
  assumes "history_ok m" and "collected_tick (ttPid g) t"
  shows "history_ok (start_loop g t m)"
proof -
  have "history_ok (sample (length (smLoops m)) t (with_loop g m))"
    by (rule history_ok_sample [OF history_ok_with_loop [OF assms(1)]]) (simp_all add: assms(2))
  with assms(1) show ?thesis by (auto simp: start_loop_eq Let_def intro!: history_ok_upd)
qed

lemma history_ok_stop: "history_ok m \<Longrightarrow> history_ok (stop_loop sid pid m)"
proof -
  have "history_ok m \<Longrightarrow> history_ok (fold (\<lambda>(p, i). halt sid p i) ps m)" for ps m
    by (induction ps arbitrary: m) (auto simp: history_ok_halt)
  then show "history_ok m \<Longrightarrow> ?thesis"
    by (simp add: stop_loop_def history_ok_halt split: option.split)
qed

lemma history_ok_close: "history_ok m \<Longrightarrow> history_ok (close_sampler m)"
proof -
  have "history_ok m \<Longrightarrow> history_ok (fold (\<lambda>sid. stop_loop sid None) ss m)" for ss m
    by (induction ss arbitrary: m) (auto simp: history_ok_stop)
  then show "history_ok m \<Longrightarrow> ?thesis" by (simp add: close_sampler_def)
qed

lemma history_ok_reachable: "sampler_reachable m \<Longrightarrow> history_ok m"
proof (induction rule: sampler_reachable.induct)
  case Init
  then show ?case by (simp add: new_sampler_def history_ok_def)
next
  case (Step m m')
  from Step(2,3) show ?case
    by cases (auto intro: history_ok_start history_ok_sample history_ok_stop history_ok_close)
qed

section \<open>After the end\<close>

text \<open>What no later step takes back: a loop that stopped stays so, and its history is complete.\<close>

definition still :: "nat \<Rightarrow> sampler \<Rightarrow> sampler \<Rightarrow> bool" where
  "still i m m' \<longleftrightarrow> i < length (smLoops m') \<and> slStopped (smLoops m' ! i) \<and> history i m' = history i m"

lemma still_halt: "i < length (smLoops m) \<Longrightarrow> slStopped (smLoops m ! i) \<Longrightarrow> still i m (halt sid pid j m)"
  by (simp add: still_def)

lemma still_sample:
  assumes "i < length (smLoops m)" "slStopped (smLoops m ! i)" "j < length (smLoops m)"
  shows "still i m (sample j t m)"
proof (cases "j = i")
  case True
  with assms show ?thesis by (simp add: still_def sample_def Let_def)
next
  case False
  with assms sample_loops [OF assms(3)] show ?thesis by (simp add: still_def)
qed

lemma still_trans:
  assumes "\<And>m x. i < length (smLoops m) \<Longrightarrow> slStopped (smLoops m ! i) \<Longrightarrow> still i m (f x m)"
    and "i < length (smLoops m)" "slStopped (smLoops m ! i)"
  shows "still i m (fold f xs m)"
  using assms(2,3)
proof (induction xs arbitrary: m)
  case (Cons x xs)
  from assms(1) [OF Cons.prems, of x] Cons.IH [of "f x m"] show ?case by (simp add: still_def)
qed (simp add: still_def)

lemma still_stop: "i < length (smLoops m) \<Longrightarrow> slStopped (smLoops m ! i) \<Longrightarrow> still i m (stop_loop sid pid m)"
  using still_trans [of i "\<lambda>(p, j). halt sid p j" m] still_halt
  by (auto simp: stop_loop_def still_def split: option.split)

lemma still_start:
  assumes "i < length (smLoops m)" "slStopped (smLoops m ! i)"
  shows "still i m (start_loop g t m)"
proof -
  have "still i (with_loop g m) (sample (length (smLoops m)) t (with_loop g m))"
    by (rule still_sample) (use assms in simp_all)
  with assms show ?thesis by (auto simp: still_def start_loop_eq Let_def)
qed

lemma still_step:
  assumes "sampler_step m m'" "i < length (smLoops m)" "slStopped (smLoops m ! i)"
  shows "still i m m'"
  using assms(1)
proof cases
  case Close
  show ?thesis unfolding Close close_sampler_def by (rule still_trans [OF still_stop assms(2,3)])
qed (use assms(2,3) in \<open>auto intro: still_start still_sample still_stop\<close>)

lemma still_steps:
  assumes "sampler_step\<^sup>*\<^sup>* m m'" "i < length (smLoops m)" "slStopped (smLoops m ! i)"
  shows "still i m m'"
  using assms(1)
proof (induction rule: rtranclp_induct)
  case base
  with assms(2,3) show ?case by (simp add: still_def)
next
  case (step y z)
  from step(3) still_step [OF step(2)] show ?case by (simp add: still_def)
qed

text \<open>Stopping changes nothing but the flags of loops and the map.\<close>

definition only_stops :: "sampler \<Rightarrow> sampler \<Rightarrow> bool" where
  "only_stops m m' \<longleftrightarrow> smEmitted m' = smEmitted m \<and> length (smLoops m') = length (smLoops m) \<and>
     (\<forall>j < length (smLoops m). slTarget (smLoops m' ! j) = slTarget (smLoops m ! j))"

lemma only_stops_halt: "only_stops m (halt sid pid i m)"
  by (simp add: only_stops_def)

lemma only_stops_fold: "(\<And>m x. only_stops m (f x m)) \<Longrightarrow> only_stops m (fold f xs m)"
  by (induction xs arbitrary: m) (simp_all add: only_stops_def)

lemma only_stops_stop: "only_stops m (stop_loop sid pid m)"
  using only_stops_fold [of "\<lambda>(p, i). halt sid p i"] only_stops_halt
  by (auto simp: stop_loop_def only_stops_def [of m m] split: option.split)

lemma only_stops_close: "only_stops m (close_sampler m)"
  by (simp add: close_sampler_def only_stops_fold only_stops_stop)

lemma isSampling_lookup: "isSampling m sid (Some pid) \<longleftrightarrow> lookup_loop m sid pid \<noteq> None"
  by (simp add: isSampling_def lookup_loop_def split: option.split)

lemma ended:
  assumes "sampler_ok m1" and "only_stops m m1" and "i < length (smLoops m)"
    and "lookup_loop m1 (sid_of m i) (pid_of m i) = None"
  shows "i < length (smLoops m1) \<and> slStopped (smLoops m1 ! i) \<and> history i m1 = history i m \<and>
    \<not> isSampling m1 (sid_of m i) (Some (pid_of m i))"
proof -
  have "lookup_loop m1 (sid_of m i) (pid_of m i) = Some i \<longleftrightarrow> \<not> slStopped (smLoops m1 ! i)"
    using assms(1-3) by (simp add: sampler_ok_def map_exact_def only_stops_def)
  with assms(2-4) show ?thesis
    by (simp add: only_stops_def history_def isSampling_lookup)
qed

lemma lookup_stop_one:
  "lookup_loop (stop_loop sid (Some p) m) sid p = None"
  by (auto simp: stop_loop_def lookup_loop_def [of m] split: option.split)

section \<open>Properties\<close>

text \<open>C17: Every sample the sampler ever emits keeps the metric contract: whatever procfs held, whatever
  the order of starts, timers and stops, each of the 30 metrics of a sample either has a value of
  its key's type, with the provenance the capabilities declare and no reason, or is
  \<open>UNAVAILABLE\<close> with a reason and no value, and no counter, duration or rate is negative.\<close>
theorem every_sample_typed:
  assumes "sampler_reachable m" and "(i, s) \<in> set (smEmitted m)"
  shows "i < length (smLoops m) \<and> k \<in> set SNAPSHOT_METRIC_KEYS \<and>
    (case mValue (psMetric s k) of
       None \<Rightarrow> mProvenance (psMetric s k) = Unavailable \<and> mReason (psMetric s k) \<noteq> None
     | Some v \<Rightarrow> value_typed k v \<and> mReason (psMetric s k) = None \<and>
         mProvenance (psMetric s k) =
           (if classifyMetric k = Class_derived then Derived else Observed))"
proof -
  have "i < length (smLoops m) \<and> snapshot_typed s"
    using history_ok_reachable [OF assms(1)] assms(2) by (auto simp: history_ok_def)
  then show ?thesis by (simp add: snapshot_typed_def metric_typed_def all_keys)
qed

text \<open>C15: A sample with values is always of the right process. What a loop has emitted is a run of
  samples of one process (its pid, its start ticks, the execution's engine as parent, started
  within two seconds of \<^verbatim>\<open>PROCESS_STARTED\<close>), after which at most one more was emitted; that last
  one reports nothing procfs would supply, and the loop ended with it.\<close>
theorem never_reports_a_stranger:
  assumes "sampler_reachable m" and "i < length (smLoops m)"
  shows "\<exists>good bad n. history i m = good @ bad \<and>
    (\<forall>s \<in> set good. genuine (slTarget (smLoops m ! i)) n s) \<and>
    (good \<noteq> [] \<longrightarrow> started_near (slTarget (smLoops m ! i)) (hd good)) \<and>
    length bad \<le> 1 \<and> (\<forall>s \<in> set bad. worthless s) \<and> (bad \<noteq> [] \<longrightarrow> slStopped (smLoops m ! i))"
proof -
  have "loop_ok (smLoops m ! i) (history i m)"
    using history_ok_reachable [OF assms(1)] assms(2) by (simp add: history_ok_def)
  then obtain good bad where gb: "history i m = good @ bad" "length bad \<le> 1" "\<forall>s \<in> set bad. worthless s"
      "bad \<noteq> [] \<longrightarrow> slStopped (smLoops m ! i)"
      "good \<noteq> [] \<longrightarrow> started_near (slTarget (smLoops m ! i)) (hd good) \<and>
         (\<exists>n. \<forall>s \<in> set good. genuine (slTarget (smLoops m ! i)) n s)"
    unfolding loop_ok_def by (auto split: if_splits)
  show ?thesis
  proof (cases "good = []")
    case True
    with gb show ?thesis by (intro exI [of _ "[]"] exI [of _ bad]) simp
  next
    case False
    with gb(5) obtain n where n: "\<forall>s \<in> set good. genuine (slTarget (smLoops m ! i)) n s"
        "started_near (slTarget (smLoops m ! i)) (hd good)" by blast
    with gb(1-4) show ?thesis
      by (intro exI [of _ good] exI [of _ bad] exI [of _ n]) simp
  qed
qed

text \<open>C18: The map of the sampler holds exactly the running loops. A process is reported as being
  sampled just when there is one loop for it that has not stopped, and there is never a second;
  an armed timer belongs to such a loop.\<close>
theorem running_loops_exact:
  assumes "sampler_reachable m"
  shows "(isSampling m sid (Some pid) \<longleftrightarrow>
      (\<exists>!i. i < length (smLoops m) \<and> \<not> slStopped (smLoops m ! i) \<and> sid_of m i = sid \<and> pid_of m i = pid)) \<and>
    (isSampling m sid None \<longleftrightarrow>
      (\<exists>i < length (smLoops m). \<not> slStopped (smLoops m ! i) \<and> sid_of m i = sid)) \<and>
    (isSampling m sid None \<longleftrightarrow> sid \<in> set (activeSessionIds m)) \<and>
    (\<forall>i < length (smLoops m). slTimer (smLoops m ! i) \<longrightarrow> \<not> slStopped (smLoops m ! i))"
proof -
  have ok: "sampler_ok m" by (rule sampler_ok_reachable [OF assms])
  then have found: "lookup_loop m s p = Some j \<longleftrightarrow> j < length (smLoops m) \<and>
      \<not> slStopped (smLoops m ! j) \<and> sid_of m j = s \<and> pid_of m j = p" for s p j
    by (auto simp: sampler_ok_def map_exact_def)
  have all: "isSampling m sid None \<longleftrightarrow> (\<exists>p. lookup_loop m sid p \<noteq> None)"
  proof (cases "map_of (smSessions m) sid")
    case (Some ps)
    then have "fst (hd ps) \<in> fst ` set ps" using session_entries(4) [OF ok Some] by (cases ps) auto
    with Some session_entries(3) [OF ok Some, of "fst (hd ps)"] show ?thesis
      by (auto simp: isSampling_def)
  qed (simp add: isSampling_def lookup_loop_def)
  have keys: "isSampling m sid None \<longleftrightarrow> sid \<in> set (activeSessionIds m)"
    by (auto simp: isSampling_def activeSessionIds_def map_of_eq_None_iff split: option.split)
       (metis domI dom_map_of_conv_image_fst)
  have "isSampling m sid (Some pid) \<longleftrightarrow> (\<exists>!i. lookup_loop m sid pid = Some i)"
    unfolding isSampling_lookup by auto
  moreover have "isSampling m sid None \<longleftrightarrow> (\<exists>i p. lookup_loop m sid p = Some i)"
    unfolding all by auto
  moreover have "\<forall>i < length (smLoops m). slTimer (smLoops m ! i) \<longrightarrow> \<not> slStopped (smLoops m ! i)"
    using ok by (simp add: sampler_ok_def map_exact_def)
  ultimately show ?thesis using keys unfolding found by blast
qed

text \<open>C16: No sample comes after the end. Once the process or its execution is stopped, or the sampler is
  closed, or a tick finds the execution finalized, the loop has emitted all it ever will, in
  whatever order timers fire, executions start and stops repeat afterwards, and the process is no
  longer reported as being sampled.\<close>
theorem no_sample_after_the_end:
  assumes "sampler_reachable m" and "i < length (smLoops m)"
    and "m1 \<in> {stop_loop (sid_of m i) None m, stop_loop (sid_of m i) (Some (pid_of m i)) m,
      close_sampler m} \<or> (m1 = sample i t m \<and> tkFinalized t \<and> \<not> slStopped (smLoops m ! i))"
    and "sampler_step\<^sup>*\<^sup>* m1 m'"
  shows "history i m' = history i m \<and> slStopped (smLoops m' ! i) \<and>
    \<not> isSampling m1 (sid_of m i) (Some (pid_of m i))"
proof -
  have ok: "sampler_ok m" by (rule sampler_ok_reachable [OF assms(1)])
  have stops: "sampler_ok m1 \<and> only_stops m m1 \<and> lookup_loop m1 (sid_of m i) (pid_of m i) = None"
    if "m1 \<in> {stop_loop (sid_of m i) None m, stop_loop (sid_of m i) (Some (pid_of m i)) m, close_sampler m}"
    using that ok
    by (auto simp: sampler_ok_stop sampler_ok_close only_stops_stop only_stops_close
        lookup_stop_all lookup_stop_one lookup_close)
  have "i < length (smLoops m1) \<and> slStopped (smLoops m1 ! i) \<and> history i m1 = history i m \<and>
      \<not> isSampling m1 (sid_of m i) (Some (pid_of m i))"
  proof (cases "m1 = sample i t m \<and> tkFinalized t \<and> \<not> slStopped (smLoops m ! i)")
    case True
    with assms(2) show ?thesis by (simp add: sample_def Let_def isSampling_lookup)
  next
    case False
    with stops assms(2,3) ended [of m1 m i] show ?thesis by blast
  qed
  with still_steps [OF assms(4)] show ?thesis by (simp add: still_def)
qed
text \<open>
  An execution \<^verbatim>\<open>s\<close> whose engine is process 900 and whose workload is process 41; the second tick
  finds its parent changed.
\<close>

definition sampled_target :: telemetry_target where
  "sampled_target = \<lparr>ttSessionId = ''s'', ttPid = 41, ttCapsEnginePid = Some 900,
     ttProcessStartedAt = Some 1006000\<rparr>"

definition sample_tick :: tick where
  "sample_tick = \<lparr>tkFinalized = False, tkMonotonic = 10,
     tkSnapshot = fst (readProcessSnapshot (sample_proc 10) 41 1000000 no_cache)\<rparr>"

definition sample_run :: sampler where
  "sample_run = start_loop sampled_target sample_tick new_sampler"

lemma sample_tick_collected: "collected_tick 41 sample_tick"
proof -
  have "cache_positive no_cache" by (simp add: cache_positive_def no_cache_def)
  moreover have "readProcessSnapshot (sample_proc 10) 41 1000000 no_cache =
      (tkSnapshot sample_tick, snd (readProcessSnapshot (sample_proc 10) 41 1000000 no_cache))"
    by (simp add: sample_tick_def)
  ultimately show ?thesis unfolding collected_tick_def by blast
qed

lemma sample_run_reachable: "sampler_reachable sample_run"
  unfolding sample_run_def using sample_tick_collected
  by (intro sampler_reachable.Step [OF sampler_reachable.Init] sampler_step.Start)
     (simp add: sampled_target_def)

lemma sample_status:
  "status_int \<lparr>scPid = p, scStat = st, scStatus = parseProcStatus (''Pid: 41'' @ [CHR 0x0A] @ ''PPid: 900'' @ [CHR 0x0A]),
     scIo = io, scReason = r, scIoReason = ir, scTicks = t, scUptime = u, scBoot = b, scNow = now\<rparr> ''Pid'' = Some 41"
  "status_int \<lparr>scPid = p, scStat = st, scStatus = parseProcStatus (''Pid: 41'' @ [CHR 0x0A] @ ''PPid: 900'' @ [CHR 0x0A]),
     scIo = io, scReason = r, scIoReason = ir, scTicks = t, scUptime = u, scBoot = b, scNow = now\<rparr> ''PPid'' = Some 900"
  by (simp_all add: parseProcStatus_def split_lines_def drop_cr_def colon_line_def parseFirstInt_def
      split_spaces_def js_trim_def trim_start_def trim_end_def js_space_def is_digit_def
      decimal_value_def digit_value_def MAX_SAFE_INTEGER_def Let_def)

lemma sample_tick_values:
  "psIdentityStartTicks (tkSnapshot sample_tick) = Some 500"
  "number_of (psMetric (tkSnapshot sample_tick) K_ppid) = Some 900"
  "start_of (tkSnapshot sample_tick) = Some 1005000"
proof -
  have files: "pfStatus (sample_proc 10) 41 = Inr (''Pid: 41'' @ [CHR 0x0A] @ ''PPid: 900'' @ [CHR 0x0A])"
      "pfIo (sample_proc 10) 41 = Inl EACCES"
    by (simp_all add: sample_proc_def)
  show "psIdentityStartTicks (tkSnapshot sample_tick) = Some 500"
    by (simp add: sample_tick_def sample_snapshot)
  show "number_of (psMetric (tkSnapshot sample_tick) K_ppid) = Some 900"
    using sample_clock [of 10] sample_status
    by (simp add: sample_tick_def readProcessSnapshot_def sample_proc_stat sample_boot files
        bootTimeSeconds_def no_cache_def case_prod_unfold del: append.simps)
  have "\<lfloor>2010001 / 2 :: rat\<rfloor> = 1005000" by (simp add: floor_eq_iff)
  then show "start_of (tkSnapshot sample_tick) = Some 1005000"
    using sample_clock [of 10]
    by (simp add: sample_tick_def readProcessSnapshot_def sample_proc_stat sample_boot Let_def
        bootTimeSeconds_def no_cache_def case_prod_unfold start_of_def start_ms_def
        stable_start_ms_def derived_def js_round_def)
qed

lemma sample_accepted:
  assumes "slTarget l = sampled_target" and "slIdentity l = Not_verified"
  shows "verifyIdentity l (owned_snapshot l sample_tick) = (Accepted 500, None)"
proof -
  have "start_of (owned_snapshot l sample_tick) = Some 1005000"
    using sample_tick_values(3) by (simp add: start_of_def)
  with assms show ?thesis
    by (simp add: verifyIdentity_def sample_tick_values sampled_target_def IDENTITY_START_TOLERANCE_MS_def)
qed

text \<open>The first sample of the run is accepted and its timer armed.\<close>

lemma sample_run_facts:
  "length (smLoops sample_run) = 1" "length (smEmitted sample_run) = 1"
  "fst (hd (smEmitted sample_run)) = 0" "length (history 0 sample_run) = 1"
  "\<not> slStopped (smLoops sample_run ! 0)" "slTimer (smLoops sample_run ! 0)"
  "slTarget (smLoops sample_run ! 0) = sampled_target"
proof -
  let ?l = "smLoops (with_loop sampled_target new_sampler) ! 0"
  have fresh: "lookup_loop new_sampler sid pid = None" "smLoops new_sampler = []" "smEmitted new_sampler = []" for sid pid
    by (simp_all add: lookup_loop_def new_sampler_def)
  have l: "?l = \<lparr>slTarget = sampled_target, slTimer = False, slIdentity = Not_verified,
      slLastSnapshot = None, slLastMonotonic = None, slStopped = False\<rparr>"
    using with_loop_frame(4) [of sampled_target new_sampler] fresh(2) by simp
  have v: "verifyIdentity ?l (owned_snapshot ?l sample_tick) = (Accepted 500, None)"
    by (rule sample_accepted) (simp_all add: l)
  then have id: "psIdentityStartTicks (final_snapshot ?l sample_tick) = Some 500"
    by (simp add: final_snapshot_def sample_tick_values)
  have eq: "sample_run = upd_loop 0 (\<lambda>l. l \<lparr>slTimer := True\<rparr>) (sample 0 sample_tick (with_loop sampled_target new_sampler))"
    and s: "sample 0 sample_tick (with_loop sampled_target new_sampler) =
      upd_loop 0 (\<lambda>l. l \<lparr>slLastSnapshot := Some (final_snapshot ?l sample_tick), slLastMonotonic := Some 10\<rparr>)
        ((upd_loop 0 (\<lambda>l. l \<lparr>slIdentity := Accepted 500\<rparr>) (with_loop sampled_target new_sampler))
           \<lparr>smEmitted := [(0, final_snapshot ?l sample_tick)]\<rparr>)"
    using v id l fresh by (simp_all add: sample_run_def start_loop_eq Let_def sample_def sample_tick_def)
  show "length (smLoops sample_run) = 1" "length (smEmitted sample_run) = 1"
      "fst (hd (smEmitted sample_run)) = 0" "length (history 0 sample_run) = 1"
      "\<not> slStopped (smLoops sample_run ! 0)" "slTimer (smLoops sample_run ! 0)"
      "slTarget (smLoops sample_run ! 0) = sampled_target"
    using l fresh by (simp_all add: eq s history_def)
qed

theorem every_sample_typed_witness:
  "mProvenance (psMetric (snd (hd (smEmitted sample_run))) K_cpuPercent) \<in> {Derived, Unavailable}"
proof -
  have "(0, snd (hd (smEmitted sample_run))) \<in> set (smEmitted sample_run)"
    using sample_run_facts(2,3) by (cases "smEmitted sample_run") auto
  from every_sample_typed [OF sample_run_reachable this, of K_cpuPercent] show ?thesis
    by (auto split: option.splits)
qed

theorem never_reports_a_stranger_witness:
  "\<exists>s. history 0 sample_run = [s] \<and> started_near sampled_target s"
proof -
  have "0 < length (smLoops sample_run)" using sample_run_facts(1) by simp
  from never_reports_a_stranger [OF sample_run_reachable this] sample_run_facts
  obtain good bad where "history 0 sample_run = good @ bad" "bad = []"
      "good \<noteq> [] \<longrightarrow> started_near sampled_target (hd good)" by auto
  with sample_run_facts(4) show ?thesis by (cases good) auto
qed

theorem running_loops_exact_witness:
  "isSampling sample_run ''s'' (Some 41) \<and> \<not> isSampling sample_run ''t'' None"
  using running_loops_exact [OF sample_run_reachable, of "''s''" 41]
    running_loops_exact [OF sample_run_reachable, of "''t''" 41] sample_run_facts
  by (auto simp: sampled_target_def Ex1_def)

theorem no_sample_after_the_end_witness:
  "length (history 0 (start_loop sampled_target sample_tick (close_sampler sample_run))) = 1"
proof -
  have "0 < length (smLoops sample_run)" using sample_run_facts(1) by simp
  moreover have "sampler_step\<^sup>*\<^sup>* (close_sampler sample_run)
      (start_loop sampled_target sample_tick (close_sampler sample_run))"
    using sample_tick_collected by (auto intro!: r_into_rtranclp sampler_step.Start simp: sampled_target_def)
  ultimately show ?thesis
    using no_sample_after_the_end [OF sample_run_reachable, of 0 "close_sampler sample_run"] sample_run_facts(4)
    by simp
qed

end
