(* ===== verification/Host_Metric.thy ===== *)
theory Host_Metric
  imports Process_Telemetry
begin

text \<open>
  \<^verbatim>\<open>web/backend/src/telemetry/system/types.ts\<close> and \<^verbatim>\<open>read.ts\<close>: the metric every host collector
  reports, and the reading of kernel files.  The content of the files is the argument \<open>kfiles\<close>.  The
  reason of a missing value is the constructor of its message; the notes that explain a value
  are prose and left out.
\<close>

section \<open>Reading kernel files\<close>

datatype read_kind = Missing | Permission | Malformed | Io_failure

text \<open>A failure keeps its kind and what its sentence is built from: the path and the code.\<close>

record read_failure =
  rfKind :: read_kind
  rfPath :: string
  rfCode :: errno

type_synonym kfiles = "string \<Rightarrow> errno + string"

record kernel_paths =
  kpProc :: string
  kpSys :: string

definition DEFAULT_KERNEL_PATHS :: kernel_paths where
  "DEFAULT_KERNEL_PATHS = \<lparr>kpProc = ''/proc'', kpSys = ''/sys''\<rparr>"

text \<open>\<open>join\<close> of a root without trailing slash and plain segments.\<close>

definition procPath :: "kernel_paths \<Rightarrow> string list \<Rightarrow> string" where
  "procPath paths segments = join_with ''/'' (kpProc paths # segments)"

definition sysPath :: "kernel_paths \<Rightarrow> string list \<Rightarrow> string" where
  "sysPath paths segments = join_with ''/'' (kpSys paths # segments)"

fun classify :: "errno \<Rightarrow> string \<Rightarrow> read_failure" where
  "classify ENOENT path = \<lparr>rfKind = Missing, rfPath = path, rfCode = ENOENT\<rparr>"
| "classify EACCES path = \<lparr>rfKind = Permission, rfPath = path, rfCode = EACCES\<rparr>"
| "classify (Other_errno c) path =
     \<lparr>rfKind = (if c = ''ENOTDIR'' then Missing else if c = ''EPERM'' then Permission else Io_failure),
      rfPath = path, rfCode = Other_errno c\<rparr>"

definition readTextFile :: "kfiles \<Rightarrow> string \<Rightarrow> read_failure + string" where
  "readTextFile files path =
     (case files path of Inl e \<Rightarrow> Inl (classify e path) | Inr text \<Rightarrow> Inr text)"

definition readTrimmed :: "kfiles \<Rightarrow> string \<Rightarrow> read_failure + string" where
  "readTrimmed files path =
     (case readTextFile files path of Inl f \<Rightarrow> Inl f | Inr text \<Rightarrow> Inr (js_trim text))"

definition all_digits :: "string \<Rightarrow> bool" where
  "all_digits s \<longleftrightarrow> s \<noteq> [] \<and> (\<forall>c \<in> set s. is_digit c)"

definition safe_nat :: "string \<Rightarrow> nat option" where
  "safe_nat s =
     (if all_digits s \<and> decimal_value s \<le> MAX_SAFE_INTEGER then Some (decimal_value s) else None)"

definition parseKibibytes :: "string option \<Rightarrow> nat option" where
  "parseKibibytes raw =
     (case raw of
        None \<Rightarrow> None
      | Some v \<Rightarrow>
          (let t = js_trim v; ds = takeWhile is_digit t; r = dropWhile is_digit t in
           if takeWhile js_space r = [] \<or> dropWhile js_space r \<noteq> ''kB'' then None
           else map_option (\<lambda>n. n * 1024) (safe_nat ds)))"

definition parseUint :: "string option \<Rightarrow> nat option" where
  "parseUint raw = (case raw of None \<Rightarrow> None | Some v \<Rightarrow> safe_nat (js_trim v))"

text \<open>An optional sign, digits, and optionally a point and digits.\<close>

definition parseFinite :: "string option \<Rightarrow> rat option" where
  "parseFinite raw =
     (case raw of
        None \<Rightarrow> None
      | Some v \<Rightarrow>
          (let t = js_trim v; neg = prefix ''-'' t; u = (if neg then tl t else t);
               ip = takeWhile is_digit u; r = dropWhile is_digit u;
               ok = ip \<noteq> [] \<and> (r = [] \<or> (hd r = CHR ''.'' \<and> all_digits (tl r)));
               m = of_nat (decimal_value ip) +
                     (if r = [] then 0 else of_nat (decimal_value (tl r)) / 10 ^ length (tl r)) in
           if ok then Some (if neg then - m else m) else None))"

definition readUintFile :: "kfiles \<Rightarrow> string \<Rightarrow> nat option" where
  "readUintFile files path =
     (case readTrimmed files path of Inl f \<Rightarrow> None | Inr t \<Rightarrow> parseUint (Some t))"

definition readBootIdFile :: "kfiles \<Rightarrow> kernel_paths \<Rightarrow> string option" where
  "readBootIdFile files paths =
     (case readTrimmed files (procPath paths [''sys'', ''kernel'', ''random'', ''boot_id'']) of
        Inl f \<Rightarrow> None
      | Inr t \<Rightarrow> if 0 < length t then Some t else None)"

definition readMachineId :: "kfiles \<Rightarrow> string option" where
  "readMachineId files =
     (case readTrimmed files ''/etc/machine-id'' of
        Inr (c # t) \<Rightarrow> Some (c # t)
      | _ \<Rightarrow>
          (case readTrimmed files ''/var/lib/dbus/machine-id'' of
             Inr (c # t) \<Rightarrow> Some (c # t)
           | _ \<Rightarrow> None))"

section \<open>The host metric\<close>

datatype host_reason =
    Unreadable read_failure
  | Cpu_first_sample | Cpu_zero_interval | Cpu_rollback | Cpu_boot_change | Cpu_topology
  | Cpu_malformed | Cpu_frozen | Cpu_interval_elsewhere
  | Meminfo_absent string | Available_absent | Used_needs_both | Percent_needs_used | Swap_needs_both
  | Loadavg_malformed | Cpu_count_unknown
  | Pressure_missing string | Pressure_malformed string | Full_unsupported string
  | Average_absent string string string
  | Proc_first_sample | Proc_reused | Proc_no_interval | Proc_decreased | Proc_stat_malformed
  | Proc_replaced int | Proc_vanished read_failure | Proc_no_ticks
  | Proc_field_absent string | Proc_field_unreadable string | Proc_pss_deferred | Proc_no_schedstat
  | Proc_sched_malformed | Proc_link_unsettled | Proc_forks_absent | Proc_no_parent
  | Proc_not_detailed nat "host_reason option"
  | Net_first_sample | Net_rollback | Net_zero_interval | No_per_process_bytes | No_link_speed | No_mtu
  | Sysfs_unreadable string read_failure | Sysfs_empty string | Khz_absent string
  | Unrecognised_value string string | No_frequency_measurement
  | No_boot_id | No_machine_id | No_processors
  | Disk_first_sample | Disk_rollback | Disk_zero_interval
  | Not_mounted string | Statfs_failed string errno | Mount_unlisted string

record 'a host_metric =
  hmValue :: "'a option"
  hmUnit :: string
  hmSource :: string
  hmTimestamp :: string
  hmProvenance :: provenance
  hmEstimate :: bool
  hmReason :: "host_reason option"

definition h_observed :: "'a \<Rightarrow> string \<Rightarrow> string \<Rightarrow> string \<Rightarrow> 'a host_metric" where
  "h_observed v unit src ts =
     \<lparr>hmValue = Some v, hmUnit = unit, hmSource = src, hmTimestamp = ts, hmProvenance = Observed,
      hmEstimate = False, hmReason = None\<rparr>"

definition h_derived :: "'a \<Rightarrow> string \<Rightarrow> string \<Rightarrow> string \<Rightarrow> 'a host_metric" where
  "h_derived v unit src ts =
     \<lparr>hmValue = Some v, hmUnit = unit, hmSource = src, hmTimestamp = ts, hmProvenance = Derived,
      hmEstimate = False, hmReason = None\<rparr>"

definition h_unavailable :: "string \<Rightarrow> string \<Rightarrow> string \<Rightarrow> host_reason \<Rightarrow> 'a host_metric" where
  "h_unavailable unit src ts r =
     \<lparr>hmValue = None, hmUnit = unit, hmSource = src, hmTimestamp = ts, hmProvenance = Unavailable,
      hmEstimate = False, hmReason = Some r\<rparr>"

definition observedEstimate :: "'a \<Rightarrow> string \<Rightarrow> string \<Rightarrow> string \<Rightarrow> 'a host_metric" where
  "observedEstimate v unit src ts = (h_observed v unit src ts) \<lparr>hmEstimate := True\<rparr>"

definition valueOf :: "'a host_metric option \<Rightarrow> 'a option" where
  "valueOf m =
     (case m of
        None \<Rightarrow> None
      | Some x \<Rightarrow> if hmProvenance x \<noteq> Unavailable then hmValue x else None)"

definition hasValue :: "'a host_metric option \<Rightarrow> bool" where
  "hasValue m \<longleftrightarrow> (case m of None \<Rightarrow> False | Some x \<Rightarrow> hmProvenance x \<noteq> Unavailable \<and> hmValue x \<noteq> None)"

text \<open>The contract of \<^verbatim>\<open>types.ts\<close>: \<open>UNAVAILABLE\<close> means no value, and it has a reason.\<close>

definition honest :: "'a host_metric \<Rightarrow> bool" where
  "honest m \<longleftrightarrow> (hmProvenance m = Unavailable \<longleftrightarrow> hmValue m = None) \<and>
     (hmValue m = None \<longrightarrow> hmReason m \<noteq> None)"

lemma honest_simps [simp]:
  "honest (h_observed v u s t)" "honest (h_derived v u s t)" "honest (h_unavailable u s t r)"
  "honest (observedEstimate v u s t)"
  by (simp_all add: honest_def h_observed_def h_derived_def h_unavailable_def observedEstimate_def)

lemma hmValue_simps [simp]:
  "hmValue (h_observed v u s t) = Some v" "hmValue (h_derived v u s t) = Some v"
  "hmValue (h_unavailable u s t r) = None" "hmValue (observedEstimate v u s t) = Some v"
  by (simp_all add: h_observed_def h_derived_def h_unavailable_def observedEstimate_def)

lemma hmReason_unavailable [simp]: "hmReason (h_unavailable u s t r) = Some r"
  by (simp add: h_unavailable_def)

lemma hmProvenance_simps [simp]:
  "hmProvenance (h_observed v u s t) = Observed" "hmProvenance (h_derived v u s t) = Derived"
  "hmProvenance (h_unavailable u s t r) = Unavailable" "hmProvenance (observedEstimate v u s t) = Observed"
  by (simp_all add: h_observed_def h_derived_def h_unavailable_def observedEstimate_def)

lemma honest_valueOf: "honest m \<Longrightarrow> valueOf (Some m) = hmValue m"
  by (auto simp: honest_def valueOf_def)

end
