(* ===== verification/Host_Cpu.thy ===== *)
theory Host_Cpu
  imports Host_Metric
begin

text \<open>
  \<^verbatim>\<open>web/backend/src/telemetry/system/cpu.ts\<close>: the counters of \<^verbatim>\<open>/proc/stat\<close> and the utilization between two
  samples.  Counters are integers, since their differences are taken; percentages are exact.
\<close>

section \<open>Counters\<close>

record cpu_times =
  ctUser :: int
  ctNice :: int
  ctSystem :: int
  ctIdle :: int
  ctIowait :: int
  ctIrq :: int
  ctSoftirq :: int
  ctSteal :: int
  ctGuest :: int
  ctGuestNice :: int

record cpu_core =
  coIndex :: nat
  coTimes :: cpu_times

record stat_sample =
  ssTotal :: cpu_times
  ssCores :: "cpu_core list"

definition sumTicks :: "cpu_times \<Rightarrow> int" where
  "sumTicks t = ctUser t + ctNice t + ctSystem t + ctIdle t + ctIowait t + ctIrq t + ctSoftirq t + ctSteal t"

definition idleTicks :: "cpu_times \<Rightarrow> int" where
  "idleTicks t = ctIdle t + ctIowait t"

definition busyTicks :: "cpu_times \<Rightarrow> int" where
  "busyTicks t = sumTicks t - idleTicks t"

definition zeroTimes :: cpu_times where
  "zeroTimes =
     \<lparr>ctUser = 0, ctNice = 0, ctSystem = 0, ctIdle = 0, ctIowait = 0, ctIrq = 0, ctSoftirq = 0,
      ctSteal = 0, ctGuest = 0, ctGuestNice = 0\<rparr>"

text \<open>The field at a position of \<open>CPU_FIELD_ORDER\<close>.\<close>

definition set_tick :: "nat \<Rightarrow> int \<Rightarrow> cpu_times \<Rightarrow> cpu_times" where
  "set_tick i n t =
     (if i = 0 then t \<lparr>ctUser := n\<rparr> else if i = 1 then t \<lparr>ctNice := n\<rparr>
      else if i = 2 then t \<lparr>ctSystem := n\<rparr> else if i = 3 then t \<lparr>ctIdle := n\<rparr>
      else if i = 4 then t \<lparr>ctIowait := n\<rparr> else if i = 5 then t \<lparr>ctIrq := n\<rparr>
      else if i = 6 then t \<lparr>ctSoftirq := n\<rparr> else if i = 7 then t \<lparr>ctSteal := n\<rparr>
      else if i = 8 then t \<lparr>ctGuest := n\<rparr> else t \<lparr>ctGuestNice := n\<rparr>)"

fun cpu_fields :: "nat \<Rightarrow> string list \<Rightarrow> cpu_times \<Rightarrow> cpu_times option" where
  "cpu_fields i [] t = Some t"
| "cpu_fields i (raw # rest) t =
     (if 10 \<le> i then Some t
      else
        (case safe_nat raw of
           None \<Rightarrow> None
         | Some n \<Rightarrow> cpu_fields (Suc i) rest (set_tick i (int n) t)))"

definition parseCpuLine :: "string list \<Rightarrow> cpu_times option" where
  "parseCpuLine fs = (if length fs < 4 then None else cpu_fields 0 fs zeroTimes)"

text \<open>\<open>split(/\s+/).filter(Boolean)\<close>.\<close>

definition blank_words :: "string \<Rightarrow> string list" where
  "blank_words s = filter (\<lambda>w. w \<noteq> []) (split_on js_space s)"

text \<open>\<open>/^cpu(\d+)\s+(.*)$/\<close>; the dot matches no carriage return.\<close>

definition core_match :: "string \<Rightarrow> (string \<times> string) option" where
  "core_match line =
     (if prefix ''cpu'' line then
        (let r = drop 3 line; ds = takeWhile is_digit r; r' = dropWhile is_digit r;
             rest = dropWhile js_space r' in
         if ds = [] \<or> takeWhile js_space r' = [] \<or> CHR 0x0D \<in> set rest then None
         else Some (ds, rest))
      else None)"

text \<open>The loop over the lines, with \<open>total\<close> and \<open>cores\<close>; \<open>None\<close> is a \<open>return null\<close>.\<close>

fun stat_lines :: "string list \<Rightarrow> cpu_times option \<Rightarrow> cpu_core list \<Rightarrow>
    (cpu_times option \<times> cpu_core list) option" where
  "stat_lines [] tot cores = Some (tot, cores)"
| "stat_lines (line # rest) tot cores =
     (if prefix ''cpu '' line then
        (case parseCpuLine (tl (blank_words line)) of
           None \<Rightarrow> None
         | Some t \<Rightarrow> stat_lines rest (Some t) cores)
      else
        (case core_match line of
           None \<Rightarrow> stat_lines rest tot cores
         | Some (ds, values) \<Rightarrow>
             (case safe_nat ds of
                None \<Rightarrow> None
              | Some index \<Rightarrow>
                  (case parseCpuLine (blank_words values) of
                     None \<Rightarrow> None
                   | Some t \<Rightarrow> stat_lines rest tot (cores @ [\<lparr>coIndex = index, coTimes = t\<rparr>])))))"

definition parseHostStat :: "string \<Rightarrow> stat_sample option" where
  "parseHostStat text =
     (case stat_lines (split_on (\<lambda>c. c = CHR 0x0A) text) None [] of
        Some (Some tot, cores) \<Rightarrow> Some \<lparr>ssTotal = tot, ssCores = sort_key coIndex cores\<rparr>
      | _ \<Rightarrow> None)"

section \<open>The other counters of the file\<close>

record stat_extras =
  seProcessesCreated :: "int option"
  seProcsRunning :: "int option"
  seProcsBlocked :: "int option"
  seBtime :: "rat option"
  seContextSwitches :: "int option"

text \<open>\<open>Number.isSafeInteger(Number(raw))\<close>; \<open>undefined\<close> gives \<open>NaN\<close>.\<close>

definition safe_number :: "string option \<Rightarrow> int option" where
  "safe_number raw =
     (case Option.bind raw js_number of
        None \<Rightarrow> None
      | Some n \<Rightarrow> if is_integral n \<and> \<bar>\<lfloor>n\<rfloor>\<bar> \<le> int MAX_SAFE_INTEGER then Some \<lfloor>n\<rfloor> else None)"

definition keep_new :: "'a option \<Rightarrow> 'a option \<Rightarrow> 'a option" where
  "keep_new new old = (case new of None \<Rightarrow> old | Some v \<Rightarrow> Some v)"

definition extras_line :: "string \<Rightarrow> stat_extras \<Rightarrow> stat_extras" where
  "extras_line line out =
     (case blank_words line of
        [] \<Rightarrow> out
      | key # rest \<Rightarrow>
          (let raw = (case rest of [] \<Rightarrow> None | w # _ \<Rightarrow> Some w) in
           if key = ''processes''
           then out \<lparr>seProcessesCreated := keep_new (safe_number raw) (seProcessesCreated out)\<rparr>
           else if key = ''ctxt''
           then out \<lparr>seContextSwitches := keep_new (safe_number raw) (seContextSwitches out)\<rparr>
           else if key = ''procs_running''
           then out \<lparr>seProcsRunning := keep_new (safe_number raw) (seProcsRunning out)\<rparr>
           else if key = ''procs_blocked''
           then out \<lparr>seProcsBlocked := keep_new (safe_number raw) (seProcsBlocked out)\<rparr>
           else if key = ''btime''
           then out \<lparr>seBtime := keep_new
                  (case Option.bind raw js_number of
                     Some n \<Rightarrow> if n > 0 then Some n else None | None \<Rightarrow> None) (seBtime out)\<rparr>
           else out))"

definition parseProcStatExtras :: "string \<Rightarrow> stat_extras" where
  "parseProcStatExtras text =
     fold extras_line (split_on (\<lambda>c. c = CHR 0x0A) text)
       \<lparr>seProcessesCreated = None, seProcsRunning = None, seProcsBlocked = None, seBtime = None,
        seContextSwitches = None\<rparr>"

definition readProcStat ::
    "kfiles \<Rightarrow> kernel_paths \<Rightarrow> host_reason + stat_sample \<times> stat_extras \<times> string" where
  "readProcStat files paths =
     (let path = procPath paths [''stat''] in
      case readTextFile files path of
        Inl f \<Rightarrow> Inl (Unreadable f)
      | Inr text \<Rightarrow>
          (case parseHostStat text of
             None \<Rightarrow> Inl Cpu_malformed
           | Some sample \<Rightarrow> Inr (sample, parseProcStatExtras text, path)))"

section \<open>Utilization between two samples\<close>

record cpu_previous =
  cpTimes :: cpu_times
  cpCores :: "cpu_core list"
  cpAtMs :: rat
  cpBootId :: "string option"

record cpu_utilization =
  cuBusy :: "rat host_metric"
  cuIdle :: "rat host_metric"
  cuIowait :: "rat host_metric"
  cuUser :: "rat host_metric"
  cuNice :: "rat host_metric"
  cuSystem :: "rat host_metric"
  cuIrq :: "rat host_metric"
  cuSteal :: "rat host_metric"
  cuBusyPlusIowait :: "rat host_metric"
  cuInterval :: "rat host_metric"

record core_utilization =
  ruIndex :: nat
  ruBusy :: "rat host_metric"
  ruIdle :: "rat host_metric"
  ruIowait :: "rat host_metric"

record cpu_snapshot =
  csUtilization :: cpu_utilization
  csPerCore :: "core_utilization list"
  csCurrentTimes :: "cpu_times host_metric"
  csPreviousTimes :: "cpu_times host_metric"
  csCoreCount :: "nat host_metric"

definition percent :: "int \<Rightarrow> int \<Rightarrow> string \<Rightarrow> string \<Rightarrow> rat host_metric" where
  "percent numerator denominator src ts =
     (if denominator \<le> 0 then h_unavailable ''%'' src ts Cpu_frozen
      else h_derived (of_int numerator / of_int denominator * 100) ''%'' src ts)"

text \<open>Every percentage the same missing value: a rollback, or no delta at all.\<close>

definition utilizationUnavailable :: "string \<Rightarrow> string \<Rightarrow> host_reason \<Rightarrow> cpu_utilization" where
  "utilizationUnavailable src ts r =
     (let bad = h_unavailable ''%'' src ts r in
      \<lparr>cuBusy = bad, cuIdle = bad, cuIowait = bad, cuUser = bad, cuNice = bad, cuSystem = bad,
       cuIrq = bad, cuSteal = bad, cuBusyPlusIowait = bad, cuInterval = h_unavailable ''ms'' src ts r\<rparr>)"

definition utilizationFor ::
    "cpu_times \<Rightarrow> cpu_times \<Rightarrow> string \<Rightarrow> string \<Rightarrow> string \<Rightarrow> cpu_utilization" where
  "utilizationFor current previous label src ts =
     (let dUser = ctUser current - ctUser previous; dNice = ctNice current - ctNice previous;
          dSystem = ctSystem current - ctSystem previous; dIdle = ctIdle current - ctIdle previous;
          dIowait = ctIowait current - ctIowait previous; dIrq = ctIrq current - ctIrq previous;
          dSoftirq = ctSoftirq current - ctSoftirq previous; dSteal = ctSteal current - ctSteal previous;
          deltas = [dUser, dNice, dSystem, dIdle, dIowait, dIrq, dSoftirq, dSteal] in
      if \<exists>d \<in> set deltas. d < 0 then utilizationUnavailable src ts Cpu_rollback
      else
        (let dTotal = sum_list deltas; dBusy = dTotal - dIdle - dIowait;
             where = src @ '' '' @ label @ '', delta of two samples'';
             pc = (\<lambda>n. percent n dTotal where ts) in
         \<lparr>cuBusy = pc dBusy, cuIdle = pc dIdle, cuIowait = pc dIowait, cuUser = pc dUser,
          cuNice = pc dNice, cuSystem = pc dSystem, cuIrq = pc (dIrq + dSoftirq), cuSteal = pc dSteal,
          cuBusyPlusIowait = pc (dBusy + dIowait),
          cuInterval = h_unavailable ''ms'' src ts Cpu_interval_elsewhere\<rparr>))"

definition perCoreUnavailable :: "nat \<Rightarrow> string \<Rightarrow> string \<Rightarrow> host_reason \<Rightarrow> core_utilization" where
  "perCoreUnavailable index src ts r =
     (let bad = h_unavailable ''%'' src ts r in
      \<lparr>ruIndex = index, ruBusy = bad, ruIdle = bad, ruIowait = bad\<rparr>)"

definition core_source :: "string \<Rightarrow> nat \<Rightarrow> string" where
  "core_source src index = src @ '' cpu'' @ nat_text index"

definition core_utilization_for ::
    "cpu_core list \<Rightarrow> string \<Rightarrow> string \<Rightarrow> cpu_core \<Rightarrow> core_utilization" where
  "core_utilization_for prior src ts core =
     (let where = core_source src (coIndex core) in
      case find (\<lambda>c. coIndex c = coIndex core) prior of
        None \<Rightarrow> perCoreUnavailable (coIndex core) where ts Cpu_topology
      | Some before \<Rightarrow>
          (let dTotal = sumTicks (coTimes core) - sumTicks (coTimes before);
               dIdle = ctIdle (coTimes core) - ctIdle (coTimes before);
               dIowait = ctIowait (coTimes core) - ctIowait (coTimes before);
               where2 = where @ '', delta of two samples'' in
           if dTotal < 0 \<or> dIdle < 0 \<or> dIowait < 0
           then perCoreUnavailable (coIndex core) where ts Cpu_rollback
           else \<lparr>ruIndex = coIndex core, ruBusy = percent (dTotal - dIdle - dIowait) dTotal where2 ts,
                 ruIdle = percent dIdle dTotal where2 ts, ruIowait = percent dIowait dTotal where2 ts\<rparr>))"

definition buildCpuSnapshot ::
    "kfiles \<Rightarrow> kernel_paths \<Rightarrow> cpu_previous option \<Rightarrow> string option \<Rightarrow> rat \<Rightarrow> string \<Rightarrow>
     cpu_snapshot \<times> cpu_previous \<times> stat_extras option" where
  "buildCpuSnapshot files paths previous bootId nowMs ts =
     (case readProcStat files paths of
        Inl reason \<Rightarrow>
          (let where = procPath paths [''stat''] in
           (\<lparr>csUtilization = utilizationUnavailable where ts reason, csPerCore = [],
             csCurrentTimes = h_unavailable ''USER_HZ'' where ts reason,
             csPreviousTimes = h_unavailable ''USER_HZ'' where ts reason,
             csCoreCount = h_unavailable ''1'' where ts reason\<rparr>,
            (case previous of
               Some p \<Rightarrow> p
             | None \<Rightarrow> \<lparr>cpTimes = zeroTimes, cpCores = [], cpAtMs = nowMs, cpBootId = bootId\<rparr>),
            None))
      | Inr (sample, extras, src) \<Rightarrow>
          (let current = h_observed (ssTotal sample) ''USER_HZ'' src ts;
               count = h_observed (length (ssCores sample)) ''1'' (src @ '' cpuN lines'') ts;
               upcoming = \<lparr>cpTimes = ssTotal sample, cpCores = ssCores sample, cpAtMs = nowMs,
                       cpBootId = bootId\<rparr> in
           case previous of
             None \<Rightarrow>
               (\<lparr>csUtilization = utilizationUnavailable src ts Cpu_first_sample,
                 csPerCore = map (\<lambda>c. perCoreUnavailable (coIndex c) (core_source src (coIndex c)) ts
                                   Cpu_first_sample) (ssCores sample),
                 csCurrentTimes = current,
                 csPreviousTimes = h_unavailable ''USER_HZ'' src ts Cpu_first_sample,
                 csCoreCount = count\<rparr>, upcoming, Some extras)
           | Some p \<Rightarrow>
               (let prior = h_observed (cpTimes p) ''USER_HZ'' src ts;
                    refused = (\<lambda>r. (\<lparr>csUtilization = utilizationUnavailable src ts r, csPerCore = [],
                      csCurrentTimes = current, csPreviousTimes = prior, csCoreCount = count\<rparr>,
                      upcoming, Some extras)) in
                if bootId \<noteq> None \<and> cpBootId p \<noteq> None \<and> bootId \<noteq> cpBootId p then refused Cpu_boot_change
                else if nowMs - cpAtMs p \<le> 0 then refused Cpu_zero_interval
                else
                  (\<lparr>csUtilization = (utilizationFor (ssTotal sample) (cpTimes p) ''aggregate'' src ts)
                      \<lparr>cuInterval := h_observed (nowMs - cpAtMs p) ''ms'' ''gateway monotonic clock'' ts\<rparr>,
                    csPerCore =
                      (if map coIndex (cpCores p) = map coIndex (ssCores sample)
                       then map (core_utilization_for (cpCores p) src ts) (ssCores sample)
                       else map (\<lambda>c. perCoreUnavailable (coIndex c) (core_source src (coIndex c)) ts
                                      Cpu_topology) (ssCores sample)),
                    csCurrentTimes = current, csPreviousTimes = prior, csCoreCount = count\<rparr>,
                   upcoming, Some extras))))"

section \<open>What a percentage means\<close>

definition percentages :: "cpu_utilization \<Rightarrow> rat host_metric list" where
  "percentages u =
     [cuBusy u, cuIdle u, cuIowait u, cuUser u, cuNice u, cuSystem u, cuIrq u, cuSteal u, cuBusyPlusIowait u]"

text \<open>No counter of total time is smaller than before.\<close>

definition no_rollback :: "cpu_times \<Rightarrow> cpu_times \<Rightarrow> bool" where
  "no_rollback p c \<longleftrightarrow> ctUser p \<le> ctUser c \<and> ctNice p \<le> ctNice c \<and> ctSystem p \<le> ctSystem c \<and>
     ctIdle p \<le> ctIdle c \<and> ctIowait p \<le> ctIowait c \<and> ctIrq p \<le> ctIrq c \<and>
     ctSoftirq p \<le> ctSoftirq c \<and> ctSteal p \<le> ctSteal c"

definition share :: "int \<Rightarrow> int \<Rightarrow> rat" where
  "share n d = of_int n / of_int d * 100"

lemma percent_value: "hmValue (percent n d src ts) = (if d \<le> 0 then None else Some (share n d))"
  by (simp add: percent_def share_def)

lemma share_add: "share x d + share y d = share (x + y) d"
  by (simp add: share_def add_divide_distrib distrib_right)

lemma share_self: "0 < d \<Longrightarrow> share d d = 100"
  by (simp add: share_def)

lemma share_bounds:
  assumes "0 < d" and "0 \<le> n" and "n \<le> d"
  shows "0 \<le> share n d \<and> share n d \<le> 100"
proof -
  have "(of_int n / of_int d :: rat) \<le> 1" "0 \<le> (of_int n / of_int d :: rat)"
    using assms by (simp_all add: divide_le_eq)
  then have "of_int n / of_int d * 100 \<le> (1 * 100 :: rat)" "0 * 100 \<le> (of_int n / of_int d * 100 :: rat)"
    by (intro mult_right_mono; simp)+
  then show ?thesis by (simp add: share_def)
qed

lemma utilization_unavailable_values [simp]:
  "m \<in> set (percentages (utilizationUnavailable src ts r)) \<Longrightarrow> hmValue m = None"
  "hmValue (cuBusy (utilizationUnavailable src ts r)) = None"
  by (auto simp: percentages_def utilizationUnavailable_def Let_def)

lemma utilizationFor_cases:
  "utilizationFor c p label src ts =
     (if no_rollback p c then
        (let d = sumTicks c - sumTicks p; where = src @ '' '' @ label @ '', delta of two samples'' in
         \<lparr>cuBusy = percent (busyTicks c - busyTicks p) d where ts,
          cuIdle = percent (ctIdle c - ctIdle p) d where ts,
          cuIowait = percent (ctIowait c - ctIowait p) d where ts,
          cuUser = percent (ctUser c - ctUser p) d where ts,
          cuNice = percent (ctNice c - ctNice p) d where ts,
          cuSystem = percent (ctSystem c - ctSystem p) d where ts,
          cuIrq = percent (ctIrq c - ctIrq p + (ctSoftirq c - ctSoftirq p)) d where ts,
          cuSteal = percent (ctSteal c - ctSteal p) d where ts,
          cuBusyPlusIowait = percent (busyTicks c - busyTicks p + (ctIowait c - ctIowait p)) d where ts,
          cuInterval = h_unavailable ''ms'' src ts Cpu_interval_elsewhere\<rparr>)
      else utilizationUnavailable src ts Cpu_rollback)"
proof -
  have dt: "ctUser c - ctUser p + (ctNice c - ctNice p + (ctSystem c - ctSystem p + (ctIdle c - ctIdle p +
      (ctIowait c - ctIowait p + (ctIrq c - ctIrq p + (ctSoftirq c - ctSoftirq p + (ctSteal c - ctSteal p)))))))
      = sumTicks c - sumTicks p"
    by (simp add: sumTicks_def)
  have db: "sumTicks c - sumTicks p - (ctIdle c - ctIdle p) - (ctIowait c - ctIowait p) = busyTicks c - busyTicks p"
    by (simp add: busyTicks_def idleTicks_def)
  show ?thesis
    unfolding utilizationFor_def Let_def list.simps sum_list.Cons sum_list.Nil add_0_right dt db
    by (simp add: no_rollback_def not_less)
qed

definition shares :: "cpu_times \<Rightarrow> cpu_times \<Rightarrow> int list" where
  "shares p c =
     [busyTicks c - busyTicks p, ctIdle c - ctIdle p, ctIowait c - ctIowait p, ctUser c - ctUser p,
      ctNice c - ctNice p, ctSystem c - ctSystem p, ctIrq c - ctIrq p + (ctSoftirq c - ctSoftirq p),
      ctSteal c - ctSteal p, busyTicks c - busyTicks p + (ctIowait c - ctIowait p)]"

lemma shares_bounded: "no_rollback p c \<Longrightarrow> n \<in> set (shares p c) \<Longrightarrow> 0 \<le> n \<and> n \<le> sumTicks c - sumTicks p"
  unfolding shares_def no_rollback_def sumTicks_def busyTicks_def idleTicks_def list.set
  by (elim insertE conjE emptyE; linarith)

lemma percentages_shares:
  assumes "no_rollback p c"
  shows "percentages (utilizationFor c p label src ts) =
    map (\<lambda>n. percent n (sumTicks c - sumTicks p) (src @ '' '' @ label @ '', delta of two samples'') ts) (shares p c)"
  using assms by (simp add: percentages_def utilizationFor_cases Let_def shares_def)

lemma utilization_busy:
  "hmValue (cuBusy (utilizationFor c p label src ts)) =
     (if no_rollback p c \<and> sumTicks p < sumTicks c
      then Some (share (busyTicks c - busyTicks p) (sumTicks c - sumTicks p)) else None)"
  by (simp add: utilizationFor_cases Let_def percent_value)

lemma utilization_bounded:
  assumes "hmValue (cuBusy (utilizationFor c p label src ts)) = Some b"
  shows "\<forall>m \<in> set (percentages (utilizationFor c p label src ts)). \<exists>v. hmValue m = Some v \<and> 0 \<le> v \<and> v \<le> 100"
proof -
  have nr: "no_rollback p c" and pos: "0 < sumTicks c - sumTicks p"
    using assms by (simp_all add: utilization_busy split: if_splits)
  then show ?thesis
    using shares_bounded [OF nr] share_bounds [OF pos] by (auto simp: percentages_shares percent_value)
qed

lemma utilization_partition:
  assumes "hmValue (cuBusy (utilizationFor c p label src ts)) = Some b"
  shows "\<exists>idle iowait user nice system irq steal.
    map hmValue (percentages (utilizationFor c p label src ts)) =
      map Some [b, idle, iowait, user, nice, system, irq, steal, b + iowait] \<and>
    user + nice + system + irq + steal = b \<and> b + iowait + idle = 100"
proof -
  let ?d = "sumTicks c - sumTicks p"
  have nr: "no_rollback p c" and pos: "0 < ?d" and b: "b = share (busyTicks c - busyTicks p) ?d"
    using assms by (simp_all add: utilization_busy split: if_splits)
  have "ctUser c - ctUser p + (ctNice c - ctNice p) + (ctSystem c - ctSystem p) +
        (ctIrq c - ctIrq p + (ctSoftirq c - ctSoftirq p)) + (ctSteal c - ctSteal p) = busyTicks c - busyTicks p"
    and "busyTicks c - busyTicks p + (ctIowait c - ctIowait p) + (ctIdle c - ctIdle p) = ?d"
    by (simp_all add: busyTicks_def idleTicks_def sumTicks_def)
  then have "share (ctUser c - ctUser p) ?d + share (ctNice c - ctNice p) ?d + share (ctSystem c - ctSystem p) ?d +
        share (ctIrq c - ctIrq p + (ctSoftirq c - ctSoftirq p)) ?d + share (ctSteal c - ctSteal p) ?d = b"
    and "b + share (ctIowait c - ctIowait p) ?d + share (ctIdle c - ctIdle p) ?d = 100"
    using share_self [OF pos] by (simp_all only: b share_add)
  moreover have "map hmValue (percentages (utilizationFor c p label src ts)) =
      map Some [b, share (ctIdle c - ctIdle p) ?d, share (ctIowait c - ctIowait p) ?d,
        share (ctUser c - ctUser p) ?d, share (ctNice c - ctNice p) ?d, share (ctSystem c - ctSystem p) ?d,
        share (ctIrq c - ctIrq p + (ctSoftirq c - ctSoftirq p)) ?d, share (ctSteal c - ctSteal p) ?d,
        b + share (ctIowait c - ctIowait p) ?d]"
    unfolding b share_add percentages_shares [OF nr] shares_def list.map percent_value
    using pos by (simp only: not_le [symmetric] if_False)
  ultimately show ?thesis by blast
qed

lemma build_utilization:
  "(\<exists>src r. csUtilization (fst (buildCpuSnapshot files paths previous bootId nowMs ts)) = utilizationUnavailable src ts r) \<or>
   (\<exists>c p src iv. csUtilization (fst (buildCpuSnapshot files paths previous bootId nowMs ts)) =
      (utilizationFor c p ''aggregate'' src ts) \<lparr>cuInterval := iv\<rparr>)"
proof (cases "readProcStat files paths")
  case (Inl r)
  then show ?thesis by (auto simp: buildCpuSnapshot_def Let_def)
next
  case (Inr x)
  obtain sample extras src where x: "x = (sample, extras, src)" by (cases x)
  show ?thesis
  proof (cases previous)
    case None
    with Inr x show ?thesis by (auto simp: buildCpuSnapshot_def Let_def)
  next
    case (Some p)
    let ?u = "csUtilization (fst (buildCpuSnapshot files paths previous bootId nowMs ts))"
    have "?u = utilizationUnavailable src ts Cpu_boot_change \<or> ?u = utilizationUnavailable src ts Cpu_zero_interval \<or>
        ?u = (utilizationFor (ssTotal sample) (cpTimes p) ''aggregate'' src ts)
          \<lparr>cuInterval := h_observed (nowMs - cpAtMs p) ''ms'' ''gateway monotonic clock'' ts\<rparr>"
      unfolding buildCpuSnapshot_def Inr x Some Let_def by simp
    then show ?thesis by blast
  qed
qed

lemma percentages_interval:
  "percentages (u \<lparr>cuInterval := iv\<rparr>) = percentages u" "cuBusy (u \<lparr>cuInterval := iv\<rparr>) = cuBusy u"
  unfolding percentages_def by simp_all

section \<open>Properties\<close>

text \<open>C24: The machine-wide utilization is published exactly when two samples can be compared: the file
  was read and parsed, there is a previous sample, the boot is not known to be another one, time
  has passed, none of the eight counters of total time fell and together they advanced. It is
  then the busy share of the ticks between the two samples.\<close>
theorem cpu_busy_exact:
  "hmValue (cuBusy (csUtilization (fst (buildCpuSnapshot files paths previous bootId nowMs ts)))) =
     (case (readProcStat files paths, previous) of
        (Inr (sample, extras, src), Some p) \<Rightarrow>
          if (bootId = None \<or> cpBootId p = None \<or> bootId = cpBootId p) \<and> cpAtMs p < nowMs \<and>
             no_rollback (cpTimes p) (ssTotal sample) \<and> sumTicks (cpTimes p) < sumTicks (ssTotal sample)
          then Some (of_int (busyTicks (ssTotal sample) - busyTicks (cpTimes p)) /
                     of_int (sumTicks (ssTotal sample) - sumTicks (cpTimes p)) * 100)
          else None
      | _ \<Rightarrow> None)"
  by (auto simp: buildCpuSnapshot_def Let_def utilization_busy share_def not_le
      split: sum.split option.split)

text \<open>Published percentages are shares of one whole. Whenever a snapshot states the utilization,
  it states every percentage, each lies between 0 and 100, the five busy parts add up to the
  busy share, and with the I/O wait and the idle share to 100.\<close>
theorem cpu_percentages_sound:
  assumes "u = csUtilization (fst (buildCpuSnapshot files paths previous bootId nowMs ts))"
    and "hmValue (cuBusy u) = Some b"
  shows "(\<forall>m \<in> set (percentages u). \<exists>v. hmValue m = Some v \<and> 0 \<le> v \<and> v \<le> 100) \<and>
    (\<exists>idle iowait user nice system irq steal.
       map hmValue (percentages u) = map Some [b, idle, iowait, user, nice, system, irq, steal, b + iowait] \<and>
       user + nice + system + irq + steal = b \<and> b + iowait + idle = 100)"
proof -
  obtain c p src iv where "u = (utilizationFor c p ''aggregate'' src ts) \<lparr>cuInterval := iv\<rparr>"
    using assms build_utilization [of files paths previous bootId nowMs ts] by auto
  then have same: "percentages u = percentages (utilizationFor c p ''aggregate'' src ts)"
      "cuBusy u = cuBusy (utilizationFor c p ''aggregate'' src ts)"
    by (simp_all only: percentages_interval)
  note busy = assms(2) [unfolded same(2)]
  show ?thesis unfolding same(1)
    by (rule conjI [OF utilization_bounded [OF busy] utilization_partition [OF busy]])
qed

text \<open>Two samples of a machine with one core, a second apart.\<close>

definition stat_file :: "string \<Rightarrow> kfiles" where
  "stat_file text path = (if path = ''/proc/stat'' then Inr text else Inl ENOENT)"

definition stat_before :: string where
  "stat_before = ''cpu 50 0 0 50'' @ [CHR 0x0A] @ ''cpu0 50 0 0 50''"

definition stat_after :: string where
  "stat_after = ''cpu 60 0 0 60'' @ [CHR 0x0A] @ ''cpu0 45 0 0 60''"

definition cpu_run :: "kfiles list \<Rightarrow> cpu_snapshot list" where
  "cpu_run fs = map fst (rev (fst (fold (\<lambda>files (out, prev, now).
     (let (s, p, e) = buildCpuSnapshot files DEFAULT_KERNEL_PATHS prev (Some ''b'') now ''t'' in
      ((s, p) # out, Some p, now + 1000))) fs ([], None, 0))))"

lemmas stat_eval = readProcStat_def parseHostStat_def stat_file_def readTextFile_def procPath_def
  DEFAULT_KERNEL_PATHS_def parseCpuLine_def blank_words_def core_match_def safe_nat_def all_digits_def
  js_space_def is_digit_def decimal_value_def digit_value_def MAX_SAFE_INTEGER_def zeroTimes_def
  set_tick_def stat_before_def stat_after_def

lemma stat_samples:
  "readProcStat (stat_file stat_before) DEFAULT_KERNEL_PATHS =
     Inr (\<lparr>ssTotal = zeroTimes \<lparr>ctUser := 50, ctIdle := 50\<rparr>,
           ssCores = [\<lparr>coIndex = 0, coTimes = zeroTimes \<lparr>ctUser := 50, ctIdle := 50\<rparr>\<rparr>]\<rparr>,
          parseProcStatExtras stat_before, ''/proc/stat'')"
  "readProcStat (stat_file stat_after) DEFAULT_KERNEL_PATHS =
     Inr (\<lparr>ssTotal = zeroTimes \<lparr>ctUser := 60, ctIdle := 60\<rparr>,
           ssCores = [\<lparr>coIndex = 0, coTimes = zeroTimes \<lparr>ctUser := 45, ctIdle := 60\<rparr>\<rparr>]\<rparr>,
          parseProcStatExtras stat_after, ''/proc/stat'')"
  "readProcStat (\<lambda>p. Inl EACCES) DEFAULT_KERNEL_PATHS =
     Inl (Unreadable \<lparr>rfKind = Permission, rfPath = ''/proc/stat'', rfCode = EACCES\<rparr>)"
  by (simp_all add: stat_eval Let_def)

text \<open>Two ways to a percentage that no pair of samples supports. When the first read of the file
  fails, the next one is compared with counters of zero that no one read: the share since boot is
  reported as the share of one second. And a core is checked only for a fall of its total, idle
  and wait counters: when its user counter fell, it is reported as busy for minus one hundred
  percent and idle for two hundred.\<close>
theorem cpu_delta_gaps:
  "(\<exists>s1 s2. cpu_run [\<lambda>p. Inl EACCES, stat_file stat_after] = [s1, s2] \<and>
      hmValue (csCurrentTimes s1) = None \<and>
      hmValue (csPreviousTimes s2) = Some zeroTimes \<and> hmProvenance (csPreviousTimes s2) = Observed \<and>
      hmValue (cuBusy (csUtilization s2)) = Some 50) \<and>
   (\<exists>s1 s2. cpu_run [stat_file stat_before, stat_file stat_after] = [s1, s2] \<and>
      map (\<lambda>r. (hmValue (ruBusy r), hmValue (ruIdle r))) (csPerCore s2) = [(Some (- 100), Some 200)])"
  by (simp add: cpu_run_def buildCpuSnapshot_def stat_samples Let_def utilizationFor_cases
      no_rollback_def sumTicks_def busyTicks_def idleTicks_def zeroTimes_def percent_value share_def
      core_utilization_for_def)

theorem cpu_percentages_sound_witness:
  "\<exists>s1 s2. cpu_run [stat_file stat_before, stat_file stat_after] = [s1, s2] \<and>
     hmValue (cuIdle (csUtilization s2)) = Some 50"
proof -
  let ?p = "\<lparr>cpTimes = zeroTimes \<lparr>ctUser := 50, ctIdle := 50\<rparr>,
      cpCores = [\<lparr>coIndex = 0, coTimes = zeroTimes \<lparr>ctUser := 50, ctIdle := 50\<rparr>\<rparr>],
      cpAtMs = 0, cpBootId = Some ''b''\<rparr>"
  let ?s = "fst (buildCpuSnapshot (stat_file stat_after) DEFAULT_KERNEL_PATHS (Some ?p) (Some ''b'') 1000 ''t'')"
  have "hmValue (cuBusy (csUtilization ?s)) = Some 50"
    by (simp add: cpu_busy_exact stat_samples no_rollback_def sumTicks_def busyTicks_def idleTicks_def zeroTimes_def)
  from conjunct2 [OF cpu_percentages_sound [OF refl this]]
  obtain i w x where "hmValue (cuIdle (csUtilization ?s)) = Some i" "50 + w + i = (100 :: rat)"
      "hmValue (cuIowait (csUtilization ?s)) = Some w"
    unfolding percentages_def list.map list.inject by blast
  moreover have "hmValue (cuIowait (csUtilization ?s)) = Some 0"
    by (simp add: buildCpuSnapshot_def stat_samples Let_def utilizationFor_cases
      no_rollback_def sumTicks_def busyTicks_def idleTicks_def zeroTimes_def percent_value share_def)
  ultimately have "hmValue (cuIdle (csUtilization ?s)) = Some 50" by simp
  moreover have "cpu_run [stat_file stat_before, stat_file stat_after] =
      [fst (buildCpuSnapshot (stat_file stat_before) DEFAULT_KERNEL_PATHS None (Some ''b'') 0 ''t''), ?s]"
    by (simp add: cpu_run_def buildCpuSnapshot_def stat_samples Let_def)
  ultimately show ?thesis by blast
qed

end
