(* ===== verification/Host_Lines.thy ===== *)
theory Host_Lines
  imports Host_Cpu
begin

text \<open>
  What the collectors of \<^verbatim>\<open>web/backend/src/telemetry/system/\<close> share: they read a kernel file line by
  line, the lines of the kernel are printed from records of numbers, and a quotient is a number of
  JavaScript, which a division by zero gives too.
\<close>

section \<open>Numbers and words of JavaScript\<close>

datatype js_num = Num rat | NaN | Infinity | Neg_infinity

text \<open>\<open>n / d\<close>; a zero \<open>d\<close> is positive here, since it comes from a count.\<close>

definition js_div :: "rat \<Rightarrow> rat \<Rightarrow> js_num" where
  "js_div n d =
     (if d \<noteq> 0 then Num (n / d)
      else if n = 0 then NaN else if 0 < n then Infinity else Neg_infinity)"

text \<open>Multiplication by a positive number.\<close>

fun js_scale :: "rat \<Rightarrow> js_num \<Rightarrow> js_num" where
  "js_scale k (Num x) = Num (x * k)"
| "js_scale k NaN = NaN"
| "js_scale k Infinity = Infinity"
| "js_scale k Neg_infinity = Neg_infinity"

text \<open>\<open>s.split(/\s+/)\<close>, with the empty words at the ends.\<close>

definition split_ws :: "string \<Rightarrow> string list" where
  "split_ws s =
     (if s = [] then [[]]
      else (if js_space (hd s) then [[]] else []) @ blank_words s @ (if js_space (last s) then [[]] else []))"

text \<open>\<open>text.split("\n")\<close>.\<close>

definition text_lines :: "string \<Rightarrow> string list" where
  "text_lines text = split_on (\<lambda>c. c = CHR 0x0A) text"

text \<open>\<open>line.indexOf(c)\<close> as the text before and after, if \<open>c\<close> occurs.\<close>

definition cut_at :: "char \<Rightarrow> string \<Rightarrow> (string \<times> string) option" where
  "cut_at c s =
     (if c \<in> set s then Some (takeWhile (\<lambda>d. d \<noteq> c) s, tl (dropWhile (\<lambda>d. d \<noteq> c) s)) else None)"

lemma cut_at_found: "c \<notin> set a \<Longrightarrow> cut_at c (a @ c # b) = Some (a, b)"
proof -
  assume "c \<notin> set a"
  then have "\<forall>d \<in> set a. d \<noteq> c" by blast
  then have "takeWhile (\<lambda>d. d \<noteq> c) (a @ c # b) = a" "dropWhile (\<lambda>d. d \<noteq> c) (a @ c # b) = c # b"
    by (simp_all add: takeWhile_append2 dropWhile_append2)
  then show ?thesis by (simp add: cut_at_def)
qed

lemma cut_at_Nil [simp]: "cut_at c [] = None"
  by (simp add: cut_at_def)

section \<open>Trimming and splitting printed text\<close>

lemma digit_not_space: "is_digit c \<Longrightarrow> \<not> js_space c"
  by (auto simp: is_digit_def js_space_def)

lemma trim_tight: "w \<noteq> [] \<Longrightarrow> \<not> js_space (hd w) \<Longrightarrow> \<not> js_space (last w) \<Longrightarrow> js_trim w = w"
  by (simp add: js_trim_def trim_start_def trim_end_def dropWhile_eq_self_iff [THEN iffD2] hd_rev)

lemma trim_pad:
  assumes "\<forall>c \<in> set p. js_space c"
  shows "js_trim (p @ w) = js_trim w"
  using assms by (simp add: js_trim_def trim_start_def dropWhile_append2)

lemma trim_no_space: "\<forall>c \<in> set w. \<not> js_space c \<Longrightarrow> js_trim w = w"
proof (cases "w = []")
  case True
  then show ?thesis by (simp add: js_trim_def trim_start_def trim_end_def)
next
  case False
  moreover assume "\<forall>c \<in> set w. \<not> js_space c"
  ultimately show ?thesis by (simp add: trim_tight)
qed

lemma trim_Nil [simp]: "js_trim [] = []"
  by (simp add: js_trim_def trim_start_def trim_end_def)

lemma space_space [simp]: "js_space CHR 0x20"
  by (simp add: js_space_def)

lemma blank_words_pad: "blank_words (replicate n CHR 0x20 @ s) = blank_words s"
  by (induction n) (simp_all add: blank_words_def)

lemma blank_words_word:
  "w \<noteq> [] \<Longrightarrow> \<forall>c \<in> set w. \<not> js_space c \<Longrightarrow> blank_words (w @ CHR 0x20 # s) = w # blank_words s"
  by (simp add: blank_words_def split_on_append_sep)

lemma blank_words_end: "w \<noteq> [] \<Longrightarrow> \<forall>c \<in> set w. \<not> js_space c \<Longrightarrow> blank_words w = [w]"
  by (simp add: blank_words_def split_on_no_sep)

lemma digits_tight: "c \<in> set (nat_text n) \<Longrightarrow> \<not> js_space c"
  by (rule digit_not_space [OF nat_text_digits])

lemma safe_nat_text [simp]: "n \<le> MAX_SAFE_INTEGER \<Longrightarrow> safe_nat (nat_text n) = Some n"
  using nat_text_digits [of _ n] by (auto simp: safe_nat_def all_digits_def)

lemma digit_prefix:
  "\<not> is_digit c \<Longrightarrow> takeWhile is_digit (nat_text n @ c # r) = nat_text n"
  "\<not> is_digit c \<Longrightarrow> dropWhile is_digit (nat_text n @ c # r) = c # r"
  using nat_text_digits [of _ n] by (simp_all add: takeWhile_append2 dropWhile_append2)

section \<open>A file of printed lines\<close>

text \<open>
  A reader consumes a file line by line with a step; every record \<open>e\<close> of the kernel is one printed
  line, which the step reads as the update \<open>upd e\<close>.  Then the file of any records is read as their
  updates, in order.
\<close>

locale printed_lines =
  fixes emit :: "'e \<Rightarrow> string"
    and ok :: "'e \<Rightarrow> bool"
    and line_step :: "string \<Rightarrow> 's \<Rightarrow> 's"
    and upd :: "'e \<Rightarrow> 's \<Rightarrow> 's"
  assumes one_line: "ok e \<Longrightarrow> CHR 0x0A \<notin> set (emit e)"
    and reads: "ok e \<Longrightarrow> line_step (emit e) s = upd e s"
    and blank: "line_step [] s = s"
begin

lemma lines_read:
  "\<forall>e \<in> set es. ok e \<Longrightarrow>
   fold line_step (text_lines (concat (map (\<lambda>e. emit e @ [CHR 0x0A]) es))) s = fold upd es s"
proof (induction es arbitrary: s)
  case Nil
  then show ?case by (simp add: text_lines_def blank)
next
  case (Cons e es)
  then have "\<forall>d \<in> set (emit e). d \<noteq> CHR 0x0A" using one_line [of e] by auto
  then have "text_lines (concat (map (\<lambda>e. emit e @ [CHR 0x0A]) (e # es))) =
      emit e # text_lines (concat (map (\<lambda>e. emit e @ [CHR 0x0A]) es))"
    by (simp add: text_lines_def split_on_append_sep)
  with Cons show ?case by (simp add: reads)
qed

end

end
