(* ===== verification/Host_Memory.thy ===== *)
theory Host_Memory
  imports Host_Lines
begin

text \<open>
  \<^verbatim>\<open>web/backend/src/telemetry/system/memory.ts\<close> and \<^verbatim>\<open>pressure.ts\<close>: the memory of the host, its load
  averages and its pressure stall information.  Byte counts are integers, averages and percentages are
  exact rationals, or a number of JavaScript where the code divides without a guard.
\<close>

section \<open>Memory\<close>

definition MEM_FIELDS :: "string list" where
  "MEM_FIELDS =
     [''MemTotal'', ''MemFree'', ''MemAvailable'', ''Buffers'', ''Cached'', ''SReclaimable'', ''SwapTotal'',
      ''SwapFree'', ''SwapCached'', ''Active'', ''Inactive'', ''Dirty'', ''Writeback'', ''AnonPages'',
      ''Mapped'', ''Shmem'', ''Slab'']"

type_synonym meminfo = "string \<rightharpoonup> nat"

definition mem_line :: "string \<Rightarrow> meminfo \<Rightarrow> meminfo" where
  "mem_line line out =
     (case cut_at CHR '':'' line of
        None \<Rightarrow> out
      | Some (before, after) \<Rightarrow>
          (let key = js_trim before in
           if before = [] \<or> key \<notin> set MEM_FIELDS then out
           else
             (case parseKibibytes (Some after) of
                None \<Rightarrow> out
              | Some kib \<Rightarrow> out(key \<mapsto> kib))))"

definition parseMemInfo :: "string \<Rightarrow> meminfo" where
  "parseMemInfo text = fold mem_line (text_lines text) Map.empty"

definition mem_field :: "meminfo \<Rightarrow> string \<Rightarrow> string \<Rightarrow> string \<Rightarrow> int host_metric" where
  "mem_field values key src ts =
     (case values key of
        None \<Rightarrow> h_unavailable ''bytes'' src ts (Meminfo_absent key)
      | Some kib \<Rightarrow> h_observed (int kib) ''bytes'' src ts)"

record memory_snapshot =
  mmTotal :: "int host_metric"
  mmFree :: "int host_metric"
  mmAvailable :: "int host_metric"
  mmUsed :: "int host_metric"
  mmUsedPercent :: "js_num host_metric"
  mmBuffers :: "int host_metric"
  mmCached :: "int host_metric"
  mmReclaimable :: "int host_metric"
  mmAnonPages :: "int host_metric"
  mmShared :: "int host_metric"
  mmSlab :: "int host_metric"
  mmActive :: "int host_metric"
  mmInactive :: "int host_metric"
  mmDirty :: "int host_metric"
  mmWriteback :: "int host_metric"
  mmSwapTotal :: "int host_metric"
  mmSwapFree :: "int host_metric"
  mmSwapUsed :: "int host_metric"
  mmSwapPercent :: "js_num host_metric"
  mmSwapCached :: "int host_metric"

text \<open>\<open>((total - rest) / total) * 100\<close>, with no guard for a total of zero.\<close>

definition used_percent :: "int \<Rightarrow> int \<Rightarrow> js_num" where
  "used_percent tot rest = js_scale 100 (js_div (of_int (tot - rest)) (of_int tot))"

definition memory_unreadable :: "string \<Rightarrow> string \<Rightarrow> read_failure \<Rightarrow> memory_snapshot" where
  "memory_unreadable path ts f =
     (let bad = h_unavailable ''bytes'' path ts (Unreadable f) in
      \<lparr>mmTotal = bad, mmFree = bad, mmAvailable = bad, mmUsed = bad,
       mmUsedPercent = h_unavailable ''bytes'' path ts (Unreadable f),
       mmBuffers = bad, mmCached = bad, mmReclaimable = bad, mmAnonPages = bad, mmShared = bad,
       mmSlab = bad, mmActive = bad, mmInactive = bad, mmDirty = bad, mmWriteback = bad,
       mmSwapTotal = bad, mmSwapFree = bad, mmSwapUsed = bad,
       mmSwapPercent = h_unavailable ''bytes'' path ts (Unreadable f), mmSwapCached = bad\<rparr>)"

definition memory_available :: "meminfo \<Rightarrow> string \<Rightarrow> string \<Rightarrow> int host_metric" where
  "memory_available values src ts =
     (case values ''MemAvailable'' of
        None \<Rightarrow> h_unavailable ''bytes'' src ts Available_absent
      | Some kib \<Rightarrow> observedEstimate (int kib) ''bytes'' src ts)"

definition memory_used ::
    "int host_metric \<Rightarrow> int host_metric \<Rightarrow> string \<Rightarrow> string \<Rightarrow> int host_metric \<times> js_num host_metric" where
  "memory_used tot available src ts =
     (case (hmValue tot, hmValue available) of
        (Some t, Some a) \<Rightarrow>
          (h_derived (t - a) ''bytes'' src ts, h_derived (used_percent t a) ''%'' src ts)
      | _ \<Rightarrow> (h_unavailable ''bytes'' src ts Used_needs_both, h_unavailable ''%'' src ts Percent_needs_used))"

definition swap_used ::
    "int host_metric \<Rightarrow> int host_metric \<Rightarrow> string \<Rightarrow> string \<Rightarrow> int host_metric \<times> js_num host_metric" where
  "swap_used tot free src ts =
     (case (hmValue tot, hmValue free) of
        (Some t, Some f) \<Rightarrow>
          (h_derived (t - f) ''bytes'' src ts,
           h_derived (if t = 0 then Num 0 else used_percent t f) ''%'' src ts)
      | _ \<Rightarrow> (h_unavailable ''bytes'' src ts Swap_needs_both, h_unavailable ''%'' src ts Swap_needs_both))"

definition meminfo_where :: "kernel_paths \<Rightarrow> string" where
  "meminfo_where paths = procPath paths [''meminfo''] @ '' (proc_meminfo(5))''"

definition buildMemorySnapshot :: "kfiles \<Rightarrow> kernel_paths \<Rightarrow> string \<Rightarrow> memory_snapshot" where
  "buildMemorySnapshot files paths ts =
     (let path = procPath paths [''meminfo''] in
      case readTextFile files path of
        Inl f \<Rightarrow> memory_unreadable path ts f
      | Inr text \<Rightarrow>
          (let values = parseMemInfo text; src = meminfo_where paths;
               fld = (\<lambda>key. mem_field values key src ts);
               tot = fld ''MemTotal''; available = memory_available values src ts;
               used = memory_used tot available src ts;
               swapTotal = fld ''SwapTotal''; swapFree = fld ''SwapFree'';
               swap = swap_used swapTotal swapFree src ts in
           \<lparr>mmTotal = tot, mmFree = fld ''MemFree'', mmAvailable = available, mmUsed = fst used,
            mmUsedPercent = snd used, mmBuffers = fld ''Buffers'', mmCached = fld ''Cached'',
            mmReclaimable = fld ''SReclaimable'', mmAnonPages = fld ''AnonPages'', mmShared = fld ''Shmem'',
            mmSlab = fld ''Slab'', mmActive = fld ''Active'', mmInactive = fld ''Inactive'',
            mmDirty = fld ''Dirty'', mmWriteback = fld ''Writeback'', mmSwapTotal = swapTotal,
            mmSwapFree = swapFree, mmSwapUsed = fst swap, mmSwapPercent = snd swap,
            mmSwapCached = fld ''SwapCached''\<rparr>))"

definition readTotalMemoryBytes :: "kfiles \<Rightarrow> kernel_paths \<Rightarrow> host_reason + nat \<times> string" where
  "readTotalMemoryBytes files paths =
     (let path = procPath paths [''meminfo''] in
      case readTextFile files path of
        Inl f \<Rightarrow> Inl (Unreadable f)
      | Inr text \<Rightarrow>
          (case parseMemInfo text ''MemTotal'' of
             None \<Rightarrow> Inl (Meminfo_absent ''MemTotal'')
           | Some tot \<Rightarrow> Inr (tot, path)))"

section \<open>Load average\<close>

record loadavg =
  laLoad1 :: rat
  laLoad5 :: rat
  laLoad15 :: rat
  laRunnable :: int
  laThreads :: int
  laLastPid :: int

definition parseLoadAvg :: "string \<Rightarrow> loadavg option" where
  "parseLoadAvg text =
     (case split_spaces text of
        p0 # p1 # p2 # p3 # p4 # _ \<Rightarrow>
          (let counts = split_on (\<lambda>c. c = CHR ''/'') p3 in
           case (js_number p0, js_number p1, js_number p2, safe_number (Some (hd counts)),
                 safe_number (if length counts < 2 then None else Some (counts ! 1)), safe_number (Some p4)) of
             (Some load1, Some load5, Some load15, Some runnable, Some threads, Some lastPid) \<Rightarrow>
               Some \<lparr>laLoad1 = load1, laLoad5 = load5, laLoad15 = load15, laRunnable = runnable,
                     laThreads = threads, laLastPid = lastPid\<rparr>
           | _ \<Rightarrow> None)
      | _ \<Rightarrow> None)"

record load_snapshot =
  ldLoad1 :: "rat host_metric"
  ldLoad5 :: "rat host_metric"
  ldLoad15 :: "rat host_metric"
  ldLoad1PerCpu :: "rat host_metric"
  ldRunnable :: "int host_metric"
  ldThreads :: "int host_metric"
  ldLastPid :: "int host_metric"

definition load_unavailable :: "string \<Rightarrow> string \<Rightarrow> host_reason \<Rightarrow> load_snapshot" where
  "load_unavailable path ts r =
     (let bad = h_unavailable ''1'' path ts r; badInt = h_unavailable ''1'' path ts r in
      \<lparr>ldLoad1 = bad, ldLoad5 = bad, ldLoad15 = bad, ldLoad1PerCpu = bad, ldRunnable = badInt,
       ldThreads = badInt, ldLastPid = badInt\<rparr>)"

definition buildLoadSnapshot :: "kfiles \<Rightarrow> kernel_paths \<Rightarrow> nat option \<Rightarrow> string \<Rightarrow> load_snapshot" where
  "buildLoadSnapshot files paths logicalCpus ts =
     (let path = procPath paths [''loadavg''] in
      case readTextFile files path of
        Inl f \<Rightarrow> load_unavailable path ts (Unreadable f)
      | Inr text \<Rightarrow>
          (case parseLoadAvg text of
             None \<Rightarrow> load_unavailable path ts Loadavg_malformed
           | Some p \<Rightarrow>
               (let src = path @ '' (proc_loadavg(5))'' in
                \<lparr>ldLoad1 = h_observed (laLoad1 p) ''1'' src ts, ldLoad5 = h_observed (laLoad5 p) ''1'' src ts,
                 ldLoad15 = h_observed (laLoad15 p) ''1'' src ts,
                 ldLoad1PerCpu =
                   (case logicalCpus of
                      None \<Rightarrow> h_unavailable ''1'' src ts Cpu_count_unknown
                    | Some n \<Rightarrow> if n = 0 then h_unavailable ''1'' src ts Cpu_count_unknown
                                else h_derived (laLoad1 p / of_nat n) ''1'' src ts),
                 ldRunnable = h_observed (laRunnable p) ''1'' (path @ '' runnable numerator'') ts,
                 ldThreads = h_observed (laThreads p) ''1'' (path @ '' total denominator'') ts,
                 ldLastPid = h_observed (laLastPid p) ''1'' (path @ '' last field'') ts\<rparr>)))"

section \<open>Pressure\<close>

definition PRESSURE_RESOURCES :: "string list" where
  "PRESSURE_RESOURCES = [''cpu'', ''memory'', ''io'']"

type_synonym psi_values = "(string \<times> rat) list"

text \<open>
  \<open>target[key] = value\<close> of an object; the assignment of a number to the prototype does nothing.
\<close>

definition set_key :: "string \<Rightarrow> rat \<Rightarrow> psi_values \<Rightarrow> psi_values" where
  "set_key key v obj = (if key = ''__proto__'' then obj else (key, v) # filter (\<lambda>p. fst p \<noteq> key) obj)"

definition psi_pair :: "string \<Rightarrow> psi_values \<Rightarrow> psi_values" where
  "psi_pair pair obj =
     (case cut_at CHR ''='' pair of
        None \<Rightarrow> obj
      | Some (key, raw) \<Rightarrow>
          if key = [] then obj
          else (case parseFinite (Some raw) of None \<Rightarrow> obj | Some v \<Rightarrow> set_key key v obj))"

text \<open>One line, with the objects \<open>some\<close> and \<open>full\<close>; \<open>None\<close> is a \<open>return null\<close>.\<close>

definition psi_line ::
    "string \<Rightarrow> (psi_values \<times> psi_values) option \<Rightarrow> (psi_values \<times> psi_values) option" where
  "psi_line line st =
     (case st of
        None \<Rightarrow> None
      | Some (smv, flv) \<Rightarrow>
          (let trimmed = js_trim line in
           if trimmed = [] then st
           else
             (case cut_at CHR 0x20 trimmed of
                None \<Rightarrow> None
              | Some (kind, rest) \<Rightarrow>
                  if kind = ''some'' then Some (fold psi_pair (split_ws rest) smv, flv)
                  else if kind = ''full'' then Some (smv, fold psi_pair (split_ws rest) flv)
                  else None)))"

definition parsePressure :: "string \<Rightarrow> (psi_values \<times> psi_values) option" where
  "parsePressure text =
     (case fold psi_line (text_lines text) (Some ([], [])) of
        None \<Rightarrow> None
      | Some (smv, flv) \<Rightarrow> if smv = [] then None else Some (smv, flv))"

record pressure_averages =
  paAvg10 :: "rat host_metric"
  paAvg60 :: "rat host_metric"
  paAvg300 :: "rat host_metric"

record pressure_record =
  prResource :: string
  prSome :: pressure_averages
  prFull :: pressure_averages

definition averages :: "psi_values \<Rightarrow> string \<Rightarrow> string \<Rightarrow> string \<Rightarrow> string \<Rightarrow> pressure_averages" where
  "averages values window resource src ts =
     (let built = (\<lambda>key.
        (case map_of values key of
           None \<Rightarrow> h_unavailable ''%'' src ts
                     (if window = ''full'' then Full_unsupported resource
                      else Average_absent key window resource)
         | Some v \<Rightarrow> h_observed v ''%'' src ts)) in
      \<lparr>paAvg10 = built ''avg10'', paAvg60 = built ''avg60'', paAvg300 = built ''avg300''\<rparr>)"

definition pressure_bad :: "string \<Rightarrow> string \<Rightarrow> string \<Rightarrow> host_reason \<Rightarrow> pressure_record" where
  "pressure_bad resource path ts r =
     (let bad = h_unavailable ''%'' path ts r;
          all_bad = \<lparr>paAvg10 = bad, paAvg60 = bad, paAvg300 = bad\<rparr> in
      \<lparr>prResource = resource, prSome = all_bad, prFull = all_bad\<rparr>)"

definition pressure_of :: "kfiles \<Rightarrow> kernel_paths \<Rightarrow> string \<Rightarrow> string \<Rightarrow> pressure_record" where
  "pressure_of files paths ts resource =
     (let path = procPath paths [''pressure'', resource] in
      case readTextFile files path of
        Inl f \<Rightarrow> pressure_bad resource path ts
                  (if rfKind f = Missing then Pressure_missing resource else Unreadable f)
      | Inr text \<Rightarrow>
          (case parsePressure text of
             None \<Rightarrow> pressure_bad resource path ts (Pressure_malformed resource)
           | Some (smv, flv) \<Rightarrow>
               (let src = path @ '' (psi(5))'' in
                \<lparr>prResource = resource, prSome = averages smv ''some'' resource src ts,
                 prFull = averages flv ''full'' resource src ts\<rparr>)))"

definition buildPressure :: "kfiles \<Rightarrow> kernel_paths \<Rightarrow> string \<Rightarrow> pressure_record list" where
  "buildPressure files paths ts = map (pressure_of files paths ts) PRESSURE_RESOURCES"

section \<open>The lines of the kernel\<close>

text \<open>A line of \<^verbatim>\<open>/proc/meminfo\<close>: a name, padding, a number and, for an amount of memory, the unit.\<close>

record meminfo_entry =
  meKey :: string
  mePad :: nat
  meKib :: nat
  meUnit :: bool

definition meminfo_emit :: "meminfo_entry \<Rightarrow> string" where
  "meminfo_emit e =
     meKey e @ CHR '':'' # replicate (mePad e) CHR 0x20 @ nat_text (meKib e) @
     (if meUnit e then '' kB'' else [])"

definition meminfo_ok :: "meminfo_entry \<Rightarrow> bool" where
  "meminfo_ok e \<longleftrightarrow> meKey e \<noteq> [] \<and> (\<forall>c \<in> set (meKey e). \<not> js_space c \<and> c \<noteq> CHR '':'') \<and>
     meKib e \<le> MAX_SAFE_INTEGER"

definition meminfo_upd :: "meminfo_entry \<Rightarrow> meminfo \<Rightarrow> meminfo" where
  "meminfo_upd e m =
     (if meUnit e \<and> meKey e \<in> set MEM_FIELDS then m(meKey e \<mapsto> meKib e * 1024) else m)"

definition meminfo_text :: "meminfo_entry list \<Rightarrow> string" where
  "meminfo_text es = concat (map (\<lambda>e. meminfo_emit e @ [CHR 0x0A]) es)"

lemma kib_digits:
  "js_trim (replicate p CHR 0x20 @ nat_text n @ u) = js_trim (nat_text n @ u)"
  by (rule trim_pad) auto

lemma trim_number_unit: "js_trim (nat_text n @ '' kB'') = nat_text n @ '' kB''"
proof (rule trim_tight)
  show "\<not> js_space (hd (nat_text n @ '' kB''))"
    using digits_tight [of "hd (nat_text n)" n] by simp
  show "\<not> js_space (last (nat_text n @ '' kB''))" by (simp add: js_space_def)
qed simp

lemma parse_kib_unit:
  assumes "n \<le> MAX_SAFE_INTEGER"
  shows "parseKibibytes (Some (replicate p CHR 0x20 @ nat_text n @ '' kB'')) = Some (n * 1024)"
proof -
  have t: "takeWhile is_digit (nat_text n @ '' kB'') = nat_text n"
    "dropWhile is_digit (nat_text n @ '' kB'') = '' kB''"
    by (simp_all add: digit_prefix is_digit_def)
  have k: "takeWhile js_space '' kB'' = '' ''" "dropWhile js_space '' kB'' = ''kB''"
    by (simp_all add: js_space_def)
  show ?thesis
    unfolding parseKibibytes_def option.case kib_digits trim_number_unit Let_def t k using assms by simp
qed

lemma parse_kib_bare: "parseKibibytes (Some (replicate p CHR 0x20 @ nat_text n)) = None"
proof -
  have t: "js_trim (replicate p CHR 0x20 @ nat_text n) = nat_text n"
    using kib_digits [of p n "[]"] trim_no_space [of "nat_text n"] digits_tight by simp
  have d: "dropWhile is_digit (nat_text n) = []"
    using nat_text_digits by (simp add: dropWhile_eq_Nil_conv)
  show ?thesis unfolding parseKibibytes_def option.case t Let_def d by simp
qed

interpretation meminfo: printed_lines meminfo_emit meminfo_ok mem_line meminfo_upd
proof
  fix e :: meminfo_entry and m
  assume ok: "meminfo_ok e"
  have key: "js_trim (meKey e) = meKey e"
    using ok by (intro trim_no_space) (simp add: meminfo_ok_def)
  have "CHR '':'' \<notin> set (meKey e)" using ok by (auto simp: meminfo_ok_def)
  then have cut: "cut_at CHR '':'' (meminfo_emit e) =
      Some (meKey e, replicate (mePad e) CHR 0x20 @ nat_text (meKib e) @ (if meUnit e then '' kB'' else []))"
    unfolding meminfo_emit_def by (rule cut_at_found)
  have kib: "parseKibibytes (Some (replicate (mePad e) CHR 0x20 @ nat_text (meKib e) @ (if meUnit e then '' kB'' else []))) =
      (if meUnit e then Some (meKib e * 1024) else None)"
  proof (cases "meUnit e")
    case True
    with ok show ?thesis by (simp only: if_True parse_kib_unit meminfo_ok_def)
  next
    case False
    then show ?thesis by (simp only: if_False append_Nil2 parse_kib_bare)
  qed
  have "meKey e = [] \<longleftrightarrow> False" using ok by (simp add: meminfo_ok_def)
  then show "mem_line (meminfo_emit e) m = meminfo_upd e m"
    unfolding mem_line_def cut option.case prod.case Let_def key kib meminfo_upd_def
    by (cases "meUnit e"; cases "meKey e \<in> set MEM_FIELDS") (simp_all only: if_True if_False simp_thms option.case not_False_eq_True not_True_eq_False)
  show "CHR 0x0A \<notin> set (meminfo_emit e)"
  proof
    assume "CHR 0x0A \<in> set (meminfo_emit e)"
    then have "CHR 0x0A \<in> set (meKey e) \<or> CHR 0x0A \<in> set (nat_text (meKib e))"
      unfolding meminfo_emit_def by (cases "meUnit e") (simp_all split: if_splits)
    moreover have "js_space CHR 0x0A" by (simp add: js_space_def)
    ultimately show False using ok digits_tight [of "CHR 0x0A" "meKib e"] unfolding meminfo_ok_def by blast
  qed
next
  fix m show "mem_line [] m = m" by (simp add: mem_line_def)
qed

text \<open>What the kernel last said of a name, in kibibytes.\<close>

definition meminfo_kib :: "meminfo_entry list \<Rightarrow> string \<Rightarrow> nat option" where
  "meminfo_kib es key = map_option meKib (find (\<lambda>e. meUnit e \<and> meKey e = key) (rev es))"

lemma find_append: "find P (xs @ ys) = (case find P xs of None \<Rightarrow> find P ys | Some x \<Rightarrow> Some x)"
  by (induction xs) simp_all

lemma meminfo_fold:
  assumes "key \<in> set MEM_FIELDS"
  shows "fold meminfo_upd es m key =
    (case meminfo_kib es key of None \<Rightarrow> m key | Some n \<Rightarrow> Some (n * 1024))"
  using assms
proof (induction es arbitrary: m)
  case Nil
  then show ?case by (simp add: meminfo_kib_def)
next
  case (Cons e es)
  then show ?case
    by (cases "find (\<lambda>e. meUnit e \<and> meKey e = key) (rev es)")
      (auto simp: meminfo_kib_def find_append meminfo_upd_def)
qed

lemma meminfo_roundtrip:
  assumes "\<forall>e \<in> set es. meminfo_ok e" and "key \<in> set MEM_FIELDS"
  shows "parseMemInfo (meminfo_text es) key = map_option (\<lambda>n. n * 1024) (meminfo_kib es key)"
  using meminfo.lines_read [OF assms(1), of Map.empty] meminfo_fold [OF assms(2), of es Map.empty]
  by (simp add: parseMemInfo_def meminfo_text_def split: option.splits)


text \<open>A line of a file of \<^verbatim>\<open>/proc/pressure\<close>: averages in hundredths of a percent, and the total.\<close>

record psi_window =
  pwAvg10 :: nat
  pwAvg60 :: nat
  pwAvg300 :: nat
  pwTotal :: nat

definition centi_text :: "nat \<Rightarrow> string" where
  "centi_text n = nat_text (n div 100) @ CHR ''.'' # [digit_char (n mod 100 div 10), digit_char (n mod 10)]"

definition psi_words :: "psi_window \<Rightarrow> string list" where
  "psi_words w =
     [''avg10='' @ centi_text (pwAvg10 w), ''avg60='' @ centi_text (pwAvg60 w),
      ''avg300='' @ centi_text (pwAvg300 w), ''total='' @ nat_text (pwTotal w)]"

definition psi_emit :: "string \<times> psi_window \<Rightarrow> string" where
  "psi_emit kw = fst kw @ CHR 0x20 # join_with '' '' (psi_words (snd kw))"

definition psi_ok :: "string \<times> psi_window \<Rightarrow> bool" where
  "psi_ok kw \<longleftrightarrow> fst kw = ''some'' \<or> fst kw = ''full''"

definition psi_values_of :: "psi_window \<Rightarrow> psi_values \<Rightarrow> psi_values" where
  "psi_values_of w obj =
     set_key ''total'' (of_nat (pwTotal w)) (set_key ''avg300'' (of_nat (pwAvg300 w) / 100)
       (set_key ''avg60'' (of_nat (pwAvg60 w) / 100) (set_key ''avg10'' (of_nat (pwAvg10 w) / 100) obj)))"

definition psi_upd ::
    "string \<times> psi_window \<Rightarrow> (psi_values \<times> psi_values) option \<Rightarrow> (psi_values \<times> psi_values) option" where
  "psi_upd kw st =
     map_option (\<lambda>(smv, flv). if fst kw = ''some'' then (psi_values_of (snd kw) smv, flv)
                              else (smv, psi_values_of (snd kw) flv)) st"

definition psi_text :: "(string \<times> psi_window) list \<Rightarrow> string" where
  "psi_text ls = concat (map (\<lambda>l. psi_emit l @ [CHR 0x0A]) ls)"

lemma centi_split:
  "takeWhile is_digit (centi_text n) = nat_text (n div 100)"
  "dropWhile is_digit (centi_text n) = CHR ''.'' # [digit_char (n mod 100 div 10), digit_char (n mod 10)]"
  unfolding centi_text_def by (rule digit_prefix; simp add: is_digit_def)+

lemma centi_tight: "c \<in> set (centi_text n) \<Longrightarrow> \<not> js_space c"
proof -
  assume "c \<in> set (centi_text n)"
  then have "is_digit c \<or> c = CHR ''.''"
    unfolding centi_text_def using nat_text_digits [of c "n div 100"] by auto
  then show ?thesis using digit_not_space by (auto simp: js_space_def)
qed

lemma two_digits: "d < 10 \<Longrightarrow> e < 10 \<Longrightarrow> decimal_value [digit_char d, digit_char e] = 10 * d + e"
  by (simp add: decimal_value_def)

lemma hundredths: "10 * (n mod 100 div 10) + n mod 10 = (n mod 100 :: nat)"
proof -
  have "n mod 10 = n mod 100 mod 10" by (simp add: mod_mod_cancel)
  then show ?thesis by (simp only: mult_div_mod_eq)
qed

lemma hundredths_rat: "of_nat (n div 100) + of_nat (n mod 100) / 100 = (of_nat n / 100 :: rat)"
proof -
  have "(of_nat n :: rat) = of_nat (n div 100 * 100 + n mod 100)" by simp
  then show ?thesis by (simp only: of_nat_add of_nat_mult) (simp add: add_divide_distrib)
qed

lemma hd_digit: "w \<noteq> [] \<Longrightarrow> is_digit (hd w) \<Longrightarrow> \<not> prefix ''-'' w"
  by (cases w) (auto simp: is_digit_def)

lemma parse_centi: "parseFinite (Some (centi_text n)) = Some (of_nat n / 100)"
proof -
  let ?ds = "[digit_char (n mod 100 div 10), digit_char (n mod 10)]"
  have trim: "js_trim (centi_text n) = centi_text n"
    using centi_tight by (intro trim_no_space) blast
  have "hd (centi_text n) = hd (nat_text (n div 100))" by (simp add: centi_text_def)
  then have "is_digit (hd (centi_text n))" using nat_text_digits [of "hd (nat_text (n div 100))" "n div 100"] by simp
  then have pos: "\<not> prefix ''-'' (centi_text n)" by (intro hd_digit) (simp_all add: centi_text_def)
  have "all_digits ?ds" by (simp add: all_digits_def)
  moreover have "decimal_value ?ds = n mod 100" using two_digits [of "n mod 100 div 10" "n mod 10"] by (simp add: hundredths)
  ultimately show ?thesis
    unfolding parseFinite_def option.case trim Let_def if_not_P [OF pos] centi_split using hundredths_rat [of n]
    by (simp add: pos)
qed

lemma parse_total: "parseFinite (Some (nat_text n)) = Some (of_nat n)"
proof -
  have ds: "takeWhile is_digit (nat_text n) = nat_text n" "dropWhile is_digit (nat_text n) = []"
    using nat_text_digits by (simp_all add: dropWhile_eq_Nil_conv takeWhile_eq_all_conv)
  have trim: "js_trim (nat_text n) = nat_text n" using digits_tight by (intro trim_no_space) blast
  have pos: "\<not> prefix ''-'' (nat_text n)"
    using nat_text_digits [of "hd (nat_text n)" n] by (intro hd_digit) simp_all
  show ?thesis
    unfolding parseFinite_def option.case trim Let_def if_not_P [OF pos] ds by (simp add: pos)
qed


lemma psi_pair_read:
  "CHR ''='' \<notin> set key \<Longrightarrow> key \<noteq> [] \<Longrightarrow> parseFinite (Some raw) = Some v \<Longrightarrow>
   psi_pair (key @ CHR ''='' # raw) obj = set_key key v obj"
  by (simp add: psi_pair_def cut_at_found)

lemma psi_words_read: "fold psi_pair (psi_words w) obj = psi_values_of w obj"
  using psi_pair_read [OF _ _ parse_centi, of "''avg10''" "pwAvg10 w"]
    psi_pair_read [OF _ _ parse_centi, of "''avg60''" "pwAvg60 w"]
    psi_pair_read [OF _ _ parse_centi, of "''avg300''" "pwAvg300 w"]
    psi_pair_read [OF _ _ parse_total, of "''total''" "pwTotal w"]
  by (simp add: psi_words_def psi_values_of_def)

lemma digit_word: "is_digit c \<Longrightarrow> \<not> js_space c \<and> c \<noteq> CHR '')''"
  using digit_not_space [of c] by (auto simp: is_digit_def)

lemma centi_chars: "c \<in> set (centi_text n) \<Longrightarrow> is_digit c \<or> c = CHR ''.''"
  unfolding centi_text_def using nat_text_digits [of c "n div 100"] by auto

lemma stat_word_text: "stat_word (nat_text n)" "stat_word (centi_text n)"
proof -
  show "stat_word (nat_text n)"
    unfolding stat_word_def using nat_text_digits digit_word by (intro conjI ballI nat_text_not_Nil) blast+
  have "\<not> js_space CHR ''.''" by (simp add: js_space_def)
  then have "\<not> js_space c \<and> c \<noteq> CHR '')''" if "c \<in> set (centi_text n)" for c
    using centi_chars [OF that] digit_word [of c] by auto
  moreover have "centi_text n \<noteq> []" by (simp add: centi_text_def)
  ultimately show "stat_word (centi_text n)" unfolding stat_word_def by blast
qed

lemma stat_word_append: "stat_word a \<Longrightarrow> stat_word b \<Longrightarrow> stat_word (a @ b)"
  by (auto simp: stat_word_def)

lemma psi_words_tight: "\<forall>x \<in> set (psi_words w). stat_word x"
proof -
  have "stat_word ''avg10=''" "stat_word ''avg60=''" "stat_word ''avg300=''" "stat_word ''total=''"
    by (simp_all add: stat_word_def js_space_def)
  then show ?thesis
    unfolding psi_words_def list.set ball_simps by (intro conjI stat_word_append stat_word_text) simp_all
qed

lemma join_ends:
  "\<forall>x \<in> set ws. stat_word x \<Longrightarrow> ws \<noteq> [] \<Longrightarrow>
   join_with '' '' ws \<noteq> [] \<and> \<not> js_space (hd (join_with '' '' ws)) \<and> \<not> js_space (last (join_with '' '' ws))"
proof (induction "'' ''" ws rule: join_with.induct)
  case (2 w)
  then show ?case by (simp add: stat_word_def)
next
  case (3 w v ws)
  then show ?case by (simp add: stat_word_def)
qed simp

lemma split_ws_join:
  assumes "\<forall>x \<in> set ws. stat_word x" and "ws \<noteq> []"
  shows "split_ws (join_with '' '' ws) = ws"
proof -
  have "filter (\<lambda>w. w \<noteq> []) ws = ws" using assms(1) by (intro filter_True) (auto simp: stat_word_def)
  then show ?thesis
    using join_ends [OF assms] by (simp add: split_ws_def blank_words_def split_words assms)
qed

lemma psi_emit_tight:
  assumes "psi_ok kw"
  shows "js_trim (psi_emit kw) = psi_emit kw"
proof (rule trim_tight)
  note j = join_ends [OF psi_words_tight, of "snd kw"]
  have "psi_words (snd kw) \<noteq> []" by (simp add: psi_words_def)
  with j show "\<not> js_space (last (psi_emit kw))" by (simp add: psi_emit_def)
  show "\<not> js_space (hd (psi_emit kw))" using assms by (auto simp: psi_emit_def psi_ok_def js_space_def)
qed (simp add: psi_emit_def)

lemma psi_emit_cut:
  assumes "psi_ok kw"
  shows "cut_at CHR 0x20 (psi_emit kw) = Some (fst kw, join_with '' '' (psi_words (snd kw)))"
  unfolding psi_emit_def using assms by (intro cut_at_found) (auto simp: psi_ok_def)

lemma psi_join_read: "fold psi_pair (split_ws (join_with '' '' (psi_words w))) obj = psi_values_of w obj"
proof -
  have ne: "psi_words w \<noteq> []" by (simp add: psi_words_def)
  show ?thesis unfolding split_ws_join [OF psi_words_tight ne] by (rule psi_words_read)
qed

lemma psi_emit_one_line:
  assumes "psi_ok kw"
  shows "CHR 0x0A \<notin> set (psi_emit kw)"
proof
  assume "CHR 0x0A \<in> set (psi_emit kw)"
  then have "CHR 0x0A \<in> set (fst kw) \<or> CHR 0x0A \<in> set (join_with '' '' (psi_words (snd kw)))"
    by (simp add: psi_emit_def)
  moreover have "CHR 0x0A \<notin> set (fst kw)" using assms by (auto simp: psi_ok_def)
  ultimately obtain x where "x \<in> set (psi_words (snd kw))" "CHR 0x0A \<in> set x"
    using set_join_words [of "CHR 0x0A" "'' ''"] by auto
  moreover have "js_space CHR 0x0A" by (simp add: js_space_def)
  ultimately show False using psi_words_tight [of "snd kw"] by (auto simp: stat_word_def)
qed

interpretation psi: printed_lines psi_emit psi_ok psi_line psi_upd
proof
  fix kw :: "string \<times> psi_window" and st :: "(psi_values \<times> psi_values) option"
  assume ok: "psi_ok kw"
  have ne: "psi_emit kw \<noteq> []" by (simp add: psi_emit_def)
  show "psi_line (psi_emit kw) st = psi_upd kw st"
  proof (cases st)
    case None
    then show ?thesis by (simp add: psi_line_def psi_upd_def)
  next
    case (Some sf)
    obtain smv flv where sf: "sf = (smv, flv)" by (cases sf)
    have "fst kw \<noteq> ''some'' \<Longrightarrow> fst kw = ''full''" using ok by (auto simp: psi_ok_def)
    then show ?thesis
      unfolding psi_line_def psi_upd_def Some sf option.case prod.case psi_emit_tight [OF ok] Let_def
        psi_emit_cut [OF ok] psi_join_read if_not_P [OF ne] option.map
      by (cases "fst kw = ''some''") simp_all
  qed
  show "CHR 0x0A \<notin> set (psi_emit kw)" by (rule psi_emit_one_line [OF ok])
next
  fix st show "psi_line [] st = st" by (cases st) (auto simp: psi_line_def)
qed

section \<open>Properties\<close>

definition kernel_file :: "string \<Rightarrow> string \<Rightarrow> kfiles" where
  "kernel_file path text p = (if p = path then Inr text else Inl ENOENT)"

text \<open>The memory fields that are copied, in the order of the file's list.\<close>

definition plain_fields :: "memory_snapshot \<Rightarrow> (string \<times> int host_metric) list" where
  "plain_fields s =
     [(''MemTotal'', mmTotal s), (''MemFree'', mmFree s), (''MemAvailable'', mmAvailable s),
      (''Buffers'', mmBuffers s), (''Cached'', mmCached s), (''SReclaimable'', mmReclaimable s),
      (''SwapTotal'', mmSwapTotal s), (''SwapFree'', mmSwapFree s), (''SwapCached'', mmSwapCached s),
      (''Active'', mmActive s), (''Inactive'', mmInactive s), (''Dirty'', mmDirty s),
      (''Writeback'', mmWriteback s), (''AnonPages'', mmAnonPages s), (''Shmem'', mmShared s),
      (''Slab'', mmSlab s)]"

lemma field_value: "hmValue (mem_field values key src ts) = map_option int (values key)"
  by (simp add: mem_field_def split: option.split)

lemma available_value: "hmValue (memory_available values src ts) = map_option int (values ''MemAvailable'')"
  by (simp add: memory_available_def split: option.split)

lemma used_value:
  "hmValue (fst (memory_used t a src ts)) =
     (case (hmValue t, hmValue a) of (Some x, Some y) \<Rightarrow> Some (x - y) | _ \<Rightarrow> None)"
  "hmValue (snd (memory_used t a src ts)) =
     (case (hmValue t, hmValue a) of (Some x, Some y) \<Rightarrow> Some (used_percent x y) | _ \<Rightarrow> None)"
  by (simp_all add: memory_used_def split: option.split)

lemma swap_value:
  "hmValue (fst (swap_used t f src ts)) =
     (case (hmValue t, hmValue f) of (Some x, Some y) \<Rightarrow> Some (x - y) | _ \<Rightarrow> None)"
  "hmValue (snd (swap_used t f src ts)) =
     (case (hmValue t, hmValue f) of
        (Some x, Some y) \<Rightarrow> Some (if x = 0 then Num 0 else used_percent x y) | _ \<Rightarrow> None)"
  by (simp_all add: swap_used_def split: option.split)

lemma snapshot_values:
  assumes "files (procPath paths [''meminfo'']) = Inr text"
  shows "map (\<lambda>(k, m). (k, hmValue m)) (plain_fields (buildMemorySnapshot files paths ts)) =
      map (\<lambda>k. (k, map_option int (parseMemInfo text k)))
        [''MemTotal'', ''MemFree'', ''MemAvailable'', ''Buffers'', ''Cached'', ''SReclaimable'', ''SwapTotal'',
         ''SwapFree'', ''SwapCached'', ''Active'', ''Inactive'', ''Dirty'', ''Writeback'', ''AnonPages'', ''Shmem'', ''Slab'']"
    and "hmValue (mmUsed (buildMemorySnapshot files paths ts)) =
      (case (parseMemInfo text ''MemTotal'', parseMemInfo text ''MemAvailable'') of
         (Some t, Some a) \<Rightarrow> Some (int t - int a) | _ \<Rightarrow> None)"
    and "hmValue (mmUsedPercent (buildMemorySnapshot files paths ts)) =
      (case (parseMemInfo text ''MemTotal'', parseMemInfo text ''MemAvailable'') of
         (Some t, Some a) \<Rightarrow> Some (used_percent (int t) (int a)) | _ \<Rightarrow> None)"
    and "hmValue (mmSwapPercent (buildMemorySnapshot files paths ts)) =
      (case (parseMemInfo text ''SwapTotal'', parseMemInfo text ''SwapFree'') of
         (Some t, Some f) \<Rightarrow> Some (if t = 0 then Num 0 else used_percent (int t) (int f)) | _ \<Rightarrow> None)"
  unfolding plain_fields_def buildMemorySnapshot_def readTextFile_def assms sum.case Let_def memory_snapshot.simps
  by (simp_all add: field_value available_value used_value swap_value split: option.split)

lemma used_percent_bounds:
  assumes "0 < t" and "a \<le> t"
  shows "\<exists>p. used_percent (int t * 1024) (int a * 1024) = Num p \<and>
    p * of_nat t = 100 * of_nat (t - a) \<and> 0 \<le> p \<and> p \<le> 100"
proof (intro exI conjI)
  let ?p = "of_nat (t - a) / of_nat t * 100 :: rat"
  have n: "(of_int (int t * 1024 - int a * 1024) :: rat) = of_nat (t - a) * 1024"
    using assms(2) by (simp add: of_nat_diff left_diff_distrib)
  have d: "(of_int (int t * 1024) :: rat) = of_nat t * 1024" by simp
  have d0: "of_nat t * 1024 \<noteq> (0 :: rat)" using assms(1) by simp
  show "used_percent (int t * 1024) (int a * 1024) = Num ?p"
    unfolding used_percent_def js_div_def n d if_P [OF d0] js_scale.simps by simp
  show "?p * of_nat t = 100 * of_nat (t - a)" using assms by simp
  show "0 \<le> ?p" by simp
  have "of_nat (t - a) \<le> (of_nat t :: rat)" by simp
  then have "of_nat (t - a) / of_nat t \<le> (1 :: rat)" using assms by (simp add: divide_le_eq)
  then show "?p \<le> 100" using mult_right_mono [of "of_nat (t - a) / of_nat t" 1 "100 :: rat"] by simp
qed

text \<open>C27: The memory block says what the kernel wrote. For a file of any lines as the kernel prints them,
  every copied field is the number of its line times 1024, and missing when there is no such
  line; used memory is the total minus the available memory; and when the machine has memory
  and no more of it is available than it has, the percentage is exactly their ratio and lies
  between 0 and 100.\<close>
theorem memory_report_exact:
  assumes "\<forall>e \<in> set es. meminfo_ok e"
    and "files (procPath paths [''meminfo'']) = Inr (meminfo_text es)"
    and "s = buildMemorySnapshot files paths ts"
  shows "(\<forall>(key, m) \<in> set (plain_fields s).
        hmValue m = map_option (\<lambda>n. int n * 1024) (meminfo_kib es key)) \<and>
    hmValue (mmUsed s) =
      (case (meminfo_kib es ''MemTotal'', meminfo_kib es ''MemAvailable'') of
         (Some t, Some a) \<Rightarrow> Some ((int t - int a) * 1024) | _ \<Rightarrow> None) \<and>
    (\<forall>t a. meminfo_kib es ''MemTotal'' = Some t \<and> meminfo_kib es ''MemAvailable'' = Some a \<and> 0 < t \<and> a \<le> t \<longrightarrow>
      (\<exists>p. hmValue (mmUsedPercent s) = Some (Num p) \<and> p * of_nat t = 100 * of_nat (t - a) \<and> 0 \<le> p \<and> p \<le> 100))"
proof (intro conjI allI impI)
  have kib: "parseMemInfo (meminfo_text es) k = map_option (\<lambda>n. n * 1024) (meminfo_kib es k)"
    if "k \<in> set MEM_FIELDS" for k by (rule meminfo_roundtrip [OF assms(1) that])
  note vals = snapshot_values [where files = files and paths = paths and ts = ts, OF assms(2), folded assms(3)]
  have pairs: "set (map (\<lambda>(k, m). (k, hmValue m)) (plain_fields s)) \<subseteq>
      (\<lambda>k. (k, map_option (\<lambda>n. int n * 1024) (meminfo_kib es k))) ` set MEM_FIELDS"
    unfolding vals(1) MEM_FIELDS_def list.set_map by (auto simp: kib MEM_FIELDS_def option.map_comp comp_def)
  show "\<forall>(key, m) \<in> set (plain_fields s). hmValue m = map_option (\<lambda>n. int n * 1024) (meminfo_kib es key)"
  proof (intro ballI case_prodI2)
    fix p key m assume "p \<in> set (plain_fields s)" "p = (key, m)"
    then have "(key, hmValue m) \<in> set (map (\<lambda>(k, m). (k, hmValue m)) (plain_fields s))" by force
    then show "hmValue m = map_option (\<lambda>n. int n * 1024) (meminfo_kib es key)" using pairs by auto
  qed
  have m: "''MemTotal'' \<in> set MEM_FIELDS" "''MemAvailable'' \<in> set MEM_FIELDS" by (simp_all add: MEM_FIELDS_def)
  show "hmValue (mmUsed s) =
      (case (meminfo_kib es ''MemTotal'', meminfo_kib es ''MemAvailable'') of
         (Some t, Some a) \<Rightarrow> Some ((int t - int a) * 1024) | _ \<Rightarrow> None)"
    unfolding vals(2) by (simp add: kib m left_diff_distrib split: option.split)
  fix t a
  assume "meminfo_kib es ''MemTotal'' = Some t \<and> meminfo_kib es ''MemAvailable'' = Some a \<and> 0 < t \<and> a \<le> t"
  then show "\<exists>p. hmValue (mmUsedPercent s) = Some (Num p) \<and> p * of_nat t = 100 * of_nat (t - a) \<and> 0 \<le> p \<and> p \<le> 100"
    unfolding vals(3) using used_percent_bounds [of t a] by (simp add: kib m)
qed

text \<open>Three lines of a small machine, one of them not an amount of memory.\<close>

definition small_meminfo :: "meminfo_entry list" where
  "small_meminfo =
     [\<lparr>meKey = ''MemTotal'', mePad = 7, meKib = 16, meUnit = True\<rparr>,
      \<lparr>meKey = ''MemAvailable'', mePad = 3, meKib = 4, meUnit = True\<rparr>,
      \<lparr>meKey = ''HugePages_Total'', mePad = 1, meKib = 0, meUnit = False\<rparr>]"

lemma small_meminfo_ok: "\<forall>e \<in> set small_meminfo. meminfo_ok e"
  by (simp add: small_meminfo_def meminfo_ok_def js_space_def MAX_SAFE_INTEGER_def)

lemma kernel_file_read: "kernel_file path text path = Inr text"
  by (simp add: kernel_file_def)

theorem memory_report_exact_witness:
  "\<exists>p. hmValue (mmUsedPercent (buildMemorySnapshot
       (kernel_file ''/proc/meminfo'' (meminfo_text small_meminfo)) DEFAULT_KERNEL_PATHS ''t'')) = Some (Num p) \<and>
     p * 16 = 1200"
proof -
  have path: "procPath DEFAULT_KERNEL_PATHS [''meminfo''] = ''/proc/meminfo''"
    by (simp add: procPath_def DEFAULT_KERNEL_PATHS_def)
  have kib: "meminfo_kib small_meminfo ''MemTotal'' = Some 16" "meminfo_kib small_meminfo ''MemAvailable'' = Some 4"
    by (simp_all add: meminfo_kib_def small_meminfo_def)
  note r = memory_report_exact [OF small_meminfo_ok, of "kernel_file ''/proc/meminfo'' (meminfo_text small_meminfo)"
      DEFAULT_KERNEL_PATHS, unfolded path, OF kernel_file_read refl, of "''t''"]
  show ?thesis using r [THEN conjunct2, THEN conjunct2, rule_format, of 16 4] kib by auto
qed

text \<open>Where the percentages of memory do not hold to their contract. On a machine whose file says that it
  has no memory the used share is published as a derived value that is not a number, since only
  the division for the swap is guarded; a container whose available memory exceeds its total is
  reported as using less than nothing; and without swap the swap share is published as a derived
  0, where the contract of the field asks for a missing value.\<close>

definition odd_meminfo :: "nat \<Rightarrow> nat \<Rightarrow> meminfo_entry list" where
  "odd_meminfo tot available =
     [\<lparr>meKey = ''MemTotal'', mePad = 1, meKib = tot, meUnit = True\<rparr>,
      \<lparr>meKey = ''MemAvailable'', mePad = 1, meKib = available, meUnit = True\<rparr>,
      \<lparr>meKey = ''SwapTotal'', mePad = 1, meKib = 0, meUnit = True\<rparr>,
      \<lparr>meKey = ''SwapFree'', mePad = 1, meKib = 0, meUnit = True\<rparr>]"

definition odd_memory :: "nat \<Rightarrow> nat \<Rightarrow> memory_snapshot" where
  "odd_memory tot available =
     buildMemorySnapshot (kernel_file ''/proc/meminfo'' (meminfo_text (odd_meminfo tot available)))
       DEFAULT_KERNEL_PATHS ''t''"

lemma odd_values:
  assumes "t \<le> MAX_SAFE_INTEGER" and "a \<le> MAX_SAFE_INTEGER"
  shows "hmValue (mmUsedPercent (odd_memory t a)) = Some (used_percent (int t * 1024) (int a * 1024))"
    and "hmValue (mmSwapPercent (odd_memory t a)) = Some (Num 0)"
proof -
  have ok: "\<forall>e \<in> set (odd_meminfo t a). meminfo_ok e"
    using assms by (simp add: odd_meminfo_def meminfo_ok_def js_space_def)
  have path: "procPath DEFAULT_KERNEL_PATHS [''meminfo''] = ''/proc/meminfo''"
    by (simp add: procPath_def DEFAULT_KERNEL_PATHS_def)
  have kib: "meminfo_kib (odd_meminfo t a) ''MemTotal'' = Some t" "meminfo_kib (odd_meminfo t a) ''MemAvailable'' = Some a"
    "meminfo_kib (odd_meminfo t a) ''SwapTotal'' = Some 0" "meminfo_kib (odd_meminfo t a) ''SwapFree'' = Some 0"
    by (simp_all add: meminfo_kib_def odd_meminfo_def)
  have m: "''MemTotal'' \<in> set MEM_FIELDS" "''MemAvailable'' \<in> set MEM_FIELDS"
    "''SwapTotal'' \<in> set MEM_FIELDS" "''SwapFree'' \<in> set MEM_FIELDS" by (simp_all add: MEM_FIELDS_def)
  note vals = snapshot_values [of "kernel_file ''/proc/meminfo'' (meminfo_text (odd_meminfo t a))"
      DEFAULT_KERNEL_PATHS, unfolded path, OF kernel_file_read, where ts = "''t''", folded odd_memory_def]
  show "hmValue (mmUsedPercent (odd_memory t a)) = Some (used_percent (int t * 1024) (int a * 1024))"
    "hmValue (mmSwapPercent (odd_memory t a)) = Some (Num 0)"
    unfolding vals(3,4) by (simp_all add: meminfo_roundtrip [OF ok] m kib)
qed

theorem memory_percent_gaps:
  "hmValue (mmUsedPercent (odd_memory 0 0)) = Some NaN \<and>
   hmValue (mmUsedPercent (odd_memory 0 4)) = Some Neg_infinity \<and>
   hmValue (mmUsedPercent (odd_memory 8 12)) = Some (Num (- 50)) \<and>
   hmValue (mmSwapPercent (odd_memory 8 4)) = Some (Num 0)"
  by (simp add: odd_values MAX_SAFE_INTEGER_def used_percent_def js_div_def)

definition averages_list :: "pressure_averages \<Rightarrow> rat host_metric list" where
  "averages_list a = [paAvg10 a, paAvg60 a, paAvg300 a]"

text \<open>A window as hundredths of a percent.\<close>

definition window_values :: "psi_window \<Rightarrow> rat list" where
  "window_values w = map (\<lambda>n. of_nat n / 100) [pwAvg10 w, pwAvg60 w, pwAvg300 w]"

definition psi_file :: "psi_window \<Rightarrow> psi_window option \<Rightarrow> string" where
  "psi_file w v = psi_text ((''some'', w) # (case v of None \<Rightarrow> [] | Some x \<Rightarrow> [(''full'', x)]))"

lemma psi_file_parsed:
  "parsePressure (psi_file w v) =
     Some (psi_values_of w [], case v of None \<Rightarrow> [] | Some x \<Rightarrow> psi_values_of x [])"
proof -
  let ?ls = "(''some'', w) # (case v of None \<Rightarrow> [] | Some x \<Rightarrow> [(''full'', x)])"
  have "\<forall>l \<in> set ?ls. psi_ok l" by (simp add: psi_ok_def split: option.split)
  from psi.lines_read [OF this, of "Some ([], [])"]
  have "fold psi_line (text_lines (psi_file w v)) (Some ([], [])) =
      Some (psi_values_of w [], case v of None \<Rightarrow> [] | Some x \<Rightarrow> psi_values_of x [])"
    unfolding psi_file_def psi_text_def by (simp add: psi_upd_def split: option.split)
  moreover have "psi_values_of w [] \<noteq> []" by (simp add: psi_values_of_def set_key_def)
  ultimately show ?thesis by (simp add: parsePressure_def)
qed

lemma averages_read:
  "map hmValue (averages_list (averages (psi_values_of w []) window resource src ts)) = map Some (window_values w)"
  by (simp add: averages_list_def averages_def psi_values_of_def set_key_def window_values_def Let_def)

lemma averages_none:
  "map hmReason (averages_list (averages [] ''full'' resource src ts)) =
     replicate 3 (Some (Full_unsupported resource))"
  "map hmValue (averages_list (averages [] window resource src ts)) = replicate 3 None"
  by (simp_all add: averages_list_def averages_def numeral_3_eq_3)

lemma find_pressure:
  "resource \<in> set PRESSURE_RESOURCES \<Longrightarrow>
   find (\<lambda>r. prResource r = resource) (buildPressure files paths ts) = Some (pressure_of files paths ts resource)"
proof -
  have res: "prResource (pressure_of files paths ts r) = r" for r
    by (simp add: pressure_of_def pressure_bad_def Let_def split: sum.split option.split)
  show "resource \<in> set PRESSURE_RESOURCES \<Longrightarrow> ?thesis"
    by (auto simp: buildPressure_def PRESSURE_RESOURCES_def res)
qed

lemma averages_honest: "m \<in> set (averages_list (averages values window resource src ts)) \<Longrightarrow> honest m"
  by (auto simp: averages_list_def averages_def Let_def split: option.splits)

lemma pressure_honest:
  "m \<in> set (averages_list (prSome (pressure_of files paths ts r)) @ averages_list (prFull (pressure_of files paths ts r))) \<Longrightarrow>
   honest m"
  by (auto simp: pressure_of_def pressure_bad_def Let_def dest: averages_honest split: sum.splits option.splits)
    (auto simp: averages_list_def)

text \<open>C28: The pressure block says what the kernel wrote. Whatever the files hold, there is one record
  per resource, in order, each metric honest; and when the file of a resource is as the kernel
  prints it, the averages are exactly the printed ones, those of the full line included, or
  missing with the reason that there is no such line.\<close>
theorem pressure_roundtrip:
  assumes "resource \<in> set PRESSURE_RESOURCES"
    and "files (procPath paths [''pressure'', resource]) = Inr (psi_file w v)"
  shows "map prResource (buildPressure files paths ts) = PRESSURE_RESOURCES \<and>
    (\<forall>r \<in> set (buildPressure files paths ts). \<forall>m \<in> set (averages_list (prSome r) @ averages_list (prFull r)). honest m) \<and>
    (\<exists>r. find (\<lambda>r. prResource r = resource) (buildPressure files paths ts) = Some r \<and>
       map hmValue (averages_list (prSome r)) = map Some (window_values w) \<and>
       (case v of
          Some x \<Rightarrow> map hmValue (averages_list (prFull r)) = map Some (window_values x)
        | None \<Rightarrow> map hmReason (averages_list (prFull r)) = replicate 3 (Some (Full_unsupported resource))))"
proof (intro conjI)
  show "map prResource (buildPressure files paths ts) = PRESSURE_RESOURCES"
    by (simp add: buildPressure_def pressure_of_def pressure_bad_def PRESSURE_RESOURCES_def Let_def
        split: sum.split option.split)
  show "\<forall>r \<in> set (buildPressure files paths ts). \<forall>m \<in> set (averages_list (prSome r) @ averages_list (prFull r)). honest m"
    unfolding buildPressure_def using pressure_honest by auto
  show "\<exists>r. find (\<lambda>r. prResource r = resource) (buildPressure files paths ts) = Some r \<and>
       map hmValue (averages_list (prSome r)) = map Some (window_values w) \<and>
       (case v of
          Some x \<Rightarrow> map hmValue (averages_list (prFull r)) = map Some (window_values x)
        | None \<Rightarrow> map hmReason (averages_list (prFull r)) = replicate 3 (Some (Full_unsupported resource)))"
    by (intro exI conjI, rule find_pressure [OF assms(1)])
      (simp_all add: pressure_of_def readTextFile_def assms(2) psi_file_parsed averages_read averages_none Let_def
        split: option.split)
qed

theorem pressure_roundtrip_witness:
  "\<exists>r. find (\<lambda>r. prResource r = ''io'') (buildPressure (kernel_file ''/proc/pressure/io''
       (psi_file \<lparr>pwAvg10 = 1234, pwAvg60 = 5, pwAvg300 = 10000, pwTotal = 77\<rparr> None)) DEFAULT_KERNEL_PATHS ''t'') = Some r \<and>
     map hmValue (averages_list (prSome r)) = [Some (617 / 50), Some (1 / 20), Some 100]"
proof -
  have path: "procPath DEFAULT_KERNEL_PATHS [''pressure'', ''io''] = ''/proc/pressure/io''"
    by (simp add: procPath_def DEFAULT_KERNEL_PATHS_def)
  have io: "''io'' \<in> set PRESSURE_RESOURCES" by (simp add: PRESSURE_RESOURCES_def)
  show ?thesis
    using pressure_roundtrip [OF io, of "kernel_file ''/proc/pressure/io''
       (psi_file \<lparr>pwAvg10 = 1234, pwAvg60 = 5, pwAvg300 = 10000, pwTotal = 77\<rparr> None)" DEFAULT_KERNEL_PATHS,
       unfolded path, OF kernel_file_read, of "''t''"]
    by (auto simp: window_values_def)
qed

end
