(* ===== verification/Host_Devices.thy ===== *)
theory Host_Devices
  imports Host_Memory
begin

text \<open>
  \<^verbatim>\<open>web/backend/src/telemetry/system/network.ts\<close> and \<^verbatim>\<open>disk.ts\<close>: the counters of interfaces and block
  devices, the rates between two passes, and the capacity of file systems.
\<close>

section \<open>Rates over a run of passes\<close>

text \<open>
  A collector pass takes an observation and what the pass before kept, and gives a snapshot and
  what it keeps, as \<^verbatim>\<open>collector.ts\<close> threads it through \<open>this.state\<close>.
\<close>

fun collector_run :: "('o \<Rightarrow> 'p option \<Rightarrow> 's \<times> 'p) \<Rightarrow> 'p option \<Rightarrow> 'o list \<Rightarrow> 's list" where
  "collector_run pass prev [] = []"
| "collector_run pass prev (ob # obs) =
     fst (pass ob prev) # collector_run pass (Some (snd (pass ob prev))) obs"

text \<open>What a pass sees of one counter: no file, a file without it, or its value.\<close>

datatype 'c sighting = Unread | Absent | Seen 'c

fun seen :: "'c sighting \<Rightarrow> 'c option" where
  "seen (Seen c) = Some c"
| "seen _ = None"

text \<open>
  What the published rates add up to: each rate for the time since the last pass that saw the
  counter, as long as no file was without it.
\<close>

fun accounted ::
    "('o \<Rightarrow> rat) \<Rightarrow> ('o \<Rightarrow> 'c sighting) \<Rightarrow> ('s \<Rightarrow> rat option) \<Rightarrow> rat option \<Rightarrow> ('o \<times> 's) list \<Rightarrow> rat" where
  "accounted now sight rate since [] = 0"
| "accounted now sight rate since ((ob, s) # rest) =
     (case (rate s, since) of (Some r, Some t0) \<Rightarrow> r * (now ob - t0) / 1000 | _ \<Rightarrow> 0) +
     accounted now sight rate
       (case sight ob of Unread \<Rightarrow> since | Absent \<Rightarrow> None | Seen c \<Rightarrow> Some (now ob)) rest"

text \<open>
  What the counter grew by: from each sighting to the next, when time has passed and no counter
  was reset in between.
\<close>

fun growth ::
    "('o \<Rightarrow> rat) \<Rightarrow> ('o \<Rightarrow> 'c sighting) \<Rightarrow> ('c \<Rightarrow> 'c \<Rightarrow> bool) \<Rightarrow> ('c \<Rightarrow> rat) \<Rightarrow> (rat \<times> 'c) option \<Rightarrow> 'o list \<Rightarrow> rat" where
  "growth now sight grew amount held [] = 0"
| "growth now sight grew amount held (ob # obs) =
     (case sight ob of
        Unread \<Rightarrow> growth now sight grew amount held obs
      | Absent \<Rightarrow> growth now sight grew amount None obs
      | Seen c \<Rightarrow>
          (case held of
             Some (t0, c0) \<Rightarrow> if t0 < now ob \<and> grew c0 c then amount c - amount c0 else 0
           | None \<Rightarrow> 0) + growth now sight grew amount (Some (now ob, c)) obs)"

lemma growth_later:
  assumes "\<forall>ob \<in> set obs. sight ob \<noteq> Absent" and "sorted_wrt (<) (t0 # map now obs)"
    and "sorted_wrt grew (c0 # List.map_filter (\<lambda>ob. seen (sight ob)) obs)"
  shows "growth now sight grew amount (Some (t0, c0)) obs =
    amount (last (c0 # List.map_filter (\<lambda>ob. seen (sight ob)) obs)) - amount c0"
  using assms
proof (induction obs arbitrary: t0 c0)
  case Nil
  then show ?case by simp
next
  case (Cons ob obs)
  show ?case
  proof (cases "sight ob")
    case Unread
    then show ?thesis using Cons.prems Cons.IH [of t0 c0] by simp
  next
    case Absent
    then show ?thesis using Cons.prems(1) by simp
  next
    case (Seen c)
    have "growth now sight grew amount (Some (now ob, c)) obs =
        amount (last (c # List.map_filter (\<lambda>ob. seen (sight ob)) obs)) - amount c"
      by (rule Cons.IH [of "now ob" c]) (use Cons.prems Seen in simp_all)
    then show ?thesis using Cons.prems(2,3) Seen by simp
  qed
qed

lemma growth_telescopes:
  assumes "\<forall>ob \<in> set obs. sight ob \<noteq> Absent" and "sorted_wrt (<) (map now obs)"
    and "List.map_filter (\<lambda>ob. seen (sight ob)) obs = c0 # cs" and "sorted_wrt grew (c0 # cs)"
  shows "growth now sight grew amount None obs = amount (last (c0 # cs)) - amount c0"
  using assms
proof (induction obs)
  case Nil
  then show ?case by simp
next
  case (Cons ob obs)
  show ?case
  proof (cases "sight ob")
    case Unread
    then show ?thesis using Cons by simp
  next
    case Absent
    then show ?thesis using Cons.prems(1) by simp
  next
    case (Seen c)
    then have c: "c = c0" "List.map_filter (\<lambda>ob. seen (sight ob)) obs = cs" using Cons.prems(3) by simp_all
    have "growth now sight grew amount (Some (now ob, c0)) obs =
        amount (last (c0 # List.map_filter (\<lambda>ob. seen (sight ob)) obs)) - amount c0"
      by (rule growth_later) (use Cons.prems c in simp_all)
    then show ?thesis using Seen c by simp
  qed
qed

text \<open>
  The contract of a collector of rates, for one counter: a pass without a file keeps what it had,
  one whose file lacks the counter forgets it, and neither states a rate; a pass that sees the counter
  keeps it with its time.  The first sighting states no rate; a later one states the growth per second
  if time has passed and the counters grew, and no rate otherwise.
\<close>

locale rate_collector =
  fixes pass :: "'o \<Rightarrow> 'p option \<Rightarrow> 's \<times> 'p"
    and now :: "'o \<Rightarrow> rat"
    and ok :: "'o \<Rightarrow> bool"
    and sight :: "'o \<Rightarrow> 'c sighting"
    and grew :: "'c \<Rightarrow> 'c \<Rightarrow> bool"
    and amount :: "'c \<Rightarrow> rat"
    and rate :: "'s \<Rightarrow> rat option"
    and holds :: "'p \<Rightarrow> (rat \<times> 'c) option"
  assumes unread: "ok ob \<Longrightarrow> sight ob = Unread \<Longrightarrow>
      rate (fst (pass ob prev)) = None \<and> holds (snd (pass ob prev)) = Option.bind prev holds"
    and absent: "ok ob \<Longrightarrow> sight ob = Absent \<Longrightarrow>
      rate (fst (pass ob prev)) = None \<and> holds (snd (pass ob prev)) = None"
    and kept: "ok ob \<Longrightarrow> sight ob = Seen c \<Longrightarrow> holds (snd (pass ob prev)) = Some (now ob, c)"
    and first: "ok ob \<Longrightarrow> sight ob = Seen c \<Longrightarrow> Option.bind prev holds = None \<Longrightarrow>
      rate (fst (pass ob prev)) = None"
    and later: "ok ob \<Longrightarrow> sight ob = Seen c \<Longrightarrow> Option.bind prev holds = Some (t0, c0) \<Longrightarrow>
      rate (fst (pass ob prev)) =
        (if t0 < now ob \<and> grew c0 c then Some ((amount c - amount c0) / (now ob - t0) * 1000) else None)"
begin

lemma rates_account:
  "\<forall>ob \<in> set obs. ok ob \<Longrightarrow>
   accounted now sight rate (map_option fst (Option.bind prev holds)) (zip obs (collector_run pass prev obs)) =
   growth now sight grew amount (Option.bind prev holds) obs"
proof (induction obs arbitrary: prev)
  case Nil
  then show ?case by simp
next
  case (Cons ob obs)
  then have ok: "ok ob" and IH: "accounted now sight rate (map_option fst (holds p))
      (zip obs (collector_run pass (Some p) obs)) = growth now sight grew amount (holds p) obs" for p
    using Cons.IH [of "Some p"] by simp_all
  note step = IH [of "snd (pass ob prev)"]
  show ?case
  proof (cases "sight ob")
    case Unread
    with unread [OF ok, of prev] step show ?thesis by simp
  next
    case Absent
    with absent [OF ok, of prev] step show ?thesis by simp
  next
    case (Seen c)
    show ?thesis
    proof (cases "Option.bind prev holds")
      case None
      with Seen first [OF ok Seen None] kept [OF ok Seen, of prev] step show ?thesis by simp
    next
      case (Some h)
      obtain t0 c0 where h: "h = (t0, c0)" by (cases h)
      have "t0 < now ob \<Longrightarrow> (amount c - amount c0) / (now ob - t0) * 1000 * (now ob - t0) / 1000 = amount c - amount c0"
        by simp
      with Seen Some h later [OF ok Seen, of prev t0 c0] kept [OF ok Seen, of prev] step show ?thesis by simp
    qed
  qed
qed

end

section \<open>Network\<close>

record raw_net =
  rnName :: string
  rnRxBytes :: nat
  rnRxPackets :: nat
  rnRxErrors :: nat
  rnRxDropped :: nat
  rnTxBytes :: nat
  rnTxPackets :: nat
  rnTxErrors :: nat
  rnTxDropped :: nat

record net_counters =
  ncRxBytes :: nat
  ncTxBytes :: nat
  ncRxPackets :: nat
  ncTxPackets :: nat

record net_previous =
  npInterfaces :: "string \<rightharpoonup> net_counters"
  npAtMs :: rat

text \<open>One line; \<open>None\<close> is a \<open>continue\<close>.\<close>

definition net_line :: "string \<Rightarrow> raw_net option" where
  "net_line line =
     (case cut_at CHR '':'' line of
        None \<Rightarrow> None
      | Some (before, after) \<Rightarrow>
          (let name = js_trim before in
           if before = [] \<or> name = [] \<or> has_word ''Inter-'' name \<or> has_word ''face'' name then None
           else
             (case those (map safe_nat (split_spaces after)) of
                None \<Rightarrow> None
              | Some f \<Rightarrow>
                  if length f < 16 then None
                  else Some \<lparr>rnName = name, rnRxBytes = f ! 0, rnRxPackets = f ! 1, rnRxErrors = f ! 2,
                             rnRxDropped = f ! 3, rnTxBytes = f ! 8, rnTxPackets = f ! 9,
                             rnTxErrors = f ! 10, rnTxDropped = f ! 11\<rparr>)))"

definition parseNetDev :: "string \<Rightarrow> raw_net list" where
  "parseNetDev text = List.map_filter net_line (text_lines text)"

definition net_count :: "nat \<Rightarrow> string \<Rightarrow> string \<Rightarrow> nat host_metric" where
  "net_count raw path ts = h_observed raw ''1'' path ts"

definition byteRate :: "nat \<Rightarrow> nat \<Rightarrow> rat \<Rightarrow> string \<Rightarrow> string \<Rightarrow> rat host_metric" where
  "byteRate current previous intervalMs src ts =
     (let delta = int current - int previous in
      if delta < 0 then h_unavailable ''bytes/s'' src ts Net_rollback
      else if intervalMs \<le> 0 then h_unavailable ''bytes/s'' src ts Net_zero_interval
      else h_derived (of_int delta / intervalMs * 1000) ''bytes/s'' src ts)"

definition sysText :: "kfiles \<Rightarrow> string \<Rightarrow> string \<Rightarrow> string \<Rightarrow> string host_metric" where
  "sysText files path ts what =
     (case readTrimmed files path of
        Inl f \<Rightarrow> h_unavailable ''1'' path ts (Sysfs_unreadable what f)
      | Inr text \<Rightarrow>
          if text = [] then h_unavailable ''1'' path ts (Sysfs_empty what)
          else h_observed text ''1'' path ts)"

record net_interface =
  niName :: string
  niRxBytes :: "nat host_metric"
  niRxPackets :: "nat host_metric"
  niRxErrors :: "nat host_metric"
  niRxDropped :: "nat host_metric"
  niRxRate :: "rat host_metric"
  niTxBytes :: "nat host_metric"
  niTxPackets :: "nat host_metric"
  niTxErrors :: "nat host_metric"
  niTxDropped :: "nat host_metric"
  niTxRate :: "rat host_metric"
  niOperState :: "string host_metric"
  niLinkSpeed :: "nat host_metric"
  niMtu :: "nat host_metric"
  niOperStateSource :: "string host_metric"

record network_snapshot =
  nsInterfaces :: "net_interface list"
  nsPerProcess :: "nat host_metric"

definition perProcessUnavailable :: "string \<Rightarrow> string \<Rightarrow> host_reason \<Rightarrow> nat host_metric" where
  "perProcessUnavailable path ts r =
     h_unavailable ''bytes'' (path @ '' (no per-process source exists)'') ts r"

definition uint_metric :: "kfiles \<Rightarrow> string \<Rightarrow> string \<Rightarrow> string \<Rightarrow> host_reason \<Rightarrow> nat host_metric" where
  "uint_metric files unit path ts r =
     (case readUintFile files path of
        None \<Rightarrow> h_unavailable unit path ts r
      | Some n \<Rightarrow> h_observed n unit path ts)"

definition counters_of :: "raw_net \<Rightarrow> net_counters" where
  "counters_of line =
     \<lparr>ncRxBytes = rnRxBytes line, ncTxBytes = rnTxBytes line, ncRxPackets = rnRxPackets line,
      ncTxPackets = rnTxPackets line\<rparr>"

definition interface_rates ::
    "raw_net \<Rightarrow> net_counters option \<Rightarrow> rat \<Rightarrow> string \<Rightarrow> string \<Rightarrow> rat host_metric \<times> rat host_metric" where
  "interface_rates line before intervalMs netPath ts =
     (let deltaSource = netPath @ '', delta of two samples'';
          missing = (\<lambda>r. h_unavailable ''bytes/s'' deltaSource ts r) in
      case before of
        None \<Rightarrow> (missing Net_first_sample, missing Net_first_sample)
      | Some b \<Rightarrow>
          if intervalMs \<le> 0 then (missing Net_zero_interval, missing Net_zero_interval)
          else (byteRate (rnRxBytes line) (ncRxBytes b) intervalMs netPath ts,
                byteRate (rnTxBytes line) (ncTxBytes b) intervalMs netPath ts))"

definition interface_of ::
    "kfiles \<Rightarrow> kernel_paths \<Rightarrow> net_previous option \<Rightarrow> rat \<Rightarrow> string \<Rightarrow> raw_net \<Rightarrow> net_interface" where
  "interface_of files paths previous nowMs ts line =
     (let path = procPath paths [''net'', ''dev''];
          intervalMs = (case previous of None \<Rightarrow> 0 | Some p \<Rightarrow> nowMs - npAtMs p);
          netPath = path @ '' ('' @ rnName line @ '')'';
          netBase = sysPath paths [''class'', ''net'', rnName line];
          before = (case previous of None \<Rightarrow> None | Some p \<Rightarrow> npInterfaces p (rnName line));
          rates = interface_rates line before intervalMs netPath ts in
      \<lparr>niName = rnName line, niRxBytes = net_count (rnRxBytes line) netPath ts,
       niRxPackets = net_count (rnRxPackets line) netPath ts, niRxErrors = net_count (rnRxErrors line) netPath ts,
       niRxDropped = net_count (rnRxDropped line) netPath ts, niRxRate = fst rates,
       niTxBytes = net_count (rnTxBytes line) netPath ts, niTxPackets = net_count (rnTxPackets line) netPath ts,
       niTxErrors = net_count (rnTxErrors line) netPath ts, niTxDropped = net_count (rnTxDropped line) netPath ts,
       niTxRate = snd rates,
       niOperState = sysText files (netBase @ ''/operstate'') ts ''Link state as the driver reports it'',
       niLinkSpeed = uint_metric files ''Mb/s'' (netBase @ ''/speed'') ts No_link_speed,
       niMtu = uint_metric files ''bytes'' (netBase @ ''/mtu'') ts No_mtu,
       niOperStateSource = sysText files (netBase @ ''/operstate'') ts ''Source of the link state above''\<rparr>)"

text \<open>\<open>rank\<close> is the position \<open>localeCompare\<close> gives a name in the collation of the locale.\<close>

definition buildNetworkSnapshot ::
    "kfiles \<Rightarrow> kernel_paths \<Rightarrow> (string \<Rightarrow> rat) \<Rightarrow> net_previous option \<Rightarrow> rat \<Rightarrow> string \<Rightarrow>
     network_snapshot \<times> net_previous" where
  "buildNetworkSnapshot files paths rank previous nowMs ts =
     (let path = procPath paths [''net'', ''dev''] in
      case readTextFile files path of
        Inl f \<Rightarrow>
          (\<lparr>nsInterfaces = [], nsPerProcess = perProcessUnavailable path ts (Unreadable f)\<rparr>,
           (case previous of Some p \<Rightarrow> p | None \<Rightarrow> \<lparr>npInterfaces = Map.empty, npAtMs = nowMs\<rparr>))
      | Inr text \<Rightarrow>
          (let lines = parseNetDev text in
           (\<lparr>nsInterfaces = sort_key (\<lambda>i. rank (niName i)) (map (interface_of files paths previous nowMs ts) lines),
             nsPerProcess = perProcessUnavailable path ts No_per_process_bytes\<rparr>,
            \<lparr>npInterfaces = fold (\<lambda>line m. m(rnName line \<mapsto> counters_of line)) lines Map.empty, npAtMs = nowMs\<rparr>)))"

section \<open>The rates of an interface\<close>

datatype direction = Receive | Transmit

record net_pass =
  nbFiles :: kfiles
  nbNow :: rat
  nbTimestamp :: string

definition network_pass ::
    "kernel_paths \<Rightarrow> (string \<Rightarrow> rat) \<Rightarrow> net_pass \<Rightarrow> net_previous option \<Rightarrow> network_snapshot \<times> net_previous" where
  "network_pass paths rank ob previous =
     buildNetworkSnapshot (nbFiles ob) paths rank previous (nbNow ob) (nbTimestamp ob)"

definition net_amount :: "direction \<Rightarrow> net_counters \<Rightarrow> nat" where
  "net_amount d c = (case d of Receive \<Rightarrow> ncRxBytes c | Transmit \<Rightarrow> ncTxBytes c)"

text \<open>What the file of a pass says of interface \<open>x\<close>.\<close>

definition net_sight :: "kernel_paths \<Rightarrow> string \<Rightarrow> net_pass \<Rightarrow> net_counters sighting" where
  "net_sight paths x ob =
     (case readTextFile (nbFiles ob) (procPath paths [''net'', ''dev'']) of
        Inl f \<Rightarrow> Unread
      | Inr text \<Rightarrow>
          (case filter (\<lambda>l. rnName l = x) (parseNetDev text) of [] \<Rightarrow> Absent | l # _ \<Rightarrow> Seen (counters_of l)))"

definition rate_of :: "direction \<Rightarrow> net_interface \<Rightarrow> rat option" where
  "rate_of d i = hmValue (case d of Receive \<Rightarrow> niRxRate i | Transmit \<Rightarrow> niTxRate i)"

definition net_rate :: "string \<Rightarrow> direction \<Rightarrow> network_snapshot \<Rightarrow> rat option" where
  "net_rate x d s =
     (case find (\<lambda>i. niName i = x) (nsInterfaces s) of
        None \<Rightarrow> None
      | Some i \<Rightarrow> rate_of d i)"

definition net_holds :: "string \<Rightarrow> net_previous \<Rightarrow> (rat \<times> net_counters) option" where
  "net_holds x p = map_option (\<lambda>c. (npAtMs p, c)) (npInterfaces p x)"

text \<open>No file has two lines for \<open>x\<close>.\<close>

definition net_ok :: "kernel_paths \<Rightarrow> string \<Rightarrow> net_pass \<Rightarrow> bool" where
  "net_ok paths x ob =
     (case readTextFile (nbFiles ob) (procPath paths [''net'', ''dev'']) of
        Inl f \<Rightarrow> True
      | Inr text \<Rightarrow> length (filter (\<lambda>l. rnName l = x) (parseNetDev text)) \<le> 1)"

lemma find_as_filter: "find P xs = (case filter P xs of [] \<Rightarrow> None | y # ys \<Rightarrow> Some y)"
  by (induction xs) simp_all

lemma find_sorted:
  assumes "filter (\<lambda>l. key l = x) ls = [l]" and "\<And>l. name (g l) = key l"
  shows "find (\<lambda>i. name i = x) (sort_key r (map g ls)) = Some (g l)"
  using assms by (simp add: find_as_filter filter_sort filter_map comp_def)

lemma fold_counters:
  "fold (\<lambda>l m. m(key l \<mapsto> val l)) ls m x =
     (case filter (\<lambda>l. key l = x) ls of [] \<Rightarrow> m x | y # ys \<Rightarrow> Some (val (last (y # ys))))"
proof (induction ls arbitrary: m)
  case (Cons a ls)
  then show ?case by (auto split: list.splits)
qed simp

lemma interface_name [simp]: "niName (interface_of files paths previous nowMs ts line) = rnName line"
  by (simp add: interface_of_def Let_def)

lemma length_one: "length (x # xs) \<le> Suc 0 \<Longrightarrow> xs = []"
  by simp

definition net_grew :: "direction \<Rightarrow> net_counters \<Rightarrow> net_counters \<Rightarrow> bool" where
  "net_grew d b c \<longleftrightarrow> net_amount d b \<le> net_amount d c"

lemma byteRate_value:
  "hmValue (byteRate c b iv src ts) = (if 0 < iv \<and> b \<le> c then Some ((of_nat c - of_nat b) / iv * 1000) else None)"
  by (simp add: byteRate_def Let_def)

lemma rate_first:
  assumes "\<And>p. previous = Some p \<Longrightarrow> npInterfaces p (rnName l) = None"
  shows "rate_of d (interface_of files paths previous nowMs ts l) = None"
proof -
  have "(case previous of None \<Rightarrow> None | Some p \<Rightarrow> npInterfaces p (rnName l)) = None"
    using assms by (cases previous) simp_all
  then show ?thesis
    unfolding rate_of_def interface_of_def Let_def net_interface.simps interface_rates_def by (cases d) simp_all
qed

lemma rate_later:
  assumes "npInterfaces p (rnName l) = Some b"
  shows "rate_of d (interface_of files paths (Some p) nowMs ts l) =
    (if npAtMs p < nowMs \<and> net_grew d b (counters_of l)
     then Some ((of_nat (net_amount d (counters_of l)) - of_nat (net_amount d b)) / (nowMs - npAtMs p) * 1000) else None)"
  unfolding rate_of_def interface_of_def Let_def net_interface.simps interface_rates_def option.case assms
  by (cases d) (simp_all add: byteRate_value net_amount_def net_grew_def counters_of_def)

text \<open>A pass over a file that lists \<open>x\<close>, over one that does not, and over none.\<close>

lemma network_pass_seen:
  assumes "net_ok paths x ob" and "net_sight paths x ob = Seen c"
  obtains l where "counters_of l = c" "rnName l = x"
    and "find (\<lambda>i. niName i = x) (nsInterfaces (fst (network_pass paths rank ob previous))) =
      Some (interface_of (nbFiles ob) paths previous (nbNow ob) (nbTimestamp ob) l)"
    and "net_holds x (snd (network_pass paths rank ob previous)) = Some (nbNow ob, c)"
proof -
  obtain raw where t: "readTextFile (nbFiles ob) (procPath paths [''net'', ''dev'']) = Inr raw"
    using assms(2) by (auto simp: net_sight_def split: sum.splits)
  obtain l where l: "filter (\<lambda>l. rnName l = x) (parseNetDev raw) = [l]"
    using assms t length_one by (auto simp: net_ok_def net_sight_def split: list.splits)
  then have c: "counters_of l = c" using assms(2) t by (simp add: net_sight_def)
  have "l \<in> set (filter (\<lambda>l. rnName l = x) (parseNetDev raw))" unfolding l by simp
  then have name: "rnName l = x" by simp
  have "find (\<lambda>i. niName i = x) (nsInterfaces (fst (network_pass paths rank ob previous))) =
      Some (interface_of (nbFiles ob) paths previous (nbNow ob) (nbTimestamp ob) l)"
    unfolding network_pass_def buildNetworkSnapshot_def t sum.case Let_def fst_conv network_snapshot.simps
    by (rule find_sorted [where key = rnName]) (simp_all add: l)
  moreover have "net_holds x (snd (network_pass paths rank ob previous)) = Some (nbNow ob, c)"
    unfolding network_pass_def buildNetworkSnapshot_def t sum.case Let_def snd_conv net_holds_def net_previous.simps
    by (simp add: fold_counters l c)
  ultimately show thesis by (rule that [OF c name])
qed

lemma network_pass_absent:
  assumes "net_sight paths x ob = Absent"
  shows "net_rate x d (fst (network_pass paths rank ob previous)) = None \<and>
    net_holds x (snd (network_pass paths rank ob previous)) = None"
proof -
  obtain raw where t: "readTextFile (nbFiles ob) (procPath paths [''net'', ''dev'']) = Inr raw"
    and l: "filter (\<lambda>l. rnName l = x) (parseNetDev raw) = []"
    using assms by (auto simp: net_sight_def split: sum.splits list.splits)
  then show ?thesis
    by (simp add: network_pass_def buildNetworkSnapshot_def net_rate_def net_holds_def Let_def find_as_filter
        filter_sort filter_map comp_def fold_counters l)
qed

lemma network_pass_unread:
  assumes "net_sight paths x ob = Unread"
  shows "net_rate x d (fst (network_pass paths rank ob previous)) = None \<and>
    net_holds x (snd (network_pass paths rank ob previous)) = Option.bind previous (net_holds x)"
proof -
  obtain f where "readTextFile (nbFiles ob) (procPath paths [''net'', ''dev'']) = Inl f"
    using assms by (auto simp: net_sight_def split: sum.splits list.splits)
  then show ?thesis
    by (cases previous) (simp_all add: network_pass_def buildNetworkSnapshot_def net_rate_def net_holds_def)
qed

interpretation net: rate_collector "network_pass paths rank" nbNow "net_ok paths x" "net_sight paths x"
    "net_grew d" "\<lambda>c. of_nat (net_amount d c)" "net_rate x d" "net_holds x"
  for paths rank x d
proof
  fix ob prev
  assume "net_sight paths x ob = Unread"
  then show "net_rate x d (fst (network_pass paths rank ob prev)) = None \<and>
      net_holds x (snd (network_pass paths rank ob prev)) = Option.bind prev (net_holds x)"
    by (rule network_pass_unread)
next
  fix ob prev
  assume "net_sight paths x ob = Absent"
  then show "net_rate x d (fst (network_pass paths rank ob prev)) = None \<and>
      net_holds x (snd (network_pass paths rank ob prev)) = None"
    by (rule network_pass_absent)
next
  fix ob c prev
  assume a: "net_ok paths x ob" "net_sight paths x ob = Seen c"
  show "net_holds x (snd (network_pass paths rank ob prev)) = Some (nbNow ob, c)"
    by (rule network_pass_seen [OF a, where rank = rank and previous = prev])
  obtain l where l: "counters_of l = c" "rnName l = x"
    "find (\<lambda>i. niName i = x) (nsInterfaces (fst (network_pass paths rank ob prev))) =
      Some (interface_of (nbFiles ob) paths prev (nbNow ob) (nbTimestamp ob) l)"
    by (rule network_pass_seen [OF a, where rank = rank and previous = prev])
  then have r: "net_rate x d (fst (network_pass paths rank ob prev)) =
      rate_of d (interface_of (nbFiles ob) paths prev (nbNow ob) (nbTimestamp ob) l)"
    by (simp add: net_rate_def)
  {
    assume none: "Option.bind prev (net_holds x) = None"
    show "net_rate x d (fst (network_pass paths rank ob prev)) = None"
      unfolding r by (rule rate_first) (use none l(2) in \<open>simp add: net_holds_def\<close>)
  }
  fix t0 c0
  assume "Option.bind prev (net_holds x) = Some (t0, c0)"
  then obtain p where "prev = Some p" "npAtMs p = t0" "npInterfaces p (rnName l) = Some c0"
    using l(2) by (cases prev) (auto simp: net_holds_def)
  then show "net_rate x d (fst (network_pass paths rank ob prev)) =
      (if t0 < nbNow ob \<and> net_grew d c0 c
       then Some ((of_nat (net_amount d c) - of_nat (net_amount d c0)) / (nbNow ob - t0) * 1000) else None)"
    unfolding r using rate_later [of p l c0] l(1) by simp
qed

text \<open>C25: The published rates of an interface add up to its traffic. In any run of passes whose files list
  the interface at most once, the sum of each published rate times the seconds since the interface was
  last seen is the growth of its counter from each sighting to the next, leaving out exactly the steps
  where the counter fell or no time passed.  So when times rise, no readable file lacks the interface and
  the counter never falls, it is the growth from the first sighting to the last; unreadable files in
  between lose nothing.  In each direction, and in exact arithmetic.\<close>
theorem network_rates_integrate:
  assumes "\<forall>ob \<in> set obs. net_ok paths x ob"
    and "published = accounted nbNow (net_sight paths x) (net_rate x d) None
      (zip obs (collector_run (network_pass paths rank) None obs))"
  shows "published = growth nbNow (net_sight paths x) (net_grew d) (\<lambda>c. of_nat (net_amount d c)) None obs \<and>
    (\<forall>c0 cs. (\<forall>ob \<in> set obs. net_sight paths x ob \<noteq> Absent) \<and> sorted_wrt (<) (map nbNow obs) \<and>
       List.map_filter (\<lambda>ob. seen (net_sight paths x ob)) obs = c0 # cs \<and> sorted_wrt (net_grew d) (c0 # cs) \<longrightarrow>
       published = of_nat (net_amount d (last (c0 # cs))) - of_nat (net_amount d c0))"
proof -
  have p: "published = growth nbNow (net_sight paths x) (net_grew d) (\<lambda>c. of_nat (net_amount d c)) None obs"
    using net.rates_account [OF assms(1), where prev = None and rank = rank and d = d] assms(2) by simp
  show ?thesis
    unfolding p using growth_telescopes [of obs "net_sight paths x" nbNow _ _ "net_grew d"
      "\<lambda>c. of_nat (net_amount d c)"] by blast
qed

text \<open>An interface that received 3000 bytes between the first and the third pass; the second failed.\<close>

definition net_text :: "string \<Rightarrow> string" where
  "net_text rx =
     ''Inter-|   Receive  |  Transmit'' @ [CHR 0x0A] @ '' eth0: '' @ rx @ '' 1 0 0 0 0 0 0 50 1 0 0 0 0 0 0''"

definition net_file :: "string \<Rightarrow> kfiles" where
  "net_file rx = kernel_file ''/proc/net/dev'' (net_text rx)"

definition eth_passes :: "net_pass list" where
  "eth_passes =
     [\<lparr>nbFiles = net_file ''1000'', nbNow = 0, nbTimestamp = ''t''\<rparr>,
      \<lparr>nbFiles = (\<lambda>p. Inl EACCES), nbNow = 1000, nbTimestamp = ''t''\<rparr>,
      \<lparr>nbFiles = net_file ''4000'', nbNow = 2000, nbTimestamp = ''t''\<rparr>]"

definition eth_line :: "nat \<Rightarrow> raw_net" where
  "eth_line n =
     \<lparr>rnName = ''eth0'', rnRxBytes = n, rnRxPackets = 1, rnRxErrors = 0, rnRxDropped = 0, rnTxBytes = 50,
      rnTxPackets = 1, rnTxErrors = 0, rnTxDropped = 0\<rparr>"

lemma eth_parsed:
  "parseNetDev (net_text ''1000'') = [eth_line 1000]"
  "parseNetDev (net_text ''4000'') = [eth_line 4000]"
  by (simp_all add: net_text_def eth_line_def parseNetDev_def text_lines_def net_line_def cut_at_def
      map_filter_simps js_trim_def trim_start_def
      trim_end_def split_spaces_def js_space_def safe_nat_def all_digits_def is_digit_def decimal_value_def
      digit_value_def MAX_SAFE_INTEGER_def Let_def)

lemma eth_read:
  "readTextFile (net_file rx) (procPath DEFAULT_KERNEL_PATHS [''net'', ''dev'']) = Inr (net_text rx)"
  by (simp add: readTextFile_def net_file_def procPath_def DEFAULT_KERNEL_PATHS_def kernel_file_def)

lemma refused_read: "readTextFile (\<lambda>p. Inl EACCES) path = Inl \<lparr>rfKind = Permission, rfPath = path, rfCode = EACCES\<rparr>"
  by (simp add: readTextFile_def)

lemma eth_sightings:
  "List.map_filter (\<lambda>ob. seen (net_sight DEFAULT_KERNEL_PATHS ''eth0'' ob)) eth_passes =
     [counters_of (eth_line 1000), counters_of (eth_line 4000)]"
  "\<forall>ob \<in> set eth_passes. net_sight DEFAULT_KERNEL_PATHS ''eth0'' ob \<noteq> Absent"
  by (simp_all add: eth_passes_def map_filter_simps net_sight_def eth_read refused_read eth_parsed)
    (simp_all add: eth_line_def)

lemma eth_ok: "\<forall>ob \<in> set eth_passes. net_ok DEFAULT_KERNEL_PATHS ''eth0'' ob"
  by (simp add: eth_passes_def net_ok_def eth_read refused_read eth_parsed)

theorem network_rates_integrate_witness:
  "accounted nbNow (net_sight DEFAULT_KERNEL_PATHS ''eth0'') (net_rate ''eth0'' Receive) None
     (zip eth_passes (collector_run (network_pass DEFAULT_KERNEL_PATHS (\<lambda>n. 0)) None eth_passes)) = 3000"
proof -
  have "sorted_wrt (<) (map nbNow eth_passes)" by (simp add: eth_passes_def)
  moreover have "sorted_wrt (net_grew Receive) [counters_of (eth_line 1000), counters_of (eth_line 4000)]"
    by (simp add: net_grew_def net_amount_def counters_of_def eth_line_def)
  ultimately have "accounted nbNow (net_sight DEFAULT_KERNEL_PATHS ''eth0'') (net_rate ''eth0'' Receive) None
     (zip eth_passes (collector_run (network_pass DEFAULT_KERNEL_PATHS (\<lambda>n. 0)) None eth_passes)) =
     of_nat (net_amount Receive (last [counters_of (eth_line 1000), counters_of (eth_line 4000)])) -
     of_nat (net_amount Receive (counters_of (eth_line 1000)))"
    using network_rates_integrate [OF eth_ok refl, of Receive "\<lambda>n. 0"] eth_sightings by blast
  then show ?thesis by (simp add: net_amount_def counters_of_def eth_line_def)
qed

text \<open>Two gaps. The names that are dropped to skip the header of the file, whose lines have no colon and
  are skipped anyway, drop every real interface whose name contains \<^verbatim>\<open>face\<close>, whatever its counters;
  and the source of a link state is the link state itself.\<close>

lemma named_face_dropped:
  assumes "\<forall>c \<in> set name. \<not> js_space c \<and> c \<noteq> CHR '':''" and "has_word ''face'' name"
  shows "net_line (name @ CHR '':'' # counters) = None"
proof -
  have "CHR '':'' \<notin> set name" using assms(1) by blast
  moreover have "js_trim name = name" using assms(1) by (intro trim_no_space) blast
  ultimately show ?thesis using assms(2) by (simp add: net_line_def cut_at_found Let_def)
qed

theorem network_gaps:
  "net_line (''surface0:'' @ counters) = None \<and>
   hmValue (niOperStateSource (interface_of files paths previous nowMs ts l)) =
     hmValue (niOperState (interface_of files paths previous nowMs ts l))"
proof
  show "net_line (''surface0:'' @ counters) = None"
    using named_face_dropped [of "''surface0''" counters] by (simp add: js_space_def)
  show "hmValue (niOperStateSource (interface_of files paths previous nowMs ts l)) =
     hmValue (niOperState (interface_of files paths previous nowMs ts l))"
    unfolding interface_of_def Let_def net_interface.simps sysText_def
    by (simp split: sum.split)
qed

end
