(* ===== verification/Host_Disk.thy ===== *)
theory Host_Disk
  imports Host_Devices
begin

text \<open>
  \<^verbatim>\<open>web/backend/src/telemetry/system/disk.ts\<close>: block devices with their counters and rates, and the
  capacity of file systems.  The answers of \<^verbatim>\<open>statfs(2)\<close> are the argument \<open>statfs\<close>.
\<close>

section \<open>Lines of diskstats\<close>

record raw_disk =
  rdMajor :: nat
  rdMinor :: nat
  rdName :: string
  rdReads :: nat
  rdSectorsRead :: nat
  rdIoMillis :: nat
  rdWrites :: nat
  rdSectorsWritten :: nat
  rdInFlight :: nat

text \<open>\<open>/^[\w.:-]+$/\<close>.\<close>

definition device_char :: "char \<Rightarrow> bool" where
  "device_char c \<longleftrightarrow>
     is_digit c \<or> c \<in> set ''abcdefghijklmnopqrstuvwxyzABCDEFGHIJKLMNOPQRSTUVWXYZ_.:-''"

definition NUMERIC_INDEXES :: "nat list" where
  "NUMERIC_INDEXES = [0, 1, 3, 4, 5, 6, 7, 8, 9, 10, 11, 12]"

definition parseDiskstatsLine :: "string \<Rightarrow> raw_disk option" where
  "parseDiskstatsLine line =
     (let f = split_spaces line in
      if length f < 13 then None
      else if f ! 2 = [] \<or> \<not> list_all device_char (f ! 2) then None
      else
        (case those (map (\<lambda>i. safe_nat (f ! i)) NUMERIC_INDEXES) of
           None \<Rightarrow> None
         | Some nums \<Rightarrow>
             Some \<lparr>rdMajor = nums ! 0, rdMinor = nums ! 1, rdName = f ! 2, rdReads = nums ! 2,
                   rdSectorsRead = nums ! 4, rdIoMillis = nums ! 11, rdWrites = nums ! 6,
                   rdSectorsWritten = nums ! 8, rdInFlight = nums ! 10\<rparr>))"

definition parseDiskstats :: "string \<Rightarrow> raw_disk list" where
  "parseDiskstats text =
     List.map_filter parseDiskstatsLine (filter (\<lambda>line. js_trim line \<noteq> []) (text_lines text))"

definition pseudo_device :: "string \<Rightarrow> bool" where
  "pseudo_device name \<longleftrightarrow>
     list_ex (\<lambda>p. prefix p name \<and> list_all is_digit (drop (length p) name))
       [''loop'', ''ram'', ''zram'', ''dm-'', ''md'', ''sr'', ''fd'']"

section \<open>Devices\<close>

definition SECTOR_BYTES :: nat where
  "SECTOR_BYTES = 512"

record disk_counters =
  dcName :: string
  dcReads :: nat
  dcWrites :: nat
  dcSectorsRead :: nat
  dcSectorsWritten :: nat
  dcIoMillis :: nat

record disk_previous =
  dpDevices :: "string \<rightharpoonup> disk_counters"
  dpAtMs :: rat

definition disk_rate :: "int \<Rightarrow> int \<Rightarrow> rat \<Rightarrow> string \<Rightarrow> string \<Rightarrow> string \<Rightarrow> rat host_metric" where
  "disk_rate current previous intervalMs unit src ts =
     (let delta = current - previous in
      if delta < 0 then h_unavailable unit src ts Disk_rollback
      else if intervalMs \<le> 0 then h_unavailable unit src ts Disk_zero_interval
      else h_derived (of_int delta / intervalMs * 1000) unit src ts)"

definition disk_count :: "nat \<Rightarrow> string \<Rightarrow> string \<Rightarrow> nat host_metric" where
  "disk_count raw path ts = h_observed raw ''1'' path ts"

definition disk_bytes :: "nat \<Rightarrow> string \<Rightarrow> string \<Rightarrow> nat host_metric" where
  "disk_bytes sectors path ts = h_derived (sectors * SECTOR_BYTES) ''bytes'' path ts"

record disk_rates =
  drtReadBytes :: "rat host_metric"
  drtWriteBytes :: "rat host_metric"
  drtReads :: "rat host_metric"
  drtWrites :: "rat host_metric"
  drtBusy :: "rat host_metric"

record disk_device =
  ddDevice :: string
  ddName :: string
  ddReadsCompleted :: "nat host_metric"
  ddWritesCompleted :: "nat host_metric"
  ddSectorsRead :: "nat host_metric"
  ddSectorsWritten :: "nat host_metric"
  ddReadBytes :: "nat host_metric"
  ddWriteBytes :: "nat host_metric"
  ddIoMillis :: "nat host_metric"
  ddInFlight :: "nat host_metric"
  ddRates :: disk_rates

definition disk_counters_of :: "raw_disk \<Rightarrow> disk_counters" where
  "disk_counters_of line =
     \<lparr>dcName = rdName line, dcReads = rdReads line, dcWrites = rdWrites line, dcSectorsRead = rdSectorsRead line,
      dcSectorsWritten = rdSectorsWritten line, dcIoMillis = rdIoMillis line\<rparr>"

text \<open>All five rates missing: the four of them in \<^verbatim>\<open>bytes/s\<close>, as the code has it.\<close>

definition rates_missing :: "string \<Rightarrow> string \<Rightarrow> host_reason \<Rightarrow> disk_rates" where
  "rates_missing deltaSource ts r =
     (let missing = h_unavailable ''bytes/s'' deltaSource ts r in
      \<lparr>drtReadBytes = missing, drtWriteBytes = missing, drtReads = missing, drtWrites = missing,
       drtBusy = h_unavailable ''%'' deltaSource ts r\<rparr>)"

definition disk_rates_of ::
    "raw_disk \<Rightarrow> disk_counters option \<Rightarrow> rat \<Rightarrow> string \<Rightarrow> string \<Rightarrow> disk_rates" where
  "disk_rates_of line before intervalMs devicePath ts =
     (let deltaSource = devicePath @ '', delta of two samples'' in
      case before of
        None \<Rightarrow> rates_missing deltaSource ts Disk_first_sample
      | Some b \<Rightarrow>
          (let hasDelta = intervalMs > 0;
               readRollback = (hasDelta \<and> dcSectorsRead b > rdSectorsRead line);
               writeRollback = (hasDelta \<and> dcSectorsWritten b > rdSectorsWritten line);
               ioRollback = (hasDelta \<and> dcIoMillis b > rdIoMillis line) in
           if readRollback \<or> writeRollback \<or> ioRollback then rates_missing deltaSource ts Disk_rollback
           else if \<not> hasDelta then rates_missing deltaSource ts Disk_zero_interval
           else
             (let dSectorsRead = int (rdSectorsRead line) - int (dcSectorsRead b);
                  dSectorsWritten = int (rdSectorsWritten line) - int (dcSectorsWritten b);
                  dReadOps = int (rdReads line) - int (dcReads b);
                  dWriteOps = int (rdWrites line) - int (dcWrites b);
                  dIoMillis = int (rdIoMillis line) - int (dcIoMillis b) in
              \<lparr>drtReadBytes = disk_rate (dSectorsRead * int SECTOR_BYTES) 0 intervalMs ''bytes/s'' deltaSource ts,
               drtWriteBytes = disk_rate (dSectorsWritten * int SECTOR_BYTES) 0 intervalMs ''bytes/s'' deltaSource ts,
               drtReads = disk_rate dReadOps 0 intervalMs ''1/s'' deltaSource ts,
               drtWrites = disk_rate dWriteOps 0 intervalMs ''1/s'' deltaSource ts,
               drtBusy = h_derived (min 100 (of_int dIoMillis / intervalMs * 100)) ''%'' deltaSource ts\<rparr>)))"

definition device_of ::
    "disk_previous option \<Rightarrow> string \<Rightarrow> rat \<Rightarrow> string \<Rightarrow> raw_disk \<Rightarrow> disk_device" where
  "device_of previous path nowMs ts line =
     (let devicePath = path @ '' ('' @ rdName line @ '')'';
          before = (case previous of None \<Rightarrow> None | Some p \<Rightarrow> dpDevices p (rdName line));
          intervalMs = (case previous of None \<Rightarrow> 0 | Some p \<Rightarrow> nowMs - dpAtMs p) in
      \<lparr>ddDevice = nat_text (rdMajor line) @ CHR '':'' # nat_text (rdMinor line), ddName = rdName line,
       ddReadsCompleted = disk_count (rdReads line) devicePath ts,
       ddWritesCompleted = disk_count (rdWrites line) devicePath ts,
       ddSectorsRead = disk_count (rdSectorsRead line) devicePath ts,
       ddSectorsWritten = disk_count (rdSectorsWritten line) devicePath ts,
       ddReadBytes = disk_bytes (rdSectorsRead line) devicePath ts,
       ddWriteBytes = disk_bytes (rdSectorsWritten line) devicePath ts,
       ddIoMillis = disk_count (rdIoMillis line) devicePath ts,
       ddInFlight = disk_count (rdInFlight line) devicePath ts,
       ddRates = disk_rates_of line before intervalMs devicePath ts\<rparr>)"

definition buildDevices ::
    "raw_disk list \<Rightarrow> disk_previous option \<Rightarrow> string \<Rightarrow> rat \<Rightarrow> string \<Rightarrow>
     disk_device list \<times> (string \<rightharpoonup> disk_counters)" where
  "buildDevices lines previous path nowMs ts =
     (let listed = filter (\<lambda>l. \<not> pseudo_device (rdName l)) lines in
      (map (device_of previous path nowMs ts) listed,
       fold (\<lambda>l m. m(rdName l \<mapsto> disk_counters_of l)) listed Map.empty))"

section \<open>The mount table and the capacity of file systems\<close>

record mount_entry =
  meMountPoint :: string
  meDevice :: string
  meFilesystemType :: string

text \<open>\<open>s.indexOf(w)\<close> as the text before and after the first occurrence of \<open>w\<close>.\<close>

fun cut_word :: "string \<Rightarrow> string \<Rightarrow> (string \<times> string) option" where
  "cut_word w [] = (if w = [] then Some ([], []) else None)"
| "cut_word w (c # cs) =
     (if prefix w (c # cs) then Some ([], drop (length w) (c # cs))
      else map_option (\<lambda>(a, b). (c # a, b)) (cut_word w cs))"

definition octal_digit :: "char \<Rightarrow> bool" where
  "octal_digit c \<longleftrightarrow> c \<in> set ''01234567''"

text \<open>The kernel escapes bytes, so three octal digits are a character below 256.\<close>

fun unescapeMountField :: "string \<Rightarrow> string" where
  "unescapeMountField (c # x # y # z # rest) =
     (if c = CHR 0x5C \<and> octal_digit x \<and> octal_digit y \<and> octal_digit z
      then char_of (64 * digit_value x + 8 * digit_value y + digit_value z) # unescapeMountField rest
      else c # unescapeMountField (x # y # z # rest))"
| "unescapeMountField s = s"

definition mount_line :: "string \<Rightarrow> (string \<rightharpoonup> mount_entry) \<Rightarrow> (string \<rightharpoonup> mount_entry)" where
  "mount_line line out =
     (if js_trim line = [] then out
      else
        (case cut_word '' - '' line of
           None \<Rightarrow> out
         | Some (before, after) \<Rightarrow>
             (let head = split_ws before; tail = split_ws after in
              if length head < 5 \<or> length tail < 2 then out
              else out(head ! 4 \<mapsto> \<lparr>meMountPoint = unescapeMountField (head ! 4), meDevice = tail ! 1,
                                   meFilesystemType = tail ! 0\<rparr>))))"

definition parseMountInfo :: "string \<Rightarrow> (string \<rightharpoonup> mount_entry)" where
  "parseMountInfo text = fold mount_line (text_lines text) Map.empty"

definition readMountInfo :: "kfiles \<Rightarrow> kernel_paths \<Rightarrow> host_reason + (string \<rightharpoonup> mount_entry)" where
  "readMountInfo files paths =
     (case readTextFile files (procPath paths [''self'', ''mountinfo'']) of
        Inl f \<Rightarrow> Inl (Unreadable f)
      | Inr text \<Rightarrow> Inr (parseMountInfo text))"

record fs_stats =
  fsBsize :: nat
  fsBlocks :: nat
  fsBfree :: nat
  fsBavail :: nat
  fsFiles :: nat
  fsFfree :: nat

record filesystem_capacity =
  fcMountPoint :: string
  fcDevice :: "string host_metric"
  fcFilesystemType :: "string host_metric"
  fcTotalBytes :: "nat host_metric"
  fcUsedBytes :: "int host_metric"
  fcFreeBytes :: "nat host_metric"
  fcAvailableToUser :: "nat host_metric"
  fcUsedPercent :: "rat host_metric"
  fcTotalInodes :: "nat host_metric"
  fcFreeInodes :: "nat host_metric"

definition fs_unavailable :: "string \<Rightarrow> string \<Rightarrow> errno \<Rightarrow> filesystem_capacity" where
  "fs_unavailable mountPoint ts code =
     (let r = (if code = ENOENT then Not_mounted mountPoint else Statfs_failed mountPoint code);
          bad = h_unavailable ''bytes'' mountPoint ts r; badText = h_unavailable ''1'' mountPoint ts r in
      \<lparr>fcMountPoint = mountPoint, fcDevice = badText, fcFilesystemType = badText, fcTotalBytes = bad,
       fcUsedBytes = h_unavailable ''bytes'' mountPoint ts r, fcFreeBytes = bad, fcAvailableToUser = bad,
       fcUsedPercent = h_unavailable ''%'' mountPoint ts r, fcTotalInodes = bad, fcFreeInodes = bad\<rparr>)"

text \<open>The device or the type of an entry, or why the mount table does not name it.\<close>

definition mount_text ::
    "host_reason + (string \<rightharpoonup> mount_entry) \<Rightarrow> (mount_entry \<Rightarrow> string) \<Rightarrow> string \<Rightarrow> string \<Rightarrow> string \<Rightarrow>
     string host_metric" where
  "mount_text info get path mountPoint ts =
     (case info of
        Inl r \<Rightarrow> h_unavailable ''1'' path ts r
      | Inr entries \<Rightarrow>
          (case entries mountPoint of
             None \<Rightarrow> h_unavailable ''1'' path ts (Mount_unlisted mountPoint)
           | Some e \<Rightarrow> h_observed (get e) ''1'' (path @ '' field 5, and statfs(2) on '' @ mountPoint) ts))"

definition filesystem_of ::
    "host_reason + (string \<rightharpoonup> mount_entry) \<Rightarrow> (string \<Rightarrow> errno + fs_stats) \<Rightarrow> kernel_paths \<Rightarrow> string \<Rightarrow>
     string \<Rightarrow> filesystem_capacity" where
  "filesystem_of info statfs paths ts mountPoint =
     (case statfs mountPoint of
        Inl code \<Rightarrow> fs_unavailable mountPoint ts code
      | Inr st \<Rightarrow>
          (let tot = fsBlocks st * fsBsize st; free = fsBfree st * fsBsize st;
               used = int tot - int free; path = procPath paths [''self'', ''mountinfo''];
               src = ''statfs(2) on '' @ mountPoint in
           \<lparr>fcMountPoint = mountPoint, fcDevice = mount_text info meDevice path mountPoint ts,
            fcFilesystemType = mount_text info meFilesystemType path mountPoint ts,
            fcTotalBytes = h_observed tot ''bytes'' src ts, fcUsedBytes = h_derived used ''bytes'' src ts,
            fcFreeBytes = h_observed free ''bytes'' src ts,
            fcAvailableToUser = h_observed (fsBavail st * fsBsize st) ''bytes'' src ts,
            fcUsedPercent = h_derived (if tot = 0 then 0 else of_int used / of_nat tot * 100) ''%'' src ts,
            fcTotalInodes = h_observed (fsFiles st) ''1'' src ts,
            fcFreeInodes = h_observed (fsFfree st) ''1'' src ts\<rparr>))"

definition buildFilesystems ::
    "kfiles \<Rightarrow> (string \<Rightarrow> errno + fs_stats) \<Rightarrow> kernel_paths \<Rightarrow> string list \<Rightarrow> string \<Rightarrow> filesystem_capacity list" where
  "buildFilesystems files statfs paths mountPoints ts =
     (let info = readMountInfo files paths in map (filesystem_of info statfs paths ts) mountPoints)"

record disk_snapshot =
  dsDevices :: "disk_device list"
  dsFilesystems :: "filesystem_capacity list"

definition buildDiskSnapshot ::
    "kfiles \<Rightarrow> (string \<Rightarrow> errno + fs_stats) \<Rightarrow> kernel_paths \<Rightarrow> disk_previous option \<Rightarrow> string list \<Rightarrow> rat \<Rightarrow>
     string \<Rightarrow> disk_snapshot \<times> disk_previous" where
  "buildDiskSnapshot files statfs paths previous mountPoints nowMs ts =
     (let path = procPath paths [''diskstats''] in
      case readTextFile files path of
        Inl f \<Rightarrow>
          (\<lparr>dsDevices = [], dsFilesystems = buildFilesystems files statfs paths mountPoints ts\<rparr>,
           (case previous of Some p \<Rightarrow> p | None \<Rightarrow> \<lparr>dpDevices = Map.empty, dpAtMs = nowMs\<rparr>))
      | Inr text \<Rightarrow>
          (let built = buildDevices (parseDiskstats text) previous path nowMs ts in
           (\<lparr>dsDevices = fst built, dsFilesystems = buildFilesystems files statfs paths mountPoints ts\<rparr>,
            \<lparr>dpDevices = snd built, dpAtMs = nowMs\<rparr>)))"

definition DEFAULT_MOUNT_POINTS :: "string list" where
  "DEFAULT_MOUNT_POINTS = [''/'']"

definition isCoveredMount :: "string \<Rightarrow> string list \<Rightarrow> bool" where
  "isCoveredMount mountPoint covered = list_ex (\<lambda>c. c = mountPoint) covered"

section \<open>The rates of a device\<close>

datatype disk_flow = Bytes_read | Bytes_written

record disk_obs =
  dbFiles :: kfiles
  dbStatfs :: "string \<Rightarrow> errno + fs_stats"
  dbNow :: rat
  dbTimestamp :: string

definition disk_pass ::
    "kernel_paths \<Rightarrow> string list \<Rightarrow> disk_obs \<Rightarrow> disk_previous option \<Rightarrow> disk_snapshot \<times> disk_previous" where
  "disk_pass paths mountPoints ob previous =
     buildDiskSnapshot (dbFiles ob) (dbStatfs ob) paths previous mountPoints (dbNow ob) (dbTimestamp ob)"

text \<open>The lines of device \<open>x\<close> that a file lists and the collector does not leave out.\<close>

definition lines_of :: "string \<Rightarrow> string \<Rightarrow> raw_disk list" where
  "lines_of text x = filter (\<lambda>l. rdName l = x) (filter (\<lambda>l. \<not> pseudo_device (rdName l)) (parseDiskstats text))"

definition disk_sight :: "kernel_paths \<Rightarrow> string \<Rightarrow> disk_obs \<Rightarrow> disk_counters sighting" where
  "disk_sight paths x ob =
     (case readTextFile (dbFiles ob) (procPath paths [''diskstats'']) of
        Inl f \<Rightarrow> Unread
      | Inr text \<Rightarrow> (case lines_of text x of [] \<Rightarrow> Absent | l # _ \<Rightarrow> Seen (disk_counters_of l)))"

text \<open>No file has two lines for \<open>x\<close>.\<close>

definition disk_ok :: "kernel_paths \<Rightarrow> string \<Rightarrow> disk_obs \<Rightarrow> bool" where
  "disk_ok paths x ob =
     (case readTextFile (dbFiles ob) (procPath paths [''diskstats'']) of
        Inl f \<Rightarrow> True | Inr text \<Rightarrow> length (lines_of text x) \<le> 1)"

definition flow_of :: "disk_flow \<Rightarrow> disk_device \<Rightarrow> rat option" where
  "flow_of d dev = hmValue (case d of Bytes_read \<Rightarrow> drtReadBytes (ddRates dev) | Bytes_written \<Rightarrow> drtWriteBytes (ddRates dev))"

definition disk_flow_rate :: "string \<Rightarrow> disk_flow \<Rightarrow> disk_snapshot \<Rightarrow> rat option" where
  "disk_flow_rate x d s = Option.bind (find (\<lambda>i. ddName i = x) (dsDevices s)) (flow_of d)"

definition disk_holds :: "string \<Rightarrow> disk_previous \<Rightarrow> (rat \<times> disk_counters) option" where
  "disk_holds x p = map_option (\<lambda>c. (dpAtMs p, c)) (dpDevices p x)"

definition disk_amount :: "disk_flow \<Rightarrow> disk_counters \<Rightarrow> nat" where
  "disk_amount d c = SECTOR_BYTES * (case d of Bytes_read \<Rightarrow> dcSectorsRead c | Bytes_written \<Rightarrow> dcSectorsWritten c)"

definition disk_grew :: "disk_counters \<Rightarrow> disk_counters \<Rightarrow> bool" where
  "disk_grew b c \<longleftrightarrow> dcSectorsRead b \<le> dcSectorsRead c \<and> dcSectorsWritten b \<le> dcSectorsWritten c \<and>
     dcIoMillis b \<le> dcIoMillis c"

lemma device_name [simp]: "ddName (device_of previous path nowMs ts line) = rdName line"
  by (simp add: device_of_def Let_def)

lemma flow_first:
  assumes "\<And>p. previous = Some p \<Longrightarrow> dpDevices p (rdName l) = None"
  shows "flow_of d (device_of previous path nowMs ts l) = None"
proof -
  have "(case previous of None \<Rightarrow> None | Some p \<Rightarrow> dpDevices p (rdName l)) = None"
    using assms by (cases previous) simp_all
  then show ?thesis
    unfolding flow_of_def device_of_def Let_def disk_device.simps disk_rates_of_def rates_missing_def
    by (cases d) simp_all
qed

lemma disk_rate_value:
  "0 \<le> n \<Longrightarrow> 0 < iv \<Longrightarrow> hmValue (disk_rate n 0 iv unit src ts) = Some (of_int n / iv * 1000)"
  by (simp add: disk_rate_def Let_def)

lemma flow_later:
  assumes "dpDevices p (rdName l) = Some b"
  shows "flow_of d (device_of (Some p) path nowMs ts l) =
    (if dpAtMs p < nowMs \<and> disk_grew b (disk_counters_of l)
     then Some ((of_nat (disk_amount d (disk_counters_of l)) - of_nat (disk_amount d b)) / (nowMs - dpAtMs p) * 1000)
     else None)"
proof (cases "dpAtMs p < nowMs \<and> disk_grew b (disk_counters_of l)")
  case True
  then have iv: "0 < nowMs - dpAtMs p" by simp
  have le: "dcSectorsRead b \<le> rdSectorsRead l" "dcSectorsWritten b \<le> rdSectorsWritten l" "dcIoMillis b \<le> rdIoMillis l"
    using True by (simp_all add: disk_grew_def disk_counters_of_def)
  then have nr: "\<not> (dcSectorsRead b > rdSectorsRead l)" "\<not> (dcSectorsWritten b > rdSectorsWritten l)"
      "\<not> (dcIoMillis b > rdIoMillis l)" by simp_all
  have r: "hmValue (disk_rate ((int m - int n) * int SECTOR_BYTES) 0 (nowMs - dpAtMs p) unit src ts) =
      Some ((of_nat (SECTOR_BYTES * m) - of_nat (SECTOR_BYTES * n)) / (nowMs - dpAtMs p) * 1000)"
    if "n \<le> m" for m n unit src
  proof -
    have "0 \<le> (int m - int n) * int SECTOR_BYTES" using that by simp
    from disk_rate_value [OF this iv] show ?thesis by (simp add: algebra_simps)
  qed
  show ?thesis
    unfolding flow_of_def device_of_def Let_def disk_device.simps disk_rates_of_def option.case assms if_P [OF True]
    using iv nr r [OF le(1)] r [OF le(2)] by (cases d) (simp_all add: disk_amount_def disk_counters_of_def)
next
  case False
  then have "\<not> 0 < nowMs - dpAtMs p \<or> dcSectorsRead b > rdSectorsRead l \<or> dcSectorsWritten b > rdSectorsWritten l \<or>
      dcIoMillis b > rdIoMillis l"
    by (auto simp: disk_grew_def disk_counters_of_def)
  then show ?thesis
    unfolding flow_of_def device_of_def Let_def disk_device.simps disk_rates_of_def option.case assms if_not_P [OF False]
      rates_missing_def by (cases d) auto
qed

text \<open>A pass over a file that lists \<open>x\<close>, over one that does not, and over none.\<close>

lemma disk_pass_seen:
  assumes "disk_ok paths x ob" and "disk_sight paths x ob = Seen c"
  obtains l where "disk_counters_of l = c" "rdName l = x"
    and "find (\<lambda>i. ddName i = x) (dsDevices (fst (disk_pass paths mps ob previous))) =
      Some (device_of previous (procPath paths [''diskstats'']) (dbNow ob) (dbTimestamp ob) l)"
    and "disk_holds x (snd (disk_pass paths mps ob previous)) = Some (dbNow ob, c)"
proof -
  obtain raw where t: "readTextFile (dbFiles ob) (procPath paths [''diskstats'']) = Inr raw"
    using assms(2) by (auto simp: disk_sight_def split: sum.splits)
  obtain l where l: "lines_of raw x = [l]"
    using assms t length_one by (auto simp: disk_ok_def disk_sight_def split: list.splits)
  have c: "disk_counters_of l = c" using assms(2) by (simp add: disk_sight_def t l)
  have "l \<in> set (lines_of raw x)" unfolding l by simp
  then have name: "rdName l = x" by (simp add: lines_of_def)
  note l' = l [unfolded lines_of_def]
  have "find (\<lambda>i. ddName i = x) (dsDevices (fst (disk_pass paths mps ob previous))) =
      Some (device_of previous (procPath paths [''diskstats'']) (dbNow ob) (dbTimestamp ob) l)"
    unfolding disk_pass_def buildDiskSnapshot_def t sum.case Let_def fst_conv disk_snapshot.simps buildDevices_def
    by (simp add: find_as_filter filter_map comp_def l' del: filter_filter)
  moreover have "disk_holds x (snd (disk_pass paths mps ob previous)) = Some (dbNow ob, c)"
    unfolding disk_pass_def buildDiskSnapshot_def t sum.case Let_def snd_conv disk_holds_def disk_previous.simps buildDevices_def
    by (simp add: fold_counters l' c del: filter_filter)
  ultimately show thesis by (rule that [OF c name])
qed

lemma disk_pass_absent:
  assumes "disk_sight paths x ob = Absent"
  shows "disk_flow_rate x d (fst (disk_pass paths mps ob previous)) = None \<and>
    disk_holds x (snd (disk_pass paths mps ob previous)) = None"
proof -
  obtain raw where t: "readTextFile (dbFiles ob) (procPath paths [''diskstats'']) = Inr raw"
    and l: "lines_of raw x = []"
    using assms by (auto simp: disk_sight_def split: sum.splits list.splits)
  note l' = l [unfolded lines_of_def]
  show ?thesis
    unfolding disk_pass_def buildDiskSnapshot_def t sum.case Let_def fst_conv snd_conv disk_snapshot.simps
      disk_flow_rate_def disk_holds_def disk_previous.simps buildDevices_def
    by (simp add: find_as_filter filter_map comp_def fold_counters l' del: filter_filter)
qed

lemma disk_pass_unread:
  assumes "disk_sight paths x ob = Unread"
  shows "disk_flow_rate x d (fst (disk_pass paths mps ob previous)) = None \<and>
    disk_holds x (snd (disk_pass paths mps ob previous)) = Option.bind previous (disk_holds x)"
proof -
  obtain f where "readTextFile (dbFiles ob) (procPath paths [''diskstats'']) = Inl f"
    using assms by (auto simp: disk_sight_def split: sum.splits list.splits)
  then show ?thesis
    by (cases previous) (simp_all add: disk_pass_def buildDiskSnapshot_def disk_flow_rate_def disk_holds_def)
qed

interpretation disk: rate_collector "disk_pass paths mps" dbNow "disk_ok paths x" "disk_sight paths x"
    disk_grew "\<lambda>c. of_nat (disk_amount d c)" "disk_flow_rate x d" "disk_holds x"
  for paths mps x d
proof
  fix ob prev
  assume "disk_sight paths x ob = Unread"
  then show "disk_flow_rate x d (fst (disk_pass paths mps ob prev)) = None \<and>
      disk_holds x (snd (disk_pass paths mps ob prev)) = Option.bind prev (disk_holds x)"
    by (rule disk_pass_unread)
next
  fix ob prev
  assume "disk_sight paths x ob = Absent"
  then show "disk_flow_rate x d (fst (disk_pass paths mps ob prev)) = None \<and>
      disk_holds x (snd (disk_pass paths mps ob prev)) = None"
    by (rule disk_pass_absent)
next
  fix ob c prev
  assume a: "disk_ok paths x ob" "disk_sight paths x ob = Seen c"
  show "disk_holds x (snd (disk_pass paths mps ob prev)) = Some (dbNow ob, c)"
    by (rule disk_pass_seen [OF a, where mps = mps and previous = prev])
  obtain l where l: "disk_counters_of l = c" "rdName l = x"
    "find (\<lambda>i. ddName i = x) (dsDevices (fst (disk_pass paths mps ob prev))) =
      Some (device_of prev (procPath paths [''diskstats'']) (dbNow ob) (dbTimestamp ob) l)"
    by (rule disk_pass_seen [OF a, where mps = mps and previous = prev])
  then have r: "disk_flow_rate x d (fst (disk_pass paths mps ob prev)) =
      flow_of d (device_of prev (procPath paths [''diskstats'']) (dbNow ob) (dbTimestamp ob) l)"
    by (simp add: disk_flow_rate_def)
  {
    assume none: "Option.bind prev (disk_holds x) = None"
    show "disk_flow_rate x d (fst (disk_pass paths mps ob prev)) = None"
      unfolding r by (rule flow_first) (use none l(2) in \<open>simp add: disk_holds_def\<close>)
  }
  fix t0 c0
  assume "Option.bind prev (disk_holds x) = Some (t0, c0)"
  then obtain p where "prev = Some p" "dpAtMs p = t0" "dpDevices p (rdName l) = Some c0"
    using l(2) by (cases prev) (auto simp: disk_holds_def)
  then show "disk_flow_rate x d (fst (disk_pass paths mps ob prev)) =
      (if t0 < dbNow ob \<and> disk_grew c0 c
       then Some ((of_nat (disk_amount d c) - of_nat (disk_amount d c0)) / (dbNow ob - t0) * 1000) else None)"
    unfolding r using flow_later [of p l c0] l(1) by simp
qed

text \<open>C26: The published rates of a block device add up to what it transferred. In any run of passes whose
  files list the device at most once, the sum of each published rate times the seconds since the device
  was last seen is 512 bytes for every sector counted from each sighting to the next, leaving out
  exactly the steps where the sectors read, the sectors written or the busy time fell, or no time
  passed.  So when times rise, no readable file lacks the device and no counter falls, it is the
  growth from the first sighting to the last.  For reads and for writes, and in exact arithmetic.\<close>
theorem disk_rates_integrate:
  assumes "\<forall>ob \<in> set obs. disk_ok paths x ob"
    and "published = accounted dbNow (disk_sight paths x) (disk_flow_rate x d) None
      (zip obs (collector_run (disk_pass paths mps) None obs))"
  shows "published = growth dbNow (disk_sight paths x) disk_grew (\<lambda>c. of_nat (disk_amount d c)) None obs \<and>
    (\<forall>c0 cs. (\<forall>ob \<in> set obs. disk_sight paths x ob \<noteq> Absent) \<and> sorted_wrt (<) (map dbNow obs) \<and>
       List.map_filter (\<lambda>ob. seen (disk_sight paths x ob)) obs = c0 # cs \<and> sorted_wrt disk_grew (c0 # cs) \<longrightarrow>
       published = of_nat (disk_amount d (last (c0 # cs))) - of_nat (disk_amount d c0))"
proof -
  have p: "published = growth dbNow (disk_sight paths x) disk_grew (\<lambda>c. of_nat (disk_amount d c)) None obs"
    using disk.rates_account [OF assms(1), where prev = None and mps = mps and d = d] assms(2) by simp
  show ?thesis
    unfolding p using growth_telescopes [of obs "disk_sight paths x" dbNow _ _ disk_grew
      "\<lambda>c. of_nat (disk_amount d c)"] by blast
qed

text \<open>A disk with one partition, of which ten sectors were read in a second.\<close>

definition sda_text :: "string \<Rightarrow> string" where
  "sda_text n =
     '' 8 0 sda 4 0 '' @ n @ '' 0 2 0 6 0 0 9'' @ [CHR 0x0A] @ '' 8 1 sda1 4 0 '' @ n @ '' 0 2 0 6 0 0 9'' @ [CHR 0x0A] @
     '' 7 0 loop0 4 0 8 0 2 0 6 0 0 9''"

definition sda_line :: "nat \<Rightarrow> string \<Rightarrow> nat \<Rightarrow> raw_disk" where
  "sda_line m name n =
     \<lparr>rdMajor = 8, rdMinor = m, rdName = name, rdReads = 4, rdSectorsRead = n, rdIoMillis = 9, rdWrites = 2,
      rdSectorsWritten = 6, rdInFlight = 0\<rparr>"

definition no_statfs :: "string \<Rightarrow> errno + fs_stats" where
  "no_statfs p = Inl EACCES"

definition sda_passes :: "disk_obs list" where
  "sda_passes =
     [\<lparr>dbFiles = kernel_file ''/proc/diskstats'' (sda_text ''10''), dbStatfs = no_statfs, dbNow = 0, dbTimestamp = ''t''\<rparr>,
      \<lparr>dbFiles = kernel_file ''/proc/diskstats'' (sda_text ''20''), dbStatfs = no_statfs, dbNow = 1000, dbTimestamp = ''t''\<rparr>]"

lemma sda_listed:
  "filter (\<lambda>l. \<not> pseudo_device (rdName l)) (parseDiskstats (sda_text ''10'')) = [sda_line 0 ''sda'' 10, sda_line 1 ''sda1'' 10]"
  "filter (\<lambda>l. \<not> pseudo_device (rdName l)) (parseDiskstats (sda_text ''20'')) = [sda_line 0 ''sda'' 20, sda_line 1 ''sda1'' 20]"
  by (simp_all add: sda_text_def sda_line_def parseDiskstats_def parseDiskstatsLine_def text_lines_def
      NUMERIC_INDEXES_def device_char_def pseudo_device_def map_filter_simps js_trim_def trim_start_def trim_end_def
      split_spaces_def js_space_def safe_nat_def all_digits_def is_digit_def decimal_value_def digit_value_def
      MAX_SAFE_INTEGER_def Let_def)

lemma diskstats_path: "procPath DEFAULT_KERNEL_PATHS [''diskstats''] = ''/proc/diskstats''"
  by (simp add: procPath_def DEFAULT_KERNEL_PATHS_def)

lemma diskstats_read: "readTextFile (kernel_file path t) path = Inr t"
  by (simp add: readTextFile_def kernel_file_def)

lemma sda_lines: "lines_of (sda_text ''10'') ''sda'' = [sda_line 0 ''sda'' 10]" "lines_of (sda_text ''20'') ''sda'' = [sda_line 0 ''sda'' 20]"
  unfolding lines_of_def sda_listed by (simp_all add: sda_line_def)

lemma sda_sightings:
  "List.map_filter (\<lambda>ob. seen (disk_sight DEFAULT_KERNEL_PATHS ''sda'' ob)) sda_passes =
     [disk_counters_of (sda_line 0 ''sda'' 10), disk_counters_of (sda_line 0 ''sda'' 20)]"
  "\<forall>ob \<in> set sda_passes. disk_sight DEFAULT_KERNEL_PATHS ''sda'' ob \<noteq> Absent"
  by (simp_all add: sda_passes_def map_filter_simps disk_sight_def diskstats_path diskstats_read sda_lines)

lemma sda_ok: "\<forall>ob \<in> set sda_passes. disk_ok DEFAULT_KERNEL_PATHS ''sda'' ob"
  by (simp add: sda_passes_def disk_ok_def diskstats_path diskstats_read sda_lines)

theorem disk_rates_integrate_witness:
  "accounted dbNow (disk_sight DEFAULT_KERNEL_PATHS ''sda'') (disk_flow_rate ''sda'' Bytes_read) None
     (zip sda_passes (collector_run (disk_pass DEFAULT_KERNEL_PATHS DEFAULT_MOUNT_POINTS) None sda_passes)) = 5120"
proof -
  have "sorted_wrt (<) (map dbNow sda_passes)" by (simp add: sda_passes_def)
  moreover have "sorted_wrt disk_grew [disk_counters_of (sda_line 0 ''sda'' 10), disk_counters_of (sda_line 0 ''sda'' 20)]"
    by (simp add: disk_grew_def disk_counters_of_def sda_line_def)
  ultimately have "accounted dbNow (disk_sight DEFAULT_KERNEL_PATHS ''sda'') (disk_flow_rate ''sda'' Bytes_read) None
     (zip sda_passes (collector_run (disk_pass DEFAULT_KERNEL_PATHS DEFAULT_MOUNT_POINTS) None sda_passes)) =
     of_nat (disk_amount Bytes_read (last [disk_counters_of (sda_line 0 ''sda'' 10), disk_counters_of (sda_line 0 ''sda'' 20)])) -
     of_nat (disk_amount Bytes_read (disk_counters_of (sda_line 0 ''sda'' 10)))"
    using disk_rates_integrate [OF sda_ok refl, of Bytes_read DEFAULT_MOUNT_POINTS] sda_sightings by blast
  then show ?thesis by (simp add: disk_amount_def disk_counters_of_def sda_line_def SECTOR_BYTES_def)
qed

text \<open>Where the block says something else than its comments. Partitions are listed beside their disk, so
  that every byte read is listed twice; a file system whose mount point contains a blank is in
  the table under the escaped name only, so that it is never found; and an operation rate that
  is missing is published in bytes per second.\<close>

definition blank_mount :: string where
  "blank_mount = ''36 35 98:0 / /mnt/my'' @ CHR 0x5C # ''040disk rw,noatime shared:1 - ext4 /dev/sdb1 rw''"

lemma blank_mount_parsed:
  "parseMountInfo blank_mount =
     [''/mnt/my'' @ CHR 0x5C # ''040disk'' \<mapsto>
        \<lparr>meMountPoint = ''/mnt/my disk'', meDevice = ''/dev/sdb1'', meFilesystemType = ''ext4''\<rparr>]"
proof -
  have cut: "cut_word '' - '' blank_mount =
      Some (''36 35 98:0 / /mnt/my'' @ CHR 0x5C # ''040disk rw,noatime shared:1'', ''ext4 /dev/sdb1 rw'')"
    by (simp add: blank_mount_def)
  have lines: "text_lines blank_mount = [blank_mount]"
    unfolding text_lines_def by (rule split_on_no_sep) (simp add: blank_mount_def)
  have trim: "js_trim blank_mount \<noteq> []" by (rule trim_nonempty) (simp add: blank_mount_def js_space_def)
  have head: "split_ws (''36 35 98:0 / /mnt/my'' @ CHR 0x5C # ''040disk rw,noatime shared:1'') =
      [''36'', ''35'', ''98:0'', ''/'', ''/mnt/my'' @ CHR 0x5C # ''040disk'', ''rw,noatime'', ''shared:1'']"
    by (simp add: split_ws_def blank_words_def js_space_def)
  have tail: "split_ws ''ext4 /dev/sdb1 rw'' = [''ext4'', ''/dev/sdb1'', ''rw'']"
    by (simp add: split_ws_def blank_words_def js_space_def)
  have "of_char CHR 0x20 = (32 :: nat)" by simp
  then have space: "char_of (32 :: nat) = CHR 0x20" by (metis char_of_char)
  have unesc: "unescapeMountField (''/mnt/my'' @ CHR 0x5C # ''040disk'') = ''/mnt/my disk''"
    by (simp add: octal_digit_def digit_value_def space)
  show ?thesis
    unfolding parseMountInfo_def lines fold.simps comp_def id_def mount_line_def if_not_P [OF trim] cut option.case
      prod.case head tail Let_def
    using unesc by simp
qed

theorem disk_gaps:
  "map ddName (fst (buildDevices (parseDiskstats (sda_text ''20'')) None path now ts)) = [''sda'', ''sda1''] \<and>
   map (\<lambda>dev. hmValue (ddReadBytes dev)) (fst (buildDevices (parseDiskstats (sda_text ''20'')) None path now ts)) =
     [Some 10240, Some 10240] \<and>
   parseMountInfo blank_mount ''/mnt/my disk'' = None \<and>
   map (\<lambda>dev. hmUnit (drtReads (ddRates dev))) (fst (buildDevices (parseDiskstats (sda_text ''20'')) None path now ts)) =
     [''bytes/s'', ''bytes/s'']"
  unfolding buildDevices_def Let_def fst_conv sda_listed blank_mount_parsed
  by (simp add: sda_line_def device_of_def Let_def disk_bytes_def SECTOR_BYTES_def disk_rates_of_def rates_missing_def
      h_unavailable_def)

end
