(* ===== verification/Host_Frequency.thy ===== *)
theory Host_Frequency
  imports Host_Devices "HOL-Library.Char_ord" "HOL-Library.List_Lexorder"
begin

text \<open>
  \<^verbatim>\<open>web/backend/src/telemetry/system/frequency.ts\<close>, the frequency policies of the host, with the directory
  listings of \<^verbatim>\<open>read.ts\<close>, and the identity block of \<^verbatim>\<open>collector.ts\<close>.  Listings and link targets are the
  arguments \<open>dirs\<close> and \<open>links\<close>.
\<close>

section \<open>Listings\<close>

type_synonym kdirs = "string \<Rightarrow> errno + string list"
type_synonym klinks = "string \<Rightarrow> string option"

definition listDir :: "kdirs \<Rightarrow> string \<Rightarrow> read_failure + string list" where
  "listDir dirs path =
     (case dirs path of Inl e \<Rightarrow> Inl (classify e path) | Inr entries \<Rightarrow> Inr (sort entries))"

definition listMatching :: "kdirs \<Rightarrow> string \<Rightarrow> (string \<Rightarrow> bool) \<Rightarrow> read_failure + string list" where
  "listMatching dirs path pattern =
     (case listDir dirs path of Inl f \<Rightarrow> Inl f | Inr entries \<Rightarrow> Inr (filter pattern entries))"

text \<open>\<open>/^policy\d+$/\<close> and \<open>/^cpu\d+$/\<close>.\<close>

definition numbered_name :: "string \<Rightarrow> string \<Rightarrow> bool" where
  "numbered_name word name \<longleftrightarrow> prefix word name \<and> all_digits (drop (length word) name)"

section \<open>Policies\<close>

record frequency_policy =
  fpPolicy :: string
  fpAffectedCpus :: "string host_metric"
  fpReportedCur :: "nat host_metric"
  fpRequested :: "nat host_metric"
  fpScalingMin :: "nat host_metric"
  fpScalingMax :: "nat host_metric"
  fpGovernor :: "string host_metric"
  fpBoost :: "bool host_metric"
  fpEnergyPreference :: "string host_metric"

record frequency_snapshot =
  fqPolicies :: "frequency_policy list"
  fqMeasuredHardware :: "nat host_metric"
  fqAvailability :: "string host_metric"

definition khz :: "nat option \<Rightarrow> string \<Rightarrow> string \<Rightarrow> string \<Rightarrow> nat host_metric" where
  "khz raw path ts what =
     (case raw of
        None \<Rightarrow> h_unavailable ''kHz'' path ts (Khz_absent what)
      | Some n \<Rightarrow> h_observed n ''kHz'' path ts)"

definition text_metric :: "read_failure + string \<Rightarrow> string \<Rightarrow> string \<Rightarrow> string \<Rightarrow> string host_metric" where
  "text_metric result path ts what =
     (case result of
        Inl f \<Rightarrow> h_unavailable ''1'' path ts (Sysfs_unreadable what f)
      | Inr t \<Rightarrow>
          if t = [] then h_unavailable ''1'' path ts (Sysfs_empty what)
          else h_observed t ''1'' path ts)"

definition lower_char :: "char \<Rightarrow> char" where
  "lower_char c =
     (let n = of_char c :: nat in
      if 65 \<le> n \<and> n \<le> 90 \<or> 192 \<le> n \<and> n \<le> 222 \<and> n \<noteq> 215 then char_of (n + 32) else c)"

definition booleanText :: "read_failure + string \<Rightarrow> string \<Rightarrow> string \<Rightarrow> string \<Rightarrow> bool host_metric" where
  "booleanText result path ts what =
     (case result of
        Inl f \<Rightarrow> h_unavailable ''1'' path ts (Sysfs_unreadable what f)
      | Inr t \<Rightarrow>
          (let normalised = map lower_char (js_trim t) in
           if normalised = ''1'' \<or> normalised = ''y'' \<or> normalised = ''yes'' \<or> normalised = ''true''
           then h_observed True ''1'' path ts
           else if normalised = ''0'' \<or> normalised = ''n'' \<or> normalised = ''no'' \<or> normalised = ''false''
           then h_observed False ''1'' path ts
           else h_unavailable ''1'' path ts (Unrecognised_value what (js_trim t))))"

definition readPolicy :: "kfiles \<Rightarrow> string \<Rightarrow> string \<Rightarrow> string \<Rightarrow> frequency_policy" where
  "readPolicy files policyDir policy ts =
     (let at_path = (\<lambda>name. policyDir @ CHR ''/'' # name);
          txt_of = (\<lambda>name what. text_metric (readTrimmed files (at_path name)) (at_path name) ts what);
          khz_of = (\<lambda>name what. khz (readUintFile files (at_path name)) (at_path name) ts what) in
      \<lparr>fpPolicy = policy,
       fpAffectedCpus = txt_of ''affected_cpus'' ''CPUs this policy governs'',
       fpReportedCur = khz_of ''cpuinfo_cur_freq'' ''Driver-reported current frequency'',
       fpRequested = khz_of ''scaling_cur_freq'' ''Frequency the scaling governor has requested'',
       fpScalingMin = khz_of ''scaling_min_freq'' ''Minimum scaling frequency'',
       fpScalingMax = khz_of ''scaling_max_freq'' ''Maximum scaling frequency'',
       fpGovernor = txt_of ''scaling_governor'' ''Active scaling governor'',
       fpBoost = booleanText (readTrimmed files (at_path ''boost'')) (at_path ''boost'') ts ''Turbo boost enable state'',
       fpEnergyPreference = txt_of ''energy_performance_preference'' ''Energy/performance hint (intel_pstate only)''\<rparr>)"

definition policyNameForCpu :: "klinks \<Rightarrow> string \<Rightarrow> string option" where
  "policyNameForCpu links perCpuDir =
     (case links perCpuDir of
        None \<Rightarrow> None
      | Some target \<Rightarrow>
          (let name = last (split_on (\<lambda>c. c = CHR ''/'') target) in
           if numbered_name ''policy'' name then Some name else None))"

text \<open>One CPU of the second loop, with the names seen and the policies.\<close>

definition cpu_policy_step ::
    "kfiles \<Rightarrow> klinks \<Rightarrow> string \<Rightarrow> string \<Rightarrow> string \<Rightarrow> string \<Rightarrow>
     string set \<times> frequency_policy list \<Rightarrow> string set \<times> frequency_policy list" where
  "cpu_policy_step files links policyRoot cpuRoot ts name st =
     (case policyNameForCpu links (cpuRoot @ CHR ''/'' # name @ ''/cpufreq'') of
        None \<Rightarrow> st
      | Some linked \<Rightarrow>
          if linked \<in> fst st then st
          else (insert linked (fst st),
                snd st @ [readPolicy files (policyRoot @ CHR ''/'' # linked) linked ts]))"

definition found_policies ::
    "kfiles \<Rightarrow> kdirs \<Rightarrow> klinks \<Rightarrow> kernel_paths \<Rightarrow> string \<Rightarrow> string set \<times> frequency_policy list" where
  "found_policies files dirs links paths ts =
     (let policyRoot = sysPath paths [''devices'', ''system'', ''cpu'', ''cpufreq''];
          cpuRoot = sysPath paths [''devices'', ''system'', ''cpu''];
          listed = (case listMatching dirs policyRoot (numbered_name ''policy'') of Inl f \<Rightarrow> [] | Inr es \<Rightarrow> es);
          cpus = (case listMatching dirs cpuRoot (numbered_name ''cpu'') of Inl f \<Rightarrow> [] | Inr es \<Rightarrow> es) in
      fold (cpu_policy_step files links policyRoot cpuRoot ts) cpus
        (set listed, map (\<lambda>name. readPolicy files (policyRoot @ CHR ''/'' # name) name ts) listed))"

text \<open>\<open>rank\<close> is the position \<open>localeCompare\<close> gives a name.\<close>

definition discoverFrequency ::
    "kfiles \<Rightarrow> kdirs \<Rightarrow> klinks \<Rightarrow> kernel_paths \<Rightarrow> (string \<Rightarrow> rat) \<Rightarrow> string \<Rightarrow> frequency_snapshot" where
  "discoverFrequency files dirs links paths rank ts =
     (let policyRoot = sysPath paths [''devices'', ''system'', ''cpu'', ''cpufreq''];
          policies = sort_key (\<lambda>p. rank (fpPolicy p)) (snd (found_policies files dirs links paths ts)) in
      \<lparr>fqPolicies = policies,
       fqMeasuredHardware =
         h_unavailable ''kHz'' ''none: CAPS does not read performance counters'' ts No_frequency_measurement,
       fqAvailability = h_observed (if policies = [] then ''UNAVAILABLE'' else ''AVAILABLE'') ''1'' policyRoot ts\<rparr>)"

section \<open>Host identity\<close>

record host_identity =
  hiBootId :: "string host_metric"
  hiMachineId :: "string host_metric"
  hiKernel :: "string host_metric"
  hiLogicalCpus :: "nat host_metric"
  hiTotalMemory :: "nat host_metric"
  hiTimestamp :: string

text \<open>\<open>/^cpu\d+\s/\<close>.\<close>

definition cpu_line :: "string \<Rightarrow> bool" where
  "cpu_line line \<longleftrightarrow> prefix ''cpu'' line \<and>
     (let ds = takeWhile is_digit (drop 3 line); r = dropWhile is_digit (drop 3 line) in
      ds \<noteq> [] \<and> r \<noteq> [] \<and> js_space (hd r))"

definition positive :: "nat \<Rightarrow> nat option" where
  "positive n = (if 0 < n then Some n else None)"

definition count_lines :: "kfiles \<Rightarrow> string \<Rightarrow> (string \<Rightarrow> bool) \<Rightarrow> nat option" where
  "count_lines files path P =
     (case readTextFile files path of
        Inl f \<Rightarrow> None
      | Inr t \<Rightarrow> positive (length (filter P (text_lines t))))"

definition logical_cpus :: "kfiles \<Rightarrow> kernel_paths \<Rightarrow> nat option" where
  "logical_cpus files paths =
     (case count_lines files (procPath paths [''cpuinfo'']) (prefix ''processor'') of
        Some n \<Rightarrow> Some n
      | None \<Rightarrow> count_lines files (procPath paths [''stat'']) cpu_line)"

datatype identity_error = No_cpu_count | Total_memory host_reason

definition buildIdentity ::
    "kfiles \<Rightarrow> kernel_paths \<Rightarrow> string option \<Rightarrow> string \<Rightarrow> host_identity \<times> identity_error list" where
  "buildIdentity files paths boot ts =
     (let bootPath = procPath paths [''sys'', ''kernel'', ''random'', ''boot_id''];
          versionPath = procPath paths [''version''];
          cpuinfo = procPath paths [''cpuinfo''];
          logicalCpus = logical_cpus files paths;
          totalMemory = readTotalMemoryBytes files paths in
      (\<lparr>hiBootId = (case boot of Some b \<Rightarrow> h_observed b ''1'' bootPath ts
                               | None \<Rightarrow> h_unavailable ''1'' bootPath ts No_boot_id),
        hiMachineId = (case readMachineId files of Some m \<Rightarrow> h_observed m ''1'' ''/etc/machine-id'' ts
                               | None \<Rightarrow> h_unavailable ''1'' ''/etc/machine-id'' ts No_machine_id),
        hiKernel = (case readTextFile files versionPath of
                      Inl f \<Rightarrow> h_unavailable ''1'' versionPath ts (Unreadable f)
                    | Inr t \<Rightarrow> h_observed (js_trim t) ''1'' versionPath ts),
        hiLogicalCpus = (case logicalCpus of Some n \<Rightarrow> h_observed n ''1'' cpuinfo ts
                               | None \<Rightarrow> h_unavailable ''1'' cpuinfo ts No_processors),
        hiTotalMemory = (case totalMemory of
                      Inr (v, src) \<Rightarrow> h_observed v ''bytes'' src ts
                    | Inl r \<Rightarrow> h_unavailable ''bytes'' (procPath paths [''meminfo'']) ts r),
        hiTimestamp = ts\<rparr>,
       (case logicalCpus of None \<Rightarrow> [No_cpu_count] | Some n \<Rightarrow> []) @
       (case totalMemory of Inl r \<Rightarrow> [Total_memory r] | Inr v \<Rightarrow> [])))"

text \<open>The load block of a pass, normalised by the counted CPUs.\<close>

definition load_of_pass :: "kfiles \<Rightarrow> kernel_paths \<Rightarrow> host_identity \<Rightarrow> string \<Rightarrow> load_snapshot" where
  "load_of_pass files paths identity ts =
     buildLoadSnapshot files paths
       (if hmProvenance (hiLogicalCpus identity) = Unavailable then None else hmValue (hiLogicalCpus identity)) ts"

section \<open>Which policies are found\<close>

lemma policy_name [simp]: "fpPolicy (readPolicy files dir name ts) = name"
  by (simp add: readPolicy_def Let_def)

definition linked_names :: "klinks \<Rightarrow> string \<Rightarrow> string list \<Rightarrow> string set" where
  "linked_names links cpuRoot cpus =
     {n. \<exists>c \<in> set cpus. policyNameForCpu links (cpuRoot @ CHR ''/'' # c @ ''/cpufreq'') = Some n}"

lemma cpu_steps:
  assumes "set (map fpPolicy (snd st)) = fst st" and "distinct (map fpPolicy (snd st))"
  shows "set (map fpPolicy (snd (fold (cpu_policy_step files links proot cpuRoot ts) cpus st))) =
      fst st \<union> linked_names links cpuRoot cpus \<and>
    distinct (map fpPolicy (snd (fold (cpu_policy_step files links proot cpuRoot ts) cpus st)))"
  using assms
proof (induction cpus arbitrary: st)
  case Nil
  then show ?case by (simp add: linked_names_def)
next
  case (Cons c cpus)
  let ?st = "cpu_policy_step files links proot cpuRoot ts c st"
  have inv: "set (map fpPolicy (snd ?st)) = fst ?st" "distinct (map fpPolicy (snd ?st))"
    using Cons.prems by (auto simp: cpu_policy_step_def split: option.split)
  have names: "fst ?st \<union> linked_names links cpuRoot cpus = fst st \<union> linked_names links cpuRoot (c # cpus)"
    by (auto simp: cpu_policy_step_def linked_names_def split: option.split)
  show ?case using Cons.IH [OF inv] by (simp only: names fold_simps)
qed

text \<open>The policies of a snapshot are exactly those of the directory and those a CPU links to, each once,
  and every one has a name the pattern admits, wherever a link may point.\<close>
theorem frequency_policies_exact:
  assumes "\<And>es. dirs (sysPath paths [''devices'', ''system'', ''cpu'', ''cpufreq'']) = Inr es \<Longrightarrow> distinct es"
    and "listed = (case listMatching dirs (sysPath paths [''devices'', ''system'', ''cpu'', ''cpufreq'']) (numbered_name ''policy'') of
           Inl f \<Rightarrow> [] | Inr es \<Rightarrow> es)"
    and "cpus = (case listMatching dirs (sysPath paths [''devices'', ''system'', ''cpu'']) (numbered_name ''cpu'') of
           Inl f \<Rightarrow> [] | Inr es \<Rightarrow> es)"
    and "names = map fpPolicy (fqPolicies (discoverFrequency files dirs links paths rank ts))"
  shows "set names = set listed \<union> linked_names links (sysPath paths [''devices'', ''system'', ''cpu'']) cpus \<and>
    distinct names \<and> (\<forall>n \<in> set names. numbered_name ''policy'' n)"
proof -
  let ?root = "sysPath paths [''devices'', ''system'', ''cpu'', ''cpufreq'']"
  let ?st = "(set listed, map (\<lambda>name. readPolicy files (?root @ CHR ''/'' # name) name ts) listed)"
  have d: "distinct listed"
    using assms(1) unfolding assms(2) listMatching_def listDir_def
    by (cases "dirs ?root") (simp_all)
  have n: "\<forall>x \<in> set listed. numbered_name ''policy'' x"
    unfolding assms(2) listMatching_def listDir_def by (cases "dirs ?root") simp_all
  have "set (map fpPolicy (snd ?st)) = fst ?st" "distinct (map fpPolicy (snd ?st))"
    using d by (simp_all add: comp_def)
  note r = cpu_steps [OF this, of files links ?root "sysPath paths [''devices'', ''system'', ''cpu'']" ts cpus]
  have f: "found_policies files dirs links paths ts = fold (cpu_policy_step files links ?root
      (sysPath paths [''devices'', ''system'', ''cpu'']) ts) cpus ?st"
    unfolding found_policies_def assms(2,3) Let_def by (rule refl)
  have ps: "fqPolicies (discoverFrequency files dirs links paths rank ts) =
      sort_key (\<lambda>p. rank (fpPolicy p)) (snd (found_policies files dirs links paths ts))"
    by (simp add: discoverFrequency_def Let_def)
  have l: "\<forall>x \<in> linked_names links (sysPath paths [''devices'', ''system'', ''cpu'']) cpus. numbered_name ''policy'' x"
    by (auto simp: linked_names_def policyNameForCpu_def Let_def split: option.splits if_splits)
  have s: "set names = set listed \<union> linked_names links (sysPath paths [''devices'', ''system'', ''cpu'']) cpus"
    using r unfolding assms(4) ps f by simp
  moreover have "distinct names"
    using r unfolding assms(4) ps f by (simp add: distinct_map)
  ultimately show ?thesis using n l by blast
qed

end
