(* ===== verification/Host_Processes.thy ===== *)
theory Host_Processes
  imports Host_Metric
begin

text \<open>
  \<^verbatim>\<open>web/backend/src/telemetry/system/processes.ts\<close>: the inventory of \<^verbatim>\<open>/proc\<close>.  One call reads its files
  from one \<open>kfiles\<close>; the listing of \<^verbatim>\<open>/proc\<close>, the clock and the answer of \<^verbatim>\<open>getconf\<close> are arguments.  The
  metrics of a row are a function of \<open>host_key\<close>.
\<close>

section \<open>Rows\<close>

datatype host_row_state = LIVE | EXITED | DISAPPEARED | PERMISSION_DENIED | UNAVAILABLE_ROW

datatype host_key =
    P_pid | P_ppid | P_relationshipConfidence | P_name | P_cmdline | P_state | P_stateName
  | P_uid | P_gid | P_threads | P_cpuTimeMs | P_cpuPercent
  | P_rssBytes | P_pssBytes | P_anonymousBytes | P_fileBackedBytes | P_sharedBytes | P_swapBytes
  | P_virtualMemoryBytes | P_voluntaryContextSwitches | P_nonVoluntaryContextSwitches
  | P_minorFaults | P_majorFaults | P_readBytes | P_writeBytes | P_processGroupId | P_sessionId
  | P_cpuAffinity | P_schedulerRuntimeNs | P_schedulerWaitNs | P_schedulerTimeslices

definition HOST_KEYS :: "host_key list" where
  "HOST_KEYS =
     [P_pid, P_ppid, P_relationshipConfidence, P_name, P_cmdline, P_state, P_stateName, P_uid, P_gid,
      P_threads, P_cpuTimeMs, P_cpuPercent, P_rssBytes, P_pssBytes, P_anonymousBytes,
      P_fileBackedBytes, P_sharedBytes, P_swapBytes, P_virtualMemoryBytes,
      P_voluntaryContextSwitches, P_nonVoluntaryContextSwitches, P_minorFaults, P_majorFaults,
      P_readBytes, P_writeBytes, P_processGroupId, P_sessionId, P_cpuAffinity,
      P_schedulerRuntimeNs, P_schedulerWaitNs, P_schedulerTimeslices]"

text \<open>\<open>Not_a_number\<close> is what \<open>Number\<close> gives for a text that is none.\<close>

datatype host_value = Number rat | Not_a_number | Words string | Argv "string list"

record process_identity_tuple =
  ptPid :: int
  ptStartTicks :: "nat option"
  ptBootId :: "string option"
  ptKey :: string

record host_process =
  hpMetric :: "host_key \<Rightarrow> host_value host_metric"
  hpIdentity :: process_identity_tuple
  hpCapsOwned :: bool
  hpRowState :: host_row_state
  hpStateReason :: "host_reason option"
  hpSampled :: bool

record process_counters =
  pcCpuTicks :: nat
  pcMinorFaults :: "nat option"
  pcReadBytes :: int
  pcWriteBytes :: int
  pcStartTicks :: nat

record process_previous =
  ppIdentities :: "string \<rightharpoonup> process_counters"
  ppAtMs :: rat

definition hostIdentityKey :: "int \<Rightarrow> nat option \<Rightarrow> string option \<Rightarrow> string" where
  "hostIdentityKey pid startTicks bootId =
     int_text pid @ ''@'' @ (case startTicks of None \<Rightarrow> ''?'' | Some t \<Rightarrow> nat_text t) @ ''#'' @
     (case bootId of None \<Rightarrow> ''?'' | Some b \<Rightarrow> b)"

definition STATE_LETTERS :: "(string \<times> string) list" where
  "STATE_LETTERS =
     [(''R'', ''running''), (''S'', ''sleeping''), (''D'', ''uninterruptible sleep''), (''Z'', ''zombie''),
      (''T'', ''stopped''), (''t'', ''tracing stop''), (''X'', ''dead''), (''x'', ''dead''),
      (''K'', ''wakekill''), (''W'', ''waking''), (''P'', ''parked''), (''I'', ''idle'')]"

section \<open>Parsing\<close>

record stat_line =
  tlPid :: "rat option"
  tlComm :: string
  tlState :: string
  tlPpid :: nat
  tlPgrp :: nat
  tlSession :: nat
  tlUtime :: nat
  tlStime :: nat
  tlMinflt :: "nat option"
  tlMajflt :: "nat option"
  tlThreads :: "nat option"
  tlStartTicks :: nat

definition parseStatLine :: "string \<Rightarrow> stat_line option" where
  "parseStatLine text =
     (case (index_of_open text, last_index_of_close text) of
        (Some opn, Some cls) \<Rightarrow>
          (let f = split_spaces (drop (cls + 1) text);
               num = (\<lambda>i. if i < length f then safe_nat (f ! i) else None) in
           if opn = 0 \<or> cls \<le> opn \<or> length f < 20 \<or> length (hd f) \<noteq> 1 \<or> \<not> is_letter (hd (hd f))
           then None
           else
             (case (num 1, num 2, num 3, num 11, num 12, num 19) of
                (Some ppid, Some pgrp, Some session, Some utime, Some stime, Some start) \<Rightarrow>
                  Some \<lparr>tlPid = js_number (js_trim (take opn text)),
                        tlComm = take (cls - (opn + 2)) (drop (opn + 2) text), tlState = hd f,
                        tlPpid = ppid, tlPgrp = pgrp, tlSession = session, tlUtime = utime,
                        tlStime = stime, tlMinflt = num 7, tlMajflt = num 9, tlThreads = num 17,
                        tlStartTicks = start\<rparr>
              | _ \<Rightarrow> None))
      | _ \<Rightarrow> None)"

text \<open>The trimmed key and value of a line with a colon that is not its first character.\<close>

definition trimmed_line :: "string \<Rightarrow> (string \<times> string) option" where
  "trimmed_line line = map_option (\<lambda>(k, v). (js_trim k, v)) (colon_line line)"

definition statusMap :: "string \<Rightarrow> string \<rightharpoonup> string" where
  "statusMap text =
     fold (\<lambda>line m. case trimmed_line line of None \<Rightarrow> m | Some (k, v) \<Rightarrow> m(k \<mapsto> v))
       (split_on (\<lambda>c. c = CHR 0x0A) text) Map.empty"

definition kibToBytes :: "(string \<rightharpoonup> string) \<Rightarrow> string \<Rightarrow> nat option" where
  "kibToBytes status key =
     (case status key of
        None \<Rightarrow> None
      | Some raw \<Rightarrow>
          (let ds = takeWhile is_digit raw; r = dropWhile is_digit raw in
           if takeWhile js_space r = [] \<or> dropWhile js_space r \<noteq> ''kB'' then None
           else map_option (\<lambda>n. n * 1024) (safe_nat ds)))"

definition statusUint :: "(string \<rightharpoonup> string) \<Rightarrow> string \<Rightarrow> nat option" where
  "statusUint status key =
     (case status key of None \<Rightarrow> None | Some raw \<Rightarrow> safe_nat (hd (split_spaces raw)))"

definition statusPidOf :: "(string \<rightharpoonup> string) \<Rightarrow> int option" where
  "statusPidOf status =
     (case status ''Pid'' of
        None \<Rightarrow> None
      | Some raw \<Rightarrow>
          (case js_number (js_trim raw) of
             Some n \<Rightarrow> if is_integral n \<and> \<bar>\<lfloor>n\<rfloor>\<bar> \<le> int MAX_SAFE_INTEGER then Some \<lfloor>n\<rfloor> else None
           | None \<Rightarrow> None))"

text \<open>The trailing NULs go; what is left is split at the others.\<close>

definition parseCmdline :: "string \<Rightarrow> string list" where
  "parseCmdline text =
     (let trimmed = rev (dropWhile (\<lambda>c. c = CHR 0x00) (rev text)) in
      if trimmed = [] then [] else split_on (\<lambda>c. c = CHR 0x00) trimmed)"

definition parseIo :: "string \<Rightarrow> string \<rightharpoonup> int" where
  "parseIo text =
     fold (\<lambda>line m.
         case trimmed_line line of
           None \<Rightarrow> m
         | Some (k, v) \<Rightarrow>
             if k \<notin> {''read_bytes'', ''write_bytes'', ''rchar'', ''wchar''} then m
             else
               (case js_number v of
                  Some n \<Rightarrow>
                    if is_integral n \<and> 0 \<le> n \<and> \<lfloor>n\<rfloor> \<le> int MAX_SAFE_INTEGER then m(k \<mapsto> \<lfloor>n\<rfloor>) else m
                | None \<Rightarrow> m))
       (split_on (\<lambda>c. c = CHR 0x0A) text) Map.empty"

definition parseSchedstat :: "string \<Rightarrow> (nat \<times> nat \<times> nat) option" where
  "parseSchedstat text =
     (let f = split_spaces text in
      if length f < 3 then None
      else
        (case (safe_nat (f ! 0), safe_nat (f ! 1), safe_nat (f ! 2)) of
           (Some a, Some b, Some c) \<Rightarrow> Some (a, b, c)
         | _ \<Rightarrow> None))"

section \<open>One process\<close>

text \<open>What \<open>buildSmapsRollup\<close> hands over, when it was asked for.\<close>

record smaps_rollup =
  smPss :: "host_value host_metric"
  smAnonymous :: "host_value host_metric"
  smFileBacked :: "host_value host_metric"
  smShared :: "host_value host_metric"

definition host_unit :: "host_key \<Rightarrow> string" where
  "host_unit k =
     (if k = P_cpuTimeMs then ''ms'' else if k = P_cpuPercent then ''%''
      else if k \<in> {P_rssBytes, P_pssBytes, P_anonymousBytes, P_fileBackedBytes, P_sharedBytes,
                   P_swapBytes, P_virtualMemoryBytes, P_readBytes, P_writeBytes} then ''bytes''
      else if k \<in> {P_schedulerRuntimeNs, P_schedulerWaitNs} then ''ns'' else ''1'')"

definition emptyRow ::
    "int \<Rightarrow> string option \<Rightarrow> host_row_state \<Rightarrow> host_reason \<Rightarrow> string \<Rightarrow> string \<Rightarrow> host_process" where
  "emptyRow pid bootId state reason ts src =
     \<lparr>hpMetric = (\<lambda>k. h_unavailable (host_unit k) src ts reason),
      hpIdentity = \<lparr>ptPid = pid, ptStartTicks = None, ptBootId = bootId,
                    ptKey = hostIdentityKey pid None bootId\<rparr>,
      hpCapsOwned = False, hpRowState = state, hpStateReason = Some reason, hpSampled = False\<rparr>"

text \<open>The local variables of \<open>readHostProcess\<close> once its files were read.\<close>

record process_scan =
  xsRoot :: string
  xsStat :: stat_line
  xsStatus :: "string \<rightharpoonup> string"
  xsStatusFailure :: "read_failure option"
  xsCmdline :: "read_failure + string"
  xsIo :: "read_failure + string"
  xsSched :: "read_failure + string"
  xsTicks :: "rat option"
  xsCpuPercent :: "host_value host_metric"
  xsSmaps :: "smaps_rollup option"
  xsTimestamp :: string

definition status_reason :: "process_scan \<Rightarrow> string \<Rightarrow> host_reason" where
  "status_reason x what =
     (case xsStatusFailure x of Some f \<Rightarrow> Unreadable f | None \<Rightarrow> Proc_field_absent what)"

definition metricOrUnavailable ::
    "nat option \<Rightarrow> string \<Rightarrow> string \<Rightarrow> string \<Rightarrow> host_reason \<Rightarrow> host_value host_metric" where
  "metricOrUnavailable v unit src ts r =
     (case v of None \<Rightarrow> h_unavailable unit src ts r
              | Some n \<Rightarrow> h_observed (Number (of_nat n)) unit src ts)"

definition status_metric :: "process_scan \<Rightarrow> nat option \<Rightarrow> string \<Rightarrow> string \<Rightarrow> host_value host_metric" where
  "status_metric x v unit what =
     metricOrUnavailable v unit (xsRoot x @ ''/status '' @ what) (xsTimestamp x) (status_reason x what)"

definition ioMetric :: "process_scan \<Rightarrow> string \<Rightarrow> host_value host_metric" where
  "ioMetric x key =
     (let src = xsRoot x @ ''/io '' @ key in
      case xsIo x of
        Inl f \<Rightarrow> h_unavailable ''bytes'' src (xsTimestamp x) (Unreadable f)
      | Inr text \<Rightarrow>
          (case parseIo text key of
             Some n \<Rightarrow> h_observed (Number (of_int n)) ''bytes'' src (xsTimestamp x)
           | None \<Rightarrow> h_unavailable ''bytes'' src (xsTimestamp x) (Proc_field_absent key)))"

definition sched_metric ::
    "process_scan \<Rightarrow> (nat \<times> nat \<times> nat \<Rightarrow> nat) \<Rightarrow> string \<Rightarrow> string \<Rightarrow> host_value host_metric" where
  "sched_metric x part unit nth_field =
     (case xsSched x of
        Inl f \<Rightarrow> h_unavailable unit (xsRoot x @ ''/schedstat'') (xsTimestamp x)
                   (if rfKind f = Missing then Proc_no_schedstat else Unreadable f)
      | Inr text \<Rightarrow>
          (case parseSchedstat text of
             None \<Rightarrow> h_unavailable unit (xsRoot x @ ''/schedstat'') (xsTimestamp x) Proc_sched_malformed
           | Some s \<Rightarrow> h_observed (Number (of_nat (part s))) unit
                         (''/proc/<pid>/schedstat field '' @ nth_field) (xsTimestamp x)))"

definition smaps_metric ::
    "process_scan \<Rightarrow> (smaps_rollup \<Rightarrow> host_value host_metric) \<Rightarrow> host_value host_metric" where
  "smaps_metric x part =
     (case xsSmaps x of
        Some s \<Rightarrow> part s
      | None \<Rightarrow> h_unavailable ''bytes'' (xsRoot x @ ''/smaps_rollup'') (xsTimestamp x) Proc_pss_deferred)"

definition process_name :: "process_scan \<Rightarrow> string" where
  "process_name x =
     (case xsCmdline x of
        Inl f \<Rightarrow> tlComm (xsStat x)
      | Inr text \<Rightarrow> (case parseCmdline text of [] \<Rightarrow> tlComm (xsStat x) | w # _ \<Rightarrow> w))"

definition letter_name :: "string \<Rightarrow> string" where
  "letter_name l =
     (case map_of STATE_LETTERS l of
        Some n \<Rightarrow> n | None \<Rightarrow> ''unknown state letter '' @ [CHR 0x22] @ l @ [CHR 0x22])"

fun live_metric :: "process_scan \<Rightarrow> host_key \<Rightarrow> host_value host_metric" where
  "live_metric x P_pid =
     h_observed (case tlPid (xsStat x) of Some n \<Rightarrow> Number n | None \<Rightarrow> Not_a_number) ''1''
       (xsRoot x @ ''/stat'') (xsTimestamp x)"
| "live_metric x P_ppid =
     h_observed (Number (of_nat (tlPpid (xsStat x)))) ''1'' (xsRoot x @ ''/stat'') (xsTimestamp x)"
| "live_metric x P_relationshipConfidence =
     h_unavailable ''1'' (xsRoot x @ ''/stat'') (xsTimestamp x) Proc_link_unsettled"
| "live_metric x P_name =
     h_observed (Words (process_name x)) ''1''
       (xsRoot x @ (case xsCmdline x of Inr _ \<Rightarrow> ''/cmdline'' | Inl _ \<Rightarrow> ''/stat'')) (xsTimestamp x)"
| "live_metric x P_cmdline =
     (case xsCmdline x of
        Inr text \<Rightarrow> h_observed (Argv (parseCmdline text)) ''1'' (xsRoot x @ ''/cmdline'') (xsTimestamp x)
      | Inl f \<Rightarrow> h_unavailable ''1'' (xsRoot x @ ''/cmdline'') (xsTimestamp x) (Unreadable f))"
| "live_metric x P_state = h_observed (Words (tlState (xsStat x))) ''1'' (xsRoot x @ ''/stat'') (xsTimestamp x)"
| "live_metric x P_stateName =
     h_observed (Words (letter_name (tlState (xsStat x)))) ''1'' (xsRoot x @ ''/stat'') (xsTimestamp x)"
| "live_metric x P_uid = status_metric x (statusUint (xsStatus x) ''Uid'') ''1'' ''Uid''"
| "live_metric x P_gid = status_metric x (statusUint (xsStatus x) ''Gid'') ''1'' ''Gid''"
| "live_metric x P_threads =
     metricOrUnavailable (tlThreads (xsStat x)) ''1'' (xsRoot x @ ''/stat field 20 (num_threads)'')
       (xsTimestamp x) (Proc_field_unreadable ''num_threads'')"
| "live_metric x P_cpuTimeMs =
     (case xsTicks x of
        None \<Rightarrow> h_unavailable ''ms'' (xsRoot x @ ''/stat'') (xsTimestamp x) Proc_no_ticks
      | Some t \<Rightarrow> h_derived (Number (of_nat (tlUtime (xsStat x) + tlStime (xsStat x)) / t * 1000)) ''ms''
                    (xsRoot x @ ''/stat utime + stime'') (xsTimestamp x))"
| "live_metric x P_cpuPercent = xsCpuPercent x"
| "live_metric x P_rssBytes = status_metric x (kibToBytes (xsStatus x) ''VmRSS'') ''bytes'' ''VmRSS''"
| "live_metric x P_pssBytes = smaps_metric x smPss"
| "live_metric x P_anonymousBytes = smaps_metric x smAnonymous"
| "live_metric x P_fileBackedBytes = smaps_metric x smFileBacked"
| "live_metric x P_sharedBytes = status_metric x (kibToBytes (xsStatus x) ''RssShmem'') ''bytes'' ''RssShmem''"
| "live_metric x P_swapBytes = status_metric x (kibToBytes (xsStatus x) ''VmSwap'') ''bytes'' ''VmSwap''"
| "live_metric x P_virtualMemoryBytes =
     status_metric x (kibToBytes (xsStatus x) ''VmSize'') ''bytes'' ''VmSize''"
| "live_metric x P_voluntaryContextSwitches =
     status_metric x (statusUint (xsStatus x) ''voluntary_ctxt_switches'') ''1'' ''voluntary_ctxt_switches''"
| "live_metric x P_nonVoluntaryContextSwitches =
     status_metric x (statusUint (xsStatus x) ''nonvoluntary_ctxt_switches'') ''1'' ''nonvoluntary_ctxt_switches''"
| "live_metric x P_minorFaults =
     metricOrUnavailable (tlMinflt (xsStat x)) ''1'' (xsRoot x @ ''/stat field 10 (minflt)'')
       (xsTimestamp x) (Proc_field_unreadable ''minor_faults'')"
| "live_metric x P_majorFaults =
     metricOrUnavailable (tlMajflt (xsStat x)) ''1'' (xsRoot x @ ''/stat field 12 (majflt)'')
       (xsTimestamp x) (Proc_field_unreadable ''major_faults'')"
| "live_metric x P_readBytes = ioMetric x ''read_bytes''"
| "live_metric x P_writeBytes = ioMetric x ''write_bytes''"
| "live_metric x P_processGroupId =
     h_observed (Number (of_nat (tlPgrp (xsStat x)))) ''1'' (xsRoot x @ ''/stat'') (xsTimestamp x)"
| "live_metric x P_sessionId =
     h_observed (Number (of_nat (tlSession (xsStat x)))) ''1'' (xsRoot x @ ''/stat'') (xsTimestamp x)"
| "live_metric x P_cpuAffinity =
     (case xsStatus x ''Cpus_allowed_list'' of
        Some v \<Rightarrow> h_observed (Words v) ''1'' (xsRoot x @ ''/status Cpus_allowed_list'') (xsTimestamp x)
      | None \<Rightarrow> h_unavailable ''1'' (xsRoot x @ ''/status Cpus_allowed_list'') (xsTimestamp x)
                  (status_reason x ''Cpus_allowed_list''))"
| "live_metric x P_schedulerRuntimeNs = sched_metric x fst ''ns'' ''1''"
| "live_metric x P_schedulerWaitNs = sched_metric x (fst \<circ> snd) ''ns'' ''2''"
| "live_metric x P_schedulerTimeslices = sched_metric x (snd \<circ> snd) ''1'' ''3''"

text \<open>The state of the row when its stat file was read, from the reading of its status file.\<close>

definition status_state :: "read_failure option \<Rightarrow> host_row_state \<times> host_reason option" where
  "status_state failure =
     (case failure of
        None \<Rightarrow> (LIVE, None)
      | Some f \<Rightarrow>
          (case rfKind f of
             Missing \<Rightarrow> (EXITED, Some (Proc_vanished f))
           | Permission \<Rightarrow> (PERMISSION_DENIED, Some (Unreadable f))
           | _ \<Rightarrow> (UNAVAILABLE_ROW, Some (Unreadable f))))"

text \<open>The utilization since the previous sample of the identity, and the counters it carries on.\<close>

definition cpu_percent_step ::
    "process_counters option \<Rightarrow> stat_line \<Rightarrow> rat option \<Rightarrow> rat \<Rightarrow> rat option \<Rightarrow> string \<Rightarrow> string \<Rightarrow>
     host_value host_metric \<times> process_counters option" where
  "cpu_percent_step previous st ticks nowMs previousAt src ts =
     (case previous of
        None \<Rightarrow> (h_unavailable ''%'' src ts Proc_first_sample, None)
      | Some p \<Rightarrow>
          if pcStartTicks p \<noteq> tlStartTicks st then (h_unavailable ''%'' src ts Proc_reused, None)
          else
            (case (previousAt, ticks) of
               (Some prior, Some t) \<Rightarrow>
                 if nowMs - prior \<le> 0 then (h_unavailable ''%'' src ts Proc_no_interval, None)
                 else
                   (let dTicks = int (tlUtime st + tlStime st) - int (pcCpuTicks p) in
                    (if dTicks < 0 then h_unavailable ''%'' src ts Proc_decreased
                     else h_derived (Number (of_int dTicks / t / ((nowMs - prior) / 1000) * 100)) ''%''
                            (src @ '' utime+stime, delta of two samples'') ts,
                     Some \<lparr>pcCpuTicks = tlUtime st + tlStime st, pcMinorFaults = tlMinflt st,
                           pcReadBytes = pcReadBytes p, pcWriteBytes = pcWriteBytes p,
                           pcStartTicks = tlStartTicks st\<rparr>))
             | _ \<Rightarrow> (h_unavailable ''%'' src ts Proc_no_interval, None)))"

definition or_else :: "'a option \<Rightarrow> 'a \<Rightarrow> 'a" where
  "or_else v d = (case v of Some x \<Rightarrow> x | None \<Rightarrow> d)"

text \<open>The counters at the end: those of the step with the disk side, or those of the same process.\<close>

definition carried_counters ::
    "process_counters option \<Rightarrow> process_counters option \<Rightarrow> stat_line \<Rightarrow> (string \<rightharpoonup> int) \<Rightarrow>
     process_counters option" where
  "carried_counters counters previous st io =
     (case counters of
        Some c \<Rightarrow>
          Some (c \<lparr>pcReadBytes := or_else (io ''read_bytes'') (case previous of Some p \<Rightarrow> pcReadBytes p | None \<Rightarrow> 0),
                  pcWriteBytes := or_else (io ''write_bytes'') (case previous of Some p \<Rightarrow> pcWriteBytes p | None \<Rightarrow> 0),
                  pcMinorFaults := tlMinflt st\<rparr>)
      | None \<Rightarrow>
          (case previous of
             Some p \<Rightarrow>
               if pcStartTicks p = tlStartTicks st
               then Some \<lparr>pcCpuTicks = tlUtime st + tlStime st, pcMinorFaults = tlMinflt st,
                          pcReadBytes = or_else (io ''read_bytes'') (pcReadBytes p),
                          pcWriteBytes = or_else (io ''write_bytes'') (pcWriteBytes p),
                          pcStartTicks = tlStartTicks st\<rparr>
               else None
           | None \<Rightarrow> None))"

text \<open>The other pid a status file names.\<close>

definition replaced_by :: "int \<Rightarrow> (string \<rightharpoonup> string) \<Rightarrow> int option" where
  "replaced_by pid status =
     (case statusPidOf status of Some other \<Rightarrow> if other \<noteq> pid then Some other else None | None \<Rightarrow> None)"

definition readHostProcess ::
    "kfiles \<Rightarrow> kernel_paths \<Rightarrow> int \<Rightarrow> rat option \<Rightarrow> string option \<Rightarrow>
     (string \<rightharpoonup> process_counters) option \<Rightarrow> rat \<Rightarrow> rat option \<Rightarrow> smaps_rollup option \<Rightarrow> string \<Rightarrow>
     host_process \<times> process_counters option" where
  "readHostProcess files paths pid ticks bootId previousIdentities nowMs previousAt smaps ts =
     (let root = procPath paths [int_text pid]; statPath = root @ ''/stat'' in
      case readTextFile files statPath of
        Inl f \<Rightarrow>
          (emptyRow pid bootId
             (case rfKind f of Missing \<Rightarrow> EXITED | Permission \<Rightarrow> PERMISSION_DENIED | _ \<Rightarrow> UNAVAILABLE_ROW)
             (Unreadable f) ts statPath, None)
      | Inr text \<Rightarrow>
          (case parseStatLine text of
             None \<Rightarrow> (emptyRow pid bootId UNAVAILABLE_ROW Proc_stat_malformed ts statPath, None)
           | Some st \<Rightarrow>
               (let key = hostIdentityKey pid (Some (tlStartTicks st)) bootId;
                    previous = Option.bind previousIdentities (\<lambda>m. m key);
                    (cpuPercent, counters) = cpu_percent_step previous st ticks nowMs previousAt statPath ts;
                    statusRead = readTextFile files (root @ ''/status'');
                    status = (case statusRead of Inr t \<Rightarrow> statusMap t | Inl f \<Rightarrow> Map.empty);
                    failure = (case statusRead of Inr t \<Rightarrow> None | Inl f \<Rightarrow> Some f);
                    (state, reason) = status_state failure;
                    ioRead = readTextFile files (root @ ''/io'');
                    io = (case ioRead of Inr t \<Rightarrow> parseIo t | Inl f \<Rightarrow> Map.empty) in
                case replaced_by pid status of
                  Some other \<Rightarrow>
                    (emptyRow pid bootId DISAPPEARED (Proc_replaced other) ts (root @ ''/status''), None)
                | None \<Rightarrow>
                    (\<lparr>hpMetric = live_metric
                        \<lparr>xsRoot = root, xsStat = st, xsStatus = status, xsStatusFailure = failure,
                         xsCmdline = readTextFile files (root @ ''/cmdline''), xsIo = ioRead,
                         xsSched = readTextFile files (root @ ''/schedstat''), xsTicks = ticks,
                         xsCpuPercent = cpuPercent, xsSmaps = smaps, xsTimestamp = ts\<rparr>,
                      hpIdentity = \<lparr>ptPid = pid, ptStartTicks = Some (tlStartTicks st),
                                    ptBootId = bootId, ptKey = key\<rparr>,
                      hpCapsOwned = False, hpRowState = state, hpStateReason = reason,
                      hpSampled = True\<rparr>,
                     carried_counters counters previous st io))))"

section \<open>The whole inventory\<close>

definition countUnavailable :: "host_process \<Rightarrow> nat" where
  "countUnavailable row = length (filter (\<lambda>k. hmProvenance (hpMetric row k) = Unavailable) HOST_KEYS)"

text \<open>Ownership and parent links, judged against the pids of the sample.\<close>

definition relationship_of :: "int set \<Rightarrow> string \<Rightarrow> host_process \<Rightarrow> host_value host_metric" where
  "relationship_of sampledPids ts row =
     (let ppid = hpMetric row P_ppid in
      case hmValue ppid of
        Some (Number n) \<Rightarrow>
          h_observed (Words (if \<exists>p \<in> sampledPids. of_int p = n then ''VERIFIED'' else ''UNVERIFIED''))
            ''1'' (hmSource ppid) ts
      | Some _ \<Rightarrow> h_observed (Words ''UNVERIFIED'') ''1'' (hmSource ppid) ts
      | None \<Rightarrow> h_unavailable ''1'' (hmSource ppid) ts
                  (case hmReason ppid of Some r \<Rightarrow> r | None \<Rightarrow> Proc_no_parent))"

definition annotateRelationships ::
    "string set \<Rightarrow> string \<Rightarrow> int set \<Rightarrow> host_process list \<Rightarrow> host_process list" where
  "annotateRelationships owned ts context processes =
     (let sampledPids = context \<union> ptPid ` hpIdentity ` set processes in
      map (\<lambda>row. row \<lparr>hpCapsOwned := (ptKey (hpIdentity row) \<in> owned),
                    hpMetric := (hpMetric row)(P_relationshipConfidence := relationship_of sampledPids ts row)\<rparr>)
        processes)"

text \<open>The entries of \<^verbatim>\<open>/proc\<close> that are processes, in ascending order.\<close>

definition numeric_pids :: "string list \<Rightarrow> int list" where
  "numeric_pids names =
     sort (map int (filter (\<lambda>n. 0 < n) (List.map_filter safe_nat names)))"

record discovery =
  dvProcesses :: "host_process list"
  dvSampled :: nat
  dvUnavailable :: nat
  dvPssSkipped :: nat
  dvCounters :: "string \<rightharpoonup> process_counters"

definition discover_step :: "nat \<Rightarrow> host_process \<times> process_counters option \<Rightarrow> discovery \<Rightarrow> discovery" where
  "discover_step maxSampled result d =
     (let (row, counters) = result in
      if dvSampled d \<ge> maxSampled then
        (let d = d \<lparr>dvPssSkipped := dvPssSkipped d + 1\<rparr> in
         if hpRowState row = EXITED then d
         else d \<lparr>dvProcesses := dvProcesses d @
                [row \<lparr>hpSampled := False,
                      hpStateReason := Some (Proc_not_detailed maxSampled (hpStateReason row))\<rparr>]\<rparr>)
      else
        (let d = d \<lparr>dvSampled := dvSampled d + 1,
                   dvCounters := (case counters of
                      None \<Rightarrow> dvCounters d
                    | Some c \<Rightarrow> (dvCounters d)(ptKey (hpIdentity row) \<mapsto> c)),
                   dvUnavailable := dvUnavailable d + countUnavailable row\<rparr> in
         if hpRowState row = EXITED then d
         else d \<lparr>dvProcesses := dvProcesses d @ [row]\<rparr>))"

record discover_result =
  drProcesses :: "host_process list"
  drDiscovered :: nat
  drSampled :: nat
  drUnavailable :: nat
  drPssSkipped :: nat
  drPrevious :: process_previous

text \<open>What one pass reads of its surroundings; \<open>obListing\<close> is the listing of \<^verbatim>\<open>/proc\<close>.\<close>

record proc_pass =
  obFiles :: kfiles
  obListing :: "errno + string list"
  obTicks :: "rat option"
  obNow :: rat
  obTimestamp :: string
  obOwned :: "string set"

definition discoverProcesses ::
    "kernel_paths \<Rightarrow> nat \<Rightarrow> process_previous option \<Rightarrow> proc_pass \<Rightarrow> discover_result" where
  "discoverProcesses paths maxSampled previous ob =
     (case obListing ob of
        Inl e \<Rightarrow>
          \<lparr>drProcesses = [], drDiscovered = 0, drSampled = 0, drUnavailable = 0, drPssSkipped = 0,
           drPrevious = \<lparr>ppIdentities = Map.empty, ppAtMs = obNow ob\<rparr>\<rparr>
      | Inr names \<Rightarrow>
          (let pids = numeric_pids names;
               bootId = readBootIdFile (obFiles ob) paths;
               d = fold (\<lambda>pid. discover_step maxSampled
                     (readHostProcess (obFiles ob) paths pid (obTicks ob) bootId
                        (map_option ppIdentities previous) (obNow ob) (map_option ppAtMs previous) None
                        (obTimestamp ob))) pids
                     \<lparr>dvProcesses = [], dvSampled = 0, dvUnavailable = 0, dvPssSkipped = 0,
                      dvCounters = Map.empty\<rparr> in
           \<lparr>drProcesses = annotateRelationships (obOwned ob) (obTimestamp ob) {} (dvProcesses d),
            drDiscovered = length pids, drSampled = dvSampled d, drUnavailable = dvUnavailable d,
            drPssSkipped = dvPssSkipped d,
            drPrevious = \<lparr>ppIdentities = dvCounters d, ppAtMs = obNow ob\<rparr>\<rparr>))"

text \<open>
  The collector keeps the counters of one pass for the next (\<^verbatim>\<open>collector.ts\<close>, \<open>collect\<close>): the passes
  of a collector that has just started.
\<close>

definition collector_pass ::
    "kernel_paths \<Rightarrow> nat \<Rightarrow> proc_pass \<Rightarrow> process_previous option \<times> discover_result list \<Rightarrow>
     process_previous option \<times> discover_result list" where
  "collector_pass paths maxSampled ob st =
     (let r = discoverProcesses paths maxSampled (fst st) ob in (Some (drPrevious r), snd st @ [r]))"

definition collector_passes :: "kernel_paths \<Rightarrow> nat \<Rightarrow> proc_pass list \<Rightarrow> discover_result list" where
  "collector_passes paths maxSampled obs = snd (fold (collector_pass paths maxSampled) obs (None, []))"

section \<open>Clock ticks, the sum of the states\<close>

text \<open>\<open>cachedClockTicks\<close> is \<open>None\<close> for \<open>undefined\<close>; \<open>answer\<close> is the output of \<^verbatim>\<open>getconf\<close> or its failure.\<close>

definition probe_host_ticks :: "string option \<Rightarrow> rat option option \<Rightarrow> rat option \<times> rat option option" where
  "probe_host_ticks answer cached =
     (case cached of
        Some v \<Rightarrow> (v, cached)
      | None \<Rightarrow>
          (let v = (case Option.bind answer (\<lambda>out. js_number (js_trim out)) of
                      Some n \<Rightarrow> if 0 < n then Some n else None | None \<Rightarrow> None) in (v, Some v)))"

record process_summary =
  pyTotal :: "nat host_metric"
  pyRunning :: "nat host_metric"
  pySleeping :: "nat host_metric"
  pyStopped :: "nat host_metric"
  pyZombie :: "nat host_metric"
  pyUninterruptible :: "nat host_metric"
  pyThreadsTotal :: "rat host_metric"
  pyProcessesCreated :: "int host_metric"

definition letter_of :: "host_process \<Rightarrow> string option" where
  "letter_of p = (case hmValue (hpMetric p P_state) of Some (Words l) \<Rightarrow> Some l | _ \<Rightarrow> None)"

definition classified :: "host_process list \<Rightarrow> host_process list" where
  "classified ps = filter (\<lambda>p. hpRowState p = LIVE \<and> hmValue (hpMetric p P_state) \<noteq> None) ps"

definition in_state :: "string list \<Rightarrow> host_process list \<Rightarrow> nat" where
  "in_state letters ps = length (filter (\<lambda>p. \<exists>l \<in> set letters. letter_of p = Some l) (classified ps))"

definition threads_of :: "host_process \<Rightarrow> rat" where
  "threads_of p = (case hmValue (hpMetric p P_threads) of Some (Number n) \<Rightarrow> n | _ \<Rightarrow> 0)"

definition processSummaryFrom :: "host_process list \<Rightarrow> string \<Rightarrow> int option \<Rightarrow> process_summary" where
  "processSummaryFrom ps ts created =
     (let where = ''/proc/<pid>/stat state field, across the discovered process set'';
          count = (\<lambda>n. h_observed n ''1'' where ts) in
      \<lparr>pyTotal = count (length ps), pyRunning = count (in_state [''R''] ps),
       pySleeping = count (in_state [''S''] ps), pyStopped = count (in_state [''T'', ''t''] ps),
       pyZombie = count (in_state [''Z''] ps), pyUninterruptible = count (in_state [''D''] ps),
       pyThreadsTotal = h_observed (sum_list (map threads_of (classified ps))) ''1'' where ts,
       pyProcessesCreated =
         (case created of
            None \<Rightarrow> h_unavailable ''1'' ''/proc/stat processes field'' ts Proc_forks_absent
          | Some n \<Rightarrow> h_observed n ''1'' ''/proc/stat processes field'' ts)\<rparr>)"

section \<open>The counters of the first pass\<close>

lemma first_step: "cpu_percent_step None st ticks now before src ts = (h_unavailable ''%'' src ts Proc_first_sample, None)"
  by (simp add: cpu_percent_step_def)

text \<open>Without earlier counters a process has neither a utilization nor counters to carry on.\<close>

lemma read_without_previous:
  assumes "readHostProcess files paths pid ticks bootId previous now before smaps ts = (row, counters)"
    and "previous = None \<or> previous = Some Map.empty"
  shows "counters = None \<and> hmValue (hpMetric row P_cpuPercent) = None"
proof -
  have "Option.bind previous (\<lambda>m. m key) = None" for key
    using assms(2) by auto
  then show ?thesis
    using assms(1)
    by (auto simp: readHostProcess_def Let_def emptyRow_def first_step carried_counters_def
        split: sum.splits option.splits prod.splits)
qed

lemma discover_invariant:
  assumes "\<And>pid. counters_free (f pid)" 
    and "counters_free = (\<lambda>r. snd r = None \<and> hmValue (hpMetric (fst r) P_cpuPercent) = None)"
    and "dvCounters d = Map.empty" "\<forall>p \<in> set (dvProcesses d). hmValue (hpMetric p P_cpuPercent) = None"
  shows "dvCounters (fold (\<lambda>pid. discover_step n (f pid)) pids d) = Map.empty \<and>
    (\<forall>p \<in> set (dvProcesses (fold (\<lambda>pid. discover_step n (f pid)) pids d)). hmValue (hpMetric p P_cpuPercent) = None)"
  using assms(3,4)
proof (induction pids arbitrary: d)
  case (Cons pid pids)
  have f: "snd (f pid) = None" "hmValue (hpMetric (fst (f pid)) P_cpuPercent) = None"
    using assms(1) [of pid] by (simp_all add: assms(2))
  have "dvCounters (discover_step n (f pid) d) = Map.empty"
    "\<forall>p \<in> set (dvProcesses (discover_step n (f pid) d)). hmValue (hpMetric p P_cpuPercent) = None"
    using Cons.prems f by (auto simp: discover_step_def Let_def case_prod_unfold)
  from Cons.IH [OF this] show ?case by simp
qed simp

lemma annotate_cpu:
  "\<forall>p \<in> set (annotateRelationships owned ts ctx ps). \<exists>q \<in> set ps. hpMetric p P_cpuPercent = hpMetric q P_cpuPercent"
  by (auto simp: annotateRelationships_def Let_def)

lemma discover_without_previous:
  assumes "\<forall>p. previous = Some p \<longrightarrow> ppIdentities p = Map.empty"
  shows "ppIdentities (drPrevious (discoverProcesses paths n previous ob)) = Map.empty \<and>
    (\<forall>p \<in> set (drProcesses (discoverProcesses paths n previous ob)). hmValue (hpMetric p P_cpuPercent) = None)"
proof (cases "obListing ob")
  case (Inl e)
  then show ?thesis by (simp add: discoverProcesses_def)
next
  case (Inr names)
  let ?read = "\<lambda>pid. readHostProcess (obFiles ob) paths pid (obTicks ob) (readBootIdFile (obFiles ob) paths)
      (map_option ppIdentities previous) (obNow ob) (map_option ppAtMs previous) None (obTimestamp ob)"
  have none: "map_option ppIdentities previous = None \<or> map_option ppIdentities previous = Some Map.empty"
    using assms by (cases previous) simp_all
  have free: "snd (?read pid) = None \<and> hmValue (hpMetric (fst (?read pid)) P_cpuPercent) = None" for pid
    by (rule read_without_previous [OF _ none]) (rule prod.collapse [symmetric])
  let ?d = "fold (\<lambda>pid. discover_step n (?read pid)) (numeric_pids names) \<lparr>dvProcesses = [], dvSampled = 0,
      dvUnavailable = 0, dvPssSkipped = 0, dvCounters = Map.empty\<rparr>"
  have "dvCounters ?d = Map.empty \<and> (\<forall>p \<in> set (dvProcesses ?d). hmValue (hpMetric p P_cpuPercent) = None)"
    by (rule discover_invariant [OF _ refl]) (simp_all add: free)
  moreover have "drProcesses (discoverProcesses paths n previous ob) =
      annotateRelationships (obOwned ob) (obTimestamp ob) {} (dvProcesses ?d)"
    "ppIdentities (drPrevious (discoverProcesses paths n previous ob)) = dvCounters ?d"
    by (simp_all only: discoverProcesses_def Inr sum.case Let_def discover_result.simps process_previous.simps)
  ultimately show ?thesis
    using annotate_cpu [of "obOwned ob" "obTimestamp ob" "{}" "dvProcesses ?d"] by metis
qed

text \<open>A process that used five ticks since it was last counted.\<close>

definition worker_files :: kfiles where
  "worker_files path =
     (if path = ''/proc/41/stat'' then Inr ''41 (w) S 900 8 9 0 0 0 70 0 2 0 10 5 0 0 0 0 1 0 500 0 0''
      else Inl ENOENT)"

definition worker_counters :: process_counters where
  "worker_counters = \<lparr>pcCpuTicks = 10, pcMinorFaults = None, pcReadBytes = 0, pcWriteBytes = 0, pcStartTicks = 500\<rparr>"

lemma worker_stat: "parseStatLine ''41 (w) S 900 8 9 0 0 0 70 0 2 0 10 5 0 0 0 0 1 0 500 0 0'' =
    Some \<lparr>tlPid = Some 41, tlComm = ''w'', tlState = ''S'', tlPpid = 900, tlPgrp = 8, tlSession = 9,
          tlUtime = 10, tlStime = 5, tlMinflt = Some 70, tlMajflt = Some 2, tlThreads = Some 1, tlStartTicks = 500\<rparr>"
  by (simp add: parseStatLine_def last_index_of_close_def js_trim_def trim_start_def trim_end_def js_space_def
      is_digit_def decimal_value_def digit_value_def MAX_SAFE_INTEGER_def split_spaces_def Let_def is_letter_def
      safe_nat_def all_digits_def js_number_def unsigned_decimal_def)

lemma worker_percent:
  "hmValue (hpMetric (fst (readHostProcess worker_files DEFAULT_KERNEL_PATHS 41 (Some 100) None
     (Some [hostIdentityKey 41 (Some 500) None \<mapsto> worker_counters]) 2000 (Some 1000) None ''t'')) P_cpuPercent) =
     Some (Number 5)"
proof -
  have path: "procPath DEFAULT_KERNEL_PATHS [int_text 41] @ ''/stat'' = ''/proc/41/stat''"
    by (simp add: procPath_def DEFAULT_KERNEL_PATHS_def int_text_def nat_text.simps digit_char_def)
  have other: "readTextFile worker_files (procPath DEFAULT_KERNEL_PATHS [int_text 41] @ ''/status'') =
      Inl (classify ENOENT (procPath DEFAULT_KERNEL_PATHS [int_text 41] @ ''/status''))"
    by (simp add: readTextFile_def worker_files_def procPath_def DEFAULT_KERNEL_PATHS_def int_text_def
        nat_text.simps digit_char_def)
  show ?thesis
    unfolding readHostProcess_def Let_def path other
    by (simp add: readTextFile_def worker_files_def worker_stat cpu_percent_step_def worker_counters_def
        replaced_by_def statusPidOf_def case_prod_unfold)
qed

text \<open>C39: The inventory never reports the CPU utilization of a process. Counters are carried to the next
  pass only for a process that already had counters in the last one, so the first pass carries
  none and no later one can: whatever the kernel publishes over any number of passes, the
  utilization of every row of every pass is unavailable, although the reading of a process does
  report it when it is handed the counters of an earlier one.\<close>
theorem host_cpu_percent_never_reported:
  "(\<forall>r \<in> set (collector_passes paths maxSampled obs).
      ppIdentities (drPrevious r) = Map.empty \<and>
      (\<forall>p \<in> set (drProcesses r). hmValue (hpMetric p P_cpuPercent) = None)) \<and>
   hmValue (hpMetric (fst (readHostProcess worker_files DEFAULT_KERNEL_PATHS 41 (Some 100) None
     (Some [hostIdentityKey 41 (Some 500) None \<mapsto> worker_counters]) 2000 (Some 1000) None ''t'')) P_cpuPercent) =
     Some (Number 5)"
proof -
  have "(case fst st of None \<Rightarrow> True | Some p \<Rightarrow> ppIdentities p = Map.empty) \<and>
      (\<forall>r \<in> set (snd st). ppIdentities (drPrevious r) = Map.empty \<and>
         (\<forall>p \<in> set (drProcesses r). hmValue (hpMetric p P_cpuPercent) = None)) \<Longrightarrow>
      (\<forall>r \<in> set (snd (fold (collector_pass paths maxSampled) obs st)). ppIdentities (drPrevious r) = Map.empty \<and>
         (\<forall>p \<in> set (drProcesses r). hmValue (hpMetric p P_cpuPercent) = None))" for st
  proof (induction obs arbitrary: st)
    case (Cons ob obs)
    have "\<forall>p. fst st = Some p \<longrightarrow> ppIdentities p = Map.empty"
      using Cons.prems by (cases "fst st") auto
    note d = discover_without_previous [OF this, of paths maxSampled ob]
    have "(case fst (collector_pass paths maxSampled ob st) of None \<Rightarrow> True | Some p \<Rightarrow> ppIdentities p = Map.empty) \<and>
        (\<forall>r \<in> set (snd (collector_pass paths maxSampled ob st)). ppIdentities (drPrevious r) = Map.empty \<and>
         (\<forall>p \<in> set (drProcesses r). hmValue (hpMetric p P_cpuPercent) = None))"
      using Cons.prems d by (auto simp: collector_pass_def Let_def)
    from Cons.IH [OF this] show ?case by simp
  qed simp
  from this [of "(None, [])"] worker_percent show ?thesis by (simp add: collector_passes_def)
qed

definition worker_pass :: "rat \<Rightarrow> proc_pass" where
  "worker_pass now =
     \<lparr>obFiles = worker_files, obListing = Inr [''self'', ''41''], obTicks = Some 100, obNow = now,
      obTimestamp = ''t'', obOwned = {}\<rparr>"

lemma worker_pids: "numeric_pids [''self'', ''41''] = [41]"
  by (simp add: numeric_pids_def map_filter_simps safe_nat_def all_digits_def is_digit_def
      decimal_value_def digit_value_def MAX_SAFE_INTEGER_def)

lemma worker_discovered: "drDiscovered (discoverProcesses paths n previous (worker_pass now)) = 1"
  unfolding discoverProcesses_def worker_pass_def proc_pass.simps sum.case Let_def worker_pids by simp

theorem host_cpu_percent_never_reported_witness:
  "\<exists>first second. collector_passes DEFAULT_KERNEL_PATHS 400 [worker_pass 1000, worker_pass 2000] = [first, second] \<and>
     drDiscovered second = 1 \<and> ppIdentities (drPrevious first) = Map.empty \<and>
     ppIdentities (drPrevious second) = Map.empty"
proof -
  obtain first second where two: "collector_passes DEFAULT_KERNEL_PATHS 400 [worker_pass 1000, worker_pass 2000] = [first, second]"
      "drDiscovered second = 1"
    by (simp add: collector_passes_def collector_pass_def Let_def worker_discovered)
  with host_cpu_percent_never_reported [of DEFAULT_KERNEL_PATHS 400 "[worker_pass 1000, worker_pass 2000]"]
  show ?thesis by auto
qed

section \<open>Rows and their identity\<close>

lemma int_text_chars: "c \<in> set (int_text i) \<Longrightarrow> c = CHR ''-'' \<or> is_digit c"
  by (auto simp: int_text_def dest: nat_text_digits split: if_splits)

lemma int_text_inject: "int_text i = int_text j \<Longrightarrow> i = j"
proof -
  have minus: "nat_text n \<noteq> CHR ''-'' # s" for n s
    using nat_text_digits [of "CHR ''-''" n] by (auto simp: is_digit_def)
  have "nat_text m = nat_text n \<Longrightarrow> m = n" for m n
    by (metis decimal_value_nat_text)
  then show "int_text i = int_text j \<Longrightarrow> i = j"
    using minus minus [symmetric] by (fastforce simp: int_text_def split: if_splits)
qed

lemma split_first:
  assumes "x @ c # y = x' @ c # y'" and "c \<notin> set x" and "c \<notin> set x'"
  shows "x = x' \<and> y = y'"
  using assms
proof (induction x arbitrary: x')
  case Nil
  then show ?case by (cases x') auto
next
  case (Cons a x)
  then show ?case by (cases x') auto
qed

definition ticks_text :: "nat option \<Rightarrow> string" where
  "ticks_text t = (case t of None \<Rightarrow> ''?'' | Some n \<Rightarrow> nat_text n)"

lemma ticks_text_inject: "ticks_text s = ticks_text t \<Longrightarrow> s = t"
proof -
  have q: "nat_text n \<noteq> ''?''" for n
  proof
    assume "nat_text n = ''?''"
    then have "CHR ''?'' \<in> set (nat_text n)" by simp
    from nat_text_digits [OF this] show False by (simp add: is_digit_def)
  qed
  show "ticks_text s = ticks_text t \<Longrightarrow> s = t"
    using q q [symmetric] decimal_value_nat_text
    by (auto simp: ticks_text_def split: option.splits) (metis decimal_value_nat_text)
qed

text \<open>The identity key names one process. Two identities with the same key agree in pid, start ticks
  and boot, provided no boot id is the placeholder for an unknown one.\<close>
theorem identity_key_injective:
  assumes "hostIdentityKey pid ticks boot = hostIdentityKey pid' ticks' boot'"
    and "boot \<noteq> Some ''?''" and "boot' \<noteq> Some ''?''"
  shows "pid = pid' \<and> ticks = ticks' \<and> boot = boot'"
proof -
  have no_at: "CHR ''@'' \<notin> set (int_text i)" "CHR ''#'' \<notin> set (ticks_text t)" for i t
    using int_text_chars [of "CHR ''@''" i] nat_text_digits [of "CHR ''#''"]
    by (auto simp: is_digit_def ticks_text_def split: option.splits)
  have "int_text pid @ CHR ''@'' # (ticks_text ticks @ CHR ''#'' # (case boot of None \<Rightarrow> ''?'' | Some b \<Rightarrow> b)) =
      int_text pid' @ CHR ''@'' # (ticks_text ticks' @ CHR ''#'' # (case boot' of None \<Rightarrow> ''?'' | Some b \<Rightarrow> b))"
    using assms(1) by (simp add: hostIdentityKey_def ticks_text_def)
  from split_first [OF this no_at(1) no_at(1)]
  have "int_text pid = int_text pid'"
    and rest: "ticks_text ticks @ CHR ''#'' # (case boot of None \<Rightarrow> ''?'' | Some b \<Rightarrow> b) =
      ticks_text ticks' @ CHR ''#'' # (case boot' of None \<Rightarrow> ''?'' | Some b \<Rightarrow> b)" by blast+
  from split_first [OF rest no_at(2) no_at(2)]
  have "ticks_text ticks = ticks_text ticks'"
    and "(case boot of None \<Rightarrow> ''?'' | Some b \<Rightarrow> b) = (case boot' of None \<Rightarrow> ''?'' | Some b \<Rightarrow> b)" by blast+
  with \<open>int_text pid = int_text pid'\<close> assms(2,3) show ?thesis
    by (auto simp: int_text_inject ticks_text_inject split: option.splits)
qed

theorem identity_key_injective_witness:
  "hostIdentityKey 41 (Some 500) (Some ''b'') \<noteq> hostIdentityKey 41 (Some 501) (Some ''b'')"
  using identity_key_injective [of 41 "Some 500" "Some ''b''" 41 "Some 501" "Some ''b''"] by auto

text \<open>Every metric of a row keeps the contract of the host metric.\<close>

definition row_honest :: "host_process \<Rightarrow> bool" where
  "row_honest p \<longleftrightarrow> (\<forall>k. honest (hpMetric p k))"

lemma emptyRow_honest [simp]: "row_honest (emptyRow pid b s r ts src)"
  by (simp add: row_honest_def emptyRow_def)

lemma metricOrUnavailable_honest [simp]: "honest (metricOrUnavailable v u s t r)"
  by (simp add: metricOrUnavailable_def split: option.split)

lemma live_metric_honest:
  assumes "honest (xsCpuPercent x)" and "xsSmaps x = None"
  shows "honest (live_metric x k)"
  using assms
  by (cases k) (auto simp: status_metric_def ioMetric_def Let_def sched_metric_def smaps_metric_def
      split: option.split sum.split)

lemma cpu_percent_honest: "honest (fst (cpu_percent_step p st ticks now prior src ts))"
  by (simp add: cpu_percent_step_def Let_def split: option.split)

lemma readHostProcess_honest: "row_honest (fst (readHostProcess files paths pid ticks b prev now prior None ts))"
  using cpu_percent_honest
  by (auto simp: readHostProcess_def Let_def case_prod_unfold row_honest_def [of "\<lparr>hpMetric = _, hpIdentity = _,
     hpCapsOwned = _, hpRowState = _, hpStateReason = _, hpSampled = _\<rparr>"]
     intro!: live_metric_honest split: sum.split option.split)

lemma annotate_honest:
  "\<forall>p \<in> set ps. row_honest p \<Longrightarrow> p \<in> set (annotateRelationships owned ts ctx ps) \<Longrightarrow> row_honest p"
  by (auto simp: annotateRelationships_def Let_def row_honest_def relationship_of_def
      split: option.split host_value.split)

lemma discover_step_facts:
  "dvSampled (discover_step n r d) = (if n \<le> dvSampled d then dvSampled d else dvSampled d + 1)"
  "dvPssSkipped (discover_step n r d) = (if n \<le> dvSampled d then dvPssSkipped d + 1 else dvPssSkipped d)"
  "dvProcesses (discover_step n r d) =
     (if hpRowState (fst r) = EXITED then dvProcesses d
      else dvProcesses d @ [if n \<le> dvSampled d
        then (fst r) \<lparr>hpSampled := False, hpStateReason := Some (Proc_not_detailed n (hpStateReason (fst r)))\<rparr>
        else fst r])"
  by (simp_all add: discover_step_def Let_def case_prod_unfold split: option.split)

lemma read_pid: "ptPid (hpIdentity (fst (readHostProcess files paths pid ticks b prev now prior smaps ts))) = pid"
  by (auto simp: readHostProcess_def Let_def case_prod_unfold emptyRow_def split: sum.split option.split)

lemma subseq_sorted: "subseq xs ys \<Longrightarrow> sorted ys \<Longrightarrow> sorted (xs :: int list)"
  by (induction rule: list_emb.induct) (auto dest: list_emb_set)

text \<open>The rows of a pass are a subsequence of its pids, with honest metrics.\<close>

lemma discover_fold:
  assumes "\<And>pid. ptPid (hpIdentity (fst (f pid))) = pid" and "\<And>pid. row_honest (fst (f pid))"
    and "dvSampled d \<le> n"
  shows "dvSampled (fold (\<lambda>pid. discover_step n (f pid)) pids d) = min n (dvSampled d + length pids) \<and>
    dvPssSkipped (fold (\<lambda>pid. discover_step n (f pid)) pids d) +
      dvSampled (fold (\<lambda>pid. discover_step n (f pid)) pids d) = dvPssSkipped d + dvSampled d + length pids \<and>
    (\<exists>rows. dvProcesses (fold (\<lambda>pid. discover_step n (f pid)) pids d) = dvProcesses d @ rows \<and>
      subseq (map (\<lambda>p. ptPid (hpIdentity p)) rows) pids \<and> (\<forall>p \<in> set rows. row_honest p))"
  using assms(3)
proof (induction pids arbitrary: d)
  case (Cons pid pids)
  let ?d = "discover_step n (f pid) d"
  have "dvSampled ?d \<le> n" using Cons.prems by (simp add: discover_step_facts)
  from Cons.IH [OF this] obtain rows where
    ih: "dvSampled (fold (\<lambda>pid. discover_step n (f pid)) pids ?d) = min n (dvSampled ?d + length pids)"
      "dvPssSkipped (fold (\<lambda>pid. discover_step n (f pid)) pids ?d) +
        dvSampled (fold (\<lambda>pid. discover_step n (f pid)) pids ?d) = dvPssSkipped ?d + dvSampled ?d + length pids"
      "dvProcesses (fold (\<lambda>pid. discover_step n (f pid)) pids ?d) = dvProcesses ?d @ rows"
      "subseq (map (\<lambda>p. ptPid (hpIdentity p)) rows) pids" "\<forall>p \<in> set rows. row_honest p" by blast
  obtain new where new: "dvProcesses ?d = dvProcesses d @ new"
      "subseq (map (\<lambda>p. ptPid (hpIdentity p)) new) [pid]" "\<forall>p \<in> set new. row_honest p"
  proof (cases "hpRowState (fst (f pid)) = EXITED")
    case True
    then show ?thesis using that [of "[]"] by (simp add: discover_step_facts)
  next
    case False
    then show ?thesis
      using that [of "[if n \<le> dvSampled d
        then (fst (f pid)) \<lparr>hpSampled := False, hpStateReason := Some (Proc_not_detailed n (hpStateReason (fst (f pid))))\<rparr>
        else fst (f pid)]"] assms(1,2) by (simp add: discover_step_facts row_honest_def)
  qed
  have "subseq (map (\<lambda>p. ptPid (hpIdentity p)) (new @ rows)) ([pid] @ pids)"
    unfolding map_append by (rule list_emb_append_mono [OF new(2) ih(4)])
  then have "\<exists>rs. dvProcesses (fold (\<lambda>pid. discover_step n (f pid)) (pid # pids) d) = dvProcesses d @ rs \<and>
      subseq (map (\<lambda>p. ptPid (hpIdentity p)) rs) (pid # pids) \<and> (\<forall>p \<in> set rs. row_honest p)"
    using ih(3,5) new(1,3) by (intro exI [of _ "new @ rows"]) auto
  moreover have "dvSampled (fold (\<lambda>pid. discover_step n (f pid)) (pid # pids) d) = min n (dvSampled d + length (pid # pids))"
    using ih(1) Cons.prems by (simp add: discover_step_facts)
  moreover have "dvPssSkipped (fold (\<lambda>pid. discover_step n (f pid)) (pid # pids) d) +
        dvSampled (fold (\<lambda>pid. discover_step n (f pid)) (pid # pids) d) = dvPssSkipped d + dvSampled d + length (pid # pids)"
    using ih(2) by (simp add: discover_step_facts)
  ultimately show ?case by blast
qed simp

text \<open>A pass accounts for every process it found. The budget splits the pids of \<^verbatim>\<open>/proc\<close> into the
  detailed and the skipped, nothing is counted twice or lost, and the rows are those of a
  subsequence of the pids in ascending order, so at most one for each, every metric of
  which is a value with its provenance or \<open>UNAVAILABLE\<close> with a reason.\<close>
theorem inventory_accounts:
  "drSampled (discoverProcesses paths n previous ob) = min n (drDiscovered (discoverProcesses paths n previous ob)) \<and>
   drSampled (discoverProcesses paths n previous ob) + drPssSkipped (discoverProcesses paths n previous ob) =
     drDiscovered (discoverProcesses paths n previous ob) \<and>
   sorted (map (\<lambda>p. ptPid (hpIdentity p)) (drProcesses (discoverProcesses paths n previous ob))) \<and>
   length (drProcesses (discoverProcesses paths n previous ob)) \<le> drDiscovered (discoverProcesses paths n previous ob) \<and>
   (\<forall>p \<in> set (drProcesses (discoverProcesses paths n previous ob)). \<forall>k. honest (hpMetric p k))"
proof (cases "obListing ob")
  case (Inl e)
  then show ?thesis by (simp add: discoverProcesses_def)
next
  case (Inr names)
  let ?read = "\<lambda>pid. readHostProcess (obFiles ob) paths pid (obTicks ob) (readBootIdFile (obFiles ob) paths)
      (map_option ppIdentities previous) (obNow ob) (map_option ppAtMs previous) None (obTimestamp ob)"
  let ?start = "\<lparr>dvProcesses = [], dvSampled = 0, dvUnavailable = 0, dvPssSkipped = 0, dvCounters = Map.empty\<rparr>"
  let ?d = "fold (\<lambda>pid. discover_step n (?read pid)) (numeric_pids names) ?start"
  let ?r = "discoverProcesses paths n previous ob"
  have "dvSampled ?start \<le> n" by simp
  from discover_fold [of ?read, OF read_pid readHostProcess_honest this, of "numeric_pids names"]
  have d: "dvSampled ?d = min n (length (numeric_pids names))"
      "dvPssSkipped ?d + dvSampled ?d = length (numeric_pids names)"
      "subseq (map (\<lambda>p. ptPid (hpIdentity p)) (dvProcesses ?d)) (numeric_pids names)"
      "\<forall>p \<in> set (dvProcesses ?d). row_honest p" by auto
  have r: "drProcesses ?r = annotateRelationships (obOwned ob) (obTimestamp ob) {} (dvProcesses ?d)"
      "drSampled ?r = dvSampled ?d" "drPssSkipped ?r = dvPssSkipped ?d" "drDiscovered ?r = length (numeric_pids names)"
    by (simp_all only: discoverProcesses_def Inr sum.case Let_def discover_result.simps)
  have pids: "map (\<lambda>p. ptPid (hpIdentity p)) (drProcesses ?r) = map (\<lambda>p. ptPid (hpIdentity p)) (dvProcesses ?d)"
    by (simp add: r(1) annotateRelationships_def Let_def o_def)
  have "sorted (numeric_pids names)" by (simp add: numeric_pids_def)
  with d(3) have "sorted (map (\<lambda>p. ptPid (hpIdentity p)) (dvProcesses ?d))"
    by (rule subseq_sorted)
  moreover have "length (drProcesses ?r) \<le> length (numeric_pids names)"
    using list_emb_length [OF d(3)] pids by (metis length_map)
  moreover have "\<forall>p \<in> set (drProcesses ?r). row_honest p"
    using annotate_honest [OF d(4)] by (simp add: r(1))
  moreover have "dvSampled ?d + dvPssSkipped ?d = length (numeric_pids names)"
    using d(2) by simp
  ultimately show ?thesis
    unfolding pids r(2-4) row_honest_def using d(1) by blast
qed

theorem inventory_accounts_witness:
  "drSampled (discoverProcesses DEFAULT_KERNEL_PATHS 0 None (worker_pass 1000)) = 0 \<and>
   drPssSkipped (discoverProcesses DEFAULT_KERNEL_PATHS 0 None (worker_pass 1000)) = 1"
  using inventory_accounts [of DEFAULT_KERNEL_PATHS 0 None "worker_pass 1000"] worker_discovered
  by simp

end
