(* ===== verification/Host_Stream.thy ===== *)
theory Host_Stream
  imports Host_Processes
begin

text \<open>
  \<^verbatim>\<open>web/backend/src/events/systemStream.ts\<close>, the snapshot tables of \<^verbatim>\<open>db/repositories/system.ts\<close> and the
  route \<^verbatim>\<open>GET /api/system/stream\<close> of \<^verbatim>\<open>api/system.ts\<close>: one tick collects a snapshot, stores it and sends it to
  the subscribers.  \<open>host_world\<close> is the service, its tables and the response streams of its clients.
  A snapshot is its sequence, its timestamp, its boot and its other blocks as a JSON document;
  a stored text is the document it spells, or no JSON at all.  Columns promoted for analytics are
  left out.
\<close>

section \<open>Snapshots and their tables\<close>

record host_snapshot =
  hsSequence :: nat
  hsTimestamp :: string
  hsBoot :: "string option"
  hsBlocks :: payload

definition snapshot_document :: "host_snapshot \<Rightarrow> json" where
  "snapshot_document s =
     JObj ((''sequence'', JNum (of_nat (hsSequence s))) # (''timestamp'', JStr (hsTimestamp s)) # hsBlocks s)"

datatype stored_text = Json_text json | Other_text string

record host_row =
  hrSequence :: nat
  hrTimestamp :: string
  hrBoot :: string
  hrPayload :: stored_text

record host_process_row =
  hqSnapshot :: nat
  hqPid :: rat
  hqKey :: string
  hqProcess :: host_process

record host_tables =
  htSnapshots :: "host_row list"
  htProcesses :: "host_process_row list"

definition replace_row :: "host_row \<Rightarrow> host_row list \<Rightarrow> host_row list" where
  "replace_row r rows = filter (\<lambda>x. hrSequence x \<noteq> hrSequence r) rows @ [r]"

definition replace_process :: "host_process_row \<Rightarrow> host_process_row list \<Rightarrow> host_process_row list" where
  "replace_process r rows =
     filter (\<lambda>x. \<not> (hqSnapshot x = hqSnapshot r \<and> hqKey x = hqKey r)) rows @ [r]"

text \<open>The process rows of a snapshot; a sampled row whose pid is no number violates \<open>NOT NULL\<close>.\<close>

definition detailed :: "host_process list \<Rightarrow> host_process list" where
  "detailed ps = filter (\<lambda>p. hpSampled p \<and> valueOf (Some (hpMetric p P_pid)) \<noteq> None) ps"

definition process_row_of :: "nat \<Rightarrow> host_process \<Rightarrow> host_process_row" where
  "process_row_of n p =
     \<lparr>hqSnapshot = n,
      hqPid = (case valueOf (Some (hpMetric p P_pid)) of Some (Number q) \<Rightarrow> q | _ \<Rightarrow> 0),
      hqKey = ptKey (hpIdentity p), hqProcess = p\<rparr>"

definition save_host :: "bool \<Rightarrow> host_snapshot \<Rightarrow> host_process list \<Rightarrow> host_tables \<Rightarrow> host_tables" where
  "save_host ok s ps t =
     (if ok \<and> (\<forall>p \<in> set (detailed ps). valueOf (Some (hpMetric p P_pid)) \<noteq> Some Not_a_number) then
        \<lparr>htSnapshots = replace_row
           \<lparr>hrSequence = hsSequence s, hrTimestamp = hsTimestamp s,
            hrBoot = (case hsBoot s of None \<Rightarrow> ''unknown-boot'' | Some b \<Rightarrow> b),
            hrPayload = Json_text (snapshot_document s)\<rparr> (htSnapshots t),
         htProcesses = fold (\<lambda>p. replace_process (process_row_of (hsSequence s) p)) (detailed ps) (htProcesses t)\<rparr>
      else t)"

definition listAfter :: "int \<Rightarrow> nat \<Rightarrow> host_tables \<Rightarrow> host_row list" where
  "listAfter after limit t =
     take limit (sort_key hrSequence (filter (\<lambda>r. after < int (hrSequence r)) (htSnapshots t)))"

definition latest_row :: "host_tables \<Rightarrow> host_row option" where
  "latest_row t =
     (case rev (sort_key hrSequence (htSnapshots t)) of [] \<Rightarrow> None | r # _ \<Rightarrow> Some r)"

text \<open>\<open>old\<close> says of a timestamp whether it is before the cutoff.\<close>

definition purge_host :: "(string \<Rightarrow> bool) \<Rightarrow> host_tables \<Rightarrow> host_tables" where
  "purge_host old t =
     (let gone = hrSequence ` set (filter (\<lambda>r. old (hrTimestamp r)) (htSnapshots t)) in
      \<lparr>htSnapshots = filter (\<lambda>r. \<not> old (hrTimestamp r)) (htSnapshots t),
       htProcesses = filter (\<lambda>q. hqSnapshot q \<notin> gone) (htProcesses t)\<rparr>)"

text \<open>The join of the two tables on one identity, oldest first.\<close>

definition processHistory :: "string \<Rightarrow> nat \<Rightarrow> host_tables \<Rightarrow> (string \<times> host_process) list" where
  "processHistory key limit t =
     take limit (List.map_filter
       (\<lambda>q. map_option (\<lambda>r. (hrTimestamp r, hqProcess q))
              (find (\<lambda>r. hrSequence r = hqSnapshot q) (htSnapshots t)))
       (sort_key hqSnapshot (filter (\<lambda>q. hqKey q = key) (htProcesses t))))"

section \<open>Events and clients\<close>

datatype system_event_type = System_snapshot | System_processes | System_thermal_guard

datatype system_payload = Snapshot_payload json | Processes_payload "host_process list"

record system_event =
  syeSequence :: nat
  syeType :: system_event_type
  syeTimestamp :: string
  syePayload :: system_payload

definition parsePersisted :: "host_row \<Rightarrow> system_event option" where
  "parsePersisted r =
     (case hrPayload r of
        Json_text (JObj fs) \<Rightarrow>
          (case field fs ''cpu'' of
             None \<Rightarrow> None
           | Some _ \<Rightarrow> Some \<lparr>syeSequence = hrSequence r, syeType = System_snapshot,
                             syeTimestamp = hrTimestamp r, syePayload = Snapshot_payload (JObj fs)\<rparr>)
      | _ \<Rightarrow> None)"

datatype system_frame =
    Data_frame system_event
  | Gap_frame nat nat
  | Closing_frame nat nat "nat option"

text \<open>The response stream of a request and the set \<open>sent\<close> of its handler.\<close>

record stream_client =
  scFrames :: "system_frame list"
  scSent :: "nat set"

definition write_event :: "system_event \<Rightarrow> stream_client \<Rightarrow> stream_client" where
  "write_event ev c =
     c \<lparr>scSent := insert (syeSequence ev) (scSent c), scFrames := scFrames c @ [Data_frame ev]\<rparr>"

record subscription =
  sbId :: nat
  sbBuffer :: "system_event list"
  sbLastQueued :: int
  sbDropped :: nat
  sbDelivers :: bool

text \<open>The \<open>Map\<close> of subscribers is a list in insertion order; \<open>None\<close> in the times is minus infinity.\<close>

record host_world =
  hwCollector :: nat
  hwSequence :: nat
  hwTimer :: bool
  hwLatest :: "host_snapshot option"
  hwProcesses :: "host_process list"
  hwSmaps :: "bool option"
  hwLastSlow :: "rat option"
  hwLastDiscovery :: "rat option"
  hwLastPss :: "rat option"
  hwNextId :: nat
  hwSubs :: "subscription list"
  hwClients :: "nat \<Rightarrow> stream_client"
  hwTables :: host_tables

record host_config =
  hcSlowMs :: rat
  hcDiscoveryMs :: rat
  hcPssMs :: rat
  hcPssMaxProcesses :: nat
  hcPersist :: bool

definition SUBSCRIBER_BUFFER_LIMIT :: nat where "SUBSCRIBER_BUFFER_LIMIT = 32"
definition REPLAY_BATCH :: nat where "REPLAY_BATCH = 500"
definition MAX_STREAM_CLIENTS :: nat where "MAX_STREAM_CLIENTS = 8"
definition MAX_SAMPLED_PROCESSES :: nat where "MAX_SAMPLED_PROCESSES = 400"

definition no_client :: stream_client where
  "no_client = \<lparr>scFrames = [], scSent = {}\<rparr>"

text \<open>A gateway that has just started, on the tables it finds.\<close>

definition new_service :: "host_tables \<Rightarrow> host_world" where
  "new_service t =
     \<lparr>hwCollector = 0, hwSequence = 0, hwTimer = False, hwLatest = None, hwProcesses = [],
      hwSmaps = None, hwLastSlow = None, hwLastDiscovery = None, hwLastPss = None, hwNextId = 1,
      hwSubs = [], hwClients = (\<lambda>_. no_client), hwTables = t\<rparr>"

definition subscriberCount :: "host_world \<Rightarrow> nat" where
  "subscriberCount w = length (hwSubs w)"

section \<open>Publishing\<close>

text \<open>One subscriber's turn in \<open>emit\<close>: what becomes of it, and whether the event is written.\<close>

definition offer :: "system_event \<Rightarrow> subscription \<Rightarrow> subscription \<times> bool" where
  "offer ev sub =
     (let sub = sub \<lparr>sbBuffer := sbBuffer sub @ [ev], sbLastQueued := int (syeSequence ev)\<rparr> in
      if length (sbBuffer sub) > SUBSCRIBER_BUFFER_LIMIT
      then (sub \<lparr>sbBuffer := tl (sbBuffer sub), sbDropped := sbDropped sub + 1\<rparr>, False)
      else if sbDelivers sub then (sub \<lparr>sbBuffer := butlast (sbBuffer sub)\<rparr>, True)
      else (sub, False))"

definition emit_one :: "system_event \<Rightarrow> subscription \<Rightarrow> host_world \<Rightarrow> host_world" where
  "emit_one ev sub w =
     (let (sub', written) = offer ev sub in
      w \<lparr>hwSubs := map (\<lambda>s. if sbId s = sbId sub then sub' else s) (hwSubs w),
        hwClients := (if written
           then (hwClients w)(sbId sub := write_event ev (hwClients w (sbId sub))) else hwClients w)\<rparr>)"

definition emit_system :: "system_event \<Rightarrow> host_world \<Rightarrow> host_world" where
  "emit_system ev w = fold (emit_one ev) (hwSubs w) w"

section \<open>One collection cycle\<close>

text \<open>What a tick reads: the blocks the collector built, the inventory, the clock, and whether the
  database took the snapshot.\<close>

record host_observation =
  hoTimestamp :: string
  hoBoot :: "string option"
  hoBlocks :: payload
  hoPass :: proc_pass
  hoNow :: rat
  hoRollup :: "rat \<Rightarrow> smaps_rollup option"
  hoSaved :: bool

definition rss_of :: "host_process \<Rightarrow> rat" where
  "rss_of p = (case hmValue (hpMetric p P_rssBytes) of Some (Number n) \<Rightarrow> n | _ \<Rightarrow> 0)"

definition pid_number :: "host_process \<Rightarrow> rat option" where
  "pid_number p = (case hmValue (hpMetric p P_pid) of Some (Number n) \<Rightarrow> Some n | _ \<Rightarrow> None)"

definition pss_candidates :: "nat \<Rightarrow> host_process list \<Rightarrow> host_process list" where
  "pss_candidates limit ps =
     take limit (sort_key (\<lambda>p. - rss_of p) (filter (\<lambda>p. hpRowState p = LIVE \<and> hpSampled p) ps))"

definition attachPss ::
    "nat \<Rightarrow> (rat \<Rightarrow> smaps_rollup option) \<Rightarrow> host_process list \<Rightarrow> host_process list" where
  "attachPss limit rollup ps =
     (let rollups = (\<lambda>pid. if pid \<in> set (List.map_filter pid_number (pss_candidates limit ps))
                           then rollup pid else None) in
      map (\<lambda>p.
        case Option.bind (pid_number p) rollups of
          None \<Rightarrow> p
        | Some r \<Rightarrow> p \<lparr>hpMetric := (hpMetric p)(P_pssBytes := smPss r, P_anonymousBytes := smAnonymous r,
                        P_fileBackedBytes := smFileBacked r, P_sharedBytes := smShared r)\<rparr>) ps)"

definition elapsed :: "rat \<Rightarrow> rat option \<Rightarrow> rat \<Rightarrow> bool" where
  "elapsed now prior interval = (case prior of None \<Rightarrow> True | Some t \<Rightarrow> interval \<le> now - t)"

definition taken_snapshot :: "host_observation \<Rightarrow> host_world \<Rightarrow> host_snapshot" where
  "taken_snapshot ob w =
     \<lparr>hsSequence = hwCollector w + 1, hsTimestamp = hoTimestamp ob, hsBoot = hoBoot ob,
      hsBlocks = hoBlocks ob\<rparr>"

text \<open>Whether the pass lists the processes, and the rows it then has.\<close>

definition discovers :: "host_config \<Rightarrow> host_observation \<Rightarrow> host_world \<Rightarrow> bool" where
  "discovers cf ob w \<longleftrightarrow> elapsed (hoNow ob) (hwLastDiscovery w) (hcDiscoveryMs cf) \<or> hwProcesses w = []"

definition wants_pss :: "host_config \<Rightarrow> host_observation \<Rightarrow> host_world \<Rightarrow> bool" where
  "wants_pss cf ob w = elapsed (hoNow ob) (hwLastPss w) (hcPssMs cf)"

definition tick_rows :: "host_config \<Rightarrow> host_observation \<Rightarrow> host_world \<Rightarrow> host_process list" where
  "tick_rows cf ob w =
     (let discovered = drProcesses (discoverProcesses DEFAULT_KERNEL_PATHS MAX_SAMPLED_PROCESSES None (hoPass ob)) in
      if wants_pss cf ob w \<and> hwSmaps w = Some True
      then attachPss (hcPssMaxProcesses cf) (hoRollup ob) discovered else discovered)"

definition host_tick :: "host_config \<Rightarrow> host_observation \<Rightarrow> host_world \<Rightarrow> host_world" where
  "host_tick cf ob w =
     (let snap = taken_snapshot ob w;
          w1 = w \<lparr>hwCollector := hwCollector w + 1, hwLatest := Some snap\<rparr>;
          store = (\<lambda>ps. if hcPersist cf then save_host (hoSaved ob) snap ps (hwTables w) else hwTables w);
          w2 =
            (if discovers cf ob w then
               (let processes = tick_rows cf ob w in
                emit_system \<lparr>syeSequence = hwSequence w + 1, syeType = System_processes,
                             syeTimestamp = hsTimestamp snap, syePayload = Processes_payload processes\<rparr>
                  (w1 \<lparr>hwLastDiscovery := Some (hoNow ob),
                      hwLastPss := (if wants_pss cf ob w then Some (hoNow ob) else hwLastPss w),
                      hwProcesses := processes, hwTables := store processes\<rparr>))
             else w1 \<lparr>hwTables := store []\<rparr>);
          w3 = w2 \<lparr>hwLastSlow := (if elapsed (hoNow ob) (hwLastSlow w) (hcSlowMs cf) then Some (hoNow ob)
                                  else hwLastSlow w),
                  hwSequence := hwSequence w + 1\<rparr> in
      emit_system \<lparr>syeSequence = hwSequence w + 1, syeType = System_snapshot,
                   syeTimestamp = hsTimestamp snap, syePayload = Snapshot_payload (snapshot_document snap)\<rparr> w3)"

definition start_service :: "host_config \<Rightarrow> bool \<Rightarrow> host_observation \<Rightarrow> host_world \<Rightarrow> host_world" where
  "start_service cf supported ob w =
     (if hwTimer w then w else (host_tick cf ob (w \<lparr>hwSmaps := Some supported\<rparr>)) \<lparr>hwTimer := True\<rparr>)"

definition stop_service :: "host_world \<Rightarrow> host_world" where
  "stop_service w = w \<lparr>hwTimer := False, hwSubs := []\<rparr>"

section \<open>Subscribing\<close>

definition host_subscribe :: "int \<Rightarrow> host_world \<Rightarrow> host_world \<times> nat \<times> system_event list" where
  "host_subscribe after w =
     (let sid = hwNextId w;
          w' = w \<lparr>hwNextId := sid + 1,
                 hwSubs := hwSubs w @ [\<lparr>sbId = sid, sbBuffer = [], sbLastQueued = after, sbDropped = 0,
                                        sbDelivers = False\<rparr>]\<rparr>;
          backlog =
            (if after < 0 then
               (case hwLatest w of
                  None \<Rightarrow> []
                | Some s \<Rightarrow> [\<lparr>syeSequence = hwSequence w, syeType = System_snapshot,
                               syeTimestamp = hsTimestamp s,
                               syePayload = Snapshot_payload (snapshot_document s)\<rparr>])
             else List.map_filter parsePersisted (listAfter after REPLAY_BATCH (hwTables w))) in
      (w', sid, backlog))"

text \<open>Delivery starts: what was buffered goes out first.\<close>

definition setDelivery :: "nat \<Rightarrow> host_world \<Rightarrow> host_world" where
  "setDelivery sid w =
     (case find (\<lambda>s. sbId s = sid) (hwSubs w) of
        None \<Rightarrow> w
      | Some sub \<Rightarrow>
          w \<lparr>hwSubs := map (\<lambda>s. if sbId s = sid then s \<lparr>sbDelivers := True, sbBuffer := []\<rparr> else s) (hwSubs w),
            hwClients := (hwClients w)(sid := fold write_event (sbBuffer sub) (hwClients w sid))\<rparr>)"

definition flush_subscription ::
    "nat \<Rightarrow> (system_event \<Rightarrow> bool) \<Rightarrow> host_world \<Rightarrow> host_world \<times> system_event list" where
  "flush_subscription sid dup w =
     (case find (\<lambda>s. sbId s = sid) (hwSubs w) of
        None \<Rightarrow> (w, [])
      | Some sub \<Rightarrow>
          (let out = filter (\<lambda>e. \<not> dup e) (sbBuffer sub) in
           (w \<lparr>hwSubs := map (\<lambda>s. if sbId s = sid then s \<lparr>sbBuffer := []\<rparr> else s) (hwSubs w),
              hwClients := (if sbDelivers sub
                 then (hwClients w)(sid := fold write_event out (hwClients w sid)) else hwClients w)\<rparr>, out)))"

definition droppedFor :: "nat \<Rightarrow> host_world \<Rightarrow> nat" where
  "droppedFor sid w = (case find (\<lambda>s. sbId s = sid) (hwSubs w) of None \<Rightarrow> 0 | Some s \<Rightarrow> sbDropped s)"

definition write_backlog :: "system_event \<Rightarrow> stream_client \<Rightarrow> stream_client" where
  "write_backlog ev c = (if syeSequence ev \<in> scSent c then c else write_event ev c)"

text \<open>The notice of a gap before the first stored frame.\<close>

definition gap_notice :: "int \<Rightarrow> system_event list \<Rightarrow> system_frame list" where
  "gap_notice lastEventId backlog =
     (case backlog of
        [] \<Rightarrow> []
      | ev # _ \<Rightarrow>
          if 0 \<le> lastEventId \<and> lastEventId + 1 < int (syeSequence ev)
          then [Gap_frame (nat (lastEventId + 1)) (syeSequence ev - 1)] else [])"

text \<open>The route; \<open>None\<close> is the answer 503.\<close>

definition connect :: "int \<Rightarrow> host_world \<Rightarrow> (host_world \<times> nat) option" where
  "connect lastEventId w =
     (if MAX_STREAM_CLIENTS \<le> subscriberCount w then None
      else
        (let (w1, sid, backlog) = host_subscribe lastEventId w;
             c = fold write_backlog backlog no_client;
             c' = c \<lparr>scFrames := scFrames c @ gap_notice lastEventId backlog\<rparr> in
         Some (setDelivery sid (w1 \<lparr>hwClients := (hwClients w1)(sid := c')\<rparr>), sid)))"

text \<open>\<open>cleanup\<close>; \<open>destroyed\<close> says whether the request was already gone.\<close>

definition disconnect :: "nat \<Rightarrow> bool \<Rightarrow> host_world \<Rightarrow> host_world" where
  "disconnect sid destroyed w =
     (let c = hwClients w sid;
          c' = (if destroyed then c
                else c \<lparr>scFrames := scFrames c @ [Closing_frame (droppedFor sid w) (card (scSent c))
                         (if scSent c = {} then None else Some (Max (scSent c)))]\<rparr>) in
      w \<lparr>hwClients := (hwClients w)(sid := c'), hwSubs := filter (\<lambda>s. sbId s \<noteq> sid) (hwSubs w)\<rparr>)"

text \<open>\<open>/^\d{1,15}$/\<close> of the header.\<close>

definition readHostEventId :: "string option \<Rightarrow> int" where
  "readHostEventId header =
     (case header of
        None \<Rightarrow> - 1
      | Some v \<Rightarrow> if all_digits v \<and> length v \<le> 15 then int (decimal_value v) else - 1)"

section \<open>Runs\<close>

inductive host_step :: "host_config \<Rightarrow> host_world \<Rightarrow> host_world \<Rightarrow> bool" for cf where
  Boot: "host_step cf w (start_service cf supported ob w)"
| Tick: "hwTimer w \<Longrightarrow> host_step cf w (host_tick cf ob w)"
| Connect: "connect lastEventId w = Some (w', sid) \<Longrightarrow> host_step cf w w'"
| Disconnect: "sid < hwNextId w \<Longrightarrow> host_step cf w (disconnect sid destroyed w)"
| Sweep: "host_step cf w (w \<lparr>hwTables := purge_host old (hwTables w)\<rparr>)"
| Shutdown: "host_step cf w (new_service (hwTables (stop_service w)))"

inductive host_reachable :: "host_config \<Rightarrow> host_world \<Rightarrow> bool" for cf where
  Fresh: "host_reachable cf (new_service \<lparr>htSnapshots = [], htProcesses = []\<rparr>)"
| Next: "host_reachable cf w \<Longrightarrow> host_step cf w w' \<Longrightarrow> host_reachable cf w'"

section \<open>A turn of every subscriber\<close>

text \<open>A subscription that delivers has nothing waiting and has lost nothing.\<close>

definition delivering :: "subscription \<Rightarrow> bool" where
  "delivering s \<longleftrightarrow> sbDelivers s \<and> sbBuffer s = [] \<and> sbDropped s = 0"

definition calm :: "host_world \<Rightarrow> bool" where
  "calm w \<longleftrightarrow> (\<forall>s \<in> set (hwSubs w). delivering s \<and> sbId s < hwNextId w) \<and>
     distinct (map sbId (hwSubs w)) \<and> length (hwSubs w) \<le> MAX_STREAM_CLIENTS"

definition queued :: "system_event \<Rightarrow> subscription \<Rightarrow> subscription" where
  "queued ev s = s \<lparr>sbLastQueued := int (syeSequence ev)\<rparr>"

lemma queued_simps [simp]:
  "sbId (queued ev s) = sbId s" "delivering (queued ev s) = delivering s"
  by (simp_all add: queued_def delivering_def)

lemma offer_delivering: "delivering s \<Longrightarrow> offer ev s = (queued ev s, True)"
  by (cases s) (simp add: offer_def delivering_def queued_def SUBSCRIBER_BUFFER_LIMIT_def)

lemma emit_one_delivering:
  "delivering s \<Longrightarrow> emit_one ev s w =
     w \<lparr>hwSubs := map (\<lambda>t. if sbId t = sbId s then queued ev s else t) (hwSubs w),
       hwClients := (hwClients w)(sbId s := write_event ev (hwClients w (sbId s)))\<rparr>"
  by (simp add: emit_one_def offer_delivering)

lemma emit_fold:
  assumes "\<forall>s \<in> set ss. delivering s" "distinct (map sbId ss)"
    and "\<forall>s \<in> set ss. \<forall>t \<in> set (hwSubs w). sbId t = sbId s \<longrightarrow> t = s"
  shows "fold (emit_one ev) ss w =
    w \<lparr>hwSubs := map (\<lambda>t. if t \<in> set ss then queued ev t else t) (hwSubs w),
      hwClients := (\<lambda>k. if k \<in> sbId ` set ss then write_event ev (hwClients w k) else hwClients w k)\<rparr>"
  using assms
proof (induction ss arbitrary: w)
  case (Cons s ss)
  let ?w = "emit_one ev s w"
  have w: "?w = w \<lparr>hwSubs := map (\<lambda>t. if t = s then queued ev s else t) (hwSubs w),
       hwClients := (hwClients w)(sbId s := write_event ev (hwClients w (sbId s)))\<rparr>"
    using Cons.prems by (auto simp: emit_one_delivering intro!: map_cong)
  have other: "sbId s \<notin> sbId ` set ss" using Cons.prems(2) by simp
  then have fresh: "queued ev s \<notin> set ss" "s \<notin> set ss"
    by (metis image_eqI queued_simps(1), blast)
  have "\<forall>u \<in> set ss. \<forall>t \<in> set (hwSubs ?w). sbId t = sbId u \<longrightarrow> t = u"
    using Cons.prems(3) other by (auto simp: w)
  with Cons have "fold (emit_one ev) ss ?w =
    ?w \<lparr>hwSubs := map (\<lambda>t. if t \<in> set ss then queued ev t else t) (hwSubs ?w),
      hwClients := (\<lambda>k. if k \<in> sbId ` set ss then write_event ev (hwClients ?w k) else hwClients ?w k)\<rparr>"
    by simp
  then show ?case
    using other fresh by (auto simp: w fun_eq_iff intro!: map_cong)
qed simp

lemma emit_calm:
  assumes "calm w"
  shows "emit_system ev w =
    w \<lparr>hwSubs := map (queued ev) (hwSubs w),
      hwClients := (\<lambda>k. if k \<in> sbId ` set (hwSubs w) then write_event ev (hwClients w k) else hwClients w k)\<rparr>"
proof -
  have "\<forall>s \<in> set (hwSubs w). \<forall>t \<in> set (hwSubs w). sbId t = sbId s \<longrightarrow> t = s"
    using assms by (auto simp: calm_def distinct_map inj_on_def)
  then show ?thesis
    using assms by (simp add: emit_system_def emit_fold calm_def cong: map_cong)
qed

lemma calm_updates [simp]:
  "calm (hwCollector_update f w) = calm w" "calm (hwLatest_update g w) = calm w"
  "calm (hwLastDiscovery_update h w) = calm w" "calm (hwLastPss_update h w) = calm w"
  "calm (hwProcesses_update i w) = calm w" "calm (hwTables_update j w) = calm w"
  "calm (hwLastSlow_update h w) = calm w" "calm (hwSequence_update f w) = calm w"
  "calm (hwTimer_update k w) = calm w" "calm (hwSmaps_update l w) = calm w"
  "calm (hwClients_update m w) = calm w"
  by (simp_all add: calm_def)

lemma emit_clients:
  "calm w \<Longrightarrow> hwClients (emit_system ev w) k =
     (if k \<in> sbId ` set (hwSubs w) then write_event ev (hwClients w k) else hwClients w k)"
  by (simp add: emit_calm)

lemma emit_keeps_calm: "calm w \<Longrightarrow> calm (emit_system ev w)"
  using emit_calm [of w ev] by (simp add: calm_def o_def)

lemma offer_id [simp]: "sbId (fst (offer ev s)) = sbId s"
  by (simp add: offer_def Let_def)

lemma emit_one_other [simp]:
  "hwCollector (emit_one ev s w) = hwCollector w" "hwSequence (emit_one ev s w) = hwSequence w"
  "hwTimer (emit_one ev s w) = hwTimer w" "hwLatest (emit_one ev s w) = hwLatest w"
  "hwNextId (emit_one ev s w) = hwNextId w" "hwTables (emit_one ev s w) = hwTables w"
  "hwLastSlow (emit_one ev s w) = hwLastSlow w" "map sbId (hwSubs (emit_one ev s w)) = map sbId (hwSubs w)"
  by (simp_all add: emit_one_def case_prod_unfold Let_def)

lemma emit_other [simp]:
  "hwCollector (emit_system ev w) = hwCollector w" "hwSequence (emit_system ev w) = hwSequence w"
  "hwTimer (emit_system ev w) = hwTimer w" "hwLatest (emit_system ev w) = hwLatest w"
  "hwNextId (emit_system ev w) = hwNextId w" "hwTables (emit_system ev w) = hwTables w"
  "map sbId (hwSubs (emit_system ev w)) = map sbId (hwSubs w)"
proof -
  have "hwCollector (fold (emit_one ev) ss w) = hwCollector w \<and> hwSequence (fold (emit_one ev) ss w) = hwSequence w \<and>
    hwTimer (fold (emit_one ev) ss w) = hwTimer w \<and> hwLatest (fold (emit_one ev) ss w) = hwLatest w \<and>
    hwNextId (fold (emit_one ev) ss w) = hwNextId w \<and> hwTables (fold (emit_one ev) ss w) = hwTables w \<and>
    map sbId (hwSubs (fold (emit_one ev) ss w)) = map sbId (hwSubs w)" for ss
    by (induction ss arbitrary: w) simp_all
  then show "hwCollector (emit_system ev w) = hwCollector w" "hwSequence (emit_system ev w) = hwSequence w"
    "hwTimer (emit_system ev w) = hwTimer w" "hwLatest (emit_system ev w) = hwLatest w"
    "hwNextId (emit_system ev w) = hwNextId w" "hwTables (emit_system ev w) = hwTables w"
    "map sbId (hwSubs (emit_system ev w)) = map sbId (hwSubs w)"
    by (simp_all add: emit_system_def)
qed

text \<open>What a tick stores and what it writes to a subscriber.\<close>

definition tick_tables :: "host_config \<Rightarrow> host_observation \<Rightarrow> host_world \<Rightarrow> host_tables" where
  "tick_tables cf ob w =
     (if hcPersist cf
      then save_host (hoSaved ob) (taken_snapshot ob w) (if discovers cf ob w then tick_rows cf ob w else []) (hwTables w)
      else hwTables w)"

definition snapshot_event :: "host_observation \<Rightarrow> host_world \<Rightarrow> system_event" where
  "snapshot_event ob w =
     \<lparr>syeSequence = hwSequence w + 1, syeType = System_snapshot, syeTimestamp = hoTimestamp ob,
      syePayload = Snapshot_payload (snapshot_document (taken_snapshot ob w))\<rparr>"

definition tick_events :: "host_config \<Rightarrow> host_observation \<Rightarrow> host_world \<Rightarrow> system_event list" where
  "tick_events cf ob w =
     (if discovers cf ob w
      then [\<lparr>syeSequence = hwSequence w + 1, syeType = System_processes, syeTimestamp = hoTimestamp ob,
             syePayload = Processes_payload (tick_rows cf ob w)\<rparr>] else []) @ [snapshot_event ob w]"

lemma tick_other [simp]:
  "map sbId (hwSubs (host_tick cf ob w)) = map sbId (hwSubs w)"
  "hwNextId (host_tick cf ob w) = hwNextId w" "hwTimer (host_tick cf ob w) = hwTimer w"
  "hwCollector (host_tick cf ob w) = hwCollector w + 1"
  "hwSequence (host_tick cf ob w) = hwSequence w + 1"
  "hwLatest (host_tick cf ob w) = Some (taken_snapshot ob w)"
  "hwTables (host_tick cf ob w) = tick_tables cf ob w"
  by (simp_all add: host_tick_def Let_def tick_tables_def)

lemma tick_subscribers [simp]: "sbId ` set (hwSubs (host_tick cf ob w)) = sbId ` set (hwSubs w)"
  using arg_cong [OF tick_other(1) [of cf ob w], of set] by (simp only: set_map)

lemma tick_calm:
  assumes "calm w"
  shows "calm (host_tick cf ob w)"
    and "hwClients (host_tick cf ob w) k =
      (if k \<in> sbId ` set (hwSubs w) then fold write_event (tick_events cf ob w) (hwClients w k) else hwClients w k)"
proof -
  have set_ids: "sbId ` set (hwSubs (emit_system ev v)) = sbId ` set (hwSubs v)" for ev v
    using emit_other(7) [of ev v] by (metis list.set_map)
  note facts = host_tick_def Let_def tick_events_def snapshot_event_def taken_snapshot_def
  show "calm (host_tick cf ob w)"
    using assms by (simp add: host_tick_def Let_def emit_keeps_calm)
  show "hwClients (host_tick cf ob w) k =
      (if k \<in> sbId ` set (hwSubs w) then fold write_event (tick_events cf ob w) (hwClients w k) else hwClients w k)"
  proof (cases "discovers cf ob w")
    case True
    then show ?thesis
      unfolding facts
      by (subst emit_clients) (simp_all add: set_ids emit_clients emit_keeps_calm assms)
  next
    case False
    then show ?thesis
      unfolding facts by (subst emit_clients) (simp_all add: assms)
  qed
qed

section \<open>Connections keep every subscriber served\<close>

definition backlog_for :: "int \<Rightarrow> host_world \<Rightarrow> system_event list" where
  "backlog_for after w = snd (snd (host_subscribe after w))"

lemma find_behind: "(\<forall>y \<in> set xs. \<not> P y) \<Longrightarrow> find P (xs @ [x]) = (if P x then Some x else None)"
  by (induction xs) auto

lemma connect_facts:
  assumes "connect lastEventId w = Some (w', sid)" and "calm w"
  shows "calm w'" and "sid = hwNextId w"
    and "map sbId (hwSubs w') = map sbId (hwSubs w) @ [sid]" and "hwNextId w' = sid + 1"
    and "hwCollector w' = hwCollector w" "hwSequence w' = hwSequence w" "hwLatest w' = hwLatest w"
      "hwTables w' = hwTables w" "hwTimer w' = hwTimer w"
    and "hwClients w' = (hwClients w)(sid :=
      (let c = fold write_backlog (backlog_for lastEventId w) no_client in
       c \<lparr>scFrames := scFrames c @ gap_notice lastEventId (backlog_for lastEventId w)\<rparr>))"
proof -
  have fresh: "find (\<lambda>s. sbId s = hwNextId w) (hwSubs w @ [x]) = (if sbId x = hwNextId w then Some x else None)" for x
    by (rule find_behind) (use assms(2) in \<open>auto simp: calm_def\<close>)
  have others: "map (\<lambda>s. if sbId s = hwNextId w then f s else s) (hwSubs w) = hwSubs w" for f
    using assms(2) by (auto simp: calm_def intro!: map_idI)
  have distinct: "distinct (map sbId (hwSubs w))" "hwNextId w \<notin> sbId ` set (hwSubs w)"
    using assms(2) by (auto simp: calm_def)
  have room: "length (hwSubs w) < MAX_STREAM_CLIENTS"
    using assms(1) by (simp add: connect_def subscriberCount_def split: if_splits)
  have w': "w' = w \<lparr>hwNextId := hwNextId w + 1,
      hwSubs := hwSubs w @ [\<lparr>sbId = hwNextId w, sbBuffer = [], sbLastQueued = lastEventId, sbDropped = 0, sbDelivers = True\<rparr>],
      hwClients := (hwClients w)(hwNextId w :=
        (let c = fold write_backlog (backlog_for lastEventId w) no_client in
         c \<lparr>scFrames := scFrames c @ gap_notice lastEventId (backlog_for lastEventId w)\<rparr>))\<rparr>"
    and "sid = hwNextId w"
    using assms(1)
    by (auto simp: connect_def backlog_for_def host_subscribe_def Let_def setDelivery_def fresh others split: if_splits)
  then show "calm w'" "sid = hwNextId w"
    "map sbId (hwSubs w') = map sbId (hwSubs w) @ [sid]" "hwNextId w' = sid + 1"
    "hwCollector w' = hwCollector w" "hwSequence w' = hwSequence w" "hwLatest w' = hwLatest w"
    "hwTables w' = hwTables w" "hwTimer w' = hwTimer w"
    "hwClients w' = (hwClients w)(sid :=
      (let c = fold write_backlog (backlog_for lastEventId w) no_client in
       c \<lparr>scFrames := scFrames c @ gap_notice lastEventId (backlog_for lastEventId w)\<rparr>))"
    using assms(2) room distinct by (auto simp: calm_def delivering_def)
qed

lemma connect_refused: "connect lastEventId w = None \<longleftrightarrow> MAX_STREAM_CLIENTS \<le> subscriberCount w"
  by (simp add: connect_def Let_def split: prod.split)

lemma disconnect_facts:
  shows "calm w \<Longrightarrow> calm (disconnect sid destroyed w)"
    and "sbId ` set (hwSubs (disconnect sid destroyed w)) = sbId ` set (hwSubs w) - {sid}"
    and "hwNextId (disconnect sid destroyed w) = hwNextId w"
    and "hwCollector (disconnect sid destroyed w) = hwCollector w"
    and "hwSequence (disconnect sid destroyed w) = hwSequence w"
    and "hwLatest (disconnect sid destroyed w) = hwLatest w"
    and "hwTables (disconnect sid destroyed w) = hwTables w"
    and "k \<noteq> sid \<Longrightarrow> hwClients (disconnect sid destroyed w) k = hwClients w k"
    and "Data_frame ev \<in> set (scFrames (hwClients (disconnect sid destroyed w) k)) \<longleftrightarrow>
         Data_frame ev \<in> set (scFrames (hwClients w k))"
  by (auto simp: disconnect_def Let_def calm_def distinct_map_filter intro: le_trans [OF length_filter_le])

lemma fresh_service:
  "hwSubs (new_service t) = []" "hwNextId (new_service t) = 1" "hwSequence (new_service t) = 0"
  "hwCollector (new_service t) = 0" "hwLatest (new_service t) = None" "hwTables (new_service t) = t"
  "hwClients (new_service t) k = no_client" "hwTimer (new_service t) = False"
  by (simp_all add: new_service_def)

lemma calm_fresh [simp]: "calm (new_service t)"
  by (simp add: calm_def new_service_def)

lemma host_step_calm:
  assumes "host_step cf w w'" and "calm w \<and> hwCollector w = hwSequence w"
  shows "calm w' \<and> hwCollector w' = hwSequence w'"
  using assms
proof (cases rule: host_step.cases)
  case (Boot supported ob)
  then show ?thesis using assms(2) by (auto simp: start_service_def tick_calm)
next
  case (Connect lastEventId sid)
  then show ?thesis using connect_facts [OF Connect] assms(2) by simp
next
  case Shutdown
  then show ?thesis by (simp add: new_service_def calm_def)
qed (auto simp: tick_calm disconnect_facts)

lemma reachable_calm: "host_reachable cf w \<Longrightarrow> calm w \<and> hwCollector w = hwSequence w"
proof (induction rule: host_reachable.induct)
  case Fresh
  then show ?case by (simp add: new_service_def calm_def)
next
  case (Next w w')
  from Next.hyps(2) Next.IH show ?case by (rule host_step_calm)
qed

text \<open>C23: The host stream never loses a frame to its own buffer. Whatever the order of ticks,
  connections, disconnections, retention sweeps and restarts, there are never more than eight
  subscribers, each of them has a delivery function and an empty buffer and a count of dropped
  frames of zero, and the sequence of the stream is that of the collector.  So the drop-oldest branch
  of \<^verbatim>\<open>emit\<close> is dead: \<^verbatim>\<open>setDelivery\<close> runs in the same turn as \<^verbatim>\<open>subscribe\<close>.\<close>
theorem host_stream_never_buffers:
  assumes "host_reachable cf w"
  shows "subscriberCount w \<le> 8 \<and>
    (\<forall>s \<in> set (hwSubs w). sbDelivers s \<and> sbBuffer s = [] \<and> droppedFor (sbId s) w = 0) \<and>
    hwCollector w = hwSequence w"
  using reachable_calm [OF assms]
  by (auto simp: calm_def delivering_def subscriberCount_def MAX_STREAM_CLIENTS_def droppedFor_def
      find_Some_iff split: option.split)

text \<open>One client on a service that has not collected yet.\<close>

theorem host_stream_never_buffers_witness:
  "\<exists>w sid. connect (- 1) (new_service \<lparr>htSnapshots = [], htProcesses = []\<rparr>) = Some (w, sid) \<and>
     subscriberCount w = 1 \<and> (\<forall>s \<in> set (hwSubs w). sbDelivers s) \<and> hwCollector w = hwSequence w"
proof -
  let ?start = "new_service \<lparr>htSnapshots = [], htProcesses = []\<rparr>"
  have ok: "connect (- 1) ?start \<noteq> None"
    by (simp add: connect_refused new_service_def subscriberCount_def MAX_STREAM_CLIENTS_def)
  then obtain w sid where w: "connect (- 1) ?start = Some (w, sid)" by auto
  then have "host_reachable cf w" for cf
    by (metis host_reachable.Fresh host_reachable.Next host_step.Connect)
  moreover have "map sbId (hwSubs w) = [1]"
    using connect_facts(2,3) [OF w calm_fresh] by (simp add: fresh_service)
  then have "length (hwSubs w) = 1" by (metis length_map length_Cons list.size(3) One_nat_def)
  ultimately show ?thesis
    using w host_stream_never_buffers [of undefined w] by (auto simp: subscriberCount_def)
qed

section \<open>Steady runs\<close>

text \<open>The database takes the snapshot and its process rows.\<close>

definition row_taken :: "host_config \<Rightarrow> host_observation \<Rightarrow> host_world \<Rightarrow> bool" where
  "row_taken cf ob w \<longleftrightarrow> hcPersist cf \<and> hoSaved ob \<and>
     (discovers cf ob w \<longrightarrow>
       (\<forall>p \<in> set (detailed (tick_rows cf ob w)). valueOf (Some (hpMetric p P_pid)) \<noteq> Some Not_a_number))"

text \<open>The tick stores a snapshot that can be replayed: its row is taken, and the collector built its
  \<open>cpu\<close> block.\<close>

definition storable :: "host_config \<Rightarrow> host_observation \<Rightarrow> host_world \<Rightarrow> bool" where
  "storable cf ob w \<longleftrightarrow> row_taken cf ob w \<and> field (hoBlocks ob) ''cpu'' \<noteq> None"

definition stored_row :: "host_observation \<Rightarrow> host_world \<Rightarrow> host_row" where
  "stored_row ob w =
     \<lparr>hrSequence = hwCollector w + 1, hrTimestamp = hoTimestamp ob,
      hrBoot = (case hoBoot ob of None \<Rightarrow> ''unknown-boot'' | Some b \<Rightarrow> b),
      hrPayload = Json_text (snapshot_document (taken_snapshot ob w))\<rparr>"

lemma taken_tables:
  "row_taken cf ob w \<Longrightarrow> htSnapshots (tick_tables cf ob w) = replace_row (stored_row ob w) (htSnapshots (hwTables w))"
  by (auto simp: row_taken_def tick_tables_def save_host_def stored_row_def taken_snapshot_def detailed_def)

lemma untaken_tables: "\<not> row_taken cf ob w \<Longrightarrow> tick_tables cf ob w = hwTables w"
  by (auto simp: row_taken_def tick_tables_def save_host_def detailed_def)

lemma storable_tables:
  "storable cf ob w \<Longrightarrow> htSnapshots (tick_tables cf ob w) = replace_row (stored_row ob w) (htSnapshots (hwTables w))"
  by (simp add: storable_def taken_tables)

text \<open>Ticks that store, connections and disconnections; no sweep and no restart.\<close>

inductive steady_step :: "host_config \<Rightarrow> host_world \<Rightarrow> host_world \<Rightarrow> bool" for cf where
  First: "\<not> hwTimer w \<Longrightarrow> storable cf ob (w \<lparr>hwSmaps := Some supported\<rparr>) \<Longrightarrow>
     steady_step cf w (start_service cf supported ob w)"
| Sample: "hwTimer w \<Longrightarrow> storable cf ob w \<Longrightarrow> steady_step cf w (host_tick cf ob w)"
| Join: "connect lastEventId w = Some (w', sid) \<Longrightarrow> steady_step cf w w'"
| Leave: "sid < hwNextId w \<Longrightarrow> steady_step cf w (disconnect sid destroyed w)"

definition replayable :: "host_row \<Rightarrow> bool" where
  "replayable r \<longleftrightarrow> parsePersisted r \<noteq> None"

lemma parsePersisted_facts:
  "parsePersisted r = Some ev \<Longrightarrow> syeSequence ev = hrSequence r \<and> syeType ev = System_snapshot \<and>
     syeTimestamp ev = hrTimestamp r \<and> (\<exists>j. syePayload ev = Snapshot_payload j \<and> hrPayload r = Json_text j)"
  by (auto simp: parsePersisted_def split: stored_text.splits json.splits option.splits)

lemma stored_row_facts:
  assumes "storable cf ob w"
  shows "replayable (stored_row ob w)" "hrSequence (stored_row ob w) = hwCollector w + 1"
  using assms by (auto simp: replayable_def parsePersisted_def stored_row_def snapshot_document_def storable_def
      taken_snapshot_def field_def split: option.split)

text \<open>What the tables hold after the first snapshots of a service that found the rows \<open>old\<close>.\<close>

definition stored_upto :: "host_row list \<Rightarrow> nat \<Rightarrow> host_snapshot option \<Rightarrow> host_row list \<Rightarrow> bool" where
  "stored_upto old n recent rows \<longleftrightarrow>
     (\<exists>news. rows = filter (\<lambda>r. n < hrSequence r) old @ news \<and>
        map hrSequence news = [1..<n + 1] \<and> (\<forall>r \<in> set news. replayable r) \<and>
        (case recent of
           None \<Rightarrow> n = 0
         | Some s \<Rightarrow> \<exists>r \<in> set news. hrSequence r = n \<and> hrTimestamp r = hsTimestamp s \<and>
                      hrPayload r = Json_text (snapshot_document s)))"

definition upto_date :: "host_row list \<Rightarrow> host_world \<Rightarrow> bool" where
  "upto_date old w \<longleftrightarrow> calm w \<and> hwCollector w = hwSequence w \<and>
     stored_upto old (hwSequence w) (hwLatest w) (htSnapshots (hwTables w))"

definition same_stream :: "host_world \<Rightarrow> host_world \<Rightarrow> bool" where
  "same_stream v w \<longleftrightarrow> hwCollector v = hwCollector w \<and> hwSequence v = hwSequence w \<and> hwLatest v = hwLatest w \<and>
     hwNextId v = hwNextId w \<and> hwSubs v = hwSubs w \<and> hwClients v = hwClients w \<and> hwTables v = hwTables w"

text \<open>The steps of a steady run: a stored tick, a client that joins, one that leaves.\<close>

lemma steady_cases:
  assumes "steady_step cf w w'"
  obtains
    (tick) ob v where "storable cf ob v" "same_stream v w" "same_stream w' (host_tick cf ob v)"
  | (join) lastEventId sid where "connect lastEventId w = Some (w', sid)"
  | (leave) sid destroyed where "sid < hwNextId w" "w' = disconnect sid destroyed w"
  using assms
proof (cases rule: steady_step.cases)
  case (First ob supported)
  then show ?thesis
    by (intro tick [of ob "w \<lparr>hwSmaps := Some supported\<rparr>"]) (simp_all add: same_stream_def start_service_def)
next
  case (Sample ob)
  then show ?thesis by (intro tick [of ob w]) (simp_all add: same_stream_def)
qed (auto intro: join leave)

lemma upto_date_same: "same_stream v w \<Longrightarrow> upto_date old v = upto_date old w"
  by (simp add: upto_date_def same_stream_def calm_def)

lemma replace_next:
  assumes "hrSequence r = n + 1" and "map hrSequence news = [1..<n + 1]"
  shows "replace_row r (filter (\<lambda>x. n < hrSequence x) old @ news) =
    filter (\<lambda>x. n + 1 < hrSequence x) old @ news @ [r]"
proof -
  have "\<forall>x \<in> set news. hrSequence x \<noteq> n + 1"
  proof
    fix x assume "x \<in> set news"
    then have "hrSequence x \<in> set (map hrSequence news)" by simp
    then show "hrSequence x \<noteq> n + 1" unfolding assms(2) by auto
  qed
  then have "filter (\<lambda>x. hrSequence x \<noteq> n + 1) news = news" by (simp add: filter_id_conv)
  moreover have "filter (\<lambda>x. hrSequence x \<noteq> n + 1) (filter (\<lambda>x. n < hrSequence x) old) = filter (\<lambda>x. n + 1 < hrSequence x) old"
    by (auto simp: filter_filter intro!: filter_cong)
  ultimately show ?thesis by (simp add: replace_row_def assms(1))
qed

lemma upto_date_tick:
  assumes w: "upto_date old w" and "storable cf ob w"
  shows "upto_date old (host_tick cf ob w)"
proof -
  from w obtain news where news: "htSnapshots (hwTables w) = filter (\<lambda>r. hwSequence w < hrSequence r) old @ news"
    "map hrSequence news = [1..<hwSequence w + 1]" "\<forall>r \<in> set news. replayable r"
    unfolding upto_date_def stored_upto_def by blast
  have calm: "calm w" "hwCollector w = hwSequence w" using w unfolding upto_date_def by blast+
  let ?r = "stored_row ob w"
  have r: "replayable ?r" "hrSequence ?r = hwSequence w + 1"
    using stored_row_facts [OF assms(2)] calm(2) by simp_all
  have rows: "htSnapshots (hwTables (host_tick cf ob w)) =
      filter (\<lambda>x. hwSequence w + 1 < hrSequence x) old @ (news @ [?r])"
    using replace_next [OF r(2) news(2)] by (simp add: storable_tables [OF assms(2)] news(1))
  have ids: "map hrSequence (news @ [?r]) = [1..<hwSequence w + 1 + 1]"
    using news(2) r(2) by simp
  have "\<exists>x \<in> set (news @ [?r]). hrSequence x = hwSequence w + 1 \<and> hrTimestamp x = hsTimestamp (taken_snapshot ob w) \<and>
      hrPayload x = Json_text (snapshot_document (taken_snapshot ob w))"
    by (rule bexI [of _ ?r]) (simp_all add: r(2) calm(2) stored_row_def [of ob w] taken_snapshot_def)
  with rows ids news(3) r(1)
  have "stored_upto old (hwSequence w + 1) (Some (taken_snapshot ob w)) (htSnapshots (hwTables (host_tick cf ob w)))"
    unfolding stored_upto_def by (intro exI [of _ "news @ [?r]"]) simp
  then show ?thesis
    using calm tick_calm(1) [OF calm(1)] by (simp add: upto_date_def)
qed

lemma upto_date_steady:
  assumes "(steady_step cf)\<^sup>*\<^sup>* v w" and "upto_date old v"
  shows "upto_date old w"
  using assms
proof (induction rule: rtranclp_induct)
  case (step w w')
  from step.hyps(2) show ?case
  proof (cases rule: steady_cases)
    case (tick ob v)
    then show ?thesis using step upto_date_same upto_date_tick by blast
  next
    case (join lastEventId sid)
    with step.IH [OF step.prems] connect_facts [OF join] show ?thesis by (simp add: upto_date_def)
  next
    case (leave sid destroyed)
    with step.IH [OF step.prems] show ?thesis by (simp add: upto_date_def disconnect_facts)
  qed
qed

lemma upto_date_fresh: "(\<forall>r \<in> set (htSnapshots t). 0 < hrSequence r) \<Longrightarrow> upto_date (htSnapshots t) (new_service t)"
  by (simp add: upto_date_def stored_upto_def fresh_service filter_id_conv)

section \<open>What a client receives\<close>

fun snapshot_id :: "system_frame \<Rightarrow> nat option" where
  "snapshot_id (Data_frame ev) = (if syeType ev = System_snapshot then Some (syeSequence ev) else None)"
| "snapshot_id _ = None"

definition snapshot_ids :: "stream_client \<Rightarrow> nat list" where
  "snapshot_ids c = List.map_filter snapshot_id (scFrames c)"

lemma snapshot_ids_write:
  "snapshot_ids (write_event ev c) =
     snapshot_ids c @ (if syeType ev = System_snapshot then [syeSequence ev] else [])"
  by (simp add: snapshot_ids_def write_event_def List.map_filter_def)

lemma tick_ids: "snapshot_ids (fold write_event (tick_events cf ob w) c) = snapshot_ids c @ [hwSequence w + 1]"
  by (simp add: tick_events_def snapshot_event_def snapshot_ids_write)

lemma frames_fold: "scFrames (fold write_event evs c) = scFrames c @ map Data_frame evs"
  by (induction evs arbitrary: c) (simp_all add: write_event_def)

text \<open>From its connection to its end a subscriber receives every snapshot, in order, once.\<close>

lemma subscribed_ids:
  assumes "(steady_step cf)\<^sup>*\<^sup>* v w" and "calm v" "sid < hwNextId v"
  shows "calm w \<and> sid < hwNextId w \<and> hwSequence v \<le> hwSequence w \<and>
    (sid \<in> sbId ` set (hwSubs w) \<longrightarrow>
       snapshot_ids (hwClients w sid) = snapshot_ids (hwClients v sid) @ [hwSequence v + 1..<hwSequence w + 1])"
  using assms
proof (induction rule: rtranclp_induct)
  case (step w w')
  note ih = step.IH [OF step.prems]
  from step.hyps(2) show ?case
  proof (cases rule: steady_cases)
    case (tick ob u)
    have u: "calm u" "hwClients u = hwClients w" "hwSubs u = hwSubs w" "hwSequence u = hwSequence w" "hwNextId u = hwNextId w"
      using ih tick(2) by (simp_all add: same_stream_def calm_def)
    have t: "hwSubs w' = hwSubs (host_tick cf ob u)" "hwNextId w' = hwNextId (host_tick cf ob u)"
      "hwClients w' = hwClients (host_tick cf ob u)" "hwSequence w' = hwSequence (host_tick cf ob u)"
      using tick(3) by (simp_all add: same_stream_def)
    have ids: "sbId ` set (hwSubs w') = sbId ` set (hwSubs w)" by (simp add: t(1) u(3))
    have w': "calm w'" "hwNextId w' = hwNextId w" "hwSequence w' = hwSequence w + 1"
      using tick_calm(1) [OF u(1), of cf ob] t u by (simp_all add: calm_def)
    show ?thesis
      using ih by (auto simp: w' u t(3) ids tick_calm(2) [OF u(1)] tick_ids)
  next
    case (join lastEventId k)
    have w: "calm w" using ih by blast
    have "map sbId (hwSubs w') = map sbId (hwSubs w) @ [k]" by (rule connect_facts(3) [OF join w])
    from arg_cong [OF this, of set] have ids: "sbId ` set (hwSubs w') = insert k (sbId ` set (hwSubs w))" by simp
    note facts = connect_facts [OF join w]
    show ?thesis
      using ih facts(1) by (auto simp: facts(2,4,6,10) ids [unfolded facts(2)])
  next
    case (leave k destroyed)
    with ih show ?thesis by (auto simp: disconnect_facts)
  qed
qed simp

section \<open>The backlog\<close>

lemma map_sort_key: "map f (sort_key f xs) = sort (map f xs)"
  by (rule sym, rule properties_for_sort) (simp_all add: sorted_sort_key)

lemma filter_upt_above: "filter (\<lambda>n. a < n) [1..<M + 1] = [a + 1..<M + 1]"
  by (induction M) auto

lemma take_upt_min: "take l [a..<b] = [a..<min b (a + l)]"
  by (cases "a + l \<le> b") (simp_all add: min_def)

text \<open>Ids of one run of numbers, in whatever order the rows are.\<close>

lemma listAfter_ids:
  assumes "mset (map hrSequence (htSnapshots t)) = mset [1..<M + 1]" and "0 \<le> after"
  shows "map hrSequence (listAfter after limit t) = [nat after + 1..<min (M + 1) (nat after + 1 + limit)]"
proof -
  have above: "(after < int n) = (nat after < n)" for n using assms(2) by linarith
  let ?above = "\<lambda>n. nat after < n"
  have "map hrSequence (listAfter after limit t) =
      take limit (sort (filter ?above (map hrSequence (htSnapshots t))))"
    by (simp add: listAfter_def above take_map [symmetric] map_sort_key filter_map o_def)
  also have "sort (filter ?above (map hrSequence (htSnapshots t))) = filter ?above [1..<M + 1]"
    by (rule properties_for_sort, simp only: mset_filter assms(1), rule sorted_wrt_filter, rule sorted_upt)
  finally show ?thesis by (simp only: filter_upt_above take_upt_min)
qed

lemma stored_ids:
  assumes "stored_upto old n recent rows" and "map hrSequence old = [1..<m + 1]"
  shows "mset (map hrSequence rows) = mset [1..<max n m + 1]"
proof -
  obtain news where rows: "rows = filter (\<lambda>r. n < hrSequence r) old @ news" "map hrSequence news = [1..<n + 1]"
    using assms(1) by (auto simp only: stored_upto_def)
  have "map hrSequence (filter (\<lambda>r. n < hrSequence r) old) = filter (\<lambda>k. n < k) (map hrSequence old)"
    by (simp add: filter_map o_def)
  also have "\<dots> = [n + 1..<m + 1]" unfolding assms(2) by (rule filter_upt_above)
  finally have "mset (map hrSequence rows) = mset ([1..<n + 1] @ [n + 1..<m + 1])"
    unfolding rows(1) map_append rows(2) by (simp only: mset_append union_commute)
  also have "[1..<n + 1] @ [n + 1..<m + 1] = [1..<max n m + 1]"
  proof (cases "n \<le> m")
    case True
    then show ?thesis using upt_add_eq_append [of 1 "n + 1" "m - n"] by (simp add: max_def)
  qed (simp add: max_def)
  finally show ?thesis .
qed

lemma replay_ids: "\<forall>r \<in> set rows. replayable r \<Longrightarrow>
    map syeSequence (List.map_filter parsePersisted rows) = map hrSequence rows"
  by (induction rows) (auto simp: List.map_filter_def replayable_def dest: parsePersisted_facts)

lemma backlog_written:
  "distinct (map syeSequence evs) \<Longrightarrow> scSent c \<inter> syeSequence ` set evs = {} \<Longrightarrow>
   fold write_backlog evs c = fold write_event evs c"
  by (induction evs arbitrary: c) (auto simp: write_backlog_def write_event_def)

text \<open>What a client resumes with after \<open>after\<close>, on a service that has taken \<open>n\<close> snapshots and found \<open>m\<close>.\<close>

definition resume_ids :: "int \<Rightarrow> nat \<Rightarrow> nat \<Rightarrow> nat list" where
  "resume_ids after n m =
     (if after < 0 then (if n = 0 then [] else [n])
      else [nat after + 1..<min (max n m + 1) (nat after + 1 + REPLAY_BATCH)])"

lemma recent_positive:
  assumes "stored_upto old n (Some s) rows"
  shows "0 < n"
proof -
  obtain news where "rows = filter (\<lambda>r. n < hrSequence r) old @ news \<and> map hrSequence news = [1..<n + 1] \<and>
      (\<forall>r \<in> set news. replayable r) \<and> (\<exists>r \<in> set news. hrSequence r = n \<and> hrTimestamp r = hsTimestamp s \<and>
         hrPayload r = Json_text (snapshot_document s))"
    using assms unfolding stored_upto_def option.case by (rule exE)
  then obtain r where news: "map hrSequence news = [1..<n + 1]" and r: "r \<in> set news" "hrSequence r = n"
    by (elim conjE bexE)
  from r have "n \<in> set (map hrSequence news)" by auto
  then show ?thesis unfolding news by simp
qed

lemma backlog_facts:
  assumes "stored_upto old (hwSequence w) (hwLatest w) (htSnapshots (hwTables w))"
    and old: "map hrSequence old = [1..<m + 1]" "\<forall>r \<in> set old. replayable r"
  shows "map syeSequence (backlog_for after w) = resume_ids after (hwSequence w) m \<and>
    (\<forall>ev \<in> set (backlog_for after w). syeType ev = System_snapshot \<and>
       (\<exists>r \<in> set (htSnapshots (hwTables w)). hrSequence r = syeSequence ev \<and> hrTimestamp r = syeTimestamp ev \<and>
          (\<exists>j. syePayload ev = Snapshot_payload j \<and> hrPayload r = Json_text j)))"
proof (cases "after < 0")
  case True
  then have "backlog_for after w = (case hwLatest w of None \<Rightarrow> []
      | Some s \<Rightarrow> [\<lparr>syeSequence = hwSequence w, syeType = System_snapshot, syeTimestamp = hsTimestamp s,
                   syePayload = Snapshot_payload (snapshot_document s)\<rparr>])"
    by (simp add: backlog_for_def host_subscribe_def Let_def)
  moreover have "0 < hwSequence w" if "hwLatest w = Some s" for s
    by (rule recent_positive) (use assms(1) that in simp)
  ultimately show ?thesis
    using assms(1) True by (auto simp: stored_upto_def resume_ids_def split: option.split_asm)
next
  case False
  let ?rows = "listAfter after REPLAY_BATCH (hwTables w)"
  have b: "backlog_for after w = List.map_filter parsePersisted ?rows"
    using False by (simp add: backlog_for_def host_subscribe_def Let_def)
  have stored: "set ?rows \<subseteq> set (htSnapshots (hwTables w))"
    by (auto simp: listAfter_def dest: in_set_takeD)
  have "\<forall>r \<in> set (htSnapshots (hwTables w)). replayable r"
    using assms(1) old(2) by (auto simp only: stored_upto_def set_append set_filter)
  with stored have "map syeSequence (backlog_for after w) = map hrSequence ?rows"
    unfolding b by (intro replay_ids) blast
  moreover have "map hrSequence ?rows = resume_ids after (hwSequence w) m"
    using listAfter_ids [OF stored_ids [OF assms(1) old(1)]] False by (simp add: resume_ids_def)
  moreover have "syeType ev = System_snapshot \<and>
       (\<exists>r \<in> set (htSnapshots (hwTables w)). hrSequence r = syeSequence ev \<and> hrTimestamp r = syeTimestamp ev \<and>
          (\<exists>j. syePayload ev = Snapshot_payload j \<and> hrPayload r = Json_text j))" if ev: "ev \<in> set (backlog_for after w)" for ev
  proof -
    from ev have "\<exists>r \<in> set ?rows. parsePersisted r = Some ev" by (auto simp: b List.map_filter_def)
    then obtain r where r: "r \<in> set ?rows" "parsePersisted r = Some ev" by blast
    then show ?thesis using stored parsePersisted_facts [OF r(2)] by (intro conjI bexI [of _ r]) auto
  qed
  ultimately show ?thesis by simp
qed

lemma resume_ids_distinct: "distinct (resume_ids after n m)"
  by (simp add: resume_ids_def)

lemma no_gap: "map syeSequence evs = resume_ids after n m \<Longrightarrow> gap_notice after evs = []"
proof (cases "after < 0 \<or> evs = []")
  case False
  assume ids: "map syeSequence evs = resume_ids after n m"
  obtain ev rest where evs: "evs = ev # rest" using False by (cases evs) auto
  let ?to = "min (max n m + 1) (nat after + 1 + REPLAY_BATCH)"
  have r: "resume_ids after n m = [nat after + 1..<?to]" using False by (simp add: resume_ids_def)
  have "nat after + 1 < ?to" using ids evs r by (metis list.map(2) list.distinct(1) upt_eq_Nil_conv not_le)
  then have "syeSequence ev = nat after + 1"
    using arg_cong [OF ids, of hd] evs by (simp only: r list.map list.sel hd_upt)
  then show ?thesis using False by (simp add: gap_notice_def evs)
qed (auto simp: gap_notice_def split: list.split)

lemma joined_client:
  assumes "calm w" and "connect after w = Some (w1, sid)"
    and stored: "stored_upto old (hwSequence w) (hwLatest w) (htSnapshots (hwTables w))"
    and old: "map hrSequence old = [1..<m + 1]" "\<forall>r \<in> set old. replayable r"
  shows "scFrames (hwClients w1 sid) = map Data_frame (backlog_for after w)"
    and "snapshot_ids (hwClients w1 sid) = resume_ids after (hwSequence w) m"
proof -
  note facts = backlog_facts [OF stored old, of after]
  then have ids: "map syeSequence (backlog_for after w) = resume_ids after (hwSequence w) m" by blast
  have "fold write_backlog (backlog_for after w) no_client = fold write_event (backlog_for after w) no_client"
    by (rule backlog_written) (simp_all add: ids resume_ids_distinct no_client_def)
  then show frames: "scFrames (hwClients w1 sid) = map Data_frame (backlog_for after w)"
    using no_gap [OF ids] by (simp add: connect_facts(10) [OF assms(2,1)] Let_def frames_fold no_client_def)
  have "\<forall>ev \<in> set evs. syeType ev = System_snapshot \<Longrightarrow>
      List.map_filter snapshot_id (map Data_frame evs) = map syeSequence evs" for evs
    by (induction evs) (simp_all add: List.map_filter_def)
  with facts ids show "snapshot_ids (hwClients w1 sid) = resume_ids after (hwSequence w) m"
    by (simp add: snapshot_ids_def frames)
qed

lemma upto_date_run:
  assumes "map hrSequence (htSnapshots t) = [1..<m + 1]" and "(steady_step cf)\<^sup>*\<^sup>* (new_service t) w"
  shows "upto_date (htSnapshots t) w"
proof (rule upto_date_steady [OF assms(2) upto_date_fresh], rule ballI)
  fix r assume "r \<in> set (htSnapshots t)"
  then have "hrSequence r \<in> set (map hrSequence (htSnapshots t))" by simp
  then show "0 < hrSequence r" unfolding assms(1) by auto
qed

text \<open>One client from its connection on, on a service that found the snapshots \<open>1..m\<close> of earlier runs.\<close>

lemma client_ids:
  assumes old: "map hrSequence (htSnapshots t) = [1..<m + 1]" "\<forall>r \<in> set (htSnapshots t). replayable r"
    and run: "(steady_step cf)\<^sup>*\<^sup>* (new_service t) w"
    and join: "connect after w = Some (w1, sid)"
    and on: "(steady_step cf)\<^sup>*\<^sup>* w1 w2" "sid \<in> sbId ` set (hwSubs w2)"
  shows "snapshot_ids (hwClients w2 sid) =
    resume_ids after (hwSequence w) m @ [hwSequence w + 1..<hwSequence w2 + 1]"
proof -
  have w: "upto_date (htSnapshots t) w" by (rule upto_date_run [OF old(1) run])
  have calm: "calm w"
    and stored: "stored_upto (htSnapshots t) (hwSequence w) (hwLatest w) (htSnapshots (hwTables w))"
    using w by (simp_all add: upto_date_def)
  note c = connect_facts [OF join calm]
  have "sid < hwNextId w1" by (simp add: c(4))
  from subscribed_ids [OF on(1) c(1) this] on(2)
  show ?thesis by (simp add: joined_client(2) [OF calm join stored old] c(6))
qed

definition no_tables :: host_tables where
  "no_tables = \<lparr>htSnapshots = [], htProcesses = []\<rparr>"

text \<open>C22: A resuming client receives exactly the snapshots after its position, unless they are too
  many.  In a run from empty tables in which every snapshot is stored, without a sweep and without a
  restart, a client that resumes after \<open>after\<close> when the service
  stands at \<open>n\<close> has received, at any later moment of its connection, the ids \<open>after + 1, ..., n\<close> out of the
  store, of which there are at most 500, and then every id above \<open>n\<close>, in order and once; a client
  without a position receives \<open>n\<close> first.  When more than 500 are missing, the ids above
  \<open>after + 500\<close> up to \<open>n\<close> are never sent.\<close>
theorem resumed_host_stream:
  assumes "(steady_step cf)\<^sup>*\<^sup>* (new_service no_tables) w"
    and "connect after w = Some (w1, sid)"
    and "(steady_step cf)\<^sup>*\<^sup>* w1 w2" and "sid \<in> sbId ` set (hwSubs w2)"
  shows "snapshot_ids (hwClients w2 sid) =
    (if after < 0 then (if hwSequence w = 0 then [] else [hwSequence w])
     else [nat after + 1..<min (hwSequence w + 1) (nat after + 501)]) @ [hwSequence w + 1..<hwSequence w2 + 1]"
  using client_ids [of no_tables 0 cf w after w1 sid w2] assms
  by (simp add: no_tables_def resume_ids_def REPLAY_BATCH_def add.commute)


text \<open>A host without a process list, sampled twice around one connection.\<close>

definition idle_config :: host_config where
  "idle_config = \<lparr>hcSlowMs = 5000, hcDiscoveryMs = 5000, hcPssMs = 30000, hcPssMaxProcesses = 25, hcPersist = True\<rparr>"

definition idle_observation :: host_observation where
  "idle_observation =
     \<lparr>hoTimestamp = ''t'', hoBoot = None, hoBlocks = [(''cpu'', JObj [])],
      hoPass = \<lparr>obFiles = (\<lambda>_. Inl ENOENT), obListing = Inl ENOENT, obTicks = None, obNow = 0, obTimestamp = ''t'', obOwned = {}\<rparr>,
      hoNow = 0, hoRollup = (\<lambda>_. None), hoSaved = True\<rparr>"

lemma idle_storable: "storable idle_config idle_observation w"
  by (simp add: storable_def row_taken_def idle_config_def idle_observation_def tick_rows_def discoverProcesses_def attachPss_def
      detailed_def field_def)

lemma idle_client:
  "\<exists>w w1 w2 sid. (steady_step idle_config)\<^sup>*\<^sup>* (new_service t) w \<and> hwSequence w = 1 \<and>
     connect after w = Some (w1, sid) \<and> (steady_step idle_config)\<^sup>*\<^sup>* w1 w2 \<and> hwSequence w2 = 2 \<and>
     sid \<in> sbId ` set (hwSubs w2)"
proof -
  let ?w = "start_service idle_config False idle_observation (new_service t)"
  have "sbId ` set (hwSubs ?w) = {}"
    using tick_subscribers [of idle_config idle_observation "new_service t \<lparr>hwSmaps := Some False\<rparr>"]
    by (simp add: start_service_def fresh_service del: image_is_empty)
  then have "hwSubs ?w = []" by (simp only: image_is_empty set_empty)
  moreover have "calm ?w" "hwSequence ?w = 1" "hwTimer ?w"
    by (simp_all add: start_service_def fresh_service tick_calm)
  ultimately have w: "calm ?w" "hwSequence ?w = 1" "hwTimer ?w" "hwSubs ?w = []" by blast+
  then obtain w1 sid where j: "connect after ?w = Some (w1, sid)"
    using connect_refused [of after ?w] by (auto simp: subscriberCount_def MAX_STREAM_CLIENTS_def)
  note c = connect_facts [OF j w(1)]
  have "steady_step idle_config (new_service t) ?w"
    by (rule steady_step.First) (simp_all add: fresh_service idle_storable)
  moreover have "steady_step idle_config w1 (host_tick idle_config idle_observation w1)"
    by (rule steady_step.Sample) (simp_all add: c(9) w(3) idle_storable)
  moreover have "sid \<in> sbId ` set (hwSubs w1)"
    using arg_cong [OF c(3), of set] by auto
  ultimately show ?thesis
    using j w c(6) by (intro exI [of _ ?w] exI [of _ w1] exI [of _ "host_tick idle_config idle_observation w1"] exI [of _ sid])
      auto
qed

theorem resumed_host_stream_witness:
  "\<exists>w w1 (w2 :: host_world) sid. connect 0 w = Some (w1, sid) \<and> hwSequence w = 1 \<and> snapshot_ids (hwClients w2 sid) = [1, 2]"
proof -
  obtain w w1 w2 sid where run: "(steady_step idle_config)\<^sup>*\<^sup>* (new_service no_tables) w" "hwSequence w = 1"
    "connect 0 w = Some (w1, sid)" "(steady_step idle_config)\<^sup>*\<^sup>* w1 w2" "hwSequence w2 = 2" "sid \<in> sbId ` set (hwSubs w2)"
    using idle_client [of no_tables 0] by blast
  from resumed_host_stream [OF run(1,3,4,6)] run(2,5)
  have "snapshot_ids (hwClients w2 sid) = [1, 2]" by (simp add: upt_rec)
  with run(2,3) show ?thesis by metis
qed



section \<open>What is published, stored or not\<close>

text \<open>A snapshot frame and the row it can be fetched from.\<close>

definition in_store :: "host_row list \<Rightarrow> system_event \<Rightarrow> bool" where
  "in_store rows ev \<longleftrightarrow> (\<exists>r \<in> set rows. hrSequence r = syeSequence ev \<and> hrTimestamp r = syeTimestamp ev \<and>
      (\<exists>j. syePayload ev = Snapshot_payload j \<and> hrPayload r = Json_text j))"

text \<open>The snapshots that a run of ticks takes, and whether the database takes them.\<close>

fun snapshots_taken :: "host_config \<Rightarrow> host_observation list \<Rightarrow> host_world \<Rightarrow> (system_event \<times> bool) list" where
  "snapshots_taken cf [] w = []"
| "snapshots_taken cf (ob # obs) w =
     (snapshot_event ob w, row_taken cf ob w) # snapshots_taken cf obs (host_tick cf ob w)"

definition snapshot_frames :: "stream_client \<Rightarrow> system_frame list" where
  "snapshot_frames c = filter (\<lambda>f. snapshot_id f \<noteq> None) (scFrames c)"

lemma tick_frames:
  "snapshot_frames (fold write_event (tick_events cf ob w) c) = snapshot_frames c @ [Data_frame (snapshot_event ob w)]"
  by (simp add: snapshot_frames_def frames_fold tick_events_def snapshot_event_def del: fold_append fold.simps)

lemma snapshots_taken_ids:
  "map (\<lambda>t. syeSequence (fst t)) (snapshots_taken cf obs w) = [hwSequence w + 1..<hwSequence w + 1 + length obs]"
proof (induction obs arbitrary: w)
  case (Cons ob obs)
  then show ?case using upt_conv_Cons [of "hwSequence w + 1" "hwSequence w + 1 + length (ob # obs)"]
    by (simp add: snapshot_event_def)
qed simp

lemma snapshots_later:
  assumes "t \<in> set (snapshots_taken cf obs w)"
  shows "hwSequence w < syeSequence (fst t)"
proof -
  from assms have "syeSequence (fst t) \<in> set (map (\<lambda>t. syeSequence (fst t)) (snapshots_taken cf obs w))" by simp
  then show ?thesis unfolding snapshots_taken_ids by auto
qed

lemma client_frames:
  assumes "calm w" "k \<in> sbId ` set (hwSubs w)"
  shows "snapshot_frames (hwClients (fold (host_tick cf) obs w) k) =
    snapshot_frames (hwClients w k) @ map (\<lambda>t. Data_frame (fst t)) (snapshots_taken cf obs w)"
  using assms
proof (induction obs arbitrary: w)
  case (Cons ob obs)
  then show ?case by (simp add: tick_calm tick_frames)
qed simp

text \<open>A tick leaves every row with another id as it is.\<close>

lemma tick_other_rows:
  "hwCollector w = hwSequence w \<Longrightarrow> hrSequence r \<noteq> hwSequence w + 1 \<Longrightarrow>
   r \<in> set (htSnapshots (hwTables (host_tick cf ob w))) \<longleftrightarrow> r \<in> set (htSnapshots (hwTables w))"
  by (cases "row_taken cf ob w") (auto simp: taken_tables untaken_tables replace_row_def stored_row_def)

lemma ticks_other_rows:
  "hwCollector w = hwSequence w \<Longrightarrow> hrSequence r \<notin> (\<lambda>t. syeSequence (fst t)) ` set (snapshots_taken cf obs w) \<Longrightarrow>
   r \<in> set (htSnapshots (hwTables (fold (host_tick cf) obs w))) \<longleftrightarrow> r \<in> set (htSnapshots (hwTables w))"
proof (induction obs arbitrary: w)
  case (Cons ob obs)
  then show ?case
    using tick_other_rows [of w r cf ob] Cons.IH [of "host_tick cf ob w"]
    by (simp add: snapshot_event_def del: tick_other(7))
qed simp

lemma snapshot_ids_fresh:
  "hwSequence w + 1 \<notin> (\<lambda>t. syeSequence (fst t)) ` set (snapshots_taken cf obs (host_tick cf ob w))"
  by (auto dest!: snapshots_later)

lemma taken_stored:
  assumes "hwCollector w = hwSequence w" "(ev, ok) \<in> set (snapshots_taken cf obs w)"
  shows "if ok then in_store (htSnapshots (hwTables (fold (host_tick cf) obs w))) ev
    else \<forall>r. hrSequence r = syeSequence ev \<longrightarrow>
      (r \<in> set (htSnapshots (hwTables (fold (host_tick cf) obs w))) \<longleftrightarrow> r \<in> set (htSnapshots (hwTables w)))"
  using assms
proof (induction obs arbitrary: w)
  case (Cons ob obs)
  let ?v = "host_tick cf ob w"
  have v: "hwCollector ?v = hwSequence ?v" using Cons.prems(1) by simp
  show ?case
  proof (cases "(ev, ok) = (snapshot_event ob w, row_taken cf ob w)")
    case True
    then have id: "syeSequence ev = hwSequence w + 1" by (simp add: snapshot_event_def)
    have rows: "r \<in> set (htSnapshots (hwTables (fold (host_tick cf) obs ?v))) \<longleftrightarrow> r \<in> set (htSnapshots (hwTables ?v))"
      if "hrSequence r = hwSequence w + 1" for r
      using ticks_other_rows [OF v, of r cf obs] snapshot_ids_fresh [of w cf obs ob] that by simp
    show ?thesis
    proof (cases ok)
      case yes: True
      let ?r = "stored_row ob w"
      have "?r \<in> set (htSnapshots (hwTables ?v))" using True yes by (simp add: taken_tables replace_row_def)
      moreover have "hrSequence ?r = hwSequence w + 1" using Cons.prems(1) by (simp add: stored_row_def)
      ultimately show ?thesis
        using yes True rows [of ?r] unfolding in_store_def if_P [OF yes] fold.simps o_apply
        by (intro bexI [of _ ?r]) (simp_all add: snapshot_event_def stored_row_def [of ob w])
    next
      case False
      then show ?thesis using True id rows by (simp add: untaken_tables)
    qed
  next
    case False
    with Cons.prems(2) have later: "(ev, ok) \<in> set (snapshots_taken cf obs ?v)" by auto
    have "syeSequence ev \<noteq> hwSequence w + 1" using snapshots_later [OF later] by simp
    with Cons.IH [OF v later] show ?thesis using tick_other_rows [OF Cons.prems(1), of _ cf ob]
      by (simp split: if_splits del: tick_other(7))
  qed
qed simp

lemma replayed_from_rows:
  assumes "0 \<le> after"
  shows "syeSequence ` set (backlog_for after w) \<subseteq> hrSequence ` set (htSnapshots (hwTables w))"
proof
  fix n assume "n \<in> syeSequence ` set (backlog_for after w)"
  then obtain r ev where "r \<in> set (listAfter after REPLAY_BATCH (hwTables w))" "parsePersisted r = Some ev" "n = syeSequence ev"
    using assms by (auto simp: backlog_for_def host_subscribe_def Let_def List.map_filter_def)
  then show "n \<in> hrSequence ` set (htSnapshots (hwTables w))"
    using parsePersisted_facts by (auto simp: listAfter_def dest: in_set_takeD)
qed

text \<open>C21: A snapshot is published whether or not it is stored, and one that is not stored cannot be replayed.
  Take any reachable service and any run of ticks on it, each of which the database may take or refuse.
  The snapshots of the run have the consecutive ids after the position of the service, and every
  subscriber receives each of them, once and in order, whatever the database did.  One that the
  database took is in the table at the end, under its id, with its timestamp and its document.  For one
  that it refused the table has the rows of that id it had before, so that, if it had none, no client
  that resumes from a position is ever sent it.\<close>
theorem published_whether_stored:
  assumes "host_reachable cf w" and "w' = fold (host_tick cf) obs w"
  shows "map (\<lambda>t. syeSequence (fst t)) (snapshots_taken cf obs w) = [hwSequence w + 1..<hwSequence w + 1 + length obs] \<and>
    (\<forall>k \<in> sbId ` set (hwSubs w). snapshot_frames (hwClients w' k) =
       snapshot_frames (hwClients w k) @ map (\<lambda>t. Data_frame (fst t)) (snapshots_taken cf obs w)) \<and>
    (\<forall>(ev, ok) \<in> set (snapshots_taken cf obs w).
       if ok then in_store (htSnapshots (hwTables w')) ev
       else (\<forall>r. hrSequence r = syeSequence ev \<longrightarrow>
               (r \<in> set (htSnapshots (hwTables w')) \<longleftrightarrow> r \<in> set (htSnapshots (hwTables w)))) \<and>
            (syeSequence ev \<notin> hrSequence ` set (htSnapshots (hwTables w)) \<longrightarrow>
               (\<forall>after \<ge> 0. syeSequence ev \<notin> syeSequence ` set (backlog_for after w'))))"
proof -
  have w: "calm w" "hwCollector w = hwSequence w" using reachable_calm [OF assms(1)] by blast+
  have refused: "syeSequence ev \<notin> syeSequence ` set (backlog_for after w')"
    if "\<forall>r. hrSequence r = syeSequence ev \<longrightarrow> (r \<in> set (htSnapshots (hwTables w')) \<longleftrightarrow> r \<in> set (htSnapshots (hwTables w)))"
      "syeSequence ev \<notin> hrSequence ` set (htSnapshots (hwTables w))" "0 \<le> after" for ev :: system_event and after
  proof
    assume "syeSequence ev \<in> syeSequence ` set (backlog_for after w')"
    with replayed_from_rows [OF that(3)] obtain r where "r \<in> set (htSnapshots (hwTables w'))" "syeSequence ev = hrSequence r"
      by blast
    with that(1,2) show False by auto
  qed
  show ?thesis
    using snapshots_taken_ids client_frames [OF w(1)] taken_stored [OF w(2)] refused
    by (fastforce simp: assms(2) split: if_splits)
qed

text \<open>A client of a fresh service receives the snapshots 1 and 2, of which the database refused the first.\<close>

theorem published_whether_stored_witness:
  "\<exists>w w' sid ev. connect (- 1) (new_service no_tables) = Some (w, sid) \<and>
     w' = fold (host_tick idle_config) [idle_observation \<lparr>hoSaved := False\<rparr>, idle_observation] w \<and>
     Data_frame ev \<in> set (scFrames (hwClients w' sid)) \<and> syeSequence ev = 1 \<and>
     2 \<in> hrSequence ` set (htSnapshots (hwTables w')) \<and> 1 \<notin> syeSequence ` set (backlog_for 0 w')"
proof -
  let ?start = "new_service no_tables" and ?lost = "idle_observation \<lparr>hoSaved := False\<rparr>"
  obtain w sid where w: "connect (- 1) ?start = Some (w, sid)"
    using connect_refused [of "- 1" ?start] by (auto simp: fresh_service subscriberCount_def MAX_STREAM_CLIENTS_def)
  note c = connect_facts [OF w calm_fresh]
  have reach: "host_reachable idle_config w"
    using host_reachable.Next [OF host_reachable.Fresh host_step.Connect] w by (simp add: no_tables_def)
  let ?w' = "fold (host_tick idle_config) [?lost, idle_observation] w"
  have on: "sid \<in> sbId ` set (hwSubs w)" using arg_cong [OF c(3), of set] by auto
  have run: "snapshots_taken idle_config [?lost, idle_observation] w =
      [(snapshot_event ?lost w, False), (snapshot_event idle_observation (host_tick idle_config ?lost w), True)]"
    using idle_storable by (simp add: row_taken_def storable_def)
  have fresh: "hwSequence w = 0" "htSnapshots (hwTables w) = []" by (simp_all add: c fresh_service no_tables_def)
  have ids: "syeSequence (snapshot_event ?lost w) = 1"
    "syeSequence (snapshot_event idle_observation (host_tick idle_config ?lost w)) = 2"
    by (simp_all add: snapshot_event_def fresh)
  note p = published_whether_stored [OF reach refl, of "[?lost, idle_observation]", unfolded run]
  have "Data_frame (snapshot_event ?lost w) \<in> set (snapshot_frames (hwClients ?w' sid))"
    using bspec [OF conjunct1 [OF conjunct2 [OF p]] on] by simp
  moreover have "in_store (htSnapshots (hwTables ?w')) (snapshot_event idle_observation (host_tick idle_config ?lost w))"
    "1 \<notin> syeSequence ` set (backlog_for 0 ?w')"
    using conjunct2 [OF conjunct2 [OF p]] fresh ids by simp_all
  ultimately show ?thesis
    using w ids by (intro exI [of _ w] exI [of _ ?w'] exI [of _ sid] exI [of _ "snapshot_event ?lost w"])
      (force simp: snapshot_frames_def in_store_def simp del: fold.simps)
qed

end
