(* ===== verification/Analytics.thy ===== *)
theory Analytics
  imports Observability "HOL-Library.Char_ord" "HOL-Library.List_Lexorder"
begin

text \<open>
  \<^verbatim>\<open>web/backend/src/analytics/service.ts\<close>: the summaries of stored sessions.  What the repositories
  answer is an argument: the terminal rows, the stored snapshots of their sessions and the aggregates
  SQL computed.  Times of events are milliseconds and numbers are rational, so a mean is exact where the
  code rounds to a double; strings compare by their code units.
\<close>

definition code_units :: "string \<Rightarrow> nat list" where
  "code_units s = map of_char s"

section \<open>Metrics of a stored payload\<close>

text \<open>A property of an object; nothing else has the properties of a metric.\<close>

fun member_of :: "json option \<Rightarrow> string \<Rightarrow> json option" where
  "member_of (Some (JObj fs)) k = field fs k"
| "member_of _ k = None"

definition UNAVAILABLE_WORD :: json where
  "UNAVAILABLE_WORD = JStr ''UNAVAILABLE''"

definition analytics_value :: "json option \<Rightarrow> rat option" where
  "analytics_value m =
     (case (member_of m ''value'', member_of m ''provenance'') of
        (Some v, Some p) \<Rightarrow> if p \<noteq> UNAVAILABLE_WORD then as_num (Some v) else None
      | _ \<Rightarrow> None)"

section \<open>Peaks of one execution\<close>

record peak_point =
  ppValue :: rat
  ppTimeMs :: int
  ppTimestamp :: int

record runtime_peaks =
  rpSampleCount :: nat
  rpFirstSampleAt :: "int option"
  rpLastSampleAt :: "int option"
  rpMinElapsed :: "rat option"
  rpMaxElapsed :: "rat option"
  rpRss :: "peak_point option"
  rpMedianRss :: "rat option"
  rpCpuPercent :: "peak_point option"
  rpCpuTime :: "rat option"
  rpMinorFaults :: "peak_point option"
  rpMajorFaults :: "peak_point option"
  rpMinorFaultsPerSec :: "peak_point option"
  rpMajorFaultsPerSec :: "peak_point option"
  rpTotalRchar :: "rat option"
  rpTotalWchar :: "rat option"
  rpTotalRead :: "rat option"
  rpTotalWrite :: "rat option"
  rpRcharPerSec :: "peak_point option"
  rpWcharPerSec :: "peak_point option"

text \<open>The result under construction and the local variables of the loop.\<close>

record peaks_loop =
  plOut :: runtime_peaks
  plRss :: "rat list"
  plUserSystem :: "(rat \<times> rat) option"
  plCpuTime :: "rat option"

definition no_peaks :: runtime_peaks where
  "no_peaks =
     \<lparr>rpSampleCount = 0, rpFirstSampleAt = None, rpLastSampleAt = None, rpMinElapsed = None,
      rpMaxElapsed = None, rpRss = None, rpMedianRss = None, rpCpuPercent = None, rpCpuTime = None,
      rpMinorFaults = None, rpMajorFaults = None, rpMinorFaultsPerSec = None,
      rpMajorFaultsPerSec = None, rpTotalRchar = None, rpTotalWchar = None, rpTotalRead = None,
      rpTotalWrite = None, rpRcharPerSec = None, rpWcharPerSec = None\<rparr>"

definition track_peak :: "rat option \<Rightarrow> int \<Rightarrow> int \<Rightarrow> peak_point option \<Rightarrow> peak_point option" where
  "track_peak value atMs ts current =
     (case value of
        None \<Rightarrow> current
      | Some v \<Rightarrow>
          (case current of
             None \<Rightarrow> Some \<lparr>ppValue = v, ppTimeMs = atMs, ppTimestamp = ts\<rparr>
           | Some c \<Rightarrow> if v > ppValue c then Some \<lparr>ppValue = v, ppTimeMs = atMs, ppTimestamp = ts\<rparr> else Some c))"

definition latestValue :: "rat option \<Rightarrow> rat option \<Rightarrow> rat option" where
  "latestValue current value = (case value of None \<Rightarrow> current | Some v \<Rightarrow> Some v)"

definition fold_bound :: "(rat \<Rightarrow> rat \<Rightarrow> rat) \<Rightarrow> rat option \<Rightarrow> rat option \<Rightarrow> rat option" where
  "fold_bound f value current =
     (case value of
        None \<Rightarrow> current
      | Some v \<Rightarrow> Some (case current of None \<Rightarrow> v | Some c \<Rightarrow> f c v))"

text \<open>One snapshot in the loop; \<open>metric\<close> is the reader of a metric.\<close>

definition peaks_step ::
    "(json option \<Rightarrow> rat option) \<Rightarrow> int \<Rightarrow> canonical_event \<Rightarrow> peaks_loop \<Rightarrow> peaks_loop" where
  "peaks_step metric base ev l =
     (if evType ev \<noteq> Process_snapshot then l
      else
        (let out = plOut l; ts = evTimestamp ev; atMs = max 0 (ts - base);
             m = (\<lambda>k. metric (field (evPayload ev) k));
             peak = (\<lambda>k. track_peak (m k) atMs ts) in
         \<lparr>plOut = out
            \<lparr>rpSampleCount := rpSampleCount out + 1,
             rpFirstSampleAt := (case rpFirstSampleAt out of None \<Rightarrow> Some ts | Some t \<Rightarrow> Some t),
             rpLastSampleAt := Some ts,
             rpRss := peak ''rssBytes'' (rpRss out),
             rpCpuPercent := peak ''cpuPercent'' (rpCpuPercent out),
             rpMinElapsed := fold_bound min (m ''elapsedMs'') (rpMinElapsed out),
             rpMaxElapsed := fold_bound max (m ''elapsedMs'') (rpMaxElapsed out),
             rpMinorFaults := peak ''minorFaults'' (rpMinorFaults out),
             rpMajorFaults := peak ''majorFaults'' (rpMajorFaults out),
             rpMinorFaultsPerSec := peak ''minorFaultsPerSec'' (rpMinorFaultsPerSec out),
             rpMajorFaultsPerSec := peak ''majorFaultsPerSec'' (rpMajorFaultsPerSec out),
             rpRcharPerSec := peak ''rcharBytesPerSec'' (rpRcharPerSec out),
             rpWcharPerSec := peak ''wcharBytesPerSec'' (rpWcharPerSec out),
             rpTotalRchar := latestValue (rpTotalRchar out) (m ''rcharBytes''),
             rpTotalWchar := latestValue (rpTotalWchar out) (m ''wcharBytes''),
             rpTotalRead := latestValue (rpTotalRead out) (m ''readBytes''),
             rpTotalWrite := latestValue (rpTotalWrite out) (m ''writeBytes'')\<rparr>,
          plRss = plRss l @ (case m ''rssBytes'' of None \<Rightarrow> [] | Some v \<Rightarrow> [v]),
          plUserSystem = (case (m ''cpuUserMs'', m ''cpuSystemMs'') of
                            (Some u, Some s) \<Rightarrow> Some (u, s) | _ \<Rightarrow> plUserSystem l),
          plCpuTime = latestValue (plCpuTime l) (m ''cpuTimeMs'')\<rparr>))"

text \<open>The median of at least two values: the upper one of an even number.\<close>

definition upper_median :: "rat list \<Rightarrow> rat option" where
  "upper_median xs = (if 2 \<le> length xs then Some (sort xs ! (length xs div 2)) else None)"

definition peaks_result :: "peaks_loop \<Rightarrow> runtime_peaks" where
  "peaks_result l =
     plOut l
       \<lparr>rpMedianRss := upper_median (plRss l),
        rpCpuTime := (case plCpuTime l of
                        Some t \<Rightarrow> Some t | None \<Rightarrow> map_option (\<lambda>(u, s). u + s) (plUserSystem l))\<rparr>"

definition computeRuntimePeaks :: "canonical_event list \<Rightarrow> runtime_peaks" where
  "computeRuntimePeaks events =
     (let base = (case events of [] \<Rightarrow> 0 | e # _ \<Rightarrow> evTimestamp e) in
      peaks_result (fold (peaks_step analytics_value base) events
        \<lparr>plOut = no_peaks, plRss = [], plUserSystem = None, plCpuTime = None\<rparr>))"

section \<open>Percentiles\<close>

text \<open>Nearest rank; \<open>p\<close> is in percent.\<close>

definition percentile :: "rat list \<Rightarrow> nat \<Rightarrow> rat option" where
  "percentile xs p =
     (if xs = [] then None
      else Some (xs ! nat (min (int (length xs) - 1)
                                   (max 0 (\<lceil>rat_of_nat (p * length xs) / 100\<rceil> - 1)))))"

section \<open>The overview\<close>

record analytics_row =
  arId :: string
  arCommand :: string
  arStatus :: session_status
  arExitCode :: "rat option"
  arSignal :: "rat option"
  arSuccess :: "bool option"
  arDuration :: "rat option"
  arCreatedAt :: string

definition terminal_rows :: "analytics_row list \<Rightarrow> analytics_row list" where
  "terminal_rows rows = filter (\<lambda>r. isTerminalStatus (arStatus r)) rows"

text \<open>A count in an object or a \<open>Map\<close>, in the order of first use.\<close>

definition count_in :: "'k \<Rightarrow> ('k \<times> nat) list \<Rightarrow> ('k \<times> nat) list" where
  "count_in k m = AList.update k ((case map_of m k of None \<Rightarrow> 0 | Some n \<Rightarrow> n) + 1) m"

definition counts_of :: "('a \<Rightarrow> 'k option) \<Rightarrow> 'a list \<Rightarrow> ('k \<times> nat) list" where
  "counts_of key xs = fold (\<lambda>x m. case key x of None \<Rightarrow> m | Some k \<Rightarrow> count_in k m) xs []"

definition positive_signal :: "analytics_row \<Rightarrow> rat option" where
  "positive_signal r = (case arSignal r of Some s \<Rightarrow> if 0 < s then Some s else None | None \<Rightarrow> None)"

definition durations_of :: "analytics_row list \<Rightarrow> rat list" where
  "durations_of rows = List.map_filter (\<lambda>r. case arDuration r of Some d \<Rightarrow> if 0 \<le> d then Some d else None | None \<Rightarrow> None) rows"

text \<open>\<open>Math.round (mean * 10) / 10\<close>.\<close>

definition mean_tenths :: "rat list \<Rightarrow> rat option" where
  "mean_tenths xs =
     (if xs = [] then None else Some (of_int \<lfloor>sum_list xs / of_nat (length xs) * 10 + 1 / 2\<rfloor> / 10))"

record analytics_overview =
  aoTotal :: nat
  aoSuccessful :: nat
  aoFailed :: nat
  aoSignalled :: nat
  aoRunning :: nat
  aoAverage :: "rat option"
  aoP50 :: "rat option"
  aoP95 :: "rat option"
  aoP99 :: "rat option"
  aoByExitCode :: "(rat \<times> nat) list"
  aoBySignal :: "(rat \<times> nat) list"
  aoByCommand :: "(string \<times> nat) list"
  aoRedirections :: "(string \<times> nat) list"
  aoByDay :: "(string \<times> nat \<times> nat) list"

definition day_step :: "analytics_row \<Rightarrow> (string \<times> nat \<times> nat) list \<Rightarrow> (string \<times> nat \<times> nat) list" where
  "day_step r m =
     (let day = take 10 (arCreatedAt r); (c, s) = (case map_of m day of None \<Rightarrow> (0, 0) | Some d \<Rightarrow> d) in
      AList.update day (c + 1, if arSuccess r = Some True then s + 1 else s) m)"

text \<open>Days are digits and hyphens: \<open>localeCompare\<close> orders them as their code units do.\<close>

definition computeAnalytics ::
    "analytics_row list \<Rightarrow> (string \<times> string) list \<Rightarrow> analytics_overview" where
  "computeAnalytics answered redirections =
     (let rows = terminal_rows answered; ds = durations_of rows in
      \<lparr>aoTotal = length rows,
       aoSuccessful = length (filter (\<lambda>r. arSuccess r = Some True) rows),
       aoFailed = length (filter (\<lambda>r. arSuccess r = Some False) rows),
       aoSignalled = length (filter (\<lambda>r. positive_signal r \<noteq> None) rows),
       aoRunning = 0,
       aoAverage = mean_tenths ds,
       aoP50 = percentile (sort ds) 50, aoP95 = percentile (sort ds) 95, aoP99 = percentile (sort ds) 99,
       aoByExitCode = counts_of arExitCode rows,
       aoBySignal = counts_of positive_signal rows,
       aoByCommand = sort_key (\<lambda>(c, n). - int n) (counts_of (\<lambda>r. Some (arCommand r)) rows),
       aoRedirections = counts_of (\<lambda>(slot, target). if target \<noteq> [] then Some slot else None) redirections,
       aoByDay = sort_key (\<lambda>(d, c, s). code_units d) (fold day_step rows [])\<rparr>)"

section \<open>Command profiles\<close>

record command_profile =
  cfCommand :: string
  cfRuns :: nat
  cfSuccessful :: nat
  cfFailed :: nat
  cfSignalled :: nat
  cfSuccessRate :: "rat option"
  cfAverage :: "rat option"
  cfMedian :: "rat option"
  cfP95 :: "rat option"
  cfMin :: "rat option"
  cfMax :: "rat option"
  cfRssSamples :: nat
  cfMedianRss :: "rat option"
  cfPeakRss :: "rat option"
  cfLastRunAt :: "string option"

text \<open>Rows of each command, in the order of first use.\<close>

definition group_rows :: "analytics_row list \<Rightarrow> (string \<times> analytics_row list) list" where
  "group_rows rows =
     fold (\<lambda>r m. AList.update (arCommand r)
             ((case map_of m (arCommand r) of None \<Rightarrow> [] | Some rs \<Rightarrow> rs) @ [r]) m) rows []"

text \<open>Payloads that are JSON, by session; \<open>stored\<close> are the snapshot rows of a session.\<close>

definition collectSnapshots :: "(string \<Rightarrow> json option list) \<Rightarrow> string \<Rightarrow> json list" where
  "collectSnapshots stored sid = List.map_filter (\<lambda>x. x) (stored sid)"

definition later_run :: "analytics_row \<Rightarrow> string option \<Rightarrow> string option" where
  "later_run r latest =
     (case latest of
        None \<Rightarrow> Some (arCreatedAt r)
      | Some t \<Rightarrow> if code_units (arCreatedAt r) > code_units t then Some (arCreatedAt r) else Some t)"

definition command_profile_of ::
    "(string \<Rightarrow> json option list) \<Rightarrow> string \<Rightarrow> analytics_row list \<Rightarrow> command_profile" where
  "command_profile_of stored command runs =
     (let ds = sort (durations_of runs);
          successful = length (filter (\<lambda>r. arSuccess r = Some True) runs);
          rss = List.map_filter (\<lambda>p. analytics_value (member_of (Some p) ''rssBytes''))
                  (concat (map (collectSnapshots stored) (map arId runs))) in
      \<lparr>cfCommand = command, cfRuns = length runs, cfSuccessful = successful,
       cfFailed = length (filter (\<lambda>r. arSuccess r = Some False) runs),
       cfSignalled = length (filter (\<lambda>r. positive_signal r \<noteq> None) runs),
       cfSuccessRate = (if 0 < length runs then Some (of_nat successful / of_nat (length runs) * 100) else None),
       cfAverage = mean_tenths ds,
       cfMedian = percentile ds 50, cfP95 = percentile ds 95,
       cfMin = (if ds = [] then None else Some (hd ds)),
       cfMax = (if ds = [] then None else Some (last ds)),
       cfRssSamples = length rss,
       cfMedianRss = upper_median rss,
       cfPeakRss = (if rss = [] then None else Some (last (sort rss))),
       cfLastRunAt = fold later_run runs None\<rparr>)"

definition computeCommandProfiles ::
    "analytics_row list \<Rightarrow> (string \<Rightarrow> json option list) \<Rightarrow> command_profile list" where
  "computeCommandProfiles answered stored =
     sort_key (\<lambda>p. - int (cfRuns p))
       (map (\<lambda>(command, runs). command_profile_of stored command runs) (group_rows answered))"

section \<open>Comparison of two executions\<close>

record compared_session =
  csId :: string
  csCommand :: string
  csArgs :: "string list"
  csStatus :: session_status
  csExitCode :: "rat option"
  csSignal :: "rat option"
  csDuration :: "rat option"

record comparison_side =
  sdSession :: compared_session
  sdEventCount :: nat
  sdSnapshotCount :: nat
  sdPeakRss :: "rat option"
  sdMedianRss :: "rat option"
  sdPeakCpuPercent :: "rat option"
  sdCpuTime :: "rat option"
  sdPeakMinorFaults :: "rat option"
  sdPeakMajorFaults :: "rat option"
  sdTotalRchar :: "rat option"
  sdTotalWchar :: "rat option"
  sdTotalRead :: "rat option"
  sdTotalWrite :: "rat option"

definition comparisonSide :: "compared_session \<Rightarrow> runtime_peaks \<Rightarrow> nat \<Rightarrow> comparison_side" where
  "comparisonSide session peaks eventCount =
     \<lparr>sdSession = session, sdEventCount = eventCount, sdSnapshotCount = rpSampleCount peaks,
      sdPeakRss = map_option ppValue (rpRss peaks), sdMedianRss = rpMedianRss peaks,
      sdPeakCpuPercent = map_option ppValue (rpCpuPercent peaks), sdCpuTime = rpCpuTime peaks,
      sdPeakMinorFaults = map_option ppValue (rpMinorFaults peaks),
      sdPeakMajorFaults = map_option ppValue (rpMajorFaults peaks),
      sdTotalRchar = rpTotalRchar peaks, sdTotalWchar = rpTotalWchar peaks,
      sdTotalRead = rpTotalRead peaks, sdTotalWrite = rpTotalWrite peaks\<rparr>"

fun delta :: "rat option \<Rightarrow> rat option \<Rightarrow> rat option" where
  "delta (Some a) (Some b) = Some (b - a)"
| "delta _ _ = None"

record session_deltas =
  dtDuration :: "rat option"
  dtEvents :: int
  dtSnapshots :: int
  dtPeakRss :: "rat option"
  dtCpuTime :: "rat option"
  dtMinorFaults :: "rat option"
  dtMajorFaults :: "rat option"
  dtRchar :: "rat option"
  dtWchar :: "rat option"
  dtRead :: "rat option"
  dtWrite :: "rat option"

record session_comparison =
  cpLeft :: comparison_side
  cpRight :: comparison_side
  cpSameCommand :: bool
  cpCommand :: "string option"
  cpSameExit :: bool
  cpSameSignal :: bool
  cpSameStatus :: bool
  cpDeltas :: session_deltas

definition side_deltas :: "comparison_side \<Rightarrow> comparison_side \<Rightarrow> session_deltas" where
  "side_deltas left right =
     \<lparr>dtDuration = delta (csDuration (sdSession left)) (csDuration (sdSession right)),
      dtEvents = int (sdEventCount right) - int (sdEventCount left),
      dtSnapshots = int (sdSnapshotCount right) - int (sdSnapshotCount left),
      dtPeakRss = delta (sdPeakRss left) (sdPeakRss right),
      dtCpuTime = delta (sdCpuTime left) (sdCpuTime right),
      dtMinorFaults = delta (sdPeakMinorFaults left) (sdPeakMinorFaults right),
      dtMajorFaults = delta (sdPeakMajorFaults left) (sdPeakMajorFaults right),
      dtRchar = delta (sdTotalRchar left) (sdTotalRchar right),
      dtWchar = delta (sdTotalWchar left) (sdTotalWchar right),
      dtRead = delta (sdTotalRead left) (sdTotalRead right),
      dtWrite = delta (sdTotalWrite left) (sdTotalWrite right)\<rparr>"

definition compareSessions ::
    "compared_session \<Rightarrow> compared_session \<Rightarrow> canonical_event list \<Rightarrow> canonical_event list
      \<Rightarrow> session_comparison" where
  "compareSessions a b aEvents bEvents =
     (let left = comparisonSide a (computeRuntimePeaks aEvents) (length aEvents);
          right = comparisonSide b (computeRuntimePeaks bEvents) (length bEvents) in
      \<lparr>cpLeft = left, cpRight = right,
       cpSameCommand = (csCommand a = csCommand b),
       cpCommand = (if csCommand a = csCommand b then Some (csCommand a) else None),
       cpSameExit = (csExitCode a \<noteq> None \<and> csExitCode a = csExitCode b),
       cpSameSignal = (csSignal a \<noteq> None \<and> csSignal a = csSignal b),
       cpSameStatus = (csStatus a = csStatus b),
       cpDeltas = side_deltas left right\<rparr>)"

section \<open>Percentiles are nearest ranks\<close>

lemma sorted_prefix_le:
  fixes xs :: "'a::linorder list"
  assumes "sorted xs" "i < length xs"
  shows "Suc i \<le> length (filter (\<lambda>x. x \<le> xs ! i) xs)"
proof -
  have "\<forall>x \<in> set (take (Suc i) xs). x \<le> xs ! i"
    using assms(2) sorted_nth_mono [OF assms(1), of _ i] by (auto simp: in_set_conv_nth less_Suc_eq_le)
  hence "filter (\<lambda>x. x \<le> xs ! i) (take (Suc i) xs) = take (Suc i) xs"
    by (simp add: filter_id_conv)
  moreover have "filter (\<lambda>x. x \<le> xs ! i) xs =
      filter (\<lambda>x. x \<le> xs ! i) (take (Suc i) xs) @ filter (\<lambda>x. x \<le> xs ! i) (drop (Suc i) xs)"
    by (metis append_take_drop_id filter_append)
  ultimately show ?thesis using assms(2) by simp
qed

lemma sorted_suffix_gt:
  fixes xs :: "'a::linorder list"
  assumes "sorted xs" "i < length xs" "w < xs ! i"
  shows "length (filter (\<lambda>x. x \<le> w) xs) \<le> i"
proof -
  have "\<forall>x \<in> set (drop i xs). \<not> x \<le> w"
  proof
    fix x assume "x \<in> set (drop i xs)"
    then obtain j where "j < length xs - i" "x = xs ! (i + j)" by (auto simp: in_set_conv_nth)
    hence "xs ! i \<le> x" using assms(1,2) by (auto intro: sorted_nth_mono)
    thus "\<not> x \<le> w" using assms(3) by simp
  qed
  hence "filter (\<lambda>x. x \<le> w) (drop i xs) = []" by (simp add: filter_empty_conv)
  hence "filter (\<lambda>x. x \<le> w) xs = filter (\<lambda>x. x \<le> w) (take i xs)"
    by (metis append_Nil2 append_take_drop_id filter_append)
  thus ?thesis by (metis length_filter_le length_take min.cobounded2 order_trans)
qed

lemma percentile_rank:
  assumes "xs \<noteq> []" "0 < p" "p \<le> 100"
  obtains k where "percentile xs p = Some (xs ! k)" "k < length xs"
    "p * length xs \<le> 100 * Suc k" "100 * k < p * length xs"
proof -
  define n where "n = length xs"
  define c where "c = \<lceil>rat_of_nat (p * n) / 100\<rceil>"
  have n: "0 < n" using assms(1) by (simp add: n_def)
  have "p * n \<le> 100 * n" using assms(3) by simp
  hence "rat_of_nat (p * n) \<le> rat_of_nat (100 * n)" by (rule iffD2 [OF of_nat_le_iff])
  hence "rat_of_nat (p * n) / 100 \<le> of_int (int n)" by simp
  hence cn: "c \<le> int n" unfolding c_def by (rule ceiling_le)
  have "0 < rat_of_nat (p * n) / 100" using assms(2) n by simp
  hence c1: "1 \<le> c" unfolding c_def by linarith
  define k where "k = nat (c - 1)"
  have k: "int k = c - 1" "k < n" using c1 cn n by (simp_all add: k_def)
  have "percentile xs p = Some (xs ! k)"
    using assms(1) c1 cn by (simp add: percentile_def k_def c_def n_def min_absorb2 max_absorb2)
  moreover have "rat_of_nat (p * n) / 100 \<le> of_int c" unfolding c_def by (rule le_of_int_ceiling)
  hence "rat_of_nat (p * n) \<le> of_int (100 * c)" by simp
  hence "int (p * n) \<le> 100 * c" by (metis of_int_le_iff of_int_of_nat_eq)
  hence "int (p * n) \<le> int (100 * Suc k)" using k(1) by simp
  hence "p * n \<le> 100 * Suc k" by (simp only: of_nat_le_iff)
  moreover have "of_int (c - 1) < rat_of_nat (p * n) / 100" unfolding c_def by linarith
  hence "of_int (100 * (c - 1)) < rat_of_nat (p * n)" by simp
  hence "100 * (c - 1) < int (p * n)" by (metis of_int_less_iff of_int_of_nat_eq)
  hence "int (100 * k) < int (p * n)" using k(1) by simp
  hence "100 * k < p * n" by (simp only: of_nat_less_iff)
  ultimately show ?thesis using that [of k] k(2) by (simp add: n_def)
qed

text \<open>The percentile of a sorted series is its nearest rank: an observed value with at least
  \<open>p\<close> percent of the series at or below it, while every smaller observation has fewer.
\<close>
theorem percentile_nearest_rank:
  assumes "sorted xs" "xs \<noteq> []" "0 < p" "p \<le> 100"
  shows "\<exists>v \<in> set xs. percentile xs p = Some v
     \<and> p * length xs \<le> 100 * length (filter (\<lambda>x. x \<le> v) xs)
     \<and> (\<forall>w \<in> set xs. w < v \<longrightarrow> 100 * length (filter (\<lambda>x. x \<le> w) xs) < p * length xs)"
proof -
  obtain k where k: "percentile xs p = Some (xs ! k)" "k < length xs"
      "p * length xs \<le> 100 * Suc k" "100 * k < p * length xs"
    using percentile_rank [OF assms(2-4)] by blast
  have "p * length xs \<le> 100 * length (filter (\<lambda>x. x \<le> xs ! k) xs)"
    by (rule le_trans [OF k(3) mult_le_mono2 [OF sorted_prefix_le [OF assms(1) k(2)]]])
  moreover have "100 * length (filter (\<lambda>x. x \<le> w) xs) < p * length xs" if "w < xs ! k" for w
    by (rule le_less_trans [OF mult_le_mono2 [OF sorted_suffix_gt [OF assms(1) k(2) that]] k(4)])
  ultimately show ?thesis using k(1,2) nth_mem [OF k(2)] by blast
qed

lemma percentile_nearest_rank_witness:
  "\<exists>v \<in> set [10, 20, 30, 40]. percentile [10, 20, 30, 40] 95 = Some v
     \<and> 380 \<le> 100 * length (filter (\<lambda>x. x \<le> v) [10, 20, 30, 40 :: rat])"
  using percentile_nearest_rank [of "[10, 20, 30, 40]" 95] by fastforce

section \<open>Peaks are first maxima\<close>

text \<open>What the snapshots report of one metric: value, time since the first event and timestamp.\<close>

definition observations ::
    "(json option \<Rightarrow> rat option) \<Rightarrow> int \<Rightarrow> string \<Rightarrow> canonical_event list \<Rightarrow> peak_point list" where
  "observations metric base k events =
     List.map_filter (\<lambda>e. if evType e = Process_snapshot
       then map_option (\<lambda>v. \<lparr>ppValue = v, ppTimeMs = max 0 (evTimestamp e - base), ppTimestamp = evTimestamp e\<rparr>)
              (metric (field (evPayload e) k))
       else None) events"

definition first_maximum :: "peak_point list \<Rightarrow> peak_point option \<Rightarrow> bool" where
  "first_maximum obs best \<longleftrightarrow>
     (case best of
        None \<Rightarrow> obs = []
      | Some p \<Rightarrow> (\<exists>i < length obs. obs ! i = p \<and> (\<forall>q \<in> set obs. ppValue q \<le> ppValue p)
                     \<and> (\<forall>q \<in> set (take i obs). ppValue q < ppValue p)))"

definition keep_higher :: "peak_point \<Rightarrow> peak_point option \<Rightarrow> peak_point option" where
  "keep_higher o' current = track_peak (Some (ppValue o')) (ppTimeMs o') (ppTimestamp o') current"

lemma keep_higher_simp:
  "keep_higher q c = (case c of None \<Rightarrow> Some q | Some p \<Rightarrow> if ppValue p < ppValue q then Some q else Some p)"
  by (cases q) (simp add: keep_higher_def track_peak_def split: option.splits)

lemma fold_keep_higher: "first_maximum obs (fold keep_higher obs None)"
proof (induction obs rule: rev_induct)
  case Nil
  show ?case by (simp add: first_maximum_def)
next
  case (snoc q obs)
  show ?case
  proof (cases "fold keep_higher obs None")
    case None
    with snoc have "obs = []" by (simp add: first_maximum_def)
    thus ?thesis using keep_higher_simp [of q None] by (simp add: first_maximum_def)
  next
    case (Some p)
    with snoc obtain i where i: "i < length obs" "obs ! i = p" "\<forall>q \<in> set obs. ppValue q \<le> ppValue p"
        "\<forall>q \<in> set (take i obs). ppValue q < ppValue p"
      by (auto simp: first_maximum_def)
    show ?thesis
    proof (cases "ppValue p < ppValue q")
      case True
      have "\<forall>r \<in> set obs. ppValue r < ppValue q" using i(3) True by fastforce
      moreover have "fold keep_higher (obs @ [q]) None = Some q" using Some keep_higher_simp [of q "Some p"] True by simp
      ultimately show ?thesis by (auto simp: first_maximum_def less_imp_le intro!: exI [of _ "length obs"])
    next
      case False
      hence "fold keep_higher (obs @ [q]) None = Some p" using Some keep_higher_simp [of q "Some p"] by simp
      thus ?thesis using i False by (auto simp: first_maximum_def nth_append intro!: exI [of _ i])
    qed
  qed
qed

definition peak_fields :: "(string \<times> (runtime_peaks \<Rightarrow> peak_point option)) list" where
  "peak_fields =
     [(''rssBytes'', rpRss), (''cpuPercent'', rpCpuPercent), (''minorFaults'', rpMinorFaults),
      (''majorFaults'', rpMajorFaults), (''minorFaultsPerSec'', rpMinorFaultsPerSec),
      (''majorFaultsPerSec'', rpMajorFaultsPerSec), (''rcharBytesPerSec'', rpRcharPerSec),
      (''wcharBytesPerSec'', rpWcharPerSec)]"

lemma peaks_step_field:
  assumes "(k, sel) \<in> set peak_fields"
  shows "sel (plOut (peaks_step m base ev l)) =
     (if evType ev = Process_snapshot
      then track_peak (m (field (evPayload ev) k)) (max 0 (evTimestamp ev - base)) (evTimestamp ev) (sel (plOut l))
      else sel (plOut l))"
  using assms by (auto simp: peak_fields_def peaks_step_def Let_def)

lemma track_peak_none [simp]: "track_peak None a t c = c"
  by (simp add: track_peak_def)

lemma observations_Cons:
  "observations m base k (e # es) =
     (if evType e = Process_snapshot
      then (case m (field (evPayload e) k) of
              None \<Rightarrow> []
            | Some v \<Rightarrow> [\<lparr>ppValue = v, ppTimeMs = max 0 (evTimestamp e - base), ppTimestamp = evTimestamp e\<rparr>])
      else []) @ observations m base k es"
  by (simp add: observations_def List.map_filter_def split: option.splits)

lemma fold_peaks_field:
  assumes "(k, sel) \<in> set peak_fields"
  shows "sel (plOut (fold (peaks_step m base) events l)) =
         fold keep_higher (observations m base k events) (sel (plOut l))"
proof (induction events arbitrary: l)
  case Nil
  show ?case by (simp add: observations_def List.map_filter_def)
next
  case (Cons e es)
  show ?case
    by (simp add: Cons.IH peaks_step_field [OF assms] observations_Cons keep_higher_def split: option.splits)
qed

lemma peaks_result_field:
  "(k, sel) \<in> set peak_fields \<Longrightarrow> sel (peaks_result l) = sel (plOut l)"
  by (auto simp: peak_fields_def peaks_result_def)

lemma no_peaks_field: "(k, sel) \<in> set peak_fields \<Longrightarrow> sel no_peaks = None"
  by (auto simp: peak_fields_def no_peaks_def)

text \<open>Every peak of the summary is the first maximum of what the session's snapshots report of its
  metric, with the time of that snapshot; a peak is absent exactly when no snapshot reports the metric.
\<close>
theorem peaks_are_first_maxima:
  assumes "(k, sel) \<in> set peak_fields"
  shows "first_maximum
           (observations analytics_value (case events of [] \<Rightarrow> 0 | e # _ \<Rightarrow> evTimestamp e) k events)
           (sel (computeRuntimePeaks events))"
  unfolding computeRuntimePeaks_def Let_def peaks_result_field [OF assms] fold_peaks_field [OF assms]
  by (simp add: no_peaks_field [OF assms] fold_keep_higher)

definition seen_snapshot :: "int \<Rightarrow> rat \<Rightarrow> canonical_event" where
  "seen_snapshot t rss =
     \<lparr>evId = [], evSessionId = [], evSequence = 1, evType = Process_snapshot, evSource = Gateway,
      evTimestamp = t, evMonotonicMs = None, evPid = None,
      evPayload = [(''rssBytes'', JObj [(''value'', JNum rss), (''provenance'', JStr ''OBSERVED'')])]\<rparr>"

lemma peaks_are_first_maxima_witness:
  "first_maximum (observations analytics_value 5 ''rssBytes'' [seen_snapshot 5 10, seen_snapshot 7 30, seen_snapshot 9 30])
     (rpRss (computeRuntimePeaks [seen_snapshot 5 10, seen_snapshot 7 30, seen_snapshot 9 30]))"
  using peaks_are_first_maxima [of "''rssBytes''" rpRss
      "[seen_snapshot 5 10, seen_snapshot 7 30, seen_snapshot 9 30]"]
  by (simp add: peak_fields_def seen_snapshot_def)

section \<open>Counts account for every row\<close>

lemma sum_list_update_count:
  "sum_list (map snd (count_in k m)) = Suc (sum_list (map snd m))" if "distinct (map fst m)"
  using that
proof (induction m)
  case Nil
  show ?case by (simp add: count_in_def)
next
  case (Cons x m)
  obtain a n where x: "x = (a, n)" by fastforce
  show ?case
  proof (cases "a = k")
    case True
    thus ?thesis by (simp add: count_in_def x)
  next
    case False
    have "sum_list (map snd (count_in k (x # m))) = n + sum_list (map snd (count_in k m))"
      using False by (simp add: count_in_def x)
    thus ?thesis using Cons by (simp add: x)
  qed
qed

lemma count_in_distinct: "distinct (map fst m) \<Longrightarrow> distinct (map fst (count_in k m))"
  by (simp add: count_in_def distinct_update)

lemma fold_counts:
  fixes key :: "'a \<Rightarrow> 'k option"
  assumes "distinct (map fst m)"
  shows "sum_list (map snd (fold (\<lambda>x m. case key x of None \<Rightarrow> m | Some k \<Rightarrow> count_in k m) xs m)) =
         sum_list (map snd m) + length (filter (\<lambda>x. key x \<noteq> None) xs)"
  using assms
  by (induction xs arbitrary: m) (auto simp: sum_list_update_count count_in_distinct split: option.splits)

lemma counts_of_total: "sum_list (map snd (counts_of key xs)) = length (filter (\<lambda>x. key x \<noteq> None) xs)"
  unfolding counts_of_def by (subst fold_counts) simp_all

lemma sum_list_sort_key: "sum_list (map f (sort_key g xs)) = sum_list (map f xs)" for f :: "'a \<Rightarrow> nat"
  by (metis mset_map mset_sort sum_mset_sum_list)

lemma day_step_sums:
  assumes "distinct (map fst m)"
  shows "sum_list (map (\<lambda>(d, c, s). c) (day_step r m)) = Suc (sum_list (map (\<lambda>(d, c, s). c) m))
    \<and> sum_list (map (\<lambda>(d, c, s). s) (day_step r m)) =
        sum_list (map (\<lambda>(d, c, s). s) m) + (if arSuccess r = Some True then 1 else 0)"
  using assms
proof (induction m)
  case Nil
  show ?case by (simp add: day_step_def)
next
  case (Cons x m)
  obtain d c s where x: "x = (d, c, s)" by (metis prod_cases3)
  show ?case
  proof (cases "d = take 10 (arCreatedAt r)")
    case True
    thus ?thesis by (simp add: day_step_def x)
  next
    case False
    have "day_step r (x # m) = x # day_step r m"
      using False by (simp add: day_step_def x Let_def split_def)
    thus ?thesis using Cons by (simp add: x)
  qed
qed

lemma day_step_distinct: "distinct (map fst m) \<Longrightarrow> distinct (map fst (day_step r m))"
  by (simp add: day_step_def Let_def distinct_update split: prod.splits)

lemma fold_days:
  assumes "distinct (map fst m)"
  shows "sum_list (map (\<lambda>(d, c, s). c) (fold day_step rows m)) = sum_list (map (\<lambda>(d, c, s). c) m) + length rows
    \<and> sum_list (map (\<lambda>(d, c, s). s) (fold day_step rows m)) =
        sum_list (map (\<lambda>(d, c, s). s) m) + length (filter (\<lambda>r. arSuccess r = Some True) rows)"
  using assms
proof (induction rows arbitrary: m)
  case (Cons r rows)
  show ?case using Cons.IH [OF day_step_distinct [OF Cons.prems, of r]] day_step_sums [OF Cons.prems, of r]
    by simp
qed simp

text \<open>
  The overview accounts for the terminal rows: the commands and the days each count every row once,
  the days' successes are the successes, the signals counted are the signalled runs, the exit codes
  counted are the rows that have one, and no row is both a success and a failure.
\<close>
theorem overview_accounts:
  fixes answered :: "analytics_row list"
  shows "let rows = terminal_rows answered; r = computeAnalytics answered redirections in
     aoTotal r = length rows
     \<and> sum_list (map snd (aoByCommand r)) = aoTotal r
     \<and> sum_list (map (\<lambda>(d, c, s). c) (aoByDay r)) = aoTotal r
     \<and> sum_list (map (\<lambda>(d, c, s). s) (aoByDay r)) = aoSuccessful r
     \<and> sum_list (map snd (aoBySignal r)) = aoSignalled r
     \<and> sum_list (map snd (aoByExitCode r)) = length (filter (\<lambda>x. arExitCode x \<noteq> None) rows)
     \<and> aoSuccessful r + aoFailed r \<le> aoTotal r"
proof -
  have disjoint: "length (filter (\<lambda>r. arSuccess r = Some True) rows)
      + length (filter (\<lambda>r. arSuccess r = Some False) rows) \<le> length rows" for rows
    by (induction rows) auto
  show ?thesis
    using disjoint [of "terminal_rows answered"] fold_days [of "[]" "terminal_rows answered"]
    by (simp add: Let_def computeAnalytics_def sum_list_sort_key counts_of_total)
qed

lemma group_step:
  fixes rows :: "analytics_row list" and m
  assumes "distinct (map fst m)"
  defines "m' \<equiv> fold (\<lambda>r m. AList.update (arCommand r)
             ((case map_of m (arCommand r) of None \<Rightarrow> [] | Some rs \<Rightarrow> rs) @ [r]) m) rows m"
  shows "distinct (map fst m') \<and> fst ` set m' = fst ` set m \<union> arCommand ` set rows
    \<and> (\<forall>c. (case map_of m' c of None \<Rightarrow> [] | Some rs \<Rightarrow> rs) =
            (case map_of m c of None \<Rightarrow> [] | Some rs \<Rightarrow> rs) @ filter (\<lambda>r. arCommand r = c) rows)"
  unfolding m'_def using assms(1)
proof (induction rows arbitrary: m)
  case (Cons r rows)
  define m1 where "m1 = AList.update (arCommand r)
             ((case map_of m (arCommand r) of None \<Rightarrow> [] | Some rs \<Rightarrow> rs) @ [r]) m"
  have d: "distinct (map fst m1)" using Cons.prems by (simp add: m1_def distinct_update)
  have k: "fst ` set m1 = insert (arCommand r) (fst ` set m)"
    by (simp add: m1_def dom_map_of_conv_image_fst [symmetric] update_conv')
  have v: "(case map_of m1 c of None \<Rightarrow> [] | Some rs \<Rightarrow> rs) =
      (case map_of m c of None \<Rightarrow> [] | Some rs \<Rightarrow> rs) @ filter (\<lambda>r. arCommand r = c) [r]" for c
    by (simp add: m1_def update_conv')
  show ?case using Cons.IH [OF d] k v unfolding m1_def [symmetric] by (simp add: m1_def [symmetric])
qed simp

lemma group_rows_spec:
  "distinct (map fst (group_rows rows))"
  "fst ` set (group_rows rows) = arCommand ` set rows"
  "(c, rs) \<in> set (group_rows rows) \<Longrightarrow> rs = filter (\<lambda>r. arCommand r = c) rows"
proof -
  note g = group_step [of "[]" rows, folded group_rows_def, simplified]
  show d: "distinct (map fst (group_rows rows))" and "fst ` set (group_rows rows) = arCommand ` set rows"
    using g by simp_all
  assume "(c, rs) \<in> set (group_rows rows)"
  hence "map_of (group_rows rows) c = Some rs" using d by simp
  moreover have "(case map_of (group_rows rows) c of None \<Rightarrow> [] | Some rs \<Rightarrow> rs) =
      filter (\<lambda>r. arCommand r = c) rows" using g by blast
  ultimately show "rs = filter (\<lambda>r. arCommand r = c) rows" by simp
qed

text \<open>The command profiles partition the runs: no command has two profiles, the commands are those of the
  rows, each profile counts exactly the rows of its command with its successes and failures among them,
  and a longer list of runs comes first.
\<close>
theorem profiles_partition_runs:
  fixes answered :: "analytics_row list" and stored :: "string \<Rightarrow> json option list"
  defines "ps \<equiv> computeCommandProfiles answered stored"
  shows "distinct (map cfCommand ps) \<and> cfCommand ` set ps = arCommand ` set answered
    \<and> (\<forall>p \<in> set ps. cfRuns p = length (filter (\<lambda>r. arCommand r = cfCommand p) answered)
          \<and> 0 < cfRuns p \<and> cfSuccessful p + cfFailed p \<le> cfRuns p)
    \<and> sorted_wrt (\<lambda>a b. cfRuns b \<le> cfRuns a) ps"
proof -
  define qs where "qs = map (\<lambda>(command, runs). command_profile_of stored command runs) (group_rows answered)"
  have ps: "ps = sort_key (\<lambda>p. - int (cfRuns p)) qs"
    by (simp add: ps_def computeCommandProfiles_def qs_def)
  have cmd: "map cfCommand qs = map fst (group_rows answered)"
    by (simp add: qs_def command_profile_of_def split_def Let_def)
  have "mset (map cfCommand ps) = mset (map cfCommand qs)" by (simp add: ps)
  hence "distinct (map cfCommand ps)" unfolding mset_eq_imp_distinct_iff [of "map cfCommand ps"] cmd
    using group_rows_spec(1) by (metis mset_eq_imp_distinct_iff)
  moreover have "cfCommand ` set ps = arCommand ` set answered"
    using arg_cong [OF cmd, of set] group_rows_spec(2) [of answered] by (simp add: ps)
  moreover have disjoint: "length (filter (\<lambda>r. arSuccess r = Some True) rows)
      + length (filter (\<lambda>r. arSuccess r = Some False) rows) \<le> length rows" for rows
    by (induction rows) auto
  have "cfRuns p = length (filter (\<lambda>r. arCommand r = cfCommand p) answered)
          \<and> 0 < cfRuns p \<and> cfSuccessful p + cfFailed p \<le> cfRuns p" if "p \<in> set ps" for p
  proof -
    have "p \<in> set qs" using that by (simp add: ps)
    then obtain x where x: "x \<in> set (group_rows answered)" "p = command_profile_of stored (fst x) (snd x)"
      unfolding qs_def by (auto simp: split_def)
    obtain c rs where "x = (c, rs)" by fastforce
    with x have g: "(c, rs) \<in> set (group_rows answered)" and p: "p = command_profile_of stored c rs" by simp_all
    have rs: "rs = filter (\<lambda>r. arCommand r = c) answered" by (rule group_rows_spec(3) [OF g])
    have "c \<in> arCommand ` set answered" using g group_rows_spec(2) [of answered] by force
    hence "rs \<noteq> []" by (auto simp: rs filter_empty_conv)
    thus ?thesis using rs disjoint [of rs] by (simp add: p command_profile_of_def Let_def)
  qed
  moreover have "sorted_wrt (\<lambda>a b. cfRuns b \<le> cfRuns a) ps"
    using sorted_sort_key [of "\<lambda>p. - int (cfRuns p)" qs] by (simp add: ps sorted_map)
  ultimately show ?thesis by blast
qed

definition run_of :: "string \<Rightarrow> bool \<Rightarrow> analytics_row" where
  "run_of c ok =
     \<lparr>arId = c, arCommand = c, arStatus = COMPLETED, arExitCode = Some 0, arSignal = None, arSuccess = Some ok,
      arDuration = Some 5, arCreatedAt = ''2024-01-01T00:00:00Z''\<rparr>"

lemma profiles_partition_runs_witness:
  "sum_list (map cfRuns (computeCommandProfiles [run_of ''ls'' True, run_of ''cat'' False, run_of ''ls'' True] (\<lambda>_. []))) = 3
   \<and> distinct (map cfCommand (computeCommandProfiles [run_of ''ls'' True, run_of ''cat'' False, run_of ''ls'' True] (\<lambda>_. [])))"
proof -
  have "group_rows [run_of ''ls'' True, run_of ''cat'' False, run_of ''ls'' True] =
      [(''ls'', [run_of ''ls'' True, run_of ''ls'' True]), (''cat'', [run_of ''cat'' False])]"
    by (simp add: group_rows_def run_of_def)
  hence "sum_list (map cfRuns (computeCommandProfiles [run_of ''ls'' True, run_of ''cat'' False, run_of ''ls'' True] (\<lambda>_. []))) = 3"
    by (simp add: computeCommandProfiles_def sum_list_sort_key command_profile_of_def Let_def)
  thus ?thesis
    using profiles_partition_runs [of "[run_of ''ls'' True, run_of ''cat'' False, run_of ''ls'' True]" "\<lambda>_. []"] by blast
qed

end
