(* ===== verification/Telemetry_View.thy ===== *)
theory Telemetry_View
  imports Analytics
begin

text \<open>
  \<^verbatim>\<open>web/frontend/src/lib/telemetry.ts\<close>: the view models of recorded telemetry, as the pages of the
  front end show them.  Numbers are rational.  The inspector with its formatted texts, the captions and
  the colours are left out.
\<close>

section \<open>Reading a metric\<close>

definition metricValue :: "json option \<Rightarrow> json option" where
  "metricValue m =
     (case (member_of m ''value'', member_of m ''provenance'') of
        (Some v, Some p) \<Rightarrow> if p = UNAVAILABLE_WORD then None else if v = JNull then None else Some v
      | _ \<Rightarrow> None)"

definition numeric :: "json option \<Rightarrow> rat option" where
  "numeric m = as_num (metricValue m)"

text \<open>A payload is a snapshot when its \<open>pid\<close> is an object, which an array is too.\<close>

definition asSnapshot :: "payload \<Rightarrow> payload option" where
  "asSnapshot p =
     (case field p ''pid'' of
        Some (JObj _) \<Rightarrow> Some p | Some (JArr _) \<Rightarrow> Some p | _ \<Rightarrow> None)"

section \<open>Samples\<close>

record telemetry_sample =
  tsEvent :: canonical_event
  tsSnapshot :: payload
  tsIndex :: nat
  tsAtMs :: int
  tsEpochMs :: int
  tsAtSec :: rat

definition event_base :: "canonical_event list \<Rightarrow> int" where
  "event_base events = (case events of [] \<Rightarrow> 0 | e # _ \<Rightarrow> evTimestamp e)"

definition collect_step :: "int \<Rightarrow> canonical_event \<Rightarrow> telemetry_sample list \<Rightarrow> telemetry_sample list" where
  "collect_step base ev samples =
     (if evType ev \<noteq> Process_snapshot then samples
      else case asSnapshot (evPayload ev) of
             None \<Rightarrow> samples
           | Some snap \<Rightarrow>
               (let atMs = max 0 (evTimestamp ev - base) in
                samples @ [\<lparr>tsEvent = ev, tsSnapshot = snap, tsIndex = length samples, tsAtMs = atMs,
                            tsEpochMs = evTimestamp ev, tsAtSec = of_int atMs / 1000\<rparr>]))"

definition collectSamples :: "canonical_event list \<Rightarrow> telemetry_sample list" where
  "collectSamples events = fold (collect_step (event_base events)) events []"

definition nearer :: "rat \<Rightarrow> telemetry_sample \<Rightarrow> telemetry_sample \<Rightarrow> telemetry_sample" where
  "nearer cursor s best =
     (if \<bar>of_int (tsAtMs s) - cursor\<bar> < \<bar>of_int (tsAtMs best) - cursor\<bar> then s else best)"

definition sampleAt :: "telemetry_sample list \<Rightarrow> rat option \<Rightarrow> telemetry_sample option" where
  "sampleAt samples cursor =
     (case samples of
        [] \<Rightarrow> None
      | s # _ \<Rightarrow> (case cursor of
                    None \<Rightarrow> Some (last samples)
                  | Some c \<Rightarrow> Some (fold (nearer c) samples s)))"

section \<open>Rows of the resource tracks\<close>

record track_row =
  trT :: rat
  trCpuPercent :: "rat option"
  trRssMiB :: "rat option"
  trRcharKiBps :: "rat option"
  trWcharKiBps :: "rat option"
  trReadBlockKiBps :: "rat option"
  trWriteBlockKiBps :: "rat option"
  trMinorFaultsPerSec :: "rat option"
  trMajorFaultsPerSec :: "rat option"

datatype track_key =
    CpuPercent | RssMiB | RcharKiBps | WcharKiBps | ReadBlockKiBps | WriteBlockKiBps
  | MinorFaultsPerSec | MajorFaultsPerSec

fun row_value :: "track_row \<Rightarrow> track_key \<Rightarrow> rat option" where
  "row_value r CpuPercent = trCpuPercent r"
| "row_value r RssMiB = trRssMiB r"
| "row_value r RcharKiBps = trRcharKiBps r"
| "row_value r WcharKiBps = trWcharKiBps r"
| "row_value r ReadBlockKiBps = trReadBlockKiBps r"
| "row_value r WriteBlockKiBps = trWriteBlockKiBps r"
| "row_value r MinorFaultsPerSec = trMinorFaultsPerSec r"
| "row_value r MajorFaultsPerSec = trMajorFaultsPerSec r"

definition perSec :: "json option \<Rightarrow> rat option" where
  "perSec m = map_option (\<lambda>v. v / 1024) (numeric m)"

definition buildRow :: "telemetry_sample \<Rightarrow> track_row" where
  "buildRow s =
     (let m = field (tsSnapshot s) in
      \<lparr>trT = tsAtSec s,
       trCpuPercent = numeric (m ''cpuPercent''),
       trRssMiB = map_option (\<lambda>b. b / (1024 * 1024)) (numeric (m ''rssBytes'')),
       trRcharKiBps = perSec (m ''rcharBytesPerSec''),
       trWcharKiBps = perSec (m ''wcharBytesPerSec''),
       trReadBlockKiBps = perSec (m ''readBytesPerSec''),
       trWriteBlockKiBps = perSec (m ''writeBytesPerSec''),
       trMinorFaultsPerSec = numeric (m ''minorFaultsPerSec''),
       trMajorFaultsPerSec = numeric (m ''majorFaultsPerSec'')\<rparr>)"

record track_spec =
  ksId :: string
  ksUnit :: string
  ksFloor :: rat
  ksSeries :: "track_key list"

definition RESOURCE_TRACKS :: "track_spec list" where
  "RESOURCE_TRACKS =
     [\<lparr>ksId = ''cpu'', ksUnit = ''% of one core'', ksFloor = 100, ksSeries = [CpuPercent]\<rparr>,
      \<lparr>ksId = ''memory'', ksUnit = ''MiB'', ksFloor = 1, ksSeries = [RssMiB]\<rparr>,
      \<lparr>ksId = ''ioChars'', ksUnit = ''KiB/s'', ksFloor = 8, ksSeries = [RcharKiBps, WcharKiBps]\<rparr>,
      \<lparr>ksId = ''ioBlocks'', ksUnit = ''KiB/s'', ksFloor = 8, ksSeries = [ReadBlockKiBps, WriteBlockKiBps]\<rparr>,
      \<lparr>ksId = ''faults'', ksUnit = ''faults/s'', ksFloor = 10, ksSeries = [MinorFaultsPerSec, MajorFaultsPerSec]\<rparr>]"

section \<open>Thinning and tracks\<close>

text \<open>\<open>i * (count / maxPoints)\<close> is rounded down exactly; the code multiplies doubles.\<close>

definition thinIndices :: "nat \<Rightarrow> nat \<Rightarrow> int list \<Rightarrow> nat list" where
  "thinIndices n maxPoints mustKeep =
     (if n \<le> maxPoints then [0..<n]
      else sort (remdups
             ([0, n - 1]
              @ map nat (filter (\<lambda>i. 0 \<le> i \<and> i < int n) mustKeep)
              @ map (\<lambda>i. min (n - 1) (i * n div maxPoints)) [0..<maxPoints])))"

record series_peak =
  spKey :: track_key
  spValue :: rat
  spAtMs :: rat
  spAtSec :: rat
  spUnit :: string

text \<open>The highest value of one series with its time, the first of equal ones.\<close>

definition series_step ::
    "track_key \<Rightarrow> track_row \<Rightarrow> (rat \<times> rat) option \<Rightarrow> (rat \<times> rat) option" where
  "series_step k row current =
     (case row_value row k of
        None \<Rightarrow> current
      | Some v \<Rightarrow>
          (case current of
             None \<Rightarrow> Some (v, trT row)
           | Some (best, t) \<Rightarrow> if v > best then Some (v, trT row) else Some (best, t)))"

definition per_series :: "track_row list \<Rightarrow> track_key \<Rightarrow> (rat \<times> rat) option" where
  "per_series rows k = fold (series_step k) rows None"

definition row_values :: "track_row list \<Rightarrow> track_key list \<Rightarrow> rat list" where
  "row_values rows ks = concat (map (\<lambda>row. List.map_filter (row_value row) ks) rows)"

definition higher_peak :: "series_peak \<Rightarrow> series_peak \<Rightarrow> series_peak" where
  "higher_peak current best = (if spValue current > spValue best then current else best)"

fun reduce_peaks :: "series_peak list \<Rightarrow> series_peak option" where
  "reduce_peaks [] = None"
| "reduce_peaks (p # ps) = Some (fold higher_peak ps p)"

record track_view =
  tvSpec :: track_spec
  tvDomain :: "rat \<times> rat"
  tvObserved :: nat
  tvPeak :: "series_peak option"

definition series_peaks :: "track_row list \<Rightarrow> track_spec \<Rightarrow> series_peak list" where
  "series_peaks rows spec =
     List.map_filter (\<lambda>k. map_option
         (\<lambda>(v, t). \<lparr>spKey = k, spValue = v, spAtMs = t * 1000, spAtSec = t, spUnit = ksUnit spec\<rparr>)
         (per_series rows k)) (ksSeries spec)"

definition trackDomain :: "track_row list \<Rightarrow> track_spec \<Rightarrow> track_view" where
  "trackDomain rows spec =
     (let values = row_values rows (ksSeries spec);
          top = fold max values 0 in
      \<lparr>tvSpec = spec,
       tvDomain = (0, max (ksFloor spec) (if top > 0 then top * (108 / 100) else 0)),
       tvObserved = length values,
       tvPeak = reduce_peaks (series_peaks rows spec)\<rparr>)"

definition buildResourceTrackViews :: "track_row list \<Rightarrow> track_view list" where
  "buildResourceTrackViews rows = map (trackDomain rows) RESOURCE_TRACKS"

definition is_peak_row :: "track_view list \<Rightarrow> track_row \<Rightarrow> bool" where
  "is_peak_row views row \<longleftrightarrow>
     (\<exists>view \<in> set views. \<exists>k \<in> set (ksSeries (tvSpec view)).
        case (row_value row k, tvPeak view) of
          (Some v, Some p) \<Rightarrow> spKey p = k \<and> spAtSec p = trT row \<and> spValue p = v
        | _ \<Rightarrow> False)"

record resource_tracks =
  rtRows :: "track_row list"
  rtTracks :: "track_view list"
  rtSpanSeconds :: rat
  rtRawSampleCount :: nat
  rtDisplayed :: nat
  rtThinned :: bool
  rtFirstSampleAt :: "int option"
  rtLastSampleAt :: "int option"
  rtRatesUnavailable :: bool

definition peak_indices :: "track_row list \<Rightarrow> nat list" where
  "peak_indices rows =
     filter (\<lambda>i. is_peak_row (buildResourceTrackViews rows) (rows ! i)) [0..<length rows]"

definition buildResourceTracks :: "telemetry_sample list \<Rightarrow> nat \<Rightarrow> resource_tracks" where
  "buildResourceTracks samples maxPoints =
     (let allRows = map buildRow samples;
          kept = thinIndices (length allRows) maxPoints (map int (peak_indices allRows));
          thinned = length kept < length allRows;
          rows = if thinned then map (\<lambda>i. allRows ! i) kept else allRows in
      \<lparr>rtRows = rows,
       rtTracks = buildResourceTrackViews rows,
       rtSpanSeconds = (if samples = [] then 0 else max (1 / 2) (tsAtSec (last samples))),
       rtRawSampleCount = length samples,
       rtDisplayed = length rows,
       rtThinned = thinned,
       rtFirstSampleAt = (if samples = [] then None else Some (evTimestamp (tsEvent (hd samples)))),
       rtLastSampleAt = (if samples = [] then None else Some (evTimestamp (tsEvent (last samples)))),
       rtRatesUnavailable = (length samples = 1)\<rparr>)"

section \<open>The visual state of a process\<close>

record visual_peaks =
  vpCpuPercent :: "rat option"
  vpRssBytes :: "rat option"
  vpBytesPerSec :: "rat option"
  vpFaultsPerSec :: "rat option"

definition max_step :: "(payload \<Rightarrow> rat option) \<Rightarrow> telemetry_sample \<Rightarrow> rat option \<Rightarrow> rat option" where
  "max_step pick s best =
     (case pick (tsSnapshot s) of
        None \<Rightarrow> best
      | Some v \<Rightarrow> (case best of None \<Rightarrow> Some v | Some b \<Rightarrow> if v > b then Some v else Some b))"

definition max_of :: "(payload \<Rightarrow> rat option) \<Rightarrow> telemetry_sample list \<Rightarrow> rat option" where
  "max_of pick samples = fold (max_step pick) samples None"

definition io_values :: "payload \<Rightarrow> rat list" where
  "io_values s = List.map_filter (\<lambda>k. numeric (field s k))
     [''rcharBytesPerSec'', ''wcharBytesPerSec'', ''readBytesPerSec'', ''writeBytesPerSec'']"

definition highest_io :: "payload \<Rightarrow> rat option" where
  "highest_io s = (case io_values s of [] \<Rightarrow> None | v # vs \<Rightarrow> Some (fold max vs v))"

definition or_zero :: "rat option \<Rightarrow> rat" where
  "or_zero v = (case v of None \<Rightarrow> 0 | Some x \<Rightarrow> x)"

definition fault_rate :: "payload \<Rightarrow> rat" where
  "fault_rate s = max (or_zero (numeric (field s ''minorFaultsPerSec'')))
                      (or_zero (numeric (field s ''majorFaultsPerSec'')))"

definition no_fault_rate :: "payload \<Rightarrow> bool" where
  "no_fault_rate s \<longleftrightarrow> numeric (field s ''minorFaultsPerSec'') = None
     \<and> numeric (field s ''majorFaultsPerSec'') = None"

definition visualStatePeaks :: "telemetry_sample list \<Rightarrow> visual_peaks" where
  "visualStatePeaks samples =
     \<lparr>vpCpuPercent = max_of (\<lambda>s. numeric (field s ''cpuPercent'')) samples,
      vpRssBytes = max_of (\<lambda>s. numeric (field s ''rssBytes'')) samples,
      vpBytesPerSec = max_of highest_io samples,
      vpFaultsPerSec = max_of (\<lambda>s. if no_fault_rate s then None else Some (fault_rate s)) samples\<rparr>"

definition ratio :: "rat option \<Rightarrow> rat option \<Rightarrow> rat option" where
  "ratio value peak =
     (case (value, peak) of
        (Some v, Some p) \<Rightarrow> if p \<le> 0 then None else Some (min 1 (max 0 (v / p)))
      | _ \<Rightarrow> None)"

text \<open>A metric with its provenance; \<open>rmValue = None\<close> is \<open>undefined\<close>, \<open>JNull\<close> is \<open>null\<close>.\<close>

record raw_metric =
  rmValue :: "json option"
  rmProvenance :: json
  rmReason :: "json option"
  rmSource :: "json option"
  rmFormula :: "json option"
  rmConfidence :: "json option"
  rmUnitNote :: "string option"

definition reason_text :: "json option \<Rightarrow> string \<Rightarrow> json" where
  "reason_text r d = (case r of None \<Rightarrow> JStr d | Some JNull \<Rightarrow> JStr d | Some x \<Rightarrow> x)"

definition absent_metric :: "json option \<Rightarrow> bool" where
  "absent_metric m \<longleftrightarrow> m = None \<or> m = Some JNull"

definition unavailable_metric :: "json option \<Rightarrow> bool" where
  "unavailable_metric m \<longleftrightarrow>
     member_of m ''provenance'' = Some UNAVAILABLE_WORD \<or> member_of m ''value'' = Some JNull"

definition rawMetric :: "json option \<Rightarrow> string option \<Rightarrow> raw_metric" where
  "rawMetric m unitNote =
     (if absent_metric m
      then \<lparr>rmValue = Some JNull, rmProvenance = UNAVAILABLE_WORD,
            rmReason = Some (JStr ''metric absent from this snapshot''),
            rmSource = None, rmFormula = None, rmConfidence = None, rmUnitNote = None\<rparr>
      else
        (let u = unavailable_metric m in
         \<lparr>rmValue = (if u then Some JNull else member_of m ''value''),
          rmProvenance = (if u then UNAVAILABLE_WORD else reason_text (member_of m ''provenance'') ''OBSERVED''),
          rmReason = (if u then Some (reason_text (member_of m ''reason'') ''unavailable for this sample'') else None),
          rmSource = member_of m ''source'', rmFormula = member_of m ''formula'',
          rmConfidence = member_of m ''confidence'', rmUnitNote = unitNote\<rparr>))"

definition CHARS_NOT_BYTES :: string where
  "CHARS_NOT_BYTES = ''counts characters from /proc/<pid>/io, including page cache. Not storage traffic''"

definition STORAGE_BYTES :: string where
  "STORAGE_BYTES = ''counts bytes actually transferred to or from the storage device''"

definition REPORTED :: "string list" where
  "REPORTED = [''cpuPercent'', ''rssBytes'', ''minorFaults'', ''majorFaults'', ''threadCount'', ''cpuTimeMs'',
     ''rcharBytesPerSec'', ''wcharBytesPerSec'', ''readBytesPerSec'', ''writeBytesPerSec'',
     ''minorFaultsPerSec'', ''majorFaultsPerSec'']"

definition unavailable_reason :: "json option \<Rightarrow> json option" where
  "unavailable_reason m =
     (if absent_metric m then Some (JStr ''metric absent from this snapshot'')
      else if unavailable_metric m
           then Some (reason_text (member_of m ''reason'') ''unavailable for this sample'')
      else None)"

record visual_state =
  vsSessionId :: string
  vsSequence :: int
  vsTimestamp :: int
  vsAtMs :: int
  vsPid :: "rat option"
  vsCapsEnginePid :: "rat option"
  vsCommand :: "json option"
  vsState :: "json option"
  vsCpu :: "rat option"
  vsMemory :: "rat option"
  vsIo :: "rat option"
  vsFaults :: "rat option"
  vsRaw :: "(string \<times> raw_metric) list"
  vsUnavailable :: "(string \<times> json) list"

definition not_null :: "json option \<Rightarrow> json option" where
  "not_null v = (if v = Some JNull then None else v)"

definition raw_metrics :: "payload \<Rightarrow> (string \<times> raw_metric) list" where
  "raw_metrics s =
     map (\<lambda>(k, note). (k, rawMetric (field s k) note))
       [(''cpuPercent'', None), (''rssBytes'', None),
        (''rcharBytesPerSec'', Some CHARS_NOT_BYTES), (''wcharBytesPerSec'', Some CHARS_NOT_BYTES),
        (''readBytesPerSec'', Some STORAGE_BYTES), (''writeBytesPerSec'', Some STORAGE_BYTES),
        (''minorFaults'', None), (''majorFaults'', None), (''minorFaultsPerSec'', None),
        (''majorFaultsPerSec'', None), (''threadCount'', None)]"

definition io_total :: "payload \<Rightarrow> rat option" where
  "io_total s = fold (\<lambda>v acc. Some (max (or_zero acc) v)) (io_values s) None"

definition buildVisualState :: "telemetry_sample \<Rightarrow> visual_peaks \<Rightarrow> visual_state" where
  "buildVisualState sample peaks =
     (let s = tsSnapshot sample; ev = tsEvent sample in
      \<lparr>vsSessionId = evSessionId ev, vsSequence = evSequence ev, vsTimestamp = evTimestamp ev,
       vsAtMs = tsAtMs sample,
       vsPid = numeric (field s ''pid''), vsCapsEnginePid = numeric (field s ''capsEnginePid''),
       vsCommand = not_null (member_of (field s ''command'') ''value''),
       vsState = not_null (member_of (field s ''state'') ''value''),
       vsCpu = ratio (numeric (field s ''cpuPercent'')) (vpCpuPercent peaks),
       vsMemory = ratio (numeric (field s ''rssBytes'')) (vpRssBytes peaks),
       vsIo = ratio (io_total s) (vpBytesPerSec peaks),
       vsFaults = ratio (Some (fault_rate s)) (if no_fault_rate s then None else vpFaultsPerSec peaks),
       vsRaw = raw_metrics s,
       vsUnavailable = List.map_filter
         (\<lambda>k. map_option (\<lambda>r. (k, r)) (unavailable_reason (field s k))) REPORTED\<rparr>)"

definition buildVisualStates :: "telemetry_sample list \<Rightarrow> visual_state list" where
  "buildVisualStates samples = map (\<lambda>s. buildVisualState s (visualStatePeaks samples)) samples"

definition latestVisualState :: "telemetry_sample list \<Rightarrow> visual_state option" where
  "latestVisualState samples =
     (if samples = [] then None else Some (buildVisualState (last samples) (visualStatePeaks samples)))"

section \<open>Peaks, annotations and the integrity of a stream\<close>

definition trackPeak :: "json option \<Rightarrow> int \<Rightarrow> int \<Rightarrow> peak_point option \<Rightarrow> peak_point option" where
  "trackPeak m atMs ts current =
     (case numeric m of
        None \<Rightarrow> current
      | Some parsed \<Rightarrow>
          if (case current of None \<Rightarrow> True | Some c \<Rightarrow> parsed > ppValue c)
          then Some \<lparr>ppValue = parsed, ppTimeMs = atMs, ppTimestamp = ts\<rparr> else current)"

definition latest_numeric :: "rat option \<Rightarrow> json option \<Rightarrow> rat option" where
  "latest_numeric current m = (case numeric m of None \<Rightarrow> current | Some parsed \<Rightarrow> Some parsed)"

definition derive_step :: "int \<Rightarrow> canonical_event \<Rightarrow> peaks_loop \<Rightarrow> peaks_loop" where
  "derive_step base ev l =
     (if evType ev \<noteq> Process_snapshot then l
      else
        (let out = plOut l; ts = evTimestamp ev; atMs = max 0 (ts - base); m = field (evPayload ev) in
         l\<lparr>plOut := out
            \<lparr>rpSampleCount := rpSampleCount out + 1,
             rpFirstSampleAt := (if rpFirstSampleAt out = None then Some ts else rpFirstSampleAt out),
             rpLastSampleAt := Some ts,
             rpRss := trackPeak (m ''rssBytes'') atMs ts (rpRss out),
             rpCpuPercent := trackPeak (m ''cpuPercent'') atMs ts (rpCpuPercent out),
             rpMinElapsed := fold_bound min (numeric (m ''elapsedMs'')) (rpMinElapsed out),
             rpMaxElapsed := fold_bound max (numeric (m ''elapsedMs'')) (rpMaxElapsed out),
             rpMinorFaults := trackPeak (m ''minorFaults'') atMs ts (rpMinorFaults out),
             rpMajorFaults := trackPeak (m ''majorFaults'') atMs ts (rpMajorFaults out),
             rpMinorFaultsPerSec := trackPeak (m ''minorFaultsPerSec'') atMs ts (rpMinorFaultsPerSec out),
             rpMajorFaultsPerSec := trackPeak (m ''majorFaultsPerSec'') atMs ts (rpMajorFaultsPerSec out),
             rpRcharPerSec := trackPeak (m ''rcharBytesPerSec'') atMs ts (rpRcharPerSec out),
             rpWcharPerSec := trackPeak (m ''wcharBytesPerSec'') atMs ts (rpWcharPerSec out),
             rpTotalRchar := latest_numeric (rpTotalRchar out) (m ''rcharBytes''),
             rpTotalWchar := latest_numeric (rpTotalWchar out) (m ''wcharBytes''),
             rpTotalRead := latest_numeric (rpTotalRead out) (m ''readBytes''),
             rpTotalWrite := latest_numeric (rpTotalWrite out) (m ''writeBytes'')\<rparr>,
           plRss := plRss l @ (case numeric (m ''rssBytes'') of None \<Rightarrow> [] | Some v \<Rightarrow> [v]),
           plUserSystem := (case (numeric (m ''cpuUserMs''), numeric (m ''cpuSystemMs'')) of
                              (Some u, Some v) \<Rightarrow> Some (u, v) | _ \<Rightarrow> plUserSystem l),
           plCpuTime := latest_numeric (plCpuTime l) (m ''cpuTimeMs'')\<rparr>))"

definition deriveRuntimePeaks :: "canonical_event list \<Rightarrow> runtime_peaks" where
  "deriveRuntimePeaks events =
     peaks_result (fold (derive_step (event_base events)) events
       \<lparr>plOut = no_peaks, plRss = [], plUserSystem = None, plCpuTime = None\<rparr>)"

datatype tone = Tone_start | Tone_end | Tone_signal | Tone_event

record annotation =
  anT :: rat
  anType :: event_type
  anTone :: tone

definition ANNOTATION_TYPES :: "event_type list" where
  "ANNOTATION_TYPES =
     [Process_started, Process_exited, Process_exec_error, Redirection_opened, Redirection_failed,
      Signal_received, Execution_timeout, Execution_failed]"

definition tone_of :: "event_type \<Rightarrow> tone" where
  "tone_of t =
     (if t \<in> {Process_exec_error, Execution_failed, Signal_received} then Tone_signal
      else if t \<in> {Process_started, Redirection_opened} then Tone_start
      else if t = Process_exited then Tone_end else Tone_event)"

definition buildAnnotations :: "canonical_event list \<Rightarrow> annotation list" where
  "buildAnnotations events =
     map (\<lambda>e. \<lparr>anT = max 0 (of_int (evTimestamp e - event_base events) / 1000),
               anType = evType e, anTone = tone_of (evType e)\<rparr>)
       (filter (\<lambda>e. evType e \<in> set ANNOTATION_TYPES) events)"

record sequence_integrity =
  siContiguous :: bool
  siGaps :: int
  siMissing :: int

fun gap_loop :: "canonical_event list \<Rightarrow> int \<times> int \<Rightarrow> int \<times> int" where
  "gap_loop (a # b # es) (gaps, missing) =
     (let diff = evSequence b - evSequence a in
      gap_loop (b # es) (if diff > 1 then (gaps + 1, missing + diff - 1) else (gaps, missing)))"
| "gap_loop _ acc = acc"

definition sequenceIntegrity :: "canonical_event list \<Rightarrow> sequence_integrity" where
  "sequenceIntegrity events =
     (let (gaps, missing) = gap_loop events (0, 0) in
      \<lparr>siContiguous = (missing = 0), siGaps = gaps, siMissing = missing\<rparr>)"

section \<open>The front end agrees with the gateway\<close>

lemma numeric_is_analytics_value: "numeric m = analytics_value m"
  by (simp add: numeric_def metricValue_def analytics_value_def split: option.splits)

lemma derive_step_is_peaks_step: "derive_step base ev l = peaks_step analytics_value base ev l"
proof -
  have t: "trackPeak m atMs ts c = track_peak (analytics_value m) atMs ts c" for m atMs ts c
    by (simp add: trackPeak_def track_peak_def numeric_is_analytics_value split: option.splits)
  have v: "latest_numeric c m = latestValue c (analytics_value m)" for c m
    by (simp add: latest_numeric_def latestValue_def numeric_is_analytics_value)
  have f: "(if x = None then Some ts else x) = (case x of None \<Rightarrow> Some ts | Some t \<Rightarrow> Some t)"
    for x :: "int option" and ts by (cases x) simp_all
  show ?thesis
    by (simp add: derive_step_def peaks_step_def Let_def t v f numeric_is_analytics_value)
qed

text \<open>C35: The summary of an execution the front end derives from the events it holds is the one the gateway
  computes and exports, for every list of events.
\<close>
theorem runtime_peaks_agree: "deriveRuntimePeaks events = computeRuntimePeaks events"
proof -
  have "derive_step base = peaks_step analytics_value base" for base
    by (intro ext) (rule derive_step_is_peaks_step)
  thus ?thesis by (simp add: deriveRuntimePeaks_def computeRuntimePeaks_def event_base_def)
qed

section \<open>The visual state is normalised\<close>

lemma max_of_snoc: "max_of pick (samples @ [s]) = max_step pick s (max_of pick samples)"
  by (simp add: max_of_def)

lemma max_of_bound:
  "\<forall>s \<in> set samples. \<forall>v. pick (tsSnapshot s) = Some v \<longrightarrow> (\<exists>b. max_of pick samples = Some b \<and> v \<le> b)"
proof (induction samples rule: rev_induct)
  case (snoc s samples)
  thus ?case by (fastforce simp: max_of_snoc max_step_def split: option.splits)
qed simp

lemma ratio_bounds: "ratio v p = Some r \<Longrightarrow> 0 \<le> r \<and> r \<le> 1"
  by (auto simp: ratio_def split: option.splits if_splits)

lemma ratio_within:
  assumes "ratio (Some v) (Some p) = Some r" "0 \<le> v" "v \<le> p"
  shows "r * p = v"
  using assms by (auto simp: ratio_def min_def max_def field_simps split: if_splits)

lemma ratio_none: "ratio v p = None \<longleftrightarrow> v = None \<or> p = None \<or> (\<exists>q. p = Some q \<and> q \<le> 0)"
  by (auto simp: ratio_def split: option.splits)

text \<open>C37: A process is drawn with scales in the unit interval that keep the recorded proportions: the CPU and
  memory of a sample are its values divided by the largest value of the session, absent only if the value
  was not recorded or the session never recorded a positive one; I/O and faults are in the unit interval.
\<close>
theorem visual_state_normalised:
  assumes "s \<in> set samples" and "p \<in> {(''cpuPercent'', vsCpu), (''rssBytes'', vsMemory)}"
  defines "v \<equiv> buildVisualState s (visualStatePeaks samples)"
  defines "recorded \<equiv> numeric (field (tsSnapshot s) (fst p))"
  defines "peak \<equiv> max_of (\<lambda>x. numeric (field x (fst p))) samples"
  shows "(case snd p v of
            None \<Rightarrow> recorded = None \<or> (\<exists>q. peak = Some q \<and> q \<le> 0)
          | Some r \<Rightarrow> 0 \<le> r \<and> r \<le> 1 \<and> (\<exists>x q. recorded = Some x \<and> peak = Some q \<and> x \<le> q \<and> (0 \<le> x \<longrightarrow> r * q = x)))
    \<and> (\<forall>r. vsIo v = Some r \<or> vsFaults v = Some r \<longrightarrow> 0 \<le> r \<and> r \<le> 1)"
proof -
  have sel: "snd p v = ratio recorded peak"
    using assms(2) by (auto simp: v_def recorded_def peak_def buildVisualState_def visualStatePeaks_def Let_def)
  have bound: "\<exists>q. peak = Some q \<and> x \<le> q" if "recorded = Some x" for x
    using max_of_bound [of samples "\<lambda>x. numeric (field x (fst p))"] assms(1) that
    by (auto simp: recorded_def peak_def)
  have first: "case snd p v of
            None \<Rightarrow> recorded = None \<or> (\<exists>q. peak = Some q \<and> q \<le> 0)
          | Some r \<Rightarrow> 0 \<le> r \<and> r \<le> 1 \<and> (\<exists>x q. recorded = Some x \<and> peak = Some q \<and> x \<le> q \<and> (0 \<le> x \<longrightarrow> r * q = x))"
  proof (cases "ratio recorded peak")
    case None
    hence "recorded = None \<or> peak = None \<or> (\<exists>q. peak = Some q \<and> q \<le> 0)" by (simp add: ratio_none)
    hence "recorded = None \<or> (\<exists>q. peak = Some q \<and> q \<le> 0)" using bound by (cases recorded) auto
    thus ?thesis by (simp add: sel None)
  next
    case (Some r)
    then obtain x where x: "recorded = Some x" by (cases recorded) (simp_all add: ratio_def)
    with bound obtain q where q: "peak = Some q" "x \<le> q" by blast
    show ?thesis using Some ratio_bounds [OF Some] ratio_within [of x q r] x q by (simp add: sel)
  qed
  have "\<forall>r. vsIo v = Some r \<or> vsFaults v = Some r \<longrightarrow> 0 \<le> r \<and> r \<le> 1"
    by (auto simp: v_def buildVisualState_def Let_def dest: ratio_bounds)
  with first show ?thesis by blast
qed

definition measured :: "int \<Rightarrow> rat \<Rightarrow> telemetry_sample" where
  "measured t cpu =
     \<lparr>tsEvent = seen_snapshot t 1,
      tsSnapshot = [(''cpuPercent'', JObj [(''value'', JNum cpu), (''provenance'', JStr ''DERIVED'')])],
      tsIndex = 0, tsAtMs = t, tsEpochMs = t, tsAtSec = of_int t / 1000\<rparr>"

lemma visual_state_normalised_witness:
  "(case vsCpu (buildVisualState (measured 0 25) (visualStatePeaks [measured 0 25, measured 9 50])) of
      None \<Rightarrow> False | Some r \<Rightarrow> r * 50 = 25)"
proof -
  have p: "max_of (\<lambda>x. numeric (field x ''cpuPercent'')) [measured 0 25, measured 9 50] = Some 50"
    "numeric (field (tsSnapshot (measured 0 25)) ''cpuPercent'') = Some 25"
    by (simp_all add: max_of_def max_step_def measured_def field_def numeric_def metricValue_def UNAVAILABLE_WORD_def)
  show ?thesis
    using visual_state_normalised [of "measured 0 25" "[measured 0 25, measured 9 50]" "(''cpuPercent'', vsCpu)"]
    by (simp add: p split: option.splits)
qed

section \<open>The nearest sample\<close>

definition distance :: "rat \<Rightarrow> telemetry_sample \<Rightarrow> rat" where
  "distance c s = \<bar>of_int (tsAtMs s) - c\<bar>"

lemma fold_nearer:
  "\<exists>i < length (s # xs). (s # xs) ! i = fold (nearer c) xs s
     \<and> (\<forall>x \<in> set (s # xs). distance c ((s # xs) ! i) \<le> distance c x)
     \<and> (\<forall>x \<in> set (take i (s # xs)). distance c ((s # xs) ! i) < distance c x)"
proof (induction xs rule: rev_induct)
  case Nil
  show ?case by simp
next
  case (snoc x xs)
  then obtain i where i: "i < length (s # xs)" "(s # xs) ! i = fold (nearer c) xs s"
      "\<forall>y \<in> set (s # xs). distance c ((s # xs) ! i) \<le> distance c y"
      "\<forall>y \<in> set (take i (s # xs)). distance c ((s # xs) ! i) < distance c y" by blast
  define b where "b = fold (nearer c) xs s"
  have nth: "(s # xs @ [x]) ! j = (s # xs) ! j" if "j < length (s # xs)" for j
    using that by (simp add: nth_append nth_Cons split: nat.splits)
  show ?case
  proof (cases "distance c x < distance c b")
    case True
    hence f: "fold (nearer c) (xs @ [x]) s = x" by (simp add: nearer_def distance_def b_def)
    have "distance c x < distance c y" if "y \<in> set (s # xs)" for y
    proof -
      have "distance c b \<le> distance c y" using i(2,3) that b_def by metis
      with True show ?thesis by linarith
    qed
    thus ?thesis unfolding f by (intro exI [of _ "length (s # xs)"]) (auto simp: less_imp_le)
  next
    case False
    hence f: "fold (nearer c) (xs @ [x]) s = (s # xs) ! i"
      by (simp add: nearer_def distance_def b_def i(2))
    have t: "take i (s # xs @ [x]) = take i (s # xs)" using i(1) by (cases i) simp_all
    have "distance c ((s # xs) ! i) \<le> distance c x" using False i(2) b_def by simp
    thus ?thesis unfolding f using i(1,3,4) nth [OF i(1)] t
      by (intro exI [of _ i]) auto
  qed
qed

text \<open>A cursor selects the nearest sample, and of equally near ones the earliest in the list: no sample is
  nearer than the selected one, and every sample before it is farther.
\<close>
theorem sample_at_is_nearest:
  assumes "samples \<noteq> []"
  shows "\<exists>i < length samples. sampleAt samples (Some c) = Some (samples ! i)
     \<and> (\<forall>x \<in> set samples. distance c (samples ! i) \<le> distance c x)
     \<and> (\<forall>x \<in> set (take i samples). distance c (samples ! i) < distance c x)"
proof (cases samples)
  case (Cons s xs)
  have "sampleAt samples (Some c) = Some (fold (nearer c) xs s)"
    by (simp add: sampleAt_def Cons nearer_def)
  thus ?thesis using fold_nearer [of s xs c] by (metis Cons)
qed (use assms in simp)

definition timed_sample :: "int \<Rightarrow> telemetry_sample" where
  "timed_sample t =
     \<lparr>tsEvent = seen_snapshot t 1, tsSnapshot = [], tsIndex = 0, tsAtMs = t, tsEpochMs = t,
      tsAtSec = of_int t / 1000\<rparr>"

lemma sample_at_is_nearest_witness:
  "(\<exists>i < 2. sampleAt [timed_sample 0, timed_sample 10] (Some 5) = Some ([timed_sample 0, timed_sample 10] ! i))
   \<and> sampleAt [timed_sample 0, timed_sample 10] (Some 5) = Some (timed_sample 0)"
proof -
  have "\<exists>i < 2. sampleAt [timed_sample 0, timed_sample 10] (Some 5) = Some ([timed_sample 0, timed_sample 10] ! i)"
    using sample_at_is_nearest [of "[timed_sample 0, timed_sample 10]" 5] by (auto simp: numeral_2_eq_2)
  thus ?thesis by (simp add: sampleAt_def nearer_def timed_sample_def)
qed

section \<open>Thinning keeps the peaks and the scales\<close>

definition series_spec :: "track_row list \<Rightarrow> track_key \<Rightarrow> (rat \<times> rat) option \<Rightarrow> bool" where
  "series_spec rows k res \<longleftrightarrow>
     (case res of
        None \<Rightarrow> \<forall>r \<in> set rows. row_value r k = None
      | Some (v, t) \<Rightarrow> (\<exists>i < length rows. row_value (rows ! i) k = Some v \<and> trT (rows ! i) = t
          \<and> (\<forall>r \<in> set rows. \<forall>w. row_value r k = Some w \<longrightarrow> w \<le> v)
          \<and> (\<forall>j < i. \<forall>w. row_value (rows ! j) k = Some w \<longrightarrow> w < v)))"

lemma series_spec_SomeI:
  assumes "i < length rows" "row_value (rows ! i) k = Some v" "trT (rows ! i) = t"
    "\<And>r w. r \<in> set rows \<Longrightarrow> row_value r k = Some w \<Longrightarrow> w \<le> v"
    "\<And>j w. j < i \<Longrightarrow> row_value (rows ! j) k = Some w \<Longrightarrow> w < v"
  shows "series_spec rows k (Some (v, t))"
  unfolding series_spec_def using assms by (simp, intro exI [of _ i]) blast

lemma series_spec_SomeE:
  assumes "series_spec rows k (Some (v, t))"
  obtains i where "i < length rows" "row_value (rows ! i) k = Some v" "trT (rows ! i) = t"
    "\<forall>r \<in> set rows. \<forall>w. row_value r k = Some w \<longrightarrow> w \<le> v"
    "\<forall>j < i. \<forall>w. row_value (rows ! j) k = Some w \<longrightarrow> w < v"
proof -
  from assms have "\<exists>i < length rows. row_value (rows ! i) k = Some v \<and> trT (rows ! i) = t
      \<and> (\<forall>r \<in> set rows. \<forall>w. row_value r k = Some w \<longrightarrow> w \<le> v)
      \<and> (\<forall>j < i. \<forall>w. row_value (rows ! j) k = Some w \<longrightarrow> w < v)"
    by (simp add: series_spec_def)
  then obtain i where "i < length rows" "row_value (rows ! i) k = Some v" "trT (rows ! i) = t"
      "\<forall>r \<in> set rows. \<forall>w. row_value r k = Some w \<longrightarrow> w \<le> v"
      "\<forall>j < i. \<forall>w. row_value (rows ! j) k = Some w \<longrightarrow> w < v" by (elim exE conjE)
  thus thesis by (rule that [of i])
qed

lemma per_series_spec: "series_spec rows k (per_series rows k)"
proof (induction rows rule: rev_induct)
  case Nil
  show ?case by (simp add: per_series_def series_spec_def)
next
  case (snoc row rows)
  have step: "per_series (rows @ [row]) k = series_step k row (per_series rows k)"
    by (simp add: per_series_def)
  show ?case
  proof (cases "row_value row k")
    case None
    hence same: "per_series (rows @ [row]) k = per_series rows k" by (simp add: step series_step_def)
    show ?thesis
    proof (cases "per_series rows k")
      case None
      with snoc \<open>row_value row k = None\<close> show ?thesis by (simp add: same series_spec_def)
    next
      case (Some vt)
      obtain v t where vt: "vt = (v, t)" by fastforce
      from snoc obtain i where i: "i < length rows" "row_value (rows ! i) k = Some v" "trT (rows ! i) = t"
          "\<forall>r \<in> set rows. \<forall>w. row_value r k = Some w \<longrightarrow> w \<le> v"
          "\<forall>j < i. \<forall>w. row_value (rows ! j) k = Some w \<longrightarrow> w < v"
        unfolding Some vt by (rule series_spec_SomeE)
      show ?thesis unfolding same Some vt
        by (rule series_spec_SomeI [of i])
          (use i \<open>row_value row k = None\<close> in \<open>auto simp: nth_append\<close>)
    qed
  next
    case new: (Some x)
    show ?thesis
    proof (cases "per_series rows k")
      case None
      hence "series_spec rows k None" using snoc by simp
      hence none: "\<forall>r \<in> set rows. row_value r k = None" by (simp add: series_spec_def)
      have "per_series (rows @ [row]) k = Some (x, trT row)" by (simp add: step series_step_def new None)
      thus ?thesis
        by (simp only:) (rule series_spec_SomeI [of "length rows"], use new none in \<open>auto simp: nth_append\<close>)
    next
      case (Some vt)
      obtain v t where vt: "vt = (v, t)" by fastforce
      from snoc obtain i where i: "i < length rows" "row_value (rows ! i) k = Some v" "trT (rows ! i) = t"
          "\<forall>r \<in> set rows. \<forall>w. row_value r k = Some w \<longrightarrow> w \<le> v"
          "\<forall>j < i. \<forall>w. row_value (rows ! j) k = Some w \<longrightarrow> w < v"
        unfolding Some vt by (rule series_spec_SomeE)
      show ?thesis
      proof (cases "x > v")
        case True
        hence r: "per_series (rows @ [row]) k = Some (x, trT row)"
          by (simp add: step series_step_def new Some vt)
        show ?thesis unfolding r
          by (rule series_spec_SomeI [of "length rows"])
            (use new True i(4) in \<open>fastforce simp: nth_append dest: nth_mem\<close>)+
      next
        case False
        hence r: "per_series (rows @ [row]) k = Some (v, t)"
          by (simp add: step series_step_def new Some vt)
        show ?thesis unfolding r
          by (rule series_spec_SomeI [of i]) (use new False i in \<open>auto simp: nth_append\<close>)
      qed
    qed
  qed
qed

lemma series_spec_unique:
  assumes "series_spec rows k (Some a)" "series_spec rows k b"
  shows "b = Some a"
proof -
  obtain v t where a: "a = (v, t)" by fastforce
  from assms(1) obtain i where i: "i < length rows" "row_value (rows ! i) k = Some v" "trT (rows ! i) = t"
      "\<forall>r \<in> set rows. \<forall>w. row_value r k = Some w \<longrightarrow> w \<le> v"
      "\<forall>j < i. \<forall>w. row_value (rows ! j) k = Some w \<longrightarrow> w < v"
    unfolding a by (rule series_spec_SomeE)
  show ?thesis
  proof (cases b)
    case None
    with assms(2) i(1,2) show ?thesis by (auto simp: series_spec_def)
  next
    case (Some vt)
    obtain v' t' where vt: "vt = (v', t')" by fastforce
    from assms(2) obtain j where j: "j < length rows" "row_value (rows ! j) k = Some v'" "trT (rows ! j) = t'"
        "\<forall>r \<in> set rows. \<forall>w. row_value r k = Some w \<longrightarrow> w \<le> v'"
        "\<forall>l < j. \<forall>w. row_value (rows ! l) k = Some w \<longrightarrow> w < v'"
      unfolding Some vt by (rule series_spec_SomeE)
    have v: "v' = v" using i(1,2,4) j(1,2,4) by (meson nth_mem order_antisym)
    have "i = j" using i(2,5) j(2,5) v by (metis less_irrefl linorder_neqE_nat)
    thus ?thesis using Some vt a v i(3) j(3) by simp
  qed
qed

text \<open>Rows kept by increasing positions.\<close>

definition kept_rows :: "track_row list \<Rightarrow> nat list \<Rightarrow> track_row list" where
  "kept_rows rows ks = map (\<lambda>i. rows ! i) ks"

lemma kept_series_le:
  assumes ks: "set ks \<subseteq> {..<length rows}" and t: "per_series (kept_rows rows ks) k = Some (v, t)"
  shows "\<exists>w u. per_series rows k = Some (w, u) \<and> v \<le> w"
proof -
  from per_series_spec [of "kept_rows rows ks" k, unfolded t] obtain i where
      i: "i < length (kept_rows rows ks)" "row_value (kept_rows rows ks ! i) k = Some v"
    by (rule series_spec_SomeE)
  have "kept_rows rows ks ! i \<in> set rows" using i(1) ks by (auto simp: kept_rows_def dest!: nth_mem)
  then obtain r where r: "r \<in> set rows" "row_value r k = Some v" using i(2) by blast
  show ?thesis
  proof (cases "per_series rows k")
    case None
    with per_series_spec [of rows k] r show ?thesis by (simp add: series_spec_def)
  next
    case (Some wu)
    obtain w u where wu: "wu = (w, u)" by fastforce
    from per_series_spec [of rows k, unfolded Some wu] have "v \<le> w"
      by (rule series_spec_SomeE) (use r in blast)
    thus ?thesis using Some wu by blast
  qed
qed

lemma kept_series_same:
  assumes ks: "sorted ks" "distinct ks" "set ks \<subseteq> {..<length rows}"
    and p: "per_series rows k = Some (v, t)"
    and kept: "\<And>i. i < length rows \<Longrightarrow> row_value (rows ! i) k = Some v \<Longrightarrow> trT (rows ! i) = t \<Longrightarrow> i \<in> set ks"
  shows "per_series (kept_rows rows ks) k = Some (v, t)"
proof -
  from per_series_spec [of rows k, unfolded p] obtain i where
      i: "i < length rows" "row_value (rows ! i) k = Some v" "trT (rows ! i) = t"
        "\<forall>r \<in> set rows. \<forall>w. row_value r k = Some w \<longrightarrow> w \<le> v"
        "\<forall>j < i. \<forall>w. row_value (rows ! j) k = Some w \<longrightarrow> w < v"
    by (rule series_spec_SomeE)
  from kept [OF i(1-3)] obtain m where m: "m < length ks" "ks ! m = i" by (auto simp: in_set_conv_nth)
  have "series_spec (kept_rows rows ks) k (Some (v, t))"
  proof (rule series_spec_SomeI [of m])
    show "m < length (kept_rows rows ks)" "row_value (kept_rows rows ks ! m) k = Some v"
      "trT (kept_rows rows ks ! m) = t"
      using m i(2,3) by (simp_all add: kept_rows_def)
  next
    fix r w assume "r \<in> set (kept_rows rows ks)" "row_value r k = Some w"
    thus "w \<le> v" using i(4) ks(3) by (auto simp: kept_rows_def subset_eq)
  next
    fix j w assume j: "j < m" "row_value (kept_rows rows ks ! j) k = Some w"
    have "ks ! j < i" using ks(1,2) j(1) m
      by (metis linorder_neqE_nat nth_eq_iff_index_eq order_less_le sorted_nth_mono less_imp_le_nat
          order_less_trans)
    thus "w < v" using i(5) j m(1) by (simp add: kept_rows_def)
  qed
  thus ?thesis using per_series_spec series_spec_unique by blast
qed

lemma fold_higher_peak:
  "fold higher_peak ps p \<in> set (p # ps) \<and> (\<forall>q \<in> set (p # ps). spValue q \<le> spValue (fold higher_peak ps p))"
proof (induction ps rule: rev_induct)
  case (snoc q ps)
  show ?case
  proof (cases "spValue q > spValue (fold higher_peak ps p)")
    case True
    thus ?thesis using snoc by (fastforce simp: higher_peak_def)
  next
    case False
    thus ?thesis using snoc by (auto simp: higher_peak_def)
  qed
qed simp

lemma reduce_peaks_max:
  "reduce_peaks ps = Some p \<Longrightarrow> p \<in> set ps \<and> (\<forall>q \<in> set ps. spValue q \<le> spValue p)"
  by (cases ps) (use fold_higher_peak in auto)

lemma series_peaks_mem:
  "q \<in> set (series_peaks rows spec) \<longleftrightarrow>
     spKey q \<in> set (ksSeries spec) \<and> per_series rows (spKey q) = Some (spValue q, spAtSec q)
     \<and> spAtMs q = spAtSec q * 1000 \<and> spUnit q = ksUnit spec"
  (is "?l = ?r")
proof
  assume ?l
  thus ?r by (auto simp: series_peaks_def List.map_filter_def)
next
  assume ?r
  thus ?l unfolding series_peaks_def List.map_filter_def
    by (auto intro!: image_eqI [of _ _ "spKey q"])
qed

lemma track_specs_shape:
  "spec \<in> set RESOURCE_TRACKS \<Longrightarrow>
     (\<exists>a. ksSeries spec = [a]) \<or> (\<exists>a b. ksSeries spec = [a, b])"
  by (auto simp: RESOURCE_TRACKS_def)

definition peak_of_series :: "track_spec \<Rightarrow> track_key \<Rightarrow> rat \<times> rat \<Rightarrow> series_peak" where
  "peak_of_series spec k x =
     \<lparr>spKey = k, spValue = fst x, spAtMs = snd x * 1000, spAtSec = snd x, spUnit = ksUnit spec\<rparr>"

lemma reduce_one:
  "ksSeries spec = [a] \<Longrightarrow>
     reduce_peaks (series_peaks rows spec) = map_option (peak_of_series spec a) (per_series rows a)"
  by (cases "per_series rows a")
    (simp_all add: series_peaks_def List.map_filter_simps peak_of_series_def split_def)

lemma reduce_two:
  "ksSeries spec = [a, b] \<Longrightarrow>
     reduce_peaks (series_peaks rows spec) =
       (case (per_series rows a, per_series rows b) of
          (None, y) \<Rightarrow> map_option (peak_of_series spec b) y
        | (Some x, None) \<Rightarrow> Some (peak_of_series spec a x)
        | (Some x, Some y) \<Rightarrow> Some (if fst y > fst x then peak_of_series spec b y else peak_of_series spec a x))"
  by (cases "per_series rows a"; cases "per_series rows b")
    (simp_all add: series_peaks_def List.map_filter_simps peak_of_series_def split_def higher_peak_def)

text \<open>The highest of the kept peaks is the highest of all of them, when its row is kept.\<close>

lemma kept_reduce:
  assumes spec: "spec \<in> set RESOURCE_TRACKS" and ks: "set ks \<subseteq> {..<length rows}"
    and same: "\<And>p. reduce_peaks (series_peaks rows spec) = Some p \<Longrightarrow>
        per_series (kept_rows rows ks) (spKey p) = per_series rows (spKey p)"
  shows "reduce_peaks (series_peaks (kept_rows rows ks) spec) = reduce_peaks (series_peaks rows spec)"
proof -
  have none: "per_series (kept_rows rows ks) k = None" if "per_series rows k = None" for k
    using kept_series_le [OF ks, of k] that by (cases "per_series (kept_rows rows ks) k") auto
  have le: "fst w \<le> fst v" if "per_series rows k = Some v" "per_series (kept_rows rows ks) k = Some w" for k v w
    using kept_series_le [OF ks, of k "fst w" "snd w"] that by auto
  have key: "spKey (peak_of_series spec k x) = k" for k x by (simp add: peak_of_series_def)
  from track_specs_shape [OF spec] show ?thesis
  proof (elim disjE exE)
    fix a assume a: "ksSeries spec = [a]"
    show ?thesis
    proof (cases "per_series rows a")
      case None
      thus ?thesis using none by (simp add: reduce_one [OF a])
    next
      case (Some x)
      thus ?thesis using same [unfolded reduce_one [OF a]] key by (simp add: reduce_one [OF a])
    qed
  next
    fix a b assume ab: "ksSeries spec = [a, b]"
    note two = reduce_two [OF ab]
    show ?thesis
    proof (cases "per_series rows a")
      case A: None
      show ?thesis
      proof (cases "per_series rows b")
        case None
        thus ?thesis using A none by (simp add: two)
      next
        case (Some y)
        hence "per_series (kept_rows rows ks) b = Some y" using same [unfolded two] A key by simp
        thus ?thesis using A Some none by (simp add: two)
      qed
    next
      case A: (Some x)
      show ?thesis
      proof (cases "per_series rows b")
        case None
        hence "per_series (kept_rows rows ks) a = Some x" using same [unfolded two] A key by simp
        thus ?thesis using A None none by (simp add: two)
      next
        case B: (Some y)
        show ?thesis
        proof (cases "fst y > fst x")
          case True
          hence "per_series (kept_rows rows ks) b = Some y" using same [unfolded two] A B key by simp
          thus ?thesis using A B True le [OF A] by (cases "per_series (kept_rows rows ks) a") (auto simp: two)
        next
          case False
          hence "per_series (kept_rows rows ks) a = Some x" using same [unfolded two] A B key by simp
          thus ?thesis using A B False le [OF B] by (cases "per_series (kept_rows rows ks) b") (auto simp: two)
        qed
      qed
    qed
  qed
qed

text \<open>The scale depends on the highest peak only.\<close>

lemma row_values_mem:
  "w \<in> set (row_values rows ks) \<longleftrightarrow> (\<exists>r \<in> set rows. \<exists>k \<in> set ks. row_value r k = Some w)"
proof -
  have "w \<in> set (List.map_filter f ks) \<longleftrightarrow> (\<exists>k \<in> set ks. f k = Some w)" for f :: "track_key \<Rightarrow> rat option"
    by (induction ks) (auto simp: List.map_filter_simps split: option.splits)
  thus ?thesis by (simp add: row_values_def)
qed

lemma fold_max_Max: "fold max xs 0 = Max (insert 0 (set xs))" for xs :: "rat list"
  by (simp add: Max.set_eq_fold [symmetric])

lemma series_value_below_peak:
  assumes "r \<in> set rows" "k \<in> set (ksSeries spec)" "row_value r k = Some w"
  shows "\<exists>p. reduce_peaks (series_peaks rows spec) = Some p \<and> w \<le> spValue p"
proof -
  obtain v t where vt: "per_series rows k = Some (v, t)" "w \<le> v"
  proof (cases "per_series rows k")
    case None
    with per_series_spec [of rows k] assms show thesis by (simp add: series_spec_def)
  next
    case (Some x)
    obtain v t where x: "x = (v, t)" by fastforce
    from per_series_spec [of rows k, unfolded Some x] have "w \<le> v"
      by (rule series_spec_SomeE) (use assms in blast)
    thus thesis using that Some x by blast
  qed
  hence m: "peak_of_series spec k (v, t) \<in> set (series_peaks rows spec)"
    using assms(2) by (simp add: series_peaks_mem peak_of_series_def)
  then obtain p where p: "reduce_peaks (series_peaks rows spec) = Some p"
    by (cases "series_peaks rows spec") auto
  have "v \<le> spValue p" using reduce_peaks_max [OF p] m by (auto simp: peak_of_series_def)
  thus ?thesis using p vt(2) by auto
qed

lemma top_is_peak:
  "fold max (row_values rows (ksSeries spec)) 0 =
     (case reduce_peaks (series_peaks rows spec) of None \<Rightarrow> 0 | Some p \<Rightarrow> max 0 (spValue p))"
proof (cases "reduce_peaks (series_peaks rows spec)")
  case None
  hence "w \<notin> set (row_values rows (ksSeries spec))" for w
    using series_value_below_peak [of _ rows _ spec w] by (auto simp: row_values_mem)
  hence "set (row_values rows (ksSeries spec)) = {}" by (meson equals0I)
  thus ?thesis by (simp add: None)
next
  case (Some p)
  from reduce_peaks_max [OF Some] have "p \<in> set (series_peaks rows spec)" by blast
  hence p: "spKey p \<in> set (ksSeries spec)" "per_series rows (spKey p) = Some (spValue p, spAtSec p)"
    by (simp_all add: series_peaks_mem)
  from per_series_spec [of rows "spKey p", unfolded p(2)] obtain i where
      "i < length rows" "row_value (rows ! i) (spKey p) = Some (spValue p)" by (rule series_spec_SomeE)
  hence mem: "spValue p \<in> set (row_values rows (ksSeries spec))"
    using p(1) by (auto simp: row_values_mem dest: nth_mem)
  have le: "w \<le> spValue p" if "w \<in> set (row_values rows (ksSeries spec))" for w
    using that series_value_below_peak [of _ rows _ spec w] Some by (auto simp: row_values_mem)
  have "Max (insert 0 (set (row_values rows (ksSeries spec)))) = max 0 (spValue p)"
  proof (rule Max_eqI)
    fix y assume "y \<in> insert 0 (set (row_values rows (ksSeries spec)))"
    thus "y \<le> max 0 (spValue p)" using le by (auto simp: le_max_iff_disj)
  next
    show "max 0 (spValue p) \<in> insert 0 (set (row_values rows (ksSeries spec)))"
      using mem by (auto simp: max_def)
  qed simp
  thus ?thesis by (simp add: fold_max_Max Some)
qed

lemma thinIndices_facts:
  assumes "ks = thinIndices n maxPoints must"
  shows "sorted ks" "distinct ks" "set ks \<subseteq> {..<n}"
    "\<And>i. i < n \<Longrightarrow> int i \<in> set must \<Longrightarrow> i \<in> set ks"
    "0 < n \<Longrightarrow> {0, n - 1} \<subseteq> set ks"
    "n \<le> maxPoints \<Longrightarrow> ks = [0..<n]"
    "length ks \<le> maxPoints + length must + 2"
proof -
  define big where "big = [0, n - 1]
      @ map nat (filter (\<lambda>i. 0 \<le> i \<and> i < int n) must)
      @ map (\<lambda>i. min (n - 1) (i * n div maxPoints)) [0..<maxPoints]"
  have ks: "ks = (if n \<le> maxPoints then [0..<n] else sort (remdups big))"
    by (simp add: assms thinIndices_def big_def)
  show "sorted ks" "distinct ks" by (simp_all add: ks)
  have big: "set big \<subseteq> {..<n}" if "0 < n" using that by (auto simp: big_def)
  show "set ks \<subseteq> {..<n}" using big by (auto simp: ks)
  show "0 < n \<Longrightarrow> {0, n - 1} \<subseteq> set ks" by (auto simp: ks big_def)
  show "n \<le> maxPoints \<Longrightarrow> ks = [0..<n]" by (simp add: ks)
  show "i \<in> set ks" if "i < n" "int i \<in> set must" for i
  proof -
    have "i \<in> nat ` {x \<in> set must. 0 \<le> x \<and> x < int n}"
      using that by (intro image_eqI [of _ _ "int i"]) auto
    hence "i \<in> set (map nat (filter (\<lambda>i. 0 \<le> i \<and> i < int n) must))" by (simp only: set_map set_filter)
    hence "i \<in> set big" unfolding big_def set_append by blast
    thus ?thesis using that(1) by (simp add: ks)
  qed
  have "length (filter (\<lambda>i. 0 \<le> i \<and> i < int n) must) \<le> length must" by simp
  hence "length big \<le> maxPoints + length must + 2" by (simp add: big_def)
  hence "length (remdups big) \<le> maxPoints + length must + 2" using length_remdups_leq le_trans by blast
  thus "length ks \<le> maxPoints + length must + 2" by (simp add: ks)
qed

lemma peak_row_index:
  assumes "spec \<in> set RESOURCE_TRACKS" "reduce_peaks (series_peaks rows spec) = Some p"
    "i < length rows" "row_value (rows ! i) (spKey p) = Some (spValue p)" "trT (rows ! i) = spAtSec p"
  shows "i \<in> set (peak_indices rows)"
proof -
  have "spKey p \<in> set (ksSeries spec)" using reduce_peaks_max [OF assms(2)] by (simp add: series_peaks_mem)
  hence "is_peak_row (buildResourceTrackViews rows) (rows ! i)"
    unfolding is_peak_row_def buildResourceTrackViews_def
    using assms by (auto simp: trackDomain_def Let_def intro!: bexI [of _ spec] bexI [of _ "spKey p"])
  thus ?thesis using assms(3) by (simp add: peak_indices_def)
qed

lemma kept_views:
  assumes "ks = thinIndices (length rows) maxPoints (map int (peak_indices rows))" "spec \<in> set RESOURCE_TRACKS"
  shows "tvPeak (trackDomain (kept_rows rows ks) spec) = tvPeak (trackDomain rows spec)"
    "tvDomain (trackDomain (kept_rows rows ks) spec) = tvDomain (trackDomain rows spec)"
proof -
  note f = thinIndices_facts [OF assms(1)]
  have r: "reduce_peaks (series_peaks (kept_rows rows ks) spec) = reduce_peaks (series_peaks rows spec)"
  proof (rule kept_reduce [OF assms(2) f(3)])
    fix p assume p: "reduce_peaks (series_peaks rows spec) = Some p"
    hence s: "per_series rows (spKey p) = Some (spValue p, spAtSec p)"
      using reduce_peaks_max [OF p] by (simp add: series_peaks_mem)
    have "per_series (kept_rows rows ks) (spKey p) = Some (spValue p, spAtSec p)"
      by (rule kept_series_same [OF f(1-3) s])
        (use peak_row_index [OF assms(2) p] f(4) in auto)
    thus "per_series (kept_rows rows ks) (spKey p) = per_series rows (spKey p)" using s by simp
  qed
  thus "tvPeak (trackDomain (kept_rows rows ks) spec) = tvPeak (trackDomain rows spec)"
    "tvDomain (trackDomain (kept_rows rows ks) spec) = tvDomain (trackDomain rows spec)"
    by (simp_all add: trackDomain_def Let_def top_is_peak)
qed

lemma kept_rows_subseq:
  assumes "sorted ks" "distinct ks" "set ks \<subseteq> {..<length rows}"
  shows "subseq (kept_rows rows ks) rows"
proof -
  have "ks = filter (\<lambda>i. i \<in> set ks) [0..<length rows]"
    by (rule sorted_distinct_set_unique) (use assms in \<open>auto simp: sorted_wrt_filter\<close>)
  hence "subseq ks [0..<length rows]" by (metis subseq_filter_left)
  hence "subseq (map (\<lambda>i. rows ! i) ks) (map (\<lambda>i. rows ! i) [0..<length rows])" by (rule subseq_map)
  thus ?thesis by (simp add: kept_rows_def map_nth)
qed

lemma kept_rows_ends:
  assumes "sorted ks" "set ks \<subseteq> {..<length rows}" "{0, length rows - 1} \<subseteq> set ks" "rows \<noteq> []"
  shows "hd (kept_rows rows ks) = hd rows \<and> last (kept_rows rows ks) = last rows"
proof -
  have ne: "ks \<noteq> []" using assms(3) by auto
  have "hd ks \<le> 0" using assms(1,3) ne by (cases ks) auto
  moreover have "length rows - 1 \<le> last ks"
  proof -
    from assms(3) obtain i where i: "i < length ks" "ks ! i = length rows - 1" by (auto simp: in_set_conv_nth)
    have "ks ! i \<le> ks ! (length ks - 1)" by (rule sorted_nth_mono [OF assms(1)]) (use i(1) in auto)
    thus ?thesis using i(2) ne by (simp add: last_conv_nth)
  qed
  moreover have "last ks < length rows" using assms(2) last_in_set [OF ne] by (meson lessThan_iff subsetD)
  ultimately have "hd ks = 0" "last ks = length rows - 1" by linarith+
  thus ?thesis using ne assms(4) by (simp add: kept_rows_def hd_map last_map hd_conv_nth last_conv_nth)
qed

text \<open>C36: Thinning a long session for display keeps its samples' own rows in order, the first and the last of
  them, and every track's peak and scale exactly, in at most the points asked for, two more and one for
  each row at a peak.
\<close>
theorem thinning_keeps_peaks:
  fixes samples :: "telemetry_sample list" and maxPoints :: nat
  defines "all \<equiv> map buildRow samples" and "r \<equiv> buildResourceTracks samples maxPoints"
  shows "subseq (rtRows r) all
    \<and> length (rtRows r) \<le> maxPoints + length (peak_indices all) + 2
    \<and> (all \<noteq> [] \<longrightarrow> hd (rtRows r) = hd all \<and> last (rtRows r) = last all)
    \<and> map tvPeak (rtTracks r) = map tvPeak (buildResourceTrackViews all)
    \<and> map tvDomain (rtTracks r) = map tvDomain (buildResourceTrackViews all)"
proof -
  define ks where "ks = thinIndices (length all) maxPoints (map int (peak_indices all))"
  note f = thinIndices_facts [OF ks_def]
  have views: "map tvPeak (buildResourceTrackViews (kept_rows all ks)) = map tvPeak (buildResourceTrackViews all)"
    "map tvDomain (buildResourceTrackViews (kept_rows all ks)) = map tvDomain (buildResourceTrackViews all)"
    using kept_views [OF ks_def] by (simp_all add: buildResourceTrackViews_def)
  have r: "rtRows r = (if length ks < length all then kept_rows all ks else all)"
    "rtTracks r = buildResourceTrackViews (rtRows r)"
    unfolding r_def buildResourceTracks_def Let_def kept_rows_def ks_def all_def by simp_all
  show ?thesis
  proof (cases "length ks < length all")
    case True
    hence rows: "rtRows r = kept_rows all ks" "rtTracks r = buildResourceTrackViews (kept_rows all ks)"
      using r by simp_all
    have "length (kept_rows all ks) \<le> maxPoints + length (peak_indices all) + 2"
      using f(7) by (simp add: kept_rows_def)
    moreover have "all \<noteq> [] \<longrightarrow> hd (kept_rows all ks) = hd all \<and> last (kept_rows all ks) = last all"
      using kept_rows_ends [OF f(1,3)] f(5) by simp
    ultimately show ?thesis unfolding rows using views kept_rows_subseq [OF f(1-3)] by blast
  next
    case False
    hence rows: "rtRows r = all" "rtTracks r = buildResourceTrackViews all"
      using r by simp_all
    show ?thesis unfolding rows using f(7) False by simp
  qed
qed

definition four_samples :: "telemetry_sample list" where
  "four_samples = [measured 0 10, measured 10 20, measured 20 90, measured 30 5]"

lemma thinning_keeps_peaks_witness:
  "subseq (rtRows (buildResourceTracks four_samples 1)) (map buildRow four_samples)
    \<and> length (rtRows (buildResourceTracks four_samples 1)) \<le> 1 + length (peak_indices (map buildRow four_samples)) + 2
    \<and> hd (rtRows (buildResourceTracks four_samples 1)) = buildRow (measured 0 10)
    \<and> last (rtRows (buildResourceTracks four_samples 1)) = buildRow (measured 30 5)
    \<and> map tvPeak (rtTracks (buildResourceTracks four_samples 1)) = map tvPeak (buildResourceTrackViews (map buildRow four_samples))"
proof -
  have ends: "map buildRow four_samples \<noteq> []" "hd (map buildRow four_samples) = buildRow (measured 0 10)"
    "last (map buildRow four_samples) = buildRow (measured 30 5)" by (simp_all add: four_samples_def)
  show ?thesis using thinning_keeps_peaks [of four_samples 1] ends by simp
qed

section \<open>What the integrity check counts\<close>

fun increasing :: "canonical_event list \<Rightarrow> bool" where
  "increasing (a # b # es) \<longleftrightarrow> evSequence a < evSequence b \<and> increasing (b # es)"
| "increasing _ \<longleftrightarrow> True"

lemma gap_loop_increasing:
  assumes "increasing (e # es)"
  shows "snd (gap_loop (e # es) (g, m)) =
    m + (evSequence (last (e # es)) - evSequence e) - int (length es)"
  using assms by (induction es arbitrary: e g m) (auto simp: Let_def)

text \<open>On increasing sequences the check counts exactly the numbers missing in between.\<close>

lemma sequence_integrity_increasing:
  assumes "increasing (e # es)"
  shows "siMissing (sequenceIntegrity (e # es)) =
           (evSequence (last (e # es)) - evSequence e + 1) - int (length (e # es))"
  using gap_loop_increasing [OF assms, of 0 0] by (simp add: sequenceIntegrity_def split_def)

text \<open>A stream that repeats or goes back is called contiguous.\<close>

lemma sequence_integrity_blind:
  assumes "evSequence b \<le> evSequence a + 1"
  shows "siContiguous (sequenceIntegrity [a, b])"
  using assms by (simp add: sequenceIntegrity_def)

end
