(* ===== verification/Evidence_Index.thy ===== *)
theory Evidence_Index
  imports Telemetry_View
begin

text \<open>
  \<^verbatim>\<open>web/frontend/src/lib/evidenceCorrelation.ts\<close>: which process, event and moment a selection refers
  to.  The records of observed processes are shared by three indexes of the code; here they lie in one
  list and the indexes hold their positions, so that a change of a record is seen through each of them.
  A metric the code casts to a number or a string is read as one; a value of another type is taken as
  absent.  Messages are the values of each template.
\<close>

section \<open>Identities\<close>

datatype evidence_role = Caps_engine | Child

record process_identity_view =
  pvSessionId :: string
  pvPid :: rat
  pvStart :: "string option"
  pvRole :: evidence_role

datatype identity_confidence = Session_pid_start | Session_pid

text \<open>The parts of a key; an unknown start time is written as a question mark.\<close>

type_synonym node_key = "evidence_role \<times> rat \<times> string"

definition nodeKeyFor :: "process_identity_view \<Rightarrow> node_key" where
  "nodeKeyFor p = (pvRole p, pvPid p, case pvStart p of None \<Rightarrow> ''?'' | Some t \<Rightarrow> t)"

definition nodeKeyForRole :: "process_identity_view \<Rightarrow> evidence_role \<times> rat" where
  "nodeKeyForRole p = (pvRole p, pvPid p)"

definition matchConfidence ::
    "process_identity_view option \<Rightarrow> process_identity_view option \<Rightarrow> identity_confidence option" where
  "matchConfidence a b =
     (case (a, b) of
        (Some x, Some y) \<Rightarrow>
          if pvSessionId x \<noteq> pvSessionId y then None
          else if pvPid x \<noteq> pvPid y then None
          else (case (pvStart x, pvStart y) of
                  (Some s, Some t) \<Rightarrow> if s = t then Some Session_pid_start else None
                | _ \<Rightarrow> Some Session_pid)
      | _ \<Rightarrow> None)"

definition sameProcess :: "process_identity_view option \<Rightarrow> process_identity_view option \<Rightarrow> bool" where
  "sameProcess a b \<longleftrightarrow> matchConfidence a b \<noteq> None"

section \<open>Records\<close>

record observed_process =
  opIdentity :: process_identity_view
  opFirstSequence :: int
  opFirstAtMs :: int
  opFirstEventType :: event_type
  opFirstSampleSequence :: "int option"
  opFirstSampleAtMs :: "int option"
  opSampleCount :: nat
  opEndSequence :: "int option"
  opEndAtMs :: "int option"
  opObservedPpid :: "rat option"
  opCommand :: "string option"
  opExecSequence :: "int option"
  opExecAtMs :: "int option"
  opImageBefore :: "string option"
  opSignalNumber :: "rat option"
  opSignalSequence :: "int option"

definition at_ms :: "int \<Rightarrow> canonical_event \<Rightarrow> int" where
  "at_ms origin e = max 0 (evTimestamp e - origin)"

definition new_record :: "int \<Rightarrow> process_identity_view \<Rightarrow> canonical_event \<Rightarrow> observed_process" where
  "new_record origin p e =
     \<lparr>opIdentity = p, opFirstSequence = evSequence e, opFirstAtMs = at_ms origin e,
      opFirstEventType = evType e, opFirstSampleSequence = None, opFirstSampleAtMs = None,
      opSampleCount = 0, opEndSequence = None, opEndAtMs = None, opObservedPpid = None,
      opCommand = None, opExecSequence = None, opExecAtMs = None, opImageBefore = None,
      opSignalNumber = None, opSignalSequence = None\<rparr>"

text \<open>The tables under construction.\<close>

record index_tables =
  itOrder :: "observed_process list"
  itByNode :: "node_key \<Rightarrow> nat option"
  itByRolePid :: "evidence_role \<times> rat \<Rightarrow> nat list"
  itStarts :: "(rat \<times> string list) list"

definition empty_tables :: index_tables where
  "empty_tables = \<lparr>itOrder = [], itByNode = Map.empty, itByRolePid = (\<lambda>_. []), itStarts = []\<rparr>"

definition register :: "observed_process \<Rightarrow> index_tables \<Rightarrow> nat \<times> index_tables" where
  "register r b =
     (let key = nodeKeyFor (opIdentity r); rolePid = nodeKeyForRole (opIdentity r); i = length (itOrder b) in
      case itByNode b key of
        Some j \<Rightarrow> (j, b)
      | None \<Rightarrow> (i, b\<lparr>itByNode := (itByNode b)(key \<mapsto> i),
                      itByRolePid := (itByRolePid b)(rolePid := itByRolePid b rolePid @ [i]),
                      itOrder := itOrder b @ [r]\<rparr>))"

definition touch_process :: "int \<Rightarrow> process_identity_view \<Rightarrow> canonical_event \<Rightarrow> index_tables \<Rightarrow> nat \<times> index_tables" where
  "touch_process origin p e b =
     (case itByNode b (nodeKeyFor p) of
        Some i \<Rightarrow> (i, b)
      | None \<Rightarrow> register (new_record origin p e) b)"

definition update_record :: "nat \<Rightarrow> (observed_process \<Rightarrow> observed_process) \<Rightarrow> index_tables \<Rightarrow> index_tables" where
  "update_record i f b = b\<lparr>itOrder := (itOrder b)[i := f (itOrder b ! i)]\<rparr>"

definition promote :: "nat \<Rightarrow> string \<Rightarrow> index_tables \<Rightarrow> index_tables" where
  "promote i t b =
     (let p = opIdentity (itOrder b ! i) in
      if pvStart p = Some t then b
      else
        (let provisional = nodeKeyFor p; p' = p\<lparr>pvStart := Some t\<rparr>; permanent = nodeKeyFor p';
             b1 = update_record i (opIdentity_update (\<lambda>_. p')) b in
         if provisional = permanent then b1
         else
           (let m = (itByNode b1)(provisional := None) in
            b1\<lparr>itByNode := (if m permanent = None then m(permanent \<mapsto> i) else m)\<rparr>)))"

definition sole :: "nat list \<Rightarrow> nat option" where
  "sole is = (case is of [i] \<Rightarrow> Some i | _ \<Rightarrow> None)"

definition childRecord :: "rat \<Rightarrow> index_tables \<Rightarrow> nat option" where
  "childRecord pid b = sole (itByRolePid b (Child, pid))"

definition recordForSnapshot ::
    "int \<Rightarrow> evidence_role \<Rightarrow> rat \<Rightarrow> string option \<Rightarrow> canonical_event \<Rightarrow> index_tables
      \<Rightarrow> nat option \<times> index_tables" where
  "recordForSnapshot origin role pid start e b =
     (case start of
        None \<Rightarrow> (sole (itByRolePid b (role, pid)), b)
      | Some t \<Rightarrow>
          (case itByNode b (role, pid, t) of
             Some i \<Rightarrow> (Some i, b)
           | None \<Rightarrow>
               (case itByNode b (role, pid, ''?'') of
                  Some i \<Rightarrow> (Some i, promote i t b)
                | None \<Rightarrow>
                    (let (i, b') = register (new_record origin
                           \<lparr>pvSessionId = evSessionId e, pvPid = pid, pvStart = Some t, pvRole = role\<rparr> e) b in
                     (Some i, b')))))"

section \<open>Building the index\<close>

definition metric_num :: "payload \<Rightarrow> string \<Rightarrow> rat option" where
  "metric_num p k = as_num (metricValue (field p k))"

definition metric_str :: "payload \<Rightarrow> string \<Rightarrow> string option" where
  "metric_str p k = as_str (metricValue (field p k))"

definition eventStartTime :: "payload \<Rightarrow> string option" where
  "eventStartTime p = metric_str p ''startTime''"

definition touch_started :: "int \<Rightarrow> canonical_event \<Rightarrow> index_tables \<Rightarrow> index_tables" where
  "touch_started origin e b =
     (case evPid e of
        Some pid \<Rightarrow>
          if evType e = Process_started
          then snd (touch_process origin \<lparr>pvSessionId = evSessionId e, pvPid = pid, pvStart = None, pvRole = Child\<rparr> e b)
          else b
      | None \<Rightarrow> b)"

definition touch_engine :: "int \<Rightarrow> canonical_event \<Rightarrow> index_tables \<Rightarrow> index_tables" where
  "touch_engine origin e b =
     (if evType e \<noteq> Process_snapshot then b
      else case metric_num (evPayload e) ''capsEnginePid'' of
             None \<Rightarrow> b
           | Some pid \<Rightarrow>
               snd (touch_process origin \<lparr>pvSessionId = evSessionId e, pvPid = pid, pvStart = None, pvRole = Caps_engine\<rparr> e b))"

definition on_child :: "rat \<Rightarrow> (observed_process \<Rightarrow> observed_process) \<Rightarrow> index_tables \<Rightarrow> index_tables" where
  "on_child pid f b = (case childRecord pid b of None \<Rightarrow> b | Some i \<Rightarrow> update_record i f b)"

definition note_label :: "payload \<Rightarrow> observed_process \<Rightarrow> observed_process" where
  "note_label p r =
     (case as_str (field p ''label'') of None \<Rightarrow> r | Some s \<Rightarrow> r\<lparr>opImageBefore := Some s\<rparr>)"

definition record_signal :: "canonical_event \<Rightarrow> observed_process \<Rightarrow> observed_process" where
  "record_signal e r =
     (let s = (case metric_num (evPayload e) ''signal'' of
                 Some x \<Rightarrow> Some x | None \<Rightarrow> as_num (field (evPayload e) ''signal'')) in
      if s \<noteq> None \<and> opSignalNumber r = None
      then r\<lparr>opSignalNumber := s, opSignalSequence := Some (evSequence e)\<rparr> else r)"

definition note_sample :: "int \<Rightarrow> canonical_event \<Rightarrow> observed_process \<Rightarrow> observed_process" where
  "note_sample origin e r =
     (let p = evPayload e; seq = Some (evSequence e); t = Some (at_ms origin e);
          r1 = (case metric_num p ''ppid'' of None \<Rightarrow> r | Some x \<Rightarrow> r\<lparr>opObservedPpid := Some x\<rparr>);
          r2 = (case metric_str p ''command'' of
                  None \<Rightarrow> r1
                | Some c \<Rightarrow>
                    (if opExecSequence r1 = None
                     then r1\<lparr>opCommand := Some c, opExecSequence := seq, opExecAtMs := t\<rparr>
                     else r1\<lparr>opCommand := Some c\<rparr>));
          r3 = r2\<lparr>opSampleCount := opSampleCount r2 + 1\<rparr> in
      if opFirstSampleSequence r3 = None
      then r3\<lparr>opFirstSampleSequence := seq, opFirstSampleAtMs := t\<rparr> else r3)"

definition note_end :: "int \<Rightarrow> canonical_event \<Rightarrow> observed_process \<Rightarrow> observed_process" where
  "note_end origin e r = r\<lparr>opEndSequence := Some (evSequence e), opEndAtMs := Some (at_ms origin e)\<rparr>"

definition add_start :: "rat \<Rightarrow> string \<Rightarrow> (rat \<times> string list) list \<Rightarrow> (rat \<times> string list) list" where
  "add_start pid t m =
     (let seen = (case map_of m pid of None \<Rightarrow> [] | Some ts \<Rightarrow> ts) in
      AList.update pid (if t \<in> set seen then seen else seen @ [t]) m)"

text \<open>The process a snapshot describes.\<close>

definition snapshot_subject :: "canonical_event \<Rightarrow> (evidence_role \<times> rat) option" where
  "snapshot_subject e =
     (let engine = metric_num (evPayload e) ''capsEnginePid'' in
      case (case metric_num (evPayload e) ''pid'' of Some x \<Rightarrow> Some x | None \<Rightarrow> evPid e) of
        None \<Rightarrow> None
      | Some pid \<Rightarrow> Some (if engine = Some pid then Caps_engine else Child, pid))"

definition enrich_snapshot :: "int \<Rightarrow> canonical_event \<Rightarrow> index_tables \<Rightarrow> index_tables" where
  "enrich_snapshot origin e b =
     (case snapshot_subject e of
        None \<Rightarrow> b
      | Some (role, pid) \<Rightarrow>
          (let start = eventStartTime (evPayload e); (found, b1) = recordForSnapshot origin role pid start e b in
           case found of
             None \<Rightarrow> b1
           | Some i \<Rightarrow>
               (let b2 = (case start of None \<Rightarrow> b1
                          | Some t \<Rightarrow> b1\<lparr>itStarts := add_start (pvPid (opIdentity (itOrder b1 ! i))) t (itStarts b1)\<rparr>) in
                update_record i (note_sample origin e) b2)))"

definition END_TYPES :: "event_type list" where
  "END_TYPES = [Process_exited, Process_exec_error, Process_wait_failed]"

definition enrich :: "int \<Rightarrow> canonical_event \<Rightarrow> index_tables \<Rightarrow> index_tables" where
  "enrich origin e b =
     (if evType e = Process_snapshot then enrich_snapshot origin e b
      else case evPid e of
             None \<Rightarrow> b
           | Some pid \<Rightarrow>
               (if evType e = Process_started then on_child pid (note_label (evPayload e)) b
                else if evType e = Signal_received then on_child pid (record_signal e) b
                else if evType e \<in> set END_TYPES then on_child pid (note_end origin e) b
                else b))"

definition build_tables :: "canonical_event list \<Rightarrow> index_tables" where
  "build_tables events =
     (let origin = event_base events in
      fold (enrich origin) events
        (fold (touch_engine origin) events (fold (touch_started origin) events empty_tables)))"

datatype limitation = Pid_collision rat nat | No_start_guard

record evidence_index =
  exSessionId :: "string option"
  exOriginMs :: int
  exEvents :: "canonical_event list"
  exBySequence :: "int \<Rightarrow> canonical_event option"
  exTables :: index_tables
  exSamples :: "telemetry_sample list"
  exSampleRange :: "rat \<Rightarrow> (telemetry_sample \<times> telemetry_sample) option"
  exPidCollisions :: "(rat \<times> string list) list"
  exLimitations :: "limitation list"

definition range_step ::
    "telemetry_sample \<Rightarrow> (rat \<Rightarrow> (telemetry_sample \<times> telemetry_sample) option)
      \<Rightarrow> rat \<Rightarrow> (telemetry_sample \<times> telemetry_sample) option" where
  "range_step s m =
     (case metric_num (tsSnapshot s) ''pid'' of
        None \<Rightarrow> m
      | Some pid \<Rightarrow> m(pid \<mapsto> (case m pid of None \<Rightarrow> (s, s) | Some (first, _) \<Rightarrow> (first, s))))"

definition pid_collisions :: "index_tables \<Rightarrow> (rat \<times> string list) list" where
  "pid_collisions b =
     map (\<lambda>(pid, ts). (pid, sort_key code_units ts)) (filter (\<lambda>(pid, ts). 1 < length ts) (itStarts b))"

definition buildEvidenceIndex :: "canonical_event list \<Rightarrow> evidence_index" where
  "buildEvidenceIndex events =
     (let b = build_tables events; samples = collectSamples events in
      \<lparr>exSessionId = (case events of [] \<Rightarrow> None | e # _ \<Rightarrow> Some (evSessionId e)),
       exOriginMs = event_base events,
       exEvents = events,
       exBySequence = fold (\<lambda>e m. m(evSequence e \<mapsto> e)) events Map.empty,
       exTables = b,
       exSamples = samples,
       exSampleRange = fold range_step samples Map.empty,
       exPidCollisions = pid_collisions b,
       exLimitations = map (\<lambda>(pid, ts). Pid_collision pid (length ts)) (pid_collisions b)
         @ (if \<exists>r \<in> set (itOrder b). pvStart (opIdentity r) = None then [No_start_guard] else [])\<rparr>)"

section \<open>From events and identities to the record\<close>

definition record_ref :: "process_identity_view option \<Rightarrow> evidence_index \<Rightarrow> nat option" where
  "record_ref p x =
     (case p of
        None \<Rightarrow> None
      | Some p \<Rightarrow>
          (case pvStart p of
             Some t \<Rightarrow> itByNode (exTables x) (pvRole p, pvPid p, t)
           | None \<Rightarrow> sole (itByRolePid (exTables x) (nodeKeyForRole p))))"

definition recordFor :: "process_identity_view option \<Rightarrow> evidence_index \<Rightarrow> observed_process option" where
  "recordFor p x = map_option (\<lambda>i. itOrder (exTables x) ! i) (record_ref p x)"

definition identity_at :: "evidence_index \<Rightarrow> nat \<Rightarrow> process_identity_view" where
  "identity_at x i = opIdentity (itOrder (exTables x) ! i)"

definition PROCESS_TYPES :: "event_type list" where
  "PROCESS_TYPES = [Process_started, Process_exited, Process_exec_error, Process_wait_failed, Signal_received]"

definition eventIdentity :: "canonical_event \<Rightarrow> evidence_index \<Rightarrow> process_identity_view option" where
  "eventIdentity e x =
     (if exSessionId x \<noteq> None \<and> exSessionId x \<noteq> Some (evSessionId e) then None
      else if evType e = Process_snapshot
      then (case snapshot_subject e of
              None \<Rightarrow> None
            | Some (role, pid) \<Rightarrow>
                map_option (identity_at x)
                  (case eventStartTime (evPayload e) of
                     Some t \<Rightarrow> itByNode (exTables x) (role, pid, t)
                   | None \<Rightarrow> sole (itByRolePid (exTables x) (role, pid))))
      else case evPid e of
             None \<Rightarrow> None
           | Some pid \<Rightarrow>
               (if evType e \<in> set PROCESS_TYPES
                then map_option (identity_at x) (sole (itByRolePid (exTables x) (Child, pid)))
                else None))"

definition eventCursorMs :: "canonical_event \<Rightarrow> evidence_index \<Rightarrow> int" where
  "eventCursorMs e x = max 0 (evTimestamp e - exOriginMs x)"

definition later_event ::
    "evidence_index \<Rightarrow> rat \<Rightarrow> canonical_event \<Rightarrow> canonical_event option \<Rightarrow> canonical_event option" where
  "later_event x t e best =
     (if of_int (eventCursorMs e x) > t then best
      else case best of
             None \<Rightarrow> Some e
           | Some b \<Rightarrow> if evSequence e > evSequence b then Some e else Some b)"

definition nearestEventForIdentity ::
    "process_identity_view \<Rightarrow> evidence_index \<Rightarrow> rat option \<Rightarrow> canonical_event option" where
  "nearestEventForIdentity p x t =
     (if recordFor (Some p) x = None then None
      else
        (let candidates = filter (\<lambda>e. eventIdentity e x \<noteq> None \<and> sameProcess (eventIdentity e x) (Some p)) (exEvents x) in
         if candidates = [] then None
         else case t of
                None \<Rightarrow> Some (last candidates)
              | Some t' \<Rightarrow> (case fold (later_event x t') candidates None of
                              Some e \<Rightarrow> Some e | None \<Rightarrow> Some (hd candidates))))"

definition cursorMsForIdentity :: "process_identity_view \<Rightarrow> evidence_index \<Rightarrow> int option" where
  "cursorMsForIdentity p x =
     (case recordFor (Some p) x of
        None \<Rightarrow> None
      | Some r \<Rightarrow> (case opFirstSampleAtMs r of Some t \<Rightarrow> Some t | None \<Rightarrow> Some (opFirstAtMs r)))"

definition identityMatchesSample :: "process_identity_view \<Rightarrow> payload \<Rightarrow> bool" where
  "identityMatchesSample p s \<longleftrightarrow>
     metric_num s ''pid'' = Some (pvPid p)
     \<and> (case (pvStart p, metric_str s ''startTime'') of (Some t, Some u) \<Rightarrow> u = t | _ \<Rightarrow> True)"

definition sampleRangeForIdentity ::
    "process_identity_view \<Rightarrow> evidence_index \<Rightarrow> (telemetry_sample \<times> telemetry_sample) option" where
  "sampleRangeForIdentity p x =
     (case exSampleRange x (pvPid p) of
        None \<Rightarrow> None
      | Some (first, final) \<Rightarrow>
          if identityMatchesSample p (tsSnapshot first) \<and> identityMatchesSample p (tsSnapshot final)
          then Some (first, final) else None)"

definition execTransitionForIdentity :: "process_identity_view \<Rightarrow> evidence_index \<Rightarrow> (int \<times> int) option" where
  "execTransitionForIdentity p x =
     (case recordFor (Some p) x of
        None \<Rightarrow> None
      | Some r \<Rightarrow> (case (opExecSequence r, opExecAtMs r) of (Some s, Some t) \<Rightarrow> Some (s, t) | _ \<Rightarrow> None))"

definition isExecEvent :: "evidence_index \<Rightarrow> int option \<Rightarrow> bool" where
  "isExecEvent x sequence \<longleftrightarrow>
     (case sequence of
        None \<Rightarrow> False
      | Some s \<Rightarrow> \<exists>r \<in> set (itOrder (exTables x)). opExecSequence r = Some s)"

section \<open>Resolving a selection\<close>

record evidence_selection =
  slSessionId :: string
  slCursorMs :: "rat option"
  slIdentity :: "process_identity_view option"
  slEventSeq :: "int option"

datatype unresolved =
    Event_absent int
  | Other_session rat string string
  | Not_observed rat
  | No_event_identity event_type
  | Other_process int rat rat rat

record evidence_resolution =
  erSessionId :: string
  erIdentityResolved :: bool
  erIdentity :: "process_identity_view option"
  erNodeKey :: "node_key option"
  erConfidence :: "identity_confidence option"
  erEvent :: "canonical_event option"
  erCursorMs :: "rat option"
  erParent :: "node_key option"
  erChildren :: "node_key list"
  erRelatedEdges :: "(node_key \<times> node_key) list"
  erRelatedNodes :: "node_key list"
  erUnresolved :: "unresolved list"

definition indexIdentityOf :: "process_identity_view option \<Rightarrow> evidence_index \<Rightarrow> process_identity_view option" where
  "indexIdentityOf p x = map_option opIdentity (recordFor p x)"

definition selected_event :: "evidence_selection \<Rightarrow> evidence_index \<Rightarrow> canonical_event option" where
  "selected_event sel x = (case slEventSeq sel of None \<Rightarrow> None | Some s \<Rightarrow> exBySequence x s)"

text \<open>Identity, confidence and complaints after the explicit selection.\<close>

definition explicit_identity ::
    "evidence_selection \<Rightarrow> evidence_index
      \<Rightarrow> process_identity_view option \<times> identity_confidence option \<times> unresolved list" where
  "explicit_identity sel x =
     (case slIdentity sel of
        None \<Rightarrow> (None, None, [])
      | Some p \<Rightarrow>
          if pvSessionId p \<noteq> slSessionId sel
          then (None, None, [Other_session (pvPid p) (pvSessionId p) (slSessionId sel)])
          else (Some p, matchConfidence (Some p) (indexIdentityOf (Some p) x),
                if indexIdentityOf (Some p) x = None then [Not_observed (pvPid p)] else []))"

text \<open>The same after the selected event.\<close>

definition with_event ::
    "canonical_event \<Rightarrow> evidence_index
      \<Rightarrow> process_identity_view option \<times> identity_confidence option \<times> unresolved list
      \<Rightarrow> process_identity_view option \<times> identity_confidence option \<times> unresolved list" where
  "with_event e x st =
     (case st of (p, conf, us) \<Rightarrow>
       (case eventIdentity e x of
          None \<Rightarrow> (p, conf, us @ [No_event_identity (evType e)])
        | Some q \<Rightarrow>
            (case p of
               None \<Rightarrow> (Some q, matchConfidence (Some q) (indexIdentityOf (Some q) x), us)
             | Some p' \<Rightarrow>
                 (case matchConfidence (Some p') (Some q) of
                    None \<Rightarrow> (p, conf, us @ [Other_process (evSequence e) (pvPid q) (pvPid p') (pvPid p')])
                  | Some c \<Rightarrow> (p, Some c, us)))))"

definition chosen_identity ::
    "evidence_selection \<Rightarrow> evidence_index
      \<Rightarrow> process_identity_view option \<times> identity_confidence option \<times> unresolved list" where
  "chosen_identity sel x =
     (case selected_event sel x of
        None \<Rightarrow> explicit_identity sel x
      | Some e \<Rightarrow> with_event e x (explicit_identity sel x))"

text \<open>Edges around a record, from the observed parents: parent, children and edges so far.\<close>

definition hierarchy_step ::
    "evidence_index \<Rightarrow> nat \<Rightarrow> nat
      \<Rightarrow> node_key option \<times> node_key list \<times> (node_key \<times> node_key) list
      \<Rightarrow> node_key option \<times> node_key list \<times> (node_key \<times> node_key) list" where
  "hierarchy_step x i j st =
     (let r = itOrder (exTables x) ! i; other = itOrder (exTables x) ! j; p = opIdentity r; q = opIdentity other in
      case st of (parent, children, edges) \<Rightarrow>
        if i = j then st
        else if pvRole q = Child \<and> pvRole p = Caps_engine \<and> opObservedPpid other = Some (pvPid p)
        then (parent, children @ [nodeKeyFor q], edges @ [(nodeKeyFor p, nodeKeyFor q)])
        else if pvRole q = Caps_engine \<and> pvRole p = Child \<and> opObservedPpid r = Some (pvPid q)
        then (Some (nodeKeyFor q), children, edges @ [(nodeKeyFor q, nodeKeyFor p)])
        else st)"

definition hierarchy ::
    "evidence_index \<Rightarrow> nat option \<Rightarrow> node_key option \<times> node_key list \<times> (node_key \<times> node_key) list" where
  "hierarchy x i =
     (case i of
        None \<Rightarrow> (None, [], [])
      | Some i \<Rightarrow> fold (hierarchy_step x i) [0..<length (itOrder (exTables x))] (None, [], []))"

definition resolved_cursor ::
    "evidence_selection \<Rightarrow> evidence_index \<Rightarrow> process_identity_view option \<Rightarrow> rat option" where
  "resolved_cursor sel x p =
     (case selected_event sel x of
        Some e \<Rightarrow> Some (of_int (eventCursorMs e x))
      | None \<Rightarrow>
          (case (case p of None \<Rightarrow> None | Some q \<Rightarrow> cursorMsForIdentity q x) of
             Some c \<Rightarrow> Some (of_int c)
           | None \<Rightarrow> slCursorMs sel))"

definition resolveSelection :: "evidence_selection \<Rightarrow> evidence_index \<Rightarrow> evidence_resolution" where
  "resolveSelection sel x =
     (let ev = selected_event sel x; (p, conf, us) = chosen_identity sel x;
          (parent, children, edges) = hierarchy x (record_ref p x) in
      \<lparr>erSessionId = slSessionId sel,
       erIdentityResolved = (p \<noteq> None \<and> recordFor p x \<noteq> None),
       erIdentity = p,
       erNodeKey = map_option nodeKeyFor p,
       erConfidence = conf,
       erEvent = ev,
       erCursorMs = resolved_cursor sel x p,
       erParent = parent, erChildren = children, erRelatedEdges = edges,
       erRelatedNodes = (case parent of None \<Rightarrow> children | Some k \<Rightarrow> k # children),
       erUnresolved = (case slEventSeq sel of
                         Some s \<Rightarrow> if ev = None then [Event_absent s] else [] | None \<Rightarrow> []) @ us\<rparr>)"

section \<open>Describing a selection\<close>

datatype display_value =
    Text_value string | Number_value rat | Sequence_value int | Type_value event_type
  | Source_value event_source | Confidence_value identity_confidence | Unavailable_value

datatype value_provenance = Prov_observed | Prov_derived | Prov_unavailable | Prov_event

record evidence_value =
  eeLabel :: string
  eeDisplay :: display_value
  eeProvenance :: value_provenance
  eeReason :: "string option"

definition shown :: "string \<Rightarrow> display_value option \<Rightarrow> value_provenance \<Rightarrow> string option \<Rightarrow> evidence_value" where
  "shown label d prov reason =
     (case d of
        None \<Rightarrow> \<lparr>eeLabel = label, eeDisplay = Unavailable_value, eeProvenance = Prov_unavailable, eeReason = reason\<rparr>
      | Some v \<Rightarrow> \<lparr>eeLabel = label, eeDisplay = v, eeProvenance = prov, eeReason = None\<rparr>)"

definition process_values :: "observed_process \<Rightarrow> identity_confidence option \<Rightarrow> evidence_value list" where
  "process_values r conf =
     [shown ''CAPS execution id'' (Some (Text_value (pvSessionId (opIdentity r)))) Prov_observed None,
      shown ''Linux PID'' (Some (Number_value (pvPid (opIdentity r)))) Prov_observed None,
      shown ''Parent PID'' (map_option Number_value (opObservedPpid r)) Prov_observed
        (Some ''No procfs PPID was collected for this process''),
      shown ''Process start'' (map_option Text_value (pvStart (opIdentity r))) Prov_derived
        (Some ''Derived start time is absent from the record''),
      shown ''Identity match'' (map_option Confidence_value conf) Prov_observed None,
      shown ''Program image'' (map_option Text_value (opCommand r)) Prov_observed
        (Some ''No procfs command was collected before the process was reaped''),
      shown ''procfs samples''
        (if opSampleCount r = 0 then None else Some (Number_value (of_nat (opSampleCount r)))) Prov_observed
        (Some ''This process is never sampled: the collector follows the CAPS-reported child only'')]"

definition event_values :: "canonical_event \<Rightarrow> evidence_value list" where
  "event_values e =
     [shown ''Event sequence'' (Some (Sequence_value (evSequence e))) Prov_event None,
      shown ''Event type'' (Some (Type_value (evType e))) Prov_event None,
      shown ''Event source'' (Some (Source_value (evSource e))) Prov_event None]
     @ (if evPid e = None
        then [shown ''Event PID'' None Prov_unavailable (Some ''This event carries no PID in its envelope'')] else [])"

datatype descriptor_kind = Kind_process | Kind_event | Kind_exec | Kind_none

record evidence_descriptor =
  edKind :: descriptor_kind
  edEvent :: "canonical_event option"
  edAtMs :: "rat option"
  edIdentity :: "process_identity_view option"
  edConfidence :: "identity_confidence option"
  edValues :: "evidence_value list"
  edUnresolved :: "unresolved list"

definition describeSelection :: "evidence_selection \<Rightarrow> evidence_index \<Rightarrow> evidence_descriptor" where
  "describeSelection sel x =
     (let res = resolveSelection sel x in
      \<lparr>edKind = (case erEvent res of
                    Some e \<Rightarrow> if isExecEvent x (Some (evSequence e)) then Kind_exec else Kind_event
                  | None \<Rightarrow> if erIdentity res \<noteq> None then Kind_process else Kind_none),
       edEvent = erEvent res, edAtMs = erCursorMs res, edIdentity = erIdentity res,
       edConfidence = erConfidence res,
       edValues = (case recordFor (erIdentity res) x of
                     None \<Rightarrow> [] | Some r \<Rightarrow> process_values r (erConfidence res))
         @ (case erEvent res of None \<Rightarrow> [] | Some e \<Rightarrow> event_values e),
       edUnresolved = erUnresolved res\<rparr>)"

section \<open>The indexes agree with the records\<close>

text \<open>
  The index by node key and the index by role and PID of a list of identities: the first inverts the
  key of every position, the second lists the positions of each role and PID in order.
\<close>

definition indexes_of ::
    "process_identity_view list \<Rightarrow> (node_key \<Rightarrow> nat option) \<Rightarrow> (evidence_role \<times> rat \<Rightarrow> nat list) \<Rightarrow> bool" where
  "indexes_of ids byNode byRolePid \<longleftrightarrow>
     (\<forall>k i. byNode k = Some i \<longleftrightarrow> i < length ids \<and> nodeKeyFor (ids ! i) = k)
   \<and> (\<forall>rp. byRolePid rp = filter (\<lambda>i. nodeKeyForRole (ids ! i) = rp) [0..<length ids])"

definition identities :: "index_tables \<Rightarrow> process_identity_view list" where
  "identities b = map opIdentity (itOrder b)"

definition tables_ok :: "index_tables \<Rightarrow> bool" where
  "tables_ok b \<longleftrightarrow> indexes_of (identities b) (itByNode b) (itByRolePid b)"

lemma indexes_ofD:
  assumes "indexes_of ids N R"
  shows "N k = Some i \<Longrightarrow> i < length ids \<and> nodeKeyFor (ids ! i) = k"
    "i < length ids \<Longrightarrow> N (nodeKeyFor (ids ! i)) = Some i"
    "R rp = filter (\<lambda>i. nodeKeyForRole (ids ! i) = rp) [0..<length ids]"
  using assms unfolding indexes_of_def by blast+

lemma indexes_of_node:
  "indexes_of ids N R \<Longrightarrow> N k = Some i \<longleftrightarrow> i < length ids \<and> nodeKeyFor (ids ! i) = k"
  unfolding indexes_of_def by blast

lemma indexes_of_nil: "indexes_of [] Map.empty (\<lambda>_. [])"
  by (simp add: indexes_of_def)

lemma indexes_of_append:
  assumes "indexes_of ids N R" "N (nodeKeyFor p) = None"
  shows "indexes_of (ids @ [p]) (N(nodeKeyFor p \<mapsto> length ids))
           (R(nodeKeyForRole p := R (nodeKeyForRole p) @ [length ids]))"
proof -
  have node: "N k = Some i \<longleftrightarrow> i < length ids \<and> nodeKeyFor (ids ! i) = k" for k i
    by (rule indexes_of_node [OF assms(1)])
  have fresh: "i < length ids \<Longrightarrow> nodeKeyFor (ids ! i) \<noteq> nodeKeyFor p" for i
    using assms(2) node [of "nodeKeyFor (ids ! i)" i] by auto
  have f: "filter (\<lambda>i. nodeKeyForRole ((ids @ [p]) ! i) = rp) [0..<length ids] =
      filter (\<lambda>i. nodeKeyForRole (ids ! i) = rp) [0..<length ids]" for rp
    by (rule filter_cong) (simp_all add: nth_append)
  show ?thesis
    unfolding indexes_of_def
  proof (intro conjI allI)
    fix k i
    show "(N(nodeKeyFor p \<mapsto> length ids)) k = Some i \<longleftrightarrow>
        i < length (ids @ [p]) \<and> nodeKeyFor ((ids @ [p]) ! i) = k"
      using node [of k i] fresh [of i] by (auto simp: nth_append less_Suc_eq)
  next
    fix rp
    show "(R(nodeKeyForRole p := R (nodeKeyForRole p) @ [length ids])) rp =
        filter (\<lambda>i. nodeKeyForRole ((ids @ [p]) ! i) = rp) [0..<length (ids @ [p])]"
      using f indexes_ofD(3) [OF assms(1)] by simp
  qed
qed

lemma indexes_of_rekey:
  assumes ok: "indexes_of ids N R" and i: "i < length ids"
    and new: "N (nodeKeyFor p) = None" and role: "nodeKeyForRole p = nodeKeyForRole (ids ! i)"
  shows "indexes_of (ids[i := p]) (N(nodeKeyFor (ids ! i) := None, nodeKeyFor p \<mapsto> i)) R"
proof -
  have node: "N k = Some j \<longleftrightarrow> j < length ids \<and> nodeKeyFor (ids ! j) = k" for k j
    by (rule indexes_of_node [OF ok])
  have fresh: "j < length ids \<Longrightarrow> nodeKeyFor (ids ! j) \<noteq> nodeKeyFor p" for j
    using new node [of "nodeKeyFor (ids ! j)" j] by auto
  have inj: "j < length ids \<Longrightarrow> nodeKeyFor (ids ! j) = nodeKeyFor (ids ! i) \<Longrightarrow> j = i" for j
    using node [of "nodeKeyFor (ids ! i)" i] node [of "nodeKeyFor (ids ! i)" j] i by simp
  have roles: "nodeKeyForRole ((ids[i := p]) ! j) = nodeKeyForRole (ids ! j)" for j
    using role i by (cases "j = i") simp_all
  show ?thesis
    unfolding indexes_of_def
  proof (intro conjI allI)
    fix k j
    show "(N(nodeKeyFor (ids ! i) := None, nodeKeyFor p \<mapsto> i)) k = Some j \<longleftrightarrow>
        j < length (ids[i := p]) \<and> nodeKeyFor ((ids[i := p]) ! j) = k"
      using node [of k j] fresh [of j] fresh [of i] inj [of j] i by (cases "j = i") auto
  next
    fix rp
    show "R rp = filter (\<lambda>j. nodeKeyForRole ((ids[i := p]) ! j) = rp) [0..<length (ids[i := p])]"
      unfolding roles using indexes_ofD(3) [OF ok] by simp
  qed
qed

lemma empty_tables_ok [simp]: "tables_ok empty_tables"
  by (simp add: tables_ok_def empty_tables_def identities_def indexes_of_nil)

lemma register_ok: "tables_ok b \<Longrightarrow> tables_ok (snd (register r b))"
  using indexes_of_append [of "identities b" "itByNode b" "itByRolePid b" "opIdentity r"]
  by (auto simp: register_def Let_def tables_ok_def identities_def split: option.splits)

lemma touch_ok: "tables_ok b \<Longrightarrow> tables_ok (snd (touch_process origin p e b))"
  by (simp add: touch_process_def register_ok split: option.splits)

lemma identities_update:
  assumes "\<And>r. opIdentity (f r) = opIdentity r"
  shows "identities (update_record i f b) = identities b"
proof -
  have "(map opIdentity (itOrder b))[i := opIdentity (itOrder b ! i)] = map opIdentity (itOrder b)"
    by (cases "i < length (itOrder b)") (simp_all add: list_eq_iff_nth_eq nth_list_update)
  thus ?thesis by (simp add: identities_def update_record_def map_update assms)
qed

lemma update_record_simps [simp]:
  "itByNode (update_record i f b) = itByNode b"
  "itByRolePid (update_record i f b) = itByRolePid b"
  "itStarts (update_record i f b) = itStarts b"
  "length (itOrder (update_record i f b)) = length (itOrder b)"
  by (simp_all add: update_record_def)

lemma update_ok:
  "(\<And>r. opIdentity (f r) = opIdentity r) \<Longrightarrow> tables_ok b \<Longrightarrow> tables_ok (update_record i f b)"
  by (simp add: tables_ok_def identities_update)

lemma note_identity [simp]:
  "opIdentity (note_label p r) = opIdentity r"
  "opIdentity (record_signal e r) = opIdentity r"
  "opIdentity (note_sample origin e r) = opIdentity r"
  "opIdentity (note_end origin e r) = opIdentity r"
  by (simp_all add: note_label_def record_signal_def note_sample_def note_end_def Let_def split: option.splits)

lemma on_child_ok:
  "(\<And>r. opIdentity (f r) = opIdentity r) \<Longrightarrow> tables_ok b \<Longrightarrow> tables_ok (on_child pid f b)"
  by (simp add: on_child_def update_ok split: option.splits)

lemma promote_ok:
  assumes ok: "tables_ok b" and i: "i < length (itOrder b)"
    and new: "itByNode b (pvRole (opIdentity (itOrder b ! i)), pvPid (opIdentity (itOrder b ! i)), t) = None"
  shows "tables_ok (promote i t b)"
proof -
  define p where "p = opIdentity (itOrder b ! i)"
  define p' where "p' = p\<lparr>pvStart := Some t\<rparr>"
  have k': "nodeKeyFor p' = (pvRole p, pvPid p, t)" by (simp add: p'_def nodeKeyFor_def)
  have nk: "itByNode b (nodeKeyFor p') = None" using new by (simp add: k' p_def)
  have ii: "i < length (identities b)" "identities b ! i = p" using i by (simp_all add: identities_def p_def)
  hence at: "itByNode b (nodeKeyFor p) = Some i"
    using indexes_ofD(2) [OF ok [unfolded tables_ok_def] ii(1)] by simp
  have ne: "nodeKeyFor p \<noteq> nodeKeyFor p'" using at nk by auto
  have st: "pvStart p \<noteq> Some t"
  proof
    assume "pvStart p = Some t"
    hence "nodeKeyFor p = nodeKeyFor p'" unfolding k' by (simp add: nodeKeyFor_def)
    thus False using ne by blast
  qed
  have role: "nodeKeyForRole p' = nodeKeyForRole (identities b ! i)" by (simp add: ii(2) p'_def nodeKeyForRole_def)
  have b: "promote i t b = (update_record i (opIdentity_update (\<lambda>_. p')) b)
      \<lparr>itByNode := (itByNode b)(nodeKeyFor p := None, nodeKeyFor p' \<mapsto> i)\<rparr>"
    using st ne nk unfolding promote_def Let_def p_def [symmetric] p'_def [symmetric] by simp
  have "identities (promote i t b) = (identities b)[i := p']"
    by (simp add: b identities_def update_record_def map_update)
  thus ?thesis
    using indexes_of_rekey [OF ok [unfolded tables_ok_def] ii(1) nk role]
    by (simp add: tables_ok_def b ii(2))
qed

lemma sole_Some: "sole is = Some i \<longleftrightarrow> is = [i]"
  by (auto simp: sole_def split: list.splits)

lemma recordForSnapshot_ok:
  assumes ok: "tables_ok b"
  shows "tables_ok (snd (recordForSnapshot origin role pid start e b))"
proof (cases start)
  case None
  thus ?thesis using ok by (simp add: recordForSnapshot_def)
next
  case (Some t)
  show ?thesis
  proof (cases "itByNode b (role, pid, t)")
    case None
    show ?thesis
    proof (cases "itByNode b (role, pid, ''?'')")
      case None
      thus ?thesis using Some \<open>itByNode b (role, pid, t) = None\<close> ok
        by (simp add: recordForSnapshot_def split_def Let_def register_ok)
    next
      case (Some i)
      note f = indexes_ofD(1) [OF ok [unfolded tables_ok_def] Some]
      have i: "i < length (itOrder b)" using f by (simp add: identities_def)
      have k: "nodeKeyFor (opIdentity (itOrder b ! i)) = (role, pid, ''?'')" using f i by (simp add: identities_def)
      hence "pvRole (opIdentity (itOrder b ! i)) = role" "pvPid (opIdentity (itOrder b ! i)) = pid"
        using k by (simp_all add: nodeKeyFor_def)
      hence "tables_ok (promote i t b)"
        using promote_ok [OF ok i, of t] \<open>itByNode b (role, pid, t) = None\<close> by simp
      thus ?thesis using Some \<open>start = Some t\<close> \<open>itByNode b (role, pid, t) = None\<close>
        by (simp add: recordForSnapshot_def)
    qed
  qed (use ok Some in \<open>simp add: recordForSnapshot_def\<close>)
qed

lemma tables_ok_starts [simp]: "tables_ok (b\<lparr>itStarts := s\<rparr>) = tables_ok b"
  by (simp add: tables_ok_def identities_def)

lemma enrich_snapshot_ok:
  assumes "tables_ok b"
  shows "tables_ok (enrich_snapshot origin e b)"
proof -
  have "tables_ok (snd (recordForSnapshot origin role pid start e b))" for role pid start
    by (rule recordForSnapshot_ok [OF assms])
  thus ?thesis using assms
    by (auto simp: enrich_snapshot_def Let_def split_def intro!: update_ok split: option.splits)
qed

lemma enrich_ok: "tables_ok b \<Longrightarrow> tables_ok (enrich origin e b)"
  by (simp add: enrich_def enrich_snapshot_ok on_child_ok split: option.splits)

lemma fold_invariant: "(\<And>x b. P b \<Longrightarrow> P (f x b)) \<Longrightarrow> P b \<Longrightarrow> P (fold f xs b)"
  by (induction xs arbitrary: b) simp_all

lemma build_tables_ok: "tables_ok (build_tables events)"
proof -
  have started: "tables_ok b \<Longrightarrow> tables_ok (touch_started origin e b)" for origin e b
    by (simp add: touch_started_def touch_ok split: option.splits)
  have engine: "tables_ok b \<Longrightarrow> tables_ok (touch_engine origin e b)" for origin e b
    by (simp add: touch_engine_def touch_ok split: option.splits)
  show ?thesis
    unfolding build_tables_def Let_def
    by (intro fold_invariant [where P = tables_ok] enrich_ok engine started empty_tables_ok)
qed

text \<open>
  What the lookups rely on: an index by key that inverts the keys of the processes, and an index by role
  and PID that lists the processes that carry them.  Lookups see processes by position only.
\<close>

locale process_index =
  fixes size_of :: "'r \<Rightarrow> nat"
    and identity_of :: "'r \<Rightarrow> nat \<Rightarrow> process_identity_view"
    and by_key :: "'r \<Rightarrow> node_key \<Rightarrow> nat option"
    and by_role_pid :: "'r \<Rightarrow> evidence_role \<times> rat \<Rightarrow> nat list"
  assumes key_law: "by_key r k = Some i \<longleftrightarrow> i < size_of r \<and> nodeKeyFor (identity_of r i) = k"
    and role_law: "by_role_pid r rp = filter (\<lambda>i. nodeKeyForRole (identity_of r i) = rp) [0..<size_of r]"
begin

lemma keys_distinct: "distinct (map (\<lambda>i. nodeKeyFor (identity_of r i)) [0..<size_of r])"
proof -
  have "i = j" if "i < size_of r" "j < size_of r" "nodeKeyFor (identity_of r i) = nodeKeyFor (identity_of r j)" for i j
    using that key_law [of r "nodeKeyFor (identity_of r i)" i] key_law [of r "nodeKeyFor (identity_of r i)" j] by simp
  thus ?thesis by (auto simp: distinct_map inj_on_def)
qed

lemma key_found: "by_key r k = Some i \<Longrightarrow> i < size_of r \<and> nodeKeyFor (identity_of r i) = k"
  by (simp add: key_law)

lemma sole_found:
  assumes "by_role_pid r rp = [i]"
  shows "i < size_of r" "nodeKeyForRole (identity_of r i) = rp"
    "j < size_of r \<Longrightarrow> nodeKeyForRole (identity_of r j) = rp \<Longrightarrow> j = i"
proof -
  have s: "set (by_role_pid r rp) = {j. j < size_of r \<and> nodeKeyForRole (identity_of r j) = rp}"
    unfolding role_law by auto
  show "i < size_of r" "nodeKeyForRole (identity_of r i) = rp"
    "j < size_of r \<Longrightarrow> nodeKeyForRole (identity_of r j) = rp \<Longrightarrow> j = i"
    using s assms by auto
qed

end

interpretation built: process_index
  "\<lambda>events. length (itOrder (build_tables events))"
  "\<lambda>events i. opIdentity (itOrder (build_tables events) ! i)"
  "\<lambda>events. itByNode (build_tables events)"
  "\<lambda>events. itByRolePid (build_tables events)"
proof unfold_locales
  fix events :: "canonical_event list" and k i rp
  note ok = build_tables_ok [of events, unfolded tables_ok_def]
  show "itByNode (build_tables events) k = Some i \<longleftrightarrow>
      i < length (itOrder (build_tables events)) \<and> nodeKeyFor (opIdentity (itOrder (build_tables events) ! i)) = k"
    using indexes_of_node [OF ok, of k i] by (auto simp: identities_def)
  show "itByRolePid (build_tables events) rp =
      filter (\<lambda>i. nodeKeyForRole (opIdentity (itOrder (build_tables events) ! i)) = rp)
        [0..<length (itOrder (build_tables events))]"
    unfolding indexes_ofD(3) [OF ok] by (rule filter_cong) (simp_all add: identities_def)
qed

lemma built_tables [simp]: "exTables (buildEvidenceIndex events) = build_tables events"
  by (simp add: buildEvidenceIndex_def Let_def)

text \<open>C30: However a record's events arrive, each observed process has a key of its own, the semantic index
  holds exactly the keys of the observed processes, through every promotion of a provisional key, and
  the index by role and PID lists exactly the processes that carry them, in the order observed.\<close>
theorem indexes_agree_with_records:
  fixes events :: "canonical_event list"
  defines "x \<equiv> exTables (buildEvidenceIndex events)"
  shows "distinct (map (nodeKeyFor \<circ> opIdentity) (itOrder x))
    \<and> (itByNode x k = Some i \<longleftrightarrow> i < length (itOrder x) \<and> nodeKeyFor (opIdentity (itOrder x ! i)) = k)
    \<and> itByRolePid x rp = filter (\<lambda>i. nodeKeyForRole (opIdentity (itOrder x ! i)) = rp) [0..<length (itOrder x)]"
proof -
  have "map (nodeKeyFor \<circ> opIdentity) (itOrder x) =
      map (\<lambda>i. nodeKeyFor (opIdentity (itOrder x ! i))) [0..<length (itOrder x)]"
    by (rule nth_equalityI) simp_all
  hence "distinct (map (nodeKeyFor \<circ> opIdentity) (itOrder x))"
    using built.keys_distinct [of events] unfolding x_def built_tables by metis
  thus ?thesis
    using built.key_law [of events k i] built.role_law [of events rp] unfolding x_def built_tables by blast
qed

section \<open>Every time of a record was recorded\<close>

text \<open>A sequence number and a time that belong to one event.\<close>

definition recorded_at :: "canonical_event list \<Rightarrow> int \<Rightarrow> int option \<Rightarrow> int option \<Rightarrow> bool" where
  "recorded_at E origin s t \<longleftrightarrow>
     s = None \<and> t = None \<or> (\<exists>e \<in> set E. s = Some (evSequence e) \<and> t = Some (at_ms origin e))"

definition times_ok :: "canonical_event list \<Rightarrow> int \<Rightarrow> observed_process \<Rightarrow> bool" where
  "times_ok E origin r \<longleftrightarrow>
     (\<exists>e \<in> set E. opFirstSequence r = evSequence e \<and> opFirstAtMs r = at_ms origin e \<and> opFirstEventType r = evType e)
   \<and> recorded_at E origin (opFirstSampleSequence r) (opFirstSampleAtMs r)
   \<and> recorded_at E origin (opExecSequence r) (opExecAtMs r)
   \<and> recorded_at E origin (opEndSequence r) (opEndAtMs r)"

definition all_times_ok :: "canonical_event list \<Rightarrow> int \<Rightarrow> index_tables \<Rightarrow> bool" where
  "all_times_ok E origin b \<longleftrightarrow> (\<forall>r \<in> set (itOrder b). times_ok E origin r)"

lemma recorded_at_event: "e \<in> set E \<Longrightarrow> recorded_at E origin (Some (evSequence e)) (Some (at_ms origin e))"
  by (auto simp: recorded_at_def)

lemma times_ok_new: "e \<in> set E \<Longrightarrow> times_ok E origin (new_record origin p e)"
  by (auto simp: times_ok_def new_record_def recorded_at_def)

lemma times_ok_notes:
  "times_ok E origin r \<Longrightarrow> times_ok E origin (note_label p r)"
  "times_ok E origin r \<Longrightarrow> times_ok E origin (record_signal e r)"
  "times_ok E origin r \<Longrightarrow> times_ok E origin (opIdentity_update f r)"
  "times_ok E origin r \<Longrightarrow> e \<in> set E \<Longrightarrow> times_ok E origin (note_end origin e r)"
  by (simp_all add: times_ok_def note_label_def record_signal_def note_end_def Let_def recorded_at_event
      split: option.splits)

lemma times_ok_sample:
  assumes "times_ok E origin r" "e \<in> set E"
  shows "times_ok E origin (note_sample origin e r)"
  using assms recorded_at_event [OF assms(2), of origin]
  by (simp add: times_ok_def note_sample_def Let_def split: option.splits)

lemma all_times_register:
  "all_times_ok E origin b \<Longrightarrow> times_ok E origin r \<Longrightarrow> all_times_ok E origin (snd (register r b))"
  by (simp add: all_times_ok_def register_def Let_def split: option.splits)

lemma all_times_touch:
  "all_times_ok E origin b \<Longrightarrow> e \<in> set E \<Longrightarrow> all_times_ok E origin (snd (touch_process origin p e b))"
  by (simp add: touch_process_def all_times_register times_ok_new split: option.splits)

lemma all_times_update:
  assumes "all_times_ok E origin b" "\<And>r. times_ok E origin r \<Longrightarrow> times_ok E origin (f r)"
  shows "all_times_ok E origin (update_record i f b)"
proof (cases "i < length (itOrder b)")
  case True
  hence "times_ok E origin (f (itOrder b ! i))" using assms by (simp add: all_times_ok_def)
  thus ?thesis using assms(1) set_update_subset_insert [of "itOrder b" i "f (itOrder b ! i)"]
    by (auto simp: all_times_ok_def update_record_def)
next
  case False
  thus ?thesis using assms(1) by (simp add: all_times_ok_def update_record_def list_update_beyond)
qed

lemma all_times_cong: "itOrder b' = itOrder b \<Longrightarrow> all_times_ok E origin b' = all_times_ok E origin b"
  by (simp add: all_times_ok_def)

lemma all_times_promote: "all_times_ok E origin b \<Longrightarrow> all_times_ok E origin (promote i t b)"
  using all_times_update [of E origin b, OF _ times_ok_notes(3)]
  by (simp add: promote_def Let_def all_times_cong [where b' = "itByNode_update _ _"])

lemma all_times_for_snapshot:
  assumes "all_times_ok E origin b" "e \<in> set E"
  shows "all_times_ok E origin (snd (recordForSnapshot origin role pid start e b))"
  using assms
  by (simp add: recordForSnapshot_def Let_def split_def all_times_register times_ok_new all_times_promote
      split: option.splits)

lemma all_times_on_child:
  "all_times_ok E origin b \<Longrightarrow> (\<And>r. times_ok E origin r \<Longrightarrow> times_ok E origin (f r)) \<Longrightarrow>
     all_times_ok E origin (on_child pid f b)"
  by (simp add: on_child_def all_times_update split: option.splits)

lemma all_times_enrich_snapshot:
  assumes "all_times_ok E origin b" "e \<in> set E"
  shows "all_times_ok E origin (enrich_snapshot origin e b)"
proof -
  have r: "all_times_ok E origin (snd (recordForSnapshot origin role pid start e b))" for role pid start
    by (rule all_times_for_snapshot [OF assms])
  have u: "all_times_ok E origin b' \<Longrightarrow> all_times_ok E origin (update_record i (note_sample origin e) b')" for i b'
    by (rule all_times_update) (simp_all add: times_ok_sample assms(2))
  show ?thesis using assms(1) r
    by (auto simp: enrich_snapshot_def Let_def split_def all_times_cong [where b' = "itStarts_update _ _"]
        intro!: u split: option.splits)
qed

lemma all_times_enrich:
  assumes "all_times_ok E origin b" "e \<in> set E"
  shows "all_times_ok E origin (enrich origin e b)"
  using assms all_times_enrich_snapshot [OF assms]
  by (auto simp: enrich_def intro!: all_times_on_child times_ok_notes split: option.splits)

lemma fold_invariant_on:
  "(\<And>x b. x \<in> set xs \<Longrightarrow> P b \<Longrightarrow> P (f x b)) \<Longrightarrow> P b \<Longrightarrow> P (fold f xs b)"
  by (induction xs arbitrary: b) simp_all

lemma build_tables_times: "all_times_ok events (event_base events) (build_tables events)"
proof -
  let ?o = "event_base events"
  have started: "e \<in> set events \<Longrightarrow> all_times_ok events ?o b \<Longrightarrow> all_times_ok events ?o (touch_started ?o e b)" for e b
    by (simp add: touch_started_def all_times_touch split: option.splits)
  have engine: "e \<in> set events \<Longrightarrow> all_times_ok events ?o b \<Longrightarrow> all_times_ok events ?o (touch_engine ?o e b)" for e b
    by (simp add: touch_engine_def all_times_touch split: option.splits)
  have "all_times_ok events ?o empty_tables" by (simp add: all_times_ok_def empty_tables_def)
  thus ?thesis
    unfolding build_tables_def Let_def
    by (intro fold_invariant_on [where P = "all_times_ok events ?o"] all_times_enrich engine started)
qed

section \<open>Selections lead to recorded moments\<close>

lemma by_sequence_mem:
  "fold (\<lambda>e m. m(evSequence e \<mapsto> e)) es m s = Some e \<Longrightarrow>
     (e \<in> set es \<and> evSequence e = s) \<or> m s = Some e"
proof (induction es arbitrary: m)
  case (Cons a es)
  from Cons.prems have "fold (\<lambda>e m. m(evSequence e \<mapsto> e)) es (m(evSequence a \<mapsto> a)) s = Some e"
    by (simp only: fold_simps)
  from Cons.IH [OF this] show ?case by (auto split: if_splits)
qed simp

lemma selected_event_recorded:
  assumes "selected_event sel (buildEvidenceIndex events) = Some e"
  shows "e \<in> set events \<and> slEventSeq sel = Some (evSequence e)"
proof -
  from assms obtain s where s: "slEventSeq sel = Some s" "exBySequence (buildEvidenceIndex events) s = Some e"
    by (auto simp: selected_event_def split: option.splits)
  have "fold (\<lambda>e m. m(evSequence e \<mapsto> e)) events Map.empty s = Some e"
    using s(2) by (simp add: buildEvidenceIndex_def Let_def)
  from by_sequence_mem [OF this] show ?thesis using s(1) by auto
qed

lemma record_ref_bound:
  assumes "record_ref (Some p) (buildEvidenceIndex events) = Some i"
  shows "i < length (itOrder (build_tables events))
    \<and> nodeKeyForRole (opIdentity (itOrder (build_tables events) ! i)) = nodeKeyForRole p
    \<and> (pvStart p \<noteq> None \<longrightarrow> nodeKeyFor (opIdentity (itOrder (build_tables events) ! i)) = nodeKeyFor p)"
proof (cases "pvStart p")
  case None
  hence "itByRolePid (build_tables events) (nodeKeyForRole p) = [i]"
    using assms by (simp add: record_ref_def sole_Some)
  from built.sole_found(1,2) [OF this] None show ?thesis by simp
next
  case (Some t)
  hence "itByNode (build_tables events) (nodeKeyFor p) = Some i"
    using assms by (simp add: record_ref_def nodeKeyFor_def)
  from built.key_found [OF this] show ?thesis by (simp add: nodeKeyFor_def nodeKeyForRole_def)
qed

lemma cursor_for_identity_recorded:
  assumes "cursorMsForIdentity p (buildEvidenceIndex events) = Some c"
  shows "\<exists>e \<in> set events. c = at_ms (event_base events) e"
proof -
  have x: "exTables (buildEvidenceIndex events) = build_tables events" by (simp add: buildEvidenceIndex_def Let_def)
  from assms obtain i where i: "record_ref (Some p) (buildEvidenceIndex events) = Some i"
    by (auto simp: cursorMsForIdentity_def recordFor_def split: option.splits)
  define r where "r = itOrder (build_tables events) ! i"
  have "r \<in> set (itOrder (build_tables events))" using record_ref_bound [OF i] by (simp add: r_def)
  hence t: "times_ok events (event_base events) r" using build_tables_times by (simp add: all_times_ok_def)
  have "c = opFirstAtMs r \<or> opFirstSampleAtMs r = Some c"
    using assms i by (auto simp: cursorMsForIdentity_def recordFor_def x r_def split: option.splits)
  thus ?thesis using t by (auto simp: times_ok_def recorded_at_def)
qed

text \<open>C32: No selection moves the cursor to a moment the record lacks: the resolved cursor is the reader's own
  or the time of a recorded event, and when an event is selected it is an event of the record with the
  selected number and the cursor is its time.
\<close>
theorem resolved_cursor_is_recorded:
  fixes events :: "canonical_event list" and sel :: evidence_selection
  defines "r \<equiv> resolveSelection sel (buildEvidenceIndex events)"
  shows "(\<forall>c. erCursorMs r = Some c \<longrightarrow>
            slCursorMs sel = Some c \<or> (\<exists>e \<in> set events. c = of_int (at_ms (event_base events) e)))
    \<and> (\<forall>e. erEvent r = Some e \<longrightarrow>
            e \<in> set events \<and> slEventSeq sel = Some (evSequence e)
            \<and> erCursorMs r = Some (of_int (at_ms (event_base events) e)))"
proof -
  let ?x = "buildEvidenceIndex events"
  have o: "exOriginMs ?x = event_base events" by (simp add: buildEvidenceIndex_def Let_def)
  obtain p conf us where p: "chosen_identity sel ?x = (p, conf, us)" by (metis prod_cases3)
  have ev: "erEvent r = selected_event sel ?x" and cur: "erCursorMs r = resolved_cursor sel ?x p"
    by (simp_all add: r_def resolveSelection_def p Let_def split_def)
  show ?thesis
  proof (cases "selected_event sel ?x")
    case (Some e)
    have e: "e \<in> set events" "slEventSeq sel = Some (evSequence e)"
      using selected_event_recorded [OF Some] by simp_all
    have c: "erCursorMs r = Some (of_int (at_ms (event_base events) e))"
      by (simp add: cur resolved_cursor_def Some eventCursorMs_def at_ms_def o)
    show ?thesis using e c Some ev by auto
  next
    case None
    have "slCursorMs sel = Some c \<or> (\<exists>e \<in> set events. c = of_int (at_ms (event_base events) e))"
      if "erCursorMs r = Some c" for c
      using that None cursor_for_identity_recorded
      by (fastforce simp: cur resolved_cursor_def split: option.splits)
    thus ?thesis using ev None by simp
  qed
qed

text \<open>C31: Looking up an identity never crosses processes: the record found has its role and PID, the same
  kernel start time when the identity carries one, and is the only process of that role and PID when it
  carries none.
\<close>
theorem lookup_never_crosses_processes:
  fixes events :: "canonical_event list"
  defines "x \<equiv> buildEvidenceIndex events"
  assumes found: "recordFor (Some p) x = Some r"
  shows "pvRole (opIdentity r) = pvRole p \<and> pvPid (opIdentity r) = pvPid p
    \<and> r \<in> set (itOrder (exTables x))
    \<and> (\<forall>t. pvStart p = Some t \<and> t \<noteq> ''?'' \<longrightarrow> pvStart (opIdentity r) = Some t)
    \<and> (pvStart p = None \<longrightarrow>
         (\<forall>q \<in> set (itOrder (exTables x)). nodeKeyForRole (opIdentity q) = nodeKeyForRole p \<longrightarrow> q = r))"
proof -
  have x: "exTables x = build_tables events" by (simp add: x_def buildEvidenceIndex_def Let_def)
  from found obtain i where i: "record_ref (Some p) x = Some i" and r: "r = itOrder (build_tables events) ! i"
    by (auto simp: recordFor_def x)
  note b = record_ref_bound [OF i [unfolded x_def], folded r]
  have start: "pvStart (opIdentity r) = Some t" if t: "pvStart p = Some t" "t \<noteq> ''?''" for t
  proof -
    have "nodeKeyFor (opIdentity r) = nodeKeyFor p" using b t(1) by simp
    thus ?thesis using t by (auto simp: nodeKeyFor_def split: option.splits)
  qed
  have unique: "q = r" if none: "pvStart p = None" and q: "q \<in> set (itOrder (build_tables events))"
      "nodeKeyForRole (opIdentity q) = nodeKeyForRole p" for q
  proof -
    from q(1) obtain j where j: "j < length (itOrder (build_tables events))" "q = itOrder (build_tables events) ! j"
      by (auto simp: in_set_conv_nth)
    have "itByRolePid (build_tables events) (nodeKeyForRole p) = [i]"
      using i none by (simp add: record_ref_def x sole_Some)
    from built.sole_found(3) [OF this j(1)] show ?thesis using j(2) q(2) r by simp
  qed
  show ?thesis using b start unique by (auto simp: x r nodeKeyForRole_def)
qed

section \<open>A recorded run\<close>

text \<open>A child that starts and is sampled once, with its kernel start time.\<close>

definition started_event :: "int \<Rightarrow> int \<Rightarrow> rat \<Rightarrow> canonical_event" where
  "started_event s t pid =
     \<lparr>evId = [], evSessionId = ''s1'', evSequence = s, evType = Process_started, evSource = Caps,
      evTimestamp = t, evMonotonicMs = None, evPid = Some pid, evPayload = []\<rparr>"

definition metric_of :: "json \<Rightarrow> json" where
  "metric_of v = JObj [(''value'', v), (''provenance'', JStr ''OBSERVED'')]"

definition sampled_event :: "int \<Rightarrow> int \<Rightarrow> rat \<Rightarrow> string \<Rightarrow> canonical_event" where
  "sampled_event s t pid start =
     \<lparr>evId = [], evSessionId = ''s1'', evSequence = s, evType = Process_snapshot, evSource = Gateway,
      evTimestamp = t, evMonotonicMs = None, evPid = Some pid,
      evPayload = [(''pid'', metric_of (JNum pid)), (''startTime'', metric_of (JStr start))]\<rparr>"

definition recorded_run :: "canonical_event list" where
  "recorded_run = [started_event 1 5 7, sampled_event 2 9 7 ''T'']"

definition child_seven :: "string option \<Rightarrow> process_identity_view" where
  "child_seven start = \<lparr>pvSessionId = ''s1'', pvPid = 7, pvStart = start, pvRole = Child\<rparr>"

definition choosing :: "process_identity_view \<Rightarrow> evidence_selection" where
  "choosing p = \<lparr>slSessionId = ''s1'', slCursorMs = None, slIdentity = Some p, slEventSeq = None\<rparr>"

lemma child_seven_simps [simp]:
  "pvSessionId (child_seven s) = ''s1''" "pvPid (child_seven s) = 7" "pvStart (child_seven s) = s"
  "pvRole (child_seven s) = Child"
  by (simp_all add: child_seven_def)

lemma metric_of_num [simp]: "metricValue (Some (metric_of (JNum v))) = Some (JNum v)"
  and metric_of_str [simp]: "metricValue (Some (metric_of (JStr u))) = Some (JStr u)"
  by (simp_all add: metric_of_def metricValue_def UNAVAILABLE_WORD_def field_def)

lemma metricValue_None [simp]: "metricValue None = None"
  by (simp add: metricValue_def)

lemma sampled_readings [simp]:
  "evType (sampled_event s t pid u) = Process_snapshot" "evSessionId (sampled_event s t pid u) = ''s1''"
  "evSequence (sampled_event s t pid u) = s" "evTimestamp (sampled_event s t pid u) = t"
  "evPid (sampled_event s t pid u) = Some pid"
  "metric_num (evPayload (sampled_event s t pid u)) ''capsEnginePid'' = None"
  "metric_num (evPayload (sampled_event s t pid u)) ''pid'' = Some pid"
  "metric_num (evPayload (sampled_event s t pid u)) ''ppid'' = None"
  "metric_str (evPayload (sampled_event s t pid u)) ''command'' = None"
  "metric_str (evPayload (sampled_event s t pid u)) ''startTime'' = Some u"
  "snapshot_subject (sampled_event s t pid u) = Some (Child, pid)"
  by (simp_all add: sampled_event_def metric_num_def metric_str_def field_def snapshot_subject_def)

lemma started_readings [simp]:
  "evType (started_event s t pid) = Process_started" "evSessionId (started_event s t pid) = ''s1''"
  "evSequence (started_event s t pid) = s" "evTimestamp (started_event s t pid) = t"
  "evPid (started_event s t pid) = Some pid" "evPayload (started_event s t pid) = []"
  by (simp_all add: started_event_def)

lemma recorded_run_tables:
  "itByNode (build_tables recorded_run) (Child, 7, ''T'') = Some 0"
  "itByNode (build_tables recorded_run) (Child, 7, ''?'') = None"
  "itByRolePid (build_tables recorded_run) (Child, 7) = [0]"
  "map opIdentity (itOrder (build_tables recorded_run)) = [child_seven (Some ''T'')]"
  "map opFirstSampleAtMs (itOrder (build_tables recorded_run)) = [Some 4]"
  by (simp_all add: build_tables_def recorded_run_def event_base_def touch_started_def touch_process_def register_def
      Let_def empty_tables_def nodeKeyFor_def nodeKeyForRole_def new_record_def touch_engine_def enrich_def
      on_child_def childRecord_def sole_def update_record_def note_label_def field_def enrich_snapshot_def
      eventStartTime_def recordForSnapshot_def promote_def note_sample_def at_ms_def add_start_def child_seven_def)

lemma recorded_run_index:
  "exTables (buildEvidenceIndex recorded_run) = build_tables recorded_run"
  "exSessionId (buildEvidenceIndex recorded_run) = Some ''s1''"
  "exOriginMs (buildEvidenceIndex recorded_run) = 5"
  "itOrder (build_tables recorded_run) \<noteq> []"
  "opIdentity (itOrder (build_tables recorded_run) ! 0) = child_seven (Some ''T'')"
  "opFirstSampleAtMs (itOrder (build_tables recorded_run) ! 0) = Some 4"
proof -
  have l: "length (itOrder (build_tables recorded_run)) = 1"
    using recorded_run_tables(4) by (metis length_Cons length_map list.size(3) One_nat_def)
  thus "itOrder (build_tables recorded_run) \<noteq> []" by auto
  show "opIdentity (itOrder (build_tables recorded_run) ! 0) = child_seven (Some ''T'')"
    using l recorded_run_tables(4) by (cases "itOrder (build_tables recorded_run)") simp_all
  show "opFirstSampleAtMs (itOrder (build_tables recorded_run) ! 0) = Some 4"
    using l recorded_run_tables(5) by (cases "itOrder (build_tables recorded_run)") simp_all
qed (simp_all add: buildEvidenceIndex_def Let_def recorded_run_def event_base_def)

lemma run_references:
  "record_ref (Some (child_seven None)) (buildEvidenceIndex recorded_run) = Some 0"
  "record_ref (Some (child_seven (Some ''T''))) (buildEvidenceIndex recorded_run) = Some 0"
  "record_ref (Some (child_seven (Some ''U''))) (buildEvidenceIndex recorded_run) = None"
proof -
  show "record_ref (Some (child_seven None)) (buildEvidenceIndex recorded_run) = Some 0"
    using recorded_run_tables(3)
    by (simp add: record_ref_def child_seven_def recorded_run_index nodeKeyForRole_def sole_def)
  show "record_ref (Some (child_seven (Some ''T''))) (buildEvidenceIndex recorded_run) = Some 0"
    using recorded_run_tables(1) by (simp add: record_ref_def child_seven_def recorded_run_index)
  have "itByNode (build_tables recorded_run) (Child, 7, ''U'') \<noteq> Some i" for i
    using indexes_ofD(1) [OF build_tables_ok [of recorded_run, unfolded tables_ok_def], of "(Child, 7, ''U'')" i]
      recorded_run_tables(4) by (auto simp: identities_def child_seven_def nodeKeyFor_def)
  hence "itByNode (build_tables recorded_run) (Child, 7, ''U'') = None" by fastforce
  thus "record_ref (Some (child_seven (Some ''U''))) (buildEvidenceIndex recorded_run) = None"
    by (simp add: record_ref_def recorded_run_index)
qed

lemma resolved_cursor_is_recorded_witness:
  "\<exists>e \<in> set recorded_run. (4 :: rat) = of_int (at_ms (event_base recorded_run) e)"
proof -
  have "erCursorMs (resolveSelection (choosing (child_seven None)) (buildEvidenceIndex recorded_run)) = Some 4"
    by (simp add: resolveSelection_def chosen_identity_def selected_event_def explicit_identity_def choosing_def
        resolved_cursor_def cursorMsForIdentity_def recordFor_def run_references
        recorded_run_index Let_def split_def)
  with resolved_cursor_is_recorded [of "choosing (child_seven None)" recorded_run] show ?thesis
    by (simp add: choosing_def)
qed

lemma lookup_never_crosses_processes_witness:
  "pvStart (opIdentity (itOrder (build_tables recorded_run) ! 0)) = Some ''T''"
proof -
  have "recordFor (Some (child_seven (Some ''T''))) (buildEvidenceIndex recorded_run) =
      Some (itOrder (build_tables recorded_run) ! 0)"
    by (simp add: recordFor_def run_references recorded_run_index)
  from lookup_never_crosses_processes [OF this] show ?thesis by (simp add: child_seven_def)
qed

text \<open>A selection made before the kernel start time was known resolves to its process, but under the
  provisional key the index no longer has; and a selection of a process the record does not have is
  reported as not observed and keeps its key all the same.
\<close>
theorem resolved_key_gaps:
  "let x = buildEvidenceIndex recorded_run; r = resolveSelection (choosing (child_seven None)) x;
       q = resolveSelection (choosing (child_seven (Some ''U''))) x in
     erIdentityResolved r \<and> erNodeKey r = Some (Child, 7, ''?'') \<and> itByNode (exTables x) (Child, 7, ''?'') = None
     \<and> \<not> erIdentityResolved q \<and> Not_observed 7 \<in> set (erUnresolved q) \<and> erNodeKey q = Some (Child, 7, ''U'')"
  by (simp add: resolveSelection_def chosen_identity_def selected_event_def explicit_identity_def choosing_def
      indexIdentityOf_def recordFor_def run_references recorded_run_index recorded_run_tables nodeKeyFor_def
      Let_def split_def hierarchy_def)

end
