(* ===== verification/Process_Space.thy ===== *)
theory Process_Space
  imports Evidence_Index "HOL-Library.Product_Lexorder" "HOL-Library.While_Combinator"
begin

text \<open>
  \<^verbatim>\<open>web/frontend/src/lib/processSpace.ts\<close>: the processes of an execution as a scene, and the state of
  each at a cursor.  Times are whole milliseconds, a cursor is rational; a node always has a PID and a
  time of creation, which the code types as nullable and never leaves null.  Texts of limitations and
  of the lens table, colours and the positions in the scene are left out.
\<close>

section \<open>Readers and constants\<close>

datatype lifecycle_state =
    L_PENDING | L_STARTING | L_RUNNING | L_WAITING | L_COMPLETED | L_FAILED | L_SIGNALED
  | L_TIMED_OUT | L_CANCELLED

definition metricNumber :: "json option \<Rightarrow> rat option" where
  "metricNumber m =
     (if member_of m ''provenance'' = Some UNAVAILABLE_WORD then None else as_num (member_of m ''value''))"

definition metricText :: "json option \<Rightarrow> string option" where
  "metricText m =
     (if member_of m ''provenance'' = Some UNAVAILABLE_WORD then None
      else case as_str (member_of m ''value'') of
             Some s \<Rightarrow> if s \<noteq> [] then Some s else None
           | None \<Rightarrow> None)"

definition EXECUTION_TERMINALS :: "event_type list" where
  "EXECUTION_TERMINALS = [Execution_completed, Execution_failed, Execution_timeout]"

section \<open>The ruler\<close>

definition ruler_candidates :: "rat list" where
  "ruler_candidates =
     [250, 500, 1000, 2000, 5000, 10000, 15000, 30000, 60000, 120000, 300000, 600000, 1800000, 3600000]"

definition rulerStep :: "rat \<Rightarrow> rat" where
  "rulerStep spanMs =
     (case find (\<lambda>step. spanMs / step \<le> 8) ruler_candidates of
        Some step \<Rightarrow> step | None \<Rightarrow> last ruler_candidates)"

record space_ruler =
  ruTicksMs :: "int list"
  ruSpanMs :: rat
  ruStepMs :: rat

text \<open>The \<open>for\<close> loop over the ticks: the next time and the ticks pushed so far.\<close>

definition ruler_ticks :: "rat \<Rightarrow> rat \<Rightarrow> (rat \<times> int list) option" where
  "ruler_ticks len step =
     while_option (\<lambda>(t, ticks). t \<le> len + step / 2)
       (\<lambda>(t, ticks). (t + step, ticks @ [\<lfloor>t + 1 / 2\<rfloor>])) (0, [])"

definition buildRuler :: "rat \<Rightarrow> space_ruler option" where
  "buildRuler spanMs =
     (let len = max 1000 spanMs; step = rulerStep len in
      map_option (\<lambda>(t, ticks). \<lparr>ruTicksMs = ticks, ruSpanMs = spanMs, ruStepMs = step\<rparr>)
        (ruler_ticks len step))"

section \<open>Nodes\<close>

record raw_node =
  rnRole :: evidence_role
  rnPid :: rat
  rnLabel :: string
  rnParentPid :: "rat option"
  rnObservedPpid :: "rat option"
  rnCreatedAtMs :: int
  rnCreatedSequence :: int
  rnCommand :: "string option"
  rnImageBefore :: "string option"
  rnImageAfter :: "string option"
  rnExecAtMs :: "int option"
  rnExecSequence :: "int option"
  rnEndedAtMs :: "int option"
  rnEndSequence :: "int option"
  rnStart :: "string option"
  rnTelemetryNote :: bool

type_synonym raw_nodes = "((evidence_role \<times> rat) \<times> raw_node) list"

definition fresh_node :: "evidence_role \<Rightarrow> rat \<Rightarrow> string \<Rightarrow> string option \<Rightarrow> int \<Rightarrow> int \<Rightarrow> bool \<Rightarrow> raw_node" where
  "fresh_node role pid label img created sequence note =
     \<lparr>rnRole = role, rnPid = pid, rnLabel = label, rnParentPid = None, rnObservedPpid = None,
      rnCreatedAtMs = created, rnCreatedSequence = sequence, rnCommand = None, rnImageBefore = img,
      rnImageAfter = None, rnExecAtMs = None, rnExecSequence = None, rnEndedAtMs = None,
      rnEndSequence = None, rnStart = None, rnTelemetryNote = note\<rparr>"

definition start_node :: "int \<Rightarrow> canonical_event \<Rightarrow> raw_nodes \<Rightarrow> raw_nodes" where
  "start_node base e nodes =
     (case evPid e of
        Some pid \<Rightarrow>
          if evType e = Process_started
          then AList.update (Child, pid)
                 (fresh_node Child pid
                    (case as_str (field (evPayload e) ''label'') of Some s \<Rightarrow> s | None \<Rightarrow> ''CAPS child'')
                    (Some ''CAPS child'') (at_ms base e) (evSequence e) False) nodes
          else nodes
      | None \<Rightarrow> nodes)"

definition first_known :: "'a option \<Rightarrow> 'a option \<Rightarrow> 'a option" where
  "first_known a b = (case a of None \<Rightarrow> b | Some x \<Rightarrow> Some x)"

definition engine_step :: "canonical_event \<Rightarrow> rat option \<Rightarrow> rat option" where
  "engine_step e engine =
     (if evType e = Process_snapshot
      then first_known (metricNumber (field (evPayload e) ''capsEnginePid'')) engine else engine)"

definition engine_pid :: "canonical_event list \<Rightarrow> rat option" where
  "engine_pid events = fold engine_step events None"

definition snapshots_of :: "canonical_event list \<Rightarrow> rat \<Rightarrow> canonical_event list" where
  "snapshots_of events pid =
     filter (\<lambda>e. evType e = Process_snapshot \<and> metricNumber (field (evPayload e) ''pid'') = Some pid) events"

definition observe_snapshot :: "int \<Rightarrow> canonical_event \<Rightarrow> raw_node \<Rightarrow> raw_node" where
  "observe_snapshot base e n =
     (let p = evPayload e;
          n1 = n\<lparr>rnObservedPpid := first_known (metricNumber (field p ''ppid'')) (rnObservedPpid n),
                 rnStart := first_known (metricText (field p ''startTime'')) (rnStart n)\<rparr> in
      case metricText (field p ''command'') of
        Some c \<Rightarrow>
          if rnImageAfter n1 = None
          then n1\<lparr>rnImageAfter := Some c, rnCommand := Some c, rnExecAtMs := Some (at_ms base e),
                  rnExecSequence := Some (evSequence e)\<rparr>
          else n1
      | None \<Rightarrow> n1)"

definition observe_nodes :: "canonical_event list \<Rightarrow> int \<Rightarrow> raw_nodes \<Rightarrow> raw_nodes" where
  "observe_nodes events base nodes =
     map (\<lambda>(k, n). (k, fold (observe_snapshot base) (snapshots_of events (rnPid n)) n)) nodes"

definition add_engine :: "canonical_event list \<Rightarrow> int \<Rightarrow> raw_nodes \<Rightarrow> raw_nodes" where
  "add_engine events base nodes =
     (case engine_pid events of
        None \<Rightarrow> nodes
      | Some pid \<Rightarrow>
          (let start = find (\<lambda>e. evType e = Execution_started \<or> evType e = Execution_created) events in
           AList.update (Caps_engine, pid)
             (fresh_node Caps_engine pid ''CAPS engine'' None
                (case start of None \<Rightarrow> 0 | Some e \<Rightarrow> at_ms base e)
                (case start of None \<Rightarrow> 0 | Some e \<Rightarrow> evSequence e) True) nodes))"

definition end_event :: "canonical_event list \<Rightarrow> rat \<Rightarrow> canonical_event option" where
  "end_event events pid = find (\<lambda>e. evType e \<in> set END_TYPES \<and> evPid e = Some pid) events"

definition finish_node :: "canonical_event list \<Rightarrow> int \<Rightarrow> raw_node \<Rightarrow> raw_node" where
  "finish_node events base n =
     (if rnRole n \<noteq> Child then n
      else
        (let n1 = (case end_event events (rnPid n) of
                     None \<Rightarrow> n
                   | Some e \<Rightarrow> n\<lparr>rnEndedAtMs := Some (at_ms base e), rnEndSequence := Some (evSequence e)\<rparr>) in
         if engine_pid events \<noteq> None \<and> rnObservedPpid n1 \<noteq> None
         then n1\<lparr>rnParentPid := (if rnObservedPpid n1 = engine_pid events then engine_pid events else None)\<rparr>
         else n1))"

definition collectRawNodes :: "canonical_event list \<Rightarrow> int \<Rightarrow> raw_node list" where
  "collectRawNodes events base =
     map (finish_node events base \<circ> snd)
       (add_engine events base (observe_nodes events base (fold (start_node base) events [])))"

record space_node =
  snKey :: node_key
  snIdentity :: process_identity_view
  snRole :: evidence_role
  snPid :: rat
  snLabel :: string
  snCommand :: "string option"
  snImageBefore :: "string option"
  snImageAfter :: "string option"
  snExecAtMs :: "int option"
  snExecSequence :: "int option"
  snParentVerified :: bool
  snParentKey :: "node_key option"
  snParentPid :: "rat option"
  snDepth :: nat
  snSlot :: nat
  snCreatedAtMs :: int
  snEndedAtMs :: "int option"
  snCreatedSequence :: int
  snTelemetryNote :: bool

text \<open>The key of a node after \<^verbatim>\<open>rekeyNodes\<close>.\<close>

definition raw_identity :: "string \<Rightarrow> raw_node \<Rightarrow> process_identity_view" where
  "raw_identity sid n = \<lparr>pvSessionId = sid, pvPid = rnPid n, pvStart = rnStart n, pvRole = rnRole n\<rparr>"

definition rekeyNodes :: "raw_node \<Rightarrow> node_key" where
  "rekeyNodes n = nodeKeyFor (raw_identity [] n)"

definition by_creation :: "raw_node \<Rightarrow> int \<times> int \<times> rat" where
  "by_creation n = (rnCreatedAtMs n, rnCreatedSequence n, rnPid n)"

definition space_node_of :: "string \<Rightarrow> nat \<Rightarrow> raw_node \<Rightarrow> raw_node option \<Rightarrow> space_node" where
  "space_node_of sid slot n parent =
     \<lparr>snKey = rekeyNodes n, snIdentity = raw_identity sid n, snRole = rnRole n, snPid = rnPid n,
      snLabel = rnLabel n, snCommand = rnCommand n, snImageBefore = rnImageBefore n,
      snImageAfter = rnImageAfter n, snExecAtMs = rnExecAtMs n, snExecSequence = rnExecSequence n,
      snParentVerified = (parent \<noteq> None), snParentKey = map_option rekeyNodes parent,
      snParentPid = map_option rnPid parent, snDepth = (if parent \<noteq> None then 1 else 0), snSlot = slot,
      snCreatedAtMs = rnCreatedAtMs n, snEndedAtMs = rnEndedAtMs n,
      snCreatedSequence = rnCreatedSequence n, snTelemetryNote = rnTelemetryNote n\<rparr>"

definition orderNodes :: "raw_node list \<Rightarrow> string \<Rightarrow> space_node list" where
  "orderNodes raw sid =
     (let engine = sort_key by_creation (filter (\<lambda>n. rnRole n = Caps_engine) raw);
          children = sort_key by_creation (filter (\<lambda>n. rnRole n = Child) raw) in
      map (\<lambda>(slot, n). space_node_of sid slot n None) (zip [0..<length engine] engine)
      @ map (\<lambda>(slot, n). space_node_of sid slot n (find (\<lambda>c. Some (rnPid c) = rnParentPid n) engine))
          (zip [0..<length children] children))"

section \<open>Markers and edges\<close>

datatype marker_kind = Mk_lifecycle | Mk_signal | Mk_exec | Mk_execution

datatype marker_tone = Mt_cyan | Mt_green | Mt_amber | Mt_red

datatype marker_detail = Detail_text string | Exit_code rat | Signal_number rat

record space_marker =
  smId :: string
  smKind :: marker_kind
  smType :: event_type
  smTone :: marker_tone
  smAtMs :: int
  smSequence :: int
  smNodeKey :: "node_key option"
  smPid :: "rat option"
  smSignal :: "rat option"
  smDetail :: "marker_detail option"

definition MARKER_TONES :: "(event_type \<times> marker_tone) list" where
  "MARKER_TONES =
     [(Execution_created, Mt_cyan), (Execution_started, Mt_cyan), (Process_started, Mt_cyan),
      (Redirection_opened, Mt_cyan), (Redirection_failed, Mt_amber), (Signal_received, Mt_amber),
      (Process_exited, Mt_green), (Process_exec_error, Mt_red), (Execution_completed, Mt_green),
      (Execution_failed, Mt_red), (Execution_timeout, Mt_amber)]"

definition markerKind :: "event_type \<Rightarrow> marker_kind" where
  "markerKind t =
     (if t = Signal_received then Mk_signal
      else if t = Process_started then Mk_exec
      else if t \<in> {Execution_created, Execution_started, Execution_completed, Execution_failed,
                   Execution_timeout, Execution_cancelled} then Mk_execution
      else Mk_lifecycle)"

definition markerDetail :: "canonical_event \<Rightarrow> marker_detail option" where
  "markerDetail e =
     (let p = evPayload e in
      if evType e = Process_exited
      then Some (case as_num (field p ''exitCode'') of
                   None \<Rightarrow> Detail_text ''process exited'' | Some c \<Rightarrow> Exit_code c)
      else if evType e = Signal_received
      then Some (case as_num (field p ''signal'') of
                   None \<Rightarrow> Detail_text ''signal received'' | Some s \<Rightarrow> Signal_number s)
      else if evType e = Process_exec_error
      then Some (Detail_text (case as_str (field p ''message'') of
                   None \<Rightarrow> ''execvp() reported an error'' | Some m \<Rightarrow> m))
      else if evType e = Process_started
      then Some (Detail_text (case as_str (field p ''label'') of
                   None \<Rightarrow> ''child process created by fork()'' | Some l \<Rightarrow> l))
      else None)"

text \<open>Of several nodes with one PID the last is taken.\<close>

definition node_by_pid :: "space_node list \<Rightarrow> rat \<Rightarrow> space_node option" where
  "node_by_pid nodes pid = find (\<lambda>n. snPid n = pid) (rev nodes)"

definition marker_of :: "int \<Rightarrow> space_node list \<Rightarrow> canonical_event \<Rightarrow> space_marker option" where
  "marker_of base nodes e =
     (case map_of MARKER_TONES (evType e) of
        None \<Rightarrow> None
      | Some tone \<Rightarrow>
          Some \<lparr>smId = evId e, smKind = markerKind (evType e), smType = evType e, smTone = tone,
                smAtMs = at_ms base e, smSequence = evSequence e,
                smNodeKey = (case evPid e of None \<Rightarrow> None | Some pid \<Rightarrow> map_option snKey (node_by_pid nodes pid)),
                smPid = evPid e,
                smSignal = (if evType e = Signal_received then as_num (field (evPayload e) ''signal'') else None),
                smDetail = markerDetail e\<rparr>)"

definition buildMarkers :: "canonical_event list \<Rightarrow> int \<Rightarrow> space_node list \<Rightarrow> space_marker list" where
  "buildMarkers events base nodes = List.map_filter (marker_of base nodes) events"

record space_edge =
  seFromKey :: node_key
  seToKey :: node_key
  seFromPid :: "rat option"
  seToPid :: rat
  seCreatedAtMs :: int

definition edge_of :: "space_node \<Rightarrow> space_edge option" where
  "edge_of n =
     (case snParentKey n of
        Some k \<Rightarrow>
          if snParentVerified n
          then Some \<lparr>seFromKey = k, seToKey = snKey n, seFromPid = snParentPid n, seToPid = snPid n,
                     seCreatedAtMs = snCreatedAtMs n\<rparr>
          else None
      | None \<Rightarrow> None)"

definition visual_index_step :: "visual_state \<Rightarrow> (rat \<Rightarrow> visual_state list) \<Rightarrow> rat \<Rightarrow> visual_state list" where
  "visual_index_step v m = (case vsPid v of None \<Rightarrow> m | Some pid \<Rightarrow> m(pid := m pid @ [v]))"

definition buildVisualStateIndex :: "telemetry_sample list \<Rightarrow> rat \<Rightarrow> visual_state list" where
  "buildVisualStateIndex samples =
     fold visual_index_step (map (\<lambda>s. buildVisualState s (visualStatePeaks samples)) samples) (\<lambda>_. [])"

section \<open>The space\<close>

record space_terminal =
  stType :: event_type
  stState :: lifecycle_state
  stAtMs :: int

record process_space =
  psSessionId :: "string option"
  psNodes :: "space_node list"
  psEdges :: "space_edge list"
  psMarkers :: "space_marker list"
  psTerminalMarker :: "node_key \<Rightarrow> space_marker option"
  psSignal :: "node_key \<Rightarrow> (rat \<times> int) option"
  psRuler :: "space_ruler option"
  psSpanMs :: int
  psTerminal :: "space_terminal option"
  psVisualStates :: "rat \<Rightarrow> visual_state list"
  psSampleTimesMs :: "int list"

definition terminal_state :: "event_type \<Rightarrow> lifecycle_state" where
  "terminal_state t =
     (if t = Execution_completed then L_COMPLETED else if t = Execution_failed then L_FAILED else L_TIMED_OUT)"

definition space_terminal_of :: "canonical_event list \<Rightarrow> int \<Rightarrow> space_terminal option" where
  "space_terminal_of events base =
     map_option (\<lambda>e. \<lparr>stType = evType e, stState = terminal_state (evType e), stAtMs = at_ms base e\<rparr>)
       (find (\<lambda>e. evType e \<in> set EXECUTION_TERMINALS) (rev events))"

definition end_engine :: "space_terminal option \<Rightarrow> space_node \<Rightarrow> space_node" where
  "end_engine terminal n =
     (case terminal of
        None \<Rightarrow> n
      | Some t \<Rightarrow> if snRole n = Caps_engine \<and> snEndedAtMs n = None then n\<lparr>snEndedAtMs := Some (stAtMs t)\<rparr> else n)"

definition terminal_marker_step ::
    "space_marker \<Rightarrow> (node_key \<Rightarrow> space_marker option) \<Rightarrow> node_key \<Rightarrow> space_marker option" where
  "terminal_marker_step m f =
     (case smNodeKey m of
        None \<Rightarrow> f
      | Some k \<Rightarrow> if smType m = Process_exited \<or> smType m = Process_exec_error then f(k \<mapsto> m) else f)"

definition signal_step ::
    "space_marker \<Rightarrow> (node_key \<Rightarrow> (rat \<times> int) option) \<Rightarrow> node_key \<Rightarrow> (rat \<times> int) option" where
  "signal_step m f =
     (case (smNodeKey m, smSignal m) of
        (Some k, Some s) \<Rightarrow>
          if smType m = Signal_received \<and> f k = None then f(k \<mapsto> (s, smSequence m)) else f
      | _ \<Rightarrow> f)"

definition space_nodes :: "canonical_event list \<Rightarrow> space_node list" where
  "space_nodes events =
     (let base = event_base events in
      map (end_engine (space_terminal_of events base))
        (orderNodes (collectRawNodes events base)
           (case events of [] \<Rightarrow> ''unknown-session'' | e # _ \<Rightarrow> evSessionId e)))"

definition buildProcessSpace :: "canonical_event list \<Rightarrow> process_space" where
  "buildProcessSpace events =
     (let base = event_base events; samples = collectSamples events; nodes = space_nodes events;
          lastAtMs = (if events = [] then 0 else at_ms base (last events));
          spanMs = max lastAtMs (if samples = [] then 0 else tsAtMs (last samples));
          markers = buildMarkers events base nodes in
      \<lparr>psSessionId = (case events of [] \<Rightarrow> None | e # _ \<Rightarrow> Some (evSessionId e)),
       psNodes = nodes,
       psEdges = List.map_filter edge_of nodes,
       psMarkers = markers,
       psTerminalMarker = fold terminal_marker_step markers Map.empty,
       psSignal = fold signal_step markers Map.empty,
       psRuler = buildRuler (of_int spanMs),
       psSpanMs = spanMs,
       psTerminal = space_terminal_of events base,
       psVisualStates = buildVisualStateIndex samples,
       psSampleTimesMs = sort (remdups (map tsAtMs samples))\<rparr>)"

section \<open>The state at a cursor\<close>

record node_state =
  nsNode :: space_node
  nsPresent :: bool
  nsState :: lifecycle_state
  nsVisual :: "visual_state option"
  nsAgeMs :: "rat option"
  nsTerminal :: bool

text \<open>The loop that stops at the first state after the cursor.\<close>

fun visual_at :: "rat \<Rightarrow> visual_state list \<Rightarrow> visual_state option \<Rightarrow> visual_state option" where
  "visual_at c [] found = found"
| "visual_at c (v # vs) found = (if of_int (vsAtMs v) \<le> c then visual_at c vs (Some v) else found)"

definition ended_state :: "process_space \<Rightarrow> space_node \<Rightarrow> lifecycle_state" where
  "ended_state space n =
     (let mt = map_option smType (psTerminalMarker space (snKey n));
          verdict = map_option stState (psTerminal space) in
      if mt = Some Process_exec_error \<or> mt = Some Process_wait_failed then L_FAILED
      else if psSignal space (snKey n) \<noteq> None then L_SIGNALED
      else if verdict = Some L_TIMED_OUT then L_TIMED_OUT
      else if verdict = Some L_FAILED then L_FAILED
      else L_COMPLETED)"

definition nodeStateAt :: "process_space \<Rightarrow> rat option \<Rightarrow> space_node \<Rightarrow> node_state" where
  "nodeStateAt space cursor n =
     (let c = (case cursor of None \<Rightarrow> of_int (psSpanMs space) | Some x \<Rightarrow> x) in
      if c < of_int (snCreatedAtMs n)
      then \<lparr>nsNode = n, nsPresent = False, nsState = L_PENDING, nsVisual = None, nsAgeMs = None, nsTerminal = False\<rparr>
      else
        (let visual = visual_at c (psVisualStates space (snPid n)) None;
             exited = (case snEndedAtMs n of None \<Rightarrow> False | Some e \<Rightarrow> of_int e \<le> c) in
         \<lparr>nsNode = n, nsPresent = True,
          nsState = (if exited then ended_state space n
                     else if snRole n = Child \<and> visual = None then L_STARTING
                     else if \<not> exited then L_RUNNING else L_WAITING),
          nsVisual = visual,
          nsAgeMs = map_option (\<lambda>v. max 0 (c - of_int (vsAtMs v))) visual,
          nsTerminal = exited\<rparr>))"

definition spaceAt :: "process_space \<Rightarrow> rat option \<Rightarrow> node_state list" where
  "spaceAt space cursor = map (nodeStateAt space cursor) (psNodes space)"

section \<open>Lenses and sizes\<close>

datatype metric_mode = Mode_normal | Mode_cpu | Mode_memory | Mode_io | Mode_faults

datatype lens_metric = Lens_rss | Lens_cpu | Lens_io | Lens_faults

fun lens_metric_of :: "metric_mode \<Rightarrow> lens_metric" where
  "lens_metric_of Mode_normal = Lens_rss"
| "lens_metric_of Mode_cpu = Lens_cpu"
| "lens_metric_of Mode_memory = Lens_rss"
| "lens_metric_of Mode_io = Lens_io"
| "lens_metric_of Mode_faults = Lens_faults"

definition lensValue :: "node_state \<Rightarrow> metric_mode \<Rightarrow> rat option" where
  "lensValue st mode =
     (case nsVisual st of
        None \<Rightarrow> None
      | Some v \<Rightarrow> (case lens_metric_of mode of
                     Lens_rss \<Rightarrow> vsMemory v | Lens_cpu \<Rightarrow> vsCpu v | Lens_io \<Rightarrow> vsIo v | Lens_faults \<Rightarrow> vsFaults v))"

definition raw_of :: "visual_state \<Rightarrow> string \<Rightarrow> raw_metric" where
  "raw_of v k = (case map_of (vsRaw v) k of Some m \<Rightarrow> m | None \<Rightarrow> rawMetric None None)"

definition raw_number :: "raw_metric \<Rightarrow> rat option" where
  "raw_number m = as_num (rmValue m)"

definition unavailable_raw :: "json option \<Rightarrow> raw_metric" where
  "unavailable_raw reason =
     \<lparr>rmValue = Some JNull, rmProvenance = UNAVAILABLE_WORD, rmReason = reason, rmSource = None,
      rmFormula = None, rmConfidence = None, rmUnitNote = None\<rparr>"

definition higher_raw :: "raw_metric \<Rightarrow> raw_metric \<Rightarrow> raw_metric" where
  "higher_raw m best = (if or_zero (raw_number m) > or_zero (raw_number best) then m else best)"

definition lens_io_metric :: "visual_state \<Rightarrow> raw_metric" where
  "lens_io_metric v =
     (case filter (\<lambda>m. rmValue m \<noteq> Some JNull)
             (map (raw_of v) [''rcharBytesPerSec'', ''wcharBytesPerSec'', ''readBytesPerSec'', ''writeBytesPerSec'']) of
        [] \<Rightarrow> unavailable_raw (Some (JStr ''no I/O rate counter was recorded for this sample''))
      | m # ms \<Rightarrow>
          (let winner = fold higher_raw ms m in
           winner\<lparr>rmUnitNote := map_option
             (\<lambda>note. ''lens shows the largest of four counters; this one '' @ note) (rmUnitNote winner)\<rparr>))"

definition fault_metric :: "visual_state \<Rightarrow> raw_metric" where
  "fault_metric v =
     (let minor = raw_of v ''minorFaultsPerSec''; major = raw_of v ''majorFaultsPerSec'' in
      if rmValue minor = Some JNull \<and> rmValue major = Some JNull
      then unavailable_raw (Some (case first_known (rmReason minor) (rmReason major) of
             Some r \<Rightarrow> r | None \<Rightarrow> JStr ''no per-second fault rate was recorded for this sample''))
      else if or_zero (raw_number minor) \<ge> or_zero (raw_number major) then minor else major)"

definition lensRawMetric :: "node_state \<Rightarrow> metric_mode \<Rightarrow> raw_metric option" where
  "lensRawMetric st mode =
     (case nsVisual st of
        None \<Rightarrow> None
      | Some v \<Rightarrow> Some (case lens_metric_of mode of
                          Lens_rss \<Rightarrow> raw_of v ''rssBytes''
                        | Lens_cpu \<Rightarrow> raw_of v ''cpuPercent''
                        | Lens_io \<Rightarrow> lens_io_metric v
                        | Lens_faults \<Rightarrow> fault_metric v))"

definition lensRawValue :: "node_state \<Rightarrow> metric_mode \<Rightarrow> rat option" where
  "lensRawValue st mode = (case lensRawMetric st mode of None \<Rightarrow> None | Some m \<Rightarrow> raw_number m)"

definition RADIUS_MIN :: real where "RADIUS_MIN = 1 / 2"
definition RADIUS_MAX :: real where "RADIUS_MAX = 19 / 10"

text \<open>\<^verbatim>\<open>Math.log1p\<close> of mebibytes, relative to 4 GiB.\<close>

definition LOG_REFERENCE :: real where
  "LOG_REFERENCE = ln (1 + 4096)"

definition clamp_radius :: "real \<Rightarrow> real" where
  "clamp_radius x = min RADIUS_MAX (max RADIUS_MIN x)"

definition nodeRadius :: "rat option \<Rightarrow> real" where
  "nodeRadius rss =
     (case rss of
        None \<Rightarrow> RADIUS_MIN
      | Some b \<Rightarrow>
          if b \<le> 0 then RADIUS_MIN
          else
            (let ratio = ln (1 + of_rat b / 1048576) / LOG_REFERENCE in
             clamp_radius (RADIUS_MIN + (RADIUS_MAX - RADIUS_MIN) * min 1 (max 0 ratio))))"

definition observed_number :: "node_state \<Rightarrow> string \<Rightarrow> rat option" where
  "observed_number st k = (case nsVisual st of None \<Rightarrow> None | Some v \<Rightarrow> raw_number (raw_of v k))"

definition radiusForMode :: "node_state \<Rightarrow> metric_mode \<Rightarrow> real" where
  "radiusForMode st mode =
     (if snRole (nsNode st) = Caps_engine then RADIUS_MIN
      else if mode = Mode_cpu
      then (case observed_number st ''cpuPercent'' of
              None \<Rightarrow> RADIUS_MIN
            | Some cpu \<Rightarrow> clamp_radius (RADIUS_MIN + min 1 (of_rat cpu / 100) * (RADIUS_MAX - RADIUS_MIN)))
      else if mode = Mode_memory \<or> mode = Mode_normal then nodeRadius (observed_number st ''rssBytes'')
      else (case lensValue st mode of
              None \<Rightarrow> RADIUS_MIN
            | Some v \<Rightarrow> clamp_radius (RADIUS_MIN + of_rat v * (RADIUS_MAX - RADIUS_MIN))))"

definition lensIntensity :: "node_state \<Rightarrow> metric_mode \<Rightarrow> rat" where
  "lensIntensity st mode = (if nsTerminal st then 0 else or_zero (lensValue st mode))"

definition cpuIntensity :: "node_state \<Rightarrow> rat" where
  "cpuIntensity st =
     (case observed_number st ''cpuPercent'' of
        None \<Rightarrow> 0
      | Some cpu \<Rightarrow> if nsTerminal st then 0 else min 1 (max 0 (cpu / 100)))"

text \<open>The states of the legend, in the order of the palette.\<close>

definition spaceStateLegend :: "lifecycle_state list" where
  "spaceStateLegend =
     [L_PENDING, L_STARTING, L_RUNNING, L_WAITING, L_COMPLETED, L_FAILED, L_SIGNALED, L_TIMED_OUT, L_CANCELLED]"

definition timeScale :: "rat \<Rightarrow> rat" where
  "timeScale spanMs = (if spanMs \<le> 0 then 16 / 100 else 26 / spanMs)"

definition nodePosition :: "space_node \<Rightarrow> rat \<Rightarrow> rat \<times> rat \<times> rat" where
  "nodePosition n scale =
     (of_nat (snSlot n) * (32 / 10), - (of_nat (snDepth n) * (26 / 10)), of_int (snCreatedAtMs n) * scale)"

definition nodeEndZ :: "space_node \<Rightarrow> rat \<Rightarrow> rat \<Rightarrow> rat" where
  "nodeEndZ n scale spanMs =
     (case snEndedAtMs n of
        Some t \<Rightarrow> of_int t * scale | None \<Rightarrow> max spanMs (of_int (snCreatedAtMs n)) * scale)"

section \<open>The ruler ends\<close>

definition tick_count :: "rat \<Rightarrow> rat \<Rightarrow> nat" where
  "tick_count len step = nat \<lfloor>len / step + 1 / 2\<rfloor> + 1"

lemma tick_condition:
  assumes "0 < step" "0 \<le> len"
  shows "of_nat k * step \<le> len + step / 2 \<longleftrightarrow> k < tick_count len step"
proof -
  have "of_nat k * step \<le> len + step / 2 \<longleftrightarrow> of_nat k \<le> len / step + 1 / 2"
    using assms(1) by (simp add: field_simps)
  also have "\<dots> \<longleftrightarrow> int k \<le> \<lfloor>len / step + 1 / 2\<rfloor>" by (simp add: le_floor_iff)
  also have "\<dots> \<longleftrightarrow> k < tick_count len step"
  proof -
    have "0 \<le> len / step" using assms by simp
    hence "0 \<le> \<lfloor>len / step + 1 / 2\<rfloor>" by linarith
    thus ?thesis by (simp add: tick_count_def) linarith
  qed
  finally show ?thesis .
qed

lemma ruler_run:
  assumes "0 < step" "0 \<le> len" "k \<le> tick_count len step"
  shows "while_option (\<lambda>(t, ticks). t \<le> len + step / 2)
           (\<lambda>(t, ticks). (t + step, ticks @ [\<lfloor>t + 1 / 2\<rfloor>]))
           (of_nat k * step, map (\<lambda>i. \<lfloor>of_nat i * step + 1 / 2\<rfloor>) [0..<k]) =
         Some (of_nat (tick_count len step) * step,
               map (\<lambda>i. \<lfloor>of_nat i * step + 1 / 2\<rfloor>) [0..<tick_count len step])"
  using assms(3)
proof (induction rule: inc_induct)
  case base
  show ?case
    by (subst while_option_unfold) (simp add: tick_condition [OF assms(1,2)])
next
  case (step k)
  have "of_nat (Suc k) * step = of_nat k * step + step" for step :: rat by (simp add: algebra_simps)
  thus ?case using step.IH step.hyps
    by (subst while_option_unfold) (simp add: tick_condition [OF assms(1,2)] add.commute)
qed

lemma ruler_ticks_result:
  assumes "0 < step" "0 \<le> len"
  shows "ruler_ticks len step = Some (of_nat (tick_count len step) * step,
           map (\<lambda>i. \<lfloor>of_nat i * step + 1 / 2\<rfloor>) [0..<tick_count len step])"
  using ruler_run [OF assms, of 0] by (simp add: ruler_ticks_def)

lemma rulerStep_positive: "0 < rulerStep len"
  by (simp add: rulerStep_def ruler_candidates_def)

lemma rulerStep_ratio:
  assumes "1000 \<le> len" "len \<le> 28800000"
  shows "len / rulerStep len \<le> 8 \<and> 5 / 2 < len / rulerStep len"
  using assms by (simp add: rulerStep_def ruler_candidates_def)

lemma tick_count_bounds:
  assumes "1000 \<le> len" "len \<le> 28800000"
  shows "4 \<le> tick_count len (rulerStep len) \<and> tick_count len (rulerStep len) \<le> 9"
proof -
  define x where "x = len / rulerStep len + 1 / 2"
  have "3 \<le> x" "x < 9" using rulerStep_ratio [OF assms] unfolding x_def by linarith+
  hence "3 \<le> \<lfloor>x\<rfloor>" "\<lfloor>x\<rfloor> \<le> 8" by linarith+
  thus ?thesis by (simp add: tick_count_def x_def [symmetric]) linarith
qed

text \<open>C38: The loop over the ruler's ticks ends for every span.  The ticks are the multiples of the step
  from zero, they reach the end of the span to within half a step, and up to eight hours there are between
  four and nine of them.\<close>
theorem ruler_terminates:
  fixes spanMs :: rat
  shows "\<exists>r. buildRuler spanMs = Some r \<and> 0 < ruStepMs r
     \<and> ruTicksMs r = map (\<lambda>i. \<lfloor>of_nat i * ruStepMs r + 1 / 2\<rfloor>) [0..<length (ruTicksMs r)]
     \<and> max 1000 spanMs - ruStepMs r / 2 < of_nat (length (ruTicksMs r)) * ruStepMs r
     \<and> (of_nat (length (ruTicksMs r)) - 1) * ruStepMs r \<le> max 1000 spanMs + ruStepMs r / 2
     \<and> (spanMs \<le> 28800000 \<longrightarrow> 4 \<le> length (ruTicksMs r) \<and> length (ruTicksMs r) \<le> 9)"
proof -
  define len where "len = max 1000 spanMs"
  define n where "n = tick_count len (rulerStep len)"
  have pos: "0 < rulerStep len" "0 \<le> len" using rulerStep_positive by (simp_all add: len_def)
  define r where "r = \<lparr>ruTicksMs = map (\<lambda>i. \<lfloor>of_nat i * rulerStep len + 1 / 2\<rfloor>) [0..<n],
      ruSpanMs = spanMs, ruStepMs = rulerStep len\<rparr>"
  have b: "buildRuler spanMs = Some r"
    unfolding buildRuler_def Let_def len_def [symmetric]
    by (simp add: ruler_ticks_result [OF pos] n_def r_def)
  have l: "length (ruTicksMs r) = n" "ruStepMs r = rulerStep len" by (simp_all add: r_def)
  have over: "\<not> of_nat n * rulerStep len \<le> len + rulerStep len / 2"
    using tick_condition [OF pos, of n] by (simp add: n_def)
  have "0 < n" by (simp add: n_def tick_count_def)
  hence "of_nat (n - 1) * rulerStep len \<le> len + rulerStep len / 2"
    using tick_condition [OF pos, of "n - 1"] by (simp add: n_def)
  hence under: "(of_nat n - 1) * rulerStep len \<le> len + rulerStep len / 2"
    using \<open>0 < n\<close> by (simp add: of_nat_diff)
  have count: "spanMs \<le> 28800000 \<longrightarrow> 4 \<le> n \<and> n \<le> 9"
    using tick_count_bounds [of len] by (simp add: n_def len_def)
  show ?thesis unfolding len_def [symmetric]
    using b l over under count pos(1) by (intro exI [of _ r]) (simp add: r_def)
qed

lemma ruler_terminates_witness:
  "\<exists>r. buildRuler 90000 = Some r \<and> 4 \<le> length (ruTicksMs r) \<and> length (ruTicksMs r) \<le> 9"
  using ruler_terminates [of 90000] by auto

section \<open>Sizes are bounded and follow the memory\<close>

lemma clamp_bounds: "RADIUS_MIN \<le> clamp_radius x" "clamp_radius x \<le> RADIUS_MAX"
  by (simp_all add: clamp_radius_def RADIUS_MIN_def RADIUS_MAX_def)

lemma clamp_mono: "x \<le> y \<Longrightarrow> clamp_radius x \<le> clamp_radius y"
  by (auto simp: clamp_radius_def)

lemma radius_limits: "RADIUS_MIN \<le> RADIUS_MAX"
  by (simp add: RADIUS_MIN_def RADIUS_MAX_def)

lemma nodeRadius_bounds: "RADIUS_MIN \<le> nodeRadius rss \<and> nodeRadius rss \<le> RADIUS_MAX"
  using clamp_bounds radius_limits by (simp add: nodeRadius_def Let_def split: option.splits)

lemma nodeRadius_mono:
  assumes "a \<le> b"
  shows "nodeRadius (Some a) \<le> nodeRadius (Some b)"
proof (cases "a \<le> 0")
  case True
  thus ?thesis using nodeRadius_bounds [of "Some b"] by (simp add: nodeRadius_def)
next
  case False
  have "(of_rat a :: real) \<le> of_rat b" using assms by (simp add: of_rat_less_eq)
  moreover have "0 < (of_rat a :: real)" using False by simp
  ultimately have "0 < 1 + of_rat a / (1048576 :: real)" "0 < 1 + of_rat b / (1048576 :: real)"
    "1 + of_rat a / (1048576 :: real) \<le> 1 + of_rat b / 1048576"
    by linarith+
  hence "ln (1 + of_rat a / 1048576) \<le> ln (1 + of_rat b / 1048576 :: real)"
    by (simp only: ln_le_cancel_iff)
  moreover have "0 < LOG_REFERENCE" by (simp add: LOG_REFERENCE_def)
  ultimately have "ln (1 + of_rat a / 1048576) / LOG_REFERENCE \<le> ln (1 + of_rat b / 1048576) / LOG_REFERENCE"
    by (simp add: divide_right_mono)
  hence "min 1 (max 0 (ln (1 + of_rat a / 1048576) / LOG_REFERENCE))
      \<le> min 1 (max 0 (ln (1 + of_rat b / 1048576) / LOG_REFERENCE))" by linarith
  hence "(RADIUS_MAX - RADIUS_MIN) * min 1 (max 0 (ln (1 + of_rat a / 1048576) / LOG_REFERENCE))
      \<le> (RADIUS_MAX - RADIUS_MIN) * min 1 (max 0 (ln (1 + of_rat b / 1048576) / LOG_REFERENCE))"
    by (rule mult_left_mono) (use radius_limits in simp)
  thus ?thesis using False assms by (simp add: nodeRadius_def Let_def clamp_mono)
qed

lemma nodeRadius_top: "4294967296 \<le> b \<Longrightarrow> nodeRadius (Some b) = RADIUS_MAX"
proof -
  assume b: "4294967296 \<le> b"
  have "nodeRadius (Some 4294967296) = RADIUS_MAX"
  proof -
    have "(of_rat 4294967296 :: real) / 1048576 = 4096" by simp
    hence "ln (1 + of_rat 4294967296 / 1048576) / LOG_REFERENCE = 1" by (simp add: LOG_REFERENCE_def)
    thus ?thesis using radius_limits by (simp add: nodeRadius_def Let_def clamp_radius_def)
  qed
  thus ?thesis using nodeRadius_mono [OF b] nodeRadius_bounds [of "Some b"] by simp
qed

text \<open>Whatever the lens, the radius of a node stays between the smallest and the largest; without a
  recorded value it is the smallest; under the memory lens it grows with the resident memory and is the
  largest from 4 GiB on.\<close>
theorem node_radius_bounded_monotone:
  "RADIUS_MIN \<le> radiusForMode st mode \<and> radiusForMode st mode \<le> RADIUS_MAX
   \<and> (nsVisual st = None \<longrightarrow> radiusForMode st mode = RADIUS_MIN)
   \<and> (a \<le> b \<longrightarrow> nodeRadius (Some a) \<le> nodeRadius (Some b))
   \<and> (4294967296 \<le> b \<longrightarrow> nodeRadius (Some b) = RADIUS_MAX)"
proof -
  have "RADIUS_MIN \<le> radiusForMode st mode \<and> radiusForMode st mode \<le> RADIUS_MAX"
    using clamp_bounds radius_limits nodeRadius_bounds by (simp add: radiusForMode_def split: option.splits)
  moreover have "nsVisual st = None \<longrightarrow> radiusForMode st mode = RADIUS_MIN"
    by (simp add: radiusForMode_def observed_number_def lensValue_def nodeRadius_def)
  ultimately show ?thesis using nodeRadius_mono nodeRadius_top by blast
qed

lemma node_radius_bounded_monotone_witness:
  "nodeRadius (Some 1048576) \<le> nodeRadius (Some 2097152) \<and> nodeRadius (Some 8589934592) = RADIUS_MAX"
  using node_radius_bounded_monotone [of _ _ 1048576 2097152]
    node_radius_bounded_monotone [of _ _ 0 8589934592] by simp

section \<open>Edges are observed relationships\<close>

text \<open>A node whose parent was observed: a snapshot of it names the parent, which a snapshot names as the engine.\<close>

definition saw_parent :: "canonical_event list \<Rightarrow> rat \<Rightarrow> rat \<Rightarrow> bool" where
  "saw_parent events pid parent \<longleftrightarrow>
     (\<exists>e \<in> set events. evType e = Process_snapshot \<and> metricNumber (field (evPayload e) ''pid'') = Some pid
        \<and> metricNumber (field (evPayload e) ''ppid'') = Some parent)
   \<and> (\<exists>e \<in> set events. evType e = Process_snapshot
        \<and> metricNumber (field (evPayload e) ''capsEnginePid'') = Some parent)"

lemma engine_pid_seen:
  assumes "engine_pid events = Some q"
  shows "\<exists>e \<in> set events. evType e = Process_snapshot
           \<and> metricNumber (field (evPayload e) ''capsEnginePid'') = Some q"
  using assms unfolding engine_pid_def
proof (induction events rule: rev_induct)
  case (snoc e es)
  thus ?case by (auto simp: engine_step_def first_known_def split: if_splits option.splits)
qed simp

lemma observe_simps [simp]:
  "rnRole (observe_snapshot base e n) = rnRole n" "rnPid (observe_snapshot base e n) = rnPid n"
  "rnParentPid (observe_snapshot base e n) = rnParentPid n"
  "rnObservedPpid (observe_snapshot base e n) = first_known (metricNumber (field (evPayload e) ''ppid'')) (rnObservedPpid n)"
  by (simp_all add: observe_snapshot_def Let_def split: option.splits)

lemma fold_observe:
  "rnRole (fold (observe_snapshot base) es n) = rnRole n" "rnPid (fold (observe_snapshot base) es n) = rnPid n"
  "rnParentPid (fold (observe_snapshot base) es n) = rnParentPid n"
  "rnObservedPpid (fold (observe_snapshot base) es n) = Some q \<Longrightarrow>
     rnObservedPpid n = Some q \<or> (\<exists>e \<in> set es. metricNumber (field (evPayload e) ''ppid'') = Some q)"
proof -
  show "rnRole (fold (observe_snapshot base) es n) = rnRole n" "rnPid (fold (observe_snapshot base) es n) = rnPid n"
    "rnParentPid (fold (observe_snapshot base) es n) = rnParentPid n"
    by (induction es arbitrary: n) simp_all
  show "rnObservedPpid (fold (observe_snapshot base) es n) = Some q \<Longrightarrow>
     rnObservedPpid n = Some q \<or> (\<exists>e \<in> set es. metricNumber (field (evPayload e) ''ppid'') = Some q)"
  proof (induction es arbitrary: n)
    case (Cons e es)
    from Cons.prems have "rnObservedPpid (fold (observe_snapshot base) es (observe_snapshot base e n)) = Some q" by simp
    from Cons.IH [OF this] show ?case by (auto simp: first_known_def split: option.splits)
  qed simp
qed

lemma set_update_subset:
  "set (AList.update k v m) \<subseteq> insert (k, v) (set m)"
  by (induction m) auto

lemma started_nodes_fresh:
  assumes "(k, n) \<in> set (fold (start_node base) es m)"
    "\<And>k n. (k, n) \<in> set m \<Longrightarrow> rnObservedPpid n = None \<and> rnParentPid n = None \<and> rnRole n = Child"
  shows "rnObservedPpid n = None \<and> rnParentPid n = None \<and> rnRole n = Child"
  using assms
proof (induction es arbitrary: m)
  case (Cons e es)
  have "rnObservedPpid n' = None \<and> rnParentPid n' = None \<and> rnRole n' = Child"
    if "(k', n') \<in> set (start_node base e m)" for k' n'
    using that Cons.prems(2) [of k' n'] set_update_subset
    by (auto simp: start_node_def fresh_node_def split: option.splits if_splits dest!: subsetD [OF set_update_subset])
  thus ?case using Cons.IH [of "start_node base e m"] Cons.prems(1) by simp
qed auto

lemma raw_parent_seen:
  assumes "n \<in> set (collectRawNodes events base)" "rnParentPid n = Some q"
  shows "rnRole n = Child \<and> saw_parent events (rnPid n) q"
proof -
  define started where "started = fold (start_node base) events []"
  from assms(1) obtain k m where m: "(k, m) \<in> set (add_engine events base (observe_nodes events base started))"
      and n: "n = finish_node events base m"
    by (auto simp: collectRawNodes_def started_def)
  have m_facts: "rnParentPid m = None \<and>
      (rnRole m = Child \<longrightarrow> (\<forall>p. rnObservedPpid m = Some p \<longrightarrow>
        (\<exists>e \<in> set (snapshots_of events (rnPid m)). metricNumber (field (evPayload e) ''ppid'') = Some p)))"
  proof (cases "(k, m) \<in> set (observe_nodes events base started)")
    case True
    then obtain m0 where m0: "(k, m0) \<in> set started"
        "m = fold (observe_snapshot base) (snapshots_of events (rnPid m0)) m0" by (auto simp: observe_nodes_def)
    have "rnObservedPpid m0 = None \<and> rnParentPid m0 = None \<and> rnRole m0 = Child"
      by (rule started_nodes_fresh [OF m0(1) [unfolded started_def]]) simp
    thus ?thesis using fold_observe [of base "snapshots_of events (rnPid m0)" m0] m0(2) by auto
  next
    case False
    hence "rnRole m = Caps_engine \<and> rnParentPid m = None" using m
      by (auto simp: add_engine_def Let_def fresh_node_def split: option.splits dest!: subsetD [OF set_update_subset])
    thus ?thesis by simp
  qed
  have child: "rnRole m = Child"
    using n assms(2) m_facts by (auto simp: finish_node_def split: if_splits)
  define m1 where "m1 = (case end_event events (rnPid m) of
      None \<Rightarrow> m
    | Some e \<Rightarrow> m\<lparr>rnEndedAtMs := Some (at_ms base e), rnEndSequence := Some (evSequence e)\<rparr>)"
  have m1: "rnObservedPpid m1 = rnObservedPpid m" "rnParentPid m1 = rnParentPid m" "rnRole m1 = rnRole m"
    "rnPid m1 = rnPid m" by (simp_all add: m1_def split: option.splits)
  have "n = (if engine_pid events \<noteq> None \<and> rnObservedPpid m1 \<noteq> None
      then m1\<lparr>rnParentPid := (if rnObservedPpid m1 = engine_pid events then engine_pid events else None)\<rparr> else m1)"
    using child by (simp add: n finish_node_def Let_def m1_def)
  hence "rnObservedPpid m = Some q" "engine_pid events = Some q" "rnPid n = rnPid m" "rnRole n = Child"
    using assms(2) m1 m_facts child by (auto split: if_splits)
  moreover obtain e where "e \<in> set (snapshots_of events (rnPid m))"
      "metricNumber (field (evPayload e) ''ppid'') = Some q"
    using m_facts child \<open>rnObservedPpid m = Some q\<close> by blast
  ultimately show ?thesis using engine_pid_seen [of events q] by (auto simp: saw_parent_def snapshots_of_def)
qed

lemma zip_index_snd: "x \<in> set (zip [0..<length xs] xs) \<Longrightarrow> snd x \<in> set xs"
  by (metis prod.collapse set_zip_rightD)

lemma end_engine_simps [simp]:
  "snKey (end_engine t n) = snKey n" "snRole (end_engine t n) = snRole n" "snPid (end_engine t n) = snPid n"
  "snParentVerified (end_engine t n) = snParentVerified n" "snParentKey (end_engine t n) = snParentKey n"
  "snParentPid (end_engine t n) = snParentPid n"
  by (simp_all add: end_engine_def split: option.splits)

lemma ordered_child:
  assumes "c \<in> set (orderNodes raw sid)" "snParentVerified c"
  shows "\<exists>n p. n \<in> set raw \<and> rnRole n = Child \<and> p \<in> set (orderNodes raw sid) \<and> snRole p = Caps_engine
     \<and> rnParentPid n = Some (snPid p) \<and> snPid c = rnPid n \<and> snRole c = Child
     \<and> snParentKey c = Some (snKey p) \<and> snParentPid c = Some (snPid p)"
proof -
  define engine where "engine = sort_key by_creation (filter (\<lambda>n. rnRole n = Caps_engine) raw)"
  define children where "children = sort_key by_creation (filter (\<lambda>n. rnRole n = Child) raw)"
  have nodes: "orderNodes raw sid =
      map (\<lambda>(slot, n). space_node_of sid slot n None) (zip [0..<length engine] engine)
      @ map (\<lambda>(slot, n). space_node_of sid slot n (find (\<lambda>c. Some (rnPid c) = rnParentPid n) engine))
          (zip [0..<length children] children)"
    by (simp add: orderNodes_def engine_def children_def Let_def)
  have "c \<notin> set (map (\<lambda>(slot, n). space_node_of sid slot n None) (zip [0..<length engine] engine))"
    using assms(2) by (auto simp: space_node_of_def)
  then obtain x where x: "x \<in> set (zip [0..<length children] children)"
      "c = space_node_of sid (fst x) (snd x) (find (\<lambda>c. Some (rnPid c) = rnParentPid (snd x)) engine)"
    using assms(1) by (auto simp: nodes split_def)
  from assms(2) x(2) obtain p where p: "find (\<lambda>c. Some (rnPid c) = rnParentPid (snd x)) engine = Some p"
    by (auto simp: space_node_of_def)
  hence pe: "p \<in> set engine" "rnParentPid (snd x) = Some (rnPid p)" by (auto simp: find_Some_iff)
  have "snd x \<in> set children" using zip_index_snd [OF x(1)] .
  hence n: "snd x \<in> set raw" "rnRole (snd x) = Child" by (simp_all add: children_def)
  from pe(1) obtain i where i: "i < length engine" "engine ! i = p" by (auto simp: in_set_conv_nth)
  hence "(i, p) \<in> set (zip [0..<length engine] engine)"
    by (auto simp: in_set_zip intro!: exI [of _ i])
  hence "space_node_of sid i p None \<in> set (orderNodes raw sid)" by (force simp: nodes)
  moreover have "rnRole p = Caps_engine" using pe(1) by (simp add: engine_def)
  ultimately show ?thesis using n pe x(2) p
    by (intro exI [of _ "snd x"] exI [of _ "space_node_of sid i p None"]) (simp add: space_node_of_def)
qed

text \<open>C34: Every edge of the scene is an observed relationship: it leads from an engine node to a child
  node of the scene, a recorded snapshot of the child names the engine's PID as its parent, and a recorded
  snapshot names that PID as the engine.\<close>
theorem edges_are_observed:
  assumes "edge \<in> set (psEdges (buildProcessSpace events))"
  shows "\<exists>p c. p \<in> set (psNodes (buildProcessSpace events)) \<and> c \<in> set (psNodes (buildProcessSpace events))
     \<and> snRole p = Caps_engine \<and> snRole c = Child \<and> seFromKey edge = snKey p \<and> seToKey edge = snKey c
     \<and> seFromPid edge = Some (snPid p) \<and> seToPid edge = snPid c \<and> saw_parent events (snPid c) (snPid p)"
proof -
  define base where "base = event_base events"
  define sid where "sid = (case events of [] \<Rightarrow> ''unknown-session'' | e # _ \<Rightarrow> evSessionId e)"
  define raw where "raw = collectRawNodes events base"
  define t where "t = space_terminal_of events base"
  have nodes: "psNodes (buildProcessSpace events) = map (end_engine t) (orderNodes raw sid)"
    by (simp add: buildProcessSpace_def Let_def space_nodes_def base_def sid_def raw_def t_def)
  have "psEdges (buildProcessSpace events) = List.map_filter edge_of (psNodes (buildProcessSpace events))"
    by (simp add: buildProcessSpace_def Let_def)
  then obtain c' where c': "c' \<in> set (psNodes (buildProcessSpace events))" "edge_of c' = Some edge"
    using assms by (auto simp: List.map_filter_def)
  then obtain c where c: "c \<in> set (orderNodes raw sid)" "c' = end_engine t c" by (auto simp: nodes)
  have v: "snParentVerified c" and edge: "snParentKey c = Some (seFromKey edge)" "seToKey edge = snKey c"
      "seFromPid edge = snParentPid c" "seToPid edge = snPid c"
    using c'(2) c(2) by (auto simp: edge_of_def split: option.splits if_splits)
  from ordered_child [OF c(1) v] obtain n p where n: "n \<in> set raw" "rnRole n = Child"
      "p \<in> set (orderNodes raw sid)" "snRole p = Caps_engine" "rnParentPid n = Some (snPid p)"
      "snPid c = rnPid n" "snRole c = Child" "snParentKey c = Some (snKey p)" "snParentPid c = Some (snPid p)"
    by blast
  have "saw_parent events (snPid c) (snPid p)"
    using raw_parent_seen [OF n(1) [unfolded raw_def] n(5)] n(6) by simp
  thus ?thesis using n c'(1) c(2) edge
    by (intro exI [of _ "end_engine t p"] exI [of _ c']) (simp add: nodes)
qed

section \<open>A cursor shows the recorded past\<close>







section \<open>Runs\<close>

definition plain_event :: "int \<Rightarrow> int \<Rightarrow> event_type \<Rightarrow> rat option \<Rightarrow> payload \<Rightarrow> canonical_event" where
  "plain_event s t ty pid p =
     \<lparr>evId = [], evSessionId = ''s1'', evSequence = s, evType = ty, evSource = Gateway,
      evTimestamp = t, evMonotonicMs = None, evPid = pid, evPayload = p\<rparr>"

lemma plain_event_simps [simp]:
  "evSequence (plain_event s t ty pid p) = s" "evTimestamp (plain_event s t ty pid p) = t"
  "evType (plain_event s t ty pid p) = ty" "evPid (plain_event s t ty pid p) = pid"
  "evPayload (plain_event s t ty pid p) = p" "evSessionId (plain_event s t ty pid p) = ''s1''"
  by (simp_all add: plain_event_def)

text \<open>A child whose wait failed, before the execution ended with \<open>ty\<close>.\<close>

definition wait_failed_run :: "event_type \<Rightarrow> canonical_event list" where
  "wait_failed_run ty =
     [plain_event 1 0 Process_started (Some 7) [], plain_event 2 10 Process_wait_failed (Some 7) [],
      plain_event 3 100 ty None []]"

text \<open>A child sampled with its parent, the engine.\<close>

definition parented_run :: "canonical_event list" where
  "parented_run =
     [plain_event 1 0 Process_started (Some 7) [],
      plain_event 2 10 Process_snapshot (Some 7)
        [(''pid'', metric_of (JNum 7)), (''ppid'', metric_of (JNum 3)), (''capsEnginePid'', metric_of (JNum 3))]]"

lemma metric_number_of [simp]: "metricNumber (Some (metric_of (JNum v))) = Some v"
  by (simp add: metricNumber_def metric_of_def UNAVAILABLE_WORD_def field_def)

lemma metric_text_None [simp]: "metricText None = None" "metricNumber None = None"
  by (simp_all add: metricText_def metricNumber_def)

definition orphan :: raw_node where
  "orphan = (fresh_node Child 7 ''CAPS child'' (Some ''CAPS child'') 0 1 False)
     \<lparr>rnEndedAtMs := Some 10, rnEndSequence := Some 2\<rparr>"

definition orphan_node :: space_node where
  "orphan_node = space_node_of ''s1'' 0 orphan None"

definition verdict_type :: "event_type \<Rightarrow> bool" where
  "verdict_type ty \<longleftrightarrow> ty = Execution_completed \<or> ty = Execution_timeout"

lemma verdict_not [simp]:
  "verdict_type ty \<Longrightarrow> ty \<noteq> Process_started" "verdict_type ty \<Longrightarrow> ty \<noteq> Process_snapshot"
  "verdict_type ty \<Longrightarrow> ty \<in> set EXECUTION_TERMINALS"
  by (auto simp: verdict_type_def EXECUTION_TERMINALS_def)

lemma run_base: "event_base (wait_failed_run ty) = 0"
  by (simp add: event_base_def wait_failed_run_def)

lemma wait_failed_raw:
  assumes "verdict_type ty"
  shows "collectRawNodes (wait_failed_run ty) 0 = [orphan]"
proof -
  have engine: "engine_pid (wait_failed_run ty) = None"
    using assms by (simp add: engine_pid_def engine_step_def wait_failed_run_def)
  have started: "fold (start_node 0) (wait_failed_run ty) [] =
      [((Child, 7), fresh_node Child 7 ''CAPS child'' (Some ''CAPS child'') 0 1 False)]"
    using assms by (simp add: start_node_def wait_failed_run_def field_def at_ms_def)
  have none: "snapshots_of (wait_failed_run ty) pid = []" for pid
    using assms by (simp add: snapshots_of_def wait_failed_run_def)
  have ended: "end_event (wait_failed_run ty) 7 = Some (plain_event 2 10 Process_wait_failed (Some 7) [])"
    by (simp add: end_event_def wait_failed_run_def END_TYPES_def)
  show ?thesis
    by (simp add: collectRawNodes_def started observe_nodes_def none add_engine_def engine finish_node_def
        orphan_def fresh_node_def ended at_ms_def)
qed

lemma wait_failed_terminal:
  assumes "verdict_type ty"
  shows "space_terminal_of (wait_failed_run ty) 0 = Some \<lparr>stType = ty, stState = terminal_state ty, stAtMs = 100\<rparr>"
  using assms by (simp add: space_terminal_of_def wait_failed_run_def at_ms_def)

lemma orphan_node_simps [simp]:
  "snRole orphan_node = Child" "snPid orphan_node = 7" "snCreatedAtMs orphan_node = 0"
  "snEndedAtMs orphan_node = Some 10" "snKey orphan_node = (Child, 7, ''?'')"
  by (simp_all add: orphan_node_def space_node_of_def orphan_def fresh_node_def rekeyNodes_def raw_identity_def
      nodeKeyFor_def)

lemma wait_failed_nodes:
  assumes "verdict_type ty"
  shows "space_nodes (wait_failed_run ty) = [orphan_node]"
proof -
  have sid: "(case wait_failed_run ty of [] \<Rightarrow> ''unknown-session'' | e # _ \<Rightarrow> evSessionId e) = ''s1''"
    by (simp add: wait_failed_run_def)
  have role: "rnRole orphan = Child" "rnParentPid orphan = None" by (simp_all add: orphan_def fresh_node_def)
  have "orderNodes [orphan] ''s1'' = [orphan_node]"
    by (simp add: orderNodes_def role orphan_node_def)
  moreover have "end_engine t orphan_node = orphan_node" for t
    by (simp add: end_engine_def split: option.splits)
  ultimately show ?thesis
    by (simp add: space_nodes_def Let_def run_base wait_failed_raw [OF assms] sid)
qed

lemma wait_failed_markers:
  assumes "verdict_type ty"
  shows "fold terminal_marker_step (buildMarkers (wait_failed_run ty) 0 [orphan_node]) Map.empty k = None"
    "fold signal_step (buildMarkers (wait_failed_run ty) 0 [orphan_node]) Map.empty k = None"
  using assms
  by (auto simp: verdict_type_def buildMarkers_def wait_failed_run_def List.map_filter_simps marker_of_def
      MARKER_TONES_def terminal_marker_step_def signal_step_def node_by_pid_def)

text \<open>A process whose wait failed is shown as completed, because such an event makes no marker; and
  a cursor before the end of the execution already shows the verdict of the end: the process that ended at
  10 is shown as timed out at 20, although the timeout was recorded at 100.\<close>
theorem cursor_state_gaps:
  "map nsState (spaceAt (buildProcessSpace (wait_failed_run Execution_completed)) (Some 20)) = [L_COMPLETED]
   \<and> map nsState (spaceAt (buildProcessSpace (wait_failed_run Execution_timeout)) (Some 20)) = [L_TIMED_OUT]"
proof -
  have "map nsState (spaceAt (buildProcessSpace (wait_failed_run ty)) (Some 20)) = [terminal_state ty]"
    if v: "verdict_type ty" for ty
  proof -
    define space where "space = buildProcessSpace (wait_failed_run ty)"
    have "psNodes space = [orphan_node]" "psTerminalMarker space k = None" "psSignal space k = None"
      "psTerminal space = Some \<lparr>stType = ty, stState = terminal_state ty, stAtMs = 100\<rparr>" for k
      by (simp_all add: space_def buildProcessSpace_def Let_def run_base wait_failed_nodes [OF v]
          wait_failed_markers [OF v] wait_failed_terminal [OF v])
    thus ?thesis using v unfolding space_def [symmetric]
      by (auto simp: spaceAt_def nodeStateAt_def ended_state_def terminal_state_def verdict_type_def Let_def)
  qed
  from this [of Execution_completed] this [of Execution_timeout] show ?thesis
    by (simp add: verdict_type_def terminal_state_def)
qed


definition engine_three :: raw_node where
  "engine_three = fresh_node Caps_engine 3 ''CAPS engine'' None 0 0 True"

definition parented :: raw_node where
  "parented = (fresh_node Child 7 ''CAPS child'' (Some ''CAPS child'') 0 1 False)
     \<lparr>rnObservedPpid := Some 3, rnParentPid := Some 3\<rparr>"

lemma parented_raw: "collectRawNodes parented_run 0 = [parented, engine_three]"
proof -
  have engine: "engine_pid parented_run = Some 3"
    by (simp add: engine_pid_def engine_step_def parented_run_def first_known_def field_def)
  have started: "fold (start_node 0) parented_run [] =
      [((Child, 7), fresh_node Child 7 ''CAPS child'' (Some ''CAPS child'') 0 1 False)]"
    by (simp add: start_node_def parented_run_def field_def at_ms_def)
  have snaps: "snapshots_of parented_run 7 = [plain_event 2 10 Process_snapshot (Some 7)
      [(''pid'', metric_of (JNum 7)), (''ppid'', metric_of (JNum 3)), (''capsEnginePid'', metric_of (JNum 3))]]"
    by (simp add: snapshots_of_def parented_run_def field_def)
  have none: "end_event parented_run 7 = None"
    "find (\<lambda>e. evType e = Execution_started \<or> evType e = Execution_created) parented_run = None"
    by (simp_all add: end_event_def parented_run_def END_TYPES_def)
  have observed: "observe_nodes parented_run 0 [((Child, 7), fresh_node Child 7 ''CAPS child'' (Some ''CAPS child'') 0 1 False)] =
      [((Child, 7), (fresh_node Child 7 ''CAPS child'' (Some ''CAPS child'') 0 1 False)\<lparr>rnObservedPpid := Some 3\<rparr>)]"
    by (simp add: observe_nodes_def fresh_node_def snaps observe_snapshot_def first_known_def field_def)
  show ?thesis
    unfolding collectRawNodes_def started observed
    by (simp add: add_engine_def engine none finish_node_def engine_three_def parented_def fresh_node_def)
qed

lemma edges_are_observed_witness:
  "length (psEdges (buildProcessSpace parented_run)) = 1 \<and> saw_parent parented_run 7 3"
proof -
  have roles: "rnRole parented = Child" "rnRole engine_three = Caps_engine" "rnPid parented = 7"
    "rnPid engine_three = 3" "rnParentPid parented = Some 3"
    by (simp_all add: parented_def engine_three_def fresh_node_def)
  have base: "event_base parented_run = 0" by (simp add: event_base_def parented_run_def)
  have t: "space_terminal_of parented_run 0 = None"
    by (simp add: space_terminal_of_def parented_run_def EXECUTION_TERMINALS_def)
  have nodes: "space_nodes parented_run =
      [space_node_of ''s1'' 0 engine_three None, space_node_of ''s1'' 0 parented (Some engine_three)]"
    by (simp add: space_nodes_def Let_def base parented_raw orderNodes_def roles t end_engine_def)
      (simp add: parented_run_def)
  have edges: "psEdges (buildProcessSpace parented_run) =
      [\<lparr>seFromKey = rekeyNodes engine_three, seToKey = rekeyNodes parented, seFromPid = Some 3, seToPid = 7,
        seCreatedAtMs = rnCreatedAtMs parented\<rparr>]"
    by (simp add: buildProcessSpace_def Let_def nodes List.map_filter_simps edge_of_def space_node_of_def roles)
  have "hd (psEdges (buildProcessSpace parented_run)) \<in> set (psEdges (buildProcessSpace parented_run))"
    by (simp add: edges)
  from edges_are_observed [OF this] have "saw_parent parented_run 7 3" unfolding edges by auto
  thus ?thesis by (simp add: edges)
qed

end
