(* ===== verification/Spec2Isabelle.thy ===== *)
theory Spec2Isabelle
  imports Event_Invariants Stream_Protocol Normalizer Terminal_Execution Boundary_Runs Live_Stream Sampler_Histories Host_Disk Host_Frequency Host_Stream Process_Space
begin

text \<open>
  A model of the gateway of CAPS in \<^verbatim>\<open>web/backend/src\<close>: the Node process that takes a
  request to run a command, decides whether it may, starts the C engine on it, records what the
  engine reports as a stream of canonical events, and serves that stream live and as a replay; and of
  the view models that \<^verbatim>\<open>web/frontend/src/lib\<close> derives from those events.

  \<^bold>\<open>The program and the theories.\<close>  Every definition is declared at the top level of its theory,
  under the name the source gives it.

  \<^item> \<open>Prelude\<close> holds what the components share: JavaScript's notions of blanks, splitting and slicing,
    JSON values, decimal texts, the \<open>keyed_store\<close> interface.  \<open>Decimal\<close> reads and prints decimals.
  \<^item> \<open>Observability\<close> is \<^verbatim>\<open>types/observability.ts\<close>: event types, the event envelope, statuses.
  \<^item> \<open>Event_Invariants\<close> is \<^verbatim>\<open>events/invariants.ts\<close>, the validator of a session's stream, with a
    loop-free specification of a coherent stream.
  \<^item> \<open>Stream_Protocol\<close> (\<^verbatim>\<open>execution/output.ts\<close>, \<^verbatim>\<open>parser.ts\<close>) cuts and classifies the engine's
    stderr; \<open>Normalizer\<close> (\<^verbatim>\<open>execution/normalizer.ts\<close>) turns a protocol object into an event.
  \<^item> \<open>Regex\<close> and \<open>Program_Policy\<close> are \<^verbatim>\<open>catalog/programPolicy.ts\<close>, the scan of awk and sed programs;
    \<open>Path_Policy\<close> is \<^verbatim>\<open>security/policy.ts\<close>; \<open>Workload_Catalog\<close>, \<open>Command_Catalog\<close> and
    \<open>Argument_Policy\<close> are \<^verbatim>\<open>execution/workloadCatalog.ts\<close>, \<^verbatim>\<open>catalog/commands.ts\<close> and
    \<^verbatim>\<open>catalog/validation.ts\<close>: which command, executable and arguments a request may name.
  \<^item> \<open>Event_Store\<close> is \<^verbatim>\<open>db/repositories\<close>: the two tables with their constraints, writes that can
    throw, and the interface \<open>event_log\<close> they keep.
  \<^item> \<open>Process_Identity\<close> is \<^verbatim>\<open>execution/terminator.ts\<close>: whom a signal may reach.
  \<^item> \<open>Session_Registry\<close> is \<^verbatim>\<open>execution/registry.ts\<close>: a \<open>Map\<close> over a heap of session objects.
  \<^item> \<open>Thermal_Guard\<close> is \<^verbatim>\<open>execution/thermalGuard.ts\<close>: the admission decision from a sensor.
  \<^item> \<open>Runner\<close> is \<^verbatim>\<open>execution/runner.ts\<close>: every handler as a function on one record \<open>world\<close> that
    holds the database, the registry, the buffers, the bus, the sampling loops, the pending
    escalations and the logged losses.
  \<^item> \<open>Live_Stream\<close> is \<^verbatim>\<open>events/bus.ts\<close>, \<^verbatim>\<open>events/sse.ts\<close> and the two event streams of
    \<^verbatim>\<open>api/routes.ts\<close>.
  \<^item> \<open>Engine_Lexer\<close> is the command-line lexer of the C engine (\<^verbatim>\<open>src/src/parser.c\<close>) and its
    \<^verbatim>\<open>--inspect\<close> document; \<open>Terminal_Grammar\<close> is \<^verbatim>\<open>terminal/grammar.ts\<close>, which asks that lexer,
    validates every stage and rebuilds the line; \<open>Terminal_Execution\<close> puts the two together.
  \<^item> \<open>Process_Telemetry\<close> is \<^verbatim>\<open>telemetry/collector.ts\<close>, \<^verbatim>\<open>derive.ts\<close> and \<^verbatim>\<open>types.ts\<close>: one snapshot of a
    process from procfs; \<open>Telemetry_Sampler\<close> is \<^verbatim>\<open>telemetry/sampler.ts\<close>, the loops that take them.
  \<^item> \<open>Host_Metric\<close> is \<^verbatim>\<open>telemetry/system/types.ts\<close> and \<^verbatim>\<open>read.ts\<close>, the metric of the host collectors and
    the reading of kernel files; \<open>Host_Cpu\<close> is \<^verbatim>\<open>telemetry/system/cpu.ts\<close>, \<open>Host_Memory\<close>
    \<^verbatim>\<open>memory.ts\<close> and \<^verbatim>\<open>pressure.ts\<close>, \<open>Host_Devices\<close> \<^verbatim>\<open>network.ts\<close>,
    \<open>Host_Disk\<close> \<^verbatim>\<open>disk.ts\<close>, \<open>Host_Frequency\<close> \<^verbatim>\<open>frequency.ts\<close> and the identity of \<^verbatim>\<open>collector.ts\<close>, and \<open>Host_Processes\<close>
    \<^verbatim>\<open>processes.ts\<close> of the same directory; \<open>Host_Lines\<close> has what their parsers share.
  \<^item> \<open>Host_Stream\<close> is \<^verbatim>\<open>events/systemStream.ts\<close> with the snapshot tables of
    \<^verbatim>\<open>db/repositories/system.ts\<close> and the stream route of \<^verbatim>\<open>api/system.ts\<close>: a transition system of ticks,
    connections, disconnections, sweeps and restarts, independent of the executions.
  \<^item> \<open>Analytics\<close> is \<^verbatim>\<open>analytics/service.ts\<close>: overview, command profiles, runtime peaks and comparison, from
    the rows the repositories answer.
  \<^item> \<open>Telemetry_View\<close>, \<open>Evidence_Index\<close> and \<open>Process_Space\<close> are \<^verbatim>\<open>telemetry.ts\<close>, \<^verbatim>\<open>evidenceCorrelation.ts\<close>
    and \<^verbatim>\<open>processSpace.ts\<close> of \<^verbatim>\<open>web/frontend/src/lib\<close>: samples and tracks, the index that says which
    process and moment a selection refers to, and the scene with the state of each process at a cursor.
    Each reads the events a session has stored, and \<open>Process_Space\<close> takes its samples, visual states
    and keys from the other two.

  \<^bold>\<open>How the parts interact.\<close>  \<open>Execution\<close> composes them: an \<open>action\<close> is one turn of the event loop
  with everything the environment contributes to it, \<open>perform\<close> the handler it runs, \<open>enabled\<close> when
  the platform can deliver it, and \<open>reachable\<close> the states of all runs from an empty database, with
  any interleaving of sessions, failing writes, sweeps of the registry, restarts and recovery.  Two
  operations of the store are not actions: the deletion of a session, which only a route performs
  (\<^verbatim>\<open>api/routes.ts\<close>), and the purge of old sessions by the retention timer (\<^verbatim>\<open>server.ts\<close>).  What is said
  of every turn and of every reachable state is said of runs without them; after one, the replay of a
  removed session is empty while its events were published.  The gateway has one
  thread, so a handler is not interleaved with another; what it awaits is a later action.  A handler
  from which an exception escapes is \<open>Threw\<close> with the state it leaves behind.

  \<^bold>\<open>What the lemmas show.\<close>
  \<^item> In \<open>Execution\<close> every turn refines an append-only log: what is appended is published, in order,
    but for creations; so live delivery and replay never disagree.
  \<^item> \<open>Execution_Invariants\<close> keeps the tables, the registry and the counters well-formed in every
    reachable state; a replay never violates I1, I2, I3, I8 or I9.
  \<^item> \<open>Session_Frames\<close> says what a handler leaves alone (\<open>untouched\<close>) and gives the handlers with
    several ways through their case analyses.
  \<^item> \<open>Session_Lifecycle\<close> follows one session through an undisturbed run (\<open>calm_run\<close>): its stored
    stream is complete and ends exactly once unless a loss of one of its events was logged, and the end
    of the child ends it.  Undisturbed means
    that it is not swept while it runs, that nothing arrives on its stderr after its end was
    recorded, and that no handler of the run let an exception escape.
  \<^item> \<open>Verdict_Evidence\<close>: a row says COMPLETED only on an engine event in the stored stream, unless a
    loss was logged: the handler observes an event that could not be stored.
  \<^item> \<open>Runner_Properties\<close>: admission, refusal, retention, finalization, non-interference.
  \<^item> \<open>Boundary_Runs\<close>: executions that leave those promises, and why the hypotheses of
    \<open>calm_run\<close> are needed.
  \<^item> \<open>Live_Stream\<close>: a client that attaches at any moment of an undisturbed run without losses, and whose
    writes succeed, receives the replay, without gap or repetition, also across reconnects.
  \<^item> \<open>Terminal_Execution\<close>: the engine lexes a rebuilt line to the stages that were validated, but for
    an empty last argument before a redirection, or refuses it for its length.
  \<^item> \<open>Sampler_Histories\<close>: over any run of the sampler, the contract of every sample, whose samples
    they are, and that none follows the end of a loop.
  \<^item> \<open>Host_Cpu\<close>, \<open>Host_Processes\<close>: exactly when a CPU share is published and that the shares are one
    whole; that a pass accounts for every process, and that no row ever has a CPU percentage.
  \<^item> \<open>Host_Memory\<close>: files as the kernel prints them are read back exactly.  \<open>Host_Devices\<close>,
    \<open>Host_Disk\<close>: over any run of passes the rates of an interface or a device add up, in exact arithmetic, to
    the growth of its counter from each sighting to the next, without the steps that were reset.  \<open>Host_Frequency\<close>: each policy is found once, under an admitted name.
  \<^item> \<open>Host_Stream\<close>: in every reachable state no subscriber has a frame waiting or dropped, and
    every subscriber is sent every snapshot, whether the database took it or not; what was refused
    cannot be replayed.  In a run in which every save succeeds (\<open>steady_step\<close>, an assumption of
    those lemmas alone), which ids a client has received at any moment, and what a restart over old rows does.
  \<^item> \<open>Analytics\<close>: peaks are first maxima, percentiles nearest ranks, and counts account for every row.
  \<^item> \<open>Telemetry_View\<close>: the front end's summary is the gateway's, thinning keeps each track's peak and
    scale, scales are normalised, and a cursor selects the nearest sample.
  \<^item> \<open>Evidence_Index\<close>: the lookup tables agree with the shared records through every promotion of a
    key; a lookup never crosses processes, and a resolved cursor was recorded; what the resolved key misses.
  \<^item> \<open>Process_Space\<close>: the ruler's loop ends, edges are observed, the sample shown of a node is a recorded one that is not
    after the cursor, sizes are bounded and follow the memory; two states that say more than the record.
  \<^item> In the policy theories: exactly what is accepted and refused, confinement of paths, bounds of
    numbers, and concrete requests the documentation refuses and the code accepts.
  \<^item> \<open>Sample_Runs\<close> evaluates a whole execution, to which the properties of runs are applied.

  \<^bold>\<open>Interfaces.\<close>  \<open>keyed_store\<close> (\<open>Prelude\<close>) is interpreted by the registry, \<open>event_log\<close>
  (\<open>Event_Store\<close>) by the tables; the properties of replays rest on \<open>store.\<close> facts.  \<open>process_index\<close>
  (\<open>Evidence_Index\<close>) is what lookups rely on, interpreted by the tables built from any events; the
  lookups rest on \<open>built.\<close> facts.  \<open>printed_lines\<close> (\<open>Host_Lines\<close>) is a file read line by line, interpreted
  by the readers of memory and pressure; \<open>rate_collector\<close> (\<open>Host_Devices\<close>) is the contract of a collector
  of rates for one counter (what a pass without a file, one without the counter, and one that sees it
  keeps and states), interpreted by the passes of network and disk.

  \<^bold>\<open>What is an argument of the model.\<close>  \<open>JSON.parse\<close>, the printing of a number, the id generator,
  the clock, the answers of the database (whether a statement succeeds), of procfs, of \<open>kill\<close> and
  of the pidfd helper, the reply of the engine to \<^verbatim>\<open>--inspect\<close> (\<open>ask\<close>, which the hypothesis
  \<open>engine_answers\<close> relates to \<open>Engine_Lexer\<close>), the kernel files and the listing of \<^verbatim>\<open>/proc\<close> and the directories and links of sysfs (\<open>kfiles\<close>,
  \<open>proc_pass\<close>, \<open>kdirs\<close>), \<open>statfs\<close>, the collation of names (\<open>rank\<close>), the blocks of a host snapshot other than its sequence, time and boot, the sensors found by discovery and the content of a sensor file, the file
  system seen by a policy.  Nothing is assumed of them but where a theorem says so; ids may repeat,
  and writes may fail at any point.

  \<^bold>\<open>Bounds and fuel.\<close>  All loops of the modelled code run over finite lists and are structural or
  have a measure, but for the ruler's, which is a \<open>while_option\<close> and is proved to end; no fuel is used.  Numbers of the protocol are rationals, sequences and times
  integers.  Rates and percentages are exact rationals where the code computes in doubles and rounds some
  of them, so equalities between them hold in exact arithmetic.  A number of the protocol is finite when a
  double can hold it, as \<open>Number.isFinite\<close> tests after \<open>JSON.parse\<close>.  Numbers beyond the safe integers are checked where the source checks them.  Strings
  are characters below 256, one byte each: lengths count characters, as \<open>String.length\<close> does for
  such text.

  \<^bold>\<open>Not modelled.\<close>  The HTTP routes around these operations, configuration and process start, the
  host collector of thermal zones, the detailed memory map of a process, the health block, the aggregates
  SQL computes and the columns promoted for them, paged search, migrations after the first,
  the pages and components of the front end with their texts and colours, and the C engine but for its lexer; to \<open>Runner\<close> a sample is an action with any
  payload.  Timers are actions that can come at any time while armed, so
  no theorem depends on a duration.
\<close>

end
